(* ===== verification/Prelude.thy ===== *)
theory Prelude
  imports Complex_Main "HOL-Library.AList" "HOL-Library.List_Lexorder" "HOL-Library.Char_ord"
    "HOL-Library.Multiset"
begin

text \<open>
  The vocabulary every component theory shares: error values, JavaScript's \<open>Map\<close> as an
  association list in insertion order (with the interface it satisfies as a locale),
  duplicate removal through \<open>Set\<close>, and the descending sort on creation times the stores use.

  Conventions. A time is a number of milliseconds since the epoch (type \<open>instant\<close>): an ISO
  string made by \<open>toISOString\<close> and read by \<open>Date.parse\<close> is that number, and comparing two such
  strings compares the numbers (years 0 to 9999).  An exception is a value \<open>Inl e\<close>; \<open>null\<close> and
  \<open>undefined\<close> are \<open>None\<close>.  Human-readable messages are dropped, the code and the status kept.
\<close>

section \<open>Named collections\<close>

named_theorems store_simps \<open>how a store operation changes the fields of its state\<close>
named_theorems guard_simps \<open>unfolding of the guards a service checks before it acts\<close>
named_theorems eval_simps \<open>definitions to unfold when a closed instance is evaluated\<close>

section \<open>Times, errors and outcomes\<close>

type_synonym instant = int

datatype error_code =
    VALIDATION_ERROR | NOT_FOUND | CONFLICT | GONE | INVALID_TOKEN | TOKEN_REVOKED
  | TOKEN_EXPIRED | IP_FORBIDDEN | FORBIDDEN_SCOPE | FORBIDDEN | TENANT_FORBIDDEN
  | PAYLOAD_TOO_LARGE | DOWNGRADE_BLOCKED

text \<open>\<open>ApiError code status\<close> is a domain error of a package; \<open>PlainError\<close> is \<open>new Error(...)\<close>.\<close>

datatype error = ApiError error_code nat | PlainError

type_synonym 'a outcome = "error + 'a"

definition and_then :: "('e + 'a) \<Rightarrow> ('a \<Rightarrow> 'e + 'b) \<Rightarrow> 'e + 'b" where
  "and_then r f = (case r of Inl e \<Rightarrow> Inl e | Inr a \<Rightarrow> f a)"

definition require :: "bool \<Rightarrow> error \<Rightarrow> unit outcome" where
  "require b e = (if b then Inr () else Inl e)"

definition returned :: "'a outcome \<Rightarrow> bool" where
  "returned r \<longleftrightarrow> (\<exists>a. r = Inr a)"

lemma and_then_simps [simp]:
  "and_then (Inl e) f = Inl e"
  "and_then (Inr a) f = f a"
  by (simp_all add: and_then_def)

lemma and_then_Inr: "and_then r f = Inr b \<longleftrightarrow> (\<exists>a. r = Inr a \<and> f a = Inr b)"
  by (cases r) simp_all

lemma require_Inr [simp]: "require b e = Inr u \<longleftrightarrow> b"
  by (simp add: require_def)

lemma require_Inl [simp]: "require b e = Inl e' \<longleftrightarrow> \<not> b \<and> e' = e"
  by (auto simp: require_def)

lemma returned_simps [simp]: "returned (Inr a)" "\<not> returned (Inl e)"
  by (simp_all add: returned_def)

lemma returned_cases: "returned r \<longleftrightarrow> (case r of Inl _ \<Rightarrow> False | Inr _ \<Rightarrow> True)"
  by (cases r) simp_all

text \<open>A loop over a list whose body may throw: the first error ends it.\<close>

fun each :: "('a \<Rightarrow> 'e + 'b) \<Rightarrow> 'a list \<Rightarrow> 'e + 'b list" where
  "each f [] = Inr []"
| "each f (x # xs) = and_then (f x) (\<lambda>y. and_then (each f xs) (\<lambda>ys. Inr (y # ys)))"

lemma each_Inr: "each f xs = Inr ys \<longleftrightarrow> list_all2 (\<lambda>x y. f x = Inr y) xs ys"
  by (induction xs arbitrary: ys) (auto simp: and_then_Inr list_all2_Cons1)

section \<open>JavaScript's Map\<close>

text \<open>
  A \<open>Map\<close> iterates in insertion order; \<open>set\<close> on a present key keeps its place. \<open>AList.update\<close>
  and \<open>AList.delete\<close> are exactly these operations on an association list.
\<close>

type_synonym ('k, 'v) jsmap = "('k \<times> 'v) list"

abbreviation js_get :: "('k, 'v) jsmap \<Rightarrow> 'k \<Rightarrow> 'v option" where
  "js_get m k \<equiv> map_of m k"

abbreviation js_set :: "'k \<Rightarrow> 'v \<Rightarrow> ('k, 'v) jsmap \<Rightarrow> ('k, 'v) jsmap" where
  "js_set k v m \<equiv> AList.update k v m"

abbreviation js_delete :: "'k \<Rightarrow> ('k, 'v) jsmap \<Rightarrow> ('k, 'v) jsmap" where
  "js_delete k m \<equiv> AList.delete k m"

abbreviation js_values :: "('k, 'v) jsmap \<Rightarrow> 'v list" where
  "js_values m \<equiv> map snd m"

text \<open>A \<open>Map\<close> holds a key at most once.\<close>

definition js_ok :: "('k, 'v) jsmap \<Rightarrow> bool" where
  "js_ok m \<longleftrightarrow> distinct (map fst m)"

text \<open>The interface the stores rely on: the last \<open>set\<close> of a key is what \<open>get\<close> returns.\<close>

locale keyed_map =
  fixes lookup :: "'m \<Rightarrow> 'k \<Rightarrow> 'v option"
    and put :: "'k \<Rightarrow> 'v \<Rightarrow> 'm \<Rightarrow> 'm"
    and remove :: "'k \<Rightarrow> 'm \<Rightarrow> 'm"
    and ok :: "'m \<Rightarrow> bool"
  assumes lookup_put: "lookup (put k v m) j = (if j = k then Some v else lookup m j)"
    and lookup_remove: "lookup (remove k m) j = (if j = k then None else lookup m j)"
    and ok_put: "ok m \<Longrightarrow> ok (put k v m)"
    and ok_remove: "ok m \<Longrightarrow> ok (remove k m)"
begin

lemma lookup_put_same [simp]: "lookup (put k v m) k = Some v"
  by (simp add: lookup_put)

lemma lookup_put_other: "j \<noteq> k \<Longrightarrow> lookup (put k v m) j = lookup m j"
  by (simp add: lookup_put)

lemma lookup_remove_same [simp]: "lookup (remove k m) k = None"
  by (simp add: lookup_remove)

lemma put_put_same: "lookup (put k w (put k v m)) j = lookup (put k w m) j"
  by (simp add: lookup_put)

lemma remove_put: "lookup (remove k (put k v m)) j = lookup (remove k m) j"
  by (simp add: lookup_put lookup_remove)

lemma lookup_fold_put:
  "j \<notin> fst ` set kvs \<Longrightarrow> lookup (fold (\<lambda>(k, v). put k v) kvs m) j = lookup m j"
  by (induction kvs arbitrary: m) (auto simp: lookup_put)

lemma ok_fold_put: "ok m \<Longrightarrow> ok (fold (\<lambda>(k, v). put k v) kvs m)"
  by (induction kvs arbitrary: m) (auto intro: ok_put)

end

lemma js_get_set: "js_get (js_set k v m) j = (if j = k then Some v else js_get m j)"
  by (simp add: update_conv')

lemma js_get_delete: "js_get (js_delete k m) j = (if j = k then None else js_get m j)"
  by (simp add: delete_conv')

lemma js_ok_set: "js_ok m \<Longrightarrow> js_ok (js_set k v m)"
  by (simp add: js_ok_def distinct_update)

lemma js_ok_delete: "js_ok m \<Longrightarrow> js_ok (js_delete k m)"
  by (simp add: js_ok_def distinct_delete)

interpretation js: keyed_map js_get js_set js_delete js_ok
  by unfold_locales (simp_all add: js_get_set js_get_delete js_ok_set js_ok_delete)

lemmas js_map_simps [simp] = js_get_set js_get_delete

lemma js_ok_Nil [simp]: "js_ok []"
  by (simp add: js_ok_def)

lemma js_get_values: "js_get m k = Some v \<Longrightarrow> v \<in> set (js_values m)"
  by (force dest: map_of_SomeD)

lemma js_values_get: "js_ok m \<Longrightarrow> v \<in> set (js_values m) \<Longrightarrow> \<exists>k. js_get m k = Some v"
  by (auto simp: js_ok_def)

lemma js_pair_get: "js_ok m \<Longrightarrow> (k, v) \<in> set m \<longleftrightarrow> js_get m k = Some v"
  by (auto simp: js_ok_def dest: map_of_SomeD)

lemma js_set_new: "k \<notin> fst ` set m \<Longrightarrow> js_set k v m = m @ [(k, v)]"
  by (induction m) auto

lemma js_set_values: "set (js_values (js_set k v m)) \<subseteq> insert v (set (js_values m))"
  by (induction m) auto

lemma js_set_values_self: "v \<in> set (js_values (js_set k v m))"
  by (induction m) auto

lemma js_delete_values: "set (js_values (js_delete k m)) \<subseteq> set (js_values m)"
  by (auto simp: AList.delete_eq)

text \<open>Mutating every value in place while iterating over \<open>values()\<close>.\<close>

definition map_vals :: "('v \<Rightarrow> 'v) \<Rightarrow> ('k, 'v) jsmap \<Rightarrow> ('k, 'v) jsmap" where
  "map_vals f m = map (\<lambda>(k, v). (k, f v)) m"

lemma map_vals_simps [simp]:
  "map_vals f [] = []"
  "map_vals f ((k, v) # m) = (k, f v) # map_vals f m"
  by (simp_all add: map_vals_def)

lemma map_vals_keys [simp]: "map fst (map_vals f m) = map fst m"
  by (induction m) auto

lemma map_vals_get [simp]: "js_get (map_vals f m) k = map_option f (js_get m k)"
  by (induction m) auto

lemma map_vals_values [simp]: "js_values (map_vals f m) = map f (js_values m)"
  by (induction m) auto

lemma js_ok_map_vals [simp]: "js_ok (map_vals f m) = js_ok m"
  by (simp add: js_ok_def)

text \<open>Deleting every entry that satisfies a test while iterating.\<close>

definition drop_vals :: "('v \<Rightarrow> bool) \<Rightarrow> ('k, 'v) jsmap \<Rightarrow> ('k, 'v) jsmap" where
  "drop_vals p m = filter (\<lambda>(k, v). \<not> p v) m"

lemma js_ok_drop_vals: "js_ok m \<Longrightarrow> js_ok (drop_vals p m)"
  by (auto simp: js_ok_def drop_vals_def intro: distinct_map_filter)

lemma drop_vals_values [simp]: "js_values (drop_vals p m) = filter (\<lambda>v. \<not> p v) (js_values m)"
  by (induction m) (auto simp: drop_vals_def)

lemma drop_vals_get:
  "js_ok m \<Longrightarrow> js_get (drop_vals p m) k = (case js_get m k of Some v \<Rightarrow> if p v then None else Some v | None \<Rightarrow> None)"
proof (induction m)
  case Nil
  then show ?case by (simp add: drop_vals_def)
next
  case (Cons a m)
  obtain k' v' where a: "a = (k', v')" by (cases a)
  from Cons.prems a have "k' \<notin> fst ` set m" "js_ok m" by (auto simp: js_ok_def)
  moreover from this have "js_get m k' = None" by (simp add: map_of_eq_None_iff)
  ultimately show ?case using Cons.IH a by (auto simp: drop_vals_def)
qed

section \<open>Lists\<close>

text \<open>\<open>[...new Set(xs)]\<close> keeps the first occurrence of each element.\<close>

definition js_unique :: "'a list \<Rightarrow> 'a list" where
  "js_unique xs = rev (remdups (rev xs))"

lemma js_unique_set [simp]: "set (js_unique xs) = set xs"
  by (simp add: js_unique_def)

lemma js_unique_distinct [simp]: "distinct (js_unique xs)"
  by (simp add: js_unique_def)

lemma js_unique_id: "distinct xs \<Longrightarrow> js_unique xs = xs"
  by (simp add: js_unique_def distinct_remdups_id)

lemma js_unique_length: "length (js_unique xs) \<le> length xs"
  by (simp add: js_unique_def) (metis length_remdups_leq length_rev)

lemma js_unique_Nil [simp]: "js_unique xs = [] \<longleftrightarrow> xs = []"
  by (simp add: js_unique_def)

text \<open>
  \<open>sort((a, b) => a.createdAt < b.createdAt ? 1 : -1)\<close>: newest first. The comparator never
  answers 0, so the order of equal times is left to the engine; the model keeps insertion order
  and no theorem depends on it.
\<close>

definition newest_first :: "('a \<Rightarrow> instant) \<Rightarrow> 'a list \<Rightarrow> 'a list" where
  "newest_first f xs = sort_key (\<lambda>x. - f x) xs"

definition oldest_first :: "('a \<Rightarrow> instant) \<Rightarrow> 'a list \<Rightarrow> 'a list" where
  "oldest_first f xs = sort_key f xs"

lemma set_newest_first [simp]: "set (newest_first f xs) = set xs"
  by (simp add: newest_first_def)

lemma mset_newest_first [simp]: "mset (newest_first f xs) = mset xs"
  by (simp add: newest_first_def)

lemma length_newest_first [simp]: "length (newest_first f xs) = length xs"
  by (simp add: newest_first_def)

lemma newest_first_sorted: "sorted_wrt (\<lambda>a b. f b \<le> f a) (newest_first f xs)"
proof -
  have "sorted (map (\<lambda>x. - f x) (newest_first f xs))"
    by (simp add: newest_first_def)
  then show ?thesis by (simp add: sorted_wrt_map)
qed

lemma set_oldest_first [simp]: "set (oldest_first f xs) = set xs"
  by (simp add: oldest_first_def)

lemma length_oldest_first [simp]: "length (oldest_first f xs) = length xs"
  by (simp add: oldest_first_def)

lemma mset_oldest_first [simp]: "mset (oldest_first f xs) = mset xs"
  by (simp add: oldest_first_def)

lemma find_Some_in: "find p xs = Some x \<Longrightarrow> x \<in> set xs \<and> p x"
  by (auto simp: find_Some_iff)

lemma find_hits: "x \<in> set xs \<Longrightarrow> p x \<Longrightarrow> \<exists>y. find p xs = Some y"
  by (induction xs) auto

lemma sum_list_mset: "mset xs = mset ys \<Longrightarrow> sum_list (map f xs) = sum_list (map f ys)"
  for f :: "'a \<Rightarrow> int"
  by (metis mset_map sum_mset_sum_list)

end
