(* ===== verification/JsStrings.thy ===== *)
theory JsStrings
  imports Prelude
begin

text \<open>
  The string and number operations of the language the components use, over \<open>string\<close>
  (one \<open>char\<close> per code unit; texts are taken to be ASCII, so upper and lower case are the
  ASCII maps): trimming, splitting, joining, digit tests, decimal and base-36 numerals,
  and \<open>Number(s)\<close> restricted to the strings whose value is an integer.
\<close>

section \<open>Characters\<close>

definition code :: "char \<Rightarrow> nat" where
  "code c = of_char c"

definition is_digit :: "char \<Rightarrow> bool" where
  "is_digit c \<longleftrightarrow> 48 \<le> code c \<and> code c \<le> 57"

definition is_upper :: "char \<Rightarrow> bool" where
  "is_upper c \<longleftrightarrow> 65 \<le> code c \<and> code c \<le> 90"

definition is_lower :: "char \<Rightarrow> bool" where
  "is_lower c \<longleftrightarrow> 97 \<le> code c \<and> code c \<le> 122"

definition is_alnum :: "char \<Rightarrow> bool" where
  "is_alnum c \<longleftrightarrow> is_digit c \<or> is_upper c \<or> is_lower c"

text \<open>White space as \<open>trim\<close> and \<open>\\s\<close> see it: TAB, LF, VT, FF, CR, space, no-break space.\<close>

definition is_space :: "char \<Rightarrow> bool" where
  "is_space c \<longleftrightarrow> (9 \<le> code c \<and> code c \<le> 13) \<or> code c = 32 \<or> code c = 160"

definition lower_char :: "char \<Rightarrow> char" where
  "lower_char c = (if is_upper c then char_of (code c + 32) else c)"

definition upper_char :: "char \<Rightarrow> char" where
  "upper_char c = (if is_lower c then char_of (code c - 32) else c)"

lemmas char_defs [eval_simps] =
  code_def is_digit_def is_upper_def is_lower_def is_alnum_def is_space_def
  lower_char_def upper_char_def

definition to_lower :: "string \<Rightarrow> string" where
  "to_lower s = map lower_char s"

definition to_upper :: "string \<Rightarrow> string" where
  "to_upper s = map upper_char s"

lemma code_less_256: "code c < 256"
  by (simp add: code_def)

lemma char_of_code [simp]: "char_of (code c) = c"
  by (simp add: code_def)

lemma code_char_of: "n < 256 \<Longrightarrow> code (char_of n) = n"
  by (simp add: code_def)

lemma code_inj: "code c = code d \<Longrightarrow> c = d"
  by (metis char_of_code)

lemma lower_char_not_upper: "\<not> is_upper (lower_char c)"
proof (cases "is_upper c")
  case True
  then have "code c + 32 < 256" by (simp add: is_upper_def)
  with True show ?thesis by (simp add: lower_char_def is_upper_def code_char_of)
qed (simp add: lower_char_def)

lemma lower_char_idem [simp]: "lower_char (lower_char c) = lower_char c"
  using lower_char_not_upper [of c] by (simp add: lower_char_def)

lemma to_lower_idem [simp]: "to_lower (to_lower s) = to_lower s"
  by (simp add: to_lower_def)

lemma length_to_lower [simp]: "length (to_lower s) = length s"
  by (simp add: to_lower_def)

lemma lower_char_space [simp]: "is_space (lower_char c) = is_space c"
proof (cases "is_upper c")
  case True
  then have "code c + 32 < 256" by (simp add: is_upper_def)
  with True show ?thesis by (simp add: lower_char_def is_upper_def is_space_def code_char_of)
qed (simp add: lower_char_def)

lemma lower_char_digit: "is_digit c \<Longrightarrow> lower_char c = c"
  by (simp add: lower_char_def is_digit_def is_upper_def)

section \<open>Trimming, splitting, joining\<close>

definition js_trim :: "string \<Rightarrow> string" where
  "js_trim s = rev (dropWhile is_space (rev (dropWhile is_space s)))"

definition trimmed :: "string \<Rightarrow> bool" where
  "trimmed s \<longleftrightarrow> s = [] \<or> (\<not> is_space (hd s) \<and> \<not> is_space (last s))"

lemma rev_dropWhile_rev_hd:
  assumes "rev (dropWhile p (rev xs)) \<noteq> []"
  shows "hd (rev (dropWhile p (rev xs))) = hd xs"
proof -
  have "xs = rev (dropWhile p (rev xs)) @ rev (takeWhile p (rev xs))"
    by (metis rev_append rev_rev_ident takeWhile_dropWhile_id)
  then show ?thesis using assms by (metis hd_append2)
qed

lemma js_trim_trimmed: "trimmed (js_trim s)"
proof (cases "js_trim s = []")
  case False
  let ?t = "dropWhile is_space s"
  have ne: "?t \<noteq> []"
  proof
    assume "?t = []"
    then have "js_trim s = []" unfolding js_trim_def by (simp only: rev.simps dropWhile.simps)
    with False show False by simp
  qed
  have "hd (js_trim s) = hd ?t"
    using rev_dropWhile_rev_hd [of is_space ?t] False by (simp add: js_trim_def)
  moreover have "\<not> is_space (hd ?t)" using ne by (rule hd_dropWhile)
  moreover have "\<not> is_space (last (js_trim s))"
    using False by (simp add: js_trim_def last_rev hd_dropWhile)
  ultimately show ?thesis by (simp add: trimmed_def)
qed (simp add: trimmed_def)

lemma dropWhile_hd_id: "xs = [] \<or> \<not> p (hd xs) \<Longrightarrow> dropWhile p xs = xs"
  by (cases xs) auto

lemma js_trim_id: "trimmed s \<Longrightarrow> js_trim s = s"
  by (auto simp: js_trim_def trimmed_def dropWhile_hd_id hd_rev)

lemma js_trim_idem [simp]: "js_trim (js_trim s) = js_trim s"
  by (simp add: js_trim_id js_trim_trimmed)

lemma js_trim_set: "set (js_trim s) \<subseteq> set s"
  unfolding js_trim_def by (metis set_dropWhileD set_rev subsetI)

lemma to_lower_trimmed: "trimmed s \<Longrightarrow> trimmed (to_lower s)"
  by (auto simp: trimmed_def to_lower_def hd_map last_map)

text \<open>\<open>s.split(c)\<close> for a one-character separator: never empty.\<close>

fun split_on :: "char \<Rightarrow> string \<Rightarrow> string list" where
  "split_on c [] = [[]]"
| "split_on c (x # xs) =
     (if x = c then [] # split_on c xs
      else case split_on c xs of [] \<Rightarrow> [[x]] | w # ws \<Rightarrow> (x # w) # ws)"

fun join :: "string \<Rightarrow> string list \<Rightarrow> string" where
  "join sep [] = []"
| "join sep [w] = w"
| "join sep (w # ws) = w @ sep @ join sep ws"

lemma join_Cons: "ws \<noteq> [] \<Longrightarrow> join sep (w # ws) = w @ sep @ join sep ws"
  by (cases ws) auto

lemma split_on_nonempty [simp]: "split_on c s \<noteq> []"
  by (induction s) (auto split: list.splits)

lemma join_split: "join [c] (split_on c s) = s"
proof (induction s)
  case (Cons x s)
  obtain w ws where sp: "split_on c s = w # ws" by (cases "split_on c s") auto
  with Cons show ?case by (cases ws) auto
qed simp

lemma split_on_no_sep: "c \<notin> set s \<Longrightarrow> split_on c s = [s]"
  by (induction s) auto

lemma split_on_append: "c \<notin> set w \<Longrightarrow> split_on c (w @ c # s) = w # split_on c s"
  by (induction w) auto

lemma split_join: "ws \<noteq> [] \<Longrightarrow> \<forall>w\<in>set ws. c \<notin> set w \<Longrightarrow> split_on c (join [c] ws) = ws"
proof (induction ws)
  case (Cons w ws)
  then show ?case by (cases ws) (auto simp: split_on_no_sep split_on_append)
qed simp

lemma split_on_sep_free: "w \<in> set (split_on c s) \<Longrightarrow> c \<notin> set w"
proof (induction s arbitrary: w)
  case (Cons x s)
  obtain v vs where sp: "split_on c s = v # vs" by (cases "split_on c s") auto
  with Cons show ?case by (auto split: if_splits)
qed simp

text \<open>\<open>s.split(/\\s+/)\<close> of a trimmed string: its words; the empty string gives one empty word.\<close>

function words_aux :: "string \<Rightarrow> string \<Rightarrow> string list" where
  "words_aux w [] = [rev w]"
| "words_aux w (x # xs) =
     (if is_space x then rev w # words_aux [] (dropWhile is_space xs) else words_aux (x # w) xs)"
  by pat_completeness auto
termination
  by (relation "measure (\<lambda>(w, s). length s)") (auto simp: le_imp_less_Suc length_dropWhile_le)

definition split_spaces :: "string \<Rightarrow> string list" where
  "split_spaces s = words_aux [] s"

definition starts_with :: "string \<Rightarrow> string \<Rightarrow> bool" where
  "starts_with s p \<longleftrightarrow> take (length p) s = p"

definition ends_with :: "string \<Rightarrow> string \<Rightarrow> bool" where
  "ends_with s p \<longleftrightarrow> starts_with (rev s) (rev p)"

lemma starts_with_append [simp]: "starts_with (p @ s) p"
  by (simp add: starts_with_def)

lemma starts_with_iff: "starts_with s p \<longleftrightarrow> (\<exists>t. s = p @ t)"
  by (metis append_take_drop_id starts_with_append starts_with_def)

section \<open>Numerals\<close>

definition digit_char :: "nat \<Rightarrow> char" where
  "digit_char d = (if d < 10 then char_of (48 + d) else char_of (87 + d))"

text \<open>\<open>n.toString(b)\<close> for a natural number and a radix from 2 to 36.\<close>

fun numeral_in :: "nat \<Rightarrow> nat \<Rightarrow> string" where
  "numeral_in b n = (if n < b \<or> b < 2 then [digit_char n] else numeral_in b (n div b) @ [digit_char (n mod b)])"

declare numeral_in.simps [simp del]

definition dec :: "nat \<Rightarrow> string" where
  "dec n = numeral_in 10 n"

definition dec_int :: "int \<Rightarrow> string" where
  "dec_int i = (if i < 0 then CHR ''-'' # dec (nat (- i)) else dec (nat i))"

definition digit_val :: "char \<Rightarrow> nat" where
  "digit_val c = code c - 48"

definition dec_val :: "string \<Rightarrow> nat" where
  "dec_val s = foldl (\<lambda>a c. 10 * a + digit_val c) 0 s"

definition pad_start :: "nat \<Rightarrow> char \<Rightarrow> string \<Rightarrow> string" where
  "pad_start n c s = replicate (n - length s) c @ s"

lemma is_digit_digit_char [simp]: "d < 10 \<Longrightarrow> is_digit (digit_char d)"
  by (simp add: is_digit_def digit_char_def code_char_of)

lemma digit_val_digit_char [simp]: "d < 10 \<Longrightarrow> digit_val (digit_char d) = d"
  by (simp add: digit_val_def digit_char_def code_char_of)

lemma dec_val_snoc: "dec_val (s @ [c]) = 10 * dec_val s + digit_val c"
  by (simp add: dec_val_def)

lemma dec_unfold: "dec n = (if n < 10 then [digit_char n] else dec (n div 10) @ [digit_char (n mod 10)])"
  unfolding dec_def by (subst numeral_in.simps) simp

lemma dec_val_dec [simp]: "dec_val (dec n) = n"
proof (induction n rule: less_induct)
  case (less n)
  show ?case
  proof (cases "n < 10")
    case True
    then show ?thesis by (subst dec_unfold) (simp add: dec_val_def)
  next
    case False
    then have "dec_val (dec (n div 10)) = n div 10" by (intro less.IH) simp
    with False show ?thesis by (subst dec_unfold) (simp add: dec_val_snoc)
  qed
qed

lemma dec_digits: "list_all is_digit (dec n)"
proof (induction n rule: less_induct)
  case (less n)
  then show ?case by (subst dec_unfold) auto
qed

lemma dec_nonempty [simp]: "dec n \<noteq> []"
  by (subst dec_unfold) simp

lemma dec_inj: "dec m = dec n \<Longrightarrow> m = n"
  by (metis dec_val_dec)

lemma dec_int_inj: "0 \<le> i \<Longrightarrow> 0 \<le> j \<Longrightarrow> dec_int i = dec_int j \<Longrightarrow> i = j"
  by (auto simp: dec_int_def dest: dec_inj)

lemma dec_length_le: "0 < k \<Longrightarrow> n < 10 ^ k \<Longrightarrow> length (dec n) \<le> k"
proof (induction k arbitrary: n)
  case (Suc k)
  show ?case
  proof (cases "n < 10")
    case True
    then show ?thesis by (subst dec_unfold) simp
  next
    case False
    with Suc.prems have "k \<noteq> 0" by (cases k) auto
    moreover have "n div 10 < 10 ^ k" using Suc.prems by (simp add: less_mult_imp_div_less mult.commute)
    ultimately have "length (dec (n div 10)) \<le> k" using Suc.IH by simp
    with False show ?thesis by (subst dec_unfold) simp
  qed
qed simp

lemma dec_length_ge: "10 ^ k \<le> n \<Longrightarrow> k < length (dec n)"
proof (induction k arbitrary: n)
  case (Suc k)
  then have ge: "\<not> n < 10" and "10 ^ k \<le> n div 10"
    using order_trans [of 10 "10 ^ Suc k" n] by (auto simp: less_eq_div_iff_mult_less_eq mult.commute)
  then have "k < length (dec (n div 10))" using Suc.IH by simp
  with ge show ?case by (subst dec_unfold) simp
qed simp

lemma dec_val_zeros: "dec_val (replicate k (CHR ''0'') @ s) = dec_val s"
proof -
  have "foldl (\<lambda>a c. 10 * a + digit_val c) 0 (replicate k (CHR ''0'')) = 0"
    by (induction k) (auto simp: digit_val_def code_def)
  then show ?thesis by (simp add: dec_val_def)
qed

section \<open>Number of a string\<close>

text \<open>
  \<open>Number(s)\<close> when it is an integer, \<open>None\<close> when it is \<open>NaN\<close>, infinite or fractional. The value is
  exact: a literal that only becomes an integer by rounding to a double is not one here.
\<close>

definition digit_of :: "char \<Rightarrow> nat option" where
  "digit_of c =
     (if is_digit c then Some (code c - 48)
      else if is_lower (lower_char c) then Some (code (lower_char c) - 87) else None)"

fun radix_val :: "nat \<Rightarrow> nat \<Rightarrow> string \<Rightarrow> nat option" where
  "radix_val b a [] = Some a"
| "radix_val b a (c # cs) =
     (case digit_of c of None \<Rightarrow> None | Some d \<Rightarrow> if d < b then radix_val b (b * a + d) cs else None)"

definition radix_literal :: "nat \<Rightarrow> string \<Rightarrow> nat option" where
  "radix_literal b s = (if s = [] then None else radix_val b 0 s)"

definition split_sign :: "string \<Rightarrow> int \<times> string" where
  "split_sign s =
     (case s of c # cs \<Rightarrow> if c = CHR ''-'' then (-1, cs) else if c = CHR ''+'' then (1, cs) else (1, s)
      | [] \<Rightarrow> (1, s))"

definition exponent_value :: "string \<Rightarrow> int option" where
  "exponent_value s =
     (case s of [] \<Rightarrow> Some 0
      | _ # r \<Rightarrow> (let (sg, ds) = split_sign r in
          if ds \<noteq> [] \<and> list_all is_digit ds then Some (sg * int (dec_val ds)) else None))"

definition mantissa :: "string \<Rightarrow> (nat \<times> nat) option" where
  "mantissa s =
     (case split_on (CHR ''.'') s of
        [a] \<Rightarrow> if a \<noteq> [] \<and> list_all is_digit a then Some (dec_val a, 0) else None
      | [a, b] \<Rightarrow> if (a \<noteq> [] \<or> b \<noteq> []) \<and> list_all is_digit (a @ b)
                  then Some (dec_val (a @ b), length b) else None
      | _ \<Rightarrow> None)"

definition scaled :: "nat \<Rightarrow> int \<Rightarrow> nat option" where
  "scaled m e =
     (if m = 0 then Some 0
      else if 0 \<le> e then (if e \<le> 400 then Some (m * 10 ^ nat e) else None)
      else if - e \<le> 400 \<and> m mod 10 ^ nat (- e) = 0 then Some (m div 10 ^ nat (- e)) else None)"

definition decimal_literal :: "string \<Rightarrow> nat option" where
  "decimal_literal s =
     (let is_e = (\<lambda>c. c = CHR ''e'' \<or> c = CHR ''E'');
          m = takeWhile (\<lambda>c. \<not> is_e c) s; x = dropWhile (\<lambda>c. \<not> is_e c) s in
      case (mantissa m, exponent_value x) of
        (Some (v, f), Some e) \<Rightarrow> scaled v (e - int f)
      | _ \<Rightarrow> None)"

definition js_integer :: "string \<Rightarrow> int option" where
  "js_integer s =
     (let t = js_trim s; p = to_lower (take 2 t); (sg, u) = split_sign t;
          r = (if t = [] then Some 0
               else if p = ''0x'' then map_option int (radix_literal 16 (drop 2 t))
               else if p = ''0o'' then map_option int (radix_literal 8 (drop 2 t))
               else if p = ''0b'' then map_option int (radix_literal 2 (drop 2 t))
               else map_option (\<lambda>n. sg * int n) (decimal_literal u)) in
      case r of Some v \<Rightarrow> if \<bar>v\<bar> < 2 ^ 1024 then Some v else None | None \<Rightarrow> None)"

lemma mantissa_digits: "s \<noteq> [] \<Longrightarrow> list_all is_digit s \<Longrightarrow> mantissa s = Some (dec_val s, 0)"
proof -
  assume ne: "s \<noteq> []" and d: "list_all is_digit s"
  have "CHR ''.'' \<notin> set s" using d by (auto simp: list_all_iff is_digit_def code_def)
  then show ?thesis using ne d by (simp add: mantissa_def split_on_no_sep)
qed

section \<open>Dotted quads\<close>

text \<open>The expression \<open>^(\\d{1,3})\\.(\\d{1,3})\\.(\\d{1,3})\\.(\\d{1,3})$\<close> and the four groups it captures.\<close>

definition short_digits :: "nat \<Rightarrow> string \<Rightarrow> bool" where
  "short_digits n s \<longleftrightarrow> 1 \<le> length s \<and> length s \<le> n \<and> list_all is_digit s"

definition ipv4_groups :: "string \<Rightarrow> string list option" where
  "ipv4_groups s =
     (let gs = split_on (CHR ''.'') s in
      if length gs = 4 \<and> list_all (short_digits 3) gs then Some gs else None)"

end
