(* ===== verification/Rbac.thy ===== *)
theory Rbac
  imports JsStrings
begin

text \<open>
  Access control and lifecycle of \<open>packages/database/src\<close>: \<open>rbac.ts\<close> (the role hierarchy and
  the permission catalogue), \<open>tenant.ts\<close> (membership checks and list scoping) and
  \<open>lifecycle.ts\<close> (the state machine of a project database).  A role is any string, as in the
  code; \<open>role_key\<close> holds the four known ones and is a linear order.
\<close>

section \<open>Roles and permissions (rbac.ts)\<close>

datatype role_key = Viewer | Member | Admin | Owner

datatype permission =
    Orgs_read | Orgs_update | Orgs_members_read | Orgs_members_manage
  | Projects_read | Projects_create | Projects_update | Projects_delete
  | Envs_read | Envs_manage | Envs_production
  | Keys_read | Keys_create | Keys_revoke | Logs_read

definition ROLE_HIERARCHY :: "(string \<times> role_key) list" where
  "ROLE_HIERARCHY = [(''viewer'', Viewer), (''member'', Member), (''admin'', Admin), (''owner'', Owner)]"

fun ROLE_PERMISSIONS :: "role_key \<Rightarrow> permission list" where
  "ROLE_PERMISSIONS Viewer = [Orgs_read, Projects_read, Envs_read, Logs_read]"
| "ROLE_PERMISSIONS Member =
     [Orgs_read, Projects_read, Projects_create, Projects_update, Envs_read, Envs_manage, Keys_read,
      Logs_read]"
| "ROLE_PERMISSIONS Admin =
     [Orgs_read, Orgs_update, Orgs_members_read, Orgs_members_manage, Projects_read, Projects_create,
      Projects_update, Projects_delete, Envs_read, Envs_manage, Envs_production, Keys_read,
      Keys_create, Keys_revoke, Logs_read]"
| "ROLE_PERMISSIONS Owner =
     [Orgs_read, Orgs_update, Orgs_members_read, Orgs_members_manage, Projects_read, Projects_create,
      Projects_update, Projects_delete, Envs_read, Envs_manage, Envs_production, Keys_read,
      Keys_create, Keys_revoke, Logs_read]"

text \<open>\<open>indexOf\<close>: the position of the first match, -1 when there is none.\<close>

fun index_of :: "'a \<Rightarrow> 'a list \<Rightarrow> int" where
  "index_of x [] = -1"
| "index_of x (y # ys) = (if x = y then 0 else let i = index_of x ys in if i = -1 then -1 else i + 1)"

definition roleRank :: "string \<Rightarrow> int" where
  "roleRank role = index_of role (map fst ROLE_HIERARCHY)"

definition hasRoleAtLeast :: "string \<Rightarrow> role_key \<Rightarrow> bool" where
  "hasRoleAtLeast actorRole requiredRole =
     (let a = roleRank actorRole; r = index_of requiredRole (map snd ROLE_HIERARCHY) in
      if a = -1 \<or> r = -1 then False else r \<le> a)"

text \<open>
  Indexing an object literal with an arbitrary string also finds what the literal inherits
  from \<open>Object.prototype\<close>: a value with no \<open>includes\<close>, so the call raises.
\<close>

definition object_prototype :: "string list" where
  "object_prototype =
     [''constructor'', ''hasOwnProperty'', ''isPrototypeOf'', ''propertyIsEnumerable'',
      ''toLocaleString'', ''toString'', ''valueOf'', ''__proto__'', ''__defineGetter__'',
      ''__defineSetter__'', ''__lookupGetter__'', ''__lookupSetter__'']"

definition can :: "string \<Rightarrow> permission \<Rightarrow> bool outcome" where
  "can role perm =
     (case map_of ROLE_HIERARCHY role of
        Some r \<Rightarrow> Inr (perm \<in> set (ROLE_PERMISSIONS r))
      | None \<Rightarrow> if role \<in> set object_prototype then Inl PlainError else Inr False)"

definition permissionsFor :: "role_key \<Rightarrow> permission list" where
  "permissionsFor r = ROLE_PERMISSIONS r"

text \<open>The roles in the order of \<open>ROLE_HIERARCHY\<close>.\<close>

definition rank :: "role_key \<Rightarrow> nat" where
  "rank r = (case r of Viewer \<Rightarrow> 0 | Member \<Rightarrow> 1 | Admin \<Rightarrow> 2 | Owner \<Rightarrow> 3)"

lemma rank_inj: "rank r = rank s \<Longrightarrow> r = s"
  by (cases r; cases s) (simp_all add: rank_def)

instantiation role_key :: linorder
begin

definition less_eq_role_key :: "role_key \<Rightarrow> role_key \<Rightarrow> bool" where
  "less_eq_role_key r s \<longleftrightarrow> rank r \<le> rank s"

definition less_role_key :: "role_key \<Rightarrow> role_key \<Rightarrow> bool" where
  "less_role_key r s \<longleftrightarrow> rank r < rank s"

instance
  by standard (auto simp: less_eq_role_key_def less_role_key_def intro: rank_inj)

end

lemmas role_order = less_eq_role_key_def less_role_key_def rank_def

text \<open>What \<open>hasRoleAtLeast\<close> decides: the actor's role is known and not below the required one.\<close>

lemma hasRoleAtLeast_iff:
  "hasRoleAtLeast a r \<longleftrightarrow> (\<exists>k. map_of ROLE_HIERARCHY a = Some k \<and> r \<le> k)"
  by (cases r) (auto simp: hasRoleAtLeast_def roleRank_def ROLE_HIERARCHY_def role_order)

lemma ROLE_PERMISSIONS_mono: "r \<le> s \<Longrightarrow> set (ROLE_PERMISSIONS r) \<subseteq> set (ROLE_PERMISSIONS s)"
  by (cases r; cases s) (simp_all add: role_order)

lemma can_iff: "can a p = Inr True \<longleftrightarrow> (\<exists>k. map_of ROLE_HIERARCHY a = Some k \<and> p \<in> set (ROLE_PERMISSIONS k))"
  by (auto simp: can_def split: option.splits)

text \<open>
  Privilege only grows along the hierarchy: if an actor's role is at least \<open>r\<close>, whatever
  \<open>r\<close> may do the actor may do.
\<close>

theorem can_monotone:
  assumes "hasRoleAtLeast actor r" and "p \<in> set (permissionsFor r)"
  shows "can actor p = Inr True"
  using assms ROLE_PERMISSIONS_mono by (fastforce simp: can_iff hasRoleAtLeast_iff permissionsFor_def)

theorem can_monotone_witness: "can ''admin'' Projects_create = Inr True"
  by (rule can_monotone [where r = Member])
     (simp_all add: hasRoleAtLeast_iff ROLE_HIERARCHY_def role_order permissionsFor_def)

text \<open>Only an administrator or an owner may act on a production environment.\<close>

lemma envs_production_iff: "can role Envs_production = Inr True \<longleftrightarrow> role = ''admin'' \<or> role = ''owner''"
  by (auto simp: can_iff ROLE_HIERARCHY_def)

text \<open>An inherited property name is not an unknown role: the lookup raises instead of denying.\<close>

lemma can_constructor_raises: "can ''constructor'' p = Inl PlainError"
  by (simp add: can_def ROLE_HIERARCHY_def object_prototype_def)

section \<open>Tenant isolation (tenant.ts)\<close>

record membership =
  m_organizationId :: string
  m_userId :: string
  m_role :: string

record project =
  p_id :: string
  p_organizationId :: string

definition isMemberOf :: "membership list \<Rightarrow> string \<Rightarrow> bool" where
  "isMemberOf memberships organizationId = list_ex (\<lambda>m. m_organizationId m = organizationId) memberships"

definition assertSameTenant :: "membership list \<Rightarrow> string \<Rightarrow> string \<Rightarrow> unit outcome" where
  "assertSameTenant memberships resource_org userId =
     (let ok = list_ex (\<lambda>m. m_userId m = userId \<and> m_organizationId m = resource_org) memberships in
      if \<not> ok then Inl (ApiError TENANT_FORBIDDEN 403) else Inr ())"

definition scopeProjectsToMemberOrgs :: "project list \<Rightarrow> membership list \<Rightarrow> string \<Rightarrow> project list" where
  "scopeProjectsToMemberOrgs projects memberships userId =
     (let allowed = js_unique (map m_organizationId (filter (\<lambda>m. m_userId m = userId) memberships)) in
      filter (\<lambda>p. p_organizationId p \<in> set allowed) projects)"

definition resolveOrgIdFromProject :: "project \<Rightarrow> string" where
  "resolveOrgIdFromProject p = p_organizationId p"

lemma assertSameTenant_iff:
  "assertSameTenant ms org u = Inr () \<longleftrightarrow> (\<exists>m\<in>set ms. m_userId m = u \<and> m_organizationId m = org)"
  by (auto simp: assertSameTenant_def Let_def list_ex_iff)

text \<open>
  List scoping and the per-resource guard are the same policy: a listed project is exactly
  one of the given projects whose organization the guard accepts for this user, in the given order.
\<close>

theorem scope_agrees_with_guard:
  "scopeProjectsToMemberOrgs ps ms u =
     filter (\<lambda>p. assertSameTenant ms (resolveOrgIdFromProject p) u = Inr ()) ps"
  by (auto simp: scopeProjectsToMemberOrgs_def assertSameTenant_iff resolveOrgIdFromProject_def Let_def
      intro!: filter_cong intro: rev_image_eqI)

section \<open>The lifecycle of a project database (lifecycle.ts)\<close>

datatype database_status =
  Creating | Ready | Running | Stopped | Restarting | Failed | Deleting | Deleted

fun TRANSITIONS :: "database_status \<Rightarrow> database_status list" where
  "TRANSITIONS Creating = [Ready, Failed, Deleting]"
| "TRANSITIONS Ready = [Running, Stopped, Restarting, Deleting, Failed]"
| "TRANSITIONS Running = [Stopped, Restarting, Deleting, Failed]"
| "TRANSITIONS Stopped = [Running, Restarting, Deleting]"
| "TRANSITIONS Restarting = [Ready, Running, Failed]"
| "TRANSITIONS Failed = [Creating, Deleting]"
| "TRANSITIONS Deleting = [Deleted, Failed]"
| "TRANSITIONS Deleted = []"

definition canTransition :: "database_status \<Rightarrow> database_status \<Rightarrow> bool" where
  "canTransition from to = (to \<in> set (TRANSITIONS from))"

definition assertTransition :: "database_status \<Rightarrow> database_status \<Rightarrow> unit outcome" where
  "assertTransition from to = (if \<not> canTransition from to then Inl PlainError else Inr ())"

definition isTerminal :: "database_status \<Rightarrow> bool" where
  "isTerminal s \<longleftrightarrow> s = Failed \<or> s = Deleted"

definition isSteady :: "database_status \<Rightarrow> bool" where
  "isSteady s \<longleftrightarrow> s = Ready \<or> s = Running \<or> s = Stopped"

text \<open>A run of the machine: every step passed \<open>assertTransition\<close>.\<close>

inductive lifecycle_run :: "database_status \<Rightarrow> database_status list \<Rightarrow> database_status \<Rightarrow> bool" where
  start: "lifecycle_run s [] s"
| move: "assertTransition s t = Inr () \<Longrightarrow> lifecycle_run t path u \<Longrightarrow> lifecycle_run s (t # path) u"

inductive_cases lifecycle_run_ConsE: "lifecycle_run s (t # path) u"
inductive_simps lifecycle_run_Nil [simp]: "lifecycle_run s [] u"

lemma assertTransition_ok: "assertTransition s t = Inr () \<longleftrightarrow> t \<in> set (TRANSITIONS s)"
  by (simp add: assertTransition_def canTransition_def)

lemma unprovisioned_stays:
  assumes "lifecycle_run s path u" and "s \<in> {Creating, Failed, Deleting, Deleted}" and "Ready \<notin> set path"
  shows "u \<in> {Creating, Failed, Deleting, Deleted}"
  using assms
proof (induction rule: lifecycle_run.induct)
  case (move s t path u)
  then have "t \<in> {Creating, Failed, Deleting, Deleted}"
    by (cases s) (auto simp: assertTransition_ok)
  with move show ?case by simp
qed simp

text \<open>
  A database that is created serves only after provisioning declared it ready: every run from
  \<open>creating\<close> to \<open>running\<close>, \<open>stopped\<close> or \<open>restarting\<close> passes through \<open>ready\<close>.
\<close>

theorem lifecycle_serves_only_after_ready:
  assumes "lifecycle_run Creating path u" and "u \<in> {Running, Stopped, Restarting}"
  shows "Ready \<in> set path"
  using unprovisioned_stays [OF assms(1)] assms(2) by fastforce

theorem lifecycle_serves_only_after_ready_witness:
  "lifecycle_run Creating [Failed, Creating, Ready, Running] Running \<and>
   Ready \<in> set [Failed, Creating, Ready, Running]"
proof -
  have run: "lifecycle_run Creating [Failed, Creating, Ready, Running] Running"
    by (auto intro!: lifecycle_run.intros simp: assertTransition_ok)
  then show ?thesis using lifecycle_serves_only_after_ready [OF run] by simp
qed

text \<open>Nothing leaves \<open>deleted\<close>.\<close>

lemma deleted_is_final: "lifecycle_run Deleted path u \<Longrightarrow> path = [] \<and> u = Deleted"
  by (cases rule: lifecycle_run.cases) (auto simp: assertTransition_ok)

text \<open>Every status but \<open>deleted\<close> can still be driven to \<open>deleted\<close>: no database is stuck.\<close>

lemma lifecycle_can_be_deleted: "\<exists>path. lifecycle_run s path Deleted"
proof -
  have d: "lifecycle_run Deleting [Deleted] Deleted"
    by (auto intro!: lifecycle_run.intros simp: assertTransition_ok)
  have f: "lifecycle_run Failed [Deleting, Deleted] Deleted"
    by (rule lifecycle_run.move [OF _ d]) (simp add: assertTransition_ok)
  have direct: "\<exists>path. lifecycle_run s path Deleted" if "Deleting \<in> set (TRANSITIONS s)" for s
    using lifecycle_run.move [OF _ d, of s] that by (auto simp: assertTransition_ok)
  show ?thesis
  proof (cases s)
    case Restarting
    then show ?thesis using lifecycle_run.move [OF _ f, of Restarting] by (auto simp: assertTransition_ok)
  next
    case Deleted
    then show ?thesis by (auto intro: lifecycle_run.start)
  qed (use direct d in auto)
qed

text \<open>The status called terminal that is not: a failed database may be created again.\<close>

lemma failed_is_terminal_but_not_final: "isTerminal Failed \<and> canTransition Failed Creating"
  by (simp add: isTerminal_def canTransition_def)

end
