(* ===== verification/Json.thy ===== *)
theory Json
  imports JsStrings
begin

text \<open>
  Values of type \<open>unknown\<close> and \<open>Record<string, unknown>\<close>: JSON with \<open>undefined\<close>, numbers restricted
  to integers.  \<open>JSON.stringify\<close>, \<open>String(v)\<close> and the UTF-8 length of a text, as the components use
  them.  An object is the list of its entries in the order \<open>Object.entries\<close> gives.
\<close>

datatype json =
    JUndefined | JNull | JBool bool | JNum int | JStr string
  | JArr "json list" | JObj "(string \<times> json) list"

definition hex_digit :: "nat \<Rightarrow> char" where
  "hex_digit d = digit_char d"

text \<open>The escapes of \<open>JSON.stringify\<close> on a string: quote, backslash, control characters.\<close>

definition escape_char :: "char \<Rightarrow> string" where
  "escape_char c =
     (let n = code c; bs = CHR 0x5C in
      if n = 34 then [bs, c] else if n = 92 then [bs, c]
      else if n = 8 then [bs, CHR ''b''] else if n = 12 then [bs, CHR ''f'']
      else if n = 10 then [bs, CHR ''n''] else if n = 13 then [bs, CHR ''r'']
      else if n = 9 then [bs, CHR ''t'']
      else if n < 32 then [bs, CHR ''u'', CHR ''0'', CHR ''0'', hex_digit (n div 16), hex_digit (n mod 16)]
      else [c])"

definition json_string :: "string \<Rightarrow> string" where
  "json_string s = [CHR 0x22] @ concat (map escape_char s) @ [CHR 0x22]"

fun is_undefined :: "json \<Rightarrow> bool" where
  "is_undefined JUndefined = True"
| "is_undefined _ = False"

definition braces :: "string \<Rightarrow> string list \<Rightarrow> string \<Rightarrow> string" where
  "braces l ws r = l @ join '','' ws @ r"

text \<open>
  \<open>JSON.stringify(v)\<close> of a defined value; an \<open>undefined\<close> entry of an object is dropped, an
  \<open>undefined\<close> element of an array prints as \<open>null\<close>.
\<close>

fun json_stringify :: "json \<Rightarrow> string" where
  "json_stringify JUndefined = ''null''"
| "json_stringify JNull = ''null''"
| "json_stringify (JBool b) = (if b then ''true'' else ''false'')"
| "json_stringify (JNum n) = dec_int n"
| "json_stringify (JStr s) = json_string s"
| "json_stringify (JArr vs) = braces ''['' (map json_stringify vs) '']''"
| "json_stringify (JObj kvs) =
     braces ''{'' (map (\<lambda>(k, v). json_string k @ '':'' @ json_stringify v)
       (filter (\<lambda>(k, v). \<not> is_undefined v) kvs)) ''}''"

text \<open>\<open>Buffer.byteLength(s, 'utf8')\<close>: one byte below 128, two above.\<close>

definition utf8_length :: "string \<Rightarrow> nat" where
  "utf8_length s = sum_list (map (\<lambda>c. if code c < 128 then 1 else 2) s)"

text \<open>\<open>String(v)\<close>; \<open>null\<close> and \<open>undefined\<close> inside an array print as nothing.\<close>

fun js_String :: "json \<Rightarrow> string" where
  "js_String JUndefined = ''undefined''"
| "js_String JNull = ''null''"
| "js_String (JBool b) = (if b then ''true'' else ''false'')"
| "js_String (JNum n) = dec_int n"
| "js_String (JStr s) = s"
| "js_String (JArr vs) =
     join '','' (map (\<lambda>v. if v = JNull \<or> v = JUndefined then [] else js_String v) vs)"
| "js_String (JObj kvs) = ''[object Object]''"

text \<open>\<open>payload[key]\<close>: the last entry written under a key is the one an object holds.\<close>

definition json_field :: "(string \<times> json) list \<Rightarrow> string \<Rightarrow> json" where
  "json_field kvs k = (case js_get kvs k of Some v \<Rightarrow> v | None \<Rightarrow> JUndefined)"

section \<open>Canonical text (packages/agents/src/approvals.ts)\<close>

text \<open>
  \<open>stableStringify\<close>: the entries of an object sorted by key, no white space, \<open>undefined\<close> entries
  dropped, \<open>null\<close> and \<open>undefined\<close> alike.
\<close>

fun stableStringify :: "json \<Rightarrow> string" where
  "stableStringify JUndefined = ''null''"
| "stableStringify JNull = ''null''"
| "stableStringify (JArr vs) = braces ''['' (map stableStringify vs) '']''"
| "stableStringify (JObj kvs) =
     braces ''{'' (map (\<lambda>(k, v). json_string k @ '':'' @ stableStringify v)
       (sort_key fst (filter (\<lambda>(k, v). \<not> is_undefined v) kvs))) ''}''"
| "stableStringify v = json_stringify v"

lemma sort_key_cong_mset:
  assumes "mset xs = mset ys" and "distinct (map f ys)"
  shows "sort_key f xs = sort_key f ys"
proof (rule sort_key_inj_key_eq)
  show "mset xs = mset (sort_key f ys)" using assms(1) by simp
  show "inj_on f (set xs)" using assms by (metis distinct_map mset_eq_setD)
qed simp

lemma insort_map:
  "\<forall>y. g (p y) = f y \<Longrightarrow> map p (insort_key f x xs) = insort_key g (p x) (map p xs)"
  by (induction xs) auto

lemma sort_map: "\<forall>y. g (p y) = f y \<Longrightarrow> map p (sort_key f xs) = sort_key g (map p xs)"
  by (induction xs) (auto simp: insort_map)

text \<open>Two values that differ only in the order of the entries of their objects, at any depth.\<close>

inductive same_json :: "json \<Rightarrow> json \<Rightarrow> bool" where
  refl: "same_json v v"
| arr: "list_all2 same_json vs ws \<Longrightarrow> same_json (JArr vs) (JArr ws)"
| obj: "list_all2 (\<lambda>p q. fst p = fst q \<and> same_json (snd p) (snd q)) kvs jws \<Longrightarrow>
    mset jws = mset jws' \<Longrightarrow> distinct (map fst jws') \<Longrightarrow> same_json (JObj kvs) (JObj jws')"

lemma is_undefined_same: "same_json v w \<Longrightarrow> is_undefined v = is_undefined w"
  by (erule same_json.cases) auto

definition entry_text :: "string \<times> json \<Rightarrow> string \<times> string" where
  "entry_text p = (fst p, stableStringify (snd p))"

lemma stableStringify_obj:
  "stableStringify (JObj kvs) =
     braces ''{'' (map (\<lambda>(k, t). json_string k @ '':'' @ t)
       (sort_key fst (map entry_text (filter (\<lambda>p. \<not> is_undefined (snd p)) kvs)))) ''}''"
proof -
  let ?xs = "filter (\<lambda>p. \<not> is_undefined (snd p)) kvs"
  let ?g = "\<lambda>(k, t). json_string k @ '':'' @ t"
  have "map (\<lambda>(k, v). json_string k @ '':'' @ stableStringify v) (sort_key fst ?xs) =
      map ?g (map entry_text (sort_key fst ?xs))"
    by (auto simp: entry_text_def)
  also have "map entry_text (sort_key fst ?xs) = sort_key fst (map entry_text ?xs)"
    by (rule sort_map) (simp add: entry_text_def)
  finally show ?thesis by (simp only: stableStringify.simps case_prod_beta')
qed

lemma entry_texts_eq:
  assumes "list_all2 (\<lambda>p q. fst p = fst q \<and> same_json (snd p) (snd q) \<and>
      stableStringify (snd p) = stableStringify (snd q)) kvs jws"
  shows "map entry_text (filter (\<lambda>p. \<not> is_undefined (snd p)) kvs) =
    map entry_text (filter (\<lambda>p. \<not> is_undefined (snd p)) jws)"
  using assms by (induction rule: list_all2_induct) (auto simp: entry_text_def dest: is_undefined_same)

lemma stableStringify_same: "same_json v w \<Longrightarrow> stableStringify v = stableStringify w"
proof (induction rule: same_json.induct)
  case (arr vs ws)
  then have "map stableStringify vs = map stableStringify ws"
    by (induction rule: list_all2_induct) auto
  then show ?case by simp
next
  case (obj kvs jws jws')
  let ?d = "\<lambda>p :: string \<times> json. \<not> is_undefined (snd p)"
  have "map entry_text (filter ?d kvs) = map entry_text (filter ?d jws)"
    by (rule entry_texts_eq, rule list_all2_mono [OF obj.IH]) auto
  moreover have "sort_key fst (map entry_text (filter ?d jws)) = sort_key fst (map entry_text (filter ?d jws'))"
  proof (rule sort_key_cong_mset)
    show "mset (map entry_text (filter ?d jws)) = mset (map entry_text (filter ?d jws'))"
      using obj.hyps(1) by (simp add: mset_map mset_filter)
    show "distinct (map fst (map entry_text (filter ?d jws')))"
      using obj.hyps(2) by (auto simp: entry_text_def comp_def intro: distinct_map_filter)
  qed
  ultimately show ?case by (simp only: stableStringify_obj)
qed simp

end
