(* ===== verification/AgentTokens.thy ===== *)
theory AgentTokens
  imports Json "HOL-Library.Word"
begin

text \<open>
  Agent credentials of \<open>packages/agents/src\<close>: the scope catalogue (\<open>scopes.ts\<close>), IP allow lists
  (\<open>ip.ts\<close>) and the token record with its in-memory store (\<open>tokens.ts\<close>).  SHA-256 and the random
  bytes of a new token are parameters: \<open>sha\<close> is the hash function, \<open>rnd\<close> the base64url text drawn.
\<close>

unbundle bit_operations_syntax

section \<open>Scopes (scopes.ts)\<close>

record scope_definition =
  sd_scope :: string
  sd_service :: string
  sd_dangerous :: bool

definition sd :: "string \<Rightarrow> string \<Rightarrow> bool \<Rightarrow> scope_definition" where
  "sd sc sv d = \<lparr>sd_scope = sc, sd_service = sv, sd_dangerous = d\<rparr>"

definition AGENT_SCOPES :: "scope_definition list" where
  "AGENT_SCOPES =
    [sd ''projects.read'' ''projects'' False, sd ''projects.create'' ''projects'' False,
     sd ''projects.update'' ''projects'' False, sd ''projects.delete'' ''projects'' True,
     sd ''database.read'' ''database'' False, sd ''database.write'' ''database'' False,
     sd ''database.sql'' ''database'' False, sd ''database.migrate'' ''database'' True,
     sd ''database.destructive'' ''database'' True,
     sd ''functions.read'' ''functions'' False, sd ''functions.deploy'' ''functions'' True,
     sd ''functions.update'' ''functions'' False, sd ''functions.delete'' ''functions'' True,
     sd ''storage.read'' ''storage'' False, sd ''storage.write'' ''storage'' False,
     sd ''storage.delete'' ''storage'' True,
     sd ''realtime.read'' ''realtime'' False, sd ''realtime.manage'' ''realtime'' False,
     sd ''logs.read'' ''logs'' False,
     sd ''environment.read'' ''environment'' False, sd ''environment.write'' ''environment'' False,
     sd ''usage.read'' ''usage'' False, sd ''billing.read'' ''billing'' False,
     sd ''automation.read'' ''automation'' False, sd ''automation.write'' ''automation'' False]"

definition isKnownScope :: "string \<Rightarrow> bool" where
  "isKnownScope scope \<longleftrightarrow> scope \<in> set (map sd_scope AGENT_SCOPES)"

definition defaultScopes :: "string list" where
  "defaultScopes = map sd_scope (filter (\<lambda>s. \<not> sd_dangerous s) AGENT_SCOPES)"

definition dangerousScopes :: "string list" where
  "dangerousScopes = map sd_scope (filter sd_dangerous AGENT_SCOPES)"

text \<open>The presets: an identifier and its days, \<open>None\<close> for a token that never expires.\<close>

definition EXPIRY_PRESETS :: "(string \<times> nat option) list" where
  "EXPIRY_PRESETS =
     [(''7d'', Some 7), (''30d'', Some 30), (''90d'', Some 90), (''365d'', Some 365), (''never'', None)]"

definition expiryPreset :: "string \<Rightarrow> nat option option" where
  "expiryPreset i = map_option snd (find (\<lambda>p. fst p = i) EXPIRY_PRESETS)"

lemma default_dangerous_partition:
  "isKnownScope s \<longleftrightarrow> (s \<in> set defaultScopes) \<noteq> (s \<in> set dangerousScopes)"
  by (auto simp: isKnownScope_def defaultScopes_def dangerousScopes_def AGENT_SCOPES_def sd_def)

section \<open>IP allow lists (ip.ts)\<close>

definition ipv4ToInt :: "string \<Rightarrow> 32 word option" where
  "ipv4ToInt ip =
     (case ipv4_groups (js_trim ip) of None \<Rightarrow> None
      | Some gs \<Rightarrow> (let parts = map dec_val gs in
          if list_ex (\<lambda>n. n > 255) parts then None
          else Some (of_nat (parts ! 0 * 256 ^ 3 + parts ! 1 * 256 ^ 2 + parts ! 2 * 256 + parts ! 3))))"

text \<open>\<open>CIDR_RE\<close>: an address, a slash and one or two digits; the groups it captures.\<close>

definition cidr_groups :: "string \<Rightarrow> (string \<times> string) option" where
  "cidr_groups s =
     (case split_on (CHR ''/'') s of
        [base, bits] \<Rightarrow> if ipv4_groups base \<noteq> None \<and> short_digits 2 bits then Some (base, bits) else None
      | _ \<Rightarrow> None)"

definition ipv6_char :: "char \<Rightarrow> bool" where
  "ipv6_char c \<longleftrightarrow> is_digit c \<or> (97 \<le> code c \<and> code c \<le> 102) \<or> c \<in> set '':.%''"

definition normalizeIpv6 :: "string \<Rightarrow> string option" where
  "normalizeIpv6 ip =
     (let clean = to_lower (js_trim ip) in
      if CHR '':'' \<notin> set clean then None
      else if \<not> list_all ipv6_char clean then None else Some clean)"

text \<open>\<open>String(entry ?? '').trim()\<close>\<close>

definition ip_entry_text :: "json \<Rightarrow> string" where
  "ip_entry_text entry = js_trim (case entry of JNull \<Rightarrow> [] | JUndefined \<Rightarrow> [] | e \<Rightarrow> js_String e)"

definition parseIpEntry :: "json \<Rightarrow> string outcome" where
  "parseIpEntry entry =
     (let s = ip_entry_text entry;
          bad = Inl (ApiError VALIDATION_ERROR 400) in
      if s = [] then bad
      else case cidr_groups s of
        Some (base, b) \<Rightarrow> (let bits = dec_val b in
           if ipv4ToInt base = None \<or> bits > 32 then bad else Inr (base @ ''/'' @ dec bits))
      | None \<Rightarrow>
          if ipv4ToInt s \<noteq> None then Inr s
          else (case normalizeIpv6 s of Some v6 \<Rightarrow> Inr v6 | None \<Rightarrow> bad))"

definition parseIpAllowlist :: "json \<Rightarrow> string list outcome" where
  "parseIpAllowlist input =
     (case input of JUndefined \<Rightarrow> Inr [] | JNull \<Rightarrow> Inr []
      | JArr es \<Rightarrow>
          if length es > 20 then Inl (ApiError VALIDATION_ERROR 400)
          else and_then (each parseIpEntry es) (\<lambda>out. Inr (js_unique out))
      | _ \<Rightarrow> Inl (ApiError VALIDATION_ERROR 400))"

text \<open>
  A shift count is taken modulo 32, a \<open>null\<close> operand of \<open>&\<close> is 0.
\<close>

definition v4Matches :: "string \<Rightarrow> string \<Rightarrow> bool" where
  "v4Matches ip entry =
     (case ipv4ToInt ip of None \<Rightarrow> False
      | Some addr \<Rightarrow>
         (case cidr_groups entry of
            None \<Rightarrow> ipv4ToInt entry = Some addr
          | Some (b, n) \<Rightarrow>
             (let base = (case ipv4ToInt b of Some w \<Rightarrow> w | None \<Rightarrow> 0);
                  bits = dec_val n;
                  mask = (if bits = 32 then 0xffffffff
                          else push_bit (nat ((32 - int bits) mod 32)) 0xffffffff) in
              if bits = 0 then True else addr AND mask = base AND mask)))"

definition ipAllowed :: "string list \<Rightarrow> string option \<Rightarrow> bool" where
  "ipAllowed allowlist ip =
     (if allowlist = [] then True
      else case ip of None \<Rightarrow> False
      | Some i \<Rightarrow>
          if i = [] \<or> i = ''unknown'' then False
          else (let clean = js_trim i in
            if to_lower (take 7 clean) = ''::ffff:'' \<and> ipv4_groups (drop 7 clean) \<noteq> None
            then list_ex (v4Matches (drop 7 clean)) allowlist
            else if CHR '':'' \<in> set clean
            then (case normalizeIpv6 clean of None \<Rightarrow> False | Some v6 \<Rightarrow> v6 \<in> set allowlist)
            else list_ex (v4Matches clean) allowlist))"

lemmas ipv4_eval = ipv4ToInt_def ipv4_groups_def cidr_groups_def short_digits_def js_trim_def
  dec_val_def digit_val_def Let_def

subsection \<open>Matching a CIDR block\<close>

lemma ipv4_groups_chars: "ipv4_groups s \<noteq> None \<Longrightarrow> c \<in> set s \<Longrightarrow> is_digit c \<or> c = CHR ''.''"
proof -
  assume g: "ipv4_groups s \<noteq> None" and c: "c \<in> set s"
  have "c = CHR ''.'' \<or> (\<exists>w\<in>set (split_on (CHR ''.'') s). c \<in> set w)"
    using c
  proof (induction s)
    case (Cons x s)
    obtain w ws where "split_on (CHR ''.'') s = w # ws" by (cases "split_on (CHR ''.'') s") auto
    with Cons show ?case by auto
  qed simp
  then show ?thesis using g by (auto simp: ipv4_groups_def Let_def short_digits_def list_all_iff split: if_splits)
qed

lemma digit_not_in: "is_digit c \<Longrightarrow> c \<noteq> CHR ''/'' \<and> c \<noteq> CHR '':'' \<and> \<not> is_space c"
  by (auto simp: is_digit_def is_space_def code_def)

lemma ipv4_no_slash: "ipv4_groups s \<noteq> None \<Longrightarrow> CHR ''/'' \<notin> set s \<and> CHR '':'' \<notin> set s"
  using ipv4_groups_chars digit_not_in by fastforce

lemma ipv4_trimmed: "ipv4_groups s \<noteq> None \<Longrightarrow> trimmed s"
proof -
  assume g: "ipv4_groups s \<noteq> None"
  have "\<not> is_space c" if "c \<in> set s" for c
    using ipv4_groups_chars [OF g that] digit_not_in [of c] by (auto simp: is_space_def code_def)
  then show ?thesis by (auto simp: trimmed_def)
qed

lemma dec_short: "n \<le> 32 \<Longrightarrow> short_digits 2 (dec n)"
  using dec_length_le [of 2 n] dec_digits [of n] by (cases "dec n") (auto simp: short_digits_def)

lemma digits_no_slash: "list_all is_digit s \<Longrightarrow> CHR ''/'' \<notin> set s"
  by (auto simp: list_all_iff is_digit_def code_def)

lemma cidr_groups_print:
  "ipv4_groups b \<noteq> None \<Longrightarrow> n \<le> 32 \<Longrightarrow> cidr_groups (b @ ''/'' @ dec n) = Some (b, dec n)"
  using ipv4_no_slash [of b] dec_short [of n] digits_no_slash [OF dec_digits [of n]]
  by (simp add: cidr_groups_def split_on_append split_on_no_sep)

lemma bit_mask32: "bit (push_bit k 0xffffffff :: 32 word) i \<longleftrightarrow> k \<le> i \<and> i < 32"
proof -
  have m: "(0xffffffff :: 32 word) = mask 32" by (simp add: mask_eq_exp_minus_1)
  show ?thesis by (subst m) (auto simp: bit_push_bit_iff bit_mask_iff)
qed

lemma mask_prefix:
  fixes x y :: "32 word"
  shows "x AND push_bit k 0xffffffff = y AND push_bit k 0xffffffff \<longleftrightarrow> drop_bit k x = drop_bit k y"
proof
  assume l: "x AND push_bit k 0xffffffff = y AND push_bit k 0xffffffff"
  show "drop_bit k x = drop_bit k y"
  proof (rule bit_word_eqI)
    fix i assume "i < LENGTH(32)"
    have "bit (x AND push_bit k 0xffffffff) (k + i) = bit (y AND push_bit k 0xffffffff) (k + i)"
      using l by simp
    then show "bit (drop_bit k x) i = bit (drop_bit k y) i"
      by (auto simp: bit_and_iff bit_mask32 bit_drop_bit_eq dest: bit_imp_le_length)
  qed
next
  assume r: "drop_bit k x = drop_bit k y"
  show "x AND push_bit k 0xffffffff = y AND push_bit k 0xffffffff"
  proof (rule bit_word_eqI)
    fix i assume "i < LENGTH(32)"
    have "bit x i = bit y i" if "k \<le> i"
      using arg_cong [OF r, of "\<lambda>w. bit w (i - k)"] that by (simp add: bit_drop_bit_eq)
    then show "bit (x AND push_bit k 0xffffffff) i = bit (y AND push_bit k 0xffffffff) i"
      by (auto simp: bit_and_iff bit_mask32)
  qed
qed

lemma v4Matches_block:
  assumes "ipv4ToInt ip = Some x" and "ipv4_groups base \<noteq> None" and "ipv4ToInt base = Some y" and "n \<le> 32"
  shows "v4Matches ip (base @ ''/'' @ dec n) \<longleftrightarrow> drop_bit (32 - n) x = drop_bit (32 - n) y"
proof -
  have g: "cidr_groups (base @ ''/'' @ dec n) = Some (base, dec n)"
    using assms by (intro cidr_groups_print)
  consider (zero) "n = 0" | (full) "n = 32" | (mid) "0 < n" "n < 32" using assms(4) by linarith
  then show ?thesis
  proof cases
    case zero
    have "drop_bit 32 w = 0" for w :: "32 word"
      by (rule bit_word_eqI) (auto simp: bit_drop_bit_eq dest: bit_imp_le_length)
    with zero g assms show ?thesis by (simp add: v4Matches_def Let_def)
  next
    case full
    have "(0xffffffff :: 32 word) = push_bit 0 0xffffffff" by simp
    with full g assms mask_prefix [of x 0 y] show ?thesis by (simp add: v4Matches_def Let_def)
  next
    case mid
    then have "nat ((32 - int n) mod 32) = 32 - n" by (subst mod_pos_pos_trivial) auto
    with mid g assms mask_prefix [of x "32 - n" y] show ?thesis by (simp add: v4Matches_def Let_def)
  qed
qed

text \<open>
  A caller matches a block \<open>base/n\<close> of the allow list exactly when the leading \<open>n\<close> bits of the
  two 32-bit addresses agree, for every prefix length from 0 to 32.
\<close>

theorem v4Matches_prefix:
  assumes "ipv4ToInt ip = Some x" and "ipv4_groups base \<noteq> None" and "ipv4ToInt base = Some y" and "n \<le> 32"
  shows "v4Matches ip (base @ ''/'' @ dec n) \<longleftrightarrow> drop_bit (32 - n) x = drop_bit (32 - n) y"
  by (rule v4Matches_block [OF assms])

theorem v4Matches_prefix_witness:
  "v4Matches ''10.1.2.3'' (''10.1.0.0'' @ ''/'' @ dec 16)"
proof -
  have a: "ipv4ToInt ''10.1.2.3'' = Some 0x0a010203" by (simp add: ipv4_eval eval_simps)
  have b: "ipv4_groups ''10.1.0.0'' \<noteq> None" by (simp add: ipv4_eval eval_simps)
  have c: "ipv4ToInt ''10.1.0.0'' = Some 0x0a010000" by (simp add: ipv4_eval eval_simps)
  show ?thesis using v4Matches_prefix [OF a b c, of 16] by simp
qed

subsection \<open>Parsed lists are in normal form\<close>

lemma cidr_groups_Some:
  "cidr_groups s = Some (b, n) \<Longrightarrow> ipv4_groups b \<noteq> None \<and> short_digits 2 n \<and> s = b @ ''/'' @ n"
  using join_split [of "CHR ''/''" s] by (auto simp: cidr_groups_def split: list.splits if_splits)

lemma cidr_no_colon: "cidr_groups s = Some p \<Longrightarrow> CHR '':'' \<notin> set s"
proof (cases p)
  case (Pair b n)
  moreover assume "cidr_groups s = Some p"
  ultimately have "ipv4_groups b \<noteq> None" "short_digits 2 n" "s = b @ ''/'' @ n"
    using cidr_groups_Some by blast+
  then show ?thesis
    using ipv4_no_slash [of b] digit_not_in by (auto simp: short_digits_def list_all_iff)
qed

lemma ipv4ToInt_groups: "trimmed s \<Longrightarrow> ipv4ToInt s \<noteq> None \<Longrightarrow> ipv4_groups s \<noteq> None"
  by (auto simp: ipv4ToInt_def js_trim_id split: option.splits)

lemma cidr_print_trimmed: "ipv4_groups b \<noteq> None \<Longrightarrow> trimmed (b @ ''/'' @ dec n)"
proof -
  assume g: "ipv4_groups b \<noteq> None"
  have "\<not> is_space c" if "c \<in> set (b @ ''/'' @ dec n)" for c
  proof -
    have "is_digit c \<or> c = CHR ''.'' \<or> c = CHR ''/''"
      using that ipv4_groups_chars [OF g] dec_digits [of n] by (auto simp: list_all_iff)
    then show ?thesis using digit_not_in [of c] by (auto simp: is_space_def code_def)
  qed
  then show ?thesis unfolding trimmed_def by (metis hd_in_set last_in_set)
qed

lemma ip_entry_text_str: "trimmed s \<Longrightarrow> ip_entry_text (JStr s) = s"
  by (simp add: ip_entry_text_def js_trim_id)

lemma parseIpEntry_normal:
  assumes "parseIpEntry e = Inr s"
  shows "parseIpEntry (JStr s) = Inr s"
proof -
  define t where "t = ip_entry_text e"
  have t: "trimmed t" by (simp add: t_def ip_entry_text_def js_trim_trimmed)
  have ne: "t \<noteq> []" using assms by (auto simp: parseIpEntry_def t_def [symmetric] Let_def)
  show ?thesis
  proof (cases "cidr_groups t")
    case (Some p)
    then obtain b n where p: "cidr_groups t = Some (b, n)" by (cases p) auto
    with assms ne have s: "s = b @ ''/'' @ dec (dec_val n)" and "ipv4ToInt b \<noteq> None" and "dec_val n \<le> 32"
      by (auto simp: parseIpEntry_def t_def [symmetric] Let_def split: if_splits)
    moreover have "ipv4_groups b \<noteq> None" using cidr_groups_Some [OF p] by simp
    ultimately show ?thesis
      using cidr_groups_print [of b "dec_val n"] cidr_print_trimmed [of b "dec_val n"]
      by (simp add: parseIpEntry_def ip_entry_text_str Let_def)
  next
    case None
    show ?thesis
    proof (cases "ipv4ToInt t")
      case (Some w)
      with None assms ne have "s = t" by (auto simp: parseIpEntry_def t_def [symmetric] Let_def split: if_splits)
      with None Some ne t show ?thesis by (simp add: parseIpEntry_def ip_entry_text_str Let_def)
    next
      case noV4: None
      with None assms ne have v6: "normalizeIpv6 t = Some s"
        by (auto simp: parseIpEntry_def t_def [symmetric] Let_def split: if_splits option.splits)
      then have s: "s = to_lower t" and colon: "CHR '':'' \<in> set s" and chars: "list_all ipv6_char s"
        using t by (auto simp: normalizeIpv6_def js_trim_id Let_def split: if_splits)
      have st: "trimmed s" using s t to_lower_trimmed by simp
      have "cidr_groups s = None" using cidr_no_colon [of s] colon by (cases "cidr_groups s") auto
      moreover have "ipv4ToInt s = None"
        using ipv4ToInt_groups [OF st] ipv4_no_slash colon by blast
      moreover have "normalizeIpv6 s = Some s"
        using s colon chars st by (simp add: normalizeIpv6_def js_trim_id Let_def)
      moreover have "s \<noteq> []" using colon by auto
      ultimately show ?thesis using st by (simp add: parseIpEntry_def ip_entry_text_str Let_def)
    qed
  qed
qed

lemma parseIpAllowlist_props:
  assumes "parseIpAllowlist input = Inr out"
  shows "distinct out \<and> length out \<le> 20 \<and> parseIpAllowlist (JArr (map JStr out)) = Inr out"
proof -
  have "out = [] \<or> (\<exists>es. input = JArr es \<and> length es \<le> 20 \<and>
      (\<exists>ss. each parseIpEntry es = Inr ss \<and> out = js_unique ss))"
    using assms by (auto simp: parseIpAllowlist_def and_then_Inr split: json.splits if_splits)
  then show ?thesis
  proof
    assume "out = []"
    then show ?thesis by (simp add: parseIpAllowlist_def js_unique_def)
  next
    assume "\<exists>es. input = JArr es \<and> length es \<le> 20 \<and>
      (\<exists>ss. each parseIpEntry es = Inr ss \<and> out = js_unique ss)"
    then obtain es ss where len: "length es \<le> 20" and ps: "each parseIpEntry es = Inr ss"
      and out: "out = js_unique ss" by blast
    have l2: "list_all2 (\<lambda>e s. parseIpEntry e = Inr s) es ss" using ps by (simp add: each_Inr)
    have n: "length out \<le> 20" using js_unique_length [of ss] list_all2_lengthD [OF l2] len out by simp
    have "\<forall>s\<in>set out. parseIpEntry (JStr s) = Inr s"
      using l2 out parseIpEntry_normal by (fastforce simp: list_all2_conv_all_nth in_set_conv_nth)
    then have "each parseIpEntry (map JStr out) = Inr out"
      by (simp add: each_Inr list_all2_map1 list.rel_refl_strong list_all2_same)
    then show ?thesis using n out by (simp add: parseIpAllowlist_def js_unique_id)
  qed
qed

text \<open>
  A parsed allow list has at most 20 distinct entries and is its own normal form: parsing the
  stored entries again returns exactly the stored list.
\<close>

theorem parseIpAllowlist_normal:
  assumes "parseIpAllowlist input = Inr out"
  shows "distinct out \<and> length out \<le> 20 \<and> parseIpAllowlist (JArr (map JStr out)) = Inr out"
  by (rule parseIpAllowlist_props [OF assms])

theorem parseIpAllowlist_normal_witness:
  "\<exists>out. parseIpAllowlist (JArr [JStr '' 10.0.0.0/08 '', JStr ''fe80::1'', JStr ''10.0.0.0/8'']) = Inr out \<and>
     parseIpAllowlist (JArr (map JStr out)) = Inr out"
proof -
  have e8: "dec 8 = [CHR ''8'']" by code_simp
  have p: "parseIpAllowlist (JArr [JStr '' 10.0.0.0/08 '', JStr ''fe80::1'', JStr ''10.0.0.0/8'']) =
      Inr [''10.0.0.0/8'', ''fe80::1'']"
    by (simp add: parseIpAllowlist_def parseIpEntry_def ip_entry_text_def e8 ipv4_eval eval_simps
        normalizeIpv6_def to_lower_def ipv6_char_def js_unique_def)
  show ?thesis using parseIpAllowlist_normal [OF p] p by blast
qed

section \<open>Token records (tokens.ts)\<close>

text \<open>\<open>AgentToken\<close> is the exposed record plus the hash that \<open>exposeToken\<close> drops.\<close>

record exposed_token =
  at_id :: string
  at_userId :: string
  at_organizationId :: "string option"
  at_name :: string
  at_prefix :: string
  at_scopes :: "string list"
  at_projectIds :: "string list"
  at_environments :: "string list"
  at_approvalRequired :: bool
  at_ipAllowlist :: "string list"
  at_expiresAt :: "instant option"
  at_revokedAt :: "instant option"
  at_requestCount :: nat
  at_lastUsedAt :: "instant option"
  at_createdAt :: instant

record agent_token = exposed_token +
  at_hash :: string

record create_token_input =
  ci_userId :: string
  ci_organizationId :: "string option"
  ci_name :: string
  ci_scopes :: "string list"
  ci_projectIds :: "string list"
  ci_environments :: "string list option"
  ci_approvalRequired :: "bool option"
  ci_expiresIn :: "string option"
  ci_ipAllowlist :: json

definition AGENT_TOKEN_PREFIX :: string where
  "AGENT_TOKEN_PREFIX = ''cn_agent_''"

definition exposeToken :: "agent_token \<Rightarrow> exposed_token" where
  "exposeToken t = exposed_token.truncate t"

definition looksLikeAgentToken :: "string \<Rightarrow> bool" where
  "looksLikeAgentToken raw \<longleftrightarrow> starts_with raw AGENT_TOKEN_PREFIX \<and> length raw \<le> 200"

record token_value =
  tv_raw :: string
  tv_prefix :: string
  tv_hash :: string

definition createAgentTokenValue :: "(string \<Rightarrow> string) \<Rightarrow> string \<Rightarrow> token_value" where
  "createAgentTokenValue sha rnd =
     (let raw = AGENT_TOKEN_PREFIX @ rnd in \<lparr>tv_raw = raw, tv_prefix = take 16 raw, tv_hash = sha raw\<rparr>)"

definition base36 :: "int \<Rightarrow> string" where
  "base36 i = (if i < 0 then CHR ''-'' # numeral_in 36 (nat (- i)) else numeral_in 36 (nat i))"

definition counter_id :: "string \<Rightarrow> instant \<Rightarrow> nat \<Rightarrow> string" where
  "counter_id pre now n = pre @ base36 now @ ''_'' @ dec n"

definition day_ms :: int where
  "day_ms = 86400000"

definition normalizeSlug :: "string \<Rightarrow> string" where
  "normalizeSlug e = to_lower (js_trim e)"

text \<open>The module's \<open>tokenCounter\<close> is the last argument; the next value is returned with the record.\<close>

definition buildTokenRecord ::
    "create_token_input \<Rightarrow> instant \<Rightarrow> nat \<Rightarrow> (agent_token \<times> nat) outcome" where
  "buildTokenRecord input now counter =
     (let bad = ApiError VALIDATION_ERROR 400;
          scopes = js_unique (ci_scopes input);
          projectIds = take 200 (js_unique (ci_projectIds input));
          environments = take 20 (filter (\<lambda>e. length e > 0 \<and> length e \<le> 63)
            (js_unique (map normalizeSlug (case ci_environments input of Some es \<Rightarrow> es | None \<Rightarrow> [])))) in
      if ci_userId input = [] then Inl bad
      else if ci_name input = [] \<or> length (ci_name input) > 100 then Inl bad
      else if length scopes = 0 then Inl bad
      else if list_ex (\<lambda>sc. \<not> isKnownScope sc) scopes then Inl bad
      else case expiryPreset (case ci_expiresIn input of Some p \<Rightarrow> p | None \<Rightarrow> ''30d'') of
        None \<Rightarrow> Inl bad
      | Some days \<Rightarrow>
          and_then (parseIpAllowlist (ci_ipAllowlist input)) (\<lambda>ipAllowlist.
            Inr (\<lparr>at_id = counter_id ''agent_'' now (counter + 1),
                  at_userId = ci_userId input,
                  at_organizationId = ci_organizationId input,
                  at_name = take 100 (ci_name input),
                  at_prefix = [],
                  at_scopes = scopes,
                  at_projectIds = projectIds,
                  at_environments = environments,
                  at_approvalRequired = (case ci_approvalRequired input of Some b \<Rightarrow> b | None \<Rightarrow> False),
                  at_ipAllowlist = ipAllowlist,
                  at_expiresAt = map_option (\<lambda>d. now + int d * day_ms) days,
                  at_revokedAt = None,
                  at_requestCount = 0,
                  at_lastUsedAt = None,
                  at_createdAt = now,
                  at_hash = []\<rparr>, counter + 1)))"

subsection \<open>MemoryAgentTokenStore\<close>

type_synonym token_map = "(string, agent_token) jsmap"

definition token_save :: "agent_token \<Rightarrow> token_map \<Rightarrow> agent_token \<times> token_map" where
  "token_save t m = (t, js_set (at_id t) t m)"

definition token_findByHash :: "string \<Rightarrow> token_map \<Rightarrow> agent_token option" where
  "token_findByHash h m = (if h = [] then None else find (\<lambda>t. at_hash t = h) (js_values m))"

definition token_get :: "string \<Rightarrow> token_map \<Rightarrow> agent_token option" where
  "token_get i m = js_get m i"

definition token_listByUser :: "string \<Rightarrow> token_map \<Rightarrow> exposed_token list" where
  "token_listByUser userId m =
     map exposeToken (newest_first at_createdAt (filter (\<lambda>t. at_userId t = userId) (js_values m)))"

definition token_revoke :: "instant \<Rightarrow> string \<Rightarrow> token_map \<Rightarrow> exposed_token option \<times> token_map" where
  "token_revoke now i m =
     (case js_get m i of None \<Rightarrow> (None, m)
      | Some t \<Rightarrow> if at_revokedAt t \<noteq> None then (None, m)
          else (let next' = t\<lparr>at_revokedAt := Some now\<rparr> in (Some (exposeToken next'), js_set i next' m)))"

definition token_touch :: "instant \<Rightarrow> string \<Rightarrow> token_map \<Rightarrow> token_map" where
  "token_touch now i m =
     (case js_get m i of None \<Rightarrow> m
      | Some t \<Rightarrow> js_set i (t\<lparr>at_requestCount := at_requestCount t + 1, at_lastUsedAt := Some now\<rparr>) m)"

definition environmentAllowed :: "string list \<Rightarrow> string \<Rightarrow> bool \<Rightarrow> bool" where
  "environmentAllowed environments environmentSlug isProduction =
     (let slug = normalizeSlug environmentSlug; allowed = map normalizeSlug environments in
      if isProduction then slug \<in> set allowed else allowed = [] \<or> slug \<in> set allowed)"

lemmas token_store_defs = token_save_def token_findByHash_def token_get_def token_revoke_def token_touch_def

subsection \<open>Well-formed records\<close>

text \<open>What every stored token satisfies, whatever the input was.\<close>

definition wf_token :: "agent_token \<Rightarrow> bool" where
  "wf_token t \<longleftrightarrow>
     at_userId t \<noteq> [] \<and> 1 \<le> length (at_name t) \<and> length (at_name t) \<le> 100 \<and>
     at_scopes t \<noteq> [] \<and> distinct (at_scopes t) \<and> list_all isKnownScope (at_scopes t) \<and>
     distinct (at_projectIds t) \<and> length (at_projectIds t) \<le> 200 \<and>
     distinct (at_environments t) \<and> length (at_environments t) \<le> 20 \<and>
     list_all (\<lambda>e. 1 \<le> length e \<and> length e \<le> 63 \<and> normalizeSlug e = e) (at_environments t) \<and>
     distinct (at_ipAllowlist t) \<and> length (at_ipAllowlist t) \<le> 20 \<and>
     (\<forall>e. at_expiresAt t = Some e \<longrightarrow> at_createdAt t < e)"

lemma trimmed_lower_trim: "trimmed (to_lower (js_trim e))"
  by (simp add: to_lower_trimmed js_trim_trimmed)

lemma normalizeSlug_idem [simp]: "normalizeSlug (normalizeSlug e) = normalizeSlug e"
  by (simp add: normalizeSlug_def js_trim_id trimmed_lower_trim)

lemma expiryPreset_positive: "expiryPreset p = Some (Some d) \<Longrightarrow> 0 < d"
  by (auto simp: expiryPreset_def EXPIRY_PRESETS_def split: if_splits)

lemmas buildTokenRecord_cases =
  buildTokenRecord_def [unfolded Let_def]

lemma buildTokenRecord_props:
  assumes "buildTokenRecord input now c = Inr (t, c')"
  shows "wf_token t \<and> at_revokedAt t = None \<and> c' = c + 1"
proof -
  from assms obtain days ips where
    days: "expiryPreset (case ci_expiresIn input of Some p \<Rightarrow> p | None \<Rightarrow> ''30d'') = Some days"
    and ips: "parseIpAllowlist (ci_ipAllowlist input) = Inr ips"
    by (auto simp: buildTokenRecord_cases and_then_Inr split: if_splits option.splits)
  have "distinct ips \<and> length ips \<le> 20" using parseIpAllowlist_props [OF ips] by simp
  moreover have "0 < d" if "days = Some d" for d
    using days that expiryPreset_positive by blast
  ultimately show ?thesis using assms days ips
    by (auto simp: buildTokenRecord_cases wf_token_def list_all_iff list_ex_iff and_then_Inr day_ms_def
        Suc_le_eq split: if_splits dest!: in_set_takeD intro: distinct_take)
qed

text \<open>
  C27. A record that \<open>buildTokenRecord\<close> lets through is well formed: known, distinct and non-empty
  scopes, bounded and normalized lists, an expiry after the creation time, and not revoked.
\<close>

theorem buildTokenRecord_wf:
  assumes "buildTokenRecord input now c = Inr (t, c')"
  shows "wf_token t \<and> at_revokedAt t = None \<and> c' = c + 1"
  by (rule buildTokenRecord_props [OF assms])

definition sample_input :: create_token_input where
  "sample_input = \<lparr>ci_userId = ''u1'', ci_organizationId = Some ''o1'', ci_name = ''ci'',
     ci_scopes = [''logs.read'', ''logs.read''], ci_projectIds = [], ci_environments = Some ['' staging ''],
     ci_approvalRequired = None, ci_expiresIn = Some ''7d'', ci_ipAllowlist = JUndefined\<rparr>"

lemma sample_token: "\<exists>t. buildTokenRecord sample_input 0 0 = Inr (t, 1) \<and> at_environments t = [''staging'']"
  by (simp add: buildTokenRecord_def sample_input_def isKnownScope_def AGENT_SCOPES_def sd_def js_unique_def
      expiryPreset_def EXPIRY_PRESETS_def parseIpAllowlist_def normalizeSlug_def js_trim_def to_lower_def
      eval_simps)

theorem buildTokenRecord_wf_witness: "\<exists>t. buildTokenRecord sample_input 0 0 = Inr (t, 1) \<and> wf_token t"
  using sample_token buildTokenRecord_wf by blast

text \<open>
  Production is never implied: a token whose record was built from a request reaches a production
  environment only if that request listed the environment itself (up to case and outer white space);
  an empty list grants every other environment and never production.
\<close>

theorem production_needs_grant:
  assumes "buildTokenRecord input now c = Inr (t, c')"
    and "environmentAllowed (at_environments t) slug True"
  shows "\<exists>es. ci_environments input = Some es \<and>
    (\<exists>e\<in>set es. normalizeSlug e = normalizeSlug slug)"
proof -
  from assms(2) obtain f where f: "f \<in> set (at_environments t)" "normalizeSlug f = normalizeSlug slug"
    by (auto simp: environmentAllowed_def)
  moreover from assms(1) f(1) obtain es e where "ci_environments input = Some es" "e \<in> set es" "f = normalizeSlug e"
    by (auto simp: buildTokenRecord_cases and_then_Inr split: if_splits option.splits dest!: in_set_takeD)
  ultimately show ?thesis by auto
qed

theorem production_needs_grant_witness:
  "\<exists>es. ci_environments sample_input = Some es \<and> (\<exists>e\<in>set es. normalizeSlug e = normalizeSlug ''STAGING'')"
proof -
  obtain t where t: "buildTokenRecord sample_input 0 0 = Inr (t, 1)" "at_environments t = [''staging'']"
    using sample_token by blast
  have "normalizeSlug ''STAGING'' = normalizeSlug ''staging''" by code_simp
  then have "environmentAllowed (at_environments t) ''STAGING'' True"
    using t(2) by (simp add: environmentAllowed_def)
  then show ?thesis by (rule production_needs_grant [OF t(1)])
qed

end
