(* ===== verification/AgentApprovals.thy ===== *)
theory AgentApprovals
  imports AgentTokens
begin

text \<open>
  The approval requests (\<open>approvals.ts\<close>) and the activity audit (\<open>activity.ts\<close>) of
  \<open>packages/agents/src\<close>, each with its in-memory store.  The locale \<open>approval_contract\<close> states what the
  interface \<open>ApprovalStore\<close> promises to its client, the agent service; the facts about the life of an
  approval are proved from it and the memory store is its interpretation.
\<close>

section \<open>Approval requests (approvals.ts)\<close>

datatype approval_status = Pending | Approved | Rejected | Expired | Consumed

text \<open>The fields a caller supplies, then those the store adds.\<close>

record approval_input =
  ap_organizationId :: string
  ap_projectId :: "string option"
  ap_tokenId :: string
  ap_userId :: string
  ap_action :: string
  ap_method :: string
  ap_path :: string
  ap_bodyHash :: string
  ap_expiresAt :: instant

record approval = approval_input +
  ap_id :: string
  ap_status :: approval_status
  ap_decidedAt :: "instant option"
  ap_createdAt :: instant

definition fingerprintOperation :: "(string \<Rightarrow> string) \<Rightarrow> string \<Rightarrow> string \<Rightarrow> json \<Rightarrow> string" where
  "fingerprintOperation sha method path body =
     sha (to_upper method @ [CHR 0x0A] @ path @ [CHR 0x0A] @ stableStringify body)"

definition APPROVAL_TTL_MS :: int where
  "APPROVAL_TTL_MS = 24 * 3600000"

subsection \<open>MemoryApprovalStore\<close>

record approval_state =
  as_approvals :: "(string, approval) jsmap"
  as_counter :: nat

definition approval_create :: "instant \<Rightarrow> approval_input \<Rightarrow> approval_state \<Rightarrow> approval \<times> approval_state" where
  "approval_create now input s =
     (let counter = as_counter s + 1;
          rec = approval_input.extend input
            (approval.fields (counter_id ''apr_'' now counter) Pending None now) in
      (rec, s\<lparr>as_approvals := js_set (ap_id rec) rec (as_approvals s), as_counter := counter\<rparr>))"

definition approval_get :: "approval_state \<Rightarrow> string \<Rightarrow> approval option" where
  "approval_get s i = js_get (as_approvals s) i"

definition approval_listByOrganization ::
    "string \<Rightarrow> approval_status option \<Rightarrow> approval_state \<Rightarrow> approval list" where
  "approval_listByOrganization organizationId status s =
     newest_first ap_createdAt
       (filter (\<lambda>r. ap_organizationId r = organizationId \<and> (status = None \<or> status = Some (ap_status r)))
         (js_values (as_approvals s)))"

definition approval_listByToken ::
    "string \<Rightarrow> approval_status option \<Rightarrow> approval_state \<Rightarrow> approval list" where
  "approval_listByToken tokenId status s =
     newest_first ap_createdAt
       (filter (\<lambda>r. ap_tokenId r = tokenId \<and> (status = None \<or> status = Some (ap_status r)))
         (js_values (as_approvals s)))"

definition approval_decide ::
    "instant \<Rightarrow> string \<Rightarrow> approval_status \<Rightarrow> approval_state \<Rightarrow> approval option \<times> approval_state" where
  "approval_decide now i status s =
     (case js_get (as_approvals s) i of None \<Rightarrow> (None, s)
      | Some r \<Rightarrow> if ap_status r \<noteq> Pending then (None, s)
          else (let r' = r\<lparr>ap_status := status, ap_decidedAt := Some now\<rparr> in
            (Some r', s\<lparr>as_approvals := js_set i r' (as_approvals s)\<rparr>)))"

definition approval_markConsumed :: "string \<Rightarrow> approval_state \<Rightarrow> approval option \<times> approval_state" where
  "approval_markConsumed i s =
     (case js_get (as_approvals s) i of None \<Rightarrow> (None, s)
      | Some r \<Rightarrow> if ap_status r \<noteq> Approved then (None, s)
          else (let r' = r\<lparr>ap_status := Consumed\<rparr> in
            (Some r', s\<lparr>as_approvals := js_set i r' (as_approvals s)\<rparr>)))"

definition approval_markExpired :: "string \<Rightarrow> approval_state \<Rightarrow> approval option \<times> approval_state" where
  "approval_markExpired i s =
     (case js_get (as_approvals s) i of None \<Rightarrow> (None, s)
      | Some r \<Rightarrow> if ap_status r \<noteq> Pending then (None, s)
          else (let r' = r\<lparr>ap_status := Expired\<rparr> in
            (Some r', s\<lparr>as_approvals := js_set i r' (as_approvals s)\<rparr>)))"

lemmas approval_store_defs = approval_create_def approval_get_def approval_decide_def
  approval_markConsumed_def approval_markExpired_def

section \<open>What the service relies on\<close>

text \<open>The effect each operation may have on one stored request.\<close>

definition decided :: "instant \<Rightarrow> approval_status \<Rightarrow> approval \<Rightarrow> approval" where
  "decided now st a = (if ap_status a = Pending then a\<lparr>ap_status := st, ap_decidedAt := Some now\<rparr> else a)"

definition consumed :: "approval \<Rightarrow> approval" where
  "consumed a = (if ap_status a = Approved then a\<lparr>ap_status := Consumed\<rparr> else a)"

definition expired :: "approval \<Rightarrow> approval" where
  "expired a = (if ap_status a = Pending then a\<lparr>ap_status := Expired\<rparr> else a)"

text \<open>The order in which a request's status can change.\<close>

definition advances :: "approval_status \<Rightarrow> approval_status \<Rightarrow> bool" where
  "advances a b \<longleftrightarrow> a = b \<or> a = Pending \<or> (a = Approved \<and> b = Consumed)"

lemma advances_refl [simp]: "advances a a"
  by (simp add: advances_def)

lemma advances_trans: "advances a b \<Longrightarrow> advances b c \<Longrightarrow> advances a c"
  by (auto simp: advances_def)

lemma advances_steps [simp]:
  "advances (ap_status a) (ap_status (decided now st a))"
  "advances (ap_status a) (ap_status (consumed a))"
  "advances (ap_status a) (ap_status (expired a))"
  by (auto simp: advances_def decided_def consumed_def expired_def)

text \<open>The request itself: everything but its status and the decision time.\<close>

definition request_of :: "approval \<Rightarrow> approval_input \<times> string \<times> instant" where
  "request_of a = (approval_input.truncate a, ap_id a, ap_createdAt a)"

lemma request_of_steps [simp]:
  "request_of (decided now st a) = request_of a"
  "request_of (consumed a) = request_of a"
  "request_of (expired a) = request_of a"
  by (auto simp: request_of_def decided_def consumed_def expired_def approval_input.defs)

lemma request_of_fields:
  assumes "request_of a = request_of b"
  shows "ap_organizationId a = ap_organizationId b" "ap_tokenId a = ap_tokenId b"
    "ap_bodyHash a = ap_bodyHash b" "ap_expiresAt a = ap_expiresAt b"
  using assms by (auto simp: request_of_def approval_input.defs)

locale approval_contract =
  fixes get :: "'s \<Rightarrow> string \<Rightarrow> approval option"
    and create :: "instant \<Rightarrow> approval_input \<Rightarrow> 's \<Rightarrow> approval \<times> 's"
    and decide :: "instant \<Rightarrow> string \<Rightarrow> approval_status \<Rightarrow> 's \<Rightarrow> approval option \<times> 's"
    and consume :: "string \<Rightarrow> 's \<Rightarrow> approval option \<times> 's"
    and expire :: "string \<Rightarrow> 's \<Rightarrow> approval option \<times> 's"
    and ok :: "'s \<Rightarrow> bool"
  assumes create_fresh: "ok s \<Longrightarrow> get s (ap_id (fst (create now inp s))) = None"
    and create_status: "ap_status (fst (create now inp s)) = Pending"
    and get_create: "get (snd (create now inp s)) j =
      (if j = ap_id (fst (create now inp s)) then Some (fst (create now inp s)) else get s j)"
    and get_decide: "get (snd (decide now i st s)) j =
      (if j = i then map_option (decided now st) (get s i) else get s j)"
    and get_consume: "get (snd (consume i s)) j = (if j = i then map_option consumed (get s i) else get s j)"
    and get_expire: "get (snd (expire i s)) j = (if j = i then map_option expired (get s i) else get s j)"
    and consume_result: "fst (consume i s) =
      (case get s i of Some a \<Rightarrow> if ap_status a = Approved then Some (consumed a) else None | None \<Rightarrow> None)"
    and ok_create: "ok s \<Longrightarrow> ok (snd (create now inp s))"
    and ok_decide: "ok s \<Longrightarrow> ok (snd (decide now i st s))"
    and ok_consume: "ok s \<Longrightarrow> ok (snd (consume i s))"
    and ok_expire: "ok s \<Longrightarrow> ok (snd (expire i s))"
begin

text \<open>Any use of the store through its interface.\<close>

inductive uses :: "'s \<Rightarrow> 's \<Rightarrow> bool" where
  none: "uses s s"
| create: "uses s t \<Longrightarrow> uses s (snd (create now inp t))"
| decide: "uses s t \<Longrightarrow> uses s (snd (decide now i st t))"
| consume: "uses s t \<Longrightarrow> uses s (snd (consume i t))"
| expire: "uses s t \<Longrightarrow> uses s (snd (expire i t))"

lemma uses_trans: "uses t u \<Longrightarrow> uses s t \<Longrightarrow> uses s u"
  by (induction rule: uses.induct) (auto intro: uses.intros)

lemma ok_uses: "uses s t \<Longrightarrow> ok s \<Longrightarrow> ok t"
  by (induction rule: uses.induct) (auto intro: ok_create ok_decide ok_consume ok_expire)

text \<open>A stored request keeps its identity, its operation and its expiry; its status only advances.\<close>

lemma request_advances:
  assumes "uses s t" and "ok s" and "get s i = Some a"
  shows "\<exists>b. get t i = Some b \<and> request_of b = request_of a \<and> advances (ap_status a) (ap_status b)"
  using assms
proof (induction rule: uses.induct)
  case (create s t now inp)
  then obtain b where b: "get t i = Some b" "request_of b = request_of a" "advances (ap_status a) (ap_status b)"
    by blast
  moreover have "ok t" using create.hyps create.prems ok_uses by blast
  ultimately have "i \<noteq> ap_id (fst (create now inp t))" using create_fresh by fastforce
  with b show ?case by (simp add: get_create)
next
  case (decide s t now j st)
  then show ?case by (fastforce simp: get_decide intro: advances_trans)
next
  case (consume s t j)
  then show ?case by (fastforce simp: get_consume intro: advances_trans)
next
  case (expire s t j)
  then show ?case by (fastforce simp: get_expire intro: advances_trans)
qed auto

text \<open>A consumed request can never be consumed again.\<close>

lemma consume_once:
  assumes "ok s" and "fst (consume i s) = Some a" and "uses (snd (consume i s)) t"
  shows "fst (consume i t) = None"
proof -
  have "\<exists>b. get (snd (consume i s)) i = Some b \<and> ap_status b = Consumed"
    using assms(2) by (auto simp: get_consume consume_result consumed_def split: option.splits if_splits)
  then obtain b where b: "get (snd (consume i s)) i = Some b" "ap_status b = Consumed" by blast
  obtain c where "get t i = Some c" "ap_status c = Consumed"
    using request_advances [OF assms(3) ok_consume [OF assms(1)] b(1)] b(2) by (auto simp: advances_def)
  then show ?thesis by (simp add: consume_result)
qed

end

subsection \<open>The memory store keeps the contract\<close>

text \<open>Identifiers end in the counter that made them, so a new one is fresh.\<close>

definition approval_ok :: "approval_state \<Rightarrow> bool" where
  "approval_ok s \<longleftrightarrow> js_ok (as_approvals s) \<and> (\<forall>i a. js_get (as_approvals s) i = Some a \<longrightarrow>
     ap_id a = i \<and> (\<exists>now n. i = counter_id ''apr_'' now n \<and> n \<le> as_counter s))"

lemma numeral_in_chars: "2 \<le> b \<Longrightarrow> b \<le> 36 \<Longrightarrow> c \<in> set (numeral_in b n) \<Longrightarrow> c \<noteq> CHR ''_''"
proof (induction n rule: less_induct)
  case (less n)
  have d: "digit_char d \<noteq> CHR ''_''" if "d < 36" for d
  proof
    assume "digit_char d = CHR ''_''"
    then have "code (digit_char d) = 95" by (simp add: code_def)
    with that show False by (simp add: digit_char_def code_char_of split: if_splits)
  qed
  show ?case
  proof (cases "n < b")
    case True
    with less.prems show ?thesis using d [of n] by (subst (asm) numeral_in.simps) auto
  next
    case False
    with less.prems have "c \<in> set (numeral_in b (n div b)) \<or> c = digit_char (n mod b)"
      by (subst (asm) numeral_in.simps) auto
    moreover have "n div b < n" using False less.prems by (intro div_less_dividend) auto
    moreover have "n mod b < 36" using less.prems(2) mod_less_divisor [of b n] less.prems(1) by linarith
    ultimately show ?thesis using less.IH [of "n div b"] less.prems d [of "n mod b"] by auto
  qed
qed

lemma base36_chars: "CHR ''_'' \<notin> set (base36 i)"
  using numeral_in_chars [of 36] by (auto simp: base36_def)

lemma split_on_append_cases: "split_on c (w @ s) = butlast (split_on c w) @ [last (split_on c w) @ hd (split_on c s)] @ tl (split_on c s)"
proof (induction w)
  case Nil
  then show ?case by (cases "split_on c s") auto
next
  case (Cons x w)
  obtain v vs where "split_on c w = v # vs" by (cases "split_on c w") auto
  with Cons show ?case by (cases vs) auto
qed

lemma last_split_counter_id: "last (split_on (CHR ''_'') (counter_id p now n)) = dec n"
proof -
  have "CHR ''_'' \<notin> set (dec n)" using numeral_in_chars [of 10 _ n] by (auto simp: dec_def)
  then have "split_on (CHR ''_'') (''_'' @ dec n) = [[], dec n]" by (simp add: split_on_no_sep)
  then show ?thesis
    using split_on_append_cases [of "CHR ''_''" "p @ base36 now" "''_'' @ dec n"]
    by (simp add: counter_id_def)
qed

lemma counter_id_inj: "counter_id p now n = counter_id q now' m \<Longrightarrow> n = m"
  by (metis dec_inj last_split_counter_id)

lemma approval_fresh:
  assumes "approval_ok s"
  shows "js_get (as_approvals s) (counter_id ''apr_'' now (as_counter s + 1)) = None"
proof (rule ccontr)
  assume "js_get (as_approvals s) (counter_id ''apr_'' now (as_counter s + 1)) \<noteq> None"
  then obtain now' n where "counter_id ''apr_'' now (as_counter s + 1) = counter_id ''apr_'' now' n" "n \<le> as_counter s"
    using assms by (fastforce simp: approval_ok_def)
  then show False using counter_id_inj by fastforce
qed

lemma ap_id_create: "ap_id (fst (approval_create now inp s)) = counter_id ''apr_'' now (as_counter s + 1)"
  by (simp add: approval_create_def approval_input.defs approval.defs Let_def)

lemma approval_ok_create: "approval_ok s \<Longrightarrow> approval_ok (snd (approval_create now inp s))"
  unfolding approval_ok_def
proof (intro conjI allI impI)
  assume "js_ok (as_approvals s) \<and> (\<forall>i a. js_get (as_approvals s) i = Some a \<longrightarrow>
      ap_id a = i \<and> (\<exists>now n. i = counter_id ''apr_'' now n \<and> n \<le> as_counter s))"
  then show "js_ok (as_approvals (snd (approval_create now inp s)))"
    by (simp add: approval_create_def js_ok_set Let_def)
next
  fix i a
  assume ok: "js_ok (as_approvals s) \<and> (\<forall>i a. js_get (as_approvals s) i = Some a \<longrightarrow>
      ap_id a = i \<and> (\<exists>now n. i = counter_id ''apr_'' now n \<and> n \<le> as_counter s))"
    and get: "js_get (as_approvals (snd (approval_create now inp s))) i = Some a"
  define k where "k = counter_id ''apr_'' now (Suc (as_counter s))"
  have c: "as_counter (snd (approval_create now inp s)) = Suc (as_counter s)"
    by (simp add: approval_create_def Let_def)
  have "ap_id a = i \<and> (\<exists>now' n. i = counter_id ''apr_'' now' n \<and> n \<le> as_counter (snd (approval_create now inp s)))"
  proof (cases "i = k")
    case True
    with get have "ap_id a = k"
      by (auto simp: approval_create_def approval_input.defs approval.defs Let_def k_def)
    with True show ?thesis unfolding c k_def by blast
  next
    case False
    with get have "js_get (as_approvals s) i = Some a"
      by (simp add: approval_create_def approval_input.defs approval.defs Let_def k_def split: if_splits)
    with ok show ?thesis unfolding c by (meson le_SucI)
  qed
  then show "ap_id a = i" and "\<exists>now' n. i = counter_id ''apr_'' now' n \<and> n \<le> as_counter (snd (approval_create now inp s))"
    by blast+
qed

interpretation approvals: approval_contract approval_get approval_create approval_decide
  approval_markConsumed approval_markExpired approval_ok
proof unfold_locales
  fix s now inp i j st
  show "approval_ok s \<Longrightarrow> approval_get s (ap_id (fst (approval_create now inp s))) = None"
    using approval_fresh [of s now] by (simp add: ap_id_create approval_get_def)
  show "ap_status (fst (approval_create now inp s)) = Pending"
    by (simp add: approval_create_def approval_input.defs approval.defs Let_def)
  show "approval_get (snd (approval_create now inp s)) j =
      (if j = ap_id (fst (approval_create now inp s)) then Some (fst (approval_create now inp s))
       else approval_get s j)"
    by (simp add: approval_create_def approval_get_def Let_def)
  show "approval_get (snd (approval_decide now i st s)) j =
      (if j = i then map_option (decided now st) (approval_get s i) else approval_get s j)"
    by (auto simp: approval_store_defs decided_def Let_def split: option.splits)
  show "approval_get (snd (approval_markConsumed i s)) j =
      (if j = i then map_option consumed (approval_get s i) else approval_get s j)"
    by (auto simp: approval_store_defs consumed_def Let_def split: option.splits)
  show "approval_get (snd (approval_markExpired i s)) j =
      (if j = i then map_option expired (approval_get s i) else approval_get s j)"
    by (auto simp: approval_store_defs expired_def Let_def split: option.splits)
  show "fst (approval_markConsumed i s) = (case approval_get s i of
      Some a \<Rightarrow> if ap_status a = Approved then Some (consumed a) else None | None \<Rightarrow> None)"
    by (auto simp: approval_store_defs consumed_def Let_def split: option.splits)
  show "approval_ok s \<Longrightarrow> approval_ok (snd (approval_create now inp s))"
    by (rule approval_ok_create)
  show "approval_ok s \<Longrightarrow> approval_ok (snd (approval_decide now i st s))"
    by (auto simp: approval_ok_def approval_decide_def js_ok_set Let_def split: option.splits)
  show "approval_ok s \<Longrightarrow> approval_ok (snd (approval_markConsumed i s))"
    by (auto simp: approval_ok_def approval_markConsumed_def js_ok_set Let_def split: option.splits)
  show "approval_ok s \<Longrightarrow> approval_ok (snd (approval_markExpired i s))"
    by (auto simp: approval_ok_def approval_markExpired_def js_ok_set Let_def split: option.splits)
qed

section \<open>The activity audit (activity.ts)\<close>

datatype activity_result = Success | Denied | Blocked | Errored

record activity_input =
  ac_tokenId :: "string option"
  ac_userId :: string
  ac_organizationId :: "string option"
  ac_projectId :: "string option"
  ac_action :: string
  ac_resource :: string
  ac_result :: activity_result
  ac_reason :: string
  ac_ip :: "string option"

record activity = activity_input +
  ac_id :: string
  ac_createdAt :: instant

record activity_state =
  av_entries :: "activity list"
  av_counter :: nat

definition activity_record :: "instant \<Rightarrow> activity_input \<Rightarrow> activity_state \<Rightarrow> activity_state" where
  "activity_record now input s =
     (let counter = av_counter s + 1;
          entry = activity_input.extend
            (input\<lparr>ac_resource := take 300 (ac_resource input), ac_reason := take 300 (ac_reason input)\<rparr>)
            (activity.fields (counter_id ''act_'' now counter) now) in
      s\<lparr>av_entries := av_entries s @ [entry], av_counter := counter\<rparr>)"

definition activity_list ::
    "string option \<Rightarrow> string option \<Rightarrow> int option \<Rightarrow> activity_state \<Rightarrow> activity list" where
  "activity_list tokenId organizationId limit s =
     (let lim = min (max (case limit of Some l \<Rightarrow> l | None \<Rightarrow> 100) 1) 500 in
      take (nat lim)
        (newest_first ac_createdAt
          (filter (\<lambda>e. (tokenId \<in> {None, Some []} \<or> ac_tokenId e = tokenId) \<and>
              (organizationId \<in> {None, Some []} \<or> ac_organizationId e = organizationId))
            (av_entries s))))"

definition activity_prune :: "instant \<Rightarrow> activity_state \<Rightarrow> nat \<times> activity_state" where
  "activity_prune olderThan s =
     (let kept = filter (\<lambda>e. olderThan \<le> ac_createdAt e) (av_entries s) in
      (length (av_entries s) - length kept, s\<lparr>av_entries := kept\<rparr>))"

lemma activity_prune_count:
  "activity_prune older s = (n, s') \<Longrightarrow> n + length (av_entries s') = length (av_entries s)"
  by (auto simp: activity_prune_def Let_def)

lemma activity_record_grows [simp]:
  "length (av_entries (activity_record now inp s)) = Suc (length (av_entries s))"
  by (simp add: activity_record_def Let_def)

end
