(* ===== verification/AgentService.thy ===== *)
theory AgentService
  imports AgentApprovals
begin

text \<open>
  The agent service (\<open>packages/agents/src/service.ts\<close>) over the memory stores, and the gates of
  \<open>apps/api/src/agents.ts\<close> that put it in front of a request.  The state is the four things the service
  mutates: the token store, the module's token counter, the approval store and the activity log.  Every
  operation reads the clock once (\<open>now\<close>); a memory store never rejects, so each \<open>.catch\<close> is unused.
\<close>

section \<open>State and results\<close>

record agent_state =
  ag_tokens :: token_map
  ag_counter :: nat
  ag_approvals :: approval_state
  ag_activity :: activity_state

text \<open>An error whose message a caller logs carries it.\<close>

type_synonym 'a reported = "(error \<times> string) + 'a"

definition agent_log :: "instant \<Rightarrow> activity_input \<Rightarrow> agent_state \<Rightarrow> agent_state" where
  "agent_log now entry s = s\<lparr>ag_activity := activity_record now entry (ag_activity s)\<rparr>"

definition entry :: "string option \<Rightarrow> string \<Rightarrow> string option \<Rightarrow> string option \<Rightarrow> string \<Rightarrow> string \<Rightarrow>
    activity_result \<Rightarrow> string \<Rightarrow> string option \<Rightarrow> activity_input" where
  "entry tokenId userId organizationId projectId action resource result reason ip =
     \<lparr>ac_tokenId = tokenId, ac_userId = userId, ac_organizationId = organizationId,
      ac_projectId = projectId, ac_action = action, ac_resource = resource, ac_result = result,
      ac_reason = reason, ac_ip = ip\<rparr>"

lemma agent_log_simps [simp]:
  "ag_tokens (agent_log now e s) = ag_tokens s"
  "ag_counter (agent_log now e s) = ag_counter s"
  "ag_approvals (agent_log now e s) = ag_approvals s"
  by (simp_all add: agent_log_def)

section \<open>Issuance\<close>

abbreviation token_not_found :: error where
  "token_not_found \<equiv> ApiError NOT_FOUND 404"

definition createToken :: "(string \<Rightarrow> string) \<Rightarrow> string \<Rightarrow> instant \<Rightarrow> create_token_input \<Rightarrow> agent_state \<Rightarrow>
    (exposed_token \<times> string) outcome \<times> agent_state" where
  "createToken sha rnd now input s =
     (case buildTokenRecord input now (ag_counter s) of
        Inl e \<Rightarrow> (Inl e, s)
      | Inr (rec, c) \<Rightarrow>
          (let value = createAgentTokenValue sha rnd;
               (saved, tokens) = token_save (rec\<lparr>at_prefix := tv_prefix value, at_hash := tv_hash value\<rparr>) (ag_tokens s);
               s1 = s\<lparr>ag_tokens := tokens, ag_counter := c\<rparr> in
           (Inr (exposeToken saved, tv_raw value),
            agent_log now (entry (Some (at_id saved)) (at_userId saved) (at_organizationId saved)
              (case at_projectIds saved of p # _ \<Rightarrow> Some p | [] \<Rightarrow> None) ''token.created'' (at_name saved)
              Success (dec (length (at_scopes saved)) @ '' scopes'') None) s1)))"

definition revokeToken :: "instant \<Rightarrow> string \<Rightarrow> string \<Rightarrow> agent_state \<Rightarrow>
    exposed_token outcome \<times> agent_state" where
  "revokeToken now i userId s =
     (case token_get i (ag_tokens s) of
        None \<Rightarrow> (Inl token_not_found, s)
      | Some existing \<Rightarrow>
          if at_userId existing \<noteq> userId then (Inl token_not_found, s)
          else (case token_revoke now i (ag_tokens s) of
            (None, tokens) \<Rightarrow> (Inl token_not_found, s\<lparr>ag_tokens := tokens\<rparr>)
          | (Some revoked, tokens) \<Rightarrow>
              (Inr revoked,
               agent_log now (entry (Some i) userId (at_organizationId existing) None ''token.revoked''
                 (at_name existing) Success [] None) (s\<lparr>ag_tokens := tokens\<rparr>))))"

definition listTokens :: "string \<Rightarrow> agent_state \<Rightarrow> exposed_token list" where
  "listTokens userId s = token_listByUser userId (ag_tokens s)"

definition getToken :: "string \<Rightarrow> string \<Rightarrow> agent_state \<Rightarrow> exposed_token outcome" where
  "getToken userId i s =
     (case token_get i (ag_tokens s) of
        None \<Rightarrow> Inl token_not_found
      | Some token \<Rightarrow> if at_userId token \<noteq> userId then Inl token_not_found else Inr (exposeToken token))"

section \<open>Verification and rotation\<close>

definition verifyToken :: "(string \<Rightarrow> string) \<Rightarrow> instant \<Rightarrow> string \<Rightarrow> string option \<Rightarrow> agent_state \<Rightarrow>
    agent_token outcome \<times> agent_state" where
  "verifyToken sha now raw ip s =
     (if \<not> looksLikeAgentToken raw then (Inl (ApiError INVALID_TOKEN 401), s)
      else case token_findByHash (sha raw) (ag_tokens s) of
        None \<Rightarrow> (Inl (ApiError INVALID_TOKEN 401), s)
      | Some found \<Rightarrow>
          if at_revokedAt found \<noteq> None then (Inl (ApiError TOKEN_REVOKED 403), s)
          else if (case at_expiresAt found of Some e \<Rightarrow> e \<le> now | None \<Rightarrow> False)
            then (Inl (ApiError TOKEN_EXPIRED 401), s)
          else if \<not> ipAllowed (at_ipAllowlist found) ip then (Inl (ApiError IP_FORBIDDEN 403), s)
          else (Inr (found\<lparr>at_requestCount := at_requestCount found + 1, at_lastUsedAt := Some now\<rparr>),
                s\<lparr>ag_tokens := token_touch now (at_id found) (ag_tokens s)\<rparr>))"

definition rotateToken :: "(string \<Rightarrow> string) \<Rightarrow> string \<Rightarrow> instant \<Rightarrow> string \<Rightarrow> string \<Rightarrow> agent_state \<Rightarrow>
    (exposed_token \<times> string) outcome \<times> agent_state" where
  "rotateToken sha rnd now i userId s =
     (case token_get i (ag_tokens s) of
        None \<Rightarrow> (Inl token_not_found, s)
      | Some existing \<Rightarrow>
          if at_userId existing \<noteq> userId then (Inl token_not_found, s)
          else if at_revokedAt existing \<noteq> None then (Inl token_not_found, s)
          else
            (let value = createAgentTokenValue sha rnd;
                 (_, tokens1) = token_revoke now i (ag_tokens s);
                 (saved, tokens2) = token_save (existing\<lparr>at_prefix := tv_prefix value,
                   at_hash := tv_hash value, at_revokedAt := None\<rparr>) tokens1 in
             (Inr (exposeToken saved, tv_raw value),
              agent_log now (entry (Some i) userId (at_organizationId existing) None ''token.rotated''
                (at_name existing) Success [] None) (s\<lparr>ag_tokens := tokens2\<rparr>))))"

section \<open>Scope and resource checks\<close>

definition hasScope :: "agent_token \<Rightarrow> string \<Rightarrow> bool" where
  "hasScope token scope = (if \<not> isKnownScope scope then False else scope \<in> set (at_scopes token))"

definition requireScope :: "agent_token \<Rightarrow> string \<Rightarrow> string \<Rightarrow> unit reported" where
  "requireScope token scope resource =
     (if \<not> hasScope token scope
      then Inl (ApiError FORBIDDEN_SCOPE 403,
        ''Agent token lacks required scope: '' @ scope @
          (if resource \<noteq> [] then '' ('' @ resource @ '')'' else []))
      else Inr ())"

definition inScope :: "agent_token \<Rightarrow> string \<Rightarrow> string option \<Rightarrow> bool" where
  "inScope token organizationId projectId =
     (if (case at_organizationId token of Some org \<Rightarrow> org \<noteq> [] \<and> org \<noteq> organizationId | None \<Rightarrow> False) then False
      else if (case projectId of Some p \<Rightarrow> p \<noteq> [] \<and> length (at_projectIds token) > 0 \<and> p \<notin> set (at_projectIds token)
               | None \<Rightarrow> False) then False
      else True)"

definition requireInScope :: "agent_token \<Rightarrow> string \<Rightarrow> string option \<Rightarrow> unit reported" where
  "requireInScope token organizationId projectId =
     (if \<not> inScope token organizationId projectId
      then Inl (ApiError TENANT_FORBIDDEN 403, ''Agent token is not scoped to this resource'')
      else Inr ())"

record gate_result =
  gt_allowed :: bool
  gt_needsApproval :: bool

definition gate :: "agent_token \<Rightarrow> string \<Rightarrow> gate_result" where
  "gate token scope =
     (if hasScope token scope then \<lparr>gt_allowed = True, gt_needsApproval = False\<rparr>
      else if at_approvalRequired token then \<lparr>gt_allowed = False, gt_needsApproval = True\<rparr>
      else \<lparr>gt_allowed = False, gt_needsApproval = False\<rparr>)"

section \<open>Approvals\<close>

definition status_text :: "approval_status \<Rightarrow> string" where
  "status_text st = (case st of Pending \<Rightarrow> ''pending'' | Approved \<Rightarrow> ''approved'' | Rejected \<Rightarrow> ''rejected''
     | Expired \<Rightarrow> ''expired'' | Consumed \<Rightarrow> ''consumed'')"

definition requestApproval :: "(string \<Rightarrow> string) \<Rightarrow> instant \<Rightarrow> string \<Rightarrow> string option \<Rightarrow> agent_token \<Rightarrow>
    string \<Rightarrow> string \<Rightarrow> string \<Rightarrow> json \<Rightarrow> agent_state \<Rightarrow> approval \<times> agent_state" where
  "requestApproval sha now organizationId projectId token action method path body s =
     (let (rec, aps) = approval_create now
            \<lparr>ap_organizationId = organizationId, ap_projectId = projectId, ap_tokenId = at_id token,
             ap_userId = at_userId token, ap_action = action, ap_method = to_upper method, ap_path = path,
             ap_bodyHash = fingerprintOperation sha method path body,
             ap_expiresAt = now + APPROVAL_TTL_MS\<rparr> (ag_approvals s) in
      (rec, s\<lparr>ag_approvals := aps\<rparr>))"

text \<open>The decision is \<open>'approved'\<close> (\<open>True\<close>) or \<open>'rejected'\<close>.\<close>

definition decideApproval :: "instant \<Rightarrow> string \<Rightarrow> bool \<Rightarrow> agent_state \<Rightarrow> approval outcome \<times> agent_state" where
  "decideApproval now i approve s =
     (case approval_get (ag_approvals s) i of
        None \<Rightarrow> (Inl (ApiError NOT_FOUND 404), s)
      | Some current \<Rightarrow>
          if ap_status current \<noteq> Pending then (Inl (ApiError CONFLICT 409), s)
          else if ap_expiresAt current \<le> now
            then (Inl (ApiError GONE 410), s\<lparr>ag_approvals := snd (approval_markExpired i (ag_approvals s))\<rparr>)
          else (case approval_decide now i (if approve then Approved else Rejected) (ag_approvals s) of
            (None, aps) \<Rightarrow> (Inl (ApiError CONFLICT 409), s\<lparr>ag_approvals := aps\<rparr>)
          | (Some nxt, aps) \<Rightarrow>
              (Inr nxt,
               agent_log now (entry (Some (ap_tokenId nxt)) (ap_userId nxt) (Some (ap_organizationId nxt)) (ap_projectId nxt)
                 (if approve then ''approval.approved'' else ''approval.rejected'')
                 (ap_action nxt @ '' '' @ ap_path nxt) Success [] None) (s\<lparr>ag_approvals := aps\<rparr>))))"

definition consumeApproval :: "(string \<Rightarrow> string) \<Rightarrow> instant \<Rightarrow> string \<Rightarrow> agent_token \<Rightarrow> string \<Rightarrow> string \<Rightarrow>
    json \<Rightarrow> agent_state \<Rightarrow> approval reported \<times> agent_state" where
  "consumeApproval sha now approvalId token method path body s =
     (let foreign = (Inl (ApiError FORBIDDEN_SCOPE 403, ''Approval does not apply to this token''), s) in
      case approval_get (ag_approvals s) approvalId of
        None \<Rightarrow> foreign
      | Some current \<Rightarrow>
          if ap_tokenId current \<noteq> at_id token then foreign
          else if ap_status current \<noteq> Approved
            then (Inl (ApiError CONFLICT 409, ''Approval is '' @ status_text (ap_status current)), s)
          else if ap_expiresAt current \<le> now
            then (Inl (ApiError GONE 410, ''Approval request expired''),
                  s\<lparr>ag_approvals := snd (approval_markExpired (ap_id current) (ag_approvals s))\<rparr>)
          else if fingerprintOperation sha method path body \<noteq> ap_bodyHash current
            then (Inl (ApiError FORBIDDEN_SCOPE 403, ''Approval does not match this operation''), s)
          else (case approval_markConsumed (ap_id current) (ag_approvals s) of
            (None, aps) \<Rightarrow> (Inl (ApiError CONFLICT 409, ''Approval was already used''), s\<lparr>ag_approvals := aps\<rparr>)
          | (Some used, aps) \<Rightarrow> (Inr used, s\<lparr>ag_approvals := aps\<rparr>)))"

section \<open>Activity and maintenance\<close>

definition listActivity :: "string option \<Rightarrow> string option \<Rightarrow> int option \<Rightarrow> agent_state \<Rightarrow> activity list" where
  "listActivity tokenId organizationId limit s = activity_list tokenId organizationId limit (ag_activity s)"

definition expire_stale :: "instant \<Rightarrow> string \<Rightarrow> nat \<times> approval_state \<Rightarrow> nat \<times> approval_state" where
  "expire_stale now organizationId acc =
     fold (\<lambda>item (expired, aps).
         if ap_expiresAt item \<le> now then (expired + 1, snd (approval_markExpired (ap_id item) aps))
         else (expired, aps))
       (approval_listByOrganization organizationId (Some Pending) (snd acc)) acc"

definition runMaintenance :: "instant \<Rightarrow> string list \<Rightarrow> int option \<Rightarrow> agent_state \<Rightarrow> (nat \<times> nat) \<times> agent_state" where
  "runMaintenance now organizationIds activityRetentionDays s =
     (let (expired, aps) = fold (expire_stale now) (take 10000 organizationIds) (0, ag_approvals s);
          retentionDays = (case activityRetentionDays of Some d \<Rightarrow> d | None \<Rightarrow> 180);
          (pruned, act) = activity_prune (now - retentionDays * 86400000) (ag_activity s) in
      ((expired, pruned), s\<lparr>ag_approvals := aps, ag_activity := act\<rparr>))"

end
