(* ===== verification/AgentGate.thy ===== *)
theory AgentGate
  imports AgentService
begin

text \<open>
  The gates of \<open>apps/api/src/agents.ts\<close> in front of an agent's request: the audit entry, the scope gate
  and the destructive gate with its one-time approvals.  The client's address (\<open>clientIp\<close>) is an argument.
\<close>

section \<open>The gates\<close>

definition auditAgent :: "instant \<Rightarrow> string \<Rightarrow> agent_token option \<Rightarrow> string \<Rightarrow> string option \<Rightarrow> string option \<Rightarrow>
    string \<Rightarrow> string \<Rightarrow> activity_result \<Rightarrow> string \<Rightarrow> agent_state \<Rightarrow> agent_state" where
  "auditAgent now ip token userId organizationId projectId action resource result reason s =
     agent_log now (entry (map_option at_id token) userId organizationId projectId action resource result
       reason (Some ip)) s"

definition code_text :: "error_code \<Rightarrow> string" where
  "code_text c = (case c of
       VALIDATION_ERROR \<Rightarrow> ''VALIDATION_ERROR'' | NOT_FOUND \<Rightarrow> ''NOT_FOUND'' | CONFLICT \<Rightarrow> ''CONFLICT''
     | GONE \<Rightarrow> ''GONE'' | INVALID_TOKEN \<Rightarrow> ''INVALID_TOKEN'' | TOKEN_REVOKED \<Rightarrow> ''TOKEN_REVOKED''
     | TOKEN_EXPIRED \<Rightarrow> ''TOKEN_EXPIRED'' | IP_FORBIDDEN \<Rightarrow> ''IP_FORBIDDEN''
     | FORBIDDEN_SCOPE \<Rightarrow> ''FORBIDDEN_SCOPE'' | FORBIDDEN \<Rightarrow> ''FORBIDDEN''
     | TENANT_FORBIDDEN \<Rightarrow> ''TENANT_FORBIDDEN'' | PAYLOAD_TOO_LARGE \<Rightarrow> ''PAYLOAD_TOO_LARGE''
     | DOWNGRADE_BLOCKED \<Rightarrow> ''DOWNGRADE_BLOCKED'')"

definition error_text :: "error \<Rightarrow> string" where
  "error_text e = (case e of ApiError c _ \<Rightarrow> code_text c | PlainError \<Rightarrow> ''FORBIDDEN'')"

definition requireAgentScope :: "instant \<Rightarrow> string \<Rightarrow> agent_token \<Rightarrow> string \<Rightarrow> string option \<Rightarrow> string option \<Rightarrow>
    string \<Rightarrow> string option \<Rightarrow> agent_state \<Rightarrow> agent_token outcome \<times> agent_state" where
  "requireAgentScope now ip token scope organizationId projectId action resource s =
     (let res = (case resource of Some r \<Rightarrow> r | None \<Rightarrow> []);
          check = (case requireScope token scope res of
              Inl e \<Rightarrow> Inl e
            | Inr _ \<Rightarrow> (case organizationId of Some org \<Rightarrow> requireInScope token org projectId | None \<Rightarrow> Inr ())) in
      case check of
        Inr _ \<Rightarrow> (Inr token, s)
      | Inl (e, reason) \<Rightarrow>
          (Inl e, agent_log now (entry (Some (at_id token)) (at_userId token)
             (case organizationId of Some org \<Rightarrow> Some org | None \<Rightarrow> at_organizationId token)
             projectId action res Denied (take 300 (error_text e @ '': '' @ reason)) (Some ip)) s))"

text \<open>A header is absent, one value, or an array of values.\<close>

datatype header_value = Absent | Single string | Many "string list"

definition approvalIdFrom :: "header_value \<Rightarrow> string option" where
  "approvalIdFrom raw =
     (case (case raw of Absent \<Rightarrow> None | Single v \<Rightarrow> Some v | Many vs \<Rightarrow> (case vs of v # _ \<Rightarrow> Some v | [] \<Rightarrow> None)) of
        None \<Rightarrow> None
      | Some value \<Rightarrow> if value = [] \<or> length value > 200 then None else Some value)"

record destructive_request =
  dr_agent :: agent_token
  dr_scope :: string
  dr_action :: string
  dr_organizationId :: string
  dr_projectId :: "string option"
  dr_method :: string
  dr_path :: string
  dr_body :: json
  dr_resource :: "string option"
  dr_alwaysApprove :: bool

datatype gate_decision = Proceed | Held approval

definition gateDestructive :: "(string \<Rightarrow> string) \<Rightarrow> instant \<Rightarrow> string \<Rightarrow> header_value \<Rightarrow> destructive_request \<Rightarrow>
    agent_state \<Rightarrow> gate_decision outcome \<times> agent_state" where
  "gateDestructive sha now ip header opts s =
     (let agent = dr_agent opts;
          res = (case dr_resource opts of Some r \<Rightarrow> r | None \<Rightarrow> dr_path opts);
          audit = (\<lambda>resource result reason. auditAgent now ip (Some agent) (at_userId agent)
            (Some (dr_organizationId opts)) (dr_projectId opts) (dr_action opts) resource result reason);
          g = (if dr_alwaysApprove opts then \<lparr>gt_allowed = False, gt_needsApproval = True\<rparr>
               else gate agent (dr_scope opts)) in
      if gt_allowed g then (Inr Proceed, s)
      else if \<not> gt_needsApproval g then
        (Inl (ApiError FORBIDDEN 403), audit res Denied (''FORBIDDEN_SCOPE: token lacks '' @ dr_scope opts) s)
      else case approvalIdFrom header of
        Some presented \<Rightarrow>
          (case consumeApproval sha now presented agent (dr_method opts) (dr_path opts) (dr_body opts) s of
             (Inr _, s1) \<Rightarrow> (Inr Proceed, audit (res @ '' (approved '' @ take 24 presented @ '')'') Success [] s1)
           | (Inl (e, msg), s1) \<Rightarrow> (Inl e, audit [] Blocked (take 300 msg) s1))
      | None \<Rightarrow>
          (let (approval, s1) = requestApproval sha now (dr_organizationId opts) (dr_projectId opts) agent
                 (dr_action opts) (dr_method opts) (dr_path opts) (dr_body opts) s in
           (Inr (Held approval),
            audit (res @ '' (approval '' @ take 24 (ap_id approval) @ '')'') Blocked ''approval required'' s1)))"

lemma auditAgent_simps [simp]:
  "ag_tokens (auditAgent now ip t u og p a r res reason s) = ag_tokens s"
  "ag_counter (auditAgent now ip t u og p a r res reason s) = ag_counter s"
  "ag_approvals (auditAgent now ip t u og p a r res reason s) = ag_approvals s"
  by (simp_all add: auditAgent_def)

section \<open>Every operation as a step\<close>

text \<open>
  One step of the service: any operation that changes state, with any arguments, at any time.  Reading
  operations (\<open>getToken\<close>, \<open>hasScope\<close>, the lists) leave the state alone and need no step.
\<close>

inductive agent_step :: "(string \<Rightarrow> string) \<Rightarrow> agent_state \<Rightarrow> agent_state \<Rightarrow> bool" for sha where
  create: "agent_step sha s (snd (createToken sha rnd now input s))"
| revoke: "agent_step sha s (snd (revokeToken now i userId s))"
| verify: "agent_step sha s (snd (verifyToken sha now raw ip s))"
| rotate: "agent_step sha s (snd (rotateToken sha rnd now i userId s))"
| request: "agent_step sha s (snd (requestApproval sha now org proj token action method path body s))"
| decide: "agent_step sha s (snd (decideApproval now i approve s))"
| consume: "agent_step sha s (snd (consumeApproval sha now i token method path body s))"
| log: "agent_step sha s (agent_log now e s)"
| maintain: "agent_step sha s (snd (runMaintenance now orgs days s))"
| scope_gate: "agent_step sha s (snd (requireAgentScope now ip token scope org proj action res s))"
| destructive_gate: "agent_step sha s (snd (gateDestructive sha now ip header opts s))"

inductive agent_steps :: "(string \<Rightarrow> string) \<Rightarrow> agent_state \<Rightarrow> agent_state \<Rightarrow> bool" for sha where
  refl: "agent_steps sha s s"
| step: "agent_steps sha s t \<Longrightarrow> agent_step sha t u \<Longrightarrow> agent_steps sha s u"

inductive_cases agent_stepE: "agent_step sha s t"

subsection \<open>How the operations use the approval store\<close>

lemma uses_approval:
  "approval_create now inp a = (r, b) \<Longrightarrow> approvals.uses a b"
  "approval_decide now i st a = (q, b) \<Longrightarrow> approvals.uses a b"
  "approval_markConsumed i a = (q, b) \<Longrightarrow> approvals.uses a b"
  "approval_markExpired i a = (q, b) \<Longrightarrow> approvals.uses a b"
  by (metis approvals.uses.intros snd_conv)+

lemma uses_expire: "approvals.uses a (snd (approval_markExpired i a))"
  by (auto intro: approvals.uses.intros)

lemma uses_maintenance_item:
  "approvals.uses a (snd (expire_stale now org (n, a)))"
proof -
  have f: "approvals.uses a (snd (fold (\<lambda>item (expired, aps).
         if ap_expiresAt item \<le> now then (expired + 1, snd (approval_markExpired (ap_id item) aps))
         else (expired, aps)) items (m, b)))" if "approvals.uses a b" for items m b
    using that by (induction items arbitrary: m b) (auto intro: approvals.uses.expire)
  show ?thesis unfolding expire_stale_def by (rule f) (rule approvals.uses.none)
qed

lemma uses_maintenance: "approvals.uses (ag_approvals s) (ag_approvals (snd (runMaintenance now orgs days s)))"
proof -
  have f: "approvals.uses a (snd (fold (expire_stale now) os (m, b)))" if "approvals.uses a b" for a os m b
    using that
  proof (induction os arbitrary: m b)
    case (Cons x os)
    obtain m' b' where e: "expire_stale now x (m, b) = (m', b')" by (cases "expire_stale now x (m, b)")
    then have "approvals.uses a b'"
      using uses_maintenance_item [of b now x m] Cons.prems by (auto intro: approvals.uses_trans)
    with Cons.IH e show ?case by simp
  qed simp
  from f [OF approvals.uses.none] show ?thesis
    by (simp add: runMaintenance_def Let_def case_prod_beta)
qed

lemma uses_request:
  "requestApproval sha now og p t a m pa b s = (r, s') \<Longrightarrow> approvals.uses (ag_approvals s) (ag_approvals s')"
  by (auto simp: requestApproval_def Let_def uses_approval split: prod.splits)

lemma uses_consume:
  "consumeApproval sha now i t m p b s = (r, s') \<Longrightarrow> approvals.uses (ag_approvals s) (ag_approvals s')"
  by (auto simp: consumeApproval_def Let_def approvals.uses.none uses_approval uses_expire
      split: option.splits prod.splits if_splits)

lemma uses_decide: "decideApproval now i d s = (r, s') \<Longrightarrow> approvals.uses (ag_approvals s) (ag_approvals s')"
  by (auto simp: decideApproval_def Let_def approvals.uses.none uses_approval uses_expire
      split: option.splits prod.splits if_splits)

lemma uses_gate: "gateDestructive sha now ip h opts s = (r, s') \<Longrightarrow> approvals.uses (ag_approvals s) (ag_approvals s')"
  by (auto simp: gateDestructive_def Let_def approvals.uses.none uses_request uses_consume
      split: option.splits prod.splits sum.splits if_splits)

lemma step_uses: "agent_step sha s t \<Longrightarrow> approvals.uses (ag_approvals s) (ag_approvals t)"
proof (induction rule: agent_step.induct)
  case (create s rnd now input)
  then show ?case by (auto simp: createToken_def token_save_def Let_def approvals.uses.none split: sum.splits)
next
  case (revoke s now i userId)
  then show ?case by (auto simp: revokeToken_def approvals.uses.none split: option.splits prod.splits)
next
  case (verify s now raw ip)
  then show ?case by (auto simp: verifyToken_def approvals.uses.none split: option.splits)
next
  case (rotate s rnd now i userId)
  then show ?case by (auto simp: rotateToken_def Let_def approvals.uses.none split: option.splits prod.splits)
next
  case (scope_gate s now ip token scope org proj action res)
  then show ?case by (auto simp: requireAgentScope_def Let_def approvals.uses.none split: sum.splits)
qed (auto intro: uses_request uses_consume uses_decide uses_gate surjective_pairing uses_maintenance approvals.uses.none)

lemma steps_uses: "agent_steps sha s t \<Longrightarrow> approvals.uses (ag_approvals s) (ag_approvals t)"
  by (induction rule: agent_steps.induct) (auto intro: approvals.uses.none approvals.uses_trans step_uses)

end
