(* ===== verification/AgentSafety.thy ===== *)
theory AgentSafety
  imports AgentGate
begin

text \<open>
  What the agent service guarantees over whole histories: the invariant of its stores, the life of a
  token and of an approval under any sequence of operations, and what the destructive gate lets through.
\<close>

section \<open>The invariant of the stores\<close>

definition agent_init :: agent_state where
  "agent_init = \<lparr>ag_tokens = [], ag_counter = 0,
     ag_approvals = \<lparr>as_approvals = [], as_counter = 0\<rparr>,
     ag_activity = \<lparr>av_entries = [], av_counter = 0\<rparr>\<rparr>"

text \<open>
  Records lie under their own identifier, identifiers come from the counters already handed out, and
  every token is well formed.
\<close>

definition tokens_ok :: "token_map \<Rightarrow> nat \<Rightarrow> bool" where
  "tokens_ok m c \<longleftrightarrow> js_ok m \<and> (\<forall>i t. js_get m i = Some t \<longrightarrow>
     at_id t = i \<and> wf_token t \<and> (\<exists>now n. i = counter_id ''agent_'' now n \<and> n \<le> c))"

definition agent_ok :: "agent_state \<Rightarrow> bool" where
  "agent_ok s \<longleftrightarrow> tokens_ok (ag_tokens s) (ag_counter s) \<and> approval_ok (ag_approvals s)"

lemma tokens_okD:
  assumes "tokens_ok m c" and "js_get m i = Some t"
  shows "at_id t = i" and "wf_token t" and "\<exists>now n. i = counter_id ''agent_'' now n \<and> n \<le> c"
  using assms by (auto simp: tokens_ok_def)

lemma tokens_ok_put:
  assumes "tokens_ok m c" and "c \<le> c'" and "wf_token t"
    and "\<exists>now n. at_id t = counter_id ''agent_'' now n \<and> n \<le> c'"
  shows "tokens_ok (js_set (at_id t) t m) c'"
  using assms unfolding tokens_ok_def
  by (auto simp: js_ok_set split: if_splits) (meson le_trans)

lemma tokens_ok_update:
  assumes "tokens_ok m c" and "js_get m i = Some t" and "wf_token t'" and "at_id t' = at_id t"
  shows "tokens_ok (js_set i t' m) c"
  using assms(1,3,4) tokens_okD [OF assms(1,2)] tokens_ok_put [of m c c t'] by auto

lemma tokens_ok_fresh:
  assumes "tokens_ok m c"
  shows "js_get m (counter_id ''agent_'' now (Suc c)) = None"
proof (rule ccontr)
  assume "js_get m (counter_id ''agent_'' now (Suc c)) \<noteq> None"
  then obtain now' n where "counter_id ''agent_'' now (Suc c) = counter_id ''agent_'' now' n" "n \<le> c"
    using assms by (fastforce simp: tokens_ok_def)
  then show False using counter_id_inj by fastforce
qed

lemma wf_token_cong [simp]:
  "wf_token (t\<lparr>at_prefix := p\<rparr>) = wf_token t" "wf_token (t\<lparr>at_hash := h\<rparr>) = wf_token t"
  "wf_token (t\<lparr>at_revokedAt := r\<rparr>) = wf_token t" "wf_token (t\<lparr>at_requestCount := k\<rparr>) = wf_token t"
  "wf_token (t\<lparr>at_lastUsedAt := l\<rparr>) = wf_token t"
  by (simp_all add: wf_token_def)

lemma buildTokenRecord_ok:
  assumes "buildTokenRecord input now c = Inr (t, c')"
  shows "wf_token t" and "c' = Suc c" and "at_id t = counter_id ''agent_'' now (Suc c)"
    and "at_revokedAt t = None"
proof -
  show "at_id t = counter_id ''agent_'' now (Suc c)" and "at_revokedAt t = None"
    using assms by (auto simp: buildTokenRecord_cases and_then_Inr split: if_splits option.splits)
  show "wf_token t" and "c' = Suc c" using buildTokenRecord_props [OF assms] by auto
qed

lemma find_token:
  assumes "tokens_ok m c" and "token_findByHash h m = Some t"
  shows "js_get m (at_id t) = Some t" and "at_hash t = h" and "h \<noteq> []"
proof -
  from assms(2) have f: "find (\<lambda>t. at_hash t = h) (js_values m) = Some t" and "h \<noteq> []"
    by (auto simp: token_findByHash_def split: if_splits)
  have v: "t \<in> set (js_values m)" and "at_hash t = h" using find_Some_in [OF f] by simp_all
  have "js_ok m" using assms(1) by (simp add: tokens_ok_def)
  from js_values_get [OF this v] obtain k where k: "js_get m k = Some t" ..
  then show "js_get m (at_id t) = Some t" using tokens_okD(1) [OF assms(1) k] by simp
  show "at_hash t = h" "h \<noteq> []" by fact+
qed

subsection \<open>Every operation keeps it, and never touches a revoked token\<close>

definition tokens_step :: "token_map \<Rightarrow> nat \<Rightarrow> token_map \<Rightarrow> nat \<Rightarrow> bool" where
  "tokens_step m c m' c' \<longleftrightarrow> tokens_ok m' c' \<and>
     (\<forall>i t. js_get m i = Some t \<and> at_revokedAt t \<noteq> None \<longrightarrow> js_get m' i = Some t)"

lemma tokens_step_refl: "tokens_ok m c \<Longrightarrow> tokens_step m c m c"
  by (simp add: tokens_step_def)

lemma tokens_step_update:
  assumes "tokens_ok m c" and "js_get m i = Some t" and "at_revokedAt t = None"
    and "wf_token t'" and "at_id t' = at_id t"
  shows "tokens_step m c (js_set i t' m) c"
  using tokens_ok_update [OF assms(1,2,4,5)] assms(2,3) by (auto simp: tokens_step_def)

lemma tokens_createToken:
  "tokens_ok (ag_tokens s) (ag_counter s) \<Longrightarrow> createToken sha rnd now input s = (r, s') \<Longrightarrow>
     tokens_step (ag_tokens s) (ag_counter s) (ag_tokens s') (ag_counter s')"
proof (cases "buildTokenRecord input now (ag_counter s)")
  case (Inr p)
  assume ok: "tokens_ok (ag_tokens s) (ag_counter s)" and r: "createToken sha rnd now input s = (r, s')"
  obtain t c where p: "p = (t, c)" by (cases p)
  note b = buildTokenRecord_ok [OF Inr [unfolded p]]
  define t' where "t' = t\<lparr>at_prefix := tv_prefix (createAgentTokenValue sha rnd),
    at_hash := tv_hash (createAgentTokenValue sha rnd)\<rparr>"
  have eq: "ag_tokens s' = js_set (at_id t') t' (ag_tokens s)" "ag_counter s' = c"
    using r Inr p by (auto simp: createToken_def token_save_def Let_def t'_def)
  have "tokens_ok (js_set (at_id t') t' (ag_tokens s)) c"
    using b by (intro tokens_ok_put [OF ok]) (auto simp: t'_def)
  moreover have "at_id t' = counter_id ''agent_'' now (Suc (ag_counter s))" using b by (simp add: t'_def)
  ultimately show ?thesis using tokens_ok_fresh [OF ok, of now] eq by (auto simp: tokens_step_def)
qed (auto simp: createToken_def tokens_step_refl)

lemma tokens_revokeToken:
  assumes ok: "tokens_ok (ag_tokens s) (ag_counter s)" and r: "revokeToken now i u s = (r, s')"
  shows "tokens_step (ag_tokens s) (ag_counter s) (ag_tokens s') (ag_counter s')"
proof (cases "js_get (ag_tokens s) i")
  case (Some t)
  have "tokens_step (ag_tokens s) (ag_counter s) (js_set i (t\<lparr>at_revokedAt := Some now\<rparr>) (ag_tokens s)) (ag_counter s)"
    if "at_revokedAt t = None"
    using tokens_okD [OF ok Some] that by (intro tokens_step_update [OF ok Some]) auto
  with r Some show ?thesis using ok
    by (auto simp: revokeToken_def token_store_defs Let_def tokens_step_refl split: if_splits)
qed (use assms in \<open>auto simp: revokeToken_def token_store_defs tokens_step_refl\<close>)

lemma tokens_verifyToken:
  assumes ok: "tokens_ok (ag_tokens s) (ag_counter s)" and r: "verifyToken sha now raw ip s = (r, s')"
  shows "tokens_step (ag_tokens s) (ag_counter s) (ag_tokens s') (ag_counter s')"
proof (cases "token_findByHash (sha raw) (ag_tokens s)")
  case (Some t)
  note f = find_token [OF ok Some]
  have "tokens_step (ag_tokens s) (ag_counter s) (token_touch now (at_id t) (ag_tokens s)) (ag_counter s)"
    if "at_revokedAt t = None"
    using f(1) that tokens_okD [OF ok f(1)]
    by (auto simp: token_touch_def intro!: tokens_step_update [OF ok f(1)])
  with r Some show ?thesis using ok by (auto simp: verifyToken_def tokens_step_refl split: if_splits)
qed (use assms in \<open>auto simp: verifyToken_def tokens_step_refl split: if_splits\<close>)

lemma tokens_rotateToken:
  assumes ok: "tokens_ok (ag_tokens s) (ag_counter s)" and r: "rotateToken sha rnd now i u s = (r, s')"
  shows "tokens_step (ag_tokens s) (ag_counter s) (ag_tokens s') (ag_counter s')"
proof (cases "js_get (ag_tokens s) i")
  case (Some t)
  note t = tokens_okD [OF ok Some]
  show ?thesis
  proof (cases "at_userId t = u \<and> at_revokedAt t = None")
    case True
    define t1 where "t1 = t\<lparr>at_revokedAt := Some now\<rparr>"
    define t2 where "t2 = t\<lparr>at_prefix := tv_prefix (createAgentTokenValue sha rnd),
      at_hash := tv_hash (createAgentTokenValue sha rnd), at_revokedAt := None\<rparr>"
    have eq: "ag_tokens s' = js_set (at_id t2) t2 (js_set i t1 (ag_tokens s))" "ag_counter s' = ag_counter s"
      using r Some True by (auto simp: rotateToken_def token_store_defs Let_def t1_def t2_def)
    have one: "tokens_ok (js_set i t1 (ag_tokens s)) (ag_counter s)"
      using t by (intro tokens_ok_update [OF ok Some]) (auto simp: t1_def)
    have "tokens_ok (js_set (at_id t2) t2 (js_set i t1 (ag_tokens s))) (ag_counter s)"
      using t by (intro tokens_ok_put [OF one]) (auto simp: t2_def)
    then show ?thesis using eq t(1) True Some by (auto simp: tokens_step_def t2_def)
  next
    case False
    with r Some show ?thesis using ok by (auto simp: rotateToken_def token_get_def tokens_step_refl split: if_splits)
  qed
qed (use assms in \<open>auto simp: rotateToken_def token_get_def tokens_step_refl\<close>)

lemma same_tokens:
  "requestApproval sha now og p t a m pa b s = (q1, s') \<Longrightarrow> ag_tokens s' = ag_tokens s \<and> ag_counter s' = ag_counter s"
  "decideApproval now i d s = (q2, s') \<Longrightarrow> ag_tokens s' = ag_tokens s \<and> ag_counter s' = ag_counter s"
  "consumeApproval sha now i t m p' b s = (q3, s') \<Longrightarrow> ag_tokens s' = ag_tokens s \<and> ag_counter s' = ag_counter s"
  "runMaintenance now orgs days s = (q4, s') \<Longrightarrow> ag_tokens s' = ag_tokens s \<and> ag_counter s' = ag_counter s"
  "requireAgentScope now ip t sc og' p a rs s = (q5, s') \<Longrightarrow> ag_tokens s' = ag_tokens s \<and> ag_counter s' = ag_counter s"
  by (auto simp: requestApproval_def decideApproval_def consumeApproval_def runMaintenance_def
      requireAgentScope_def Let_def split: prod.splits option.splits sum.splits if_splits)

lemma same_tokens_gate:
  "gateDestructive sha now ip h opts s = (r, s') \<Longrightarrow> ag_tokens s' = ag_tokens s \<and> ag_counter s' = ag_counter s"
  using same_tokens(1,3)
  by (auto simp: gateDestructive_def Let_def split: option.splits prod.splits sum.splits if_splits)

lemma agent_step_tokens:
  "agent_step sha s s' \<Longrightarrow> tokens_ok (ag_tokens s) (ag_counter s) \<Longrightarrow>
     tokens_step (ag_tokens s) (ag_counter s) (ag_tokens s') (ag_counter s')"
proof (induction rule: agent_step.induct)
  case (request s now org proj token action meth pth body)
  then show ?case using same_tokens(1) by (metis surjective_pairing tokens_step_refl)
next
  case (decide s now i approve)
  then show ?case using same_tokens(2) by (metis surjective_pairing tokens_step_refl)
next
  case (consume s now i token meth pth body)
  then show ?case using same_tokens(3) by (metis surjective_pairing tokens_step_refl)
next
  case (maintain s now orgs days)
  then show ?case using same_tokens(4) by (metis surjective_pairing tokens_step_refl)
next
  case (scope_gate s now ip token scope org proj action res)
  then show ?case using same_tokens(5) by (metis surjective_pairing tokens_step_refl)
next
  case (destructive_gate s now ip header opts)
  then show ?case using same_tokens_gate by (metis surjective_pairing tokens_step_refl)
qed (auto intro: tokens_createToken tokens_revokeToken tokens_verifyToken tokens_rotateToken
      surjective_pairing tokens_step_refl)

lemma agent_step_ok: "agent_step sha s s' \<Longrightarrow> agent_ok s \<Longrightarrow> agent_ok s'"
  using agent_step_tokens [of sha s s'] approvals.ok_uses [OF step_uses [of sha s s']]
  by (auto simp: agent_ok_def tokens_step_def)

lemma agent_steps_ok: "agent_steps sha s s' \<Longrightarrow> agent_ok s \<Longrightarrow> agent_ok s'"
  by (induction rule: agent_steps.induct) (auto intro: agent_step_ok)

lemma agent_steps_frozen:
  "agent_steps sha s s' \<Longrightarrow> agent_ok s \<Longrightarrow> js_get (ag_tokens s) i = Some t \<Longrightarrow> at_revokedAt t \<noteq> None \<Longrightarrow>
     js_get (ag_tokens s') i = Some t"
proof (induction rule: agent_steps.induct)
  case (step s t' u)
  then have "tokens_ok (ag_tokens t') (ag_counter t')"
    using agent_steps_ok by (auto simp: agent_ok_def)
  with agent_step_tokens [OF step.hyps(2)] step show ?case by (auto simp: tokens_step_def)
qed

lemma agent_init_ok: "agent_ok agent_init"
  by (simp add: agent_ok_def agent_init_def tokens_ok_def approval_ok_def)

section \<open>Tokens over time\<close>

lemma verifyToken_found:
  assumes "tokens_ok (ag_tokens s) (ag_counter s)" and "fst (verifyToken sha now raw ip s) = Inr t'"
  shows "\<exists>t. js_get (ag_tokens s) (at_id t') = Some t \<and> at_revokedAt t = None \<and> at_id t' = at_id t"
proof -
  from assms(2) obtain t where f: "token_findByHash (sha raw) (ag_tokens s) = Some t"
    and "at_revokedAt t = None" and "at_id t' = at_id t"
    by (auto simp: verifyToken_def split: if_splits option.splits)
  then show ?thesis using find_token(1) [OF assms(1) f] by auto
qed

lemma token_find_unique:
  assumes "js_ok m" and "js_get m i = Some t" and "at_hash t \<noteq> []"
    and "\<And>j u. js_get m j = Some u \<Longrightarrow> j \<noteq> i \<Longrightarrow> at_hash u \<noteq> at_hash t"
  shows "token_findByHash (at_hash t) m = Some t"
proof -
  have in_m: "t \<in> set (js_values m)" using js_get_values [OF assms(2)] .
  obtain u where u: "find (\<lambda>x. at_hash x = at_hash t) (js_values m) = Some u"
    using find_hits [of t "js_values m" "\<lambda>x. at_hash x = at_hash t"] in_m by auto
  then have uv: "u \<in> set (js_values m)" and h: "at_hash u = at_hash t" using find_Some_in [OF u] by simp_all
  from js_values_get [OF assms(1) uv] obtain j where j: "js_get m j = Some u" ..
  have "j = i" using assms(4) [OF j] h by blast
  with j assms(2) have "u = t" by simp
  with u assms(3) show ?thesis by (simp add: token_findByHash_def)
qed

lemma token_find_none:
  assumes "js_ok m" and "\<And>j u. js_get m j = Some u \<Longrightarrow> at_hash u \<noteq> h"
  shows "token_findByHash h m = None"
proof -
  have "at_hash u \<noteq> h" if u: "u \<in> set (js_values m)" for u
  proof -
    from js_values_get [OF assms(1) u] obtain k where "js_get m k = Some u" ..
    then show ?thesis by (rule assms(2))
  qed
  then have "find (\<lambda>t. at_hash t = h) (js_values m) = None" unfolding find_None_iff by blast
  then show ?thesis by (simp add: token_findByHash_def)
qed

text \<open>
  Whatever sequence of operations runs from the empty stores, every token and approval lies under its own
  identifier, identifiers are never reused, and every stored token is well formed.
\<close>

theorem agent_invariant:
  assumes "agent_steps sha agent_init s"
  shows "agent_ok s"
  using agent_steps_ok [OF assms agent_init_ok] .

theorem agent_invariant_witness:
  "agent_ok (snd (createToken (\<lambda>x. x) ''abc'' 0 sample_input agent_init))"
  by (rule agent_invariant [of "\<lambda>x. x"]) (rule agent_steps.step [OF agent_steps.refl agent_step.create])

text \<open>
  C3. Revocation is final: once a token is revoked its record never changes again, and no secret, at no time
  and from no address, verifies as that token, whatever operations follow (rotation included).
\<close>

theorem revoked_token_stays_dead:
  assumes "agent_ok s" and "token_get i (ag_tokens s) = Some t" and "at_revokedAt t \<noteq> None"
    and "agent_steps sha s s'"
  shows "token_get i (ag_tokens s') = Some t \<and>
    (\<forall>now raw ip t'. fst (verifyToken sha now raw ip s') = Inr t' \<longrightarrow> at_id t' \<noteq> i)"
proof -
  have f: "js_get (ag_tokens s') i = Some t"
    using agent_steps_frozen [OF assms(4,1)] assms(2,3) by (simp add: token_get_def)
  have ok: "tokens_ok (ag_tokens s') (ag_counter s')"
    using agent_steps_ok [OF assms(4,1)] by (simp add: agent_ok_def)
  have "at_id t' \<noteq> i" if "fst (verifyToken sha now raw ip s') = Inr t'" for now raw ip t'
  proof
    assume "at_id t' = i"
    with verifyToken_found [OF ok that] f assms(3) show False by simp
  qed
  with f show ?thesis by (simp add: token_get_def)
qed

definition sample_dead :: agent_token where
  "sample_dead = \<lparr>at_id = counter_id ''agent_'' 0 1, at_userId = ''u1'', at_organizationId = None,
     at_name = ''ci'', at_prefix = [], at_scopes = [''logs.read''], at_projectIds = [], at_environments = [],
     at_approvalRequired = False, at_ipAllowlist = [], at_expiresAt = None, at_revokedAt = Some 5,
     at_requestCount = 0, at_lastUsedAt = None, at_createdAt = 0, at_hash = ''h1''\<rparr>"

definition sample_live :: agent_token where
  "sample_live = sample_dead\<lparr>at_revokedAt := None\<rparr>"

definition sample_state :: "agent_token \<Rightarrow> agent_state" where
  "sample_state t = agent_init\<lparr>ag_tokens := [(at_id t, t)], ag_counter := 1\<rparr>"

lemma known_logs: "isKnownScope ''logs.read''"
  by (simp add: isKnownScope_def AGENT_SCOPES_def sd_def)

lemma sample_ok: "agent_ok (sample_state sample_dead)" "agent_ok (sample_state sample_live)"
  by (auto simp: agent_ok_def tokens_ok_def sample_state_def agent_init_def sample_live_def sample_dead_def
      approval_ok_def js_ok_def wf_token_def known_logs)

theorem revoked_token_stays_dead_witness:
  "token_get (at_id sample_dead) (ag_tokens (snd (rotateToken (\<lambda>x. x) ''new'' 9 (at_id sample_dead) ''u1''
     (sample_state sample_dead)))) = Some sample_dead"
proof -
  have "token_get (at_id sample_dead) (ag_tokens (sample_state sample_dead)) = Some sample_dead"
    by (simp add: token_get_def sample_state_def)
  moreover have "at_revokedAt sample_dead \<noteq> None" by (simp add: sample_dead_def)
  moreover have "agent_steps (\<lambda>x. x) (sample_state sample_dead)
      (snd (rotateToken (\<lambda>x. x) ''new'' 9 (at_id sample_dead) ''u1'' (sample_state sample_dead)))"
    by (rule agent_steps.step [OF agent_steps.refl agent_step.rotate])
  ultimately show ?thesis using revoked_token_stays_dead [OF sample_ok(1)] by blast
qed

text \<open>
  Rotation swaps the secret and nothing else: with the hash function separating the two secrets from
  each other and from the other tokens' hashes, the old secret stops verifying at once, the new one verifies
  as the same token with the same scopes, projects, environments, expiry and allow list.
\<close>

theorem rotate_swaps_secret:
  assumes "agent_ok s" and "token_get i (ag_tokens s) = Some t" and "at_revokedAt t = None"
    and "rotateToken sha rnd now i (at_userId t) s = (res, s')" and "length rnd \<le> 100"
    and "at_hash t = sha old" and "sha old \<noteq> sha (AGENT_TOKEN_PREFIX @ rnd)" and "sha (AGENT_TOKEN_PREFIX @ rnd) \<noteq> []"
    and "\<And>j u. token_get j (ag_tokens s) = Some u \<Longrightarrow> j \<noteq> i \<Longrightarrow>
      at_hash u \<noteq> sha old \<and> at_hash u \<noteq> sha (AGENT_TOKEN_PREFIX @ rnd)"
    and "case at_expiresAt t of Some e \<Rightarrow> now' < e | None \<Rightarrow> True" and "ipAllowed (at_ipAllowlist t) ip"
  shows "fst (verifyToken sha now' old ip s') = Inl (ApiError INVALID_TOKEN 401) \<and>
    (\<exists>tok raw t'. res = Inr (tok, raw) \<and> fst (verifyToken sha now' raw ip s') = Inr t' \<and>
      t' = t\<lparr>at_prefix := take 16 raw, at_hash := sha raw, at_requestCount := at_requestCount t + 1,
        at_lastUsedAt := Some now'\<rparr>)"
proof -
  define raw where "raw = AGENT_TOKEN_PREFIX @ rnd"
  define t2 where "t2 = t\<lparr>at_prefix := take 16 raw, at_hash := sha raw, at_revokedAt := None\<rparr>"
  have ok: "tokens_ok (ag_tokens s) (ag_counter s)" using assms(1) by (simp add: agent_ok_def)
  have get: "js_get (ag_tokens s) i = Some t" using assms(2) by (simp add: token_get_def)
  have idt: "at_id t2 = i" using tokens_okD(1) [OF ok get] by (simp add: t2_def)
  have res: "res = Inr (exposeToken t2, raw)"
    and tok: "ag_tokens s' = js_set i t2 (js_set i (t\<lparr>at_revokedAt := Some now\<rparr>) (ag_tokens s))"
    using assms(3,4) get idt
    by (auto simp: rotateToken_def token_store_defs createAgentTokenValue_def Let_def t2_def raw_def)
  have ok': "js_ok (ag_tokens s')"
    using tokens_rotateToken [OF ok assms(4)] by (simp add: tokens_step_def tokens_ok_def)
  have get': "js_get (ag_tokens s') j = (if j = i then Some t2 else js_get (ag_tokens s) j)" for j
    by (simp add: tok)
  have other: "at_hash u \<noteq> sha old \<and> at_hash u \<noteq> sha raw" if "js_get (ag_tokens s) j = Some u" "j \<noteq> i" for j u
    using assms(9) [of j u] that by (simp add: token_get_def raw_def)
  have gone: "token_findByHash (sha old) (ag_tokens s') = None"
  proof (rule token_find_none [OF ok'])
    fix j u assume u: "js_get (ag_tokens s') j = Some u"
    show "at_hash u \<noteq> sha old"
      using u get' [of j] other [of j u] assms(7) by (cases "j = i") (auto simp: t2_def raw_def)
  qed
  have "token_findByHash (at_hash t2) (ag_tokens s') = Some t2"
  proof (rule token_find_unique [OF ok', of i])
    show "js_get (ag_tokens s') i = Some t2" by (simp add: get')
    show "at_hash t2 \<noteq> []" using assms(8) by (simp add: t2_def raw_def)
    fix j u assume "js_get (ag_tokens s') j = Some u" "j \<noteq> i"
    then show "at_hash u \<noteq> at_hash t2" using get' [of j] other [of j u] by (simp add: t2_def)
  qed
  then have found: "token_findByHash (sha raw) (ag_tokens s') = Some t2" by (simp add: t2_def)
  have looks: "looksLikeAgentToken raw"
    using assms(5) by (simp add: looksLikeAgentToken_def raw_def AGENT_TOKEN_PREFIX_def starts_with_def)
  have "fst (verifyToken sha now' old ip s') = Inl (ApiError INVALID_TOKEN 401)"
    using gone by (simp add: verifyToken_def)
  moreover have "fst (verifyToken sha now' raw ip s') = Inr (t\<lparr>at_prefix := take 16 raw, at_hash := sha raw,
      at_requestCount := at_requestCount t + 1, at_lastUsedAt := Some now'\<rparr>)"
    using found looks assms(3,10,11) by (auto simp: verifyToken_def t2_def split: option.splits)
  ultimately show ?thesis using res by blast
qed

theorem rotate_swaps_secret_witness:
  "fst (verifyToken (\<lambda>x. x) 7 ''h1'' None (snd (rotateToken (\<lambda>x. x) ''new'' 6 (at_id sample_live) ''u1''
     (sample_state sample_live)))) = Inl (ApiError INVALID_TOKEN 401)"
proof -
  define i s' where "i = at_id sample_live"
    and "s' = snd (rotateToken (\<lambda>x. x) ''new'' 6 i ''u1'' (sample_state sample_live))"
  obtain res where r: "rotateToken (\<lambda>x. x) ''new'' 6 i (at_userId sample_live) (sample_state sample_live) = (res, s')"
    unfolding s'_def by (simp add: sample_live_def sample_dead_def) (metis prod.collapse)
  have "fst (verifyToken (\<lambda>x. x) 7 ''h1'' None s') = Inl (ApiError INVALID_TOKEN 401)"
  proof (rule conjunct1 [OF rotate_swaps_secret [OF sample_ok(2) _ _ r]])
    show "token_get i (ag_tokens (sample_state sample_live)) = Some sample_live"
      by (simp add: token_get_def sample_state_def i_def)
  qed (auto simp: sample_live_def sample_dead_def AGENT_TOKEN_PREFIX_def ipAllowed_def token_get_def
      sample_state_def i_def)
  then show ?thesis by (simp add: s'_def i_def)
qed

end
