(* ===== verification/AgentApprovalSafety.thy ===== *)
theory AgentApprovalSafety
  imports AgentGate
begin

text \<open>
  What an approval is worth: it is consumed at most once in any history, the destructive gate proceeds only
  with a held scope or an approved matching request, an approved retry does proceed, and maintenance leaves
  no stale request pending.
\<close>

text \<open>A state with one approval, its owner and the request it was made for.\<close>

definition sample_agent :: agent_token where
  "sample_agent = \<lparr>at_id = ''agent_1'', at_userId = ''u1'', at_organizationId = None, at_name = ''ci'',
     at_prefix = [], at_scopes = [''logs.read''], at_projectIds = [], at_environments = [],
     at_approvalRequired = True, at_ipAllowlist = [], at_expiresAt = None, at_revokedAt = None,
     at_requestCount = 0, at_lastUsedAt = None, at_createdAt = 0, at_hash = ''h''\<rparr>"

definition sample_request :: destructive_request where
  "sample_request = \<lparr>dr_agent = sample_agent, dr_scope = ''projects.delete'', dr_action = ''delete'',
     dr_organizationId = ''o1'', dr_projectId = None, dr_method = ''DELETE'', dr_path = ''/p'', dr_body = JNull,
     dr_resource = None, dr_alwaysApprove = False\<rparr>"

definition sample_approval :: "approval_status \<Rightarrow> approval" where
  "sample_approval st = \<lparr>ap_organizationId = ''o1'', ap_projectId = None, ap_tokenId = ''agent_1'', ap_userId = ''u1'',
     ap_action = ''delete'', ap_method = ''DELETE'', ap_path = ''/p'',
     ap_bodyHash = fingerprintOperation (\<lambda>x. x) ''DELETE'' ''/p'' JNull, ap_expiresAt = 100,
     ap_id = counter_id ''apr_'' 0 1, ap_status = st, ap_decidedAt = None, ap_createdAt = 0\<rparr>"

definition sample_approvals :: "approval_status \<Rightarrow> agent_state" where
  "sample_approvals st = \<lparr>ag_tokens = [], ag_counter = 0,
     ag_approvals = \<lparr>as_approvals = [(counter_id ''apr_'' 0 1, sample_approval st)], as_counter = 1\<rparr>,
     ag_activity = \<lparr>av_entries = [], av_counter = 0\<rparr>\<rparr>"

lemma sample_approvals_ok: "approval_ok (ag_approvals (sample_approvals st))"
  by (auto simp: approval_ok_def sample_approvals_def sample_approval_def js_ok_def)

lemma sample_consume:
  "consumeApproval (\<lambda>x. x) 5 (counter_id ''apr_'' 0 1) sample_agent ''DELETE'' ''/p'' JNull (sample_approvals Approved)
     = (Inr (sample_approval Consumed), sample_approvals Consumed)"
  by (simp add: consumeApproval_def approval_get_def approval_markConsumed_def sample_approvals_def
      sample_approval_def sample_agent_def Let_def)

lemma get_consumed:
  assumes "approval_ok a" and "approval_get a i = Some x" and "ap_status x = Approved"
  shows "approval_markConsumed (ap_id x) a = (Some (x\<lparr>ap_status := Consumed\<rparr>),
    a\<lparr>as_approvals := js_set i (x\<lparr>ap_status := Consumed\<rparr>) (as_approvals a)\<rparr>)"
  using assms by (auto simp: approval_ok_def approval_get_def approval_markConsumed_def Let_def)

lemma consumeApproval_Inr:
  assumes "approval_ok (ag_approvals s)" and "consumeApproval sha now i token m p b s = (Inr a, s')"
  shows "\<exists>x. approval_get (ag_approvals s) i = Some x \<and> ap_tokenId x = at_id token \<and>
    ap_status x = Approved \<and> now < ap_expiresAt x \<and> ap_bodyHash x = fingerprintOperation sha m p b \<and>
    approval_markConsumed i (ag_approvals s) = (Some a, ag_approvals s') \<and>
    approval_get (ag_approvals s') i = Some (x\<lparr>ap_status := Consumed\<rparr>)"
proof -
  from assms(2) obtain x where x: "approval_get (ag_approvals s) i = Some x" "ap_tokenId x = at_id token"
      "ap_status x = Approved" "now < ap_expiresAt x" "ap_bodyHash x = fingerprintOperation sha m p b"
    and c: "approval_markConsumed (ap_id x) (ag_approvals s) = (Some a, ag_approvals s')"
    by (auto simp: consumeApproval_def Let_def split: option.splits if_splits prod.splits)
  have "ap_id x = i" using assms(1) x(1) by (auto simp: approval_ok_def approval_get_def)
  moreover have "approval_get (ag_approvals s') i = Some (x\<lparr>ap_status := Consumed\<rparr>)"
    using get_consumed [OF assms(1) x(1,3)] c by (auto simp: approval_get_def)
  ultimately show ?thesis using x c by auto
qed

text \<open>
  C2. An approval executes at most one operation: after it has been consumed, no later state of the service
  lets it be consumed again, by any token, for any request.
\<close>

theorem approval_used_once:
  assumes "approval_ok (ag_approvals s)" and "consumeApproval sha now i token m p b s = (Inr a, s1)"
    and "agent_steps sha s1 s2"
  shows "fst (consumeApproval sha now' i token' m' p' b' s2) \<noteq> Inr a'"
proof
  assume again: "fst (consumeApproval sha now' i token' m' p' b' s2) = Inr a'"
  obtain s3 where s3: "consumeApproval sha now' i token' m' p' b' s2 = (Inr a', s3)"
    using again by (metis prod.collapse)
  have one: "approval_markConsumed i (ag_approvals s) = (Some a, ag_approvals s1)"
    using consumeApproval_Inr [OF assms(1,2)] by blast
  have u: "approvals.uses (snd (approval_markConsumed i (ag_approvals s))) (ag_approvals s2)"
    using steps_uses [OF assms(3)] one by simp
  have "approval_ok (ag_approvals s2)"
    using approvals.ok_uses [OF u] approvals.ok_consume [OF assms(1)] by blast
  then have "approval_markConsumed i (ag_approvals s2) = (Some a', ag_approvals s3)"
    using consumeApproval_Inr [OF _ s3] by blast
  moreover have "fst (approval_markConsumed i (ag_approvals s2)) = None"
    using approvals.consume_once [OF assms(1) _ u, of a] one by simp
  ultimately show False by simp
qed

theorem approval_used_once_witness:
  "fst (consumeApproval (\<lambda>x. x) 6 (counter_id ''apr_'' 0 1) sample_agent ''DELETE'' ''/p'' JNull
     (sample_approvals Consumed)) \<noteq> Inr (sample_approval Consumed)"
  by (rule approval_used_once [OF sample_approvals_ok sample_consume agent_steps.refl])

text \<open>
  C1. The destructive gate lets a request through only in two cases: no approval is demanded and the token
  holds the scope; or the request presents an approval of this very token, approved, unexpired and
  fingerprinted with this method, path and body, which is consumed in the same step.
\<close>

theorem gate_proceeds_only_if:
  assumes "approval_ok (ag_approvals s)" and "gateDestructive sha now ip header opts s = (Inr Proceed, s')"
  shows "(\<not> dr_alwaysApprove opts \<and> hasScope (dr_agent opts) (dr_scope opts) \<and> s' = s) \<or>
    (\<exists>i x. approvalIdFrom header = Some i \<and> approval_get (ag_approvals s) i = Some x \<and>
       ap_tokenId x = at_id (dr_agent opts) \<and> ap_status x = Approved \<and> now < ap_expiresAt x \<and>
       ap_bodyHash x = fingerprintOperation sha (dr_method opts) (dr_path opts) (dr_body opts) \<and>
       approval_get (ag_approvals s') i = Some (x\<lparr>ap_status := Consumed\<rparr>))"
proof (cases "\<not> dr_alwaysApprove opts \<and> hasScope (dr_agent opts) (dr_scope opts)")
  case True
  with assms(2) show ?thesis by (auto simp: gateDestructive_def gate_def Let_def)
next
  case False
  then obtain i a s1 where h: "approvalIdFrom header = Some i"
    and c: "consumeApproval sha now i (dr_agent opts) (dr_method opts) (dr_path opts) (dr_body opts) s = (Inr a, s1)"
    and s1: "ag_approvals s' = ag_approvals s1"
    using assms(2)
    by (auto simp: gateDestructive_def gate_def Let_def split: if_splits option.splits prod.splits sum.splits)
  show ?thesis using consumeApproval_Inr [OF assms(1) c] h s1 by auto
qed

lemma sample_gate_facts:
  "gate sample_agent ''projects.delete'' = \<lparr>gt_allowed = False, gt_needsApproval = True\<rparr>"
  by (simp add: gate_def hasScope_def sample_agent_def)

lemma counter_id_short: "length (counter_id ''apr_'' 0 1) = 7"
  by code_simp

theorem gate_proceeds_only_if_witness:
  "\<exists>s'. gateDestructive (\<lambda>x. x) 5 ''ip'' (Single (counter_id ''apr_'' 0 1)) sample_request (sample_approvals Approved)
       = (Inr Proceed, s') \<and>
     (\<exists>x. approval_get (ag_approvals s') (counter_id ''apr_'' 0 1) = Some x \<and> ap_status x = Consumed)"
proof -
  have h: "approvalIdFrom (Single (counter_id ''apr_'' 0 1)) = Some (counter_id ''apr_'' 0 1)"
    using counter_id_short by (auto simp: approvalIdFrom_def)
  obtain s' where g: "gateDestructive (\<lambda>x. x) 5 ''ip'' (Single (counter_id ''apr_'' 0 1)) sample_request
      (sample_approvals Approved) = (Inr Proceed, s')"
    using h sample_consume sample_gate_facts by (simp add: gateDestructive_def sample_request_def Let_def)
  have "\<not> hasScope (dr_agent sample_request) (dr_scope sample_request)"
    by (simp add: hasScope_def sample_request_def sample_agent_def)
  then show ?thesis using gate_proceeds_only_if [OF sample_approvals_ok g] g h by auto
qed

lemma gate_presented:
  assumes "dr_alwaysApprove opts \<or> \<not> hasScope (dr_agent opts) (dr_scope opts) \<and> at_approvalRequired (dr_agent opts)"
    and "approvalIdFrom header = Some i"
    and "gateDestructive sha now ip header opts s = (d, s')"
    and "consumeApproval sha now i (dr_agent opts) (dr_method opts) (dr_path opts) (dr_body opts) s = (r, s1)"
  shows "d = (case r of Inr _ \<Rightarrow> Inr Proceed | Inl (e, _) \<Rightarrow> Inl e)" and "ag_approvals s' = ag_approvals s1"
  using assms by (auto simp: gateDestructive_def gate_def Let_def split: if_splits prod.splits sum.splits)

text \<open>
  C26. Approving a held request is enough: if the destructive gate holds a request, a manager approves it
  before it expires and the agent retries it in time with the approval's identifier, the method in any case
  and the keys of the body in any order, the retry proceeds; repeating it once more is a conflict.
\<close>

theorem approve_then_retry:
  assumes "approval_ok (ag_approvals s)"
    and "gateDestructive sha now ip header opts s = (Inr (Held ap), s1)"
    and "decideApproval now1 (ap_id ap) True s1 = (r, s2)" and "now1 < now + APPROVAL_TTL_MS"
    and "approvalIdFrom header' = Some (ap_id ap)" and "now2 < now + APPROVAL_TTL_MS"
    and "to_upper method' = to_upper (dr_method opts)" and "same_json (dr_body opts) body'"
    and "gateDestructive sha now2 ip' header' (opts\<lparr>dr_method := method', dr_body := body'\<rparr>) s2 = (d, s3)"
    and "gateDestructive sha now3 ip' header' (opts\<lparr>dr_method := method', dr_body := body'\<rparr>) s3 = (d', s4)"
  shows "d = Inr Proceed \<and> d' = Inl (ApiError CONFLICT 409)"
proof -
  have gate: "dr_alwaysApprove opts \<or> \<not> hasScope (dr_agent opts) (dr_scope opts) \<and> at_approvalRequired (dr_agent opts)"
    using assms(2) by (auto simp: gateDestructive_def gate_def Let_def split: if_splits)
  define inp where "inp = \<lparr>ap_organizationId = dr_organizationId opts, ap_projectId = dr_projectId opts,
    ap_tokenId = at_id (dr_agent opts), ap_userId = at_userId (dr_agent opts), ap_action = dr_action opts,
    ap_method = to_upper (dr_method opts), ap_path = dr_path opts,
    ap_bodyHash = fingerprintOperation sha (dr_method opts) (dr_path opts) (dr_body opts),
    ap_expiresAt = now + APPROVAL_TTL_MS\<rparr>"
  have held: "approval_create now inp (ag_approvals s) = (ap, ag_approvals s1)"
    using assms(2) gate
    by (auto simp: gateDestructive_def gate_def requestApproval_def Let_def inp_def
        split: if_splits option.splits prod.splits sum.splits)
  define i where "i = ap_id ap"
  define opts' where "opts' = opts\<lparr>dr_method := method', dr_body := body'\<rparr>"
  have g1: "approval_get (ag_approvals s1) i = Some ap"
    using approvals.get_create [of now inp "ag_approvals s" i] held by (simp add: i_def)
  have ok1: "approval_ok (ag_approvals s1)"
    using approvals.ok_create [OF assms(1), of now inp] held by simp
  have ap: "ap_status ap = Pending" "ap_expiresAt ap = now + APPROVAL_TTL_MS" "ap_tokenId ap = at_id (dr_agent opts)"
    "ap_bodyHash ap = fingerprintOperation sha (dr_method opts) (dr_path opts) (dr_body opts)"
    using held by (auto simp: approval_create_def approval_input.defs approval.defs Let_def inp_def)
  define ap2 where "ap2 = ap\<lparr>ap_status := Approved, ap_decidedAt := Some now1\<rparr>"
  have dec: "ag_approvals s2 = snd (approval_decide now1 i Approved (ag_approvals s1))"
    using assms(3,4) g1 ap(1,2)
    by (auto simp: decideApproval_def i_def approval_decide_def approval_get_def Let_def split: option.splits)
  have g2: "approval_get (ag_approvals s2) i = Some ap2"
    using dec approvals.get_decide [of now1 i Approved "ag_approvals s1" i] g1 ap(1)
    by (simp add: decided_def ap2_def)
  have ok2: "approval_ok (ag_approvals s2)" using dec approvals.ok_decide [OF ok1] by simp
  have fp: "fingerprintOperation sha method' (dr_path opts) body' = ap_bodyHash ap2"
    using ap(4) assms(7) stableStringify_same [OF assms(8)] by (simp add: fingerprintOperation_def ap2_def)
  have cons: "approval_markConsumed (ap_id ap2) (ag_approvals s2) = (Some (ap2\<lparr>ap_status := Consumed\<rparr>),
      ag_approvals s2\<lparr>as_approvals := js_set i (ap2\<lparr>ap_status := Consumed\<rparr>) (as_approvals (ag_approvals s2))\<rparr>)"
    by (rule get_consumed [OF ok2 g2]) (simp add: ap2_def)
  have use: "consumeApproval sha now2 i (dr_agent opts) method' (dr_path opts) body' s2 =
      (Inr (ap2\<lparr>ap_status := Consumed\<rparr>), s2\<lparr>ag_approvals :=
        ag_approvals s2\<lparr>as_approvals := js_set i (ap2\<lparr>ap_status := Consumed\<rparr>) (as_approvals (ag_approvals s2))\<rparr>\<rparr>)"
    using g2 fp cons assms(6) ap(2,3) by (simp add: consumeApproval_def ap2_def)
  have gate': "dr_alwaysApprove opts' \<or> \<not> hasScope (dr_agent opts') (dr_scope opts') \<and> at_approvalRequired (dr_agent opts')"
    using gate by (simp add: opts'_def)
  have fields: "dr_agent opts' = dr_agent opts" "dr_method opts' = method'" "dr_path opts' = dr_path opts" "dr_body opts' = body'"
    by (simp_all add: opts'_def)
  note go = gate_presented [OF gate' assms(5) assms(9) [folded opts'_def], unfolded fields, folded i_def, OF use]
  have d: "d = Inr Proceed" using go(1) by simp
  have s3: "approval_get (ag_approvals s3) i = Some (ap2\<lparr>ap_status := Consumed\<rparr>)"
    using go(2) by (simp add: approval_get_def)
  have again: "consumeApproval sha now3 i (dr_agent opts) method' (dr_path opts) body' s3 =
      (Inl (ApiError CONFLICT 409, ''Approval is '' @ status_text Consumed), s3)"
    using s3 ap(3) by (simp add: consumeApproval_def Let_def ap2_def)
  have "d' = Inl (ApiError CONFLICT 409)"
    using gate_presented(1) [OF gate' assms(5) assms(10) [folded opts'_def], unfolded fields, folded i_def, OF again]
    by simp
  with d show ?thesis by simp
qed

definition empty_agent_state :: agent_state where
  "empty_agent_state = \<lparr>ag_tokens = [], ag_counter = 0, ag_approvals = \<lparr>as_approvals = [], as_counter = 0\<rparr>,
     ag_activity = \<lparr>av_entries = [], av_counter = 0\<rparr>\<rparr>"

theorem approve_then_retry_witness:
  "\<exists>ap s1 r s2 d s3. gateDestructive (\<lambda>x. x) 0 ''ip'' Absent sample_request empty_agent_state = (Inr (Held ap), s1) \<and>
     decideApproval 10 (ap_id ap) True s1 = (r, s2) \<and>
     gateDestructive (\<lambda>x. x) 20 ''ip'' (Single (ap_id ap)) (sample_request\<lparr>dr_method := ''DELETE'', dr_body := JNull\<rparr>) s2 = (d, s3) \<and>
     d = Inr Proceed"
proof -
  have ok: "approval_ok (ag_approvals empty_agent_state)" by (simp add: empty_agent_state_def approval_ok_def)
  obtain ap s1 where h: "gateDestructive (\<lambda>x. x) 0 ''ip'' Absent sample_request empty_agent_state = (Inr (Held ap), s1)"
    and i: "ap_id ap = counter_id ''apr_'' 0 1"
    using sample_gate_facts
    by (simp add: gateDestructive_def sample_request_def approvalIdFrom_def requestApproval_def approval_create_def
        approval_input.defs approval.defs empty_agent_state_def Let_def)
  have head: "approvalIdFrom (Single (ap_id ap)) = Some (ap_id ap)"
    using counter_id_short i by (auto simp: approvalIdFrom_def)
  obtain r s2 where r: "decideApproval 10 (ap_id ap) True s1 = (r, s2)" by (meson surj_pair)
  obtain d s3 where d: "gateDestructive (\<lambda>x. x) 20 ''ip'' (Single (ap_id ap))
      (sample_request\<lparr>dr_method := ''DELETE'', dr_body := JNull\<rparr>) s2 = (d, s3)" by (meson surj_pair)
  obtain d' s4 where d': "gateDestructive (\<lambda>x. x) 30 ''ip'' (Single (ap_id ap))
      (sample_request\<lparr>dr_method := ''DELETE'', dr_body := JNull\<rparr>) s3 = (d', s4)" by (meson surj_pair)
  have "d = Inr Proceed"
    using approve_then_retry [OF ok h r _ head _ _ _ d d']
    by (simp add: APPROVAL_TTL_MS_def sample_request_def same_json.intros)
  with h r d show ?thesis by blast
qed

section \<open>Maintenance\<close>

lemma expired_idem: "expired (expired a) = expired a"
  by (simp add: expired_def)

lemma expire_fold:
  "approval_get (snd (fold (\<lambda>item (expired, aps).
       if ap_expiresAt item \<le> now then (expired + 1, snd (approval_markExpired (ap_id item) aps))
       else (expired, aps)) items (n, a))) j =
   (if \<exists>item\<in>set items. ap_expiresAt item \<le> now \<and> ap_id item = j
    then map_option expired (approval_get a j) else approval_get a j)"
proof (induction items arbitrary: n a)
  case (Cons x items)
  then show ?case
    by (auto simp: approvals.get_expire option.map_comp comp_def expired_idem)
qed simp

lemma listed_iff:
  assumes "approval_ok a"
  shows "x \<in> set (approval_listByOrganization org (Some Pending) a) \<longleftrightarrow>
    approval_get a (ap_id x) = Some x \<and> ap_organizationId x = org \<and> ap_status x = Pending"
proof
  assume x: "x \<in> set (approval_listByOrganization org (Some Pending) a)"
  then have v: "x \<in> set (js_values (as_approvals a))" by (auto simp: approval_listByOrganization_def)
  have "js_ok (as_approvals a)" using assms by (simp add: approval_ok_def)
  from js_values_get [OF this v] obtain k where k: "js_get (as_approvals a) k = Some x" ..
  then have "ap_id x = k" using assms by (auto simp: approval_ok_def)
  with k x show "approval_get a (ap_id x) = Some x \<and> ap_organizationId x = org \<and> ap_status x = Pending"
    by (auto simp: approval_listByOrganization_def approval_get_def)
next
  assume "approval_get a (ap_id x) = Some x \<and> ap_organizationId x = org \<and> ap_status x = Pending"
  then show "x \<in> set (approval_listByOrganization org (Some Pending) a)"
    using js_get_values [of "as_approvals a" "ap_id x" x]
    by (auto simp: approval_listByOrganization_def approval_get_def)
qed

definition swept :: "instant \<Rightarrow> string set \<Rightarrow> approval \<Rightarrow> approval" where
  "swept now orgs x = (if ap_organizationId x \<in> orgs \<and> ap_expiresAt x \<le> now then expired x else x)"

lemma expire_stale_get:
  assumes "approval_ok a"
  shows "approval_get (snd (expire_stale now org (n, a))) j = map_option (swept now {org}) (approval_get a j)"
proof -
  let ?L = "set (approval_listByOrganization org (Some Pending) a)"
  have key: "ap_id x = i" if "approval_get a i = Some x" for i x
    using assms that by (auto simp: approval_ok_def approval_get_def)
  have "(\<exists>item\<in>?L. ap_expiresAt item \<le> now \<and> ap_id item = j) \<longleftrightarrow>
      (\<exists>x. approval_get a j = Some x \<and> ap_organizationId x = org \<and> ap_status x = Pending \<and> ap_expiresAt x \<le> now)"
    unfolding Bex_def listed_iff [OF assms] using key by metis
  then show ?thesis
    unfolding expire_stale_def snd_conv expire_fold
    by (cases "approval_get a j") (auto simp: swept_def expired_def)
qed

lemma sweep_get:
  assumes "approval_ok a"
  shows "approval_get (snd (fold (expire_stale now) orgs (n, a))) j = map_option (swept now (set orgs)) (approval_get a j)"
  using assms
proof (induction orgs arbitrary: n a)
  case Nil
  then show ?case by (simp add: swept_def option.map_ident)
next
  case (Cons org orgs)
  obtain n' a' where e: "expire_stale now org (n, a) = (n', a')" by (cases "expire_stale now org (n, a)")
  have "approval_ok a'" using approvals.ok_uses [OF uses_maintenance_item Cons.prems, of now org n] e by simp
  then have "approval_get (snd (fold (expire_stale now) (org # orgs) (n, a))) j =
      map_option (swept now (set orgs)) (approval_get a' j)"
    using Cons.IH e by simp
  also have "approval_get a' j = map_option (swept now {org}) (approval_get a j)"
    using expire_stale_get [OF Cons.prems, of now org n j] e by simp
  finally show ?case
    by (cases "approval_get a j") (auto simp: swept_def expired_def)
qed

lemma sweep_idle:
  assumes "approval_ok a"
    and "\<And>i x. approval_get a i = Some x \<Longrightarrow> ap_organizationId x \<in> set orgs \<Longrightarrow> ap_status x = Pending \<Longrightarrow> now < ap_expiresAt x"
  shows "fold (expire_stale now) orgs (n, a) = (n, a)"
proof -
  have noop: "fold (\<lambda>item (expired, aps).
       if ap_expiresAt item \<le> now then (expired + 1, snd (approval_markExpired (ap_id item) aps))
       else (expired, aps)) items (n, a) = (n, a)" if "\<forall>x\<in>set items. now < ap_expiresAt x" for items
    using that by (induction items) auto
  have "expire_stale now org (n, a) = (n, a)" if "org \<in> set orgs" for org
    unfolding expire_stale_def snd_conv
  proof (rule noop, rule ballI)
    fix x assume x: "x \<in> set (approval_listByOrganization org (Some Pending) a)"
    then have "approval_get a (ap_id x) = Some x" "ap_organizationId x = org" "ap_status x = Pending"
      by (simp_all add: listed_iff [OF assms(1)])
    then show "now < ap_expiresAt x" using assms(2) that by blast
  qed
  then show ?thesis by (induction orgs) auto
qed

text \<open>
  Maintenance is complete and idempotent: afterwards no request of a listed organization is pending past
  its expiry, no activity entry is older than the retention, every other request and entry is kept unchanged,
  and running it again at the same time finds nothing to do.
\<close>

theorem maintenance_complete:
  assumes "approval_ok (ag_approvals s)" and "length orgs \<le> 10000"
    and "runMaintenance now orgs (Some days) s = (counts, s')"
  shows "(\<forall>i. approval_get (ag_approvals s') i = map_option (swept now (set orgs)) (approval_get (ag_approvals s) i)) \<and>
    set (av_entries (ag_activity s')) =
      {e \<in> set (av_entries (ag_activity s)). now - days * 86400000 \<le> ac_createdAt e} \<and>
    runMaintenance now orgs (Some days) s' = ((0, 0), s')"
proof -
  let ?cut = "now - days * 86400000"
  obtain e a where f: "fold (expire_stale now) orgs (0, ag_approvals s) = (e, a)" by (meson surj_pair)
  have s': "ag_approvals s' = a" "ag_activity s' = snd (activity_prune ?cut (ag_activity s))"
    using assms(2,3) f by (auto simp: runMaintenance_def Let_def case_prod_beta)
  have get: "approval_get a i = map_option (swept now (set orgs)) (approval_get (ag_approvals s) i)" for i
    using sweep_get [OF assms(1), of now orgs 0 i] f by simp
  have ok: "approval_ok a"
    using approvals.ok_uses [OF uses_maintenance assms(1), of now orgs "Some days"] assms(3) s' by simp
  have idle: "fold (expire_stale now) orgs (0, a) = (0, a)"
  proof (rule sweep_idle [OF ok])
    fix i x assume x: "approval_get a i = Some x" "ap_organizationId x \<in> set orgs" "ap_status x = Pending"
    then obtain y where "x = swept now (set orgs) y" using get [of i] by (metis map_option_eq_Some)
    then show "now < ap_expiresAt x"
      using x(2,3) unfolding swept_def expired_def by (cases "ap_expiresAt y \<le> now") (auto split: if_splits)
  qed
  have again: "activity_prune ?cut (ag_activity s') = (0, ag_activity s')"
    using s'(2) by (simp add: activity_prune_def Let_def)
  have "runMaintenance now orgs (Some days) s' = ((0, 0), s')"
    using assms(2) s'(1) idle again by (simp add: runMaintenance_def)
  moreover have "set (av_entries (ag_activity s')) = {e \<in> set (av_entries (ag_activity s)). ?cut \<le> ac_createdAt e}"
    unfolding s'(2) activity_prune_def Let_def by simp
  moreover have "approval_get (ag_approvals s') i = map_option (swept now (set orgs)) (approval_get (ag_approvals s) i)" for i
    unfolding s'(1) by (rule get)
  ultimately show ?thesis by (intro conjI allI)
qed

theorem maintenance_complete_witness:
  "\<exists>counts s'. runMaintenance 200 [''o1''] (Some 1) (sample_approvals Pending) = (counts, s') \<and>
     approval_get (ag_approvals s') (counter_id ''apr_'' 0 1) = Some (sample_approval Expired)"
proof -
  obtain counts s' where r: "runMaintenance 200 [''o1''] (Some 1) (sample_approvals Pending) = (counts, s')"
    by (meson surj_pair)
  have "approval_get (ag_approvals (sample_approvals Pending)) (counter_id ''apr_'' 0 1) = Some (sample_approval Pending)"
    by (simp add: approval_get_def sample_approvals_def)
  moreover have "swept 200 (set [''o1'']) (sample_approval Pending) = sample_approval Expired"
    by (simp add: swept_def expired_def sample_approval_def)
  ultimately have "approval_get (ag_approvals s') (counter_id ''apr_'' 0 1) = Some (sample_approval Expired)"
    using maintenance_complete [OF sample_approvals_ok _ r, THEN conjunct1, rule_format, of "counter_id ''apr_'' 0 1"]
    by simp
  with r show ?thesis by blast
qed

end
