(* ===== verification/Calendar.thy ===== *)
theory Calendar
  imports JsStrings
begin

text \<open>
  UTC calendar fields of a time in milliseconds, as ECMAScript defines them: years of 365 or 366 days from
  \<open>DayFromYear\<close>, months by their cumulative lengths, and \<open>Date.UTC\<close> for the first of a month.
\<close>

section \<open>Years\<close>

definition ms_day :: int where "ms_day = 86400000"

definition is_leap :: "int \<Rightarrow> bool" where
  "is_leap y \<longleftrightarrow> y mod 4 = 0 \<and> (y mod 100 \<noteq> 0 \<or> y mod 400 = 0)"

definition day_from_year :: "int \<Rightarrow> int" where
  "day_from_year y = 365 * (y - 1970) + (y - 1969) div 4 - (y - 1901) div 100 + (y - 1601) div 400"

lemma div_step:
  fixes x k :: int
  assumes "0 < k"
  shows "(x + 1) div k = x div k + (if (x + 1) mod k = 0 then 1 else 0)"
proof -
  have x: "x = k * (x div k) + x mod k" and r: "0 \<le> x mod k" "x mod k < k" using assms by simp_all
  show ?thesis
  proof (cases "x mod k = k - 1")
    case True
    have e: "x + 1 = k * (x div k + 1) + 0" unfolding distrib_left using x True by linarith
    have "(x + 1) div k = x div k + 1" by (rule int_div_pos_eq [OF e]) (use assms in simp_all)
    moreover have "(x + 1) mod k = 0" by (rule int_mod_pos_eq [OF e]) (use assms in simp_all)
    ultimately show ?thesis by simp
  next
    case False
    have e: "x + 1 = k * (x div k) + (x mod k + 1)" using x by linarith
    have l: "0 \<le> x mod k + 1" "x mod k + 1 < k" using r False by linarith+
    have "(x + 1) div k = x div k" by (rule int_div_pos_eq [OF e l])
    moreover have "(x + 1) mod k = x mod k + 1" by (rule int_mod_pos_eq [OF e l])
    ultimately show ?thesis using r by simp
  qed
qed

lemma mod_shift: "(x - k * q) mod k = x mod (k::int)"
  by (metis mod_mult_self2 diff_conv_add_uminus mult_minus_right)

lemma year_length: "day_from_year (y + 1) = day_from_year y + (if is_leap y then 366 else 365)"
proof -
  have a: "(y - 1968) div 4 = (y - 1969) div 4 + (if y mod 4 = 0 then 1 else 0)"
    using div_step [of 4 "y - 1969"] mod_shift [of y 4 492] by simp
  have b: "(y - 1900) div 100 = (y - 1901) div 100 + (if y mod 100 = 0 then 1 else 0)"
    using div_step [of 100 "y - 1901"] mod_shift [of y 100 19] by simp
  have c: "(y - 1600) div 400 = (y - 1601) div 400 + (if y mod 400 = 0 then 1 else 0)"
    using div_step [of 400 "y - 1601"] mod_shift [of y 400 4] by simp
  have m: "y mod 400 = 0 \<Longrightarrow> y mod 100 = 0" "y mod 100 = 0 \<Longrightarrow> y mod 4 = 0"
    using mod_mod_cancel [of 100 400 y] mod_mod_cancel [of 4 100 y] by simp_all
  have s: "y + 1 - 1969 = y - 1968" "y + 1 - 1901 = y - 1900" "y + 1 - 1601 = y - 1600" by simp_all
  show ?thesis
    unfolding day_from_year_def s a b c is_leap_def
    by (cases "y mod 400 = 0"; cases "y mod 100 = 0"; cases "y mod 4 = 0") (use m in simp_all)
qed

lemma year_bounds: "365 \<le> day_from_year (y + 1) - day_from_year y" "day_from_year (y + 1) - day_from_year y \<le> 366"
  by (simp_all add: year_length)

lemma day_from_year_1970 [simp]: "day_from_year 1970 = 0"
  by (simp add: day_from_year_def)

lemma years_after: "day_from_year (y + int n) \<le> day_from_year y + 366 * int n"
proof (induction n)
  case (Suc n)
  then show ?case using year_bounds(2) [of "y + int n"] by (simp add: algebra_simps)
qed simp

lemma years_before: "day_from_year (y - int n) \<le> day_from_year y - 365 * int n"
proof (induction n)
  case (Suc n)
  have "y - int (Suc n) + 1 = y - int n" by simp
  then show ?case using Suc year_bounds(1) [of "y - int (Suc n)"] by simp
qed simp

lemma day_from_year_mono: "y \<le> z \<Longrightarrow> day_from_year y + 365 * (z - y) \<le> day_from_year z"
  using years_before [of z "nat (z - y)"] by simp

text \<open>\<open>YearFromTime\<close>: the largest year that has begun, searched upwards from a year that has begun.\<close>

function year_search :: "int \<Rightarrow> int \<Rightarrow> int" where
  "year_search d y = (if day_from_year (y + 1) \<le> d then year_search d (y + 1) else y)"
  by auto
termination
proof (relation "measure (\<lambda>(d, y). nat (d - day_from_year y))")
  fix d y :: int
  assume "day_from_year (y + 1) \<le> d"
  then show "((d, y + 1), (d, y)) \<in> measure (\<lambda>(d, y). nat (d - day_from_year y))"
    using year_bounds(1) [of y] by simp
qed simp

declare year_search.simps [simp del]

definition year_of_day :: "int \<Rightarrow> int" where
  "year_of_day d = year_search d (1970 + (if 0 \<le> d then d div 366 else d div 365))"

lemma year_search_correct:
  "day_from_year y \<le> d \<Longrightarrow> day_from_year (year_search d y) \<le> d \<and> d < day_from_year (year_search d y + 1)"
proof (induction d y rule: year_search.induct)
  case (1 d y)
  then show ?case by (cases "day_from_year (y + 1) \<le> d") (simp_all add: year_search.simps [of d y])
qed

lemma year_of_day_correct:
  "day_from_year (year_of_day d) \<le> d" "d < day_from_year (year_of_day d + 1)"
proof -
  have "day_from_year (1970 + (if 0 \<le> d then d div 366 else d div 365)) \<le> d"
  proof (cases "0 \<le> d")
    case True
    have "366 * (d div 366) \<le> d" using mult_div_mod_eq [of 366 d] pos_mod_sign [of 366 d] by linarith
    moreover have "0 \<le> d div 366" using True by simp
    ultimately show ?thesis using years_after [of 1970 "nat (d div 366)"] True by simp
  next
    case False
    have "365 * (d div 365) \<le> d" using mult_div_mod_eq [of 365 d] pos_mod_sign [of 365 d] by linarith
    moreover have "d div 365 \<le> 0" using False by simp
    ultimately show ?thesis using years_before [of 1970 "nat (- (d div 365))"] False by simp
  qed
  from year_search_correct [OF this]
  show "day_from_year (year_of_day d) \<le> d" "d < day_from_year (year_of_day d + 1)"
    by (simp_all add: year_of_day_def)
qed

lemma year_of_day_unique: "day_from_year y \<le> d \<Longrightarrow> d < day_from_year (y + 1) \<Longrightarrow> year_of_day d = y"
  using year_of_day_correct [of d] day_from_year_mono [of "y + 1" "year_of_day d"]
    day_from_year_mono [of "year_of_day d + 1" y]
  by (cases "y + 1 \<le> year_of_day d"; cases "year_of_day d + 1 \<le> y") simp_all

section \<open>Months and days\<close>

text \<open>Days of the year before each month, January first; the thirteenth entry is the year's length.\<close>

definition month_starts :: "bool \<Rightarrow> int list" where
  "month_starts leap =
     (if leap then [0, 31, 60, 91, 121, 152, 182, 213, 244, 274, 305, 335, 366]
      else [0, 31, 59, 90, 120, 151, 181, 212, 243, 273, 304, 334, 365])"

definition month_start :: "int \<Rightarrow> nat \<Rightarrow> int" where
  "month_start y m = day_from_year y + month_starts (is_leap y) ! m"

definition day_in_year :: "int \<Rightarrow> int" where
  "day_in_year d = d - day_from_year (year_of_day d)"

text \<open>\<open>getUTCMonth\<close>, January is 0.\<close>

definition month_of_day :: "int \<Rightarrow> nat" where
  "month_of_day d =
     length (filter (\<lambda>st. st \<le> day_in_year d) (take 12 (month_starts (is_leap (year_of_day d))))) - 1"

definition utc_day :: "instant \<Rightarrow> int" where "utc_day t = t div ms_day"
definition utc_year :: "instant \<Rightarrow> int" where "utc_year t = year_of_day (utc_day t)"
definition utc_month :: "instant \<Rightarrow> nat" where "utc_month t = month_of_day (utc_day t)"

definition utc_date :: "instant \<Rightarrow> int" where
  "utc_date t = utc_day t - month_start (utc_year t) (utc_month t) + 1"

definition utc_weekday :: "instant \<Rightarrow> int" where "utc_weekday t = (utc_day t + 4) mod 7"
definition utc_hours :: "instant \<Rightarrow> int" where "utc_hours t = t div 3600000 mod 24"
definition utc_minutes :: "instant \<Rightarrow> int" where "utc_minutes t = t div 60000 mod 60"

text \<open>\<open>Date.UTC(y, m, 1)\<close> for a month index in range.\<close>

definition utc_first :: "int \<Rightarrow> nat \<Rightarrow> instant" where
  "utc_first y m = month_start y m * ms_day"

lemma filter_le_prefix:
  fixes xs :: "int list"
  assumes "sorted_wrt (<) xs" and "k < length xs" and "xs ! k \<le> v" and "Suc k < length xs \<Longrightarrow> v < xs ! Suc k"
  shows "length (filter (\<lambda>st. st \<le> v) xs) = Suc k"
proof -
  have "x \<le> v" if "x \<in> set (take (Suc k) xs)" for x
  proof -
    from that obtain i where i: "i < Suc k" "x = xs ! i" using assms(2) by (auto simp: in_set_conv_nth)
    then have "i = k \<or> xs ! i < xs ! k" using assms(1,2) by (metis less_SucE sorted_wrt_nth_less)
    then show ?thesis using i assms(3) by auto
  qed
  moreover have "\<not> x \<le> v" if "x \<in> set (drop (Suc k) xs)" for x
  proof -
    from that obtain i where "i < length (drop (Suc k) xs)" "x = drop (Suc k) xs ! i"
      by (metis in_set_conv_nth)
    then have i: "Suc k + i < length xs" "x = xs ! (Suc k + i)" using assms(2) by auto
    then have "i = 0 \<or> xs ! Suc k < xs ! (Suc k + i)"
      using assms(1) sorted_wrt_nth_less [of "(<)" xs "Suc k" "Suc k + i"] by auto
    then show ?thesis using i assms(4) by auto
  qed
  ultimately have "filter (\<lambda>st. st \<le> v) (take (Suc k) xs @ drop (Suc k) xs) = take (Suc k) xs"
    unfolding filter_append by (simp add: filter_True filter_False)
  then show ?thesis using assms(2) by simp
qed

lemma month_starts_sorted: "sorted_wrt (<) (take 12 (month_starts l))"
  by (simp add: month_starts_def)

lemma month_of_day_unique:
  assumes "m < 12" and "month_start (year_of_day d) m \<le> d" and "d < month_start (year_of_day d) (Suc m)"
  shows "month_of_day d = m"
proof -
  let ?l = "is_leap (year_of_day d)"
  have "length (filter (\<lambda>st. st \<le> day_in_year d) (take 12 (month_starts ?l))) = Suc m"
  proof (rule filter_le_prefix [OF month_starts_sorted])
    show "m < length (take 12 (month_starts ?l))" using assms(1) by (simp add: month_starts_def)
    show "take 12 (month_starts ?l) ! m \<le> day_in_year d"
      using assms(1,2) by (simp add: month_start_def day_in_year_def)
    assume "Suc m < length (take 12 (month_starts ?l))"
    then have "Suc m < 12" by simp
    then show "day_in_year d < take 12 (month_starts ?l) ! Suc m"
      using assms(3) by (simp add: month_start_def day_in_year_def)
  qed
  then show ?thesis by (simp add: month_of_day_def)
qed

lemma month_start_0 [simp]: "month_start y 0 = day_from_year y"
  by (simp add: month_start_def month_starts_def)

lemma month_start_12: "month_start y 12 = month_start (y + 1) 0"
  by (simp add: month_start_def month_starts_def year_length)

lemma month_exists:
  fixes f :: "nat \<Rightarrow> int"
  shows "f 0 \<le> d \<Longrightarrow> d < f n \<Longrightarrow> \<exists>m<n. f m \<le> d \<and> d < f (Suc m)"
proof (induction n)
  case (Suc n)
  then show ?case by (cases "d < f n") (auto simp: less_Suc_eq)
qed simp

lemma month_of_day_correct:
  "month_of_day d < 12" "month_start (year_of_day d) (month_of_day d) \<le> d"
  "d < month_start (year_of_day d) (Suc (month_of_day d))"
proof -
  have "\<exists>m<12. month_start (year_of_day d) m \<le> d \<and> d < month_start (year_of_day d) (Suc m)"
    using year_of_day_correct [of d] by (intro month_exists) (simp_all add: month_start_12)
  then obtain m where m: "m < 12" "month_start (year_of_day d) m \<le> d" "d < month_start (year_of_day d) (Suc m)" by blast
  then have "month_of_day d = m" by (rule month_of_day_unique)
  with m show "month_of_day d < 12" "month_start (year_of_day d) (month_of_day d) \<le> d"
    "d < month_start (year_of_day d) (Suc (month_of_day d))" by simp_all
qed

text \<open>A time lies in its month; the first of a month has that month's fields.\<close>

lemma utc_month_brackets:
  "utc_first (utc_year t) (utc_month t) \<le> t \<and>
   t < (if utc_month t = 11 then utc_first (utc_year t + 1) 0 else utc_first (utc_year t) (Suc (utc_month t)))"
proof -
  let ?d = "utc_day t"
  have lo: "month_start (utc_year t) (utc_month t) \<le> ?d" and hi: "?d + 1 \<le> month_start (utc_year t) (Suc (utc_month t))"
    using month_of_day_correct [of ?d] by (simp_all add: utc_year_def utc_month_def)
  have t: "?d * ms_day \<le> t" "t < (?d + 1) * ms_day"
    using mult_div_mod_eq [of ms_day t] pos_mod_bound [of ms_day t] pos_mod_sign [of ms_day t]
    by (simp_all add: utc_day_def ms_day_def algebra_simps)
  have "month_start (utc_year t) (utc_month t) * ms_day \<le> ?d * ms_day"
    using lo by (simp add: ms_day_def)
  moreover have "(?d + 1) * ms_day \<le> month_start (utc_year t) (Suc (utc_month t)) * ms_day"
    using hi by (intro mult_right_mono) (simp_all add: ms_day_def)
  moreover have "utc_month t = 11 \<Longrightarrow> month_start (utc_year t) (Suc (utc_month t)) = month_start (utc_year t + 1) 0"
    using month_start_12 [of "utc_year t"] by (simp add: eval_nat_numeral)
  ultimately show ?thesis using t by (auto simp: utc_first_def)
qed

lemma utc_month_range: "utc_month t < 12"
  by (simp add: utc_month_def month_of_day_correct)

lemma month_start_less: "m < 12 \<Longrightarrow> month_start y m < month_start y (Suc m)"
proof -
  assume "m < 12"
  then have "m \<in> set [0..<12]" by simp
  moreover have "\<forall>m\<in>set [0..<12]. month_starts l ! m < month_starts l ! Suc m" for l
    by (cases l) (simp_all add: month_starts_def upt_rec)
  ultimately show ?thesis by (simp add: month_start_def)
qed

lemma utc_first_fields: "m < 12 \<Longrightarrow> utc_year (utc_first y m) = y \<and> utc_month (utc_first y m) = m \<and> utc_date (utc_first y m) = 1"
proof -
  assume m: "m < 12"
  have day: "utc_day (utc_first y m) = month_start y m" by (simp add: utc_day_def utc_first_def ms_day_def)
  have "0 \<le> month_starts l ! m \<and> month_starts l ! m < (if l then 366 else 365)" for l
  proof -
    have "\<forall>m\<in>set [0..<12]. 0 \<le> month_starts l ! m \<and> month_starts l ! m < (if l then 366 else 365)"
      by (cases l) (simp_all add: month_starts_def upt_rec)
    then show ?thesis using m by auto
  qed
  then have "year_of_day (month_start y m) = y"
    by (intro year_of_day_unique) (auto simp: month_start_def year_length)
  moreover from this have "month_of_day (month_start y m) = m"
    using m month_start_less [OF m] by (intro month_of_day_unique) simp_all
  ultimately show ?thesis using day by (simp add: utc_year_def utc_month_def utc_date_def)
qed

section \<open>Date.UTC\<close>

text \<open>\<open>Date.UTC(y, m, 1)\<close> takes a year from 0 to 99 as one of the twentieth century.\<close>

definition date_utc :: "int \<Rightarrow> nat \<Rightarrow> instant" where
  "date_utc y m = utc_first (if 0 \<le> y \<and> y \<le> 99 then 1900 + y else y) m"

section \<open>ISO strings\<close>

text \<open>\<open>toISOString\<close> for the years 0 to 9999.\<close>

definition pad2 :: "int \<Rightarrow> string" where "pad2 n = pad_start 2 (CHR ''0'') (dec (nat n))"

definition iso_string :: "instant \<Rightarrow> string" where
  "iso_string t =
     pad_start 4 (CHR ''0'') (dec (nat (utc_year t))) @ ''-'' @ pad2 (int (utc_month t) + 1) @ ''-'' @ pad2 (utc_date t) @
     ''T'' @ pad2 (utc_hours t) @ '':'' @ pad2 (utc_minutes t) @ '':'' @ pad2 (t div 1000 mod 60) @ ''.'' @
     pad_start 3 (CHR ''0'') (dec (nat (t mod 1000))) @ ''Z''"

end
