(* ===== verification/Cron.thy ===== *)
theory Cron
  imports Calendar JsStrings
begin

text \<open>
  Five-field cron expressions (\<open>packages/automation/src/cron.ts\<close>): parsing and the minute-by-minute scan
  for the next run.  A field's \<open>Set\<close> is the list of its values in insertion order.  Numbers are exact
  integers (the code's values beyond 2^53 are out of every range anyway).
\<close>

section \<open>Parsing\<close>

record cron_fields =
  cf_minute :: "int list"
  cf_hour :: "int list"
  cf_dom :: "int list"
  cf_month :: "int list"
  cf_dow :: "int list"

abbreviation cron_error :: error where
  "cron_error \<equiv> ApiError VALIDATION_ERROR 400"

text \<open>\<open>RANGES\<close>, in the order of the fields.\<close>

definition RANGES :: "(int \<times> int) list" where
  "RANGES = [(0, 59), (0, 23), (1, 31), (1, 12), (0, 6)]"

definition set_add :: "int \<Rightarrow> int list \<Rightarrow> int list" where
  "set_add n out = (if n \<in> set out then out else out @ [n])"

definition add_value :: "int \<Rightarrow> int \<Rightarrow> int \<Rightarrow> int list \<Rightarrow> int list outcome" where
  "add_value mn mx n out = (if n < mn \<or> n > mx then Inl cron_error else Inr (set_add n out))"

text \<open>The loop \<open>for (n = min; n <= max; n += step) out.add(n)\<close> and the one that checks each value.\<close>

function add_star :: "int \<Rightarrow> int \<Rightarrow> int \<Rightarrow> int list \<Rightarrow> int list" where
  "add_star n mx step out = (if n > mx \<or> step < 1 then out else add_star (n + step) mx step (set_add n out))"
  by auto
termination by (relation "measure (\<lambda>(n, mx, step, out). nat (mx + 1 - n))") auto

function add_range :: "int \<Rightarrow> int \<Rightarrow> int \<Rightarrow> int \<Rightarrow> int \<Rightarrow> int list \<Rightarrow> int list outcome" where
  "add_range mn mx n hi step out =
     (if n > hi \<or> step < 1 then Inr out
      else case add_value mn mx n out of Inl e \<Rightarrow> Inl e | Inr out' \<Rightarrow> add_range mn mx (n + step) hi step out')"
  by auto
termination
  by (relation "measure (\<lambda>(mn, mx, n, hi, step, out). nat (hi + 1 - n))") auto

declare add_star.simps [simp del] add_range.simps [simp del]

definition parse_part :: "int \<Rightarrow> int \<Rightarrow> string \<Rightarrow> int list \<Rightarrow> int list outcome" where
  "parse_part mn mx part out =
     (let pieces = split_on (CHR ''/'') part;
          rng = pieces ! 0;
          step = (if length pieces < 2 then Some 1 else js_integer (pieces ! 1)) in
      case step of
        None \<Rightarrow> Inl cron_error
      | Some st \<Rightarrow>
          if st < 1 then Inl cron_error
          else if rng = ''*'' then Inr (add_star mn mx st out)
          else (let dash = split_on (CHR ''-'') rng; lo = js_integer (dash ! 0) in
            if length dash = 1 \<and> lo \<noteq> None
              then (if (the lo - mn) mod st = 0 then add_value mn mx (the lo) out else Inr out)
            else if length dash = 2 then
              (case (lo, js_integer (dash ! 1)) of
                 (Some l, Some h) \<Rightarrow> if l > h then Inl cron_error else add_range mn mx l h st out
               | _ \<Rightarrow> Inl cron_error)
            else Inl cron_error))"

fun parse_parts :: "int \<Rightarrow> int \<Rightarrow> string list \<Rightarrow> int list \<Rightarrow> int list outcome" where
  "parse_parts mn mx [] out = Inr out"
| "parse_parts mn mx (p # ps) out = and_then (parse_part mn mx p out) (parse_parts mn mx ps)"

definition parseField :: "string \<Rightarrow> int \<times> int \<Rightarrow> int list outcome" where
  "parseField raw bounds =
     and_then (parse_parts (fst bounds) (snd bounds) (split_on (CHR '','') raw) [])
       (\<lambda>out. if out = [] then Inl cron_error else Inr out)"

definition parseCron :: "string \<Rightarrow> cron_fields outcome" where
  "parseCron expr =
     (case split_spaces (js_trim expr) of
        [minute, hour, domRaw, month, dow] \<Rightarrow>
          and_then (parseField minute (RANGES ! 0)) (\<lambda>mi.
          and_then (parseField hour (RANGES ! 1)) (\<lambda>ho.
          and_then (parseField domRaw (RANGES ! 2)) (\<lambda>dm.
          and_then (parseField month (RANGES ! 3)) (\<lambda>mo.
          and_then (parseField dow (RANGES ! 4)) (\<lambda>dw.
            Inr \<lparr>cf_minute = mi, cf_hour = ho, cf_dom = dm, cf_month = mo, cf_dow = dw\<rparr>)))))
      | _ \<Rightarrow> Inl cron_error)"

section \<open>The next run\<close>

definition cron_matches :: "cron_fields \<Rightarrow> instant \<Rightarrow> bool" where
  "cron_matches f t \<longleftrightarrow>
     utc_minutes t \<in> set (cf_minute f) \<and> utc_hours t \<in> set (cf_hour f) \<and>
     utc_date t \<in> set (cf_dom f) \<and> int (utc_month t) + 1 \<in> set (cf_month f) \<and>
     utc_weekday t \<in> set (cf_dow f)"

fun scan_minutes :: "nat \<Rightarrow> cron_fields \<Rightarrow> instant \<Rightarrow> instant option" where
  "scan_minutes 0 f cursor = None"
| "scan_minutes (Suc i) f cursor =
     (if cron_matches f cursor then Some cursor else scan_minutes i f (cursor + 60000))"

text \<open>
  \<open>setUTCSeconds(0, 0)\<close> drops the seconds, \<open>setUTCMinutes(getUTCMinutes() + 1)\<close> adds one minute.
\<close>

definition nextRun :: "cron_fields \<Rightarrow> instant \<Rightarrow> instant option" where
  "nextRun f from = scan_minutes 525600 f (from div 60000 * 60000 + 60000)"

definition nextRunFor :: "string \<Rightarrow> instant \<Rightarrow> instant outcome" where
  "nextRunFor expr from =
     and_then (parseCron expr) (\<lambda>f. case nextRun f from of None \<Rightarrow> Inl cron_error | Some t \<Rightarrow> Inr t)"

section \<open>What parsing guarantees\<close>

definition in_range :: "int \<times> int \<Rightarrow> int list \<Rightarrow> bool" where
  "in_range r xs \<longleftrightarrow> distinct xs \<and> (\<forall>n\<in>set xs. fst r \<le> n \<and> n \<le> snd r)"

lemma set_add_range: "in_range (mn, mx) out \<Longrightarrow> mn \<le> n \<Longrightarrow> n \<le> mx \<Longrightarrow> in_range (mn, mx) (set_add n out)"
  by (auto simp: in_range_def set_add_def)

lemma add_value_range: "in_range (mn, mx) out \<Longrightarrow> add_value mn mx n out = Inr out' \<Longrightarrow> in_range (mn, mx) out'"
  by (auto simp: add_value_def set_add_range split: if_splits)

lemma add_star_range: "in_range (mn, mx) out \<Longrightarrow> mn \<le> n \<Longrightarrow> in_range (mn, mx) (add_star n mx step out)"
proof (induction n mx step out rule: add_star.induct)
  case (1 n mx step out)
  then show ?case by (subst add_star.simps) (simp add: set_add_range)
qed

lemma add_range_range:
  "in_range (mn, mx) out \<Longrightarrow> add_range mn mx n hi step out = Inr out' \<Longrightarrow> in_range (mn, mx) out'"
proof (induction mn mx n hi step out arbitrary: out' rule: add_range.induct)
  case (1 mn mx n hi step out)
  show ?case
  proof (cases "n > hi \<or> step < 1")
    case True
    with "1.prems" show ?thesis by (simp add: add_range.simps)
  next
    case False
    with "1.prems"(2) obtain o1 where o1: "add_value mn mx n out = Inr o1"
        "add_range mn mx (n + step) hi step o1 = Inr out'"
      by (subst (asm) add_range.simps) (auto split: sum.splits)
    with "1.IH" [OF False o1(1) add_value_range [OF "1.prems"(1) o1(1)]] show ?thesis by simp
  qed
qed

lemma parse_part_cases:
  assumes "parse_part mn mx p out = Inr out'"
  shows "out' = out \<or> (\<exists>st. out' = add_star mn mx st out) \<or> (\<exists>n. add_value mn mx n out = Inr out') \<or>
    (\<exists>l h st. add_range mn mx l h st out = Inr out')"
  using assms by (auto simp: parse_part_def Let_def split: option.splits if_splits)

lemma parse_part_range:
  assumes r: "in_range (mn, mx) out" and p: "parse_part mn mx p out = Inr out'"
  shows "in_range (mn, mx) out'"
  using parse_part_cases [OF p]
proof (elim disjE exE)
  show "in_range (mn, mx) out'" if "out' = out" using r that by simp
  show "in_range (mn, mx) out'" if "out' = add_star mn mx st out" for st
    unfolding that by (rule add_star_range [OF r order_refl])
  show "in_range (mn, mx) out'" if "add_value mn mx n out = Inr out'" for n by (rule add_value_range [OF r that])
  show "in_range (mn, mx) out'" if "add_range mn mx l h st out = Inr out'" for l h st by (rule add_range_range [OF r that])
qed

lemma parse_parts_range: "in_range (mn, mx) out \<Longrightarrow> parse_parts mn mx ps out = Inr out' \<Longrightarrow> in_range (mn, mx) out'"
proof (induction ps arbitrary: out)
  case (Cons p ps)
  from Cons.prems(2) obtain o1 where "parse_part mn mx p out = Inr o1" "parse_parts mn mx ps o1 = Inr out'"
    by (auto simp: and_then_Inr)
  with Cons.IH parse_part_range [OF Cons.prems(1)] show ?case by blast
qed simp

lemma parseField_range: "parseField raw r = Inr out \<Longrightarrow> in_range r out \<and> out \<noteq> []"
  using parse_parts_range [of "fst r" "snd r" "[]"]
  by (auto simp: parseField_def and_then_Inr in_range_def split: if_splits)

definition wf_cron :: "cron_fields \<Rightarrow> bool" where
  "wf_cron f \<longleftrightarrow>
     list_all2 (\<lambda>r xs. in_range r xs \<and> xs \<noteq> []) RANGES [cf_minute f, cf_hour f, cf_dom f, cf_month f, cf_dow f]"

lemma parseCron_fields_wf: "parseCron expr = Inr f \<Longrightarrow> wf_cron f"
proof -
  assume "parseCron expr = Inr f"
  then obtain a b c d e where
    "parseField a (RANGES ! 0) = Inr (cf_minute f)" "parseField b (RANGES ! 1) = Inr (cf_hour f)"
    "parseField c (RANGES ! 2) = Inr (cf_dom f)" "parseField d (RANGES ! 3) = Inr (cf_month f)"
    "parseField e (RANGES ! 4) = Inr (cf_dow f)"
    by (auto simp: parseCron_def and_then_Inr split: list.splits)
  from this [THEN parseField_range] show ?thesis by (simp add: wf_cron_def RANGES_def)
qed

section \<open>What the scan finds\<close>

lemma scan_minutes_Some:
  "scan_minutes n f c = Some t \<longleftrightarrow>
     (\<exists>k<n. t = c + 60000 * int k \<and> cron_matches f t \<and> (\<forall>j<k. \<not> cron_matches f (c + 60000 * int j)))"
proof (induction n arbitrary: c)
  case (Suc n)
  show ?case
  proof (cases "cron_matches f c")
    case True
    have "k = 0" if "\<forall>j<k. \<not> cron_matches f (c + 60000 * int j)" for k
      using that [rule_format, of 0] True by (cases k) auto
    with True show ?thesis by (auto intro: exI [of _ 0])
  next
    case False
    have "(\<exists>k<Suc n. t = c + 60000 * int k \<and> cron_matches f t \<and> (\<forall>j<k. \<not> cron_matches f (c + 60000 * int j))) \<longleftrightarrow>
        (\<exists>k<n. t = (c + 60000) + 60000 * int k \<and> cron_matches f t \<and>
          (\<forall>j<k. \<not> cron_matches f ((c + 60000) + 60000 * int j)))"
      (is "?L \<longleftrightarrow> ?R")
    proof
      assume ?L
      then obtain k where k: "k < Suc n" "t = c + 60000 * int k" "cron_matches f t"
        "\<forall>j<k. \<not> cron_matches f (c + 60000 * int j)" by blast
      with False obtain m where m: "k = Suc m" by (cases k) auto
      have "\<not> cron_matches f ((c + 60000) + 60000 * int j)" if "j < m" for j
        using k(4) [rule_format, of "Suc j"] that m by (simp add: algebra_simps)
      with k m show ?R by (intro exI [of _ m]) (simp add: algebra_simps)
    next
      assume ?R
      then obtain k where k: "k < n" "t = (c + 60000) + 60000 * int k" "cron_matches f t"
        "\<forall>j<k. \<not> cron_matches f ((c + 60000) + 60000 * int j)" by blast
      have "\<not> cron_matches f (c + 60000 * int j)" if "j < Suc k" for j
      proof (cases j)
        case (Suc i)
        then show ?thesis using k(4) [rule_format, of i] that by (simp add: algebra_simps)
      qed (use False in simp)
      with k show ?L by (intro exI [of _ "Suc k"]) (simp add: algebra_simps)
    qed
    with False Suc.IH [of "c + 60000"] show ?thesis by simp
  qed
qed simp

text \<open>The minute boundaries after a time, by their distance in minutes.\<close>

lemma boundary_iff:
  "from < u \<and> u mod 60000 = 0 \<longleftrightarrow> (\<exists>k. u = from div 60000 * 60000 + 60000 + 60000 * int k)" (is "?L \<longleftrightarrow> ?R")
proof
  assume l: ?L
  define q where "q = u div 60000"
  have u: "u = q * 60000" using l mult_div_mod_eq [of 60000 u] by (simp add: q_def)
  have "from div 60000 < q" using l u by (simp add: div_less_iff_less_mult)
  then have "u = from div 60000 * 60000 + 60000 + 60000 * int (nat (q - from div 60000 - 1))" using u by simp
  then show ?R by blast
next
  assume ?R
  then obtain k where k: "u = from div 60000 * 60000 + 60000 + 60000 * int k" by blast
  then have "u = (from div 60000 + 1 + int k) * 60000" by (simp add: algebra_simps)
  then have "u mod 60000 = 0" by simp
  moreover have "from < from div 60000 * 60000 + 60000"
    using mult_div_mod_eq [of 60000 "from"] pos_mod_bound [of 60000 "from"] by linarith
  ultimately show ?L using k by simp
qed

lemma boundary_distance:
  assumes "from < u" and "u mod 60000 = 0"
  obtains k where "u = from div 60000 * 60000 + 60000 + 60000 * int k"
proof -
  have "from < u \<and> u mod 60000 = 0" using assms by simp
  from this [unfolded boundary_iff] that show ?thesis by (elim exE)
qed

lemma nextRun_spec:
  "nextRun f from = Some t \<longleftrightarrow>
     from < t \<and> t mod 60000 = 0 \<and> t \<le> from div 60000 * 60000 + 525600 * 60000 \<and> cron_matches f t \<and>
     (\<forall>u. from < u \<and> u < t \<and> u mod 60000 = 0 \<longrightarrow> \<not> cron_matches f u)" (is "?L \<longleftrightarrow> ?R")
proof
  assume ?L
  then obtain k where k: "k < 525600" "t = from div 60000 * 60000 + 60000 + 60000 * int k" "cron_matches f t"
    "\<forall>j<k. \<not> cron_matches f (from div 60000 * 60000 + 60000 + 60000 * int j)"
    unfolding nextRun_def scan_minutes_Some by blast
  have "\<not> cron_matches f u" if u: "from < u" "u < t" "u mod 60000 = 0" for u
  proof -
    obtain j where j: "u = from div 60000 * 60000 + 60000 + 60000 * int j" using boundary_distance [OF u(1,3)] .
    with k(2) u(2) have "j < k" by simp
    with k(4) j show ?thesis by simp
  qed
  moreover have "from < t \<and> t mod 60000 = 0" using boundary_iff [of "from" t] k(2) by blast
  ultimately show ?R using k by auto
next
  assume r: ?R
  then have b: "from < t" "t mod 60000 = 0" by simp_all
  obtain k where k: "t = from div 60000 * 60000 + 60000 + 60000 * int k" using boundary_distance [OF b] .
  have "\<not> cron_matches f (from div 60000 * 60000 + 60000 + 60000 * int j)" if "j < k" for j
  proof -
    have "from < from div 60000 * 60000 + 60000 + 60000 * int j \<and> (from div 60000 * 60000 + 60000 + 60000 * int j) mod 60000 = 0"
      unfolding boundary_iff by blast
    then show ?thesis using r k that by simp
  qed
  moreover have "k < 525600" using r k by simp
  ultimately show ?L unfolding nextRun_def scan_minutes_Some using k r by blast
qed

lemma nextRun_None:
  assumes "nextRun f from = None" and "from < u" and "u mod 60000 = 0"
    and "u \<le> from div 60000 * 60000 + 525600 * 60000"
  shows "\<not> cron_matches f u"
proof
  assume m: "cron_matches f u"
  obtain k where k: "u = from div 60000 * 60000 + 60000 + 60000 * int k" using boundary_distance [OF assms(2,3)] .
  define j where "j = (LEAST j. cron_matches f (from div 60000 * 60000 + 60000 + 60000 * int j))"
  have mj: "cron_matches f (from div 60000 * 60000 + 60000 + 60000 * int j)"
    unfolding j_def by (rule LeastI [of _ k]) (use m k in simp)
  have "j \<le> k" unfolding j_def by (rule Least_le) (use m k in simp)
  moreover have "k < 525600" using assms(4) k by simp
  moreover have "\<forall>i<j. \<not> cron_matches f (from div 60000 * 60000 + 60000 + 60000 * int i)"
    unfolding j_def by (blast dest: not_less_Least)
  ultimately have "nextRun f from = Some (from div 60000 * 60000 + 60000 + 60000 * int j)"
    unfolding nextRun_def scan_minutes_Some using mj by (intro exI [of _ j]) simp
  with assms(1) show False by simp
qed

section \<open>Properties\<close>

definition sample_cron :: cron_fields where
  "sample_cron = \<lparr>cf_minute = [0, 30], cf_hour = [9], cf_dom = [1..31], cf_month = [1..12], cf_dow = [1, 2, 3]\<rparr>"

lemma parse_sample_cron: "parseCron ''*/30 9 * * 1-3'' = Inr sample_cron"
  by code_simp

text \<open>
  An accepted expression has five non-empty fields of distinct values, each within its field's range.
\<close>

theorem parseCron_wf:
  assumes "parseCron expr = Inr f"
  shows "wf_cron f"
  by (rule parseCron_fields_wf [OF assms])

theorem parseCron_wf_witness: "wf_cron sample_cron"
  by (rule parseCron_wf [OF parse_sample_cron])

text \<open>
  C25. \<open>nextRun\<close> is exact: its answer is the first minute boundary strictly after the given time whose UTC fields
  match, and it answers nothing only when no boundary in the following 525600 minutes matches.
\<close>

theorem nextRun_first_match:
  "case nextRun f from of
     Some t \<Rightarrow> from < t \<and> t mod 60000 = 0 \<and> cron_matches f t \<and>
       {u. from < u \<and> u < t \<and> u mod 60000 = 0 \<and> cron_matches f u} = {}
   | None \<Rightarrow> {u. from < u \<and> u mod 60000 = 0 \<and> u \<le> from div 60000 * 60000 + 525600 * 60000 \<and> cron_matches f u} = {}"
proof (cases "nextRun f from")
  case None
  then show ?thesis using nextRun_None [OF None] by auto
next
  case (Some t)
  then show ?thesis using nextRun_spec [of f "from" t] by auto
qed

text \<open>Fields of the times of one day.\<close>

lemma utc_fields_at:
  assumes "0 \<le> h" and "h < 24" and "0 \<le> m" and "m < 60"
  shows "utc_day (d * ms_day + h * 3600000 + m * 60000) = d"
    and "utc_hours (d * ms_day + h * 3600000 + m * 60000) = h"
    and "utc_minutes (d * ms_day + h * 3600000 + m * 60000) = m"
proof -
  let ?t = "d * ms_day + h * 3600000 + m * 60000"
  show "utc_day ?t = d" unfolding utc_day_def
    by (rule int_div_pos_eq [where r = "h * 3600000 + m * 60000"]) (use assms in \<open>simp_all add: ms_day_def\<close>)
  have "?t div 3600000 = d * 24 + h"
    by (rule int_div_pos_eq [where r = "m * 60000"]) (use assms in \<open>simp_all add: ms_day_def\<close>)
  then show "utc_hours ?t = h" using assms by (simp add: utc_hours_def)
  have "?t div 60000 = (d * 24 + h) * 60 + m"
    by (rule int_div_pos_eq [where r = 0]) (simp_all add: ms_day_def)
  moreover have "((d * 24 + h) * 60 + m) mod 60 = m"
    by (rule int_mod_pos_eq [where q = "d * 24 + h"]) (use assms in simp_all)
  ultimately show "utc_minutes ?t = m" by (simp only: utc_minutes_def)
qed

lemma month_length: "m < 12 \<Longrightarrow> month_start y (Suc m) \<le> month_start y m + 31"
proof -
  assume "m < 12"
  then have "m \<in> set [0..<12]" by simp
  moreover have "\<forall>m\<in>set [0..<12]. month_starts l ! Suc m \<le> month_starts l ! m + 31" for l
    by (cases l) (simp_all add: month_starts_def upt_rec)
  ultimately show ?thesis by (simp add: month_start_def)
qed

lemma utc_date_range: "1 \<le> utc_date t" "utc_date t \<le> 31"
  using month_of_day_correct [of "utc_day t"] month_length [of "utc_month t" "utc_year t"]
  by (simp_all add: utc_date_def utc_year_def utc_month_def)

lemma weekday_within:
  fixes w d :: int
  assumes "0 \<le> w" and "w \<le> 6"
  shows "\<exists>e. d < e \<and> e \<le> d + 7 \<and> (e + 4) mod 7 = w"
proof (intro exI conjI)
  let ?k = "(w - (d + 5)) mod 7"
  have k: "0 \<le> ?k" "?k < 7" by simp_all
  show "d < d + 1 + ?k" "d + 1 + ?k \<le> d + 7" using k by linarith+
  have "d + 1 + ?k + 4 = (d + 5) + ?k" by simp
  also have "\<dots> mod 7 = (d + 5 + (w - (d + 5))) mod 7" by (rule mod_add_right_eq)
  finally have "(d + 1 + ?k + 4) mod 7 = w mod 7" by simp
  then show "(d + 1 + ?k + 4) mod 7 = w" using assms by simp
qed

text \<open>
  A schedule that restricts neither the day of the month nor the month always has a next run, within
  eight days: the one-year horizon never rejects it.
\<close>

theorem weekly_schedule_runs:
  assumes "wf_cron f" and "set (cf_dom f) = {1..31}" and "set (cf_month f) = {1..12}"
  shows "\<exists>t. nextRun f from = Some t \<and> t \<le> from + 8 * ms_day"
proof -
  define m h w where "m = hd (cf_minute f)" and "h = hd (cf_hour f)" and "w = hd (cf_dow f)"
  have ne: "cf_minute f \<noteq> []" "cf_hour f \<noteq> []" "cf_dow f \<noteq> []"
    and r: "in_range (0, 59) (cf_minute f)" "in_range (0, 23) (cf_hour f)" "in_range (0, 6) (cf_dow f)"
    using assms(1) by (simp_all add: wf_cron_def RANGES_def)
  have m: "m \<in> set (cf_minute f)" "0 \<le> m" "m \<le> 59"
    and h: "h \<in> set (cf_hour f)" "0 \<le> h" "h \<le> 23" and w: "w \<in> set (cf_dow f)" "0 \<le> w" "w \<le> 6"
    using ne r by (simp_all add: in_range_def m_def h_def w_def)
  let ?d = "utc_day from"
  obtain e where e: "?d < e" "e \<le> ?d + 7" "(e + 4) mod 7 = w" using weekday_within [OF w(2,3), of ?d] by blast
  define u where "u = e * ms_day + h * 3600000 + m * 60000"
  have f: "utc_day u = e" "utc_hours u = h" "utc_minutes u = m"
    using utc_fields_at [of h m e] h m by (simp_all add: u_def)
  have "cron_matches f u"
    using f e(3) m(1) h(1) w(1) assms(2,3) utc_date_range [of u] utc_month_range [of u]
    by (simp add: cron_matches_def utc_weekday_def)
  have day: "?d * ms_day \<le> from" "from < (?d + 1) * ms_day"
    using mult_div_mod_eq [of ms_day "from"] pos_mod_bound [of ms_day "from"] pos_mod_sign [of ms_day "from"]
    by (simp_all add: utc_day_def ms_day_def algebra_simps)
  have "(?d + 1) * ms_day \<le> e * ms_day" "e * ms_day \<le> (?d + 7) * ms_day"
    using e by (simp_all add: ms_day_def)
  then have lo: "from < u" and hi: "u \<le> from + 8 * ms_day"
    using day h m by (simp_all add: u_def ms_day_def algebra_simps)
  have "u = (e * 1440 + h * 60 + m) * 60000" by (simp add: u_def ms_day_def algebra_simps)
  then have u0: "u mod 60000 = 0" by simp
  have "from < from div 60000 * 60000 + 60000"
    using mult_div_mod_eq [of 60000 "from"] pos_mod_bound [of 60000 "from"] by linarith
  then have within: "u \<le> from div 60000 * 60000 + 525600 * 60000" using hi by (simp add: ms_day_def)
  obtain t where t: "nextRun f from = Some t"
    using nextRun_None [OF _ lo u0 within] \<open>cron_matches f u\<close> by (cases "nextRun f from") auto
  then have "t \<le> u" using nextRun_spec [of f "from" t] lo u0 \<open>cron_matches f u\<close> by force
  with t hi show ?thesis by auto
qed

theorem weekly_schedule_runs_witness: "\<exists>t. nextRun sample_cron 0 = Some t \<and> t \<le> 8 * ms_day"
proof -
  have "wf_cron sample_cron" by (rule parseCron_fields_wf [OF parse_sample_cron])
  then show ?thesis using weekly_schedule_runs [of sample_cron 0] by (simp add: sample_cron_def)
qed

definition leap_cron :: cron_fields where
  "leap_cron = \<lparr>cf_minute = [0], cf_hour = [0], cf_dom = [29], cf_month = [2], cf_dow = [0..6]\<rparr>"

lemma parse_leap_cron: "parseCron ''0 0 29 2 *'' = Inr leap_cron"
  by code_simp

lemma midnight: "utc_hours t = 0 \<Longrightarrow> utc_minutes t = 0 \<Longrightarrow> t mod 60000 = 0 \<Longrightarrow> t = utc_day t * ms_day"
proof -
  assume h: "utc_hours t = 0" and m: "utc_minutes t = 0" and s: "t mod 60000 = 0"
  have a: "t div 60000 div 60 = t div 3600000" and b: "t div 3600000 div 24 = t div ms_day"
    by (simp_all add: div_mult2_eq [symmetric] ms_day_def)
  have "t = 60000 * (t div 60000)" using s mult_div_mod_eq [of 60000 t] by linarith
  moreover have "t div 60000 = 60 * (t div 3600000)"
    using m mult_div_mod_eq [of 60 "t div 60000"] a by (simp add: utc_minutes_def)
  moreover have "t div 3600000 = 24 * (t div ms_day)"
    using h mult_div_mod_eq [of 24 "t div 3600000"] b by (simp add: utc_hours_def)
  ultimately have "t = 86400000 * (t div ms_day)" by linarith
  then show ?thesis by (simp add: utc_day_def ms_day_def mult.commute)
qed

lemma leap_mod4: "is_leap y \<Longrightarrow> y mod 4 = 0"
  by (simp add: is_leap_def)

lemma leap_gap: "is_leap y \<Longrightarrow> is_leap z \<Longrightarrow> y < z \<Longrightarrow> y + 4 \<le> z"
proof -
  assume "is_leap y" "is_leap z" "y < z"
  then have "y mod 4 = 0" "z mod 4 = 0" "y < z" by (simp_all add: leap_mod4)
  then show ?thesis by presburger
qed

lemma common_year: "is_leap y \<Longrightarrow> \<not> is_leap (y + 3)"
proof
  assume "is_leap y" "is_leap (y + 3)"
  then have "y mod 4 = 0" "(y + 3) mod 4 = 0" by (simp_all add: leap_mod4)
  then show False by presburger
qed

lemma leap_cron_None:
  assumes "is_leap y" and "utc_first y 1 + 28 * ms_day \<le> from" and "from < utc_first (y + 3) 2"
  shows "nextRunFor ''0 0 29 2 *'' from = Inl cron_error"
proof (cases "nextRun leap_cron from")
  case None
  then show ?thesis by (simp add: nextRunFor_def parse_leap_cron)
next
  case (Some t)
  note sp = nextRun_spec [of leap_cron "from" t, THEN iffD1, OF Some]
  let ?Y = "utc_year t"
  have mt: "utc_hours t = 0" "utc_minutes t = 0" "utc_date t = 29" "utc_month t = 1"
    using sp by (auto simp: cron_matches_def leap_cron_def)
  have t: "t = utc_day t * ms_day" by (rule midnight) (use sp mt in simp_all)
  have d: "utc_day t = day_from_year ?Y + 59"
    using mt(3,4) by (simp add: utc_date_def month_start_def month_starts_def split: if_splits)
  have "utc_day t < month_start ?Y 2"
    using month_of_day_correct(3) [of "utc_day t"] mt(4) by (simp add: utc_year_def utc_month_def eval_nat_numeral)
  then have leap: "is_leap ?Y" using d by (simp add: month_start_def month_starts_def split: if_splits)
  have n3: "\<not> is_leap (y + 3)" by (rule common_year [OF assms(1)])
  have fr: "(day_from_year y + 59) * ms_day \<le> from" "from < (day_from_year (y + 3) + 59) * ms_day"
    using assms n3 by (simp_all add: utc_first_def month_start_def month_starts_def ms_day_def algebra_simps)
  have "from div 60000 * 60000 \<le> from" using mult_div_mod_eq [of 60000 "from"] pos_mod_sign [of 60000 "from"] by linarith
  then have hi: "t \<le> from + 365 * ms_day" using sp by (simp add: ms_day_def)
  have "(day_from_year y + 59) * ms_day < utc_day t * ms_day" using fr(1) sp t by linarith
  then have gt: "day_from_year y < day_from_year ?Y" using d by (simp add: ms_day_def)
  have "utc_day t * ms_day < (day_from_year (y + 3) + 59 + 365) * ms_day"
    using hi fr(2) t by (simp add: ms_day_def)
  then have "day_from_year ?Y < day_from_year (y + 3) + 365" using d by (simp add: ms_day_def)
  moreover have "y < ?Y" using gt day_from_year_mono [of ?Y y] by (cases "y < ?Y") auto
  moreover have "day_from_year (y + 3 + 1) = day_from_year (y + 3) + 365"
    using n3 year_length [of "y + 3"] by simp
  ultimately have False
    using leap_gap [OF assms(1) leap] day_from_year_mono [of "y + 4" ?Y] by (simp add: add.assoc)
  then show ?thesis ..
qed

text \<open>
  The leap-day schedule \<open>0 0 29 2 *\<close> is well formed, but from a leap day until 1 March three years later it
  has no next run within the horizon, so \<open>nextRunFor\<close> raises: such a schedule cannot be advanced once it has fired.
\<close>

theorem leap_day_has_no_next_run:
  assumes "is_leap y" and "utc_first y 1 + 28 * ms_day \<le> from" and "from < utc_first (y + 3) 2"
  shows "nextRunFor ''0 0 29 2 *'' from = Inl cron_error"
  by (rule leap_cron_None [OF assms])

theorem leap_day_has_no_next_run_witness:
  "nextRunFor ''0 0 29 2 *'' (utc_first 2028 1 + 28 * ms_day + 1000) = Inl cron_error"
  by (rule leap_day_has_no_next_run [of 2028])
     (simp_all add: is_leap_def utc_first_def month_start_def month_starts_def day_from_year_def ms_day_def)

end
