(* ===== verification/AutomationStore.thy ===== *)
theory AutomationStore
  imports Cron Json
begin

text \<open>
  The automation package's data (\<open>packages/automation/src/types.ts\<close>) and its in-memory store
  (\<open>memory.ts\<close>): queues with leased messages, cron schedules, outbound webhooks and their deliveries.
  An identifier drawn by \<open>randomUUID\<close> and the store's clock are arguments.
\<close>

section \<open>Data\<close>

datatype message_status = Queued | Leased | Acked | Dead

record queue =
  qu_id :: string
  qu_organizationId :: string
  qu_projectId :: string
  qu_name :: string
  qu_maxDeliveries :: int
  qu_createdAt :: instant

record queue_message =
  qm_id :: string
  qm_queueId :: string
  qm_organizationId :: string
  qm_projectId :: string
  qm_body :: json
  qm_idempotencyKey :: "string option"
  qm_status :: message_status
  qm_deliveries :: int
  qm_leaseExpiresAt :: "instant option"
  qm_createdAt :: instant
  qm_updatedAt :: instant

record schedule =
  sc_id :: string
  sc_organizationId :: string
  sc_projectId :: string
  sc_name :: string
  sc_functionSlug :: string
  sc_cron :: string
  sc_payload :: json
  sc_enabled :: bool
  sc_nextRunAt :: "instant option"
  sc_lastRunAt :: "instant option"
  sc_lastStatus :: "string option"
  sc_createdAt :: instant
  sc_updatedAt :: instant

definition WEBHOOK_EVENTS :: "string list" where
  "WEBHOOK_EVENTS = [''job.completed'', ''job.failed'', ''function.deployed'', ''function.invoked'',
     ''ai.plan.applied'', ''project.deleted'', ''user.created'', ''user.signed_in'']"

definition isWebhookEvent :: "string \<Rightarrow> bool" where
  "isWebhookEvent value \<longleftrightarrow> value \<in> set WEBHOOK_EVENTS"

text \<open>\<open>ExposedWebhook\<close>, then \<open>Webhook\<close> with the hash of its secret.\<close>

record exposed_webhook =
  wh_id :: string
  wh_organizationId :: string
  wh_projectId :: string
  wh_name :: string
  wh_url :: string
  wh_eventTypes :: "string list"
  wh_secretPrefix :: string
  wh_enabled :: bool
  wh_maxAttempts :: int
  wh_createdAt :: instant
  wh_updatedAt :: instant

record webhook = exposed_webhook +
  wh_secretHash :: string

datatype delivery_status = DPending | DSending | DSucceeded | DFailed

record delivery_attempt =
  da_at :: instant
  da_status :: "int option"
  da_ok :: bool
  da_error :: "string option"
  da_latencyMs :: int

record delivery =
  de_id :: string
  de_webhookId :: string
  de_organizationId :: string
  de_projectId :: string
  de_eventType :: string
  de_payload :: json
  de_status :: delivery_status
  de_attempts :: "delivery_attempt list"
  de_nextAttemptAt :: "instant option"
  de_createdAt :: instant
  de_updatedAt :: instant

record project_event =
  ev_type :: string
  ev_organizationId :: string
  ev_projectId :: string
  ev_payload :: json

record automation_state =
  au_queues :: "(string, queue) jsmap"
  au_messages :: "(string, queue_message) jsmap"
  au_schedules :: "(string, schedule) jsmap"
  au_webhooks :: "(string, webhook) jsmap"
  au_deliveries :: "(string, delivery) jsmap"

section \<open>Queues\<close>

definition st_createQueue :: "string \<Rightarrow> instant \<Rightarrow> string \<Rightarrow> string \<Rightarrow> string \<Rightarrow> int \<Rightarrow> automation_state \<Rightarrow>
    queue \<times> automation_state" where
  "st_createQueue uuid now organizationId projectId name maxDeliveries s =
     (let q = \<lparr>qu_id = uuid, qu_organizationId = organizationId, qu_projectId = projectId, qu_name = name,
            qu_maxDeliveries = maxDeliveries, qu_createdAt = now\<rparr> in
      (q, s\<lparr>au_queues := js_set uuid q (au_queues s)\<rparr>))"

definition st_listQueues :: "string \<Rightarrow> automation_state \<Rightarrow> queue list" where
  "st_listQueues projectId s = filter (\<lambda>q. qu_projectId q = projectId) (js_values (au_queues s))"

definition st_getQueue :: "string \<Rightarrow> automation_state \<Rightarrow> queue option" where
  "st_getQueue i s = js_get (au_queues s) i"

definition st_deleteQueue :: "string \<Rightarrow> automation_state \<Rightarrow> bool \<times> automation_state" where
  "st_deleteQueue i s =
     (js_get (au_queues s) i \<noteq> None,
      s\<lparr>au_messages := drop_vals (\<lambda>m. qm_queueId m = i) (au_messages s),
        au_queues := js_delete i (au_queues s)\<rparr>)"

definition st_publish :: "string \<Rightarrow> instant \<Rightarrow> queue \<Rightarrow> json \<Rightarrow> string option \<Rightarrow> automation_state \<Rightarrow>
    (queue_message \<times> bool) \<times> automation_state" where
  "st_publish uuid now q body key s =
     (let dup = (if key \<in> {None, Some []} then None
                 else find (\<lambda>m. qm_queueId m = qu_id q \<and> qm_idempotencyKey m = key \<and> qm_status m \<noteq> Acked)
                   (js_values (au_messages s))) in
      case dup of
        Some m \<Rightarrow> ((m, True), s)
      | None \<Rightarrow>
          (let m = \<lparr>qm_id = uuid, qm_queueId = qu_id q, qm_organizationId = qu_organizationId q,
                 qm_projectId = qu_projectId q, qm_body = body, qm_idempotencyKey = key, qm_status = Queued,
                 qm_deliveries = 0, qm_leaseExpiresAt = None, qm_createdAt = now, qm_updatedAt = now\<rparr> in
           ((m, False), s\<lparr>au_messages := js_set uuid m (au_messages s)\<rparr>)))"

definition lease_expired :: "instant \<Rightarrow> queue_message \<Rightarrow> bool" where
  "lease_expired now m \<longleftrightarrow>
     qm_status m = Leased \<and> (case qm_leaseExpiresAt m of Some e \<Rightarrow> e \<le> now | None \<Rightarrow> False)"

definition deliverable :: "string \<Rightarrow> instant \<Rightarrow> queue_message \<Rightarrow> bool" where
  "deliverable queueId now m \<longleftrightarrow> qm_queueId m = queueId \<and> (qm_status m = Queued \<or> lease_expired now m)"

definition lease_message :: "instant \<Rightarrow> int \<Rightarrow> queue_message \<Rightarrow> queue_message" where
  "lease_message now leaseMs m =
     m\<lparr>qm_status := Leased, qm_deliveries := qm_deliveries m + 1,
       qm_leaseExpiresAt := Some (now + leaseMs), qm_updatedAt := now\<rparr>"

text \<open>The loop over the messages, which stops once \<open>limit\<close> messages are taken.\<close>

fun consume_loop :: "string \<Rightarrow> int \<Rightarrow> int \<Rightarrow> instant \<Rightarrow> (string, queue_message) jsmap \<Rightarrow>
    queue_message list \<times> (string, queue_message) jsmap" where
  "consume_loop queueId limit leaseMs now [] = ([], [])"
| "consume_loop queueId limit leaseMs now ((k, m) # rest) =
     (if limit \<le> 0 then ([], (k, m) # rest)
      else if \<not> deliverable queueId now m then
        (let (out, rest') = consume_loop queueId limit leaseMs now rest in (out, (k, m) # rest'))
      else
        (let m' = lease_message now leaseMs m;
             (out, rest') = consume_loop queueId (limit - 1) leaseMs now rest in
         (m' # out, (k, m') # rest')))"

definition st_consume :: "string \<Rightarrow> int \<Rightarrow> int \<Rightarrow> instant \<Rightarrow> automation_state \<Rightarrow>
    queue_message list \<times> automation_state" where
  "st_consume queueId limit leaseMs now s =
     (let (out, ms) = consume_loop queueId limit leaseMs now (au_messages s) in (out, s\<lparr>au_messages := ms\<rparr>))"

text \<open>Updating one record in place.\<close>

definition put_message :: "string \<Rightarrow> queue_message \<Rightarrow> automation_state \<Rightarrow> queue_message option \<times> automation_state" where
  "put_message i m s = (Some m, s\<lparr>au_messages := js_set i m (au_messages s)\<rparr>)"

definition st_ack :: "instant \<Rightarrow> string \<Rightarrow> automation_state \<Rightarrow> queue_message option \<times> automation_state" where
  "st_ack now i s =
     (case js_get (au_messages s) i of None \<Rightarrow> (None, s)
      | Some m \<Rightarrow> put_message i (m\<lparr>qm_status := Acked, qm_leaseExpiresAt := None, qm_updatedAt := now\<rparr>) s)"

definition st_nack :: "instant \<Rightarrow> string \<Rightarrow> bool \<Rightarrow> automation_state \<Rightarrow> queue_message option \<times> automation_state" where
  "st_nack now i requeue s =
     (case js_get (au_messages s) i of None \<Rightarrow> (None, s)
      | Some m \<Rightarrow>
          (let mx = (case js_get (au_queues s) (qm_queueId m) of Some q \<Rightarrow> qu_maxDeliveries q | None \<Rightarrow> 5);
               st = (if \<not> requeue \<or> qm_deliveries m \<ge> mx then Dead else Queued) in
           put_message i (m\<lparr>qm_status := st, qm_leaseExpiresAt := None, qm_updatedAt := now\<rparr>) s))"

definition st_setMessageStatus :: "instant \<Rightarrow> string \<Rightarrow> message_status \<Rightarrow> instant option \<Rightarrow> automation_state \<Rightarrow>
    queue_message option \<times> automation_state" where
  "st_setMessageStatus now i status lease s =
     (case js_get (au_messages s) i of None \<Rightarrow> (None, s)
      | Some m \<Rightarrow> put_message i (m\<lparr>qm_status := status, qm_leaseExpiresAt := lease, qm_updatedAt := now\<rparr>) s)"

definition st_listMessages :: "string \<Rightarrow> message_status option \<Rightarrow> nat \<Rightarrow> automation_state \<Rightarrow> queue_message list" where
  "st_listMessages queueId status limit s =
     take limit (oldest_first qm_createdAt
       (filter (\<lambda>m. qm_queueId m = queueId \<and> (status = None \<or> status = Some (qm_status m)))
         (js_values (au_messages s))))"

definition st_purgeMessages :: "string \<Rightarrow> message_status list \<Rightarrow> automation_state \<Rightarrow> nat \<times> automation_state" where
  "st_purgeMessages queueId statuses s =
     (let gone = (\<lambda>m. qm_queueId m = queueId \<and> qm_status m \<in> set statuses) in
      (length (filter gone (js_values (au_messages s))),
       s\<lparr>au_messages := drop_vals gone (au_messages s)\<rparr>))"

record queue_depth =
  qd_queued :: nat
  qd_leased :: nat
  qd_dead :: nat

fun depth_loop :: "string \<Rightarrow> queue_message list \<Rightarrow> queue_depth \<Rightarrow> queue_depth" where
  "depth_loop queueId [] d = d"
| "depth_loop queueId (m # ms) d =
     depth_loop queueId ms
       (if qm_queueId m \<noteq> queueId \<or> qm_status m = Acked then d
        else if qm_status m = Queued then d\<lparr>qd_queued := qd_queued d + 1\<rparr>
        else if qm_status m = Leased then d\<lparr>qd_leased := qd_leased d + 1\<rparr>
        else d\<lparr>qd_dead := qd_dead d + 1\<rparr>)"

definition st_queueDepth :: "string \<Rightarrow> automation_state \<Rightarrow> queue_depth" where
  "st_queueDepth queueId s = depth_loop queueId (js_values (au_messages s)) \<lparr>qd_queued = 0, qd_leased = 0, qd_dead = 0\<rparr>"

section \<open>Schedules\<close>

definition st_createSchedule :: "string \<Rightarrow> instant \<Rightarrow> string \<Rightarrow> string \<Rightarrow> string \<Rightarrow> string \<Rightarrow> string \<Rightarrow> json \<Rightarrow>
    instant option \<Rightarrow> automation_state \<Rightarrow> schedule \<times> automation_state" where
  "st_createSchedule uuid now organizationId projectId name functionSlug cron payload nextRunAt s =
     (let sc = \<lparr>sc_id = uuid, sc_organizationId = organizationId, sc_projectId = projectId, sc_name = name,
            sc_functionSlug = functionSlug, sc_cron = cron, sc_payload = payload, sc_enabled = True,
            sc_nextRunAt = nextRunAt, sc_lastRunAt = None, sc_lastStatus = None, sc_createdAt = now,
            sc_updatedAt = now\<rparr> in
      (sc, s\<lparr>au_schedules := js_set uuid sc (au_schedules s)\<rparr>))"

definition st_listSchedules :: "string \<Rightarrow> automation_state \<Rightarrow> schedule list" where
  "st_listSchedules projectId s = filter (\<lambda>x. sc_projectId x = projectId) (js_values (au_schedules s))"

definition st_getSchedule :: "string \<Rightarrow> automation_state \<Rightarrow> schedule option" where
  "st_getSchedule i s = js_get (au_schedules s) i"

text \<open>A patch holds the properties to assign; \<open>None\<close> leaves one alone.\<close>

record schedule_patch =
  sp_name :: "string option"
  sp_cron :: "string option"
  sp_payload :: "json option"
  sp_enabled :: "bool option"
  sp_nextRunAt :: "instant option option"

definition assigned :: "'a option \<Rightarrow> 'a \<Rightarrow> 'a" where
  "assigned p old = (case p of Some v \<Rightarrow> v | None \<Rightarrow> old)"

definition st_updateSchedule :: "instant \<Rightarrow> string \<Rightarrow> schedule_patch \<Rightarrow> automation_state \<Rightarrow>
    schedule option \<times> automation_state" where
  "st_updateSchedule now i p s =
     (case js_get (au_schedules s) i of None \<Rightarrow> (None, s)
      | Some x \<Rightarrow>
          (let x' = x\<lparr>sc_name := assigned (sp_name p) (sc_name x), sc_cron := assigned (sp_cron p) (sc_cron x),
                 sc_payload := assigned (sp_payload p) (sc_payload x),
                 sc_enabled := assigned (sp_enabled p) (sc_enabled x),
                 sc_nextRunAt := assigned (sp_nextRunAt p) (sc_nextRunAt x), sc_updatedAt := now\<rparr> in
           (Some x', s\<lparr>au_schedules := js_set i x' (au_schedules s)\<rparr>)))"

definition st_markScheduleRun :: "instant \<Rightarrow> string \<Rightarrow> instant \<Rightarrow> string \<Rightarrow> instant option \<Rightarrow> automation_state \<Rightarrow>
    schedule option \<times> automation_state" where
  "st_markScheduleRun now i ranAt status nextRunAt s =
     (case js_get (au_schedules s) i of None \<Rightarrow> (None, s)
      | Some x \<Rightarrow>
          (let x' = x\<lparr>sc_lastRunAt := Some ranAt, sc_lastStatus := Some status, sc_nextRunAt := nextRunAt,
                 sc_updatedAt := now\<rparr> in
           (Some x', s\<lparr>au_schedules := js_set i x' (au_schedules s)\<rparr>)))"

definition st_deleteSchedule :: "string \<Rightarrow> automation_state \<Rightarrow> bool \<times> automation_state" where
  "st_deleteSchedule i s =
     (js_get (au_schedules s) i \<noteq> None, s\<lparr>au_schedules := js_delete i (au_schedules s)\<rparr>)"

definition schedule_due :: "instant \<Rightarrow> schedule \<Rightarrow> bool" where
  "schedule_due now x \<longleftrightarrow> sc_enabled x \<and> (case sc_nextRunAt x of Some r \<Rightarrow> r \<le> now | None \<Rightarrow> False)"

definition st_dueSchedules :: "instant \<Rightarrow> nat \<Rightarrow> automation_state \<Rightarrow> schedule list" where
  "st_dueSchedules now limit s =
     take limit (oldest_first (\<lambda>x. case sc_nextRunAt x of Some r \<Rightarrow> r | None \<Rightarrow> 0)
       (filter (schedule_due now) (js_values (au_schedules s))))"

section \<open>Webhooks and deliveries\<close>

definition st_createWebhook :: "string \<Rightarrow> instant \<Rightarrow> string \<Rightarrow> string \<Rightarrow> string \<Rightarrow> string \<Rightarrow> string list \<Rightarrow> string \<Rightarrow>
    string \<Rightarrow> int \<Rightarrow> automation_state \<Rightarrow> webhook \<times> automation_state" where
  "st_createWebhook uuid now organizationId projectId name url eventTypes secretPrefix secretHash maxAttempts s =
     (let w = \<lparr>wh_id = uuid, wh_organizationId = organizationId, wh_projectId = projectId, wh_name = name,
            wh_url = url, wh_eventTypes = eventTypes, wh_secretPrefix = secretPrefix, wh_enabled = True,
            wh_maxAttempts = maxAttempts, wh_createdAt = now, wh_updatedAt = now, wh_secretHash = secretHash\<rparr> in
      (w, s\<lparr>au_webhooks := js_set uuid w (au_webhooks s)\<rparr>))"

definition st_listWebhooks :: "string \<Rightarrow> automation_state \<Rightarrow> webhook list" where
  "st_listWebhooks projectId s = filter (\<lambda>w. wh_projectId w = projectId) (js_values (au_webhooks s))"

definition st_getWebhook :: "string \<Rightarrow> automation_state \<Rightarrow> webhook option" where
  "st_getWebhook i s = js_get (au_webhooks s) i"

record webhook_patch =
  wp_name :: "string option"
  wp_url :: "string option"
  wp_eventTypes :: "string list option"
  wp_enabled :: "bool option"
  wp_maxAttempts :: "int option"

definition put_webhook :: "string \<Rightarrow> webhook \<Rightarrow> automation_state \<Rightarrow> webhook option \<times> automation_state" where
  "put_webhook i w s = (Some w, s\<lparr>au_webhooks := js_set i w (au_webhooks s)\<rparr>)"

definition st_updateWebhook :: "instant \<Rightarrow> string \<Rightarrow> webhook_patch \<Rightarrow> automation_state \<Rightarrow>
    webhook option \<times> automation_state" where
  "st_updateWebhook now i p s =
     (case js_get (au_webhooks s) i of None \<Rightarrow> (None, s)
      | Some w \<Rightarrow>
          put_webhook i (w\<lparr>wh_name := assigned (wp_name p) (wh_name w), wh_url := assigned (wp_url p) (wh_url w),
            wh_eventTypes := assigned (wp_eventTypes p) (wh_eventTypes w),
            wh_enabled := assigned (wp_enabled p) (wh_enabled w),
            wh_maxAttempts := assigned (wp_maxAttempts p) (wh_maxAttempts w), wh_updatedAt := now\<rparr>) s)"

definition st_rotateSecret :: "instant \<Rightarrow> string \<Rightarrow> string \<Rightarrow> string \<Rightarrow> automation_state \<Rightarrow>
    webhook option \<times> automation_state" where
  "st_rotateSecret now i secretPrefix secretHash s =
     (case js_get (au_webhooks s) i of None \<Rightarrow> (None, s)
      | Some w \<Rightarrow>
          put_webhook i (w\<lparr>wh_secretPrefix := secretPrefix, wh_secretHash := secretHash, wh_updatedAt := now\<rparr>) s)"

definition st_deleteWebhook :: "string \<Rightarrow> automation_state \<Rightarrow> bool \<times> automation_state" where
  "st_deleteWebhook i s =
     (js_get (au_webhooks s) i \<noteq> None,
      s\<lparr>au_deliveries := drop_vals (\<lambda>d. de_webhookId d = i) (au_deliveries s),
        au_webhooks := js_delete i (au_webhooks s)\<rparr>)"

definition st_createDelivery :: "string \<Rightarrow> instant \<Rightarrow> string \<Rightarrow> string \<Rightarrow> string \<Rightarrow> string \<Rightarrow> json \<Rightarrow> instant option \<Rightarrow>
    automation_state \<Rightarrow> delivery \<times> automation_state" where
  "st_createDelivery uuid now webhookId organizationId projectId eventType payload nextAttemptAt s =
     (let d = \<lparr>de_id = uuid, de_webhookId = webhookId, de_organizationId = organizationId,
            de_projectId = projectId, de_eventType = eventType, de_payload = payload, de_status = DPending,
            de_attempts = [], de_nextAttemptAt = nextAttemptAt, de_createdAt = now, de_updatedAt = now\<rparr> in
      (d, s\<lparr>au_deliveries := js_set uuid d (au_deliveries s)\<rparr>))"

definition st_getDelivery :: "string \<Rightarrow> automation_state \<Rightarrow> delivery option" where
  "st_getDelivery i s = js_get (au_deliveries s) i"

definition st_listDeliveries :: "string \<Rightarrow> delivery_status option \<Rightarrow> nat \<Rightarrow> automation_state \<Rightarrow> delivery list" where
  "st_listDeliveries webhookId status limit s =
     take limit (newest_first de_createdAt
       (filter (\<lambda>d. de_webhookId d = webhookId \<and> (status = None \<or> status = Some (de_status d)))
         (js_values (au_deliveries s))))"

record delivery_patch =
  dp_status :: "delivery_status option"
  dp_attempts :: "delivery_attempt list option"
  dp_nextAttemptAt :: "instant option option"

definition patch_delivery :: "instant \<Rightarrow> delivery_patch \<Rightarrow> delivery \<Rightarrow> delivery" where
  "patch_delivery now p d =
     d\<lparr>de_status := assigned (dp_status p) (de_status d), de_attempts := assigned (dp_attempts p) (de_attempts d),
       de_nextAttemptAt := assigned (dp_nextAttemptAt p) (de_nextAttemptAt d), de_updatedAt := now\<rparr>"

definition st_updateDelivery :: "instant \<Rightarrow> string \<Rightarrow> delivery_patch \<Rightarrow> automation_state \<Rightarrow>
    delivery option \<times> automation_state" where
  "st_updateDelivery now i p s =
     (case js_get (au_deliveries s) i of None \<Rightarrow> (None, s)
      | Some d \<Rightarrow>
          (let d' = patch_delivery now p d in
           (Some d', s\<lparr>au_deliveries := js_set i d' (au_deliveries s)\<rparr>)))"

definition st_dueDeliveries :: "instant \<Rightarrow> nat \<Rightarrow> automation_state \<Rightarrow> delivery list" where
  "st_dueDeliveries now limit s =
     take limit (oldest_first (\<lambda>d. case de_nextAttemptAt d of Some r \<Rightarrow> r | None \<Rightarrow> 0)
       (filter (\<lambda>d. (de_status d = DPending \<or> de_status d = DSending) \<and>
           (case de_nextAttemptAt d of Some r \<Rightarrow> r \<le> now | None \<Rightarrow> False))
         (js_values (au_deliveries s))))"

end
