(* ===== verification/AutomationService.thy ===== *)
theory AutomationService
  imports AutomationStore
begin

text \<open>
  The automation service (\<open>packages/automation/src/service.ts\<close>, \<open>signing.ts\<close>): validation, the guard against
  internal webhook targets, queue operations, schedule firing, webhook fan-out and delivery retries.

  Parameters: \<open>sha\<close> (SHA-256 in hexadecimal), \<open>hmac\<close> (HMAC-SHA-256), \<open>rnd\<close> (the random hexadecimal text of a
  secret), \<open>url_parse\<close> (the platform's \<open>URL\<close>: protocol and host name, or nothing when it throws), the delivery and
  invocation callbacks, and the identifiers \<open>randomUUID\<close> draws.
\<close>

section \<open>Validation\<close>

abbreviation automation_error :: error where
  "automation_error \<equiv> ApiError VALIDATION_ERROR 400"

definition name_char :: "char \<Rightarrow> bool" where
  "name_char c \<longleftrightarrow> is_alnum c \<or> c \<in> set '' _.-''"

text \<open>\<open>NAME_RE\<close>: an alphanumeric character, then up to 63 name characters.\<close>

definition name_ok :: "string \<Rightarrow> bool" where
  "name_ok s = (case s of [] \<Rightarrow> False | c # cs \<Rightarrow> is_alnum c \<and> length cs \<le> 63 \<and> list_all name_char cs)"

definition assertName :: "string \<Rightarrow> unit outcome" where
  "assertName name = require (name_ok name) automation_error"

definition MAX_BODY_BYTES :: nat where "MAX_BODY_BYTES = 256000"

definition assertBodySize :: "json \<Rightarrow> unit outcome" where
  "assertBodySize body =
     (let bytes = utf8_length (json_stringify (case body of JUndefined \<Rightarrow> JNull | b \<Rightarrow> b)) in
      require (\<not> bytes > MAX_BODY_BYTES) (ApiError PAYLOAD_TOO_LARGE 413))"

text \<open>\<open>replace(/^\\[|\\]$/g, '')\<close> drops a leading and a trailing bracket.\<close>

definition strip_brackets :: "string \<Rightarrow> string" where
  "strip_brackets h =
     (let a = (case h of c # cs \<Rightarrow> if c = CHR ''['' then cs else h | [] \<Rightarrow> []) in
      if a \<noteq> [] \<and> last a = CHR '']'' then butlast a else a)"

definition blocked_v4 :: "nat list \<Rightarrow> bool" where
  "blocked_v4 b =
     (if list_ex (\<lambda>n. n > 255) b then True
      else (let a = b ! 0; c = b ! 1 in
        if a = 127 \<or> a = 0 then True
        else if a = 10 then True
        else if a = 172 \<and> c \<ge> 16 \<and> c \<le> 31 then True
        else if a = 192 \<and> c = 168 then True
        else if a = 169 \<and> c = 254 then True
        else if a \<ge> 224 then True
        else if a = 100 \<and> c \<ge> 64 \<and> c \<le> 127 then True
        else if a = 192 \<and> (c = 0 \<or> c = 2 \<or> c = 88 \<or> c = 18) then True
        else False))"

lemma strip_brackets_length: "length (strip_brackets h) \<le> length h"
  by (auto simp: strip_brackets_def Let_def split: list.splits)

function isBlockedLiteralIp :: "string \<Rightarrow> bool" where
  "isBlockedLiteralIp host =
     (let h = strip_brackets (to_lower host) in
      case ipv4_groups h of
        Some gs \<Rightarrow> blocked_v4 (map dec_val gs)
      | None \<Rightarrow>
          if CHR '':'' \<in> set h then
            (if h = ''::1'' \<or> h = ''::'' then True
             else if starts_with h ''fe80'' \<or> starts_with h ''fc'' \<or> starts_with h ''fd'' then True
             else if starts_with h ''::ffff:'' then isBlockedLiteralIp (drop 7 h)
             else if starts_with h ''2001:db8'' \<or> starts_with h ''2002:'' \<or> starts_with h ''ff00'' then True
             else False)
          else False)"
  by auto

termination
proof (relation "measure length")
  fix host h
  assume h: "h = strip_brackets (to_lower host)" and p: "starts_with h ''::ffff:''"
  have "length h \<le> length host" using strip_brackets_length [of "to_lower host"] h by (simp add: to_lower_def)
  moreover have "7 \<le> length h" using p by (auto simp: starts_with_iff)
  ultimately show "(drop 7 h, host) \<in> measure length" by simp
qed simp

declare isBlockedLiteralIp.simps [simp del]

definition assertUrl :: "(string \<Rightarrow> (string \<times> string) option) \<Rightarrow> string \<Rightarrow> unit outcome" where
  "assertUrl url_parse url =
     (case url_parse url of None \<Rightarrow> Inl automation_error
      | Some (protocol, hostname) \<Rightarrow>
          if protocol \<noteq> ''https:'' \<and> protocol \<noteq> ''http:'' then Inl automation_error
          else (let host = to_lower hostname in
            if host = ''localhost'' \<or> ends_with host ''.localhost'' \<or> host = ''127.0.0.1'' \<or> host = ''::1'' \<or>
               host = ''0.0.0.0'' \<or> isBlockedLiteralIp host
            then Inl automation_error else Inr ()))"

section \<open>Signing (signing.ts)\<close>

definition WEBHOOK_SECRET_PREFIX :: string where "WEBHOOK_SECRET_PREFIX = ''whsec_''"

record webhook_secret =
  ws_raw :: string
  ws_hash :: string
  ws_prefix :: string

definition createWebhookSecret :: "(string \<Rightarrow> string) \<Rightarrow> string \<Rightarrow> webhook_secret" where
  "createWebhookSecret sha rnd =
     (let raw = WEBHOOK_SECRET_PREFIX @ rnd in \<lparr>ws_raw = raw, ws_hash = sha raw, ws_prefix = take 12 raw\<rparr>)"

definition signPayload :: "(string \<Rightarrow> string \<Rightarrow> string) \<Rightarrow> string \<Rightarrow> string \<Rightarrow> string" where
  "signPayload hmac keyHex payloadBytes = ''sha256='' @ hmac keyHex payloadBytes"

definition verifySignature :: "(string \<Rightarrow> string \<Rightarrow> string) \<Rightarrow> string \<Rightarrow> string \<Rightarrow> string \<Rightarrow> bool" where
  "verifySignature hmac keyHex payloadBytes signature =
     (let expected = signPayload hmac keyHex payloadBytes in
      length expected = length signature \<and> expected = signature)"

definition backoff_table :: "int list" where
  "backoff_table = [60000, 300000, 1800000, 7200000, 28800000, 86400000]"

definition backoffMs :: "nat \<Rightarrow> int option" where
  "backoffMs attempt = (if attempt < length backoff_table then Some (backoff_table ! attempt) else None)"

definition exposeWebhook :: "webhook \<Rightarrow> exposed_webhook" where
  "exposeWebhook w = exposed_webhook.truncate w"

section \<open>Queues\<close>

definition createQueue :: "string \<Rightarrow> instant \<Rightarrow> string \<Rightarrow> string \<Rightarrow> string \<Rightarrow> int option \<Rightarrow> automation_state \<Rightarrow>
    queue outcome \<times> automation_state" where
  "createQueue uuid now organizationId projectId name maxDeliveries s =
     (let mx = (case maxDeliveries of Some m \<Rightarrow> m | None \<Rightarrow> 5) in
      case and_then (assertName name) (\<lambda>_.
           and_then (require (\<not> (mx < 1 \<or> mx > 25)) automation_error) (\<lambda>_.
           require (\<not> list_ex (\<lambda>q. qu_name q = name) (st_listQueues projectId s)) (ApiError CONFLICT 409))) of
        Inl e \<Rightarrow> (Inl e, s)
      | Inr _ \<Rightarrow> (let (q, s') = st_createQueue uuid now organizationId projectId name mx s in (Inr q, s')))"

definition key_char :: "char \<Rightarrow> bool" where
  "key_char c \<longleftrightarrow> is_alnum c \<or> c \<in> set '' _.:-''"

definition publish :: "string \<Rightarrow> instant \<Rightarrow> queue \<Rightarrow> json \<Rightarrow> string option \<Rightarrow> automation_state \<Rightarrow>
    (queue_message \<times> bool) outcome \<times> automation_state" where
  "publish uuid now q body idempotencyKey s =
     (let key = (case idempotencyKey of None \<Rightarrow> None
                 | Some k \<Rightarrow> if js_trim k = [] then None else Some (js_trim k)) in
      case and_then (require (case body of JObj _ \<Rightarrow> True | _ \<Rightarrow> False) automation_error) (\<lambda>_.
           and_then (assertBodySize body) (\<lambda>_.
           require (case key of None \<Rightarrow> True
                    | Some k \<Rightarrow> \<not> (length k > 128 \<or> \<not> (1 \<le> length k \<and> length k \<le> 128 \<and> list_all key_char k)))
             automation_error)) of
        Inl e \<Rightarrow> (Inl e, s)
      | Inr _ \<Rightarrow> (let (r, s') = st_publish uuid now q body key s in (Inr r, s')))"

text \<open>\<open>Math.trunc(limit) || 1\<close>: \<open>None\<close> is a limit that is not a number.\<close>

definition consume :: "instant \<Rightarrow> queue \<Rightarrow> int option \<Rightarrow> int \<Rightarrow> automation_state \<Rightarrow>
    queue_message list \<times> automation_state" where
  "consume now q limit leaseMs s =
     (let l = (case limit of None \<Rightarrow> 1 | Some k \<Rightarrow> if k = 0 then 1 else k);
          n = min (max l 1) 25;
          lease = min (max leaseMs 1000) 3600000 in
      st_consume (qu_id q) n lease now s)"

definition scopedMessage :: "queue \<Rightarrow> string \<Rightarrow> automation_state \<Rightarrow> queue_message outcome" where
  "scopedMessage q messageId s =
     (case find (\<lambda>m. qm_id m = messageId) (st_listMessages (qu_id q) None 1000 s) of
        None \<Rightarrow> Inl (ApiError NOT_FOUND 404) | Some m \<Rightarrow> Inr m)"

definition ack :: "instant \<Rightarrow> queue \<Rightarrow> string \<Rightarrow> automation_state \<Rightarrow> queue_message outcome \<times> automation_state" where
  "ack now q messageId s =
     (case scopedMessage q messageId s of Inl e \<Rightarrow> (Inl e, s)
      | Inr m \<Rightarrow> (case st_ack now (qm_id m) s of
          (None, s') \<Rightarrow> (Inl (ApiError NOT_FOUND 404), s') | (Some a, s') \<Rightarrow> (Inr a, s')))"

definition nack :: "instant \<Rightarrow> queue \<Rightarrow> string \<Rightarrow> bool \<Rightarrow> automation_state \<Rightarrow>
    queue_message outcome \<times> automation_state" where
  "nack now q messageId requeue s =
     (case scopedMessage q messageId s of Inl e \<Rightarrow> (Inl e, s)
      | Inr m \<Rightarrow> (case st_nack now (qm_id m) requeue s of
          (None, s') \<Rightarrow> (Inl (ApiError NOT_FOUND 404), s') | (Some a, s') \<Rightarrow> (Inr a, s')))"

definition purge :: "queue \<Rightarrow> message_status list \<Rightarrow> automation_state \<Rightarrow> nat outcome \<times> automation_state" where
  "purge q statuses s =
     (let allowed = filter (\<lambda>st. st = Acked \<or> st = Dead) statuses in
      if length allowed = 0 then (Inl automation_error, s)
      else (let (n, s') = st_purgeMessages (qu_id q) allowed s in (Inr n, s')))"

section \<open>Schedules\<close>

definition slug_char :: "char \<Rightarrow> bool" where
  "slug_char c \<longleftrightarrow> is_lower c \<or> is_digit c"

text \<open>\<open>/^[a-z0-9][a-z0-9-]*[a-z0-9]$/\<close>\<close>

definition function_slug_ok :: "string \<Rightarrow> bool" where
  "function_slug_ok s \<longleftrightarrow>
     2 \<le> length s \<and> slug_char (hd s) \<and> slug_char (last s) \<and> list_all (\<lambda>c. slug_char c \<or> c = CHR ''-'') s"

definition createSchedule :: "string \<Rightarrow> instant \<Rightarrow> string \<Rightarrow> string \<Rightarrow> string \<Rightarrow> string \<Rightarrow> string \<Rightarrow> json option \<Rightarrow>
    automation_state \<Rightarrow> schedule outcome \<times> automation_state" where
  "createSchedule uuid now organizationId projectId name functionSlug cron payload s =
     (let body = (case payload of Some p \<Rightarrow> p | None \<Rightarrow> JObj []) in
      case and_then (assertName name) (\<lambda>_.
           and_then (require (function_slug_ok functionSlug) automation_error) (\<lambda>_.
           and_then (parseCron cron) (\<lambda>_.
           and_then (assertBodySize body) (\<lambda>_.
           and_then (require (\<not> list_ex (\<lambda>x. sc_name x = name) (st_listSchedules projectId s)) (ApiError CONFLICT 409)) (\<lambda>_.
           nextRunFor cron now))))) of
        Inl e \<Rightarrow> (Inl e, s)
      | Inr t \<Rightarrow>
          (let (x, s') = st_createSchedule uuid now organizationId projectId name functionSlug cron body (Some t) s in
           (Inr x, s')))"

record schedule_input =
  si_name :: "string option"
  si_cron :: "string option"
  si_payload :: "json option"
  si_enabled :: "bool option"

text \<open>The patch the service computes; a later assignment to \<open>nextRunAt\<close> overrides an earlier one.\<close>

definition schedule_update :: "instant \<Rightarrow> schedule \<Rightarrow> schedule_input \<Rightarrow> schedule_patch outcome" where
  "schedule_update now sch p =
     and_then (case si_name p of None \<Rightarrow> Inr () | Some n \<Rightarrow> assertName n) (\<lambda>_.
     and_then (case si_cron p of None \<Rightarrow> Inr None
               | Some c \<Rightarrow> and_then (parseCron c) (\<lambda>_. and_then (nextRunFor c now) (\<lambda>t. Inr (Some (Some t))))) (\<lambda>next1.
     and_then (case si_payload p of None \<Rightarrow> Inr () | Some b \<Rightarrow> assertBodySize b) (\<lambda>_.
     and_then (if si_enabled p = Some True \<and> sc_nextRunAt sch = None
               then and_then (nextRunFor (sc_cron sch) now) (\<lambda>t. Inr (Some (Some t))) else Inr next1) (\<lambda>next2.
     Inr \<lparr>sp_name = si_name p, sp_cron = si_cron p, sp_payload = si_payload p, sp_enabled = si_enabled p,
          sp_nextRunAt = next2\<rparr>))))"

definition updateSchedule :: "instant \<Rightarrow> schedule \<Rightarrow> schedule_input \<Rightarrow> automation_state \<Rightarrow>
    schedule outcome \<times> automation_state" where
  "updateSchedule now sch p s =
     (case schedule_update now sch p of Inl e \<Rightarrow> (Inl e, s)
      | Inr u \<Rightarrow> (case st_updateSchedule now (sc_id sch) u s of
          (None, s') \<Rightarrow> (Inl (ApiError NOT_FOUND 404), s') | (Some x, s') \<Rightarrow> (Inr x, s')))"

text \<open>The callback \<open>invoke\<close>: \<open>Some ok\<close> is its answer, \<open>None\<close> an exception.\<close>

type_synonym invoke_fn = "string \<Rightarrow> string \<Rightarrow> json \<Rightarrow> bool option"

record fire_result =
  fr_fired :: nat
  fr_failed :: nat

fun fire_loop :: "instant \<Rightarrow> invoke_fn \<Rightarrow> schedule list \<Rightarrow> fire_result \<Rightarrow> automation_state \<Rightarrow>
    fire_result outcome \<times> automation_state" where
  "fire_loop now invoke [] r s = (Inr r, s)"
| "fire_loop now invoke (x # xs) r s =
     (case nextRunFor (sc_cron x) (now + 1000) of
        Inl e \<Rightarrow> (Inl e, s)
      | Inr nxt \<Rightarrow>
          (case invoke (sc_projectId x) (sc_functionSlug x) (sc_payload x) of
             Some ok \<Rightarrow>
               fire_loop now invoke xs
                 (if ok then r\<lparr>fr_fired := fr_fired r + 1\<rparr> else r\<lparr>fr_failed := fr_failed r + 1\<rparr>)
                 (snd (st_markScheduleRun now (sc_id x) now (if ok then ''succeeded'' else ''failed'') (Some nxt) s))
           | None \<Rightarrow>
               fire_loop now invoke xs (r\<lparr>fr_failed := fr_failed r + 1\<rparr>)
                 (snd (st_markScheduleRun now (sc_id x) now ''failed'' (Some nxt) s))))"

definition fireDueSchedules :: "instant \<Rightarrow> invoke_fn \<Rightarrow> nat \<Rightarrow> automation_state \<Rightarrow>
    fire_result outcome \<times> automation_state" where
  "fireDueSchedules now invoke limit s =
     fire_loop now invoke (st_dueSchedules now limit s) \<lparr>fr_fired = 0, fr_failed = 0\<rparr> s"

section \<open>Webhooks\<close>

definition check_events :: "string list \<Rightarrow> string list outcome" where
  "check_events ts = each (\<lambda>t. if isWebhookEvent t then Inr t else Inl automation_error) ts"

definition createWebhook :: "(string \<Rightarrow> string) \<Rightarrow> (string \<Rightarrow> (string \<times> string) option) \<Rightarrow> string \<Rightarrow> string \<Rightarrow> instant \<Rightarrow>
    string \<Rightarrow> string \<Rightarrow> string \<Rightarrow> string \<Rightarrow> string list \<Rightarrow> int option \<Rightarrow> automation_state \<Rightarrow>
    (exposed_webhook \<times> string) outcome \<times> automation_state" where
  "createWebhook sha url_parse rnd uuid now organizationId projectId name url eventTypes maxAttempts s =
     (let existing = st_listWebhooks projectId s;
          mx = (case maxAttempts of Some m \<Rightarrow> m | None \<Rightarrow> 6) in
      case and_then (assertName name) (\<lambda>_.
           and_then (assertUrl url_parse url) (\<lambda>_.
           and_then (require (length eventTypes \<noteq> 0) automation_error) (\<lambda>_.
           and_then (check_events eventTypes) (\<lambda>evs.
           and_then (require (\<not> (mx < 1 \<or> mx > 10)) automation_error) (\<lambda>_.
           and_then (require (\<not> list_ex (\<lambda>w. wh_name w = name) existing) (ApiError CONFLICT 409)) (\<lambda>_.
           and_then (require (\<not> list_ex (\<lambda>w. wh_url w = url \<and> list_ex (\<lambda>t. t \<in> set eventTypes) (wh_eventTypes w)) existing)
             (ApiError CONFLICT 409)) (\<lambda>_. Inr evs))))))) of
        Inl e \<Rightarrow> (Inl e, s)
      | Inr evs \<Rightarrow>
          (let secret = createWebhookSecret sha rnd;
               (saved, s') = st_createWebhook uuid now organizationId projectId name url evs (ws_prefix secret)
                 (ws_hash secret) mx s in
           (Inr (exposeWebhook saved, ws_raw secret), s')))"

definition webhook_update :: "(string \<Rightarrow> (string \<times> string) option) \<Rightarrow> webhook_patch \<Rightarrow> webhook_patch outcome" where
  "webhook_update url_parse p =
     and_then (case wp_name p of None \<Rightarrow> Inr () | Some n \<Rightarrow> assertName n) (\<lambda>_.
     and_then (case wp_url p of None \<Rightarrow> Inr () | Some u \<Rightarrow> assertUrl url_parse u) (\<lambda>_.
     and_then (case wp_eventTypes p of None \<Rightarrow> Inr None
               | Some ts \<Rightarrow> if length ts = 0 then Inl automation_error
                   else and_then (check_events ts) (\<lambda>evs. Inr (Some evs))) (\<lambda>evs.
     and_then (case wp_maxAttempts p of None \<Rightarrow> Inr ()
               | Some m \<Rightarrow> require (\<not> (m < 1 \<or> m > 10)) automation_error) (\<lambda>_.
     Inr (p\<lparr>wp_eventTypes := evs\<rparr>)))))"

definition updateWebhook :: "(string \<Rightarrow> (string \<times> string) option) \<Rightarrow> instant \<Rightarrow> webhook \<Rightarrow> webhook_patch \<Rightarrow>
    automation_state \<Rightarrow> exposed_webhook outcome \<times> automation_state" where
  "updateWebhook url_parse now w p s =
     (case webhook_update url_parse p of Inl e \<Rightarrow> (Inl e, s)
      | Inr u \<Rightarrow> (case st_updateWebhook now (wh_id w) u s of
          (None, s') \<Rightarrow> (Inl (ApiError NOT_FOUND 404), s') | (Some x, s') \<Rightarrow> (Inr (exposeWebhook x), s')))"

fun emit_loop :: "instant \<Rightarrow> project_event \<Rightarrow> (nat \<Rightarrow> string) \<Rightarrow> nat \<Rightarrow> webhook list \<Rightarrow> automation_state \<Rightarrow>
    delivery list \<times> automation_state" where
  "emit_loop now ev uuids k [] s = ([], s)"
| "emit_loop now ev uuids k (w # ws) s =
     (if wh_organizationId w \<noteq> ev_organizationId ev \<or> wh_projectId w \<noteq> ev_projectId ev
      then emit_loop now ev uuids k ws s
      else
        (let (d, s1) = st_createDelivery (uuids k) now (wh_id w) (wh_organizationId w) (wh_projectId w) (ev_type ev)
               (ev_payload ev) (Some now) s;
             (ds, s2) = emit_loop now ev uuids (k + 1) ws s1 in
         (d # ds, s2)))"

definition emit :: "instant \<Rightarrow> project_event \<Rightarrow> webhook list option \<Rightarrow> (nat \<Rightarrow> string) \<Rightarrow> automation_state \<Rightarrow>
    delivery list \<times> automation_state" where
  "emit now ev projectWebhooks uuids s =
     (let subs = (case projectWebhooks of Some ws \<Rightarrow> ws
                  | None \<Rightarrow> filter wh_enabled (st_listWebhooks (ev_projectId ev) s));
          matched = filter (\<lambda>w. wh_enabled w \<and> ev_type ev \<in> set (wh_eventTypes w)) subs in
      emit_loop now ev uuids 0 matched s)"

section \<open>Delivery\<close>

record deliver_result =
  dl_ok :: bool
  dl_status :: "int option"
  dl_error :: "string option"
  dl_latencyMs :: int

text \<open>The callback \<open>deliver\<close> answers or throws; a thrown \<open>Error\<close> has a message.\<close>

datatype deliver_outcome = Answered deliver_result | Threw "string option"

type_synonym deliver_fn = "string \<Rightarrow> string \<Rightarrow> (string \<times> string) list \<Rightarrow> deliver_outcome"

definition delivery_bytes :: "delivery \<Rightarrow> string" where
  "delivery_bytes d = json_stringify (JObj
     [(''id'', JStr (de_id d)), (''event'', JStr (de_eventType d)), (''projectId'', JStr (de_projectId d)),
      (''createdAt'', JStr (iso_string (de_createdAt d))), (''data'', de_payload d)])"

definition delivery_headers :: "(string \<Rightarrow> string \<Rightarrow> string) \<Rightarrow> delivery \<Rightarrow> webhook \<Rightarrow> (string \<times> string) list" where
  "delivery_headers hmac d w =
     [(''Content-Type'', ''application/json''), (''X-CloudNivo-Event'', de_eventType d),
      (''X-CloudNivo-Delivery'', de_id d),
      (''X-CloudNivo-Signature'', signPayload hmac (wh_secretHash w) (delivery_bytes d))]"

definition attemptOk :: "deliver_result \<Rightarrow> bool" where
  "attemptOk r \<longleftrightarrow> dl_ok r \<and> (case dl_status r of None \<Rightarrow> True | Some c \<Rightarrow> 200 \<le> c \<and> c < 300)"

definition http_error :: "deliver_result \<Rightarrow> string" where
  "http_error r = (case dl_error r of Some e \<Rightarrow> e
     | None \<Rightarrow> ''HTTP '' @ (case dl_status r of Some c \<Rightarrow> dec_int c | None \<Rightarrow> ''unknown''))"

definition no_patch :: delivery_patch where
  "no_patch = \<lparr>dp_status = None, dp_attempts = None, dp_nextAttemptAt = None\<rparr>"

text \<open>The answer, or what a thrown error is turned into.\<close>

definition send_delivery :: "(string \<Rightarrow> string \<Rightarrow> string) \<Rightarrow> deliver_fn \<Rightarrow> delivery \<Rightarrow> webhook \<Rightarrow> deliver_result" where
  "send_delivery hmac deliver d w =
     (case deliver (wh_url w) (delivery_bytes d) (delivery_headers hmac d w) of
        Answered r \<Rightarrow> r
      | Threw msg \<Rightarrow> \<lparr>dl_ok = False, dl_status = None,
          dl_error = Some (case msg of Some m \<Rightarrow> take 200 m | None \<Rightarrow> ''delivery failed''), dl_latencyMs = 0\<rparr>)"

definition attempt_of :: "instant \<Rightarrow> deliver_result \<Rightarrow> delivery_attempt" where
  "attempt_of now result =
     \<lparr>da_at = now, da_status = dl_status result, da_ok = attemptOk result,
      da_error = (if attemptOk result then None else Some (http_error result)), da_latencyMs = dl_latencyMs result\<rparr>"

definition outcome_patch :: "instant \<Rightarrow> webhook \<Rightarrow> delivery_attempt list \<Rightarrow> delivery_attempt \<Rightarrow> delivery_patch" where
  "outcome_patch now w attempts attempt =
     (if da_ok attempt then \<lparr>dp_status = Some DSucceeded, dp_attempts = Some attempts, dp_nextAttemptAt = Some None\<rparr>
      else
        (let wait = backoffMs (length attempts - 1);
             exhausted = (wait = None \<or> int (length attempts) \<ge> wh_maxAttempts w) in
         \<lparr>dp_status = Some (if exhausted then DFailed else DPending), dp_attempts = Some attempts,
          dp_nextAttemptAt = Some (if exhausted then None else Some (now + the wait))\<rparr>))"

definition attemptDelivery :: "(string \<Rightarrow> string \<Rightarrow> string) \<Rightarrow> deliver_fn \<Rightarrow> instant \<Rightarrow> delivery \<Rightarrow> webhook \<Rightarrow>
    automation_state \<Rightarrow> delivery outcome \<times> automation_state" where
  "attemptDelivery hmac deliver now d w s =
     (let s1 = snd (st_updateDelivery now (de_id d) (no_patch\<lparr>dp_status := Some DSending\<rparr>) s);
          attempt = attempt_of now (send_delivery hmac deliver d w);
          attempts = de_attempts d @ [attempt] in
      case st_updateDelivery now (de_id d) (outcome_patch now w attempts attempt) s1 of
        (None, s2) \<Rightarrow> (Inl (ApiError NOT_FOUND 404), s2) | (Some x, s2) \<Rightarrow> (Inr x, s2))"

record retry_result =
  rr_retried :: nat
  rr_succeeded :: nat
  rr_failed :: nat

text \<open>The callback \<open>deliver\<close> of the retry loop works on the store itself.\<close>

type_synonym attempt_fn = "delivery \<Rightarrow> webhook \<Rightarrow> automation_state \<Rightarrow> delivery outcome \<times> automation_state"

fun retry_loop :: "instant \<Rightarrow> attempt_fn \<Rightarrow> delivery list \<Rightarrow> retry_result \<Rightarrow> automation_state \<Rightarrow>
    retry_result \<times> automation_state" where
  "retry_loop now deliver [] r s = (r, s)"
| "retry_loop now deliver (d # ds) r s =
     (case st_getWebhook (de_webhookId d) s of
        Some w \<Rightarrow>
          if \<not> wh_enabled w then
            retry_loop now deliver ds (r\<lparr>rr_failed := rr_failed r + 1\<rparr>)
              (snd (st_updateDelivery now (de_id d) \<lparr>dp_status = Some DFailed, dp_attempts = None, dp_nextAttemptAt = Some None\<rparr> s))
          else
            (case deliver d w s of
               (Inl e, s') \<Rightarrow> retry_loop now deliver ds (r\<lparr>rr_failed := rr_failed r + 1\<rparr>) s'
             | (Inr x, s') \<Rightarrow> retry_loop now deliver ds
                 (if de_status x = DSucceeded then r\<lparr>rr_succeeded := rr_succeeded r + 1\<rparr>
                  else if de_status x = DFailed then r\<lparr>rr_failed := rr_failed r + 1\<rparr> else r) s')
      | None \<Rightarrow>
          retry_loop now deliver ds (r\<lparr>rr_failed := rr_failed r + 1\<rparr>)
            (snd (st_updateDelivery now (de_id d) \<lparr>dp_status = Some DFailed, dp_attempts = None, dp_nextAttemptAt = Some None\<rparr> s)))"

definition retryDueDeliveries :: "instant \<Rightarrow> attempt_fn \<Rightarrow> nat \<Rightarrow> automation_state \<Rightarrow> retry_result \<times> automation_state" where
  "retryDueDeliveries now deliver limit s =
     (let due = st_dueDeliveries now limit s in
      retry_loop now deliver due \<lparr>rr_retried = length due, rr_succeeded = 0, rr_failed = 0\<rparr> s)"

definition rotateSecret :: "(string \<Rightarrow> string) \<Rightarrow> string \<Rightarrow> instant \<Rightarrow> string \<Rightarrow> automation_state \<Rightarrow>
    (exposed_webhook \<times> string) outcome \<times> automation_state" where
  "rotateSecret sha rnd now i s =
     (let secret = createWebhookSecret sha rnd in
      case st_rotateSecret now i (ws_prefix secret) (ws_hash secret) s of
        (None, s') \<Rightarrow> (Inl (ApiError NOT_FOUND 404), s')
      | (Some w, s') \<Rightarrow> (Inr (exposeWebhook w, ws_raw secret), s'))"

end
