(* ===== verification/AutomationQueues.thy ===== *)
theory AutomationQueues
  imports AutomationService
begin

text \<open>
  The queues of the automation service: what \<open>consume\<close> hands out, that a lease keeps every other consumer away
  whatever else happens to the store, that publishing with a key is idempotent, and when a message dies.
\<close>

section \<open>Leasing\<close>

text \<open>Messages lie under their own identifier.\<close>

definition messages_ok :: "(string, queue_message) jsmap \<Rightarrow> bool" where
  "messages_ok ms \<longleftrightarrow> js_ok ms \<and> (\<forall>k m. (k, m) \<in> set ms \<longrightarrow> qm_id m = k)"

lemma messages_ok_get: "messages_ok ms \<Longrightarrow> js_get ms k = Some m \<Longrightarrow> qm_id m = k"
  by (auto simp: messages_ok_def dest: map_of_SomeD)

lemma messages_ok_set: "messages_ok ms \<Longrightarrow> messages_ok (js_set (qm_id m) m ms)"
  unfolding messages_ok_def using js_ok_set [of ms "qm_id m" m]
  by (auto simp: js_pair_get split: if_splits)

lemma messages_ok_drop: "messages_ok ms \<Longrightarrow> messages_ok (drop_vals p ms)"
  unfolding messages_ok_def using js_ok_drop_vals [of ms p] by (auto simp: drop_vals_def)

lemma lease_message_id [simp]: "qm_id (lease_message now l m) = qm_id m"
  by (simp add: lease_message_def)

text \<open>The three ways one turn of the loop goes.\<close>

lemma consume_loop_Cons:
  assumes "consume_loop q mx l now ((k, m) # rest) = (out, ms')"
  obtains (stop) "mx \<le> 0" "out = []" "ms' = (k, m) # rest"
  | (skip) r where "0 < mx" "\<not> deliverable q now m" "consume_loop q mx l now rest = (out, r)" "ms' = (k, m) # r"
  | (take) xs r where "0 < mx" "deliverable q now m" "consume_loop q (mx - 1) l now rest = (xs, r)"
      "out = lease_message now l m # xs" "ms' = (k, lease_message now l m) # r"
  using assms by (auto simp: Let_def split: if_splits prod.splits)

lemma consume_loop_keys: "consume_loop q mx l now ms = (out, ms') \<Longrightarrow> map fst ms' = map fst ms"
proof (induction ms arbitrary: mx out ms')
  case (Cons p rest)
  obtain k m where p: "p = (k, m)" by (cases p)
  from Cons.prems [unfolded p] show ?case
    by (cases rule: consume_loop_Cons) (simp_all add: p Cons.IH)
qed simp

text \<open>Each entry is left as it was, or was deliverable and is now leased and handed out.\<close>

definition consumed_entry :: "string \<Rightarrow> instant \<Rightarrow> int \<Rightarrow> queue_message set \<Rightarrow> string \<times> queue_message \<Rightarrow>
    string \<times> queue_message \<Rightarrow> bool" where
  "consumed_entry q now l out a b \<longleftrightarrow> fst b = fst a \<and>
     (b = a \<or> (deliverable q now (snd a) \<and> snd b = lease_message now l (snd a) \<and> snd b \<in> out))"

lemma consumed_entry_same [simp]: "consumed_entry q now l out a a"
  by (simp add: consumed_entry_def)

lemma consumed_entry_mono: "consumed_entry q now l A a b \<Longrightarrow> A \<subseteq> B \<Longrightarrow> consumed_entry q now l B a b"
  by (auto simp: consumed_entry_def)

lemma consume_loop_entries:
  "consume_loop q mx l now ms = (out, ms') \<Longrightarrow> list_all2 (consumed_entry q now l (set out)) ms ms'"
proof (induction ms arbitrary: mx out ms')
  case (Cons p rest)
  obtain k m where p: "p = (k, m)" by (cases p)
  from Cons.prems [unfolded p] show ?case
  proof (cases rule: consume_loop_Cons)
    case stop
    then show ?thesis by (simp add: p list_all2_same)
  next
    case (skip r)
    then show ?thesis using Cons.IH by (simp add: p)
  next
    case (take xs r)
    have "list_all2 (consumed_entry q now l (set out)) rest r"
      using Cons.IH [OF take(3)] by (rule list_all2_mono) (use take(4) in \<open>auto intro: consumed_entry_mono\<close>)
    moreover have "consumed_entry q now l (set out) (k, m) (k, lease_message now l m)"
      using take(2,4) by (simp add: consumed_entry_def)
    ultimately show ?thesis by (simp add: p take(5))
  qed
qed simp

lemma consume_loop_sound:
  "consume_loop q mx l now ms = (out, ms') \<Longrightarrow> x \<in> set out \<Longrightarrow>
     \<exists>k m. (k, m) \<in> set ms \<and> deliverable q now m \<and> x = lease_message now l m \<and> (k, x) \<in> set ms'"
proof (induction ms arbitrary: mx out ms')
  case (Cons p rest)
  obtain k m where p: "p = (k, m)" by (cases p)
  from Cons.prems(1) [unfolded p] show ?case
  proof (cases rule: consume_loop_Cons)
    case stop
    then show ?thesis using Cons.prems(2) by simp
  next
    case (skip r)
    from Cons.IH [OF skip(3) Cons.prems(2)] show ?thesis by (auto simp: p skip(4))
  next
    case (take xs r)
    show ?thesis
    proof (cases "x \<in> set xs")
      case True
      from Cons.IH [OF take(3) True] show ?thesis by (auto simp: p take(5))
    next
      case False
      with Cons.prems(2) take show ?thesis by (auto simp: p)
    qed
  qed
qed simp

lemma consume_loop_bound: "consume_loop q mx l now ms = (out, ms') \<Longrightarrow> int (length out) \<le> max mx 0"
proof (induction ms arbitrary: mx out ms')
  case (Cons p rest)
  obtain k m where p: "p = (k, m)" by (cases p)
  from Cons.prems [unfolded p] show ?case
  proof (cases rule: consume_loop_Cons)
    case stop
    then show ?thesis by simp
  next
    case (skip r)
    then show ?thesis using Cons.IH [OF skip(3)] by simp
  next
    case (take xs r)
    then show ?thesis using Cons.IH [OF take(3)] by simp
  qed
qed simp

lemma consume_loop_complete:
  "consume_loop q mx l now ms = (out, ms') \<Longrightarrow> int (length out) < mx \<Longrightarrow> (j, y) \<in> set ms \<Longrightarrow> deliverable q now y \<Longrightarrow>
     lease_message now l y \<in> set out"
proof (induction ms arbitrary: mx out ms')
  case (Cons p rest)
  obtain k m where p: "p = (k, m)" by (cases p)
  from Cons.prems(1) [unfolded p] show ?case
  proof (cases rule: consume_loop_Cons)
    case stop
    then show ?thesis using Cons.prems(2) by simp
  next
    case (skip r)
    then have "(j, y) \<in> set rest" using Cons.prems(3,4) by (auto simp: p)
    then show ?thesis using Cons.IH [OF skip(3) Cons.prems(2)] Cons.prems(4) by simp
  next
    case (take xs r)
    show ?thesis
    proof (cases "(j, y) \<in> set rest")
      case True
      have "int (length xs) < mx - 1" using Cons.prems(2) take(4) by simp
      from Cons.IH [OF take(3) this True Cons.prems(4)] show ?thesis by (simp add: take(4))
    next
      case False
      then show ?thesis using Cons.prems(3) take(4) by (auto simp: p)
    qed
  qed
qed simp

lemma consume_loop_distinct:
  "consume_loop q mx l now ms = (out, ms') \<Longrightarrow> \<forall>(k, m)\<in>set ms. qm_id m = k \<Longrightarrow> distinct (map fst ms) \<Longrightarrow>
     distinct (map qm_id out) \<and> qm_id ` set out \<subseteq> fst ` set ms"
proof (induction ms arbitrary: mx out ms')
  case (Cons p rest)
  obtain k m where p: "p = (k, m)" by (cases p)
  have rest: "\<forall>(k, m)\<in>set rest. qm_id m = k" "distinct (map fst rest)" and new: "k \<notin> fst ` set rest" "qm_id m = k"
    using Cons.prems(2,3) by (auto simp: p)
  from Cons.prems(1) [unfolded p] show ?case
  proof (cases rule: consume_loop_Cons)
    case stop
    then show ?thesis by simp
  next
    case (skip r)
    from Cons.IH [OF skip(3) rest] show ?thesis by auto
  next
    case (take xs r)
    from Cons.IH [OF take(3) rest] show ?thesis using new by (auto simp: p take(4))
  qed
qed simp

lemma messages_ok_consume:
  assumes "messages_ok ms" and "consume_loop q mx l now ms = (out, ms')"
  shows "messages_ok ms'"
proof -
  have "\<forall>b\<in>set ms'. qm_id (snd b) = fst b"
  proof
    fix b assume "b \<in> set ms'"
    then obtain n where n: "n < length ms'" "b = ms' ! n" by (metis in_set_conv_nth)
    have e: "consumed_entry q now l (set out) (ms ! n) (ms' ! n)"
      using consume_loop_entries [OF assms(2)] n by (simp add: list_all2_conv_all_nth)
    have "n < length ms" using consume_loop_entries [OF assms(2)] n by (simp add: list_all2_conv_all_nth)
    then have "qm_id (snd (ms ! n)) = fst (ms ! n)"
      using assms(1) nth_mem [of n ms] by (auto simp: messages_ok_def)
    with e n show "qm_id (snd b) = fst b" by (auto simp: consumed_entry_def)
  qed
  moreover have "js_ok ms'" using assms(1) consume_loop_keys [OF assms(2)] by (simp add: messages_ok_def js_ok_def)
  ultimately show ?thesis by (auto simp: messages_ok_def)
qed

text \<open>What one message becomes.\<close>

lemma consume_loop_get:
  assumes ok: "messages_ok ms" and c: "consume_loop q mx l now ms = (out, ms')" and get: "js_get ms k = Some m"
  shows "js_get ms' k = Some m \<or>
    (deliverable q now m \<and> js_get ms' k = Some (lease_message now l m) \<and> lease_message now l m \<in> set out)"
proof -
  have ok': "js_ok ms'" using messages_ok_consume [OF ok c] by (simp add: messages_ok_def)
  obtain n where n: "n < length ms" "ms ! n = (k, m)"
    using get by (metis in_set_conv_nth map_of_SomeD)
  have e: "consumed_entry q now l (set out) (ms ! n) (ms' ! n)" "n < length ms'"
    using consume_loop_entries [OF c] n(1) by (simp_all add: list_all2_conv_all_nth)
  have "js_get ms' (fst (ms' ! n)) = Some (snd (ms' ! n))"
    using js_pair_get [OF ok', of "fst (ms' ! n)" "snd (ms' ! n)"] nth_mem [OF e(2)] by simp
  moreover have "fst (ms' ! n) = k" and "ms' ! n = (k, m) \<or>
      (deliverable q now m \<and> snd (ms' ! n) = lease_message now l m \<and> snd (ms' ! n) \<in> set out)"
    using e(1) unfolding n(2) by (simp_all add: consumed_entry_def)
  ultimately show ?thesis by (elim disjE conjE) simp_all
qed

section \<open>Everything else that happens to the messages\<close>

definition held :: "string \<Rightarrow> instant \<Rightarrow> automation_state \<Rightarrow> bool" where
  "held i until s \<longleftrightarrow> messages_ok (au_messages s) \<and>
     (\<forall>m. js_get (au_messages s) i = Some m \<longrightarrow> qm_status m = Leased \<and> qm_leaseExpiresAt m = Some until)"

text \<open>
  Any operation on the store but an \<open>ack\<close> or \<open>nack\<close> of message \<open>i\<close> or a \<open>consume\<close> at or after its lease runs
  out at \<open>until\<close>; \<open>other\<close> stands for the operations on queues, schedules and webhooks.
\<close>

inductive queue_step :: "string \<Rightarrow> instant \<Rightarrow> automation_state \<Rightarrow> automation_state \<Rightarrow> bool" for i until where
  publish: "uuid \<noteq> i \<Longrightarrow> queue_step i until s (snd (publish uuid now q body key s))"
| consume: "now < until \<Longrightarrow> queue_step i until s (snd (consume now q limit leaseMs s))"
| ack: "j \<noteq> i \<Longrightarrow> queue_step i until s (snd (ack now q j s))"
| nack: "j \<noteq> i \<Longrightarrow> queue_step i until s (snd (nack now q j requeue s))"
| purge: "queue_step i until s (snd (purge q statuses s))"
| delete: "queue_step i until s (snd (st_deleteQueue j s))"
| other: "au_messages t = au_messages s \<Longrightarrow> queue_step i until s t"

inductive queue_steps :: "string \<Rightarrow> instant \<Rightarrow> automation_state \<Rightarrow> automation_state \<Rightarrow> bool" for i until where
  none: "queue_steps i until s s"
| more: "queue_steps i until s t \<Longrightarrow> queue_step i until t u \<Longrightarrow> queue_steps i until s u"

lemma held_put:
  assumes "held i until s" and "js_get (au_messages s) j = Some m" and "qm_id m' = qm_id m" and "j \<noteq> i"
  shows "held i until (s\<lparr>au_messages := js_set j m' (au_messages s)\<rparr>)"
proof -
  have ok: "messages_ok (au_messages s)" using assms(1) by (simp add: held_def)
  have "qm_id m' = j" using messages_ok_get [OF ok assms(2)] assms(3) by simp
  then show ?thesis using messages_ok_set [OF ok, of m'] assms(1,4) by (auto simp: held_def)
qed

lemma held_drop:
  assumes "held i until s"
  shows "held i until (s\<lparr>au_messages := drop_vals p (au_messages s)\<rparr>)"
proof -
  have ok: "messages_ok (au_messages s)" using assms by (simp add: held_def)
  then have "js_ok (au_messages s)" by (simp add: messages_ok_def)
  then show ?thesis using messages_ok_drop [OF ok] assms
    by (auto simp: held_def drop_vals_get split: option.splits if_splits)
qed

lemma held_messages: "au_messages t = au_messages s \<Longrightarrow> held i until s \<Longrightarrow> held i until t"
  by (simp add: held_def)

lemma scopedMessage_id: "scopedMessage q j s = Inr m \<Longrightarrow> qm_id m = j"
  by (auto simp: scopedMessage_def dest: find_Some_in split: option.splits)

lemma held_publish: "held i until s \<Longrightarrow> uuid \<noteq> i \<Longrightarrow> held i until (snd (publish uuid now q body key s))"
proof -
  assume h: "held i until s" and u: "uuid \<noteq> i"
  have ok: "messages_ok (au_messages s)" using h by (simp add: held_def)
  have "held i until (s\<lparr>au_messages := js_set uuid m (au_messages s)\<rparr>)" if "qm_id m = uuid" for m
    using messages_ok_set [OF ok, of m] h u that by (auto simp: held_def)
  then show ?thesis using h
    by (auto simp: publish_def st_publish_def Let_def split: sum.splits option.splits)
qed

lemma held_ack: "held i until s \<Longrightarrow> j \<noteq> i \<Longrightarrow> held i until (snd (ack now q j s))"
  by (auto simp: ack_def st_ack_def put_message_def dest!: scopedMessage_id intro!: held_put split: sum.splits option.splits)

lemma held_nack: "held i until s \<Longrightarrow> j \<noteq> i \<Longrightarrow> held i until (snd (nack now q j requeue s))"
  by (auto simp: nack_def st_nack_def put_message_def Let_def dest!: scopedMessage_id intro!: held_put
      split: sum.splits option.splits)

lemma consume_as_loop:
  assumes "consume now q limit leaseMs s = (out, s')"
  shows "\<exists>l n. consume_loop (qu_id q) n l now (au_messages s) = (out, au_messages s') \<and>
    1 \<le> n \<and> n \<le> 25 \<and> 1000 \<le> l \<and> l \<le> 3600000"
proof (intro exI conjI)
  let ?n = "min (max (case limit of None \<Rightarrow> 1 | Some k \<Rightarrow> if k = 0 then 1 else k) 1) (25::int)"
  let ?l = "min (max leaseMs 1000) (3600000::int)"
  show "consume_loop (qu_id q) ?n ?l now (au_messages s) = (out, au_messages s')"
    using assms by (auto simp: consume_def st_consume_def Let_def split: prod.splits)
  show "1 \<le> ?n" "?n \<le> 25" "1000 \<le> ?l" "?l \<le> 3600000" by simp_all
qed

lemma not_deliverable: "qm_status m = Leased \<Longrightarrow> qm_leaseExpiresAt m = Some until \<Longrightarrow> now < until \<Longrightarrow> \<not> deliverable q now m"
  by (simp add: deliverable_def lease_expired_def)

lemma held_consume:
  assumes "held i until s" and "now < until"
  shows "held i until (snd (consume now q limit leaseMs s))"
proof -
  obtain out s' where c: "consume now q limit leaseMs s = (out, s')" by (meson surj_pair)
  obtain l n where loop: "consume_loop (qu_id q) n l now (au_messages s) = (out, au_messages s')"
    using consume_as_loop [OF c] by blast
  have ok: "messages_ok (au_messages s)" using assms(1) by (simp add: held_def)
  have "messages_ok (au_messages s')" by (rule messages_ok_consume [OF ok loop])
  moreover have "qm_status m = Leased \<and> qm_leaseExpiresAt m = Some until" if m: "js_get (au_messages s') i = Some m" for m
  proof -
    have "i \<in> set (map fst (au_messages s'))" using map_of_SomeD [OF m] by force
    then have "js_get (au_messages s) i \<noteq> None" unfolding consume_loop_keys [OF loop] map_of_eq_None_iff by simp
    then obtain x where x: "js_get (au_messages s) i = Some x" by blast
    then have "qm_status x = Leased" "qm_leaseExpiresAt x = Some until" using assms(1) by (simp_all add: held_def)
    with consume_loop_get [OF ok loop x] not_deliverable [of x until now] assms(2) m show ?thesis by auto
  qed
  ultimately show ?thesis using c by (simp add: held_def)
qed

lemma held_step: "queue_step i until s t \<Longrightarrow> held i until s \<Longrightarrow> held i until t"
proof (induction rule: queue_step.induct)
  case (purge s q statuses)
  then show ?case by (simp add: purge_def st_purgeMessages_def Let_def held_drop)
next
  case (delete s j)
  then show ?case
    using held_messages [OF _ held_drop [OF delete, of "\<lambda>m. qm_queueId m = j"]] by (simp add: st_deleteQueue_def)
qed (simp_all add: held_publish held_ack held_nack held_consume held_messages)

lemma held_steps: "queue_steps i until s t \<Longrightarrow> held i until s \<Longrightarrow> held i until t"
  by (induction rule: queue_steps.induct) (auto intro: held_step)

lemma held_not_consumed:
  assumes "held i until s" and "now < until"
  shows "i \<notin> qm_id ` set (fst (consume now q limit leaseMs s))"
proof
  assume i: "i \<in> qm_id ` set (fst (consume now q limit leaseMs s))"
  obtain out s' where c: "consume now q limit leaseMs s = (out, s')" by (meson surj_pair)
  obtain l n where loop: "consume_loop (qu_id q) n l now (au_messages s) = (out, au_messages s')"
    using consume_as_loop [OF c] by blast
  obtain x where x: "x \<in> set out" "qm_id x = i" using i c by auto
  from consume_loop_sound [OF loop x(1)] obtain k m where
    m: "(k, m) \<in> set (au_messages s)" "deliverable (qu_id q) now m" "x = lease_message now l m" by blast
  have ok: "messages_ok (au_messages s)" using assms(1) by (simp add: held_def)
  have "k = i" using m(1,3) x(2) ok by (auto simp: messages_ok_def)
  then have "js_get (au_messages s) i = Some m"
    using m(1) ok js_pair_get [of "au_messages s" i m] by (simp add: messages_ok_def)
  then show False using assms not_deliverable [of m until now "qu_id q"] m(2) by (simp add: held_def)
qed

section \<open>Properties\<close>

text \<open>
  \<open>consume\<close> hands out between 0 and 25 distinct messages of the queue, each of which was queued or had an
  expired lease and is now leased with one more delivery; every other message is untouched; and a call with
  room left has taken every deliverable message, so none is starved.
\<close>

theorem consume_correct:
  assumes "messages_ok (au_messages s)" and "consume now q limit leaseMs s = (out, s')"
  shows "length out \<le> 25 \<and> distinct (map qm_id out) \<and>
    (\<exists>l. 1000 \<le> l \<and> l \<le> 3600000 \<and>
      (\<forall>x\<in>set out. \<exists>m. js_get (au_messages s) (qm_id x) = Some m \<and> deliverable (qu_id q) now m \<and>
         x = lease_message now l m \<and> js_get (au_messages s') (qm_id x) = Some x)) \<and>
    (\<forall>k. k \<notin> qm_id ` set out \<longrightarrow> js_get (au_messages s') k = js_get (au_messages s) k) \<and>
    (int (length out) < (case limit of Some k \<Rightarrow> min k 25 | None \<Rightarrow> 1) \<longrightarrow>
      (\<forall>k m. js_get (au_messages s) k = Some m \<and> deliverable (qu_id q) now m \<longrightarrow> k \<in> qm_id ` set out))"
proof -
  let ?n = "min (max (case limit of None \<Rightarrow> 1 | Some k \<Rightarrow> if k = 0 then 1 else k) 1) (25::int)"
  let ?l = "min (max leaseMs 1000) (3600000::int)"
  note ok = assms(1)
  have loop: "consume_loop (qu_id q) ?n ?l now (au_messages s) = (out, au_messages s')"
    using assms(2) by (auto simp: consume_def st_consume_def Let_def split: prod.splits)
  have jo: "js_ok (au_messages s)" "js_ok (au_messages s')"
    using ok messages_ok_consume [OF ok loop] by (simp_all add: messages_ok_def)
  have "int (length out) \<le> max ?n 0" by (rule consume_loop_bound [OF loop])
  then have len: "length out \<le> 25" by simp
  have keys: "\<forall>(k, m)\<in>set (au_messages s). qm_id m = k" using ok by (auto simp: messages_ok_def)
  have dist: "distinct (map qm_id out)"
    using consume_loop_distinct [OF loop keys] jo(1) by (simp add: js_ok_def)
  have each: "\<exists>m. js_get (au_messages s) (qm_id x) = Some m \<and> deliverable (qu_id q) now m \<and>
      x = lease_message now ?l m \<and> js_get (au_messages s') (qm_id x) = Some x" if xo: "x \<in> set out" for x
  proof -
    obtain k m where m: "(k, m) \<in> set (au_messages s)" "deliverable (qu_id q) now m" "x = lease_message now ?l m"
      "(k, x) \<in> set (au_messages s')" using consume_loop_sound [OF loop xo] by blast
    have "k = qm_id x" using m(1,3) keys by auto
    then show ?thesis
      using m js_pair_get [OF jo(1), of "qm_id x" m] js_pair_get [OF jo(2), of "qm_id x" x] by blast
  qed
  have frame: "js_get (au_messages s') k = js_get (au_messages s) k" if k: "k \<notin> qm_id ` set out" for k
  proof (cases "js_get (au_messages s) k")
    case None
    then have "k \<notin> set (map fst (au_messages s'))"
      unfolding consume_loop_keys [OF loop] by (simp add: map_of_eq_None_iff)
    then have "js_get (au_messages s') k = None" by (simp add: map_of_eq_None_iff)
    then show ?thesis using None by simp
  next
    case (Some m)
    have "lease_message now ?l m \<notin> set out"
    proof
      assume "lease_message now ?l m \<in> set out"
      then have "qm_id (lease_message now ?l m) \<in> qm_id ` set out" by (rule imageI)
      then show False using k messages_ok_get [OF ok Some] by simp
    qed
    then show ?thesis using consume_loop_get [OF ok loop Some] Some by simp
  qed
  have all: "k \<in> qm_id ` set out" if full: "int (length out) < (case limit of Some k \<Rightarrow> min k 25 | None \<Rightarrow> 1)"
    and m: "js_get (au_messages s) k = Some m" "deliverable (qu_id q) now m" for k m
  proof -
    have "int (length out) < ?n" using full by (auto split: option.splits if_splits)
    then have "lease_message now ?l m \<in> set out"
      using consume_loop_complete [OF loop _ map_of_SomeD [OF m(1)] m(2)] by blast
    then have "qm_id (lease_message now ?l m) \<in> qm_id ` set out" by (rule imageI)
    then show ?thesis using messages_ok_get [OF ok m(1)] by simp
  qed
  have "\<exists>l. 1000 \<le> l \<and> l \<le> 3600000 \<and>
      (\<forall>x\<in>set out. \<exists>m. js_get (au_messages s) (qm_id x) = Some m \<and> deliverable (qu_id q) now m \<and>
         x = lease_message now l m \<and> js_get (au_messages s') (qm_id x) = Some x)"
    by (rule exI [of _ ?l]) (use each in auto)
  with len dist frame all show ?thesis by blast
qed

definition sample_queue :: queue where
  "sample_queue = \<lparr>qu_id = ''q'', qu_organizationId = ''o'', qu_projectId = ''p'', qu_name = ''jobs'',
     qu_maxDeliveries = 2, qu_createdAt = 0\<rparr>"

definition sample_message :: queue_message where
  "sample_message = \<lparr>qm_id = ''m'', qm_queueId = ''q'', qm_organizationId = ''o'', qm_projectId = ''p'', qm_body = JObj [],
     qm_idempotencyKey = Some ''k'', qm_status = Queued, qm_deliveries = 0, qm_leaseExpiresAt = None,
     qm_createdAt = 0, qm_updatedAt = 0\<rparr>"

definition sample_automation :: "queue_message \<Rightarrow> automation_state" where
  "sample_automation m = \<lparr>au_queues = [(''q'', sample_queue)], au_messages = [(qm_id m, m)], au_schedules = [],
     au_webhooks = [], au_deliveries = []\<rparr>"

lemma sample_messages_ok: "messages_ok (au_messages (sample_automation m))"
  by (simp add: messages_ok_def sample_automation_def js_ok_def)

lemma sample_consumed: "consume 10 sample_queue (Some 1) 5000 (sample_automation sample_message) =
    ([lease_message 10 5000 sample_message], sample_automation (lease_message 10 5000 sample_message))"
  by (simp add: consume_def st_consume_def sample_automation_def sample_queue_def sample_message_def deliverable_def
      lease_message_def Let_def)

theorem consume_correct_witness:
  "distinct (map qm_id (fst (consume 10 sample_queue (Some 1) 5000 (sample_automation sample_message))))"
  using consume_correct [OF sample_messages_ok sample_consumed] sample_consumed by simp

text \<open>
  C23. A lease is exclusive: until it runs out, and whatever publishes, deletions, purges, other consumers and
  acknowledgements of other messages happen in between, no consumer is handed the leased message again.
\<close>

theorem lease_exclusive:
  assumes "messages_ok (au_messages s)" and "consume now q limit leaseMs s = (out, s1)"
    and "m \<in> set out" and "qm_leaseExpiresAt m = Some until"
    and "queue_steps (qm_id m) until s1 s2" and "now2 < until"
  shows "qm_id m \<notin> qm_id ` set (fst (consume now2 q2 limit2 leaseMs2 s2))"
proof (rule held_not_consumed [OF held_steps [OF assms(5)] assms(6)])
  obtain l n where loop: "consume_loop (qu_id q) n l now (au_messages s) = (out, au_messages s1)"
    using consume_as_loop [OF assms(2)] by blast
  obtain k x where x: "(k, x) \<in> set (au_messages s)" "m = lease_message now l x" "(k, m) \<in> set (au_messages s1)"
    using consume_loop_sound [OF loop assms(3)] by blast
  have ok: "messages_ok (au_messages s1)" by (rule messages_ok_consume [OF assms(1) loop])
  have jo: "js_ok (au_messages s1)" using ok by (simp add: messages_ok_def)
  have k: "js_get (au_messages s1) k = Some m" by (rule iffD1 [OF js_pair_get [OF jo] x(3)])
  have "qm_status m = Leased" unfolding x(2) by (simp add: lease_message_def)
  then show "held (qm_id m) until s1" using ok assms(4) k messages_ok_get [OF ok k] by (simp add: held_def)
qed

theorem lease_exclusive_witness:
  "''m'' \<notin> qm_id ` set (fst (consume 5009 sample_queue (Some 5) 1000 (sample_automation (lease_message 10 5000 sample_message))))"
proof -
  let ?m = "lease_message 10 5000 sample_message"
  have "qm_leaseExpiresAt ?m = Some 5010" by (simp add: lease_message_def)
  from lease_exclusive [OF sample_messages_ok sample_consumed _ this queue_steps.none, of 5009 sample_queue "Some 5" 1000]
  have "qm_id ?m \<notin> qm_id ` set (fst (consume 5009 sample_queue (Some 5) 1000 (sample_automation ?m)))" by simp
  then show ?thesis by (simp add: lease_message_def sample_message_def)
qed

text \<open>
  Publishing with an idempotency key is idempotent: after an accepted publish, publishing again to the same
  queue with the same key returns that very message as a duplicate and stores nothing, whatever the second body.
\<close>

theorem publish_idempotent:
  assumes "js_get (au_messages s) uuid = None"
    and "publish uuid now q body (Some k) s = (Inr (m, d), s1)" and "js_trim k \<noteq> []"
    and "publish uuid2 now2 q body2 (Some k) s1 = (Inr r, s2)"
  shows "\<exists>m'. r = (m', True) \<and> s2 = s1 \<and> qm_queueId m' = qu_id q \<and> qm_idempotencyKey m' = Some (js_trim k) \<and>
    m' = m"
proof -
  let ?p = "\<lambda>m. qm_queueId m = qu_id q \<and> qm_idempotencyKey m = Some (js_trim k) \<and> qm_status m \<noteq> Acked"
  from assms(2,3) have one: "((m, d), s1) = st_publish uuid now q body (Some (js_trim k)) s"
    by (auto simp: publish_def Let_def split: sum.splits prod.splits)
  from assms(3,4) have two: "(r, s2) = st_publish uuid2 now2 q body2 (Some (js_trim k)) s1"
    by (auto simp: publish_def Let_def split: sum.splits prod.splits)
  have "find ?p (js_values (au_messages s1)) = Some m \<and> ?p m"
  proof (cases "find ?p (js_values (au_messages s))")
    case (Some x)
    then have "m = x" "s1 = s" using one assms(3) by (simp_all add: st_publish_def)
    with Some find_Some_in [OF Some] show ?thesis by simp
  next
    case None
    then have m: "?p m" and s1: "s1 = s\<lparr>au_messages := js_set uuid m (au_messages s)\<rparr>"
      using one assms(3) by (auto simp: st_publish_def Let_def)
    have "js_set uuid m (au_messages s) = au_messages s @ [(uuid, m)]"
      using assms(1) by (intro js_set_new) (simp add: map_of_eq_None_iff)
    then have "js_values (au_messages s1) = js_values (au_messages s) @ [m]" using s1 by simp
    moreover have "find ?p (xs @ [m]) = Some m" if "find ?p xs = None" for xs
      using that m by (induction xs) (auto split: if_splits)
    ultimately show ?thesis using None m by simp
  qed
  then show ?thesis using two assms(3) by (simp add: st_publish_def)
qed

theorem publish_idempotent_witness:
  "\<exists>m s1. publish ''m2'' 3 sample_queue (JObj []) (Some '' k '') (sample_automation (lease_message 10 5000 sample_message)) = (Inr (m, True), s1) \<and>
     qm_id m = ''m''"
proof -
  let ?s = "sample_automation (lease_message 10 5000 sample_message)"
  have t: "js_trim '' k '' = ''k''" by (simp add: js_trim_def eval_simps)
  have "utf8_length (json_stringify (JObj [])) = 2" by code_simp
  then have size: "assertBodySize (JObj []) = Inr ()"
    by (simp add: assertBodySize_def require_def MAX_BODY_BYTES_def)
  have kc: "list_all key_char ''k''" by code_simp
  have p: "publish u now sample_queue (JObj []) (Some '' k '') ?s = (Inr (lease_message 10 5000 sample_message, True), ?s)" for u now
    using size kc t by (simp add: publish_def st_publish_def sample_queue_def sample_automation_def lease_message_def
        sample_message_def Let_def require_def)
  have "js_get (au_messages ?s) ''m1'' = None" by (simp add: sample_automation_def lease_message_def sample_message_def)
  from publish_idempotent [OF this p [of "''m1''" 0] _ p [of "''m2''" 3]] t p [of "''m2''" 3] show ?thesis
    by (simp add: lease_message_def sample_message_def)
qed

section \<open>Acknowledging\<close>

lemma listed_message:
  assumes "messages_ok (au_messages s)" and "x \<in> set (st_listMessages queueId None n s)"
  shows "js_get (au_messages s) (qm_id x) = Some x \<and> qm_queueId x = queueId"
proof -
  have v: "x \<in> set (js_values (au_messages s))" and q: "qm_queueId x = queueId"
    using assms(2) by (auto simp: st_listMessages_def dest!: in_set_takeD)
  have "js_ok (au_messages s)" using assms(1) by (simp add: messages_ok_def)
  from js_values_get [OF this v] obtain k where k: "js_get (au_messages s) k = Some x" ..
  with q messages_ok_get [OF assms(1) k] show ?thesis by simp
qed

lemma scopedMessage_found:
  assumes "messages_ok (au_messages s)" and "scopedMessage q i s = Inr m"
  shows "js_get (au_messages s) i = Some m \<and> qm_queueId m = qu_id q"
proof -
  have "m \<in> set (st_listMessages (qu_id q) None 1000 s)" and "qm_id m = i"
    using assms(2) by (auto simp: scopedMessage_def dest: find_Some_in split: option.splits)
  then show ?thesis using listed_message [OF assms(1)] by blast
qed

lemma scopedMessage_complete:
  assumes "messages_ok (au_messages s)" and "js_get (au_messages s) i = Some m" and "qm_queueId m = qu_id q"
    and "length (filter (\<lambda>x. qm_queueId x = qu_id q) (js_values (au_messages s))) \<le> 1000"
  shows "scopedMessage q i s = Inr m"
proof -
  have "m \<in> set (st_listMessages (qu_id q) None 1000 s)"
    using js_get_values [OF assms(2)] assms(3,4) by (simp add: st_listMessages_def)
  moreover have "qm_id m = i" by (rule messages_ok_get [OF assms(1,2)])
  ultimately obtain x where x: "find (\<lambda>x. qm_id x = i) (st_listMessages (qu_id q) None 1000 s) = Some x"
    using find_hits [of m _ "\<lambda>x. qm_id x = i"] by blast
  then have r: "scopedMessage q i s = Inr x" by (simp add: scopedMessage_def)
  then have "x = m" using scopedMessage_found [OF assms(1)] assms(2) by fastforce
  with r show ?thesis by simp
qed

text \<open>
  As long as a queue holds at most a thousand messages, an acknowledgement succeeds exactly for the messages of
  that queue, marking just that message; for any other identifier it answers NOT_FOUND and changes nothing.
\<close>

theorem ack_scoped:
  assumes "messages_ok (au_messages s)"
    and "length (filter (\<lambda>x. qm_queueId x = qu_id q) (js_values (au_messages s))) \<le> 1000"
  shows "ack now q i s =
    (case js_get (au_messages s) i of
       Some m \<Rightarrow> if qm_queueId m = qu_id q
         then (let m' = m\<lparr>qm_status := Acked, qm_leaseExpiresAt := None, qm_updatedAt := now\<rparr> in
               (Inr m', s\<lparr>au_messages := js_set i m' (au_messages s)\<rparr>))
         else (Inl (ApiError NOT_FOUND 404), s)
     | None \<Rightarrow> (Inl (ApiError NOT_FOUND 404), s))"
proof (cases "scopedMessage q i s")
  case (Inr m)
  note f = scopedMessage_found [OF assms(1) Inr]
  have "qm_id m = i" by (rule scopedMessage_id [OF Inr])
  with Inr f show ?thesis by (simp add: ack_def st_ack_def put_message_def Let_def)
next
  case (Inl e)
  then have e: "e = ApiError NOT_FOUND 404" by (auto simp: scopedMessage_def split: option.splits)
  show ?thesis
  proof (cases "js_get (au_messages s) i")
    case (Some m)
    then have "qm_queueId m \<noteq> qu_id q" using scopedMessage_complete [OF assms(1) Some _ assms(2)] Inl by auto
    with Some Inl e show ?thesis by (simp add: ack_def)
  qed (simp add: ack_def Inl e)
qed

theorem ack_scoped_witness:
  "\<exists>m. fst (ack 9 sample_queue ''m'' (sample_automation sample_message)) = Inr m \<and> qm_status m = Acked"
proof -
  have l: "length (filter (\<lambda>x. qm_queueId x = qu_id sample_queue) (js_values (au_messages (sample_automation sample_message)))) \<le> 1000"
    by (simp add: sample_automation_def)
  show ?thesis using ack_scoped [OF sample_messages_ok l, of 9 "''m''"]
    by (simp add: sample_automation_def sample_message_def sample_queue_def Let_def)
qed

text \<open>
  The search for the message looks at the thousand oldest of the queue only: once a thousand older messages are
  stored, acknowledged ones included, a newer message cannot be acknowledged, even while it is leased.
\<close>

theorem ack_window:
  assumes "messages_ok (au_messages s)" and "js_get (au_messages s) i = Some m"
    and "1000 \<le> length (filter (\<lambda>x. qm_queueId x = qu_id q \<and> qm_createdAt x < qm_createdAt m) (js_values (au_messages s)))"
  shows "ack now q i s = (Inl (ApiError NOT_FOUND 404), s)"
proof (cases "scopedMessage q i s")
  case (Inl e)
  then show ?thesis by (auto simp: ack_def scopedMessage_def split: option.splits)
next
  case (Inr x)
  define vs where "vs = filter (\<lambda>m. qm_queueId m = qu_id q) (js_values (au_messages s))"
  define L where "L = oldest_first qm_createdAt vs"
  have "x = m" using scopedMessage_found [OF assms(1) Inr] assms(2) by simp
  moreover have "x \<in> set (take 1000 L)"
    using Inr by (auto simp: scopedMessage_def st_listMessages_def L_def vs_def dest: find_Some_in split: option.splits)
  ultimately obtain n where "n < length (take 1000 L)" "take 1000 L ! n = m" by (metis in_set_conv_nth)
  then have n: "n < 1000" "n < length L" "L ! n = m" by auto
  let ?p = "\<lambda>x. qm_createdAt x < qm_createdAt m"
  have "sorted (map qm_createdAt L)" by (simp add: L_def oldest_first_def)
  have ge: "\<not> ?p y" if "y \<in> set (drop n L)" for y
  proof -
    from that obtain j where "j < length (drop n L)" "y = drop n L ! j" by (metis in_set_conv_nth)
    then have j: "n + j < length L" "y = L ! (n + j)" using n(2) by auto
    have "map qm_createdAt L ! n \<le> map qm_createdAt L ! (n + j)"
      by (rule sorted_nth_mono [OF \<open>sorted (map qm_createdAt L)\<close>]) (use j in simp_all)
    then show ?thesis using j n by simp
  qed
  have "filter ?p L = filter ?p (take n L @ drop n L)" by simp
  also have "\<dots> = filter ?p (take n L)" unfolding filter_append using ge by (simp add: filter_False)
  finally have "length (filter ?p L) \<le> n" by (metis length_filter_le length_take min.bounded_iff order_trans)
  moreover have "mset L = mset vs" by (simp add: L_def)
  then have "length (filter ?p L) = length (filter ?p vs)" by (metis mset_filter size_mset)
  moreover have "filter ?p vs = filter (\<lambda>x. qm_queueId x = qu_id q \<and> ?p x) (js_values (au_messages s))"
    by (simp add: vs_def conj_commute)
  ultimately show ?thesis using assms(3) n(1) by simp
qed

definition sample_backlog :: automation_state where
  "sample_backlog = \<lparr>au_queues = [(''q'', sample_queue)],
     au_messages = (''m'', sample_message\<lparr>qm_createdAt := 1\<rparr>) #
       map (\<lambda>n. (dec n, sample_message\<lparr>qm_id := dec n, qm_status := Acked\<rparr>)) [0..<1000],
     au_schedules = [], au_webhooks = [], au_deliveries = []\<rparr>"

theorem ack_window_witness: "ack 9 sample_queue ''m'' sample_backlog = (Inl (ApiError NOT_FOUND 404), sample_backlog)"
proof (rule ack_window)
  have "inj_on dec (set [0..<1000])" by (rule inj_onI) (rule dec_inj)
  then have "distinct (map dec [0..<1000])" by (subst distinct_map) simp
  moreover have "''m'' \<noteq> dec n" for n
  proof
    assume "''m'' = dec n"
    then have "list_all is_digit ''m''" using dec_digits [of n] by simp
    then show False by (simp add: is_digit_def code_def)
  qed
  ultimately show "messages_ok (au_messages sample_backlog)"
    by (auto simp: messages_ok_def js_ok_def sample_backlog_def sample_message_def comp_def)
  show "js_get (au_messages sample_backlog) ''m'' = Some (sample_message\<lparr>qm_createdAt := 1\<rparr>)"
    by (simp add: sample_backlog_def)
  have "filter p (map f xs) = map f xs" if "\<And>x. p (f x)" for p :: "queue_message \<Rightarrow> bool" and f and xs :: "nat list"
    using that by (induction xs) auto
  then show "1000 \<le> length (filter (\<lambda>x. qm_queueId x = qu_id sample_queue \<and>
      qm_createdAt x < qm_createdAt (sample_message\<lparr>qm_createdAt := 1\<rparr>)) (js_values (au_messages sample_backlog)))"
    by (simp add: sample_backlog_def comp_def sample_queue_def sample_message_def del: upt_Suc)
qed

text \<open>
  A negative acknowledgement requeues a message only while its deliveries are below the queue's limit and the caller asks
  for it, and makes it dead otherwise, whatever its state was: an acknowledged or dead message with deliveries left
  is deliverable again.
\<close>

theorem nack_outcome:
  assumes "messages_ok (au_messages s)" and "nack now q i requeue s = (Inr m', s')"
  shows "\<exists>m. js_get (au_messages s) i = Some m \<and> qm_queueId m = qu_id q \<and>
    (let mx = (case js_get (au_queues s) (qu_id q) of Some qu \<Rightarrow> qu_maxDeliveries qu | None \<Rightarrow> 5) in
     m' = m\<lparr>qm_status := (if requeue \<and> qm_deliveries m < mx then Queued else Dead), qm_leaseExpiresAt := None,
       qm_updatedAt := now\<rparr>) \<and>
    s' = s\<lparr>au_messages := js_set i m' (au_messages s)\<rparr> \<and> (deliverable (qu_id q) t m' \<longleftrightarrow> qm_status m' = Queued)"
proof -
  obtain m where sm: "scopedMessage q i s = Inr m" and n: "st_nack now (qm_id m) requeue s = (Some m', s')"
    using assms(2) by (auto simp: nack_def split: sum.splits prod.splits option.splits)
  note f = scopedMessage_found [OF assms(1) sm] and i = scopedMessage_id [OF sm]
  have m': "m' = m\<lparr>qm_status := (if \<not> requeue \<or> qm_deliveries m \<ge> (case js_get (au_queues s) (qu_id q) of
      Some qu \<Rightarrow> qu_maxDeliveries qu | None \<Rightarrow> 5) then Dead else Queued), qm_leaseExpiresAt := None, qm_updatedAt := now\<rparr>"
    and s': "s' = s\<lparr>au_messages := js_set i m' (au_messages s)\<rparr>"
    using n f i by (auto simp: st_nack_def put_message_def Let_def)
  have d: "deliverable (qu_id q) t m' \<longleftrightarrow> qm_status m' = Queued"
    using f by (simp add: m' deliverable_def lease_expired_def)
  show ?thesis
    by (rule exI [of _ m]) (use f m' s' d in \<open>auto simp: Let_def not_le\<close>)
qed

theorem nack_outcome_witness:
  "\<exists>m s'. nack 9 sample_queue ''m'' True (sample_automation (sample_message\<lparr>qm_status := Acked, qm_deliveries := 1\<rparr>)) = (Inr m, s') \<and>
     deliverable ''q'' 10 m"
proof -
  let ?s = "sample_automation (sample_message\<lparr>qm_status := Acked, qm_deliveries := 1\<rparr>)"
  obtain m s' where n: "nack 9 sample_queue ''m'' True ?s = (Inr m, s')"
    by (simp add: nack_def scopedMessage_def st_listMessages_def oldest_first_def sample_automation_def sample_queue_def
        sample_message_def st_nack_def put_message_def Let_def)
  from nack_outcome [OF sample_messages_ok n, of 10] have "deliverable ''q'' 10 m"
    by (auto simp: sample_automation_def sample_queue_def sample_message_def Let_def)
  with n show ?thesis by blast
qed

end
