(* ===== verification/AutomationSchedules.thy ===== *)
theory AutomationSchedules
  imports AutomationService
begin

text \<open>
  Firing due schedules: each fired schedule is advanced past the clock and recorded once; a schedule whose
  expression has no next run within the horizon stops the whole pass.
\<close>

definition schedules_ok :: "automation_state \<Rightarrow> bool" where
  "schedules_ok s \<longleftrightarrow> js_ok (au_schedules s) \<and> (\<forall>k x. js_get (au_schedules s) k = Some x \<longrightarrow> sc_id x = k)"

text \<open>What firing at \<open>now\<close> makes of one schedule.\<close>

definition fired_as :: "instant \<Rightarrow> schedule \<Rightarrow> schedule \<Rightarrow> bool" where
  "fired_as now x x' \<longleftrightarrow> (\<exists>nxt st. nextRunFor (sc_cron x) (now + 1000) = Inr nxt \<and> now < nxt \<and>
     st \<in> {''succeeded'', ''failed''} \<and>
     x' = x\<lparr>sc_lastRunAt := Some now, sc_lastStatus := Some st, sc_nextRunAt := Some nxt, sc_updatedAt := now\<rparr>)"

lemma nextRunFor_later: "nextRunFor c from = Inr t \<Longrightarrow> from < t"
  using nextRun_spec by (auto simp: nextRunFor_def and_then_Inr split: option.splits)

lemma mark_get:
  "js_get (au_schedules s) i = Some x \<Longrightarrow>
   js_get (au_schedules (snd (st_markScheduleRun now i r st nx s))) j =
     (if j = i then Some (x\<lparr>sc_lastRunAt := Some r, sc_lastStatus := Some st, sc_nextRunAt := nx, sc_updatedAt := now\<rparr>)
      else js_get (au_schedules s) j)"
  by (simp add: st_markScheduleRun_def Let_def)

lemma fire_loop_spec:
  assumes "fire_loop now invoke xs r s = (Inr r', s')" and "distinct (map sc_id xs)"
    and "\<forall>x\<in>set xs. js_get (au_schedules s) (sc_id x) = Some x"
  shows "fr_fired r' + fr_failed r' = fr_fired r + fr_failed r + length xs \<and>
    (\<forall>x\<in>set xs. \<exists>x'. js_get (au_schedules s') (sc_id x) = Some x' \<and> fired_as now x x') \<and>
    (\<forall>k. k \<notin> sc_id ` set xs \<longrightarrow> js_get (au_schedules s') k = js_get (au_schedules s) k)"
  using assms
proof (induction xs arbitrary: r s)
  case (Cons x xs)
  obtain nxt where n: "nextRunFor (sc_cron x) (now + 1000) = Inr nxt"
    using Cons.prems(1) by (cases "nextRunFor (sc_cron x) (now + 1000)") auto
  have later: "now < nxt" using nextRunFor_later [OF n] by simp
  obtain st r1 where st: "st \<in> {''succeeded'', ''failed''}"
    and r1: "fr_fired r1 + fr_failed r1 = fr_fired r + fr_failed r + 1"
    and loop: "fire_loop now invoke xs r1 (snd (st_markScheduleRun now (sc_id x) now st (Some nxt) s)) = (Inr r', s')"
  proof (cases "invoke (sc_projectId x) (sc_functionSlug x) (sc_payload x)")
    case None
    show ?thesis by (rule that [of "''failed''" "r\<lparr>fr_failed := fr_failed r + 1\<rparr>"]) (use Cons.prems(1) n None in simp_all)
  next
    case (Some ok)
    show ?thesis
      by (rule that [of "if ok then ''succeeded'' else ''failed''"
            "if ok then r\<lparr>fr_fired := fr_fired r + 1\<rparr> else r\<lparr>fr_failed := fr_failed r + 1\<rparr>"])
         (use Cons.prems(1) n Some in simp_all)
  qed
  define s1 where "s1 = snd (st_markScheduleRun now (sc_id x) now st (Some nxt) s)"
  have gx: "js_get (au_schedules s) (sc_id x) = Some x" using Cons.prems(3) by simp
  note get1 = mark_get [OF gx, of now now st "Some nxt", folded s1_def]
  have new: "sc_id x \<notin> sc_id ` set xs" and dist: "distinct (map sc_id xs)" using Cons.prems(2) by auto
  have rest: "\<forall>y\<in>set xs. js_get (au_schedules s1) (sc_id y) = Some y"
  proof
    fix y assume y: "y \<in> set xs"
    then have "sc_id y \<noteq> sc_id x" using new by (metis imageI)
    then show "js_get (au_schedules s1) (sc_id y) = Some y"
      using get1 [of "sc_id y"] Cons.prems(3) y by simp
  qed
  note ih = Cons.IH [OF loop [folded s1_def] dist rest]
  have "js_get (au_schedules s') (sc_id x) = js_get (au_schedules s1) (sc_id x)" using ih new by blast
  then have gx': "js_get (au_schedules s') (sc_id x) = Some (x\<lparr>sc_lastRunAt := Some now, sc_lastStatus := Some st,
      sc_nextRunAt := Some nxt, sc_updatedAt := now\<rparr>)"
    using get1 [of "sc_id x"] by simp
  have "fired_as now x (x\<lparr>sc_lastRunAt := Some now, sc_lastStatus := Some st, sc_nextRunAt := Some nxt, sc_updatedAt := now\<rparr>)"
    unfolding fired_as_def using n later st by blast
  with gx' have "\<exists>x'. js_get (au_schedules s') (sc_id x) = Some x' \<and> fired_as now x x'" by blast
  moreover have "js_get (au_schedules s') k = js_get (au_schedules s) k" if "k \<notin> sc_id ` set (x # xs)" for k
  proof -
    have "k \<noteq> sc_id x" "k \<notin> sc_id ` set xs" using that by simp_all
    with ih get1 [of k] show ?thesis by simp
  qed
  moreover have "fr_fired r' + fr_failed r' = fr_fired r + fr_failed r + length (x # xs)" using ih r1 by simp
  ultimately show ?case using ih by (metis set_ConsD)
qed simp

lemma due_props:
  assumes "schedules_ok s"
  shows "distinct (map sc_id (st_dueSchedules now limit s))"
    and "\<forall>x\<in>set (st_dueSchedules now limit s). js_get (au_schedules s) (sc_id x) = Some x \<and> schedule_due now x"
proof -
  let ?vs = "filter (schedule_due now) (js_values (au_schedules s))"
  have ok: "js_ok (au_schedules s)" using assms by (simp add: schedules_ok_def)
  have keys: "\<forall>(k, x)\<in>set (au_schedules s). sc_id x = k"
    using assms js_pair_get [OF ok] by (auto simp: schedules_ok_def)
  then have "map sc_id (js_values (au_schedules s)) = map fst (au_schedules s)" by (auto simp: case_prod_beta)
  then have "distinct (map sc_id ?vs)" using ok distinct_map_filter by (metis js_ok_def)
  then have "distinct (map sc_id (oldest_first f ?vs))" for f
    using mset_oldest_first [of f ?vs] by (metis mset_eq_imp_distinct_iff mset_map)
  then show "distinct (map sc_id (st_dueSchedules now limit s))"
    unfolding st_dueSchedules_def by (simp add: take_map [symmetric] distinct_take)
  show "\<forall>x\<in>set (st_dueSchedules now limit s). js_get (au_schedules s) (sc_id x) = Some x \<and> schedule_due now x"
  proof
    fix x assume "x \<in> set (st_dueSchedules now limit s)"
    then have v: "x \<in> set (js_values (au_schedules s))" and d: "schedule_due now x"
      unfolding st_dueSchedules_def by (auto dest!: in_set_takeD)
    from js_values_get [OF ok v] obtain k where k: "js_get (au_schedules s) k = Some x" ..
    then have "sc_id x = k" using assms by (simp add: schedules_ok_def)
    with k d show "js_get (au_schedules s) (sc_id x) = Some x \<and> schedule_due now x" by simp
  qed
qed

text \<open>
  A pass that completes fires every due schedule it took exactly once, advances each past the clock whether
  its function succeeded, failed or threw, and touches no other schedule; so when the limit covers all due
  schedules, none is due afterwards.
\<close>

theorem fire_advances_due:
  assumes "schedules_ok s" and "fireDueSchedules now invoke limit s = (Inr r, s')"
  shows "fr_fired r + fr_failed r = length (st_dueSchedules now limit s) \<and>
    (\<forall>x\<in>set (st_dueSchedules now limit s). \<exists>x'. js_get (au_schedules s') (sc_id x) = Some x' \<and> fired_as now x x') \<and>
    (\<forall>k. k \<notin> sc_id ` set (st_dueSchedules now limit s) \<longrightarrow> js_get (au_schedules s') k = js_get (au_schedules s) k) \<and>
    (length (filter (schedule_due now) (js_values (au_schedules s))) \<le> limit \<longrightarrow>
      (\<forall>k x. js_get (au_schedules s') k = Some x \<longrightarrow> \<not> schedule_due now x))"
proof -
  let ?due = "st_dueSchedules now limit s"
  have loop: "fire_loop now invoke ?due \<lparr>fr_fired = 0, fr_failed = 0\<rparr> s = (Inr r, s')"
    using assms(2) by (simp add: fireDueSchedules_def)
  note sp = fire_loop_spec [OF loop due_props(1) [OF assms(1)]] due_props(2) [OF assms(1), of now limit]
  have fired: "fr_fired r + fr_failed r = length ?due"
    and adv: "\<And>x. x \<in> set ?due \<Longrightarrow> \<exists>x'. js_get (au_schedules s') (sc_id x) = Some x' \<and> fired_as now x x'"
    and frame: "\<And>k. k \<notin> sc_id ` set ?due \<Longrightarrow> js_get (au_schedules s') k = js_get (au_schedules s) k"
    using sp by auto
  have none: "\<not> schedule_due now x"
    if few: "length (filter (schedule_due now) (js_values (au_schedules s))) \<le> limit"
      and x: "js_get (au_schedules s') k = Some x" for k x
  proof (cases "k \<in> sc_id ` set ?due")
    case True
    then obtain y where y: "y \<in> set ?due" "sc_id y = k" by blast
    from adv [OF y(1)] y(2) x have "fired_as now y x" by auto
    then show ?thesis by (auto simp: fired_as_def schedule_due_def)
  next
    case False
    with x frame have g: "js_get (au_schedules s) k = Some x" by simp
    then have idk: "sc_id x = k" using assms(1) by (simp add: schedules_ok_def)
    show ?thesis
    proof
      assume "schedule_due now x"
      then have "x \<in> set ?due" using few js_get_values [OF g] unfolding st_dueSchedules_def by simp
      then show False using False idk by blast
    qed
  qed
  show ?thesis using fired adv frame none by blast
qed

text \<open>
  C28. One schedule without a next run stops the pass: if the oldest due schedule is the leap-day schedule, then for
  the three years after it fired, firing raises before anything is invoked or recorded, so it stays first in line
  and every other due schedule stays unfired.
\<close>

theorem leap_schedule_blocks_firing:
  assumes "is_leap y" and "utc_first y 1 + 28 * ms_day \<le> now + 1000" and "now + 1000 < utc_first (y + 3) 2"
    and "st_dueSchedules now limit s = x # xs" and "sc_cron x = ''0 0 29 2 *''"
  shows "fireDueSchedules now invoke limit s = (Inl cron_error, s)"
  using leap_cron_None [OF assms(1-3)] assms(4,5) by (simp add: fireDueSchedules_def)

definition sample_schedule :: "string \<Rightarrow> schedule" where
  "sample_schedule c = \<lparr>sc_id = ''s'', sc_organizationId = ''o'', sc_projectId = ''p'', sc_name = ''n'',
     sc_functionSlug = ''fn'', sc_cron = c, sc_payload = JObj [], sc_enabled = True, sc_nextRunAt = Some 0,
     sc_lastRunAt = None, sc_lastStatus = None, sc_createdAt = 0, sc_updatedAt = 0\<rparr>"

definition sample_schedules :: "string \<Rightarrow> automation_state" where
  "sample_schedules c = \<lparr>au_queues = [], au_messages = [], au_schedules = [(''s'', sample_schedule c)],
     au_webhooks = [], au_deliveries = []\<rparr>"

lemma sample_schedules_ok: "schedules_ok (sample_schedules c)"
  by (simp add: schedules_ok_def sample_schedules_def js_ok_def sample_schedule_def)

lemma sample_due: "0 \<le> now \<Longrightarrow> st_dueSchedules now 25 (sample_schedules c) = [sample_schedule c]"
  by (simp add: st_dueSchedules_def sample_schedules_def schedule_due_def sample_schedule_def oldest_first_def)

theorem fire_advances_due_witness:
  "\<exists>r s'. fireDueSchedules 0 (\<lambda>_ _ _. None) 25 (sample_schedules ''* * * * *'') = (Inr r, s') \<and>
     fr_fired r + fr_failed r = 1"
proof -
  obtain nxt where n: "nextRunFor ''* * * * *'' 1000 = Inr nxt"
  proof -
    have p: "parseCron ''* * * * *'' = Inr \<lparr>cf_minute = [0..59], cf_hour = [0..23], cf_dom = [1..31], cf_month = [1..12], cf_dow = [0..6]\<rparr>"
      by code_simp
    have "cron_matches \<lparr>cf_minute = [0..59], cf_hour = [0..23], cf_dom = [1..31], cf_month = [1..12], cf_dow = [0..6]\<rparr> 60000"
      using utc_date_range [of 60000] utc_month_range [of 60000]
      by (simp add: cron_matches_def utc_minutes_def utc_hours_def utc_weekday_def utc_day_def ms_day_def)
    then have "nextRun \<lparr>cf_minute = [0..59], cf_hour = [0..23], cf_dom = [1..31], cf_month = [1..12], cf_dow = [0..6]\<rparr> 1000 = Some 60000"
      unfolding nextRun_spec by (auto simp: mod_eq_0_iff_dvd dvd_def) 
    then show ?thesis using that p by (simp add: nextRunFor_def)
  qed
  then obtain r s' where f: "fireDueSchedules 0 (\<lambda>_ _ _. None) 25 (sample_schedules ''* * * * *'') = (Inr r, s')"
    by (simp add: fireDueSchedules_def sample_due) (simp add: sample_schedule_def)
  with fire_advances_due [OF sample_schedules_ok f] show ?thesis by (simp add: sample_due)
qed

theorem leap_schedule_blocks_firing_witness:
  "fireDueSchedules (utc_first 2028 1 + 28 * ms_day) (\<lambda>_ _ _. Some True) 25 (sample_schedules ''0 0 29 2 *'') =
     (Inl cron_error, sample_schedules ''0 0 29 2 *'')"
proof (rule leap_schedule_blocks_firing [of 2028])
  show "st_dueSchedules (utc_first 2028 1 + 28 * ms_day) 25 (sample_schedules ''0 0 29 2 *'') =
      sample_schedule ''0 0 29 2 *'' # []"
    by (rule sample_due) (simp add: utc_first_def month_start_def month_starts_def day_from_year_def is_leap_def ms_day_def)
qed (simp_all add: is_leap_def utc_first_def month_start_def month_starts_def day_from_year_def ms_day_def sample_schedule_def)

end
