(* ===== verification/AutomationWebhooks.thy ===== *)
theory AutomationWebhooks
  imports AutomationService
begin

text \<open>
  Outbound webhooks: the fan-out of one event stays inside its tenant, deliveries are attempted a bounded number
  of times with the table's back-off, and receivers can verify signatures with the secret they were shown.
\<close>

section \<open>Fan-out\<close>

definition delivery_for :: "instant \<Rightarrow> project_event \<Rightarrow> webhook \<Rightarrow> string \<Rightarrow> delivery" where
  "delivery_for now ev w uuid =
     \<lparr>de_id = uuid, de_webhookId = wh_id w, de_organizationId = ev_organizationId ev,
      de_projectId = ev_projectId ev, de_eventType = ev_type ev, de_payload = ev_payload ev, de_status = DPending,
      de_attempts = [], de_nextAttemptAt = Some now, de_createdAt = now, de_updatedAt = now\<rparr>"

definition own_webhook :: "project_event \<Rightarrow> webhook \<Rightarrow> bool" where
  "own_webhook ev w \<longleftrightarrow> wh_organizationId w = ev_organizationId ev \<and> wh_projectId w = ev_projectId ev"

lemma emit_loop_spec:
  "emit_loop now ev uuids k ws s = (ds, s') \<Longrightarrow>
     ds = map2 (delivery_for now ev) (filter (own_webhook ev) ws) (map uuids [k..<k + length (filter (own_webhook ev) ws)]) \<and>
     au_deliveries s' = fold (\<lambda>d. js_set (de_id d) d) ds (au_deliveries s) \<and> au_webhooks s' = au_webhooks s"
proof (induction ws arbitrary: k s ds)
  case (Cons w ws)
  show ?case
  proof (cases "own_webhook ev w")
    case False
    with Cons show ?thesis by (auto simp: own_webhook_def)
  next
    case True
    let ?d = "delivery_for now ev w (uuids k)"
    have c: "st_createDelivery (uuids k) now (wh_id w) (wh_organizationId w) (wh_projectId w) (ev_type ev) (ev_payload ev) (Some now) s =
        (?d, s\<lparr>au_deliveries := js_set (uuids k) ?d (au_deliveries s)\<rparr>)"
      using True by (simp add: st_createDelivery_def delivery_for_def own_webhook_def Let_def)
    obtain ds1 where l: "emit_loop now ev uuids (k + 1) ws (s\<lparr>au_deliveries := js_set (uuids k) ?d (au_deliveries s)\<rparr>) = (ds1, s')"
      and ds: "ds = ?d # ds1"
      using Cons.prems True c by (auto simp: own_webhook_def split: prod.splits)
    have "[k..<k + length (filter (own_webhook ev) (w # ws))] = k # [k + 1..<k + 1 + length (filter (own_webhook ev) ws)]"
      using True by (simp add: upt_conv_Cons del: upt_Suc)
    then show ?thesis using Cons.IH [OF l] ds True by (simp add: delivery_for_def)
  qed
qed simp

text \<open>
  An event creates exactly one pending delivery for each enabled webhook of its own organization and project
  that subscribes to its type, in order, and none for any other webhook, even when the caller passes a list
  with webhooks of other tenants.
\<close>

theorem emit_stays_in_tenant:
  assumes "emit now ev (Some ws) uuids s = (ds, s')"
  shows "map de_webhookId ds =
      map wh_id (filter (\<lambda>w. wh_enabled w \<and> ev_type ev \<in> set (wh_eventTypes w) \<and> own_webhook ev w) ws) \<and>
    (\<forall>d\<in>set ds. de_organizationId d = ev_organizationId ev \<and> de_projectId d = ev_projectId ev \<and>
       de_status d = DPending \<and> de_attempts d = [] \<and> de_nextAttemptAt d = Some now)"
proof -
  let ?m = "filter (\<lambda>w. wh_enabled w \<and> ev_type ev \<in> set (wh_eventTypes w)) ws"
  have l: "emit_loop now ev uuids 0 ?m s = (ds, s')" using assms by (simp add: emit_def)
  let ?o = "filter (own_webhook ev) ?m"
  have ds: "ds = map2 (delivery_for now ev) ?o (map uuids [0..<0 + length ?o])"
    using emit_loop_spec [OF l] by blast
  have "map de_webhookId ds = map wh_id ?o"
    unfolding ds by (rule nth_equalityI) (simp_all add: delivery_for_def)
  moreover have "?o = filter (\<lambda>w. wh_enabled w \<and> ev_type ev \<in> set (wh_eventTypes w) \<and> own_webhook ev w) ws"
    by (induction ws) auto
  moreover have "de_organizationId d = ev_organizationId ev \<and> de_projectId d = ev_projectId ev \<and>
       de_status d = DPending \<and> de_attempts d = [] \<and> de_nextAttemptAt d = Some now" if "d \<in> set ds" for d
    using that unfolding ds by (auto simp: delivery_for_def)
  ultimately show ?thesis by simp
qed

definition sample_webhook :: "string \<Rightarrow> webhook" where
  "sample_webhook org = \<lparr>wh_id = ''w'', wh_organizationId = org, wh_projectId = ''p'', wh_name = ''hook'', wh_url = ''u'',
     wh_eventTypes = [''job.failed''], wh_secretPrefix = ''whsec_'', wh_enabled = True, wh_maxAttempts = 3,
     wh_createdAt = 0, wh_updatedAt = 0, wh_secretHash = ''h''\<rparr>"

definition sample_event :: project_event where
  "sample_event = \<lparr>ev_type = ''job.failed'', ev_organizationId = ''o'', ev_projectId = ''p'', ev_payload = JObj []\<rparr>"

definition empty_automation :: automation_state where
  "empty_automation = \<lparr>au_queues = [], au_messages = [], au_schedules = [], au_webhooks = [], au_deliveries = []\<rparr>"

theorem emit_stays_in_tenant_witness:
  "map de_webhookId (fst (emit 5 sample_event (Some [sample_webhook ''other'', sample_webhook ''o'']) (\<lambda>_. ''d'') empty_automation)) = [''w'']"
proof -
  obtain ds s' where e: "emit 5 sample_event (Some [sample_webhook ''other'', sample_webhook ''o'']) (\<lambda>_. ''d'') empty_automation = (ds, s')"
    by (meson surj_pair)
  from emit_stays_in_tenant [OF e] e show ?thesis by (simp add: own_webhook_def sample_webhook_def sample_event_def)
qed

section \<open>Attempts\<close>

text \<open>The most attempts a webhook's deliveries get: the table has six waits, so seven at most.\<close>

definition attempt_cap :: "webhook \<Rightarrow> int" where
  "attempt_cap w = min (wh_maxAttempts w) 7"

text \<open>A delivery due for an attempt has attempts left.\<close>

definition attempts_ok :: "webhook \<Rightarrow> delivery \<Rightarrow> bool" where
  "attempts_ok w d \<longleftrightarrow>
     (de_status d = DPending \<longrightarrow> int (length (de_attempts d)) < attempt_cap w \<and> de_nextAttemptAt d \<noteq> None) \<and>
     (de_status d \<in> {DSucceeded, DFailed} \<longrightarrow> de_nextAttemptAt d = None) \<and>
     int (length (de_attempts d)) \<le> attempt_cap w"

lemma updateDelivery_twice:
  assumes "js_get (au_deliveries s) i = Some d"
  shows "fst (st_updateDelivery now i p2 (snd (st_updateDelivery now i p1 s))) =
    Some (patch_delivery now p2 (patch_delivery now p1 d))"
  using assms by (simp add: st_updateDelivery_def Let_def)

lemma backoff_None_iff: "backoffMs n = None \<longleftrightarrow> 6 \<le> n"
  by (auto simp: backoffMs_def backoff_table_def)

lemma backoff_range: "backoffMs n = Some w \<Longrightarrow> 60000 \<le> w \<and> w \<le> 86400000"
proof -
  assume "backoffMs n = Some w"
  then have "n \<in> set [0..<6]" "w = backoff_table ! n" by (auto simp: backoffMs_def backoff_table_def split: if_splits)
  moreover have "\<forall>n\<in>set [0..<6]. 60000 \<le> backoff_table ! n \<and> backoff_table ! n \<le> 86400000"
    by (simp add: backoff_table_def upt_rec)
  ultimately show ?thesis by blast
qed

lemma attempt_result:
  assumes "js_get (au_deliveries s) (de_id d) = Some d"
    and "attemptDelivery hmac deliver now d w s = (Inr d', s')"
  shows "\<exists>a. de_attempts d' = de_attempts d @ [a] \<and> da_at a = now \<and>
    (if da_ok a then de_status d' = DSucceeded \<and> de_nextAttemptAt d' = None
     else if int (length (de_attempts d')) \<ge> attempt_cap w then de_status d' = DFailed \<and> de_nextAttemptAt d' = None
     else de_status d' = DPending \<and> (\<exists>wait. backoffMs (length (de_attempts d)) = Some wait \<and> de_nextAttemptAt d' = Some (now + wait)))"
proof -
  define a where "a = attempt_of now (send_delivery hmac deliver d w)"
  let ?p1 = "no_patch\<lparr>dp_status := Some DSending\<rparr>" and ?p2 = "outcome_patch now w (de_attempts d @ [a]) a"
  have d': "d' = patch_delivery now ?p2 (patch_delivery now ?p1 d)"
    using assms(2) updateDelivery_twice [OF assms(1), of now ?p2 ?p1]
    by (auto simp: attemptDelivery_def Let_def a_def split: prod.splits option.splits)
  have ats: "de_attempts d' = de_attempts d @ [a]"
    by (simp add: d' patch_delivery_def assigned_def outcome_patch_def Let_def)
  have ex: "(backoffMs (length (de_attempts d)) = None \<or> int (length (de_attempts d @ [a])) \<ge> wh_maxAttempts w) \<longleftrightarrow>
      int (length (de_attempts d')) \<ge> attempt_cap w"
    unfolding ats backoff_None_iff attempt_cap_def by auto
  show ?thesis
  proof (intro exI [of _ a] conjI)
    show "de_attempts d' = de_attempts d @ [a]" by (rule ats)
    show "da_at a = now" by (simp add: a_def attempt_of_def)
    show "if da_ok a then de_status d' = DSucceeded \<and> de_nextAttemptAt d' = None
     else if int (length (de_attempts d')) \<ge> attempt_cap w then de_status d' = DFailed \<and> de_nextAttemptAt d' = None
     else de_status d' = DPending \<and> (\<exists>wait. backoffMs (length (de_attempts d)) = Some wait \<and> de_nextAttemptAt d' = Some (now + wait))"
      unfolding ex [symmetric]
      by (cases "backoffMs (length (de_attempts d))")
         (auto simp: d' patch_delivery_def assigned_def outcome_patch_def Let_def)
  qed
qed

text \<open>
  Retries end: an attempt on a delivery that has attempts left appends exactly one attempt and leaves it
  succeeded, failed, or pending with its next attempt between one minute and one day ahead; however deliver behaves,
  no delivery gets more than \<open>min maxAttempts 7\<close> attempts, and a terminal one has no next attempt.
\<close>

theorem attempts_bounded:
  assumes "js_get (au_deliveries s) (de_id d) = Some d" and "attempts_ok w d" and "de_status d = DPending"
    and "attemptDelivery hmac deliver now d w s = (Inr d', s')"
  shows "attempts_ok w d' \<and> length (de_attempts d') = Suc (length (de_attempts d)) \<and>
    de_status d' \<in> {DPending, DSucceeded, DFailed} \<and>
    (de_status d' = DPending \<longrightarrow> (\<exists>n. de_nextAttemptAt d' = Some n \<and> now + 60000 \<le> n \<and> n \<le> now + 86400000))"
proof -
  obtain a where a: "de_attempts d' = de_attempts d @ [a]"
    and r: "if da_ok a then de_status d' = DSucceeded \<and> de_nextAttemptAt d' = None
     else if int (length (de_attempts d')) \<ge> attempt_cap w then de_status d' = DFailed \<and> de_nextAttemptAt d' = None
     else de_status d' = DPending \<and> (\<exists>wait. backoffMs (length (de_attempts d)) = Some wait \<and> de_nextAttemptAt d' = Some (now + wait))"
    using attempt_result [OF assms(1,4)] by blast
  have le: "int (length (de_attempts d')) \<le> attempt_cap w" using assms(2,3) a by (simp add: attempts_ok_def)
  show ?thesis using r le a backoff_range by (fastforce simp: attempts_ok_def split: if_splits)
qed

definition sample_delivery :: delivery where
  "sample_delivery = delivery_for 0 sample_event (sample_webhook ''o'') ''d''"

theorem attempts_bounded_witness:
  "\<exists>d' s'. attemptDelivery (\<lambda>_ _. ''x'') (\<lambda>_ _ _. Threw None) 7 sample_delivery (sample_webhook ''o'')
       (empty_automation\<lparr>au_deliveries := [(''d'', sample_delivery)]\<rparr>) = (Inr d', s') \<and> attempts_ok (sample_webhook ''o'') d'"
proof -
  let ?s = "empty_automation\<lparr>au_deliveries := [(''d'', sample_delivery)]\<rparr>"
  have g: "js_get (au_deliveries ?s) (de_id sample_delivery) = Some sample_delivery"
    by (simp add: sample_delivery_def delivery_for_def)
  have ok: "attempts_ok (sample_webhook ''o'') sample_delivery" and p: "de_status sample_delivery = DPending"
    by (simp_all add: attempts_ok_def attempt_cap_def sample_delivery_def delivery_for_def sample_webhook_def)
  obtain d' s' where r: "attemptDelivery (\<lambda>_ _. ''x'') (\<lambda>_ _ _. Threw None) 7 sample_delivery (sample_webhook ''o'') ?s = (Inr d', s')"
    using g by (simp add: attemptDelivery_def st_updateDelivery_def Let_def)
  from attempts_bounded [OF g ok p r] r show ?thesis by blast
qed

end
