(* ===== verification/WebhookGuard.thy ===== *)
theory WebhookGuard
  imports AgentTokens AutomationService
begin

text \<open>
  Two address matchers of the repository meet here: the octet tests that keep webhooks away from internal
  addresses (\<open>isBlockedLiteralIp\<close> of the automation service) and the bit-mask CIDR matcher of the agents'
  allow lists (\<open>v4Matches\<close>).  For a dotted quad the first blocks exactly a list of CIDR blocks of the second.
\<close>

section \<open>Quads as words\<close>

definition blocked_cidrs :: "(string \<times> nat) list" where
  "blocked_cidrs =
     [(''0.0.0.0'', 8), (''10.0.0.0'', 8), (''100.64.0.0'', 10), (''127.0.0.0'', 8), (''169.254.0.0'', 16),
      (''172.16.0.0'', 12), (''192.0.0.0'', 16), (''192.2.0.0'', 16), (''192.18.0.0'', 16), (''192.88.0.0'', 16),
      (''192.168.0.0'', 16), (''224.0.0.0'', 3)]"

definition quad_word :: "nat list \<Rightarrow> 32 word" where
  "quad_word b = of_nat (b ! 0 * 256 ^ 3 + b ! 1 * 256 ^ 2 + b ! 2 * 256 + b ! 3)"

definition octets :: "nat list \<Rightarrow> bool" where
  "octets b \<longleftrightarrow> length b = 4 \<and> list_all (\<lambda>n. n \<le> 255) b"

lemma octets_cases: "octets b \<Longrightarrow> \<exists>w x y z. b = [w, x, y, z] \<and> w < 256 \<and> x < 256 \<and> y < 256 \<and> z < 256"
  by (auto simp: octets_def length_Suc_conv eval_nat_numeral)

lemma unat_quad: "w < 256 \<Longrightarrow> x < 256 \<Longrightarrow> y < 256 \<Longrightarrow> z < 256 \<Longrightarrow>
    unat (quad_word [w, x, y, z]) = w * 16777216 + x * 65536 + y * 256 + z"
  unfolding quad_word_def unat_of_nat by simp

lemma unat_drop_bit: "unat (drop_bit k v) = unat v div 2 ^ k" for v :: "32 word"
  by (subst unat_drop_bit_eq) (rule drop_bit_eq_div)

lemma ipv4ToInt_quad:
  assumes "ipv4_groups s = Some gs" and "octets (map dec_val gs)"
  shows "ipv4ToInt s = Some (quad_word (map dec_val gs))"
proof -
  have "js_trim s = s" using assms(1) by (intro js_trim_id ipv4_trimmed) simp
  moreover have "\<not> list_ex (\<lambda>n. n > 255) (map dec_val gs)"
    using assms(2) by (auto simp: octets_def list_all_iff list_ex_iff)
  ultimately show ?thesis using assms(1) by (simp add: ipv4ToInt_def quad_word_def Let_def)
qed

lemma nat_div_eqI: "q * k \<le> n \<Longrightarrow> n < q * k + k \<Longrightarrow> n div k = q" for n k q :: nat
  by (metis add.commute div_nat_eqI mult.commute mult_Suc_right)

lemma nat_div_iff: "0 < k \<Longrightarrow> n div k = q \<longleftrightarrow> q * k \<le> n \<and> n < q * k + k" for n k q :: nat
  using nat_div_eqI [of q k n] div_times_less_eq_dividend [of n k] dividend_less_div_times [of k n] by auto

lemma digits_unique:
  fixes w k b :: nat
  assumes "k < b" and "k' < b"
  shows "w * b + k = w' * b + k' \<longleftrightarrow> w = w' \<and> k = k'"
proof
  assume e: "w * b + k = w' * b + k'"
  have "(w * b + k) div b = w" "(w' * b + k') div b = w'"
    using assms by (auto intro: nat_div_eqI)
  with e show "w = w' \<and> k = k'" by auto
qed simp

lemma prefix_div:
  assumes "ipv4ToInt ip = Some v" and "ipv4_groups base \<noteq> None" and "ipv4ToInt base = Some y" and "n \<le> 32"
  shows "v4Matches ip (base @ ''/'' @ dec n) \<longleftrightarrow> unat v div 2 ^ (32 - n) = unat y div 2 ^ (32 - n)"
  unfolding v4Matches_block [OF assms] by (simp only: word_unat_eq_iff unat_drop_bit)

text \<open>The leading bits of a quad, as octets.\<close>

lemma quad_div:
  fixes w x y z :: nat
  assumes "x < 256" and "y < 256" and "z < 256"
  defines "N \<equiv> w * 16777216 + x * 65536 + y * 256 + z"
  shows "N div 16777216 = w" and "N div 65536 = w * 256 + x" and "N div 1048576 = w * 16 + x div 16"
    and "N div 4194304 = w * 4 + x div 64" and "N div 536870912 = w div 32"
proof -
  show a: "N div 65536 = w * 256 + x"
    unfolding N_def by (rule nat_div_eqI) (use assms in simp_all)
  have b: "(w * 256 + x) div 256 = w" by (rule nat_div_eqI) (use assms in simp_all)
  show c: "N div 16777216 = w" using a b div_mult2_eq [of N 65536 256] by simp
  have "(w * 256 + x) div 16 = w * 16 + x div 16" using div_mult_self3 [of 16 x "w * 16"] by (simp add: mult.commute)
  then show "N div 1048576 = w * 16 + x div 16" using a div_mult2_eq [of N 65536 16] by simp
  have "(w * 256 + x) div 64 = w * 4 + x div 64" using div_mult_self3 [of 64 x "w * 4"] by (simp add: mult.commute)
  then show "N div 4194304 = w * 4 + x div 64" using a div_mult2_eq [of N 65536 64] by simp
  show "N div 536870912 = w div 32" using c div_mult2_eq [of N 16777216 32] by simp
qed

lemma block_bases:
  "ipv4_groups ''0.0.0.0'' \<noteq> None \<and> ipv4ToInt ''0.0.0.0'' = Some 0"
  "ipv4_groups ''10.0.0.0'' \<noteq> None \<and> ipv4ToInt ''10.0.0.0'' = Some 0x0a000000"
  "ipv4_groups ''100.64.0.0'' \<noteq> None \<and> ipv4ToInt ''100.64.0.0'' = Some 0x64400000"
  "ipv4_groups ''127.0.0.0'' \<noteq> None \<and> ipv4ToInt ''127.0.0.0'' = Some 0x7f000000"
  "ipv4_groups ''169.254.0.0'' \<noteq> None \<and> ipv4ToInt ''169.254.0.0'' = Some 0xa9fe0000"
  "ipv4_groups ''172.16.0.0'' \<noteq> None \<and> ipv4ToInt ''172.16.0.0'' = Some 0xac100000"
  "ipv4_groups ''192.0.0.0'' \<noteq> None \<and> ipv4ToInt ''192.0.0.0'' = Some 0xc0000000"
  "ipv4_groups ''192.2.0.0'' \<noteq> None \<and> ipv4ToInt ''192.2.0.0'' = Some 0xc0020000"
  "ipv4_groups ''192.18.0.0'' \<noteq> None \<and> ipv4ToInt ''192.18.0.0'' = Some 0xc0120000"
  "ipv4_groups ''192.88.0.0'' \<noteq> None \<and> ipv4ToInt ''192.88.0.0'' = Some 0xc0580000"
  "ipv4_groups ''192.168.0.0'' \<noteq> None \<and> ipv4ToInt ''192.168.0.0'' = Some 0xc0a80000"
  "ipv4_groups ''224.0.0.0'' \<noteq> None \<and> ipv4ToInt ''224.0.0.0'' = Some 0xe0000000"
  by (simp_all add: ipv4_eval eval_simps)

lemma block_matches:
  assumes "ipv4ToInt ip = Some (quad_word [w, x, y, z])" and "w < 256" and "x < 256" and "y < 256" and "z < 256"
  shows "list_ex (\<lambda>(b, n). v4Matches ip (b @ ''/'' @ dec n)) blocked_cidrs \<longleftrightarrow>
    w \<in> {0, 10, 127} \<or> w * 4 + x div 64 = 401 \<or> w * 256 + x = 43518 \<or> w * 16 + x div 16 = 2753 \<or>
    w * 256 + x \<in> {49152, 49154, 49170, 49240, 49320} \<or> w div 32 = 7"
proof -
  note u = unat_quad [OF assms(2-5)] and q = quad_div [OF assms(3-5), of w]
  have m: "v4Matches ip (b @ ''/'' @ dec n) \<longleftrightarrow>
      (w * 16777216 + x * 65536 + y * 256 + z) div 2 ^ (32 - n) = unat c div 2 ^ (32 - n)"
    if "ipv4_groups b \<noteq> None \<and> ipv4ToInt b = Some c" and "n \<le> 32" for b n c
    using prefix_div [OF assms(1), of b c n] that u by simp
  show ?thesis
    unfolding blocked_cidrs_def list_ex_Cons_iff list_ex_Nil_iff prod.case
    by (simp only: m [OF block_bases(1), of 8] m [OF block_bases(2), of 8] m [OF block_bases(3), of 10]
        m [OF block_bases(4), of 8] m [OF block_bases(5), of 16] m [OF block_bases(6), of 12]
        m [OF block_bases(7), of 16] m [OF block_bases(8), of 16] m [OF block_bases(9), of 16]
        m [OF block_bases(10), of 16] m [OF block_bases(11), of 16] m [OF block_bases(12), of 3] q)
       (simp add: q, blast)
qed

lemma blocked_v4_arith:
  assumes "w < 256" and "x < 256" and "y < 256" and "z < 256"
  shows "blocked_v4 [w, x, y, z] \<longleftrightarrow>
    w \<in> {0, 10, 127} \<or> w * 4 + x div 64 = 401 \<or> w * 256 + x = 43518 \<or> w * 16 + x div 16 = 2753 \<or>
    w * 256 + x \<in> {49152, 49154, 49170, 49240, 49320} \<or> w div 32 = 7"
proof -
  have lt: "x div 64 < 4" "x div 16 < 16" "w div 32 < 8"
    using assms by (simp_all add: less_mult_imp_div_less)
  have a: "w * 4 + x div 64 = 401 \<longleftrightarrow> w = 100 \<and> 64 \<le> x \<and> x \<le> 127"
  proof -
    have "w * 4 + x div 64 = 401 \<longleftrightarrow> w = 100 \<and> x div 64 = 1"
      using digits_unique [OF lt(1), of 1 w 100] by simp
    then show ?thesis using nat_div_iff [of 64 x 1] by auto
  qed
  have b: "w * 16 + x div 16 = 2753 \<longleftrightarrow> w = 172 \<and> 16 \<le> x \<and> x \<le> 31"
  proof -
    have "w * 16 + x div 16 = 2753 \<longleftrightarrow> w = 172 \<and> x div 16 = 1"
      using digits_unique [OF lt(2), of 1 w 172] by simp
    then show ?thesis using nat_div_iff [of 16 x 1] by auto
  qed
  have c: "w * 256 + x = 43518 \<longleftrightarrow> w = 169 \<and> x = 254"
    using digits_unique [OF assms(2), of 254 w 169] by simp
  have d: "w * 256 + x \<in> {49152, 49154, 49170, 49240, 49320} \<longleftrightarrow> w = 192 \<and> x \<in> {0, 2, 18, 88, 168}"
    using digits_unique [OF assms(2), of 0 w 192] digits_unique [OF assms(2), of 2 w 192]
      digits_unique [OF assms(2), of 18 w 192] digits_unique [OF assms(2), of 88 w 192]
      digits_unique [OF assms(2), of 168 w 192] by auto
  have e: "w div 32 = 7 \<longleftrightarrow> 224 \<le> w" using assms(1) nat_div_iff [of 32 w 7] by auto
  have f: "\<not> list_ex (\<lambda>n. n > 255) [w, x, y, z]" using assms by simp
  show ?thesis unfolding a b c d e using f by (auto simp: blocked_v4_def Let_def)
qed

lemma ipv4_lower: "ipv4_groups s \<noteq> None \<Longrightarrow> strip_brackets (to_lower s) = s"
proof -
  assume g: "ipv4_groups s \<noteq> None"
  have c: "is_digit c \<or> c = CHR ''.''" if "c \<in> set s" for c by (rule ipv4_groups_chars [OF g that])
  have "lower_char c = c" if "c \<in> set s" for c
    using c [OF that] by (auto simp: lower_char_def is_upper_def is_digit_def code_def)
  then have l: "to_lower s = s" unfolding to_lower_def by (simp add: map_idI)
  have nb: "c \<noteq> CHR ''['' \<and> c \<noteq> CHR '']''" if "c \<in> set s" for c
    using c [OF that] by (auto simp: is_digit_def code_def)
  show ?thesis unfolding l
  proof (cases s)
    case (Cons a as)
    moreover have "a \<noteq> CHR ''[''" using nb Cons by simp
    moreover have "last s \<noteq> CHR '']''" using nb [of "last s"] Cons by simp
    ultimately show "strip_brackets s = s" by (simp add: strip_brackets_def Let_def)
  qed (simp add: strip_brackets_def)
qed

lemma guard_is_cidr:
  assumes "ipv4_groups host = Some gs" and "octets (map dec_val gs)"
  shows "isBlockedLiteralIp host \<longleftrightarrow> list_ex (\<lambda>(b, n). v4Matches host (b @ ''/'' @ dec n)) blocked_cidrs"
proof -
  obtain w x y z where b: "map dec_val gs = [w, x, y, z]" "w < 256" "x < 256" "y < 256" "z < 256"
    using octets_cases [OF assms(2)] by (elim exE conjE) (rule that)
  have "isBlockedLiteralIp host \<longleftrightarrow> blocked_v4 [w, x, y, z]"
    using assms(1) ipv4_lower [of host] b(1) by (subst isBlockedLiteralIp.simps) (simp add: Let_def)
  moreover have "ipv4ToInt host = Some (quad_word [w, x, y, z])" using ipv4ToInt_quad [OF assms] b(1) by simp
  ultimately show ?thesis using block_matches [of host w x y z] blocked_v4_arith [of w x y z] b by simp
qed

text \<open>
  For a host that is a dotted quad of octets, the webhook guard's octet tests block exactly the twelve CIDR blocks
  of \<open>blocked_cidrs\<close>, as the agents' bit-mask matcher reads them; so no accepted webhook URL has such a host.
\<close>

theorem webhook_guard_blocks_cidrs:
  assumes "ipv4_groups host = Some gs" and "octets (map dec_val gs)" and "url_parse url = Some (''https:'', host)"
  shows "assertUrl url_parse url = Inl automation_error \<longleftrightarrow>
    list_ex (\<lambda>(b, n). v4Matches host (b @ ''/'' @ dec n)) blocked_cidrs"
proof -
  have l: "to_lower host = host"
  proof -
    have "lower_char c = c" if "c \<in> set host" for c
      using ipv4_groups_chars [of host c] assms(1) that by (auto simp: lower_char_def is_upper_def is_digit_def code_def)
    then show ?thesis unfolding to_lower_def by (simp add: map_idI)
  qed
  have chars: "is_digit c \<or> c = CHR ''.''" if "c \<in> set host" for c
    using ipv4_groups_chars [of host c] assms(1) that by simp
  have nl: "CHR ''l'' \<notin> set host" "CHR '':'' \<notin> set host"
    using chars [of "CHR ''l''"] chars [of "CHR '':''"] by (auto simp: is_digit_def code_def)
  have e: "host \<noteq> ''localhost''" "host \<noteq> ''::1''" using nl by auto
  have f: "\<not> ends_with host ''.localhost''"
  proof
    assume "ends_with host ''.localhost''"
    then obtain r where "rev host = rev ''.localhost'' @ r" by (auto simp: ends_with_def starts_with_iff)
    then have "CHR ''l'' \<in> set (rev host)" by simp
    then show False using nl by simp
  qed
  have g: "host = ''127.0.0.1'' \<or> host = ''0.0.0.0'' \<Longrightarrow> isBlockedLiteralIp host"
    by (elim disjE; simp only:; subst isBlockedLiteralIp.simps)
       (simp_all add: ipv4_eval eval_simps to_lower_def strip_brackets_def blocked_v4_def)
  show ?thesis
    unfolding guard_is_cidr [OF assms(1,2), symmetric]
    using assms(3) e f g l by (auto simp: assertUrl_def Let_def)
qed

theorem webhook_guard_blocks_cidrs_witness:
  "assertUrl (\<lambda>_. Some (''https:'', ''172.16.5.4'')) ''u'' = Inl automation_error"
proof -
  have g: "ipv4_groups ''172.16.5.4'' = Some [''172'', ''16'', ''5'', ''4'']" by (simp add: ipv4_eval eval_simps)
  have o: "octets (map dec_val [''172'', ''16'', ''5'', ''4''])"
    by (simp add: octets_def dec_val_def digit_val_def eval_simps)
  have "isBlockedLiteralIp ''172.16.5.4''"
    by (subst isBlockedLiteralIp.simps)
       (simp add: ipv4_eval eval_simps to_lower_def strip_brackets_def blocked_v4_def)
  then have "list_ex (\<lambda>(b, n). v4Matches ''172.16.5.4'' (b @ ''/'' @ dec n)) blocked_cidrs"
    using guard_is_cidr [OF g o] by simp
  then show ?thesis using webhook_guard_blocks_cidrs [OF g o, of "\<lambda>_. Some (''https:'', ''172.16.5.4'')" "''u''"] by simp
qed

text \<open>
  The guard reads an IPv4-mapped address only when it is written with dots: the hexadecimal spelling, which is
  how the platform's URL parser serializes such a host, is let through although the dotted spelling of the
  same loopback address is blocked.
\<close>

theorem mapped_hex_passes_guard:
  "assertUrl (\<lambda>_. Some (''https:'', ''[::ffff:7f00:1]'')) url = Inr () \<and>
   assertUrl (\<lambda>_. Some (''https:'', ''[::ffff:127.0.0.1]'')) url = Inl automation_error"
proof -
  have a: "\<not> isBlockedLiteralIp ''[::ffff:7f00:1]''" by code_simp
  have b: "isBlockedLiteralIp ''[::ffff:127.0.0.1]''" by code_simp
  show ?thesis using a b
    by (simp add: assertUrl_def to_lower_def ends_with_def starts_with_def eval_simps Let_def)
qed

end
