(* ===== verification/Doubles.thy ===== *)
theory Doubles
  imports JsStrings "HOL-Library.Log_Nat"
begin

text \<open>
  IEEE double precision as the language's \<open>+\<close>, \<open>*\<close> and \<open>/\<close> use it: an operation is the exact result over
  \<open>rat\<close> rounded by \<open>to_double\<close>, to the nearest 53-bit significand with ties to even.  Exponents are unbounded
  (the values here lie far inside the range of normal numbers).  \<open>number_text\<close> is \<open>String(x)\<close> of a positive
  double: the shortest decimal digits that read back as the same double.
\<close>

section \<open>Rounding\<close>

definition pow2 :: "int \<Rightarrow> rat" where
  "pow2 e = (if 0 \<le> e then 2 ^ nat e else 1 / 2 ^ nat (- e))"

text \<open>The exponent of a positive number: \<open>2^e \<le> x < 2^(e+1)\<close>.\<close>

definition exponent :: "rat \<Rightarrow> int" where
  "exponent x =
     (let (p, q) = quotient_of x; k = int (floorlog 2 (nat p)) - int (floorlog 2 (nat q)) in
      if pow2 k \<le> x then k else k - 1)"

text \<open>The nearest integer, the even one of two that are equally near.\<close>

definition round_even :: "rat \<Rightarrow> int" where
  "round_even x =
     (let f = \<lfloor>x\<rfloor>; d = x - of_int f in
      if d < 1 / 2 then f else if 1 / 2 < d then f + 1 else if even f then f else f + 1)"

definition round_pos :: "rat \<Rightarrow> rat" where
  "round_pos x = (let e = exponent x - 52 in of_int (round_even (x / pow2 e)) * pow2 e)"

definition to_double :: "rat \<Rightarrow> rat" where
  "to_double x = (if x = 0 then 0 else if 0 < x then round_pos x else - round_pos (- x))"

lemma pow2_power_int: "pow2 e = power_int 2 e"
  unfolding pow2_def power_int_def inverse_eq_divide power_one_over by (rule HOL.refl)

lemma pow2_pos [simp]: "0 < pow2 e"
  by (simp add: pow2_def)

lemma pow2_nonzero [simp]: "pow2 e \<noteq> 0"
  using pow2_pos [of e] by linarith

lemma pow2_mono: "a \<le> b \<Longrightarrow> pow2 a \<le> pow2 b"
  by (simp add: pow2_power_int power_int_increasing)

lemma pow2_add: "pow2 (a + b) = pow2 a * pow2 b"
  by (simp add: pow2_power_int power_int_add)

lemma pow2_52: "pow2 52 = 2 ^ 52" "pow2 53 = 2 ^ 53" "pow2 0 = 1" "pow2 1 = 2"
  by (simp_all add: pow2_def)

lemma pow2_less_imp: "pow2 a < pow2 b \<Longrightarrow> a < b"
  by (metis linorder_not_less pow2_mono)

lemma exponent_bounds:
  assumes "0 < x"
  shows "pow2 (exponent x) \<le> x \<and> x < pow2 (exponent x + 1)"
proof -
  obtain p q where pq: "quotient_of x = (p, q)" by (cases "quotient_of x")
  then have q: "0 < q" and x: "x = of_int p / of_int q"
    by (simp_all add: quotient_of_denom_pos quotient_of_div)
  then have p: "0 < p" using assms by (simp add: zero_less_divide_iff)
  define a where "a = floorlog 2 (nat p)"
  define b where "b = floorlog 2 (nat q)"
  have a: "2 ^ (a - 1) \<le> nat p" "nat p < 2 ^ a" and b: "2 ^ (b - 1) \<le> nat q" "nat q < 2 ^ b"
    using floorlog_bounds [of "nat p" 2] floorlog_bounds [of "nat q" 2] p q by (simp_all add: a_def b_def)
  have a0: "a \<noteq> 0" and b0: "b \<noteq> 0" using a(2) b(2) p q by (auto intro: gr0I)
  have ra: "pow2 (int a - 1) \<le> of_int p" "of_int p < pow2 (int a)"
    and rb: "pow2 (int b - 1) \<le> of_int q" "of_int q < pow2 (int b)"
  proof -
    have e: "pow2 (int n - 1) = of_nat (2 ^ (n - 1)) \<and> pow2 (int n) = of_nat (2 ^ n)" if "n \<noteq> 0" for n
      using that by (auto simp: pow2_def nat_diff_distrib')
    have ip: "of_int p = (of_nat (nat p) :: rat)" "of_int q = (of_nat (nat q) :: rat)" using p q by simp_all
    show "pow2 (int a - 1) \<le> of_int p" "of_int p < pow2 (int a)"
      unfolding ip using e [OF a0] a by (simp_all only: of_nat_le_iff of_nat_less_iff)
    show "pow2 (int b - 1) \<le> of_int q" "of_int q < pow2 (int b)"
      unfolding ip using e [OF b0] b by (simp_all only: of_nat_le_iff of_nat_less_iff)
  qed
  have qr: "0 < (of_int q :: rat)" using q by simp
  have low: "pow2 (int a - int b - 1) \<le> x"
  proof -
    have "pow2 (int a - int b - 1) * of_int q \<le> pow2 (int a - int b - 1) * pow2 (int b)"
      using rb(2) by (intro mult_left_mono) (simp_all add: less_imp_le)
    also have "\<dots> = pow2 (int a - 1)" by (simp flip: pow2_add add: algebra_simps)
    also have "\<dots> \<le> of_int p" by (rule ra(1))
    finally show ?thesis using qr by (simp add: x pos_le_divide_eq)
  qed
  have high: "x < pow2 (int a - int b + 1)"
  proof -
    have "of_int p < pow2 (int a)" by (rule ra(2))
    also have "\<dots> = pow2 (int a - int b + 1) * pow2 (int b - 1)" by (simp flip: pow2_add)
    also have "\<dots> \<le> pow2 (int a - int b + 1) * of_int q"
      using rb(1) by (intro mult_left_mono) (simp_all add: less_imp_le)
    finally show ?thesis using qr by (simp add: x pos_divide_less_eq)
  qed
  have e: "exponent x = (if pow2 (int a - int b) \<le> x then int a - int b else int a - int b - 1)"
    by (simp add: exponent_def pq a_def b_def Let_def)
  show ?thesis using low high by (simp add: e)
qed

lemma exponent_eq:
  assumes "pow2 e \<le> x" and "x < pow2 (e + 1)"
  shows "exponent x = e"
proof -
  have x: "0 < x" using assms(1) pow2_pos [of e] by linarith
  have "pow2 (exponent x) < pow2 (e + 1)" "pow2 e < pow2 (exponent x + 1)"
    using exponent_bounds [OF x] assms by linarith+
  from this [THEN pow2_less_imp] show ?thesis by simp
qed

lemma exponent_mono:
  assumes "0 < x" and "x \<le> y"
  shows "exponent x \<le> exponent y"
proof -
  have "pow2 (exponent x) \<le> x" using exponent_bounds [OF assms(1)] by simp
  also have "\<dots> \<le> y" by (rule assms(2))
  also have "y < pow2 (exponent y + 1)" using exponent_bounds [of y] assms by simp
  finally show ?thesis using pow2_less_imp by fastforce
qed

lemma round_even_mono: "x \<le> y \<Longrightarrow> round_even x \<le> round_even y"
proof -
  assume xy: "x \<le> y"
  show ?thesis
  proof (cases "\<lfloor>x\<rfloor> = \<lfloor>y\<rfloor>")
    case True
    then show ?thesis using xy by (simp add: round_even_def Let_def)
  next
    case False
    then have "\<lfloor>x\<rfloor> + 1 \<le> \<lfloor>y\<rfloor>" using floor_mono [OF xy] by linarith
    then show ?thesis by (simp add: round_even_def Let_def)
  qed
qed

lemma round_even_int [simp]: "round_even (of_int n) = n"
  by (simp add: round_even_def)

lemma round_pos_bounds:
  assumes "0 < x"
  shows "pow2 (exponent x) \<le> round_pos x \<and> round_pos x \<le> pow2 (exponent x + 1)"
proof -
  let ?e = "exponent x - 52" and ?m = "x / pow2 (exponent x - 52)"
  have eq: "pow2 (exponent x) = 2 ^ 52 * pow2 ?e" "pow2 (exponent x + 1) = 2 ^ 53 * pow2 ?e"
    using pow2_add [of 52 ?e] pow2_add [of 53 ?e] by (simp_all add: pow2_52 algebra_simps)
  have "of_int (2 ^ 52) \<le> ?m" "?m \<le> of_int (2 ^ 53)"
    using exponent_bounds [OF assms] by (simp_all add: eq pos_le_divide_eq pos_divide_le_eq)
  then have "2 ^ 52 \<le> round_even ?m" "round_even ?m \<le> 2 ^ 53"
    by (metis round_even_int round_even_mono)+
  then have "of_int (2 ^ 52) \<le> (of_int (round_even ?m) :: rat)" "(of_int (round_even ?m) :: rat) \<le> of_int (2 ^ 53)"
    unfolding of_int_le_iff by simp_all
  then show ?thesis by (simp add: round_pos_def Let_def eq)
qed

lemma round_pos_mono:
  assumes "0 < x" and "x \<le> y"
  shows "round_pos x \<le> round_pos y"
proof (cases "exponent x = exponent y")
  case True
  have "x / pow2 (exponent y - 52) \<le> y / pow2 (exponent y - 52)"
    using assms by (intro divide_right_mono) (simp_all add: less_imp_le)
  from round_even_mono [OF this] show ?thesis
    by (simp add: round_pos_def Let_def True mult_right_mono less_imp_le)
next
  case False
  then have "exponent x + 1 \<le> exponent y" using exponent_mono [OF assms] by simp
  have y: "0 < y" using assms by linarith
  have "round_pos x \<le> pow2 (exponent x + 1)" using round_pos_bounds [OF assms(1)] by simp
  also have "\<dots> \<le> pow2 (exponent y)" by (rule pow2_mono) fact
  also have "\<dots> \<le> round_pos y" using round_pos_bounds [OF y] by simp
  finally show ?thesis .
qed

lemma round_pos_positive: "0 < x \<Longrightarrow> 0 < round_pos x"
  using round_pos_bounds [of x] pow2_pos [of "exponent x"] by linarith

lemma to_double_mono: "x \<le> y \<Longrightarrow> to_double x \<le> to_double y"
proof -
  assume xy: "x \<le> y"
  consider "y < 0" | "x < 0" "0 \<le> y" | "x = 0" "0 \<le> y" | "0 < x" using xy by linarith
  then show ?thesis
  proof cases
    case 1
    then have "round_pos (- y) \<le> round_pos (- x)" using xy by (intro round_pos_mono) simp_all
    then show ?thesis using 1 xy by (simp add: to_double_def)
  next
    case 2
    then have "0 < round_pos (- x)" by (simp add: round_pos_positive)
    moreover have "0 < y \<Longrightarrow> 0 < round_pos y" by (rule round_pos_positive)
    ultimately show ?thesis using 2 by (cases "y = 0") (simp_all add: to_double_def)
  next
    case 3
    moreover have "0 < y \<Longrightarrow> 0 < round_pos y" by (rule round_pos_positive)
    ultimately show ?thesis by (simp add: to_double_def less_imp_le)
  next
    case 4
    then show ?thesis using xy round_pos_mono [of x y] by (simp add: to_double_def)
  qed
qed

text \<open>Safe integers are doubles.\<close>

lemma to_double_int:
  assumes "\<bar>n\<bar> \<le> 2 ^ 53"
  shows "to_double (of_int n) = of_int n"
proof -
  have pos: "round_pos (of_int m) = of_int m" if m: "0 < m" "m \<le> 2 ^ 53" for m :: int
  proof -
    let ?x = "of_int m :: rat" let ?e = "exponent ?x - 52"
    have x: "0 < ?x" using m by simp
    show ?thesis
    proof (cases "?e \<le> 0")
      case True
      have "?x / pow2 ?e = of_int (m * 2 ^ nat (- ?e))" using True by (simp add: pow2_def)
      then have "round_even (?x / pow2 ?e) = m * 2 ^ nat (- ?e)" by (simp only: round_even_int)
      moreover have "of_int (m * 2 ^ nat (- ?e)) * pow2 ?e = ?x" using True by (simp add: pow2_def)
      ultimately show ?thesis by (simp only: round_pos_def Let_def)
    next
      case False
      have "pow2 (exponent ?x) \<le> ?x" using exponent_bounds [OF x] by simp
      also have "?x \<le> of_int (2 ^ 53)" using m(2) by (simp only: of_int_le_iff)
      also have "\<dots> = pow2 53" by (simp add: pow2_52)
      finally have le: "pow2 (exponent ?x) \<le> pow2 53" .
      have "exponent ?x < 54"
        using le pow2_mono [of 54 "exponent ?x"] by (cases "exponent ?x < 54") (simp_all add: pow2_def)
      with False have ex: "exponent ?x = 53" by simp
      then have "2 ^ 53 \<le> ?x" using exponent_bounds [OF x] by (simp add: pow2_52)
      then have "of_int (2 ^ 53) \<le> ?x" by simp
      then have "m = 2 ^ 53" using m(2) by (simp only: of_int_le_iff)
      moreover have "round_even (?x / pow2 ?e) = 2 ^ 52"
      proof -
        have "?x / pow2 ?e = of_int (2 ^ 52)" using ex \<open>m = 2 ^ 53\<close> by (simp add: pow2_def)
        then show ?thesis by (simp only: round_even_int)
      qed
      ultimately show ?thesis using ex by (simp add: round_pos_def pow2_def)
    qed
  qed
  consider "n = 0" | "0 < n" | "n < 0" by linarith
  then show ?thesis
  proof cases
    case 3
    then show ?thesis using pos [of "- n"] assms by (simp add: to_double_def)
  qed (use pos [of n] assms in \<open>simp_all add: to_double_def\<close>)
qed

lemma to_double_nonneg: "0 \<le> x \<Longrightarrow> 0 \<le> to_double x"
  using to_double_mono [of 0 x] by (simp add: to_double_def)

section \<open>Numbers as text\<close>

definition pow10 :: "int \<Rightarrow> rat" where
  "pow10 e = (if 0 \<le> e then 10 ^ nat e else 1 / 10 ^ nat (- e))"

text \<open>The decimal exponent: the least \<open>n\<close> with \<open>x < 10^n\<close>, for \<open>10^-40 \<le> x < 10^40\<close>.\<close>

definition decimal_exponent :: "rat \<Rightarrow> int" where
  "decimal_exponent x = (case find (\<lambda>n. x < pow10 n) [-39..40] of Some n \<Rightarrow> n | None \<Rightarrow> 40)"

text \<open>The digits \<open>s\<close> and their number \<open>k\<close>: the smallest \<open>k\<close> whose nearest decimal reads back as \<open>x\<close>.\<close>

definition shortest_digits :: "rat \<Rightarrow> int \<times> int" where
  "shortest_digits x =
     (let n = decimal_exponent x; s = (\<lambda>k. round_even (x / pow10 (n - k))) in
      case find (\<lambda>k. to_double (of_int (s k) * pow10 (n - k)) = x) [1..17] of
        Some k \<Rightarrow> (s k, k)
      | None \<Rightarrow> (s 17, 17))"

definition number_text :: "rat \<Rightarrow> string" where
  "number_text x =
     (if x = 0 then ''0''
      else (let n = decimal_exponent x; (s, k) = shortest_digits x; ds = dec (nat s) in
        if k \<le> n \<and> n \<le> 21 then ds @ replicate (nat (n - k)) (CHR ''0'')
        else if 0 < n \<and> n \<le> 21 then take (nat n) ds @ ''.'' @ drop (nat n) ds
        else if -6 < n \<and> n \<le> 0 then ''0.'' @ replicate (nat (- n)) (CHR ''0'') @ ds
        else take 1 ds @ (if k = 1 then [] else ''.'' @ drop 1 ds) @ ''e'' @
             (if 0 \<le> n - 1 then ''+'' else ''-'') @ dec (nat \<bar>n - 1\<bar>)))"

end
