(* ===== verification/BillingPlans.thy ===== *)
theory BillingPlans
  imports Calendar Json Doubles
begin

text \<open>
  The billing package's domain (\<open>packages/billing/src/types.ts\<close>), its plan catalogue (\<open>plans.ts\<close>) and
  the manual payment provider (\<open>providers.ts\<close>).  A plan, service or metric is the datatype of the code's
  union type.
\<close>

section \<open>Domain (types.ts)\<close>

datatype plan_id = Free | Pro | Business | Enterprise

datatype subscription_status = Trialing | Active | PastDue | Canceled | SubExpired | Paused

datatype invoice_status = Open | Paid | Void

datatype payment_status = PayPending | PaySucceeded | PayFailed | PayRefunded

datatype usage_service = SApi | SDatabase | SStorage | SRealtime | SFunctions | SAi | SJobs

datatype usage_metric =
    M_api_requests | M_api_bandwidth_bytes | M_db_storage_bytes | M_storage_bytes | M_storage_files
  | M_storage_operations | M_realtime_connections | M_realtime_messages | M_function_invocations
  | M_function_gb_seconds | M_ai_requests | M_ai_tokens | M_projects | M_team_members | M_api_keys | M_jobs

definition service_text :: "usage_service \<Rightarrow> string" where
  "service_text s = (case s of SApi \<Rightarrow> ''api'' | SDatabase \<Rightarrow> ''database'' | SStorage \<Rightarrow> ''storage''
     | SRealtime \<Rightarrow> ''realtime'' | SFunctions \<Rightarrow> ''functions'' | SAi \<Rightarrow> ''ai'' | SJobs \<Rightarrow> ''jobs'')"

definition metric_text :: "usage_metric \<Rightarrow> string" where
  "metric_text m = (case m of
       M_api_requests \<Rightarrow> ''api_requests'' | M_api_bandwidth_bytes \<Rightarrow> ''api_bandwidth_bytes''
     | M_db_storage_bytes \<Rightarrow> ''db_storage_bytes'' | M_storage_bytes \<Rightarrow> ''storage_bytes''
     | M_storage_files \<Rightarrow> ''storage_files'' | M_storage_operations \<Rightarrow> ''storage_operations''
     | M_realtime_connections \<Rightarrow> ''realtime_connections'' | M_realtime_messages \<Rightarrow> ''realtime_messages''
     | M_function_invocations \<Rightarrow> ''function_invocations'' | M_function_gb_seconds \<Rightarrow> ''function_gb_seconds''
     | M_ai_requests \<Rightarrow> ''ai_requests'' | M_ai_tokens \<Rightarrow> ''ai_tokens'' | M_projects \<Rightarrow> ''projects''
     | M_team_members \<Rightarrow> ''team_members'' | M_api_keys \<Rightarrow> ''api_keys'' | M_jobs \<Rightarrow> ''jobs'')"

definition GAUGE_METRICS :: "usage_metric list" where
  "GAUGE_METRICS = [M_db_storage_bytes, M_storage_bytes, M_storage_files, M_realtime_connections, M_projects,
     M_team_members, M_api_keys]"

datatype budget_action = Alert | Block

datatype limit_policy = Hard | Soft

record budget =
  bu_id :: string
  bu_organizationId :: string
  bu_name :: string
  bu_limitCents :: int
  bu_action :: budget_action
  bu_createdAt :: instant

record subscription =
  su_id :: string
  su_organizationId :: string
  su_planId :: plan_id
  su_status :: subscription_status
  su_trialEndsAt :: "instant option"
  su_currentPeriodStart :: instant
  su_currentPeriodEnd :: instant
  su_renewsAt :: "instant option"
  su_canceledAt :: "instant option"
  su_provider :: string
  su_providerCustomerId :: "string option"
  su_providerSubscriptionId :: "string option"
  su_createdAt :: instant
  su_updatedAt :: instant

record invoice_line =
  il_label :: string
  il_quantity :: int
  il_unitCents :: int
  il_amountCents :: int

record invoice =
  in_id :: string
  in_organizationId :: string
  in_number :: string
  in_periodStart :: instant
  in_periodEnd :: instant
  in_lines :: "invoice_line list"
  in_amountCents :: int
  in_currency :: string
  in_status :: invoice_status
  in_provider :: string
  in_providerInvoiceId :: "string option"
  in_createdAt :: instant

record payment =
  pa_id :: string
  pa_organizationId :: string
  pa_invoiceId :: "string option"
  pa_amountCents :: int
  pa_currency :: string
  pa_status :: payment_status
  pa_provider :: string
  pa_providerPaymentId :: "string option"
  pa_createdAt :: instant

subsection \<open>Periods\<close>

definition periodOf :: "instant \<Rightarrow> string" where
  "periodOf t = dec_int (utc_year t) @ ''-'' @ pad_start 2 (CHR ''0'') (dec (utc_month t + 1))"

text \<open>The two groups of \<open>^(\\d{4})-(\\d{2})$\<close>.\<close>

definition period_groups :: "string \<Rightarrow> (string \<times> string) option" where
  "period_groups p =
     (let y = take 4 p; m = drop 5 p in
      if length p = 7 \<and> p ! 4 = CHR ''-'' \<and> list_all is_digit y \<and> list_all is_digit m then Some (y, m) else None)"

definition periodBounds :: "string \<Rightarrow> (instant \<times> instant) outcome" where
  "periodBounds p =
     (case period_groups p of None \<Rightarrow> Inl (ApiError VALIDATION_ERROR 400)
      | Some (y, m) \<Rightarrow>
          (let year = int (dec_val y); month = dec_val m in
           if month < 1 \<or> month > 12 then Inl (ApiError VALIDATION_ERROR 400)
           else Inr (date_utc year (month - 1),
                     date_utc (if month = 12 then year + 1 else year) (if month = 12 then 0 else month))))"

section \<open>Plans (plans.ts)\<close>

datatype limit_key =
    L_projects | L_teamMembers | L_apiKeysPerProject | L_databaseStorageMbPerDb | L_apiRequestsPerMonth
  | L_bandwidthMbPerMonth | L_storageMb | L_storageFiles | L_storageBuckets | L_realtimeConnections
  | L_realtimeMessagesPerMonth | L_functionInvocationsPerMonth | L_functionGbSecondsPerMonth
  | L_functionsPerProject | L_jobsPerMonth | L_aiRequestsPerMonth | L_aiTokensPerMonth | L_logRetentionDays

datatype overage_key = O_api_requests | O_bandwidth_mb | O_ai_tokens | O_function_invocations

definition overage_text :: "overage_key \<Rightarrow> string" where
  "overage_text k = (case k of O_api_requests \<Rightarrow> ''api_requests'' | O_bandwidth_mb \<Rightarrow> ''bandwidth_mb''
     | O_ai_tokens \<Rightarrow> ''ai_tokens'' | O_function_invocations \<Rightarrow> ''function_invocations'')"

text \<open>
  A plan: the part a dashboard sees, then the overage rates.  An overage entry is its cents per unit, if any,
  and the unit's name.
\<close>

record plan_summary =
  pl_id :: plan_id
  pl_name :: string
  pl_description :: string
  pl_priceCents :: "int option"
  pl_currency :: string
  pl_trialDays :: int
  pl_limits :: "limit_key \<Rightarrow> int"

record plan_definition = plan_summary +
  pl_overage :: "overage_key \<Rightarrow> (int option \<times> string) option"

fun free_limits :: "limit_key \<Rightarrow> int" where
  "free_limits L_projects = 3" | "free_limits L_teamMembers = 3" | "free_limits L_apiKeysPerProject = 5"
| "free_limits L_databaseStorageMbPerDb = 512" | "free_limits L_apiRequestsPerMonth = 100000"
| "free_limits L_bandwidthMbPerMonth = 5120" | "free_limits L_storageMb = 1024"
| "free_limits L_storageFiles = 10000" | "free_limits L_storageBuckets = 5"
| "free_limits L_realtimeConnections = 100" | "free_limits L_realtimeMessagesPerMonth = 1000000"
| "free_limits L_functionInvocationsPerMonth = 100000" | "free_limits L_functionGbSecondsPerMonth = 50000"
| "free_limits L_functionsPerProject = 10" | "free_limits L_jobsPerMonth = 1000"
| "free_limits L_aiRequestsPerMonth = 200" | "free_limits L_aiTokensPerMonth = 500000"
| "free_limits L_logRetentionDays = 7"

fun pro_limits :: "limit_key \<Rightarrow> int" where
  "pro_limits L_projects = 15" | "pro_limits L_teamMembers = 10" | "pro_limits L_apiKeysPerProject = 25"
| "pro_limits L_databaseStorageMbPerDb = 5120" | "pro_limits L_apiRequestsPerMonth = 5000000"
| "pro_limits L_bandwidthMbPerMonth = 102400" | "pro_limits L_storageMb = 25600"
| "pro_limits L_storageFiles = 250000" | "pro_limits L_storageBuckets = 25"
| "pro_limits L_realtimeConnections = 1000" | "pro_limits L_realtimeMessagesPerMonth = 25000000"
| "pro_limits L_functionInvocationsPerMonth = 2500000" | "pro_limits L_functionGbSecondsPerMonth = 1000000"
| "pro_limits L_functionsPerProject = 50" | "pro_limits L_jobsPerMonth = 25000"
| "pro_limits L_aiRequestsPerMonth = 5000" | "pro_limits L_aiTokensPerMonth = 10000000"
| "pro_limits L_logRetentionDays = 30"

fun business_limits :: "limit_key \<Rightarrow> int" where
  "business_limits L_projects = 50" | "business_limits L_teamMembers = 50" | "business_limits L_apiKeysPerProject = 100"
| "business_limits L_databaseStorageMbPerDb = 51200" | "business_limits L_apiRequestsPerMonth = 50000000"
| "business_limits L_bandwidthMbPerMonth = 1024000" | "business_limits L_storageMb = 262144"
| "business_limits L_storageFiles = 2500000" | "business_limits L_storageBuckets = 100"
| "business_limits L_realtimeConnections = 10000" | "business_limits L_realtimeMessagesPerMonth = 250000000"
| "business_limits L_functionInvocationsPerMonth = 25000000" | "business_limits L_functionGbSecondsPerMonth = 10000000"
| "business_limits L_functionsPerProject = 200" | "business_limits L_jobsPerMonth = 250000"
| "business_limits L_aiRequestsPerMonth = 50000" | "business_limits L_aiTokensPerMonth = 100000000"
| "business_limits L_logRetentionDays = 90"

definition UNLIMITED :: int where "UNLIMITED = -1"

definition enterprise_limits :: "limit_key \<Rightarrow> int" where
  "enterprise_limits k = (if k = L_logRetentionDays then 365 else UNLIMITED)"

definition PLANS :: "plan_id \<Rightarrow> plan_definition" where
  "PLANS p = (case p of
       Free \<Rightarrow> \<lparr>pl_id = Free, pl_name = ''Free'',
          pl_description = ''For prototypes and evaluation. Real limits, no payment required.'',
          pl_priceCents = Some 0, pl_currency = ''USD'', pl_trialDays = 0,
          pl_limits = free_limits, pl_overage = (\<lambda>_. None)\<rparr>
     | Pro \<Rightarrow> \<lparr>pl_id = Pro, pl_name = ''Pro'',
          pl_description = ''For production side projects and small teams.'',
          pl_priceCents = Some 2000, pl_currency = ''USD'', pl_trialDays = 14,
          pl_limits = pro_limits,
          pl_overage = (\<lambda>k. case k of
              O_api_requests \<Rightarrow> Some (Some 1, ''10k requests'') | O_bandwidth_mb \<Rightarrow> Some (Some 8, ''GB'')
            | O_ai_tokens \<Rightarrow> Some (Some 60, ''1M tokens'') | O_function_invocations \<Rightarrow> Some (Some 20, ''1M invocations''))\<rparr>
     | Business \<Rightarrow> \<lparr>pl_id = Business, pl_name = ''Business'',
          pl_description = ''For teams with compliance needs and higher scale.'',
          pl_priceCents = Some 9900, pl_currency = ''USD'', pl_trialDays = 14,
          pl_limits = business_limits,
          pl_overage = (\<lambda>k. case k of
              O_api_requests \<Rightarrow> Some (Some 1, ''10k requests'') | O_bandwidth_mb \<Rightarrow> Some (Some 6, ''GB'')
            | O_ai_tokens \<Rightarrow> Some (Some 50, ''1M tokens'') | O_function_invocations \<Rightarrow> Some (Some 15, ''1M invocations''))\<rparr>
     | Enterprise \<Rightarrow> \<lparr>pl_id = Enterprise, pl_name = ''Enterprise'',
          pl_description = ''Negotiated limits, SSO, audit exports, and support.'',
          pl_priceCents = None, pl_currency = ''USD'', pl_trialDays = 30,
          pl_limits = enterprise_limits, pl_overage = (\<lambda>_. None)\<rparr>)"

definition getPlan :: "plan_id \<Rightarrow> plan_definition" where
  "getPlan p = PLANS p"

text \<open>A name the dashboard sends; an unknown one raises.\<close>

definition plan_named :: "string \<Rightarrow> plan_id outcome" where
  "plan_named s = (if s = ''free'' then Inr Free else if s = ''pro'' then Inr Pro
     else if s = ''business'' then Inr Business else if s = ''enterprise'' then Inr Enterprise else Inl PlainError)"

definition listPlans :: "plan_summary list" where
  "listPlans = map (\<lambda>p. plan_summary.truncate (PLANS p)) [Free, Pro, Business, Enterprise]"

definition limitKeyFor :: "usage_service \<Rightarrow> usage_metric \<Rightarrow> limit_key option" where
  "limitKeyFor service metric = (case metric of
       M_api_requests \<Rightarrow> Some L_apiRequestsPerMonth | M_api_bandwidth_bytes \<Rightarrow> Some L_bandwidthMbPerMonth
     | M_db_storage_bytes \<Rightarrow> Some L_databaseStorageMbPerDb | M_storage_bytes \<Rightarrow> Some L_storageMb
     | M_storage_files \<Rightarrow> Some L_storageFiles | M_realtime_connections \<Rightarrow> Some L_realtimeConnections
     | M_realtime_messages \<Rightarrow> Some L_realtimeMessagesPerMonth
     | M_function_invocations \<Rightarrow> Some L_functionInvocationsPerMonth
     | M_function_gb_seconds \<Rightarrow> Some L_functionGbSecondsPerMonth | M_ai_requests \<Rightarrow> Some L_aiRequestsPerMonth
     | M_ai_tokens \<Rightarrow> Some L_aiTokensPerMonth | M_projects \<Rightarrow> Some L_projects
     | M_team_members \<Rightarrow> Some L_teamMembers | M_api_keys \<Rightarrow> Some L_apiKeysPerProject | M_jobs \<Rightarrow> Some L_jobsPerMonth
     | M_storage_operations \<Rightarrow> None)"

text \<open>Dividing a safe integer by 2^20 is exact in double precision.\<close>

definition toLimitUnits :: "usage_metric \<Rightarrow> int \<Rightarrow> rat" where
  "toLimitUnits metric amount =
     (if metric \<in> {M_api_bandwidth_bytes, M_db_storage_bytes, M_storage_bytes}
      then of_int amount / (1024 * 1024) else of_int amount)"

section \<open>The manual provider (providers.ts)\<close>

definition createCustomer :: "string \<Rightarrow> string" where
  "createCustomer organizationId = ''manual:'' @ organizationId"

text \<open>\<open>hmac\<close> is HMAC-SHA-256 with the key first, in hexadecimal.\<close>

definition verifyWebhookSignature :: "(string \<Rightarrow> string \<Rightarrow> string) \<Rightarrow> string \<Rightarrow> string \<Rightarrow> string \<Rightarrow> unit outcome" where
  "verifyWebhookSignature hmac rawBody signature secret =
     (if secret = [] then Inl PlainError
      else if signature = [] \<or> length signature > 512 then Inl PlainError
      else (let expected = hmac secret rawBody;
                t = js_trim signature;
                given = (if starts_with t ''sha256='' then drop 7 t else t) in
        if length expected \<noteq> length given \<or> expected \<noteq> given then Inl PlainError else Inr ()))"

end
