(* ===== verification/BillingStore.thy ===== *)
theory BillingStore
  imports BillingPlans
begin

text \<open>
  The in-memory billing store (\<open>packages/billing/src/store.ts\<close>): subscriptions, raw usage records, fired
  warning thresholds, invoices, payments, webhook events, budgets and credits.  Numbers that reach the store are
  integers (\<open>Number.isInteger\<close> is true of them) and sums of them are exact.  The last field of the state
  is not the store's: it lists what the service has handed to its notifier, oldest first.
\<close>

section \<open>State\<close>

record subscription_input =
  si_organizationId :: string
  si_planId :: plan_id
  si_status :: subscription_status
  si_trialEndsAt :: "instant option"
  si_currentPeriodStart :: instant
  si_currentPeriodEnd :: instant
  si_renewsAt :: "instant option"
  si_provider :: "string option"
  si_providerCustomerId :: "string option"
  si_providerSubscriptionId :: "string option"

record usage_record =
  us_organizationId :: string
  us_projectId :: string
  us_service :: usage_service
  us_metric :: usage_metric
  us_value :: int
  us_period :: string
  us_at :: instant

record usage_row =
  ur_service :: usage_service
  ur_metric :: usage_metric
  ur_projectId :: string
  ur_total :: int

record invoice_input =
  ii_organizationId :: string
  ii_number :: string
  ii_periodStart :: instant
  ii_periodEnd :: instant
  ii_lines :: "invoice_line list"
  ii_amountCents :: int
  ii_currency :: "string option"
  ii_provider :: "string option"
  ii_providerInvoiceId :: "string option"

record payment_input =
  pi_organizationId :: string
  pi_invoiceId :: "string option"
  pi_amountCents :: int
  pi_currency :: "string option"
  pi_status :: payment_status
  pi_provider :: string
  pi_providerPaymentId :: "string option"

record webhook_event =
  we_id :: string
  we_provider :: string
  we_eventId :: string
  we_type :: string
  we_organizationId :: "string option"
  we_processedAt :: instant

record credit =
  cr_organizationId :: string
  cr_amountCents :: int
  cr_reason :: string
  cr_expiresAt :: "instant option"
  cr_at :: instant

record quota_warning =
  qw_organizationId :: string
  qw_resource :: string
  qw_percent :: int
  qw_threshold :: int
  qw_period :: string

record billing_state =
  bi_subs :: "(string, subscription) jsmap"
  bi_records :: "usage_record list"
  bi_warnings :: "(string, string list \<times> instant) jsmap"
  bi_invoices :: "(string, invoice) jsmap"
  bi_payments :: "(string, payment) jsmap"
  bi_events :: "(string, webhook_event) jsmap"
  bi_budgets :: "(string, budget) jsmap"
  bi_credits :: "credit list"
  bi_invoiceCounter :: nat
  bi_counter :: nat
  bi_notified :: "quota_warning list"

definition initial_billing :: billing_state where
  "initial_billing = \<lparr>bi_subs = [], bi_records = [], bi_warnings = [], bi_invoices = [], bi_payments = [],
     bi_events = [], bi_budgets = [], bi_credits = [], bi_invoiceCounter = 0, bi_counter = 0, bi_notified = []\<rparr>"

definition nextId :: "string \<Rightarrow> billing_state \<Rightarrow> string \<times> billing_state" where
  "nextId prefix s =
     (let c = bi_counter s + 1 in (prefix @ ''_'' @ dec c, s\<lparr>bi_counter := c\<rparr>))"

text \<open>\<open>a ?? b\<close> of two optional values, and of an optional and a plain one.\<close>

definition or_else :: "'a option \<Rightarrow> 'a option \<Rightarrow> 'a option" where
  "or_else a b = (case a of Some x \<Rightarrow> Some x | None \<Rightarrow> b)"

definition default :: "'a option \<Rightarrow> 'a \<Rightarrow> 'a" where
  "default a d = (case a of Some x \<Rightarrow> x | None \<Rightarrow> d)"

section \<open>Subscriptions\<close>

definition bs_getSubscription :: "string \<Rightarrow> billing_state \<Rightarrow> subscription option" where
  "bs_getSubscription org s = js_get (bi_subs s) org"

text \<open>The row an upsert writes, given its identifier and the row it replaces.\<close>

definition subscription_row :: "instant \<Rightarrow> subscription_input \<Rightarrow> subscription option \<Rightarrow> string \<Rightarrow> subscription" where
  "subscription_row now i prev sid =
     \<lparr>su_id = sid, su_organizationId = si_organizationId i, su_planId = si_planId i, su_status = si_status i,
      su_trialEndsAt = si_trialEndsAt i, su_currentPeriodStart = si_currentPeriodStart i,
      su_currentPeriodEnd = si_currentPeriodEnd i, su_renewsAt = si_renewsAt i,
      su_canceledAt = (if si_status i \<in> {Canceled, SubExpired}
        then or_else (Option.bind prev su_canceledAt) (Some now) else None),
      su_provider = default (si_provider i) (default (map_option su_provider prev) ''manual''),
      su_providerCustomerId = or_else (si_providerCustomerId i) (Option.bind prev su_providerCustomerId),
      su_providerSubscriptionId = or_else (si_providerSubscriptionId i) (Option.bind prev su_providerSubscriptionId),
      su_createdAt = default (map_option su_createdAt prev) now, su_updatedAt = now\<rparr>"

definition upsertSubscription :: "instant \<Rightarrow> subscription_input \<Rightarrow> billing_state \<Rightarrow> subscription \<times> billing_state" where
  "upsertSubscription now i s =
     (let prev = js_get (bi_subs s) (si_organizationId i);
          (sid, s1) = (case prev of Some p \<Rightarrow> (su_id p, s) | None \<Rightarrow> nextId ''sub'' s);
          sub = subscription_row now i prev sid in
      (sub, s1\<lparr>bi_subs := js_set (si_organizationId i) sub (bi_subs s1)\<rparr>))"

section \<open>Usage\<close>

definition recordUsage :: "usage_record \<Rightarrow> billing_state \<Rightarrow> unit outcome \<times> billing_state" where
  "recordUsage event s =
     (if us_value event < 0 then (Inl PlainError, s)
      else (Inr (), s\<lparr>bi_records := bi_records s @ [event]\<rparr>))"

type_synonym usage_key = "usage_service \<times> usage_metric \<times> string"

definition usage_key_of :: "usage_record \<Rightarrow> usage_key" where
  "usage_key_of r = (us_service r, us_metric r, us_projectId r)"

text \<open>The groups in the order their first record came, each with its values in order.\<close>

definition add_to_group :: "usage_record \<Rightarrow> (usage_key, int list) jsmap \<Rightarrow> (usage_key, int list) jsmap" where
  "add_to_group r g =
     js_set (usage_key_of r) (default (js_get g (usage_key_of r)) [] @ [us_value r]) g"

definition usage_groups :: "usage_record list \<Rightarrow> (usage_key, int list) jsmap" where
  "usage_groups rs = fold add_to_group rs []"

fun int_max :: "int list \<Rightarrow> int" where
  "int_max [] = 0"
| "int_max [x] = x"
| "int_max (x # xs) = max x (int_max xs)"

definition group_row :: "usage_key \<times> int list \<Rightarrow> usage_row" where
  "group_row g = (case g of ((sv, m, p), vs) \<Rightarrow>
     \<lparr>ur_service = sv, ur_metric = m, ur_projectId = p,
      ur_total = (if m \<in> set GAUGE_METRICS then int_max vs else sum_list vs)\<rparr>)"

definition aggregateUsage :: "string \<Rightarrow> string \<Rightarrow> billing_state \<Rightarrow> usage_row list" where
  "aggregateUsage org period s =
     map group_row (usage_groups (filter (\<lambda>r. us_organizationId r = org \<and> us_period r = period) (bi_records s)))"

definition pruneUsageRecords :: "instant \<Rightarrow> billing_state \<Rightarrow> nat \<times> billing_state" where
  "pruneUsageRecords olderThan s =
     (let kept = filter (\<lambda>r. olderThan \<le> us_at r) (bi_records s) in
      (length (bi_records s) - length kept, s\<lparr>bi_records := kept\<rparr>))"

section \<open>Warnings\<close>

definition warning_key :: "string \<Rightarrow> string \<Rightarrow> string \<Rightarrow> string" where
  "warning_key org resource period = org @ [char_of (10::nat)] @ resource @ [char_of (10::nat)] @ period"

definition getWarningThresholds :: "string \<Rightarrow> string \<Rightarrow> string \<Rightarrow> billing_state \<Rightarrow> string list" where
  "getWarningThresholds org resource period s =
     (case js_get (bi_warnings s) (warning_key org resource period) of Some (ts, _) \<Rightarrow> ts | None \<Rightarrow> [])"

definition setWarningThresholds :: "instant \<Rightarrow> string \<Rightarrow> string \<Rightarrow> string \<Rightarrow> string list \<Rightarrow> billing_state \<Rightarrow> billing_state" where
  "setWarningThresholds now org resource period ts s =
     s\<lparr>bi_warnings := js_set (warning_key org resource period) (ts, now) (bi_warnings s)\<rparr>"

section \<open>Invoices\<close>

definition bs_createInvoice :: "instant \<Rightarrow> invoice_input \<Rightarrow> billing_state \<Rightarrow> invoice \<times> billing_state" where
  "bs_createInvoice now i s =
     (let c = bi_invoiceCounter s + 1;
          (iid, s1) = nextId ''in'' (s\<lparr>bi_invoiceCounter := c\<rparr>);
          iv = \<lparr>in_id = iid, in_organizationId = ii_organizationId i,
            in_number = (if ii_number i = [] then ''INV-'' @ pad_start 6 (CHR ''0'') (dec c) else ii_number i),
            in_periodStart = ii_periodStart i, in_periodEnd = ii_periodEnd i, in_lines = ii_lines i,
            in_amountCents = ii_amountCents i, in_currency = default (ii_currency i) ''USD'', in_status = Open,
            in_provider = default (ii_provider i) ''manual'', in_providerInvoiceId = ii_providerInvoiceId i,
            in_createdAt = now\<rparr> in
      (iv, s1\<lparr>bi_invoices := js_set iid iv (bi_invoices s1)\<rparr>))"

definition bs_listInvoices :: "string \<Rightarrow> billing_state \<Rightarrow> invoice list" where
  "bs_listInvoices org s =
     newest_first in_createdAt (filter (\<lambda>i. in_organizationId i = org) (js_values (bi_invoices s)))"

definition bs_getInvoice :: "string \<Rightarrow> billing_state \<Rightarrow> invoice option" where
  "bs_getInvoice i s = js_get (bi_invoices s) i"

definition setInvoiceStatus :: "string \<Rightarrow> invoice_status \<Rightarrow> billing_state \<Rightarrow> invoice option \<times> billing_state" where
  "setInvoiceStatus i st s =
     (case js_get (bi_invoices s) i of
        None \<Rightarrow> (None, s)
      | Some iv \<Rightarrow>
          if in_status iv = Paid \<and> st \<noteq> Paid then (Some iv, s)
          else (let iv' = iv\<lparr>in_status := st\<rparr> in
            (Some iv', s\<lparr>bi_invoices := js_set i iv' (bi_invoices s)\<rparr>)))"

section \<open>Payments and credits\<close>

definition findPaymentByProviderId :: "string \<Rightarrow> string \<Rightarrow> billing_state \<Rightarrow> payment option" where
  "findPaymentByProviderId provider ppid s =
     find (\<lambda>p. pa_provider p = provider \<and> pa_providerPaymentId p = Some ppid) (js_values (bi_payments s))"

definition createPayment :: "instant \<Rightarrow> payment_input \<Rightarrow> billing_state \<Rightarrow> payment \<times> billing_state" where
  "createPayment now i s =
     (let dup = (case pi_providerPaymentId i of
            Some ppid \<Rightarrow> if ppid = [] then None else findPaymentByProviderId (pi_provider i) ppid s
          | None \<Rightarrow> None) in
      case dup of
        Some p \<Rightarrow> (p, s)
      | None \<Rightarrow>
          (let (pid, s1) = nextId ''pay'' s;
               p = \<lparr>pa_id = pid, pa_organizationId = pi_organizationId i, pa_invoiceId = pi_invoiceId i,
                 pa_amountCents = pi_amountCents i, pa_currency = default (pi_currency i) ''USD'',
                 pa_status = pi_status i, pa_provider = pi_provider i,
                 pa_providerPaymentId = pi_providerPaymentId i, pa_createdAt = now\<rparr> in
           (p, s1\<lparr>bi_payments := js_set pid p (bi_payments s1)\<rparr>)))"

definition bs_listPayments :: "string \<Rightarrow> billing_state \<Rightarrow> payment list" where
  "bs_listPayments org s =
     newest_first pa_createdAt (filter (\<lambda>p. pa_organizationId p = org) (js_values (bi_payments s)))"

text \<open>An absent third argument leaves the invoice alone.\<close>

definition setPaymentStatus :: "string \<Rightarrow> payment_status \<Rightarrow> string option option \<Rightarrow> billing_state \<Rightarrow>
    payment option \<times> billing_state" where
  "setPaymentStatus i st invoiceId s =
     (case js_get (bi_payments s) i of
        None \<Rightarrow> (None, s)
      | Some p \<Rightarrow>
          (let p1 = p\<lparr>pa_status := st\<rparr>;
               p2 = (case invoiceId of Some x \<Rightarrow> p1\<lparr>pa_invoiceId := x\<rparr> | None \<Rightarrow> p1) in
           (Some p2, s\<lparr>bi_payments := js_set i p2 (bi_payments s)\<rparr>)))"

definition bs_creditBalanceCents :: "instant \<Rightarrow> string \<Rightarrow> billing_state \<Rightarrow> int" where
  "bs_creditBalanceCents now org s =
     sum_list (map cr_amountCents (filter (\<lambda>c. cr_organizationId c = org \<and>
       (case cr_expiresAt c of None \<Rightarrow> True | Some e \<Rightarrow> now < e)) (bi_credits s)))"

definition addCredit :: "instant \<Rightarrow> string \<Rightarrow> int \<Rightarrow> string \<Rightarrow> instant option \<Rightarrow> billing_state \<Rightarrow>
    unit outcome \<times> billing_state" where
  "addCredit now org amount reason expiresAt s =
     (if amount = 0 then (Inl PlainError, s)
      else (Inr (), s\<lparr>bi_credits := bi_credits s @ [\<lparr>cr_organizationId = org, cr_amountCents = amount,
        cr_reason = take 200 reason, cr_expiresAt = expiresAt, cr_at = now\<rparr>]\<rparr>))"

section \<open>Webhook events\<close>

definition event_key :: "string \<Rightarrow> string \<Rightarrow> string" where
  "event_key provider eventId = provider @ [char_of (10::nat)] @ eventId"

definition findWebhookEvent :: "string \<Rightarrow> string \<Rightarrow> billing_state \<Rightarrow> webhook_event option" where
  "findWebhookEvent provider eventId s = js_get (bi_events s) (event_key provider eventId)"

text \<open>The memory store is handed the payload and does not keep it.\<close>

definition recordWebhookEvent :: "instant \<Rightarrow> string \<Rightarrow> string \<Rightarrow> string \<Rightarrow> string option \<Rightarrow>
    (string \<times> json) list \<Rightarrow> billing_state \<Rightarrow> webhook_event \<times> billing_state" where
  "recordWebhookEvent now provider eventId type org payload s =
     (case findWebhookEvent provider eventId s of
        Some e \<Rightarrow> (e, s)
      | None \<Rightarrow>
          (let (eid, s1) = nextId ''evt'' s;
               e = \<lparr>we_id = eid, we_provider = provider, we_eventId = eventId, we_type = type,
                 we_organizationId = org, we_processedAt = now\<rparr> in
           (e, s1\<lparr>bi_events := js_set (event_key provider eventId) e (bi_events s1)\<rparr>)))"

section \<open>Budgets\<close>

definition bs_createBudget :: "instant \<Rightarrow> string \<Rightarrow> string \<Rightarrow> int \<Rightarrow> budget_action \<Rightarrow> billing_state \<Rightarrow>
    budget outcome \<times> billing_state" where
  "bs_createBudget now org name limitCents action s =
     (if limitCents \<le> 0 then (Inl PlainError, s)
      else (let (bid, s1) = nextId ''bud'' s;
                b = \<lparr>bu_id = bid, bu_organizationId = org, bu_name = take 100 name, bu_limitCents = limitCents,
                  bu_action = action, bu_createdAt = now\<rparr> in
        (Inr b, s1\<lparr>bi_budgets := js_set bid b (bi_budgets s1)\<rparr>)))"

definition bs_listBudgets :: "string \<Rightarrow> billing_state \<Rightarrow> budget list" where
  "bs_listBudgets org s = filter (\<lambda>b. bu_organizationId b = org) (js_values (bi_budgets s))"

definition bs_deleteBudget :: "string \<Rightarrow> string \<Rightarrow> billing_state \<Rightarrow> bool \<times> billing_state" where
  "bs_deleteBudget org i s =
     (case js_get (bi_budgets s) i of
        None \<Rightarrow> (False, s)
      | Some b \<Rightarrow> if bu_organizationId b \<noteq> org then (False, s)
          else (True, s\<lparr>bi_budgets := js_delete i (bi_budgets s)\<rparr>))"

end
