(* ===== verification/BillingService.thy ===== *)
theory BillingService
  imports BillingStore
begin

text \<open>
  The billing service (\<open>packages/billing/src/service.ts\<close>) over the in-memory store.  The service's clock and
  the store's are read once per operation and agree (\<open>now\<close>).  Percentages and overage units are computed
  in double precision (theory \<open>Doubles\<close>).  The notifier never throws; what it is handed is appended to
  \<open>bi_notified\<close>.
\<close>

section \<open>Subscriptions\<close>

definition next_month :: "instant \<Rightarrow> instant" where
  "next_month t = date_utc (utc_year t) (utc_month t + 1)"

text \<open>The input that writes back a subscription's own fields.\<close>

definition carried :: "subscription \<Rightarrow> subscription_input" where
  "carried sub =
     \<lparr>si_organizationId = su_organizationId sub, si_planId = su_planId sub, si_status = su_status sub,
      si_trialEndsAt = su_trialEndsAt sub, si_currentPeriodStart = su_currentPeriodStart sub,
      si_currentPeriodEnd = su_currentPeriodEnd sub, si_renewsAt = su_renewsAt sub,
      si_provider = Some (su_provider sub), si_providerCustomerId = su_providerCustomerId sub,
      si_providerSubscriptionId = su_providerSubscriptionId sub\<rparr>"

definition lapsed :: "subscription \<Rightarrow> subscription_input" where
  "lapsed sub = (carried sub)\<lparr>si_planId := Free, si_status := SubExpired, si_renewsAt := None\<rparr>"

definition trial_over :: "instant \<Rightarrow> subscription \<Rightarrow> bool" where
  "trial_over now sub \<longleftrightarrow>
     su_status sub = Trialing \<and> (case su_trialEndsAt sub of Some e \<Rightarrow> e \<le> now | None \<Rightarrow> False)"

definition cancel_over :: "instant \<Rightarrow> subscription \<Rightarrow> bool" where
  "cancel_over now sub \<longleftrightarrow> su_status sub = Canceled \<and> su_currentPeriodEnd sub \<le> now"

definition reconcile :: "instant \<Rightarrow> subscription \<Rightarrow> billing_state \<Rightarrow> subscription \<times> billing_state" where
  "reconcile now sub s =
     (if trial_over now sub then upsertSubscription now (lapsed sub) s
      else if cancel_over now sub then upsertSubscription now (lapsed sub) s
      else (sub, s))"

definition getSubscription :: "instant \<Rightarrow> string \<Rightarrow> billing_state \<Rightarrow> subscription \<times> billing_state" where
  "getSubscription now org s =
     (case bs_getSubscription org s of
        Some sub \<Rightarrow> reconcile now sub s
      | None \<Rightarrow> upsertSubscription now
          \<lparr>si_organizationId = org, si_planId = Free, si_status = Active, si_trialEndsAt = None,
           si_currentPeriodStart = now, si_currentPeriodEnd = next_month now, si_renewsAt = None,
           si_provider = None, si_providerCustomerId = None, si_providerSubscriptionId = None\<rparr> s)"

record change_options =
  co_trialDays :: "int option"
  co_provider :: "string option"
  co_providerSubscriptionId :: "string option"
  co_gaugeReader :: "(usage_metric \<Rightarrow> int) option"

definition gauge_breach :: "plan_definition \<Rightarrow> (usage_metric \<Rightarrow> int) \<Rightarrow> usage_metric \<Rightarrow> bool" where
  "gauge_breach plan reader metric =
     (case limitKeyFor SApi metric of
        None \<Rightarrow> False
      | Some key \<Rightarrow>
          (let limit = pl_limits plan key in
           if limit < 0 then False else of_int limit < toLimitUnits metric (reader metric)))"

definition breaches :: "plan_definition \<Rightarrow> (usage_metric \<Rightarrow> int) \<Rightarrow> usage_metric list" where
  "breaches plan reader =
     filter (gauge_breach plan reader)
       [M_projects, M_team_members, M_storage_bytes, M_storage_files, M_api_keys]"

text \<open>The end of the trial a change grants, and the row it writes.\<close>

definition trial_end :: "instant \<Rightarrow> plan_definition \<Rightarrow> int option \<Rightarrow> instant option" where
  "trial_end now plan days = (case days of
       Some d \<Rightarrow> if 0 < d \<and> 0 < pl_trialDays plan then Some (now + min d (pl_trialDays plan) * 86400000) else None
     | None \<Rightarrow> None)"

definition changed :: "instant \<Rightarrow> string \<Rightarrow> plan_id \<Rightarrow> change_options \<Rightarrow> subscription \<Rightarrow> subscription_input" where
  "changed now org planId opts current =
     (let plan = getPlan planId; trialEndsAt = trial_end now plan (co_trialDays opts) in
      \<lparr>si_organizationId = org, si_planId = planId,
       si_status = (if trialEndsAt = None then Active else Trialing), si_trialEndsAt = trialEndsAt,
       si_currentPeriodStart = now, si_currentPeriodEnd = next_month now,
       si_renewsAt = (if pl_priceCents plan \<in> {None, Some 0} then None else Some (next_month now)),
       si_provider = Some (default (co_provider opts) (su_provider current)),
       si_providerCustomerId = su_providerCustomerId current,
       si_providerSubscriptionId =
         or_else (co_providerSubscriptionId opts) (su_providerSubscriptionId current)\<rparr>)"

definition changePlan :: "instant \<Rightarrow> string \<Rightarrow> plan_id \<Rightarrow> change_options \<Rightarrow> billing_state \<Rightarrow>
    subscription outcome \<times> billing_state" where
  "changePlan now org planId opts s =
     (let plan = getPlan planId; (current, s1) = getSubscription now org s;
          blocked = (case co_gaugeReader opts of Some reader \<Rightarrow> breaches plan reader \<noteq> [] | None \<Rightarrow> False) in
      if blocked then (Inl (ApiError DOWNGRADE_BLOCKED 409), s1)
      else (let (sub, s2) = upsertSubscription now (changed now org planId opts current) s1 in (Inr sub, s2)))"

definition cancelSubscription :: "instant \<Rightarrow> string \<Rightarrow> billing_state \<Rightarrow> subscription \<times> billing_state" where
  "cancelSubscription now org s =
     (let (current, s1) = getSubscription now org s in
      upsertSubscription now
        ((carried current)\<lparr>si_organizationId := org, si_status := Canceled, si_renewsAt := None\<rparr>) s1)"

definition effectiveLimits :: "instant \<Rightarrow> string \<Rightarrow> billing_state \<Rightarrow>
    (plan_id \<times> subscription_status \<times> (limit_key \<Rightarrow> int)) \<times> billing_state" where
  "effectiveLimits now org s =
     (let (sub, s1) = getSubscription now org s in
      if su_status sub = SubExpired \<or> su_status sub = PastDue
      then ((Free, su_status sub, pl_limits (getPlan Free)), s1)
      else ((su_planId sub, su_status sub, pl_limits (getPlan (su_planId sub))), s1))"

section \<open>Quotas\<close>

definition getLimit :: "plan_id \<Rightarrow> usage_service \<Rightarrow> usage_metric \<Rightarrow> int option" where
  "getLimit planId service metric = map_option (pl_limits (getPlan planId)) (limitKeyFor service metric)"

definition WARNING_LEVELS :: "int list" where
  "WARNING_LEVELS = [50, 75, 90, 100]"

text \<open>The share of a limit in percent, capped: \<open>Math.min(cap, Math.floor((a / limit) * 100))\<close>.\<close>

definition percent_of :: "int \<Rightarrow> rat \<Rightarrow> int \<Rightarrow> int" where
  "percent_of cap a limit = min cap \<lfloor>to_double (to_double (a / of_int limit) * 100)\<rfloor>"

definition fireWarnings :: "instant \<Rightarrow> string \<Rightarrow> string \<Rightarrow> int \<Rightarrow> string \<Rightarrow> billing_state \<Rightarrow>
    int list \<times> billing_state" where
  "fireWarnings now org resource percent period s =
     (let crossed = filter (\<lambda>t. t \<le> percent) WARNING_LEVELS;
          fired = getWarningThresholds org resource period s;
          fresh = filter (\<lambda>t. dec_int t \<notin> set fired) crossed in
      if crossed = [] then ([], s)
      else if fresh = [] then ([], s)
      else (let s1 = setWarningThresholds now org resource period (fired @ map dec_int fresh) s in
        (fresh, s1\<lparr>bi_notified := bi_notified s1 @
           map (\<lambda>t. \<lparr>qw_organizationId = org, qw_resource = resource, qw_percent = percent, qw_threshold = t,
             qw_period = period\<rparr>) fresh\<rparr>)))"

definition resource_name :: "usage_service \<Rightarrow> usage_metric \<Rightarrow> string" where
  "resource_name service metric = service_text service @ ''.'' @ metric_text metric"

record limit_check =
  lc_resource :: string
  lc_limit :: int
  lc_used :: rat
  lc_remaining :: rat
  lc_percent :: int
  lc_policy :: limit_policy
  lc_allowed :: bool

definition checkLimit :: "instant \<Rightarrow> string \<Rightarrow> usage_service \<Rightarrow> usage_metric \<Rightarrow> int \<Rightarrow> int \<Rightarrow> limit_policy \<Rightarrow>
    instant option \<Rightarrow> billing_state \<Rightarrow> (bool \<times> limit_check option \<times> int list) \<times> billing_state" where
  "checkLimit now org service metric used requested policy t s =
     (let instant = default t now; ((planId, _, _), s1) = effectiveLimits now org s in
      case getLimit planId service metric of
        None \<Rightarrow> ((True, None, []), s1)
      | Some limit \<Rightarrow>
          if limit < 0 then ((True, None, []), s1)
          else
            (let usedUnits = toLimitUnits metric used; requestedUnits = toLimitUnits metric requested;
                 both = to_double (usedUnits + requestedUnits);
                 percent = (if limit = 0 then if 0 < usedUnits \<or> 0 < requestedUnits then 100 else 0
                            else percent_of 100 both limit);
                 check = \<lparr>lc_resource = resource_name service metric, lc_limit = limit, lc_used = usedUnits,
                   lc_remaining = max 0 (to_double (to_double (of_int limit - usedUnits) - requestedUnits)),
                   lc_percent = percent, lc_policy = policy,
                   lc_allowed = (policy = Soft \<or> both \<le> of_int limit)\<rparr>;
                 (crossed, s2) = fireWarnings now org (lc_resource check) percent (periodOf instant) s1 in
             ((lc_allowed check, Some check, crossed), s2)))"

section \<open>Metering\<close>

definition billing_aggregate :: "string \<Rightarrow> string \<Rightarrow> billing_state \<Rightarrow> usage_row list outcome" where
  "billing_aggregate org period s =
     and_then (periodBounds period) (\<lambda>_. Inr (aggregateUsage org period s))"

definition metric_total :: "usage_row list \<Rightarrow> usage_service \<Rightarrow> usage_metric \<Rightarrow> int" where
  "metric_total rows service metric =
     sum_list (map ur_total (filter (\<lambda>r. ur_service r = service \<and> ur_metric r = metric) rows))"

definition evaluateWarnings :: "instant \<Rightarrow> string \<Rightarrow> usage_service \<Rightarrow> usage_metric \<Rightarrow> string \<Rightarrow> billing_state \<Rightarrow>
    unit outcome \<times> billing_state" where
  "evaluateWarnings now org service metric period s =
     (let ((planId, _, _), s1) = effectiveLimits now org s in
      case getLimit planId service metric of
        None \<Rightarrow> (Inr (), s1)
      | Some limit \<Rightarrow>
          if limit < 0 then (Inr (), s1)
          else case billing_aggregate org period s1 of
            Inl e \<Rightarrow> (Inl e, s1)
          | Inr rows \<Rightarrow>
              (let amount = metric_total rows service metric;
                   percent = (if limit = 0 then if 0 < amount then 100 else 0
                              else percent_of 100 (toLimitUnits metric amount) limit);
                   (_, s2) = fireWarnings now org (resource_name service metric) percent period s1 in
               (Inr (), s2)))"

definition MAX_SAFE_INTEGER :: int where
  "MAX_SAFE_INTEGER = 9007199254740991"

definition billing_record :: "instant \<Rightarrow> string \<Rightarrow> string \<Rightarrow> usage_service \<Rightarrow> usage_metric \<Rightarrow> int \<Rightarrow> instant option \<Rightarrow>
    billing_state \<Rightarrow> unit outcome \<times> billing_state" where
  "billing_record now org project service metric v t s =
     (if v < 0 \<or> MAX_SAFE_INTEGER < v then (Inl (ApiError VALIDATION_ERROR 400), s)
      else
        (let instant = default t now;
             (r, s1) = recordUsage \<lparr>us_organizationId = org, us_projectId = project, us_service = service,
               us_metric = metric, us_value = v, us_period = periodOf instant, us_at = instant\<rparr> s in
         case r of
           Inl e \<Rightarrow> (Inl e, s1)
         | Inr _ \<Rightarrow>
             if metric \<in> set GAUGE_METRICS then (Inr (), s1)
             else (Inr (), snd (evaluateWarnings now org service metric (periodOf instant) s1))))"

definition billing_increment :: "instant \<Rightarrow> string \<Rightarrow> string \<Rightarrow> usage_service \<Rightarrow> usage_metric \<Rightarrow> int \<Rightarrow>
    billing_state \<Rightarrow> unit outcome \<times> billing_state" where
  "billing_increment now org project service metric amount s =
     billing_record now org project service metric amount None s"

record usage_slice =
  sl_service :: usage_service
  sl_metric :: usage_metric
  sl_total :: int
  sl_byProject :: "(string \<times> int) list"

record usage_summary =
  um_organizationId :: string
  um_period :: string
  um_planId :: plan_id
  um_slices :: "usage_slice list"

definition add_to_slice :: "usage_row \<Rightarrow> (usage_service \<times> usage_metric, usage_slice) jsmap \<Rightarrow>
    (usage_service \<times> usage_metric, usage_slice) jsmap" where
  "add_to_slice r m =
     (let key = (ur_service r, ur_metric r);
          slice = default (js_get m key)
            \<lparr>sl_service = ur_service r, sl_metric = ur_metric r, sl_total = 0, sl_byProject = []\<rparr> in
      js_set key (slice\<lparr>sl_total := sl_total slice + ur_total r,
        sl_byProject := sl_byProject slice @
          (if ur_projectId r = [] then [] else [(ur_projectId r, ur_total r)])\<rparr>) m)"

definition usage_slices :: "usage_row list \<Rightarrow> usage_slice list" where
  "usage_slices rows = js_values (fold add_to_slice rows [])"

definition getCurrentUsage :: "instant \<Rightarrow> string \<Rightarrow> instant option \<Rightarrow> billing_state \<Rightarrow>
    usage_summary outcome \<times> billing_state" where
  "getCurrentUsage now org t s =
     (let period = periodOf (default t now); ((planId, _, _), s1) = effectiveLimits now org s in
      (and_then (billing_aggregate org period s1) (\<lambda>rows.
         Inr \<lparr>um_organizationId = org, um_period = period, um_planId = planId,
           um_slices = map (\<lambda>sl. sl\<lparr>sl_byProject := sort_key (\<lambda>p. - snd p) (sl_byProject sl)\<rparr>) (usage_slices rows)\<rparr>),
       s1))"

fun historical_loop :: "instant \<Rightarrow> string \<Rightarrow> string list \<Rightarrow> billing_state \<Rightarrow>
    usage_summary list outcome \<times> billing_state" where
  "historical_loop now org [] s = (Inr [], s)"
| "historical_loop now org (period # ps) s =
     (case periodBounds period of
        Inl e \<Rightarrow> (Inl e, s)
      | Inr _ \<Rightarrow>
          (let ((planId, _, _), s1) = effectiveLimits now org s in
           case billing_aggregate org period s1 of
             Inl e \<Rightarrow> (Inl e, s1)
           | Inr rows \<Rightarrow>
               (let (rest, s2) = historical_loop now org ps s1 in
                (and_then rest (\<lambda>out. Inr (\<lparr>um_organizationId = org, um_period = period, um_planId = planId,
                   um_slices = usage_slices rows\<rparr> # out)), s2))))"

definition getHistoricalUsage :: "instant \<Rightarrow> string \<Rightarrow> string list \<Rightarrow> billing_state \<Rightarrow>
    usage_summary list outcome \<times> billing_state" where
  "getHistoricalUsage now org periods s =
     (if 24 < length periods then (Inl (ApiError VALIDATION_ERROR 400), s)
      else historical_loop now org (take 24 periods) s)"

end
