(* ===== verification/BillingInvoices.thy ===== *)
theory BillingInvoices
  imports BillingService
begin

text \<open>
  The second half of the billing service (\<open>packages/billing/src/service.ts\<close>): invoice previews and invoices,
  spend budgets, credits, the application of verified provider events and the maintenance pass.
\<close>

section \<open>Invoices\<close>

text \<open>The rate of an overage entry, when it is offered and not zero.\<close>

definition overage_rate :: "plan_definition \<Rightarrow> overage_key \<Rightarrow> int option" where
  "overage_rate plan key =
     (case pl_overage plan key of
        Some (Some c, _) \<Rightarrow> if c = 0 then None else Some c
      | _ \<Rightarrow> None)"

text \<open>The closure \<open>over\<close>: at most one line; \<open>per\<close> is the raw usage one billable unit holds.\<close>

definition over :: "plan_definition \<Rightarrow> usage_row list \<Rightarrow> usage_service \<Rightarrow> usage_metric \<Rightarrow> overage_key \<Rightarrow> int \<Rightarrow>
    string \<Rightarrow> invoice_line list" where
  "over plan rows service metric key per unit =
     (case (overage_rate plan key, limitKeyFor service metric) of
        (Some unitCents, Some limitKey) \<Rightarrow>
          (let rawLimit = pl_limits plan limitKey;
               rawLimitUnits = (if metric = M_api_bandwidth_bytes then rawLimit * 1024 * 1024 else rawLimit);
               usedRaw = metric_total rows service metric in
           if rawLimitUnits < 0 then []
           else if usedRaw \<le> rawLimitUnits then []
           else
             (let units = to_double (of_int (usedRaw - rawLimitUnits) / of_int per) in
              if units \<le> 0 then []
              else [\<lparr>il_label = overage_text key @ '' overage ('' @ number_text units @ '' '' @ unit @ '' over plan)'',
                     il_quantity = \<lceil>units\<rceil>, il_unitCents = unitCents, il_amountCents = \<lceil>units\<rceil> * unitCents\<rparr>]))
      | _ \<Rightarrow> [])"

definition base_line :: "plan_definition \<Rightarrow> string \<Rightarrow> invoice_line list" where
  "base_line plan target =
     (let price = default (pl_priceCents plan) 0 in
      if 0 < price then [\<lparr>il_label = pl_name plan @ '' plan ('' @ target @ '')'', il_quantity = 1,
        il_unitCents = price, il_amountCents = price\<rparr>] else [])"

definition invoice_lines :: "plan_definition \<Rightarrow> string \<Rightarrow> usage_row list \<Rightarrow> invoice_line list" where
  "invoice_lines plan target rows =
     base_line plan target
     @ over plan rows SApi M_api_requests O_api_requests 10000 ''10k requests''
     @ over plan rows SApi M_api_bandwidth_bytes O_bandwidth_mb (1024 * 1024 * 1024) ''GB''
     @ over plan rows SAi M_ai_tokens O_ai_tokens 1000000 ''1M tokens''
     @ over plan rows SFunctions M_function_invocations O_function_invocations 1000000 ''1M invocations''"

record invoice_preview =
  ip_planId :: plan_id
  ip_period :: string
  ip_lines :: "invoice_line list"
  ip_amountCents :: int

definition previewInvoice :: "instant \<Rightarrow> string \<Rightarrow> string option \<Rightarrow> billing_state \<Rightarrow>
    invoice_preview outcome \<times> billing_state" where
  "previewInvoice now org period s =
     (let ((planId, _, _), s1) = effectiveLimits now org s;
          plan = getPlan planId; target = default period (periodOf now) in
      (and_then (billing_aggregate org target s1) (\<lambda>rows.
         (let ls = invoice_lines plan target rows in
          Inr \<lparr>ip_planId = planId, ip_period = target, ip_lines = ls,
            ip_amountCents = sum_list (map il_amountCents ls)\<rparr>)), s1))"

text \<open>\<open>p.replace('-', '')\<close> drops the first dash.\<close>

definition drop_dash :: "string \<Rightarrow> string" where
  "drop_dash p = takeWhile (\<lambda>c. c \<noteq> CHR ''-'') p @ drop 1 (dropWhile (\<lambda>c. c \<noteq> CHR ''-'') p)"

definition generateInvoice :: "instant \<Rightarrow> string \<Rightarrow> string option \<Rightarrow> billing_state \<Rightarrow>
    invoice outcome \<times> billing_state" where
  "generateInvoice now org period s =
     (let (r, s1) = previewInvoice now org period s in
      case and_then r (\<lambda>pv. and_then (periodBounds (ip_period pv)) (\<lambda>b. Inr (pv, b))) of
        Inl e \<Rightarrow> (Inl e, s1)
      | Inr (pv, start, until) \<Rightarrow>
          (let plan = getPlan (ip_planId pv);
               num = ''INV-'' @ drop_dash (ip_period pv) @ ''-'' @
                 pad_start 3 (CHR ''0'') (dec (length (bs_listInvoices org s1) + 1));
               (created, s2) = bs_createInvoice now \<lparr>ii_organizationId = org, ii_number = num, ii_periodStart = start,
                 ii_periodEnd = until, ii_lines = ip_lines pv, ii_amountCents = ip_amountCents pv,
                 ii_currency = Some (pl_currency plan), ii_provider = None, ii_providerInvoiceId = None\<rparr> s1 in
           (Inr created, s2)))"

definition getInvoice :: "string \<Rightarrow> string \<Rightarrow> billing_state \<Rightarrow> invoice outcome" where
  "getInvoice org i s =
     (case bs_getInvoice i s of
        None \<Rightarrow> Inl (ApiError NOT_FOUND 404)
      | Some found \<Rightarrow> if in_organizationId found \<noteq> org then Inl (ApiError NOT_FOUND 404) else Inr found)"

definition invoiceBalanceCents :: "instant \<Rightarrow> string \<Rightarrow> string \<Rightarrow> billing_state \<Rightarrow> int outcome" where
  "invoiceBalanceCents now org i s =
     and_then (getInvoice org i s) (\<lambda>found. Inr (max 0 (in_amountCents found - bs_creditBalanceCents now org s)))"

definition grantCredit :: "instant \<Rightarrow> string \<Rightarrow> int \<Rightarrow> string \<Rightarrow> instant option \<Rightarrow> billing_state \<Rightarrow>
    unit outcome \<times> billing_state" where
  "grantCredit now org amount reason expiresAt s = addCredit now org amount reason expiresAt s"

section \<open>Budgets\<close>

definition estimateSpendCents :: "instant \<Rightarrow> string \<Rightarrow> billing_state \<Rightarrow> (int \<times> string) outcome \<times> billing_state" where
  "estimateSpendCents now org s =
     (let (r, s1) = previewInvoice now org None s in
      (and_then r (\<lambda>pv. Inr (ip_amountCents pv, ip_period pv)), s1))"

definition createBudget :: "instant \<Rightarrow> string \<Rightarrow> string \<Rightarrow> int \<Rightarrow> budget_action \<Rightarrow> billing_state \<Rightarrow>
    budget outcome \<times> billing_state" where
  "createBudget now org name limitCents action s = bs_createBudget now org name limitCents action s"

definition deleteBudget :: "string \<Rightarrow> string \<Rightarrow> billing_state \<Rightarrow> unit outcome \<times> billing_state" where
  "deleteBudget org i s =
     (let (ok, s1) = bs_deleteBudget org i s in
      (if ok then Inr () else Inl (ApiError NOT_FOUND 404), s1))"

record budget_evaluation =
  be_budget :: budget
  be_spendCents :: int
  be_breached :: bool
  be_percent :: int

definition evaluate_budget :: "int \<Rightarrow> budget \<Rightarrow> budget_evaluation" where
  "evaluate_budget spend b =
     \<lparr>be_budget = b, be_spendCents = spend, be_breached = (bu_limitCents b \<le> spend),
      be_percent = (if bu_limitCents b \<le> 0 then 100 else percent_of 999 (of_int spend) (bu_limitCents b))\<rparr>"

definition evaluateBudgets :: "instant \<Rightarrow> string \<Rightarrow> billing_state \<Rightarrow>
    (int \<times> string \<times> budget_evaluation list) outcome \<times> billing_state" where
  "evaluateBudgets now org s =
     (let (r, s1) = estimateSpendCents now org s in
      (and_then r (\<lambda>(spend, period).
         Inr (spend, period, map (evaluate_budget spend) (bs_listBudgets org s1))), s1))"

definition isSpendBlocked :: "instant \<Rightarrow> string \<Rightarrow> billing_state \<Rightarrow> (bool \<times> string option) outcome \<times> billing_state" where
  "isSpendBlocked now org s =
     (let (r, s1) = evaluateBudgets now org s in
      (and_then r (\<lambda>(spend, period, evs).
         Inr (case find (\<lambda>e. be_breached e \<and> bu_action (be_budget e) = Block) evs of
                Some e \<Rightarrow> (True, Some (bu_id (be_budget e)))
              | None \<Rightarrow> (False, None))), s1))"

section \<open>Provider events\<close>

definition sanitized_value :: "json \<Rightarrow> json option" where
  "sanitized_value v = (case v of
       JStr t \<Rightarrow> Some (JStr (take 200 t)) | JNum n \<Rightarrow> Some (JNum n) | JBool b \<Rightarrow> Some (JBool b) | _ \<Rightarrow> None)"

definition sanitizeEventPayload :: "(string \<times> json) list \<Rightarrow> (string \<times> json) list" where
  "sanitizeEventPayload payload =
     List.map_filter (\<lambda>key. map_option (\<lambda>v. (key, v)) (sanitized_value (json_field payload key)))
       [''id'', ''type'', ''status'', ''amountCents'', ''currency'', ''invoiceId'', ''subscriptionId'', ''paymentId'']"

record provider_event =
  pe_provider :: string
  pe_eventId :: string
  pe_type :: string
  pe_organizationId :: "string option"
  pe_payload :: "(string \<times> json) list"

definition text_field :: "provider_event \<Rightarrow> string \<Rightarrow> string option" where
  "text_field ev key = (case json_field (pe_payload ev) key of JStr t \<Rightarrow> Some t | _ \<Rightarrow> None)"

definition listPaymentsTotal :: "string \<Rightarrow> string \<Rightarrow> billing_state \<Rightarrow> int" where
  "listPaymentsTotal org invoiceId s =
     sum_list (map pa_amountCents
       (filter (\<lambda>p. pa_invoiceId p = Some invoiceId \<and> pa_status p = PaySucceeded) (bs_listPayments org s)))"

text \<open>After a payment: the invoice it names is settled when it is open, of this organization and covered.\<close>

definition settle :: "string \<Rightarrow> payment \<Rightarrow> billing_state \<Rightarrow> billing_state" where
  "settle org p s =
     (case pa_invoiceId p of
        None \<Rightarrow> s
      | Some i \<Rightarrow>
          if i = [] then s
          else (case bs_getInvoice i s of
             None \<Rightarrow> s
           | Some found \<Rightarrow>
               if in_organizationId found = org \<and> in_status found = Open \<and>
                  in_amountCents found \<le> listPaymentsTotal org (in_id found) s
               then snd (setInvoiceStatus (in_id found) Paid s) else s))"

definition applyPayment :: "instant \<Rightarrow> string \<Rightarrow> provider_event \<Rightarrow> billing_state \<Rightarrow>
    (bool \<times> string) \<times> billing_state" where
  "applyPayment now org ev s =
     (case json_field (pe_payload ev) ''amountCents'' of
        JNum amount \<Rightarrow>
          if amount \<le> 0 then ((False, ''payment event missing a valid amountCents''), s)
          else
            (let (p, s1) = createPayment now
                   \<lparr>pi_organizationId = org, pi_invoiceId = text_field ev ''invoiceId'', pi_amountCents = amount,
                    pi_currency = Some (case text_field ev ''currency'' of Some c \<Rightarrow> take 3 c | None \<Rightarrow> ''USD''),
                    pi_status = PaySucceeded, pi_provider = pe_provider ev,
                    pi_providerPaymentId = text_field ev ''paymentId''\<rparr> s in
             ((True, ''payment '' @ pa_id p @ '' recorded''), settle org p s1))
      | _ \<Rightarrow> ((False, ''payment event missing a valid amountCents''), s))"

definition subscription_status_text :: "subscription_status \<Rightarrow> string" where
  "subscription_status_text st = (case st of Trialing \<Rightarrow> ''trialing'' | Active \<Rightarrow> ''active'' | PastDue \<Rightarrow> ''past_due''
     | Canceled \<Rightarrow> ''canceled'' | SubExpired \<Rightarrow> ''expired'' | Paused \<Rightarrow> ''paused'')"

definition applySubscription :: "instant \<Rightarrow> string \<Rightarrow> provider_event \<Rightarrow> billing_state \<Rightarrow>
    (bool \<times> string) \<times> billing_state" where
  "applySubscription now org ev s =
     (let (sub, s1) = getSubscription now org s;
          st = (if pe_type ev = ''subscription.canceled'' then Canceled else su_status sub);
          (_, s2) = upsertSubscription now
            ((carried sub)\<lparr>si_status := st, si_provider := Some (pe_provider ev),
               si_providerSubscriptionId :=
                 or_else (text_field ev ''subscriptionId'') (su_providerSubscriptionId sub)\<rparr>) s1 in
      ((True, ''subscription marked '' @ subscription_status_text st), s2))"

definition applyProviderEvent :: "instant \<Rightarrow> provider_event \<Rightarrow> billing_state \<Rightarrow>
    (bool \<times> string) \<times> billing_state" where
  "applyProviderEvent now ev s =
     (case findWebhookEvent (pe_provider ev) (pe_eventId ev) s of
        Some _ \<Rightarrow> ((False, ''duplicate event ignored''), s)
      | None \<Rightarrow>
          (let (_, s1) = recordWebhookEvent now (pe_provider ev) (pe_eventId ev) (pe_type ev) (pe_organizationId ev)
                 (sanitizeEventPayload (pe_payload ev)) s in
           case pe_organizationId ev of
             None \<Rightarrow> ((False, ''no organization scope; recorded only''), s1)
           | Some org \<Rightarrow>
               if org = [] then ((False, ''no organization scope; recorded only''), s1)
               else if pe_type ev = ''payment.succeeded'' then applyPayment now org ev s1
               else if pe_type ev = ''payment.failed'' \<or> pe_type ev = ''payment.refunded'' then
                 ((True, ''payment event noted ('' @ pe_type ev @ ''); no local mutation''), s1)
               else if pe_type ev = ''subscription.updated'' \<or> pe_type ev = ''subscription.canceled'' then
                 applySubscription now org ev s1
               else ((False, ''unknown event type '' @ take 60 (pe_type ev) @ ''; recorded only''), s1)))"

section \<open>Maintenance\<close>

text \<open>One organization of the loop; the memory store never throws, so no error is collected.\<close>

fun reconcile_loop :: "instant \<Rightarrow> string list \<Rightarrow> billing_state \<Rightarrow> nat \<times> billing_state" where
  "reconcile_loop now [] s = (0, s)"
| "reconcile_loop now (org # orgs) s =
     (case bs_getSubscription org s of
        None \<Rightarrow> reconcile_loop now orgs s
      | Some sub \<Rightarrow>
          (let (_, s1) = reconcile now sub s; (n, s2) = reconcile_loop now orgs s1 in (n + 1, s2)))"

definition billing_runMaintenance :: "instant \<Rightarrow> string list \<Rightarrow> int option \<Rightarrow> billing_state \<Rightarrow>
    (nat \<times> nat) \<times> billing_state" where
  "billing_runMaintenance now orgs rawRetentionDays s =
     (let expiry = now - default rawRetentionDays 90 * 86400000;
          (n, s1) = reconcile_loop now (take 10000 orgs) s;
          (pruned, s2) = pruneUsageRecords expiry s1 in
      ((n, pruned), s2))"

end
