(* ===== verification/BillingSteps.thy ===== *)
theory BillingSteps
  imports BillingInvoices
begin

text \<open>
  What the billing service can do to its state.  \<open>billing_step\<close> is the abstract specification: the few ways
  the ledger changes, each under the condition the service guarantees (a payment is positive, an invoice is
  marked paid only when succeeded payments cover it, a usage record carries the period of its own time).
  \<open>billing_op\<close> is one call of the service; every operation refines a sequence of steps (\<open>op_steps\<close>), so an
  invariant of the steps is an invariant of the service.
\<close>

section \<open>The specification\<close>

definition line_ok :: "invoice_line \<Rightarrow> bool" where
  "line_ok l \<longleftrightarrow> 0 < il_quantity l \<and> 0 < il_unitCents l \<and> il_amountCents l = il_quantity l * il_unitCents l"

definition covered :: "invoice \<Rightarrow> billing_state \<Rightarrow> bool" where
  "covered iv s \<longleftrightarrow> in_amountCents iv \<le> listPaymentsTotal (in_organizationId iv) (in_id iv) s"

inductive billing_step :: "billing_state \<Rightarrow> billing_state \<Rightarrow> bool" where
  upsert: "billing_step s (snd (upsertSubscription now i s))"
| usage: "0 \<le> us_value r \<Longrightarrow> us_value r \<le> MAX_SAFE_INTEGER \<Longrightarrow> us_period r = periodOf (us_at r) \<Longrightarrow>
    billing_step s (s\<lparr>bi_records := bi_records s @ [r]\<rparr>)"
| prune: "billing_step s (snd (pruneUsageRecords t s))"
| warn: "billing_step s (snd (fireWarnings now org res percent period s))"
| invoice: "ii_amountCents i = sum_list (map il_amountCents (ii_lines i)) \<Longrightarrow> list_all line_ok (ii_lines i) \<Longrightarrow>
    billing_step s (snd (bs_createInvoice now i s))"
| payment: "0 < pi_amountCents i \<Longrightarrow> billing_step s (snd (createPayment now i s))"
| paid: "bs_getInvoice k s = Some iv \<Longrightarrow> covered iv s \<Longrightarrow>
    billing_step s (snd (setInvoiceStatus (in_id iv) Paid s))"
| event: "billing_step s (snd (recordWebhookEvent now p e ty org payload s))"
| credit: "billing_step s (snd (addCredit now org n reason x s))"
| budget: "billing_step s (snd (bs_createBudget now org name n act s))"
| unbudget: "billing_step s (snd (bs_deleteBudget org k s))"

abbreviation billing_steps :: "billing_state \<Rightarrow> billing_state \<Rightarrow> bool" where
  "billing_steps \<equiv> billing_step\<^sup>*\<^sup>*"

section \<open>The service\<close>

inductive billing_op :: "billing_state \<Rightarrow> billing_state \<Rightarrow> bool" where
  "billing_op s (snd (getSubscription now org s))"
| "billing_op s (snd (changePlan now org plan opts s))"
| "billing_op s (snd (cancelSubscription now org s))"
| "billing_op s (snd (effectiveLimits now org s))"
| "billing_op s (snd (billing_record now org project service metric v t s))"
| "billing_op s (snd (billing_increment now org project service metric v s))"
| "billing_op s (snd (getCurrentUsage now org t s))"
| "billing_op s (snd (getHistoricalUsage now org periods s))"
| "billing_op s (snd (checkLimit now org service metric used requested policy t s))"
| "billing_op s (snd (previewInvoice now org period s))"
| "billing_op s (snd (generateInvoice now org period s))"
| "billing_op s (snd (createBudget now org name cents action s))"
| "billing_op s (snd (deleteBudget org i s))"
| "billing_op s (snd (evaluateBudgets now org s))"
| "billing_op s (snd (isSpendBlocked now org s))"
| "billing_op s (snd (grantCredit now org cents reason expires s))"
| "billing_op s (snd (applyProviderEvent now ev s))"
| "billing_op s (snd (billing_runMaintenance now orgs days s))"

text \<open>The states the service can reach from an empty store.\<close>

definition billing_reachable :: "billing_state \<Rightarrow> bool" where
  "billing_reachable s \<longleftrightarrow> billing_op\<^sup>*\<^sup>* initial_billing s"

section \<open>Every operation refines steps\<close>

lemma steps_trans: "billing_steps a b \<Longrightarrow> billing_steps b c \<Longrightarrow> billing_steps a c"
  by (rule rtranclp_trans)

lemma step_steps: "billing_step a b \<Longrightarrow> billing_steps a b"
  by (rule r_into_rtranclp)

lemma reconcile_steps: "billing_steps s (snd (reconcile now sub s))"
  by (simp add: reconcile_def step_steps billing_step.upsert)

lemma getSubscription_steps: "billing_steps s (snd (getSubscription now org s))"
  by (simp add: getSubscription_def reconcile_steps step_steps billing_step.upsert split: option.split)

lemma effectiveLimits_steps: "billing_steps s (snd (effectiveLimits now org s))"
  using getSubscription_steps [of s now org] by (simp add: effectiveLimits_def case_prod_beta' Let_def)

lemma changePlan_steps: "billing_steps s (snd (changePlan now org plan opts s))"
proof -
  have "billing_steps (snd (getSubscription now org s)) (snd (upsertSubscription now i (snd (getSubscription now org s))))" for i
    by (rule step_steps, rule billing_step.upsert)
  then show ?thesis
    unfolding changePlan_def Let_def
    using getSubscription_steps [of s now org] by (auto simp: case_prod_beta' intro: steps_trans)
qed

lemma cancelSubscription_steps: "billing_steps s (snd (cancelSubscription now org s))"
proof -
  obtain c s1 where g: "getSubscription now org s = (c, s1)" by fastforce
  then show ?thesis
    using getSubscription_steps [of s now org] steps_trans [OF _ step_steps [OF billing_step.upsert]]
    by (simp add: cancelSubscription_def)
qed

lemma fireWarnings_steps: "billing_steps s (snd (fireWarnings now org res percent period s))"
  by (rule step_steps, rule billing_step.warn)

lemma evaluateWarnings_steps: "billing_steps s (snd (evaluateWarnings now org sv m period s))"
proof -
  obtain x s1 where g: "effectiveLimits now org s = (x, s1)" by fastforce
  have "billing_steps s s1" using effectiveLimits_steps [of s now org] g by simp
  then show ?thesis using steps_trans [OF _ fireWarnings_steps, of s s1]
    unfolding evaluateWarnings_def g Let_def
    by (auto simp: case_prod_beta' split: option.split sum.split)
qed

lemma billing_record_steps: "billing_steps s (snd (billing_record now org p sv m v t s))"
proof (cases "v < 0 \<or> MAX_SAFE_INTEGER < v")
  case False
  let ?i = "default t now"
  let ?r = "\<lparr>us_organizationId = org, us_projectId = p, us_service = sv, us_metric = m, us_value = v,
    us_period = periodOf ?i, us_at = ?i\<rparr>"
  let ?s1 = "s\<lparr>bi_records := bi_records s @ [?r]\<rparr>"
  have "billing_steps s ?s1" using False by (intro step_steps billing_step.usage) simp_all
  moreover from this have "billing_steps s (snd (evaluateWarnings now org sv m (periodOf ?i) ?s1))"
    by (rule steps_trans [OF _ evaluateWarnings_steps])
  ultimately show ?thesis using False by (simp add: billing_record_def recordUsage_def Let_def)
qed (simp add: billing_record_def)

lemma checkLimit_steps: "billing_steps s (snd (checkLimit now org sv m used requested policy t s))"
proof -
  obtain x s1 where g: "effectiveLimits now org s = (x, s1)" by fastforce
  have "billing_steps s s1" using effectiveLimits_steps [of s now org] g by simp
  then show ?thesis using steps_trans [OF _ fireWarnings_steps, of s s1]
    unfolding checkLimit_def g Let_def by (auto simp: case_prod_beta' split: option.split)
qed

lemma getCurrentUsage_steps: "billing_steps s (snd (getCurrentUsage now org t s))"
  using effectiveLimits_steps [of s now org] by (simp add: getCurrentUsage_def case_prod_beta' Let_def)

lemma historical_steps: "billing_steps s (snd (historical_loop now org ps s))"
proof (induction ps arbitrary: s)
  case (Cons p ps)
  obtain x y z s1 where g: "effectiveLimits now org s = ((x, y, z), s1)" by (metis surj_pair)
  have "billing_steps s s1" using effectiveLimits_steps [of s now org] g by simp
  then show ?case using steps_trans [OF _ Cons.IH, of s s1] g
    by (auto simp: case_prod_beta' Let_def split: sum.split)
qed simp

lemma previewInvoice_steps: "billing_steps s (snd (previewInvoice now org period s))"
  using effectiveLimits_steps [of s now org] by (simp add: previewInvoice_def case_prod_beta' Let_def)

section \<open>Invoice lines\<close>

lemma overage_rate_positive: "overage_rate (getPlan p) key = Some c \<Longrightarrow> 0 < c"
  by (cases p; cases key) (auto simp: overage_rate_def getPlan_def PLANS_def)

lemma over_lines: "l \<in> set (over (getPlan p) rows sv m key per unit) \<Longrightarrow> line_ok l"
proof -
  assume l: "l \<in> set (over (getPlan p) rows sv m key per unit)"
  then obtain c k where "overage_rate (getPlan p) key = Some c" "limitKeyFor sv m = Some k"
    by (cases "overage_rate (getPlan p) key"; cases "limitKeyFor sv m") (auto simp: over_def)
  with l overage_rate_positive [of p key c] show ?thesis
    by (auto simp: over_def line_ok_def Let_def not_le split: if_splits)
qed

lemma base_lines: "l \<in> set (base_line plan target) \<Longrightarrow> line_ok l"
  by (auto simp: base_line_def line_ok_def Let_def split: if_splits)

lemma invoice_lines_ok: "list_all line_ok (invoice_lines (getPlan p) target rows)"
  unfolding list_all_iff invoice_lines_def set_append by (blast intro: over_lines base_lines)

lemma previewInvoice_lines:
  "previewInvoice now org period s = (Inr pv, s1) \<Longrightarrow>
   list_all line_ok (ip_lines pv) \<and> ip_amountCents pv = sum_list (map il_amountCents (ip_lines pv))"
  by (auto simp: previewInvoice_def case_prod_beta' Let_def and_then_Inr invoice_lines_ok)

lemma generateInvoice_steps: "billing_steps s (snd (generateInvoice now org period s))"
proof -
  obtain r s1 where g: "previewInvoice now org period s = (r, s1)" by fastforce
  have st: "billing_steps s s1" using previewInvoice_steps [of s now org period] g by simp
  show ?thesis
  proof (cases "and_then r (\<lambda>pv. and_then (periodBounds (ip_period pv)) (\<lambda>b. Inr (pv, b)))")
    case (Inl e)
    then show ?thesis using st by (simp add: generateInvoice_def g)
  next
    case (Inr b)
    then obtain pv where r: "r = Inr pv" by (auto simp: and_then_Inr)
    from previewInvoice_lines [OF g [unfolded r]]
    have "billing_steps s (snd (bs_createInvoice now i s1))"
      if "ii_lines i = ip_lines pv" "ii_amountCents i = ip_amountCents pv" for i
      using that by (intro steps_trans [OF st] step_steps billing_step.invoice) simp_all
    then show ?thesis using Inr r by (auto simp: generateInvoice_def g case_prod_beta' Let_def and_then_Inr)
  qed
qed

section \<open>Budgets, credits, events, maintenance\<close>

lemma estimateSpend_steps: "billing_steps s (snd (estimateSpendCents now org s))"
  using previewInvoice_steps [of s now org None] by (simp add: estimateSpendCents_def case_prod_beta' Let_def)

lemma evaluateBudgets_steps: "billing_steps s (snd (evaluateBudgets now org s))"
  using estimateSpend_steps [of s now org] by (simp add: evaluateBudgets_def case_prod_beta' Let_def)

lemma isSpendBlocked_steps: "billing_steps s (snd (isSpendBlocked now org s))"
  using evaluateBudgets_steps [of s now org] by (simp add: isSpendBlocked_def case_prod_beta' Let_def)

lemma deleteBudget_steps: "billing_steps s (snd (deleteBudget org i s))"
  using billing_step.unbudget [of s org i] by (auto simp: deleteBudget_def case_prod_beta' Let_def)

lemma settle_steps: "billing_steps s (settle org p s)"
proof (cases "settle org p s = s")
  case False
  then obtain i iv where i: "bs_getInvoice i s = Some iv"
    and c: "in_organizationId iv = org" "in_amountCents iv \<le> listPaymentsTotal org (in_id iv) s"
    and e: "settle org p s = snd (setInvoiceStatus (in_id iv) Paid s)"
    by (auto simp: settle_def split: option.splits if_splits)
  show ?thesis unfolding e using i c by (intro step_steps billing_step.paid) (auto simp: covered_def)
qed simp

lemma applyPayment_steps: "billing_steps s (snd (applyPayment now org ev s))"
proof (cases "json_field (pe_payload ev) ''amountCents''")
  case (JNum n)
  show ?thesis
  proof (cases "n \<le> 0")
    case False
    have "billing_steps s (settle org p (snd (createPayment now i s)))" if "pi_amountCents i = n" for p i
      using False that by (intro steps_trans [OF step_steps [OF billing_step.payment] settle_steps]) simp
    then show ?thesis using JNum False by (simp add: applyPayment_def case_prod_beta' Let_def)
  qed (simp add: applyPayment_def JNum)
qed (simp_all add: applyPayment_def)

lemma applySubscription_steps: "billing_steps s (snd (applySubscription now org ev s))"
  using steps_trans [OF getSubscription_steps step_steps [OF billing_step.upsert]]
  by (simp add: applySubscription_def case_prod_beta' Let_def)

lemma applyProviderEvent_steps: "billing_steps s (snd (applyProviderEvent now ev s))"
proof (cases "findWebhookEvent (pe_provider ev) (pe_eventId ev) s")
  case None
  let ?s1 = "snd (recordWebhookEvent now (pe_provider ev) (pe_eventId ev) (pe_type ev) (pe_organizationId ev)
    (sanitizeEventPayload (pe_payload ev)) s)"
  have e: "billing_steps s ?s1" by (rule step_steps, rule billing_step.event)
  show ?thesis
    using None e steps_trans [OF e applyPayment_steps] steps_trans [OF e applySubscription_steps]
    by (auto simp: applyProviderEvent_def case_prod_beta' Let_def split: option.split)
qed (simp add: applyProviderEvent_def)

lemma reconcile_loop_steps: "billing_steps s (snd (reconcile_loop now orgs s))"
proof (induction orgs arbitrary: s)
  case (Cons org orgs)
  have "billing_steps s (snd (reconcile_loop now orgs (snd (reconcile now sub s))))" for sub
    by (rule steps_trans [OF reconcile_steps Cons.IH])
  then show ?case using Cons.IH by (auto simp: case_prod_beta' Let_def split: option.split)
qed simp

lemma runMaintenance_steps: "billing_steps s (snd (billing_runMaintenance now orgs days s))"
  using steps_trans [OF reconcile_loop_steps step_steps [OF billing_step.prune]]
  by (simp add: billing_runMaintenance_def case_prod_beta' Let_def)

lemmas operation_steps =
  getSubscription_steps changePlan_steps cancelSubscription_steps effectiveLimits_steps billing_record_steps
  getCurrentUsage_steps historical_steps checkLimit_steps previewInvoice_steps generateInvoice_steps
  deleteBudget_steps evaluateBudgets_steps isSpendBlocked_steps applyProviderEvent_steps runMaintenance_steps

lemma op_steps: "billing_op s s' \<Longrightarrow> billing_steps s s'"
proof (induction rule: billing_op.induct)
  case (12 s now org name cents action)
  then show ?case unfolding createBudget_def by (rule step_steps, rule billing_step.budget)
next
  case (16 s now org cents reason expires)
  then show ?case unfolding grantCredit_def by (rule step_steps, rule billing_step.credit)
qed (simp_all add: operation_steps billing_increment_def getHistoricalUsage_def)

lemma ops_steps: "billing_op\<^sup>*\<^sup>* s s' \<Longrightarrow> billing_steps s s'"
  by (induction rule: rtranclp_induct) (auto intro: steps_trans op_steps)

text \<open>An invariant of the steps that holds of the empty store holds of every reachable state.\<close>

lemma reachable_induct [consumes 1, case_names empty step]:
  assumes "billing_reachable s" and "P initial_billing" and "\<And>a b. billing_step a b \<Longrightarrow> P a \<Longrightarrow> P b"
  shows "P s"
proof -
  have "billing_steps initial_billing s" using assms(1) by (simp add: billing_reachable_def ops_steps)
  then show ?thesis by (induction rule: rtranclp_induct) (use assms in blast)+
qed

end
