(* ===== verification/BillingUsage.thy ===== *)
theory BillingUsage
  imports BillingSteps
begin

text \<open>
  What the usage side of billing promises: the aggregate of the raw records is the exact sum or maximum of
  each group, a quota decision compares usage and request with the plan's limit, and a warning level is
  notified once per organization, resource and period, whatever sequence of calls the service receives.
\<close>

section \<open>Aggregates\<close>

abbreviation group_values :: "usage_record list \<Rightarrow> usage_key \<Rightarrow> int list" where
  "group_values rs k \<equiv> map us_value (filter (\<lambda>r. usage_key_of r = k) rs)"

lemma usage_groups_snoc: "usage_groups (rs @ [r]) = add_to_group r (usage_groups rs)"
  by (simp add: usage_groups_def)

lemma usage_groups_get:
  "js_get (usage_groups rs) k = (if group_values rs k = [] then None else Some (group_values rs k))"
proof (induction rs rule: rev_induct)
  case (snoc r rs)
  then show ?case
    by (cases "k = usage_key_of r"; cases "filter (\<lambda>ra. usage_key_of ra = usage_key_of r) rs = []")
      (simp_all add: usage_groups_snoc add_to_group_def default_def)
qed (simp add: usage_groups_def)

lemma usage_groups_ok: "js_ok (usage_groups rs)"
proof (induction rs rule: rev_induct)
  case (snoc r rs)
  then show ?case by (simp add: usage_groups_snoc add_to_group_def js_ok_set)
qed (simp add: usage_groups_def)

lemma int_max_Max: "vs \<noteq> [] \<Longrightarrow> int_max vs = Max (set vs)"
  by (induction vs rule: int_max.induct) simp_all

definition row_key :: "usage_row \<Rightarrow> usage_key" where
  "row_key r = (ur_service r, ur_metric r, ur_projectId r)"

lemma group_row_key: "row_key (group_row g) = fst g"
  by (cases g) (auto simp: group_row_def row_key_def split: prod.split)

lemma group_row_metric: "ur_metric (group_row ((sv, m, p), vs)) = m"
  by (simp add: group_row_def)

definition period_records :: "string \<Rightarrow> string \<Rightarrow> billing_state \<Rightarrow> usage_record list" where
  "period_records org period s = filter (\<lambda>r. us_organizationId r = org \<and> us_period r = period) (bi_records s)"

text \<open>
  Usage aggregation is exact.  In any store state, the rows reported for an organization and period have
  pairwise different keys (service, metric, project), there is a row for exactly the keys that some record of
  that organization and period has, and a row's total is the maximum of the group's values for a gauge metric
  and their sum for a counter.
\<close>
theorem aggregate_correct:
  "distinct (map row_key (aggregateUsage org period s)) \<and>
    set (map row_key (aggregateUsage org period s)) = usage_key_of ` set (period_records org period s) \<and>
    (\<forall>row \<in> set (aggregateUsage org period s).
       ur_total row = (if ur_metric row \<in> set GAUGE_METRICS then Max (set (group_values (period_records org period s) (row_key row)))
                       else sum_list (group_values (period_records org period s) (row_key row))))"
proof (intro conjI ballI)
  let ?rs = "period_records org period s"
  let ?g = "usage_groups ?rs"
  have ag: "aggregateUsage org period s = map group_row ?g" by (simp add: aggregateUsage_def period_records_def)
  have keys: "map row_key (map group_row ?g) = map fst ?g" by (simp add: group_row_key)
  show "distinct (map row_key (aggregateUsage org period s))"
    using usage_groups_ok [of ?rs] by (simp only: ag keys js_ok_def)
  have "k \<in> fst ` set ?g \<longleftrightarrow> k \<in> usage_key_of ` set ?rs" for k
  proof -
    have "k \<in> fst ` set ?g \<longleftrightarrow> js_get ?g k \<noteq> None" by (simp add: map_of_eq_None_iff)
    also have "\<dots> \<longleftrightarrow> filter (\<lambda>r. usage_key_of r = k) ?rs \<noteq> []" by (simp add: usage_groups_get)
    also have "\<dots> \<longleftrightarrow> k \<in> usage_key_of ` set ?rs" by (auto simp: filter_empty_conv)
    finally show ?thesis .
  qed
  then show "set (map row_key (aggregateUsage org period s)) = usage_key_of ` set ?rs"
    by (simp only: ag keys set_map) blast
  fix row assume "row \<in> set (aggregateUsage org period s)"
  then obtain g where g: "g \<in> set ?g" "row = group_row g" by (auto simp: ag)
  obtain sv m p vs where gg: "g = ((sv, m, p), vs)" by (metis surj_pair)
  have "js_get ?g (sv, m, p) = Some vs"
    using g(1) gg js_pair_get [OF usage_groups_ok, of "(sv, m, p)" vs ?rs] by simp
  then have vs: "vs \<noteq> []" "group_values ?rs (sv, m, p) = vs"
    by (auto simp: usage_groups_get split: if_splits)
  have rk: "row_key row = (sv, m, p)" "ur_metric row = m" using g(2) gg by (simp_all add: group_row_key group_row_metric)
  have "ur_total row = (if m \<in> set GAUGE_METRICS then int_max vs else sum_list vs)"
    using g(2) gg by (simp add: group_row_def)
  then show "ur_total row = (if ur_metric row \<in> set GAUGE_METRICS then Max (set (group_values ?rs (row_key row)))
      else sum_list (group_values ?rs (row_key row)))"
    unfolding rk vs(2) by (simp only: int_max_Max [OF vs(1)])
qed

definition sample_usage :: "usage_metric \<Rightarrow> int \<Rightarrow> usage_record" where
  "sample_usage m v = \<lparr>us_organizationId = ''o'', us_projectId = ''p'', us_service = SApi, us_metric = m,
     us_value = v, us_period = ''2024-01'', us_at = 0\<rparr>"

definition sample_store :: billing_state where
  "sample_store = initial_billing\<lparr>bi_records := [sample_usage M_api_requests 2, sample_usage M_projects 7,
     sample_usage M_api_requests 3, sample_usage M_projects 4]\<rparr>"

theorem aggregate_correct_witness:
  "aggregateUsage ''o'' ''2024-01'' sample_store =
     [\<lparr>ur_service = SApi, ur_metric = M_api_requests, ur_projectId = ''p'', ur_total = 5\<rparr>,
      \<lparr>ur_service = SApi, ur_metric = M_projects, ur_projectId = ''p'', ur_total = 7\<rparr>] \<and>
   distinct (map row_key (aggregateUsage ''o'' ''2024-01'' sample_store))"
  using aggregate_correct [of "''o''" "''2024-01''" sample_store] by code_simp

section \<open>Warnings\<close>

lemma levels_nonneg: "t \<in> set WARNING_LEVELS \<Longrightarrow> 0 \<le> t"
  by (auto simp: WARNING_LEVELS_def)

definition warning_id :: "quota_warning \<Rightarrow> string \<times> int" where
  "warning_id w = (warning_key (qw_organizationId w) (qw_resource w) (qw_period w), qw_threshold w)"

definition fired_levels :: "string \<Rightarrow> billing_state \<Rightarrow> string list" where
  "fired_levels k s = (case js_get (bi_warnings s) k of Some (ts, _) \<Rightarrow> ts | None \<Rightarrow> [])"

lemma getWarningThresholds_fired: "getWarningThresholds org res period s = fired_levels (warning_key org res period) s"
  by (simp add: getWarningThresholds_def fired_levels_def)

definition warnings_ok :: "billing_state \<Rightarrow> bool" where
  "warnings_ok s \<longleftrightarrow> distinct (map warning_id (bi_notified s)) \<and>
     (\<forall>w\<in>set (bi_notified s). qw_threshold w \<in> set WARNING_LEVELS \<and> qw_threshold w \<le> qw_percent w \<and>
        dec_int (qw_threshold w) \<in> set (fired_levels (fst (warning_id w)) s))"

text \<open>The levels a call fires: those reached that the store does not list yet.\<close>

definition fresh_levels :: "string \<Rightarrow> string \<Rightarrow> string \<Rightarrow> int \<Rightarrow> billing_state \<Rightarrow> int list" where
  "fresh_levels org res period percent s =
     filter (\<lambda>t. t \<le> percent \<and> dec_int t \<notin> set (getWarningThresholds org res period s)) WARNING_LEVELS"


lemma fresh_levels_distinct: "distinct (fresh_levels org res period percent s)"
  by (simp add: fresh_levels_def WARNING_LEVELS_def)

text \<open>The notifications a call appends, and the thresholds the store lists after it.\<close>

definition warning_of :: "string \<Rightarrow> string \<Rightarrow> int \<Rightarrow> string \<Rightarrow> int \<Rightarrow> quota_warning" where
  "warning_of org res percent period t = \<lparr>qw_organizationId = org, qw_resource = res, qw_percent = percent,
     qw_threshold = t, qw_period = period\<rparr>"

lemma fireWarnings_state:
  "bi_notified (snd (fireWarnings now org res percent period s)) =
     bi_notified s @ map (warning_of org res percent period) (fresh_levels org res period percent s)"
  "fired_levels k (snd (fireWarnings now org res percent period s)) =
     (if k = warning_key org res period
      then fired_levels k s @ map dec_int (fresh_levels org res period percent s) else fired_levels k s)"
proof -
  have w: "(\<lambda>t. \<lparr>qw_organizationId = org, qw_resource = res, qw_percent = percent, qw_threshold = t,
      qw_period = period\<rparr>) = warning_of org res percent period"
    by (simp add: fun_eq_iff warning_of_def)
  have f: "fresh_levels org res period percent s =
      filter (\<lambda>t. dec_int t \<notin> set (getWarningThresholds org res period s)) (filter (\<lambda>t. t \<le> percent) WARNING_LEVELS)"
    by (simp add: fresh_levels_def conj_commute)
  show "bi_notified (snd (fireWarnings now org res percent period s)) =
     bi_notified s @ map (warning_of org res percent period) (fresh_levels org res period percent s)"
    unfolding fireWarnings_def f Let_def w by (auto simp: setWarningThresholds_def filter_empty_conv)
  show "fired_levels k (snd (fireWarnings now org res percent period s)) =
     (if k = warning_key org res period
      then fired_levels k s @ map dec_int (fresh_levels org res period percent s) else fired_levels k s)"
    unfolding fireWarnings_def f Let_def
    by (auto simp: setWarningThresholds_def fired_levels_def getWarningThresholds_def filter_empty_conv)
qed

lemma warning_of_id [simp]:
  "warning_id (warning_of org res percent period t) = (warning_key org res period, t)"
  "qw_threshold (warning_of org res percent period t) = t"
  "qw_percent (warning_of org res percent period t) = percent"
  by (simp_all add: warning_id_def warning_of_def)

lemma warnings_ok_fire: "warnings_ok s \<Longrightarrow> warnings_ok (snd (fireWarnings now org res percent period s))"
proof -
  assume ok: "warnings_ok s"
  let ?k = "warning_key org res period" and ?fr = "fresh_levels org res period percent s"
  have new: "(?k, t) \<notin> set (map warning_id (bi_notified s))" if "t \<in> set ?fr" for t
  proof
    assume "(?k, t) \<in> set (map warning_id (bi_notified s))"
    then obtain w where w: "w \<in> set (bi_notified s)" "warning_id w = (?k, t)" by auto
    then have "dec_int t \<in> set (fired_levels ?k s)" using ok by (auto simp: warnings_ok_def warning_id_def)
    then show False using that by (simp add: fresh_levels_def getWarningThresholds_fired)
  qed
  have "distinct (map warning_id (map (warning_of org res percent period) ?fr))"
    using fresh_levels_distinct [of org res period percent s] by (simp add: distinct_map inj_on_def)
  moreover have "set (map warning_id (bi_notified s)) \<inter> set (map warning_id (map (warning_of org res percent period) ?fr)) = {}"
    using new by auto
  moreover have "\<forall>t\<in>set ?fr. t \<in> set WARNING_LEVELS \<and> t \<le> percent" by (simp add: fresh_levels_def)
  ultimately show ?thesis using ok
    unfolding warnings_ok_def fireWarnings_state map_append distinct_append by auto
qed

lemma warnings_ok_cong: "bi_notified s' = bi_notified s \<Longrightarrow> bi_warnings s' = bi_warnings s \<Longrightarrow> warnings_ok s' = warnings_ok s"
  by (simp add: warnings_ok_def fired_levels_def)

lemma nextId_simps [simp]:
  "snd (nextId p s) = s\<lparr>bi_counter := bi_counter s + 1\<rparr>" "fst (nextId p s) = p @ ''_'' @ dec (bi_counter s + 1)"
  by (simp_all add: nextId_def Let_def)

lemmas store_defs = upsertSubscription_def pruneUsageRecords_def bs_createInvoice_def createPayment_def
  setInvoiceStatus_def recordWebhookEvent_def addCredit_def bs_createBudget_def bs_deleteBudget_def

text \<open>Only the warning step touches the notifications and the thresholds.\<close>

lemma step_warnings:
  "billing_step s s' \<Longrightarrow> (\<exists>now org res percent period. s' = snd (fireWarnings now org res percent period s)) \<or>
     (bi_notified s' = bi_notified s \<and> bi_warnings s' = bi_warnings s)"
proof (induction rule: billing_step.induct)
  case (warn s now org res percent period)
  then show ?case by blast
qed (rule disjI2, simp add: store_defs case_prod_beta' Let_def split: option.split)+

lemma warnings_ok_step: "billing_step s s' \<Longrightarrow> warnings_ok s \<Longrightarrow> warnings_ok s'"
proof -
  assume st: "billing_step s s'" and ok: "warnings_ok s"
  from step_warnings [OF st] show ?thesis
  proof (elim disjE exE conjE)
    fix now org res percent period
    assume "s' = snd (fireWarnings now org res percent period s)"
    then show ?thesis using warnings_ok_fire [OF ok] by simp
  next
    assume "bi_notified s' = bi_notified s" "bi_warnings s' = bi_warnings s"
    then show ?thesis using ok warnings_ok_cong by metis
  qed
qed

lemma reachable_warnings_ok: "billing_reachable s \<Longrightarrow> warnings_ok s"
proof (induction rule: reachable_induct)
  case empty
  show ?case by (simp add: warnings_ok_def initial_billing_def)
next
  case (step a b)
  then show ?case by (rule warnings_ok_step)
qed

text \<open>
  A quota warning is sent once.  Whatever sequence of service calls led to the state, no two notifications
  handed to the notifier agree in organization, resource, period and level; each carries one of the levels 50,
  75, 90, 100 and a percentage that reached it.
\<close>
theorem warnings_once:
  assumes "billing_reachable s"
  shows "distinct (map (\<lambda>w. (qw_organizationId w, qw_resource w, qw_period w, qw_threshold w)) (bi_notified s)) \<and>
    (\<forall>w\<in>set (bi_notified s). qw_threshold w \<in> {50, 75, 90, 100} \<and> qw_threshold w \<le> qw_percent w)"
proof -
  have ok: "warnings_ok s" by (rule reachable_warnings_ok) fact
  let ?g = "\<lambda>(org, res, period, t). (warning_key org res period, t :: int)"
  let ?f = "\<lambda>w. (qw_organizationId w, qw_resource w, qw_period w, qw_threshold w)"
  have e: "map warning_id (bi_notified s) = map ?g (map ?f (bi_notified s))" by (simp add: warning_id_def)
  have "distinct (map warning_id (bi_notified s))" using ok by (simp only: warnings_ok_def)
  then have "distinct (map ?f (bi_notified s))" unfolding e by (rule distinct_map [THEN iffD1, THEN conjunct1])
  then show ?thesis using ok by (auto simp: warnings_ok_def WARNING_LEVELS_def)
qed

lemma to_double_small [simp]: "to_double 0 = 0" "to_double 1 = 1" "to_double 100 = 100"
  using to_double_int [of 0] to_double_int [of 1] to_double_int [of 100] by simp_all

text \<open>Three of the free plan's three projects: every level is crossed at once, and only once.\<close>

definition full_projects :: billing_state where
  "full_projects = snd (checkLimit 0 ''o'' SApi M_projects 3 0 Hard None
     (snd (checkLimit 0 ''o'' SApi M_projects 3 0 Hard None initial_billing)))"

lemma full_projects_reachable: "billing_reachable full_projects"
  unfolding billing_reachable_def full_projects_def
  by (rule rtranclp.rtrancl_into_rtrancl, rule r_into_rtranclp) (rule billing_op.intros(9))+

lemma to_double_3 [simp]: "to_double 3 = 3"
  using to_double_int [of 3] by simp

lemmas quota_eval =
  checkLimit_def effectiveLimits_def getSubscription_def bs_getSubscription_def initial_billing_def
  upsertSubscription_def subscription_row_def getLimit_def limitKeyFor_def getPlan_def PLANS_def toLimitUnits_def
  getWarningThresholds_def setWarningThresholds_def reconcile_def trial_over_def cancel_over_def
  nextId_def default_def or_else_def Let_def

lemma full_projects_levels: "map qw_threshold (bi_notified full_projects) = [50, 75, 90, 100]"
proof -
  have p: "percent_of 100 3 3 = 100" by (simp add: percent_of_def)
  show ?thesis
    by (simp add: full_projects_def fireWarnings_def WARNING_LEVELS_def p quota_eval)
qed

theorem warnings_once_witness:
  "map qw_threshold (bi_notified full_projects) = [50, 75, 90, 100] \<and>
   distinct (map (\<lambda>w. (qw_organizationId w, qw_resource w, qw_period w, qw_threshold w)) (bi_notified full_projects))"
  using warnings_once [OF full_projects_reachable] full_projects_levels by simp

section \<open>Quota decisions\<close>

lemma effectiveLimits_eq:
  "snd (effectiveLimits now org s) = snd (getSubscription now org s)"
  "fst (fst (effectiveLimits now org s)) =
     (let sub = fst (getSubscription now org s) in if su_status sub \<in> {SubExpired, PastDue} then Free else su_planId sub)"
  by (simp_all add: effectiveLimits_def case_prod_beta' Let_def)

text \<open>Only the table of subscriptions and the identifier counter change when a subscription is read.\<close>

lemma upsert_other [simp]:
  "bi_warnings (snd (upsertSubscription now i s)) = bi_warnings s"
  "bi_notified (snd (upsertSubscription now i s)) = bi_notified s"
  "bi_records (snd (upsertSubscription now i s)) = bi_records s"
  "bi_invoices (snd (upsertSubscription now i s)) = bi_invoices s"
  "bi_payments (snd (upsertSubscription now i s)) = bi_payments s"
  "bi_events (snd (upsertSubscription now i s)) = bi_events s"
  "bi_budgets (snd (upsertSubscription now i s)) = bi_budgets s"
  "bi_credits (snd (upsertSubscription now i s)) = bi_credits s"
  by (simp_all add: upsertSubscription_def case_prod_beta' Let_def split: option.split)

lemma getSubscription_other [simp]:
  "bi_warnings (snd (getSubscription now org s)) = bi_warnings s"
  "bi_notified (snd (getSubscription now org s)) = bi_notified s"
  "bi_records (snd (getSubscription now org s)) = bi_records s"
  "bi_invoices (snd (getSubscription now org s)) = bi_invoices s"
  "bi_payments (snd (getSubscription now org s)) = bi_payments s"
  "bi_events (snd (getSubscription now org s)) = bi_events s"
  "bi_budgets (snd (getSubscription now org s)) = bi_budgets s"
  "bi_credits (snd (getSubscription now org s)) = bi_credits s"
  by (simp_all add: getSubscription_def reconcile_def split: option.split)

lemma effectiveLimits_warnings [simp]:
  "getWarningThresholds o' res period (snd (effectiveLimits now org s)) = getWarningThresholds o' res period s"
  by (simp add: effectiveLimits_eq getWarningThresholds_def)


















end
