(* ===== verification/BillingLedger.thy ===== *)
theory BillingLedger
  imports BillingUsage
begin

text \<open>
  What the money side of billing promises: provider events are applied once and only to their own organization,
  an invoice is marked paid only when succeeded payments cover it, and a preview charges the plan's price and its
  metered overage and nothing else.
\<close>

section \<open>Ledger invariant\<close>

definition payments_ok :: "billing_state \<Rightarrow> bool" where
  "payments_ok s \<longleftrightarrow> js_ok (bi_payments s) \<and>
     (\<forall>p\<in>set (js_values (bi_payments s)). 0 < pa_amountCents p) \<and>
     (\<forall>n>bi_counter s. js_get (bi_payments s) (''pay_'' @ dec n) = None)"

text \<open>The total a settlement looks at, on the table itself.\<close>

definition paid_total :: "string \<Rightarrow> string \<Rightarrow> payment list \<Rightarrow> int" where
  "paid_total org i ps = sum_list (map pa_amountCents (filter (\<lambda>p. pa_organizationId p = org \<and>
     pa_invoiceId p = Some i \<and> pa_status p = PaySucceeded) ps))"

definition invoice_ok :: "invoice \<Rightarrow> bool" where
  "invoice_ok iv \<longleftrightarrow> in_amountCents iv = sum_list (map il_amountCents (in_lines iv)) \<and> list_all line_ok (in_lines iv)"

definition entry_ok :: "payment list \<Rightarrow> string \<Rightarrow> invoice \<Rightarrow> bool" where
  "entry_ok ps k iv \<longleftrightarrow> in_id iv = k \<and> invoice_ok iv \<and>
     (in_status iv = Paid \<longrightarrow> in_amountCents iv \<le> paid_total (in_organizationId iv) k ps)"

definition invoices_ok :: "billing_state \<Rightarrow> bool" where
  "invoices_ok s \<longleftrightarrow> js_ok (bi_invoices s) \<and>
     (\<forall>k iv. js_get (bi_invoices s) k = Some iv \<longrightarrow> entry_ok (js_values (bi_payments s)) k iv)"

lemma invoices_okD: "invoices_ok s \<Longrightarrow> js_get (bi_invoices s) k = Some iv \<Longrightarrow> entry_ok (js_values (bi_payments s)) k iv"
  by (simp add: invoices_ok_def)

lemma invoices_ok_js: "invoices_ok s \<Longrightarrow> js_ok (bi_invoices s)"
  by (simp add: invoices_ok_def)

lemma invoices_ok_put:
  assumes "invoices_ok s" and "bi_payments s' = bi_payments s" and "bi_invoices s' = js_set k iv (bi_invoices s)"
    and "entry_ok (js_values (bi_payments s)) k iv"
  shows "invoices_ok s'"
  unfolding invoices_ok_def
proof (intro conjI allI impI)
  show "js_ok (bi_invoices s')" using assms(1,3) by (simp add: invoices_ok_js js_ok_set)
  fix j w assume "js_get (bi_invoices s') j = Some w"
  then show "entry_ok (js_values (bi_payments s')) j w"
    using assms invoices_okD [OF assms(1), of j w] by (cases "j = k") simp_all
qed

definition subs_ok :: "billing_state \<Rightarrow> bool" where
  "subs_ok s \<longleftrightarrow> (\<forall>k sub. js_get (bi_subs s) k = Some sub \<longrightarrow> su_organizationId sub = k)"

definition ledger_ok :: "billing_state \<Rightarrow> bool" where
  "ledger_ok s \<longleftrightarrow> payments_ok s \<and> invoices_ok s \<and> subs_ok s"

lemma listPaymentsTotal_eq: "listPaymentsTotal org i s = paid_total org i (js_values (bi_payments s))"
proof -
  let ?f = "\<lambda>p. pa_invoiceId p = Some i \<and> pa_status p = PaySucceeded"
  let ?ps = "filter (\<lambda>p. pa_organizationId p = org) (js_values (bi_payments s))"
  have "mset (filter ?f (newest_first pa_createdAt ?ps)) = mset (filter ?f ?ps)" by (simp only: mset_filter mset_newest_first)
  then have "sum_list (map pa_amountCents (filter ?f (newest_first pa_createdAt ?ps))) =
      sum_list (map pa_amountCents (filter ?f ?ps))" by (rule sum_list_mset)
  then show ?thesis by (simp add: listPaymentsTotal_def bs_listPayments_def paid_total_def conj_commute)
qed

lemma invoice_ok_status [simp]: "invoice_ok (iv\<lparr>in_status := st\<rparr>) = invoice_ok iv"
  by (simp add: invoice_ok_def)

lemma paid_total_append: "paid_total org i (ps @ [p]) = paid_total org i ps + paid_total org i [p]"
  by (simp add: paid_total_def)

text \<open>Creating a payment returns a recorded one or appends one under a new key.\<close>

lemma createPayment_cases:
  assumes "payments_ok s"
  shows "snd (createPayment now i s) = s \<or>
    (\<exists>p. pa_organizationId p = pi_organizationId i \<and> pa_amountCents p = pi_amountCents i \<and>
       js_get (bi_payments s) (''pay_'' @ dec (bi_counter s + 1)) = None \<and>
       snd (createPayment now i s) = s\<lparr>bi_counter := bi_counter s + 1,
         bi_payments := bi_payments s @ [(''pay_'' @ dec (bi_counter s + 1), p)]\<rparr>)"
proof (cases "snd (createPayment now i s) = s")
  case False
  let ?k = "''pay_'' @ dec (bi_counter s + 1)"
  have fresh: "js_get (bi_payments s) ?k = None" using assms by (simp add: payments_ok_def)
  then have new: "js_set ?k p (bi_payments s) = bi_payments s @ [(?k, p)]" for p
    by (intro js_set_new) (simp add: map_of_eq_None_iff)
  let ?p = "\<lparr>pa_id = ?k, pa_organizationId = pi_organizationId i, pa_invoiceId = pi_invoiceId i,
    pa_amountCents = pi_amountCents i, pa_currency = default (pi_currency i) ''USD'', pa_status = pi_status i,
    pa_provider = pi_provider i, pa_providerPaymentId = pi_providerPaymentId i, pa_createdAt = now\<rparr>"
  have "snd (createPayment now i s) = s\<lparr>bi_counter := bi_counter s + 1, bi_payments := bi_payments s @ [(?k, ?p)]\<rparr>"
    using False new by (auto simp: createPayment_def case_prod_beta' Let_def split: option.splits if_splits)
  then show ?thesis using fresh by (intro disjI2 exI [of _ ?p]) simp
qed simp

lemma pay_key_inj: "''pay_'' @ dec m = ''pay_'' @ dec n \<longleftrightarrow> m = n"
  by (auto dest: dec_inj)

lemma payments_ok_append:
  assumes "payments_ok s" and "0 < pa_amountCents p"
  shows "payments_ok (s\<lparr>bi_counter := bi_counter s + 1,
    bi_payments := bi_payments s @ [(''pay_'' @ dec (bi_counter s + 1), p)]\<rparr>)"
proof -
  let ?k = "''pay_'' @ dec (bi_counter s + 1)"
  have fresh: "?k \<notin> fst ` set (bi_payments s)" using assms(1) by (simp add: payments_ok_def flip: map_of_eq_None_iff)
  have "js_get (bi_payments s @ [(?k, p)]) (''pay_'' @ dec n) = None" if "bi_counter s + 1 < n" for n
    using assms(1) that by (auto simp: payments_ok_def map_add_def dest: dec_inj)
  then show ?thesis using assms fresh by (auto simp: payments_ok_def js_ok_def)
qed

lemma counter_grows:
  assumes "bi_payments s' = bi_payments s" and "bi_counter s \<le> bi_counter s'" and "payments_ok s"
  shows "payments_ok s'"
  using assms by (auto simp: payments_ok_def)

text \<open>A step that leaves the tables alone keeps the invariant; then one lemma per step that changes one.\<close>

lemma ledger_frame:
  assumes "ledger_ok s" and "bi_payments s' = bi_payments s" and "bi_invoices s' = bi_invoices s"
    and "bi_subs s' = bi_subs s" and "bi_counter s \<le> bi_counter s'"
  shows "ledger_ok s'"
  using assms by (auto simp: ledger_ok_def invoices_ok_def subs_ok_def covered_def listPaymentsTotal_eq
    intro: counter_grows [of s' s])

lemma upsert_subs:
  "bi_subs (snd (upsertSubscription now i s)) =
     js_set (si_organizationId i) (fst (upsertSubscription now i s)) (bi_subs s)"
  "bi_counter s \<le> bi_counter (snd (upsertSubscription now i s))"
  "fst (upsertSubscription now i s) = subscription_row now i (js_get (bi_subs s) (si_organizationId i))
     (case js_get (bi_subs s) (si_organizationId i) of Some p \<Rightarrow> su_id p | None \<Rightarrow> fst (nextId ''sub'' s))"
  by (simp_all add: upsertSubscription_def case_prod_beta' Let_def split: option.split)

lemma upsert_org [simp]: "su_organizationId (fst (upsertSubscription now i s)) = si_organizationId i"
  by (simp add: upsert_subs(3) subscription_row_def)

lemma ledger_upsert: "ledger_ok s \<Longrightarrow> ledger_ok (snd (upsertSubscription now i s))"
proof -
  assume ok: "ledger_ok s"
  let ?s' = "snd (upsertSubscription now i s)"
  have "subs_ok ?s'" using ok by (auto simp: upsert_subs(1) subs_ok_def ledger_ok_def)
  moreover have "payments_ok ?s'"
    using ok upsert_subs(2) [of s now i] by (intro counter_grows [of ?s' s]) (simp_all add: ledger_ok_def)
  ultimately show ?thesis using ok by (auto simp: ledger_ok_def invoices_ok_def covered_def listPaymentsTotal_eq)
qed

lemma ledger_payment:
  assumes "ledger_ok s" and "0 < pi_amountCents i"
  shows "ledger_ok (snd (createPayment now i s))"
proof -
  have p: "payments_ok s" using assms(1) by (simp add: ledger_ok_def)
  from createPayment_cases [OF p, of now i] show ?thesis
  proof (elim disjE exE conjE)
    fix q let ?k = "''pay_'' @ dec (bi_counter s + 1)"
    let ?s' = "s\<lparr>bi_counter := bi_counter s + 1, bi_payments := bi_payments s @ [(?k, q)]\<rparr>"
    assume q: "pa_amountCents q = pi_amountCents i" and s': "snd (createPayment now i s) = ?s'"
    have "payments_ok ?s'" by (rule payments_ok_append [OF p]) (simp add: q assms(2))
    moreover have more: "paid_total o' k (js_values (bi_payments s)) \<le> paid_total o' k (js_values (bi_payments ?s'))" for o' k
      using q assms(2) by (simp add: paid_total_def)
    moreover have "invoices_ok ?s'"
    proof -
      have i: "invoices_ok s" using assms(1) by (simp add: ledger_ok_def)
      have "entry_ok (js_values (bi_payments ?s')) k iv" if g: "js_get (bi_invoices s) k = Some iv" for k iv
        using invoices_okD [OF i g] order_trans [OF _ more [of "in_organizationId iv" k]] unfolding entry_ok_def by blast
      then show ?thesis using i by (simp add: invoices_ok_def)
    qed
    ultimately show ?thesis using assms(1) by (simp add: s' ledger_ok_def subs_ok_def)
  qed (simp add: assms(1))
qed

lemma ledger_paid:
  assumes "ledger_ok s" and "bs_getInvoice k s = Some iv" and "covered iv s"
  shows "ledger_ok (snd (setInvoiceStatus (in_id iv) Paid s))"
proof -
  have g: "js_get (bi_invoices s) k = Some iv" using assms(2) by (simp add: bs_getInvoice_def)
  have i: "invoices_ok s" using assms(1) by (simp add: ledger_ok_def)
  have e: "in_id iv = k" "invoice_ok iv" using invoices_okD [OF i g] by (simp_all add: entry_ok_def)
  then have s': "snd (setInvoiceStatus (in_id iv) Paid s) = s\<lparr>bi_invoices := js_set k (iv\<lparr>in_status := Paid\<rparr>) (bi_invoices s)\<rparr>"
    using g by (simp add: setInvoiceStatus_def Let_def)
  have "entry_ok (js_values (bi_payments s)) k (iv\<lparr>in_status := Paid\<rparr>)"
    using e assms(3) by (simp add: entry_ok_def covered_def listPaymentsTotal_eq)
  then have "invoices_ok (s\<lparr>bi_invoices := js_set k (iv\<lparr>in_status := Paid\<rparr>) (bi_invoices s)\<rparr>)"
    by (intro invoices_ok_put [OF i]) simp_all
  then show ?thesis using assms(1) by (simp add: s' ledger_ok_def payments_ok_def subs_ok_def)
qed

lemma ledger_invoice:
  assumes "ledger_ok s" and "ii_amountCents i = sum_list (map il_amountCents (ii_lines i))" and "list_all line_ok (ii_lines i)"
  shows "ledger_ok (snd (bs_createInvoice now i s))"
proof -
  let ?s' = "snd (bs_createInvoice now i s)"
  let ?k = "''in_'' @ dec (bi_counter s + 1)"
  have fields: "bi_payments ?s' = bi_payments s" "bi_subs ?s' = bi_subs s" "bi_counter s \<le> bi_counter ?s'"
    by (simp_all add: bs_createInvoice_def case_prod_beta' Let_def)
  obtain iv where iv: "bi_invoices ?s' = js_set ?k iv (bi_invoices s)" "in_id iv = ?k" "in_status iv = Open"
    "in_amountCents iv = ii_amountCents i" "in_lines iv = ii_lines i"
    by (simp add: bs_createInvoice_def case_prod_beta' Let_def)
  have "invoices_ok ?s'"
    by (rule invoices_ok_put [OF _ fields(1) iv(1)])
      (use assms iv in \<open>simp_all add: ledger_ok_def entry_ok_def invoice_ok_def\<close>)
  moreover have "payments_ok ?s'" by (rule counter_grows [of ?s' s]) (use assms fields in \<open>simp_all add: ledger_ok_def\<close>)
  ultimately show ?thesis using assms(1) fields(2) by (simp add: ledger_ok_def subs_ok_def)
qed

lemma ledger_step: "billing_step s s' \<Longrightarrow> ledger_ok s \<Longrightarrow> ledger_ok s'"
proof (induction rule: billing_step.induct)
  case (upsert s now i)
  then show ?case by (rule ledger_upsert)
next
  case (invoice i s now)
  then show ?case by (intro ledger_invoice)
next
  case (payment i s now)
  then show ?case by (intro ledger_payment)
next
  case (paid k s iv)
  then show ?case by (intro ledger_paid)
qed (erule ledger_frame; simp add: fireWarnings_def setWarningThresholds_def pruneUsageRecords_def recordWebhookEvent_def
    addCredit_def bs_createBudget_def bs_deleteBudget_def case_prod_beta' Let_def split: option.split)+

lemma reachable_ledger_ok: "billing_reachable s \<Longrightarrow> ledger_ok s"
proof (induction rule: reachable_induct)
  case empty
  show ?case by (simp add: ledger_ok_def payments_ok_def invoices_ok_def subs_ok_def initial_billing_def)
next
  case (step a b)
  then show ?case by (rule ledger_step)
qed

text \<open>
  C4. An invoice is marked paid only by money received.  Whatever sequence of service calls led to the state,
  an invoice listed as paid for an organization is covered by that organization's succeeded payments that name
  it, and its amount is the sum of lines that each charge a positive quantity at a positive price.
\<close>

theorem paid_is_covered:
  assumes "billing_reachable s" and "iv \<in> set (bs_listInvoices org s)"
  shows "(in_status iv = Paid \<longrightarrow> in_amountCents iv \<le> listPaymentsTotal org (in_id iv) s) \<and>
    in_amountCents iv = sum_list (map il_amountCents (in_lines iv)) \<and> list_all line_ok (in_lines iv)"
proof -
  have ok: "invoices_ok s" using reachable_ledger_ok [OF assms(1)] by (simp add: ledger_ok_def)
  from assms(2) have org: "in_organizationId iv = org" and iv: "iv \<in> set (js_values (bi_invoices s))"
    by (auto simp: bs_listInvoices_def)
  from js_values_get [OF invoices_ok_js [OF ok] iv] obtain k where "js_get (bi_invoices s) k = Some iv" ..
  from invoices_okD [OF ok this] show ?thesis using org by (auto simp: entry_ok_def invoice_ok_def listPaymentsTotal_eq)
qed

section \<open>Provider events\<close>

text \<open>An event once recorded stays recorded.\<close>

lemma events_step: "billing_step s s' \<Longrightarrow> js_get (bi_events s) k \<noteq> None \<Longrightarrow> js_get (bi_events s') k \<noteq> None"
proof (induction rule: billing_step.induct)
  case (event s now p e ty org payload)
  then show ?case by (simp add: recordWebhookEvent_def case_prod_beta' Let_def split: option.split)
qed (simp_all add: fireWarnings_def setWarningThresholds_def pruneUsageRecords_def bs_createInvoice_def
    createPayment_def setInvoiceStatus_def addCredit_def bs_createBudget_def bs_deleteBudget_def
    case_prod_beta' Let_def split: option.split)

lemma events_steps: "billing_steps s s' \<Longrightarrow> js_get (bi_events s) k \<noteq> None \<Longrightarrow> js_get (bi_events s') k \<noteq> None"
  by (induction rule: rtranclp_induct) (auto dest: events_step)

lemma record_then_find:
  "findWebhookEvent p e (snd (recordWebhookEvent now p e ty org payload s)) \<noteq> None"
  by (auto simp: recordWebhookEvent_def findWebhookEvent_def case_prod_beta' Let_def split: option.split)

text \<open>A first event is recorded, then at most one of the two handlers runs for its organization.\<close>

definition recorded :: "instant \<Rightarrow> provider_event \<Rightarrow> billing_state \<Rightarrow> billing_state" where
  "recorded now ev s = snd (recordWebhookEvent now (pe_provider ev) (pe_eventId ev) (pe_type ev)
     (pe_organizationId ev) (sanitizeEventPayload (pe_payload ev)) s)"

lemma apply_cases:
  assumes "findWebhookEvent (pe_provider ev) (pe_eventId ev) s = None"
  shows "snd (applyProviderEvent now ev s) = recorded now ev s \<or>
    (\<exists>org. pe_organizationId ev = Some org \<and>
      (snd (applyProviderEvent now ev s) = snd (applyPayment now org ev (recorded now ev s)) \<or>
       snd (applyProviderEvent now ev s) = snd (applySubscription now org ev (recorded now ev s))))"
  using assms
  by (cases "pe_organizationId ev") (simp_all add: applyProviderEvent_def recorded_def case_prod_beta' Let_def)

lemma applied_event_recorded:
  "findWebhookEvent (pe_provider ev) (pe_eventId ev) (snd (applyProviderEvent now ev s)) \<noteq> None"
proof (cases "findWebhookEvent (pe_provider ev) (pe_eventId ev) s")
  case None
  have r: "js_get (bi_events (recorded now ev s)) (event_key (pe_provider ev) (pe_eventId ev)) \<noteq> None"
    using record_then_find by (simp add: findWebhookEvent_def recorded_def)
  from apply_cases [OF None, of now] show ?thesis
  proof (elim disjE exE conjE)
    fix org assume "snd (applyProviderEvent now ev s) = snd (applyPayment now org ev (recorded now ev s))"
    then show ?thesis using events_steps [OF applyPayment_steps r] by (simp add: findWebhookEvent_def)
  next
    fix org assume "snd (applyProviderEvent now ev s) = snd (applySubscription now org ev (recorded now ev s))"
    then show ?thesis using events_steps [OF applySubscription_steps r] by (simp add: findWebhookEvent_def)
  qed (use r in \<open>simp add: findWebhookEvent_def\<close>)
qed (simp add: applyProviderEvent_def)

text \<open>
  C6. A provider event is applied at most once.  After an event has been received, whatever service calls
  follow, any event with the same provider and identifier, whatever its type, organization and payload, is
  answered as a duplicate and changes nothing.
\<close>

theorem event_applied_once:
  assumes "billing_op\<^sup>*\<^sup>* (snd (applyProviderEvent now ev s)) s'"
    and "pe_provider ev' = pe_provider ev" and "pe_eventId ev' = pe_eventId ev"
  shows "applyProviderEvent now' ev' s' = ((False, ''duplicate event ignored''), s')"
proof -
  have "findWebhookEvent (pe_provider ev') (pe_eventId ev') s' \<noteq> None"
    using events_steps [OF ops_steps [OF assms(1)]] applied_event_recorded [of ev now s]
    by (simp add: findWebhookEvent_def assms(2,3))
  then show ?thesis by (auto simp: applyProviderEvent_def)
qed

text \<open>Updating a value that fails a test before and after does not change the values that pass it.\<close>

lemma filter_set_values:
  assumes "js_ok m" and "js_get m k = Some w" and "\<not> P w" and "\<not> P v"
  shows "filter P (js_values (js_set k v m)) = filter P (js_values m)"
  using assms
proof (induction m)
  case (Cons a m)
  then show ?case by (cases a) (auto simp: js_ok_def)
qed simp

definition same_organization :: "string \<Rightarrow> billing_state \<Rightarrow> billing_state \<Rightarrow> bool" where
  "same_organization org s s' \<longleftrightarrow>
     bs_getSubscription org s' = bs_getSubscription org s \<and> bs_listInvoices org s' = bs_listInvoices org s \<and>
     bs_listPayments org s' = bs_listPayments org s \<and> bi_records s' = bi_records s \<and>
     bi_credits s' = bi_credits s \<and> bi_budgets s' = bi_budgets s \<and> bi_warnings s' = bi_warnings s"

lemma same_organization_trans:
  "same_organization org a b \<Longrightarrow> same_organization org b c \<Longrightarrow> same_organization org a c"
  by (simp add: same_organization_def)

lemma same_organization_refl [simp]: "same_organization org s s"
  by (simp add: same_organization_def)

lemma same_record: "same_organization o' s (snd (recordWebhookEvent now p e ty org payload s))"
  by (simp add: same_organization_def recordWebhookEvent_def bs_getSubscription_def bs_listInvoices_def
    bs_listPayments_def case_prod_beta' Let_def split: option.split)

lemma same_upsert: "si_organizationId i \<noteq> o' \<Longrightarrow> same_organization o' s (snd (upsertSubscription now i s))"
  by (simp add: same_organization_def bs_getSubscription_def bs_listInvoices_def bs_listPayments_def upsert_subs(1))

lemma same_payment:
  assumes "payments_ok s" and "pi_organizationId i \<noteq> o'"
  shows "same_organization o' s (snd (createPayment now i s))"
  using createPayment_cases [OF assms(1), of now i] assms(2)
  by (auto simp: same_organization_def bs_getSubscription_def bs_listInvoices_def bs_listPayments_def)

lemma same_settle:
  assumes "invoices_ok s" and "org \<noteq> o'"
  shows "same_organization o' s (settle org p s)"
proof (cases "settle org p s = s")
  case False
  then obtain i iv where i: "js_get (bi_invoices s) i = Some iv" and org: "in_organizationId iv = org"
    and e: "settle org p s = snd (setInvoiceStatus (in_id iv) Paid s)"
    by (auto simp: settle_def bs_getInvoice_def split: option.splits if_splits)
  have "in_id iv = i" "js_ok (bi_invoices s)"
    using invoices_okD [OF assms(1) i] invoices_ok_js [OF assms(1)] by (simp_all add: entry_ok_def)
  then show ?thesis using i org assms(2) unfolding e
    by (simp add: same_organization_def setInvoiceStatus_def bs_getSubscription_def bs_listInvoices_def
      bs_listPayments_def filter_set_values Let_def)
qed simp

lemma same_applyPayment:
  assumes "ledger_ok s" and "org \<noteq> o'"
  shows "same_organization o' s (snd (applyPayment now org ev s))"
proof (cases "\<exists>n. json_field (pe_payload ev) ''amountCents'' = JNum n \<and> 0 < n")
  case True
  then obtain n where n: "json_field (pe_payload ev) ''amountCents'' = JNum n" "0 < n" by blast
  have "same_organization o' s (settle org p (snd (createPayment now i s)))"
    if i: "pi_organizationId i = org" "pi_amountCents i = n" for i p
  proof (rule same_organization_trans)
    show "same_organization o' s (snd (createPayment now i s))"
      using assms i by (intro same_payment) (simp_all add: ledger_ok_def)
    have "ledger_ok (snd (createPayment now i s))" by (rule ledger_payment [OF assms(1)]) (simp add: i n)
    then show "same_organization o' (snd (createPayment now i s)) (settle org p (snd (createPayment now i s)))"
      using assms(2) by (intro same_settle) (simp_all add: ledger_ok_def)
  qed
  then show ?thesis using n by (simp add: applyPayment_def case_prod_beta' Let_def)
qed (auto simp: applyPayment_def not_less split: json.split)

lemma same_getSubscription:
  assumes "subs_ok s" and "org \<noteq> o'"
  shows "same_organization o' s (snd (getSubscription now org s)) \<and> su_organizationId (fst (getSubscription now org s)) = org"
proof (cases "bs_getSubscription org s")
  case (Some sub)
  then have "su_organizationId sub = org" using assms(1) by (simp add: subs_ok_def bs_getSubscription_def)
  then show ?thesis using Some assms(2)
    by (simp add: getSubscription_def reconcile_def lapsed_def carried_def same_upsert)
qed (simp add: getSubscription_def same_upsert assms(2))

lemma same_applySubscription:
  assumes "subs_ok s" and "org \<noteq> o'"
  shows "same_organization o' s (snd (applySubscription now org ev s))"
proof -
  let ?g = "getSubscription now org s"
  note g = same_getSubscription [OF assms, of now]
  have "same_organization o' (snd ?g) (snd (upsertSubscription now i (snd ?g)))" if "si_organizationId i = org" for i
    using assms(2) that by (intro same_upsert) simp
  then show ?thesis using g
    by (auto simp: applySubscription_def carried_def case_prod_beta' Let_def intro: same_organization_trans)
qed

text \<open>
  C5. A provider event touches its own organization only.  From any reachable state, whatever its type and
  payload (even naming another organization's invoice or reusing a payment identifier), an event scoped to one
  organization leaves every other organization's subscription, invoices and payments as they were, and no
  usage, credit, budget or warning changes; an event without organization changes none of them for anyone.
\<close>

theorem event_stays_in_organization:
  assumes "billing_reachable s" and "pe_organizationId ev \<noteq> Some other"
  shows "same_organization other s (snd (applyProviderEvent now ev s))"
proof (cases "findWebhookEvent (pe_provider ev) (pe_eventId ev) s")
  case None
  have rec: "same_organization other s (recorded now ev s)" by (simp add: recorded_def same_record)
  have "billing_step s (recorded now ev s)" unfolding recorded_def by (rule billing_step.event)
  then have ok: "ledger_ok (recorded now ev s)" using ledger_step reachable_ledger_ok [OF assms(1)] by simp
  then have subs: "subs_ok (recorded now ev s)" by (simp add: ledger_ok_def)
  from apply_cases [OF None, of now] show ?thesis
  proof (elim disjE exE conjE)
    fix org assume "pe_organizationId ev = Some org"
      and "snd (applyProviderEvent now ev s) = snd (applyPayment now org ev (recorded now ev s))"
    then show ?thesis using assms(2) same_organization_trans [OF rec same_applyPayment [OF ok]] by simp
  next
    fix org assume "pe_organizationId ev = Some org"
      and "snd (applyProviderEvent now ev s) = snd (applySubscription now org ev (recorded now ev s))"
    then show ?thesis using assms(2) same_organization_trans [OF rec same_applySubscription [OF subs]] by simp
  qed (simp add: rec)
qed (simp add: applyProviderEvent_def)

section \<open>A concrete ledger\<close>

text \<open>An organization on the pro plan is invoiced 2000 cents for a month without usage, and pays.\<close>

definition pro_store :: billing_state where
  "pro_store = snd (changePlan 0 ''o'' Pro \<lparr>co_trialDays = None, co_provider = None,
     co_providerSubscriptionId = None, co_gaugeReader = None\<rparr> initial_billing)"

definition invoiced_store :: billing_state where
  "invoiced_store = snd (generateInvoice 0 ''o'' (Some ''2024-01'') pro_store)"

definition pay_event :: provider_event where
  "pay_event = \<lparr>pe_provider = ''manual'', pe_eventId = ''e1'', pe_type = ''payment.succeeded'',
     pe_organizationId = Some ''o'',
     pe_payload = [(''amountCents'', JNum 2000), (''invoiceId'', JStr ''in_2''), (''paymentId'', JStr ''p1'')]\<rparr>"

definition paid_store :: billing_state where
  "paid_store = snd (applyProviderEvent 0 pay_event invoiced_store)"

lemma invoiced_reachable: "billing_reachable invoiced_store"
  unfolding billing_reachable_def invoiced_store_def pro_store_def
  by (rule rtranclp.rtrancl_into_rtrancl, rule r_into_rtranclp, rule billing_op.intros(2), rule billing_op.intros(11))

lemma paid_reachable: "billing_reachable paid_store"
  using invoiced_reachable unfolding billing_reachable_def paid_store_def
  by (rule rtranclp.rtrancl_into_rtrancl) (rule billing_op.intros(17))

lemmas subscription_eval = getSubscription_def bs_getSubscription_def reconcile_def trial_over_def cancel_over_def
  upsertSubscription_def subscription_row_def nextId_def default_def or_else_def

lemma pro_subscription:
  "\<exists>sub. js_get (bi_subs pro_store) ''o'' = Some sub \<and> su_planId sub = Pro \<and> su_status sub = Active"
  "bi_records pro_store = []" "bi_invoices pro_store = []" "bi_payments pro_store = []" "bi_events pro_store = []"
  "bi_counter pro_store = 1"
  by (simp_all add: pro_store_def changePlan_def changed_def trial_end_def initial_billing_def subscription_eval case_prod_beta' Let_def
    getPlan_def PLANS_def)

lemma sample_period: "periodBounds ''2024-01'' = Inr (date_utc 2024 0, date_utc 2024 1)"
  by code_simp

lemma dec_2: "dec 2 = ''2''" and dec_3: "dec 3 = ''3''"
  by code_simp+

lemma pro_limits_eff: "fst (fst (effectiveLimits 0 ''o'' pro_store)) = Pro" "snd (effectiveLimits 0 ''o'' pro_store) = pro_store"
  using pro_subscription(1)
  by (auto simp: effectiveLimits_def getSubscription_def bs_getSubscription_def reconcile_def trial_over_def
    cancel_over_def case_prod_beta' Let_def)

definition pro_lines :: "invoice_line list" where
  "pro_lines = [\<lparr>il_label = ''Pro plan (2024-01)'', il_quantity = 1, il_unitCents = 2000, il_amountCents = 2000\<rparr>]"

lemma pro_preview:
  "previewInvoice 0 ''o'' (Some ''2024-01'') pro_store =
     (Inr \<lparr>ip_planId = Pro, ip_period = ''2024-01'', ip_lines = pro_lines, ip_amountCents = 2000\<rparr>, pro_store)"
proof -
  have "aggregateUsage ''o'' ''2024-01'' pro_store = []"
    by (simp add: aggregateUsage_def pro_subscription usage_groups_def)
  moreover have "invoice_lines (getPlan Pro) ''2024-01'' [] = pro_lines"
    by (simp add: invoice_lines_def base_line_def over_def metric_total_def overage_rate_def limitKeyFor_def
      getPlan_def PLANS_def default_def pro_lines_def Let_def)
  ultimately show ?thesis
    by (simp add: previewInvoice_def pro_limits_eff billing_aggregate_def sample_period default_def pro_lines_def
      case_prod_beta' Let_def)
qed

lemma invoiced_fields:
  "\<exists>iv. bi_invoices invoiced_store = [(''in_2'', iv)] \<and> in_id iv = ''in_2'' \<and> in_organizationId iv = ''o'' \<and>
     in_amountCents iv = 2000 \<and> in_status iv = Open"
  "bi_payments invoiced_store = []" "bi_events invoiced_store = []" "bi_counter invoiced_store = 2"
  by (simp_all add: invoiced_store_def generateInvoice_def pro_preview sample_period bs_createInvoice_def
    pro_subscription dec_2 case_prod_beta' Let_def numeral_2_eq_2 [symmetric])

lemma paid_fields:
  "\<exists>iv. bs_listInvoices ''o'' paid_store = [iv] \<and> in_status iv = Paid \<and> in_id iv = ''in_2'' \<and> in_amountCents iv = 2000"
proof -
  obtain iv where iv: "bi_invoices invoiced_store = [(''in_2'', iv)]" "in_id iv = ''in_2''" "in_organizationId iv = ''o''"
    "in_amountCents iv = 2000" "in_status iv = Open" using invoiced_fields(1) by blast
  show ?thesis
    by (simp add: paid_store_def applyProviderEvent_def pay_event_def findWebhookEvent_def invoiced_fields
      recordWebhookEvent_def applyPayment_def json_field_def text_field_def createPayment_def findPaymentByProviderId_def
      settle_def bs_getInvoice_def setInvoiceStatus_def iv listPaymentsTotal_eq paid_total_def bs_listInvoices_def
      newest_first_def case_prod_beta' Let_def)
qed

theorem paid_is_covered_witness:
  "\<exists>iv. bs_listInvoices ''o'' paid_store = [iv] \<and> in_status iv = Paid \<and> in_amountCents iv = 2000 \<and>
     2000 \<le> listPaymentsTotal ''o'' ''in_2'' paid_store"
proof -
  obtain iv where iv: "bs_listInvoices ''o'' paid_store = [iv]" "in_status iv = Paid" "in_id iv = ''in_2''"
    "in_amountCents iv = 2000" using paid_fields by blast
  then show ?thesis using paid_is_covered [OF paid_reachable, of iv "''o''"] by auto
qed

theorem event_applied_once_witness:
  "applyProviderEvent 5 pay_event paid_store = ((False, ''duplicate event ignored''), paid_store) \<and>
   fst (fst (applyProviderEvent 0 pay_event invoiced_store))"
proof
  show "applyProviderEvent 5 pay_event paid_store = ((False, ''duplicate event ignored''), paid_store)"
    by (rule event_applied_once [of 0 pay_event invoiced_store]) (simp_all add: paid_store_def)
  show "fst (fst (applyProviderEvent 0 pay_event invoiced_store))"
    by (simp add: applyProviderEvent_def pay_event_def findWebhookEvent_def invoiced_fields applyPayment_def
      json_field_def case_prod_beta' Let_def)
qed

theorem event_stays_in_organization_witness:
  "same_organization ''q'' invoiced_store paid_store"
  unfolding paid_store_def
  by (rule event_stays_in_organization [OF invoiced_reachable]) (simp add: pay_event_def)

end
