(* ===== verification/BillingSubscriptions.thy ===== *)
theory BillingSubscriptions
  imports BillingLedger
begin

text \<open>
  What the subscription side of billing promises: reading a subscription settles every time-driven transition at
  once, a plan change takes effect immediately and lasts as long as its trial, and an invoice charges the plan's
  price plus at most the exactly rounded-up metered overage.
\<close>

section \<open>Reading a subscription\<close>

lemma lapsed_row:
  "su_status (fst (upsertSubscription now (lapsed sub) s)) = SubExpired"
  "su_planId (fst (upsertSubscription now (lapsed sub) s)) = Free"
  "su_canceledAt (fst (upsertSubscription now (lapsed sub) s)) \<noteq> None"
  "bs_getSubscription (su_organizationId sub) (snd (upsertSubscription now (lapsed sub) s)) =
     Some (fst (upsertSubscription now (lapsed sub) s))"
  "bs_getSubscription (su_organizationId sub) s = Some old \<Longrightarrow>
     su_id (fst (upsertSubscription now (lapsed sub) s)) = su_id old"
  by (simp_all add: upsert_subs lapsed_def carried_def subscription_row_def or_else_def bs_getSubscription_def
    split: option.split)

lemma not_over [simp]:
  "su_status sub = SubExpired \<Longrightarrow> \<not> trial_over now sub" "su_status sub = SubExpired \<Longrightarrow> \<not> cancel_over now sub"
  "su_status sub = Active \<Longrightarrow> \<not> trial_over now sub" "su_status sub = Active \<Longrightarrow> \<not> cancel_over now sub"
  "su_status sub = Trialing \<Longrightarrow> \<not> cancel_over now sub"
  by (simp_all add: trial_over_def cancel_over_def)

lemma stored_settled:
  "bs_getSubscription org s = Some sub \<Longrightarrow> \<not> trial_over now sub \<Longrightarrow> \<not> cancel_over now sub \<Longrightarrow>
     getSubscription now org s = (sub, s)"
  by (simp add: getSubscription_def reconcile_def)

text \<open>The three ways a read can go.\<close>

lemma getSubscription_cases:
  assumes "subs_ok s"
  obtains (fresh) "bs_getSubscription org s = None" "su_planId (fst (getSubscription now org s)) = Free"
      "su_status (fst (getSubscription now org s)) = Active"
      "bs_getSubscription org (snd (getSubscription now org s)) = Some (fst (getSubscription now org s))"
    | (lapse) old where "bs_getSubscription org s = Some old" "trial_over now old \<or> cancel_over now old"
      "getSubscription now org s = upsertSubscription now (lapsed old) s" "su_organizationId old = org"
    | (same) old where "bs_getSubscription org s = Some old" "\<not> trial_over now old" "\<not> cancel_over now old"
      "getSubscription now org s = (old, s)"
proof (cases "bs_getSubscription org s")
  case None
  then show ?thesis
    by (intro fresh) (simp_all add: getSubscription_def upsert_subs subscription_row_def bs_getSubscription_def)
next
  case (Some old)
  then have "su_organizationId old = org" using assms by (simp add: subs_ok_def bs_getSubscription_def)
  then show ?thesis using Some
    by (cases "trial_over now old \<or> cancel_over now old") (auto simp: getSubscription_def reconcile_def intro: lapse same)
qed

text \<open>
  Reading a subscription settles it.  In any reachable state the subscription returned is the one stored, it
  has no elapsed trial and no ended cancellation left, and reading again at the same time changes nothing.  A
  stored subscription whose trial or canceled period has run out becomes an expired free one with the same
  identifier and a cancellation time; any other is returned unchanged; an organization without one gets an
  active free subscription.
\<close>

theorem subscription_settles:
  assumes "billing_reachable s" and "getSubscription now org s = (sub, s')"
  shows "bs_getSubscription org s' = Some sub \<and> \<not> trial_over now sub \<and> \<not> cancel_over now sub \<and>
    getSubscription now org s' = (sub, s') \<and>
    (case bs_getSubscription org s of
       None \<Rightarrow> su_planId sub = Free \<and> su_status sub = Active
     | Some old \<Rightarrow> if trial_over now old \<or> cancel_over now old
         then su_planId sub = Free \<and> su_status sub = SubExpired \<and> su_canceledAt sub \<noteq> None \<and> su_id sub = su_id old
         else sub = old \<and> s' = s)"
proof -
  have ok: "subs_ok s" using reachable_ledger_ok [OF assms(1)] by (simp add: ledger_ok_def)
  have r: "sub = fst (getSubscription now org s)" "s' = snd (getSubscription now org s)" using assms(2) by simp_all
  from ok show ?thesis
  proof (cases rule: getSubscription_cases [of s org now])
    case fresh
    then show ?thesis using stored_settled [of org s' sub now] by (simp add: r)
  next
    case (lapse old)
    have row: "su_status sub = SubExpired" "su_planId sub = Free" "su_canceledAt sub \<noteq> None"
      "bs_getSubscription org s' = Some sub" "su_id sub = su_id old"
      using lapse by (simp_all add: r lapsed_row lapsed_row(4) [of old, simplified lapse] lapsed_row(5) [of old s old, simplified lapse])
    then show ?thesis using stored_settled [of org s' sub now] lapse by simp
  next
    case (same old)
    then show ?thesis by (simp add: r)
  qed
qed

section \<open>Changing the plan\<close>

lemma changed_fields:
  "si_organizationId (changed now org p opts cur) = org" "si_planId (changed now org p opts cur) = p"
  "si_trialEndsAt (changed now org p opts cur) = trial_end now (getPlan p) (co_trialDays opts)"
  "si_status (changed now org p opts cur) =
     (if trial_end now (getPlan p) (co_trialDays opts) = None then Active else Trialing)"
  by (simp_all add: changed_def Let_def)

lemma effective_plan:
  "fst (fst (effectiveLimits t org s)) =
     (if su_status (fst (getSubscription t org s)) \<in> {SubExpired, PastDue} then Free
      else su_planId (fst (getSubscription t org s)))"
  by (simp add: effectiveLimits_eq Let_def)

text \<open>
  A plan change is all or nothing and takes effect at once.  It is refused, with the subscription only
  brought up to date, exactly when a usage reader is given and reports a gauge above a limit of the new plan.
  Otherwise the plan is in force from then on: at every later time the effective plan is the new one, except that
  a trial, which never exceeds the plan's own trial days, falls back to the free plan from the moment it ends.
\<close>

theorem plan_change_takes_effect:
  assumes "billing_reachable s" and "changePlan now org p opts s = (r, s')"
  shows "case r of
      Inl e \<Rightarrow> e = ApiError DOWNGRADE_BLOCKED 409 \<and> s' = snd (getSubscription now org s) \<and>
        (\<exists>reader. co_gaugeReader opts = Some reader \<and> breaches (getPlan p) reader \<noteq> [])
    | Inr sub \<Rightarrow> bs_getSubscription org s' = Some sub \<and>
        (case co_gaugeReader opts of Some reader \<Rightarrow> breaches (getPlan p) reader = [] | None \<Rightarrow> True) \<and>
        (case su_trialEndsAt sub of
           None \<Rightarrow> (\<forall>t. fst (fst (effectiveLimits t org s')) = p)
         | Some e \<Rightarrow> now < e \<and> e \<le> now + pl_trialDays (getPlan p) * ms_day \<and>
             (\<forall>t. fst (fst (effectiveLimits t org s')) = (if t < e then p else Free)))"
proof (cases "case co_gaugeReader opts of Some reader \<Rightarrow> breaches (getPlan p) reader \<noteq> [] | None \<Rightarrow> False")
  case True
  then have "r = Inl (ApiError DOWNGRADE_BLOCKED 409)" "s' = snd (getSubscription now org s)"
    using assms(2) by (auto simp: changePlan_def case_prod_beta' Let_def)
  with True show ?thesis by (auto split: option.splits)
next
  case False
  let ?i = "changed now org p opts (fst (getSubscription now org s))" and ?s1 = "snd (getSubscription now org s)"
  let ?sub = "fst (upsertSubscription now ?i ?s1)" and ?e = "trial_end now (getPlan p) (co_trialDays opts)"
  have r: "r = Inr ?sub" "s' = snd (upsertSubscription now ?i ?s1)"
    using assms(2) False by (auto simp: changePlan_def case_prod_beta' Let_def)
  have row: "bs_getSubscription org s' = Some ?sub" "su_planId ?sub = p" "su_trialEndsAt ?sub = ?e"
    "su_status ?sub = (if ?e = None then Active else Trialing)" "su_organizationId ?sub = org"
    unfolding r by (simp_all add: upsert_subs subscription_row_def bs_getSubscription_def changed_fields)
  have eff: "fst (fst (effectiveLimits t org s')) = (case ?e of Some e \<Rightarrow> if t < e then p else Free | None \<Rightarrow> p)" for t
  proof (cases "trial_over t ?sub")
    case True
    then have "getSubscription t org s' = upsertSubscription t (lapsed ?sub) s'"
      using row(1) by (simp add: getSubscription_def reconcile_def)
    then show ?thesis using True row by (auto simp: effective_plan lapsed_row trial_over_def split: option.splits)
  next
    case nt: False
    moreover have "\<not> cancel_over t ?sub" using row(4) by (simp add: cancel_over_def)
    ultimately have "getSubscription t org s' = (?sub, s')" by (intro stored_settled row(1))
    then show ?thesis using nt row by (auto simp: effective_plan trial_over_def split: option.splits)
  qed
  have "now < e \<and> e \<le> now + pl_trialDays (getPlan p) * ms_day" if "?e = Some e" for e
    using that by (auto simp: trial_end_def ms_day_def split: option.splits if_splits)
  with False r row eff show ?thesis by (auto split: option.splits)
qed

text \<open>Two trials: one still running, one that has ended when the subscription is read.\<close>

definition trial_options :: change_options where
  "trial_options = \<lparr>co_trialDays = Some 30, co_provider = None, co_providerSubscriptionId = None,
     co_gaugeReader = Some (\<lambda>_. 3)\<rparr>"

definition trial_store :: billing_state where
  "trial_store = snd (changePlan 0 ''o'' Pro trial_options initial_billing)"

lemma trial_reachable: "billing_reachable trial_store"
  unfolding billing_reachable_def trial_store_def by (rule r_into_rtranclp) (rule billing_op.intros(2))

lemma initial_reachable: "billing_reachable initial_billing"
  by (simp add: billing_reachable_def)

lemma trial_breaches: "breaches (getPlan Pro) (\<lambda>_. 3) = []"
  by (simp add: breaches_def gauge_breach_def limitKeyFor_def getPlan_def PLANS_def toLimitUnits_def Let_def)

lemma trial_change:
  "\<exists>sub. changePlan 0 ''o'' Pro trial_options initial_billing = (Inr sub, trial_store) \<and>
     su_trialEndsAt sub = Some (14 * ms_day)"
proof -
  let ?c = "changePlan 0 ''o'' Pro trial_options initial_billing"
  have "fst ?c = Inr (fst (upsertSubscription 0 (changed 0 ''o'' Pro trial_options
      (fst (getSubscription 0 ''o'' initial_billing))) (snd (getSubscription 0 ''o'' initial_billing))))" (is "_ = Inr ?sub")
    using trial_breaches by (simp add: changePlan_def trial_options_def case_prod_beta' Let_def)
  moreover have "su_trialEndsAt ?sub = Some (14 * ms_day)"
    by (simp add: upsert_subs subscription_row_def changed_fields trial_end_def trial_options_def getPlan_def
      PLANS_def ms_day_def)
  ultimately show ?thesis by (intro exI [of _ ?sub]) (simp add: trial_store_def prod_eq_iff)
qed

theorem plan_change_takes_effect_witness:
  "fst (fst (effectiveLimits (13 * ms_day) ''o'' trial_store)) = Pro \<and>
   fst (fst (effectiveLimits (14 * ms_day) ''o'' trial_store)) = Free"
proof -
  obtain sub where c: "changePlan 0 ''o'' Pro trial_options initial_billing = (Inr sub, trial_store)"
    "su_trialEndsAt sub = Some (14 * ms_day)" using trial_change by blast
  from plan_change_takes_effect [OF initial_reachable c(1)] c(2) show ?thesis by (simp add: ms_day_def)
qed

theorem subscription_settles_witness:
  "fst (getSubscription (15 * ms_day) ''o'' (snd (getSubscription (15 * ms_day) ''o'' trial_store))) =
     fst (getSubscription (15 * ms_day) ''o'' trial_store) \<and>
   su_status (fst (getSubscription (15 * ms_day) ''o'' trial_store)) = SubExpired"
proof -
  obtain sub where c: "bs_getSubscription ''o'' trial_store = Some sub" "su_trialEndsAt sub = Some (14 * ms_day)"
    "su_status sub = Trialing"
    by (auto simp: trial_store_def changePlan_def trial_breaches case_prod_beta' Let_def upsert_subs
      subscription_row_def bs_getSubscription_def changed_fields trial_end_def trial_options_def getPlan_def PLANS_def
      ms_day_def breaches_def gauge_breach_def limitKeyFor_def toLimitUnits_def)
  then have over: "trial_over (15 * ms_day) sub" by (simp add: trial_over_def ms_day_def)
  obtain sub' s' where g: "getSubscription (15 * ms_day) ''o'' trial_store = (sub', s')" by fastforce
  from subscription_settles [OF trial_reachable g] c(1) over
  show ?thesis by (simp add: g)
qed

section \<open>What an invoice charges\<close>

definition meters :: "(usage_service \<times> usage_metric \<times> overage_key \<times> int) list" where
  "meters = [(SApi, M_api_requests, O_api_requests, 10000), (SApi, M_api_bandwidth_bytes, O_bandwidth_mb, 1024 * 1024 * 1024),
     (SAi, M_ai_tokens, O_ai_tokens, 1000000), (SFunctions, M_function_invocations, O_function_invocations, 1000000)]"

text \<open>Raw usage beyond the plan's allowance, and the charge for it in exact arithmetic.\<close>

definition excess :: "plan_definition \<Rightarrow> usage_row list \<Rightarrow> usage_service \<Rightarrow> usage_metric \<Rightarrow> int" where
  "excess plan rows sv m = (case limitKeyFor sv m of None \<Rightarrow> 0
     | Some k \<Rightarrow> max 0 (metric_total rows sv m -
         pl_limits plan k * (if m = M_api_bandwidth_bytes then 1024 * 1024 else 1)))"

definition exact_charge :: "plan_definition \<Rightarrow> usage_row list \<Rightarrow> usage_service \<times> usage_metric \<times> overage_key \<times> int \<Rightarrow> int" where
  "exact_charge plan rows x = (case x of (sv, m, key, per) \<Rightarrow>
     default (overage_rate plan key) 0 * \<lceil>of_int (excess plan rows sv m) / of_int per :: rat\<rceil>)"

lemma ceil_to_double:
  assumes "\<lceil>x\<rceil> \<le> 2 ^ 53" and "0 < x"
  shows "\<lceil>to_double x\<rceil> \<le> \<lceil>x\<rceil> \<and> 1 \<le> \<lceil>to_double x\<rceil>"
proof
  have "to_double x \<le> to_double (of_int \<lceil>x\<rceil>)" by (rule to_double_mono) simp
  also have "\<dots> = of_int \<lceil>x\<rceil>" using assms by (intro to_double_int) simp
  finally show "\<lceil>to_double x\<rceil> \<le> \<lceil>x\<rceil>" by (simp add: ceiling_le_iff)
  have "0 < to_double x" using assms(2) round_pos_positive by (simp add: to_double_def)
  then show "1 \<le> \<lceil>to_double x\<rceil>" by simp
qed

definition billed :: "invoice_line list \<Rightarrow> int" where
  "billed ls = sum_list (map il_amountCents ls)"

lemma billed_append [simp]: "billed (xs @ ys) = billed xs + billed ys"
  by (simp add: billed_def)

text \<open>The catalogue's rates and limits on the metered resources.\<close>

lemma metered_limits: "overage_rate (getPlan p) key = Some c \<Longrightarrow> limitKeyFor sv m = Some k \<Longrightarrow> 0 < c \<and> 0 \<le> pl_limits (getPlan p) k"
  by (cases p; cases key; cases k) (auto simp: overage_rate_def getPlan_def PLANS_def)

lemma over_charge:
  assumes "limitKeyFor sv m \<noteq> None" and "1 \<le> per" and "metric_total rows sv m \<le> MAX_SAFE_INTEGER"
  shows "billed (over (getPlan p) rows sv m key per unit) \<le> exact_charge (getPlan p) rows (sv, m, key, per) \<and>
    0 \<le> billed (over (getPlan p) rows sv m key per unit) \<and>
    (billed (over (getPlan p) rows sv m key per unit) = 0 \<longleftrightarrow>
       overage_rate (getPlan p) key = None \<or> excess (getPlan p) rows sv m = 0)"
proof (cases "overage_rate (getPlan p) key")
  case None
  then show ?thesis by (simp add: over_def billed_def exact_charge_def default_def)
next
  case (Some c)
  obtain k where k: "limitKeyFor sv m = Some k" using assms(1) by auto
  define allow where "allow = pl_limits (getPlan p) k * (if m = M_api_bandwidth_bytes then 1024 * 1024 else 1)"
  have c: "0 < c" and lim: "0 \<le> pl_limits (getPlan p) k" using metered_limits [OF Some k] by simp_all
  then have allow0: "0 \<le> allow" by (simp add: allow_def)
  have ex: "excess (getPlan p) rows sv m = max 0 (metric_total rows sv m - allow)" by (simp add: excess_def k allow_def)
  have raw: "(if m = M_api_bandwidth_bytes then pl_limits (getPlan p) k * 1024 * 1024 else pl_limits (getPlan p) k) = allow"
    by (simp add: allow_def)
  let ?x = "of_int (metric_total rows sv m - allow) / of_int per :: rat"
  show ?thesis
  proof (cases "metric_total rows sv m \<le> allow")
    case True
    then have "over (getPlan p) rows sv m key per unit = []" using allow0 by (simp add: over_def Some k raw Let_def)
    then show ?thesis using True Some by (simp add: billed_def exact_charge_def ex default_def)
  next
    case False
    then have x0: "0 < ?x" using assms(2) by simp
    have "?x \<le> of_int (metric_total rows sv m - allow)"
      using False assms(2) by (simp add: divide_le_eq mult_le_cancel_left1)
    then have "\<lceil>?x\<rceil> \<le> metric_total rows sv m - allow" by (simp only: ceiling_le_iff)
    also have "\<dots> \<le> 2 ^ 53" using assms(3) allow0 by (simp add: MAX_SAFE_INTEGER_def)
    finally have q: "\<lceil>to_double ?x\<rceil> \<le> \<lceil>?x\<rceil>" "1 \<le> \<lceil>to_double ?x\<rceil>" using ceil_to_double [OF _ x0] by simp_all
    then have "0 < to_double ?x" by simp
    then have b: "billed (over (getPlan p) rows sv m key per unit) = \<lceil>to_double ?x\<rceil> * c"
      using False allow0 by (simp add: over_def Some k raw billed_def Let_def not_le)
    have e: "exact_charge (getPlan p) rows (sv, m, key, per) = c * \<lceil>?x\<rceil>"
      using False by (simp add: exact_charge_def Some default_def ex)
    have "\<lceil>to_double ?x\<rceil> * c \<le> c * \<lceil>?x\<rceil>" using q(1) c by (simp add: mult.commute)
    moreover have "0 < \<lceil>to_double ?x\<rceil> * c" using q(2) c by (intro mult_pos_pos) simp_all
    ultimately have "billed (over (getPlan p) rows sv m key per unit) \<le> exact_charge (getPlan p) rows (sv, m, key, per)"
      "0 < billed (over (getPlan p) rows sv m key per unit)"
      unfolding b e by simp_all
    then show ?thesis using False Some by (simp add: ex)
  qed
qed

lemma base_charge: "billed (base_line (getPlan p) target) = default (pl_priceCents (getPlan p)) 0"
  by (cases p) (simp_all add: base_line_def billed_def default_def getPlan_def PLANS_def Let_def)

lemma aggregate_records: "bi_records s' = bi_records s \<Longrightarrow> aggregateUsage org period s' = aggregateUsage org period s"
  by (simp add: aggregateUsage_def)

lemma sum_of_four:
  fixes b1 b2 b3 b4 e1 e2 e3 e4 :: int
  assumes "b1 \<le> e1 \<and> 0 \<le> b1 \<and> (b1 = 0 \<longleftrightarrow> z1)" and "b2 \<le> e2 \<and> 0 \<le> b2 \<and> (b2 = 0 \<longleftrightarrow> z2)"
    and "b3 \<le> e3 \<and> 0 \<le> b3 \<and> (b3 = 0 \<longleftrightarrow> z3)" and "b4 \<le> e4 \<and> 0 \<le> b4 \<and> (b4 = 0 \<longleftrightarrow> z4)"
  shows "0 \<le> b1 + (b2 + (b3 + b4)) \<and> b1 + (b2 + (b3 + b4)) \<le> e1 + (e2 + (e3 + (e4 + 0))) \<and>
    (b1 + (b2 + (b3 + b4)) = 0 \<longleftrightarrow> z1 \<and> z2 \<and> z3 \<and> z4)"
  using assms by auto

text \<open>
  C7. An invoice charges what the catalogue says.  For usage totals that are safe integers, a preview's amount is at
  least the plan's price and at most the price plus, for each metered resource, the rate times the exactly
  rounded-up excess over the plan's allowance, so floating point never overcharges; and it is just the price
  exactly when no resource with a rate exceeds its allowance.
\<close>

theorem invoice_charges:
  assumes "previewInvoice now org period s = (Inr pv, s')"
    and "\<forall>(sv, m, key, per) \<in> set meters. metric_total (aggregateUsage org (ip_period pv) s) sv m \<le> MAX_SAFE_INTEGER"
  shows "let plan = getPlan (ip_planId pv); rows = aggregateUsage org (ip_period pv) s;
             price = default (pl_priceCents plan) 0 in
    price \<le> ip_amountCents pv \<and>
    ip_amountCents pv \<le> price + sum_list (map (exact_charge plan rows) meters) \<and>
    (ip_amountCents pv = price \<longleftrightarrow>
       list_all (\<lambda>(sv, m, key, per). overage_rate plan key = None \<or> excess plan rows sv m = 0) meters)"
proof -
  define plan where "plan = getPlan (ip_planId pv)"
  define rows where "rows = aggregateUsage org (ip_period pv) s"
  have rec: "aggregateUsage org q (snd (effectiveLimits now org s)) = aggregateUsage org q s" for q
    by (rule aggregate_records) (simp add: effectiveLimits_eq)
  have amt: "ip_amountCents pv = billed (invoice_lines plan (ip_period pv) rows)"
    using assms(1) by (auto simp: previewInvoice_def billing_aggregate_def case_prod_beta' Let_def and_then_Inr rec
      plan_def rows_def billed_def)
  have total: "metric_total rows sv m \<le> MAX_SAFE_INTEGER" if "(sv, m, key, per) \<in> set meters" for sv m key per
    using assms(2) that by (auto simp: rows_def)
  have t: "metric_total rows SApi M_api_requests \<le> MAX_SAFE_INTEGER" "metric_total rows SApi M_api_bandwidth_bytes \<le> MAX_SAFE_INTEGER"
    "metric_total rows SAi M_ai_tokens \<le> MAX_SAFE_INTEGER" "metric_total rows SFunctions M_function_invocations \<le> MAX_SAFE_INTEGER"
    by (rule total, simp add: meters_def)+
  have key: "limitKeyFor SApi M_api_requests \<noteq> None" "limitKeyFor SApi M_api_bandwidth_bytes \<noteq> None"
    "limitKeyFor SAi M_ai_tokens \<noteq> None" "limitKeyFor SFunctions M_function_invocations \<noteq> None"
    by (simp_all add: limitKeyFor_def)
  let ?o = "\<lambda>sv m k per unit. billed (over plan rows sv m k per unit)"
  have b: "ip_amountCents pv = default (pl_priceCents plan) 0 +
      (?o SApi M_api_requests O_api_requests 10000 ''10k requests'' +
       (?o SApi M_api_bandwidth_bytes O_bandwidth_mb (1024 * 1024 * 1024) ''GB'' +
        (?o SAi M_ai_tokens O_ai_tokens 1000000 ''1M tokens'' +
         ?o SFunctions M_function_invocations O_function_invocations 1000000 ''1M invocations'')))"
    by (simp only: amt invoice_lines_def billed_append base_charge plan_def)
  have one: "(1::int) \<le> 10000" "(1::int) \<le> 1024 * 1024 * 1024" "(1::int) \<le> 1000000" by simp_all
  note charge = sum_of_four [OF over_charge [OF key(1) one(1) t(1), of "ip_planId pv" O_api_requests "''10k requests''"]
    over_charge [OF key(2) one(2) t(2), of "ip_planId pv" O_bandwidth_mb "''GB''"]
    over_charge [OF key(3) one(3) t(3), of "ip_planId pv" O_ai_tokens "''1M tokens''"]
    over_charge [OF key(4) one(3) t(4), of "ip_planId pv" O_function_invocations "''1M invocations''"], folded plan_def]
  have "list_all (\<lambda>(sv, m, key, per). overage_rate plan key = None \<or> excess plan rows sv m = 0) meters \<longleftrightarrow>
      (overage_rate plan O_api_requests = None \<or> excess plan rows SApi M_api_requests = 0) \<and>
      (overage_rate plan O_bandwidth_mb = None \<or> excess plan rows SApi M_api_bandwidth_bytes = 0) \<and>
      (overage_rate plan O_ai_tokens = None \<or> excess plan rows SAi M_ai_tokens = 0) \<and>
      (overage_rate plan O_function_invocations = None \<or> excess plan rows SFunctions M_function_invocations = 0)"
    by (simp add: meters_def)
  moreover have "sum_list (map (exact_charge plan rows) meters) =
      exact_charge plan rows (SApi, M_api_requests, O_api_requests, 10000) +
      (exact_charge plan rows (SApi, M_api_bandwidth_bytes, O_bandwidth_mb, 1024 * 1024 * 1024) +
       (exact_charge plan rows (SAi, M_ai_tokens, O_ai_tokens, 1000000) +
        (exact_charge plan rows (SFunctions, M_function_invocations, O_function_invocations, 1000000) + 0)))"
    by (simp only: meters_def list.map sum_list.Cons sum_list.Nil)
  ultimately have "default (pl_priceCents plan) 0 \<le> ip_amountCents pv \<and>
      ip_amountCents pv \<le> default (pl_priceCents plan) 0 + sum_list (map (exact_charge plan rows) meters) \<and>
      (ip_amountCents pv = default (pl_priceCents plan) 0 \<longleftrightarrow>
       list_all (\<lambda>(sv, m, key, per). overage_rate plan key = None \<or> excess plan rows sv m = 0) meters)"
    using charge by (simp only: b) simp
  then show ?thesis by (simp add: Let_def plan_def rows_def)
qed

text \<open>One API request over the pro plan's five million costs one cent.\<close>

definition busy_store :: billing_state where
  "busy_store = pro_store\<lparr>bi_records := [sample_usage M_api_requests 5000001]\<rparr>"

lemma busy_rows: "aggregateUsage ''o'' ''2024-01'' busy_store =
  [\<lparr>ur_service = SApi, ur_metric = M_api_requests, ur_projectId = ''p'', ur_total = 5000001\<rparr>]"
  by (simp add: aggregateUsage_def busy_store_def sample_usage_def usage_groups_def add_to_group_def usage_key_of_def
    group_row_def GAUGE_METRICS_def default_def)

lemma busy_plan: "fst (fst (effectiveLimits 0 ''o'' busy_store)) = Pro" "snd (effectiveLimits 0 ''o'' busy_store) = busy_store"
  using pro_subscription(1)
  by (auto simp: effectiveLimits_def getSubscription_def bs_getSubscription_def reconcile_def case_prod_beta' Let_def
    busy_store_def)

lemma busy_preview:
  "\<exists>pv. previewInvoice 0 ''o'' (Some ''2024-01'') busy_store = (Inr pv, busy_store) \<and> ip_planId pv = Pro \<and> ip_period pv = ''2024-01''"
  by (simp add: previewInvoice_def billing_aggregate_def busy_plan sample_period default_def case_prod_beta' Let_def)

theorem invoice_charges_witness:
  "map_option ip_amountCents (case fst (previewInvoice 0 ''o'' (Some ''2024-01'') busy_store) of
     Inr pv \<Rightarrow> Some pv | Inl e \<Rightarrow> None) = Some 2001"
proof -
  obtain pv where pv: "previewInvoice 0 ''o'' (Some ''2024-01'') busy_store = (Inr pv, busy_store)"
    "ip_planId pv = Pro" "ip_period pv = ''2024-01''" using busy_preview by blast
  have rate: "pl_priceCents (getPlan Pro) = Some 2000" "overage_rate (getPlan Pro) O_api_requests = Some 1"
    "pl_limits (getPlan Pro) = pro_limits"
    by (simp_all add: overage_rate_def getPlan_def PLANS_def)
  have tot: "metric_total (aggregateUsage ''o'' ''2024-01'' busy_store) sv m =
      (if sv = SApi \<and> m = M_api_requests then 5000001 else 0)" for sv m
    by (auto simp: busy_rows metric_total_def)
  have ex: "excess (getPlan Pro) (aggregateUsage ''o'' ''2024-01'' busy_store) sv m =
      (if sv = SApi \<and> m = M_api_requests then 1 else 0)" if "(sv, m, key, per) \<in> set meters" for sv m key per
    using that by (auto simp: excess_def tot rate meters_def limitKeyFor_def)
  have "\<lceil>1 / 10000 :: rat\<rceil> = 1" by (simp add: ceiling_eq_iff)
  then have ch: "sum_list (map (exact_charge (getPlan Pro) (aggregateUsage ''o'' ''2024-01'' busy_store)) meters) = 1"
    using ex by (simp add: meters_def exact_charge_def rate default_def)
  have "\<forall>(sv, m, key, per) \<in> set meters.
      metric_total (aggregateUsage ''o'' (ip_period pv) busy_store) sv m \<le> MAX_SAFE_INTEGER"
    by (auto simp: pv tot MAX_SAFE_INTEGER_def)
  from invoice_charges [OF pv(1) this] have "2000 \<le> ip_amountCents pv" "ip_amountCents pv \<le> 2001"
    "ip_amountCents pv \<noteq> 2000"
    using ch ex by (simp_all add: Let_def pv rate default_def meters_def)
  then show ?thesis by (simp add: pv(1))
qed

end
