(* ===== verification/AuthPrimitives.thy ===== *)
theory AuthPrimitives
  imports Json
begin

text \<open>
  The auth package's pure parts: the password policy (\<open>packages/auth/src/password-policy.ts\<close>), password hashes,
  bearer headers and API keys (\<open>index.ts\<close>), metadata guards (\<open>customer/metadata.ts\<close>) and custom token claims
  (\<open>customer/tokens.ts\<close>).  SHA-256 and scrypt, both in hexadecimal, and drawn random texts are arguments.
\<close>

section \<open>Errors\<close>

datatype auth_code =
    WEAK_PASSWORD | WEAK_SECRET | INVALID_SESSION | REVOKED_SESSION | INVALID_METADATA | OTP_EXPIRED | OTP_CONSUMED
  | OTP_LOCKED | OTP_INVALID | INVALID_EMAIL | EMAIL_TAKEN | ANONYMOUS_CONVERT_REQUIRED | INVALID_CREDENTIALS
  | USER_DISABLED | INVALID_REFRESH | REFRESH_REUSED | USER_NOT_FOUND | SESSION_REVOKED | INVALID_STATUS
  | INVALID_ONE_TIME | SESSION_NOT_FOUND | NOT_ANONYMOUS | NOT_SUPPORTED | PASSKEY_CHALLENGE_INVALID | PASSKEY_EXISTS
  | PASSKEY_INVALID | PASSKEY_COUNTER_REGRESSED | WEBAUTHN_ERROR | MFA_NOT_ENROLLED | MFA_INVALID | MFA_EXPIRED
  | INVALID_PHONE | PHONE_MISSING

text \<open>\<open>AuthFail code status\<close> is an error with an HTTP status, \<open>AuthBase code\<close> an \<open>AuthError\<close> without one, \<open>AuthPlain\<close> any other exception.\<close>

datatype auth_error = AuthFail auth_code nat | AuthBase auth_code | AuthPlain

type_synonym 'a auth = "auth_error + 'a"

section \<open>Password policy (password-policy.ts)\<close>

record password_policy =
  pp_minLength :: int
  pp_maxLength :: int
  pp_requireLowercase :: bool
  pp_requireUppercase :: bool
  pp_requireDigit :: bool
  pp_requireSymbol :: bool
  pp_minClasses :: int
  pp_denyCommon :: bool

definition DEFAULT_PASSWORD_POLICY :: password_policy where
  "DEFAULT_PASSWORD_POLICY = \<lparr>pp_minLength = 12, pp_maxLength = 128, pp_requireLowercase = True,
     pp_requireUppercase = True, pp_requireDigit = True, pp_requireSymbol = False, pp_minClasses = 3, pp_denyCommon = True\<rparr>"

definition PLATFORM_BASELINE_PASSWORD_POLICY :: password_policy where
  "PLATFORM_BASELINE_PASSWORD_POLICY = \<lparr>pp_minLength = 12, pp_maxLength = 128, pp_requireLowercase = False,
     pp_requireUppercase = False, pp_requireDigit = False, pp_requireSymbol = False, pp_minClasses = 3, pp_denyCommon = True\<rparr>"

definition LEGACY_PASSWORD_POLICY :: password_policy where
  "LEGACY_PASSWORD_POLICY = \<lparr>pp_minLength = 8, pp_maxLength = 128, pp_requireLowercase = False,
     pp_requireUppercase = False, pp_requireDigit = False, pp_requireSymbol = False, pp_minClasses = 0, pp_denyCommon = False\<rparr>"

definition COMMON_PASSWORDS :: "string list" where
  "COMMON_PASSWORDS = [''password'', ''password1'', ''password123'', ''123456'', ''12345678'', ''123456789'',
     ''qwerty'', ''abc123'', ''letmein'', ''welcome'', ''admin'', ''passw0rd'', ''password!'', ''changeme'', ''cloudnivo'']"

datatype password_reason =
    TooShort int | TooLong int | NeedsLowercase | NeedsUppercase | NeedsDigit | NeedsSymbol | NeedsClasses int | TooCommon

definition password_classes :: "string \<Rightarrow> bool list" where
  "password_classes p = [list_ex is_lower p, list_ex is_upper p, list_ex is_digit p, list_ex (\<lambda>c. \<not> is_alnum c) p]"

definition checkPasswordPolicy :: "string \<Rightarrow> password_policy \<Rightarrow> bool \<times> password_reason list" where
  "checkPasswordPolicy password policy =
     (let classes = password_classes password;
          reasons =
            (if int (length password) < pp_minLength policy then [TooShort (pp_minLength policy)] else [])
            @ (if pp_maxLength policy < int (length password) then [TooLong (pp_maxLength policy)] else [])
            @ (if pp_requireLowercase policy \<and> \<not> classes ! 0 then [NeedsLowercase] else [])
            @ (if pp_requireUppercase policy \<and> \<not> classes ! 1 then [NeedsUppercase] else [])
            @ (if pp_requireDigit policy \<and> \<not> classes ! 2 then [NeedsDigit] else [])
            @ (if pp_requireSymbol policy \<and> \<not> classes ! 3 then [NeedsSymbol] else [])
            @ (if 0 < pp_minClasses policy \<and> int (length (filter id classes)) < pp_minClasses policy
               then [NeedsClasses (pp_minClasses policy)] else [])
            @ (if pp_denyCommon policy \<and> to_lower password \<in> set COMMON_PASSWORDS then [TooCommon] else []) in
      (reasons = [], reasons))"

text \<open>A partial override: each field is present or not.\<close>

record policy_override =
  po_minLength :: "int option"
  po_maxLength :: "int option"
  po_requireLowercase :: "bool option"
  po_requireUppercase :: "bool option"
  po_requireDigit :: "bool option"
  po_requireSymbol :: "bool option"
  po_minClasses :: "int option"
  po_denyCommon :: "bool option"

definition over_value :: "'a option \<Rightarrow> 'a \<Rightarrow> 'a" where
  "over_value o' d = (case o' of Some x \<Rightarrow> x | None \<Rightarrow> d)"

definition mergePasswordPolicy :: "policy_override option \<Rightarrow> password_policy" where
  "mergePasswordPolicy override = (case override of
       None \<Rightarrow> DEFAULT_PASSWORD_POLICY
     | Some ov \<Rightarrow>
         (let d = DEFAULT_PASSWORD_POLICY;
              lo = min (max (over_value (po_minLength ov) (pp_minLength d)) 8) 128;
              hi = min (max (over_value (po_maxLength ov) (pp_maxLength d)) lo) 256 in
          \<lparr>pp_minLength = lo, pp_maxLength = hi,
           pp_requireLowercase = over_value (po_requireLowercase ov) (pp_requireLowercase d),
           pp_requireUppercase = over_value (po_requireUppercase ov) (pp_requireUppercase d),
           pp_requireDigit = over_value (po_requireDigit ov) (pp_requireDigit d),
           pp_requireSymbol = over_value (po_requireSymbol ov) (pp_requireSymbol d),
           pp_minClasses = min (max (over_value (po_minClasses ov) (pp_minClasses d)) 0) 4,
           pp_denyCommon = over_value (po_denyCommon ov) (pp_denyCommon d)\<rparr>))"

text \<open>Whatever an organization configures, the merged policy asks for eight characters and can be met in length.\<close>

lemma merge_bounds:
  "8 \<le> pp_minLength (mergePasswordPolicy ov) \<and> pp_minLength (mergePasswordPolicy ov) \<le> 128 \<and>
   pp_minLength (mergePasswordPolicy ov) \<le> pp_maxLength (mergePasswordPolicy ov) \<and>
   pp_maxLength (mergePasswordPolicy ov) \<le> 256 \<and> pp_minClasses (mergePasswordPolicy ov) \<le> 4"
  by (auto simp: mergePasswordPolicy_def DEFAULT_PASSWORD_POLICY_def Let_def split: option.split)

lemma policy_length:
  "fst (checkPasswordPolicy p pol) \<Longrightarrow> pp_minLength pol \<le> int (length p) \<and> int (length p) \<le> pp_maxLength pol"
  by (auto simp: checkPasswordPolicy_def Let_def split: if_splits)

section \<open>Password hashes (index.ts)\<close>

definition hashPassword :: "(string \<Rightarrow> string \<Rightarrow> string) \<Rightarrow> string \<Rightarrow> string \<Rightarrow> string auth" where
  "hashPassword scrypt salt password =
     (if length password < 8 then Inl (AuthBase WEAK_PASSWORD)
      else Inr (''scrypt:'' @ salt @ '':'' @ scrypt password salt))"

text \<open>The stored text is split at its colons; equal byte strings have equal hexadecimal texts.\<close>

definition verifyPassword :: "(string \<Rightarrow> string \<Rightarrow> string) \<Rightarrow> string \<Rightarrow> string \<Rightarrow> bool" where
  "verifyPassword scrypt password stored =
     (case split_on (CHR '':'') stored of
        algo # salt # hash # _ \<Rightarrow>
          (if algo \<noteq> ''scrypt'' \<or> salt = [] \<or> hash = [] then False else scrypt password salt = to_lower hash)
      | _ \<Rightarrow> False)"

lemma verify_hashed:
  assumes "hashPassword scrypt salt p = Inr h" and "salt \<noteq> []" and "CHR '':'' \<notin> set salt"
    and "scrypt p salt \<noteq> []" and "CHR '':'' \<notin> set (scrypt p salt)" and "to_lower (scrypt p salt) = scrypt p salt"
  shows "verifyPassword scrypt q h \<longleftrightarrow> scrypt q salt = scrypt p salt"
proof -
  have h: "h = ''scrypt'' @ CHR '':'' # (salt @ CHR '':'' # scrypt p salt)"
    using assms(1) by (simp add: hashPassword_def split: if_splits)
  have "split_on (CHR '':'') (''scrypt'' @ CHR '':'' # s) = ''scrypt'' # split_on (CHR '':'') s" for s
    by (rule split_on_append) simp
  then have "split_on (CHR '':'') h = [''scrypt'', salt, scrypt p salt]"
    by (simp only: h split_on_append [OF assms(3)] split_on_no_sep [OF assms(5)])
  then show ?thesis using assms by (simp add: verifyPassword_def)
qed

section \<open>Headers and API keys (index.ts)\<close>

text \<open>\<open>^Bearer\\s+(\\S+)$\<close>, any case, on the trimmed header.\<close>

definition bearerFromHeader :: "string option \<Rightarrow> string option" where
  "bearerFromHeader header = (case header of None \<Rightarrow> None
     | Some h \<Rightarrow>
         (let t = js_trim h; rest = drop 6 t; tok = dropWhile is_space rest in
          if h = [] then None
          else if to_lower (take 6 t) = ''bearer'' \<and> rest \<noteq> tok \<and> tok \<noteq> [] \<and> list_all (\<lambda>c. \<not> is_space c) tok
          then Some tok else None))"

record api_key_pair =
  kp_raw :: string
  kp_prefix :: string
  kp_hash :: string

definition createApiKey :: "(string \<Rightarrow> string) \<Rightarrow> string \<Rightarrow> api_key_pair" where
  "createApiKey sha rnd = (let raw = ''cn_'' @ rnd in \<lparr>kp_raw = raw, kp_prefix = take 12 raw, kp_hash = sha raw\<rparr>)"

section \<open>Metadata guards (metadata.ts)\<close>

definition USER_EDITABLE_KEYS :: "string list" where
  "USER_EDITABLE_KEYS = [''display_name'', ''avatar_url'', ''locale'', ''timezone'', ''preferences'', ''profile'']"

definition PROTECTED_KEYS :: "string list" where
  "PROTECTED_KEYS = [''role'', ''roles'', ''permissions'', ''admin'', ''system'', ''flags'', ''plan'']"

abbreviation metadata_error :: auth_error where
  "metadata_error \<equiv> AuthFail INVALID_METADATA 400"

definition too_long_text :: "json \<Rightarrow> bool" where
  "too_long_text v = (case v of JStr t \<Rightarrow> 2000 < length t | _ \<Rightarrow> False)"

definition is_compound :: "json \<Rightarrow> bool" where
  "is_compound v = (case v of JArr _ \<Rightarrow> True | JObj _ \<Rightarrow> True | _ \<Rightarrow> False)"

fun user_entries :: "(string \<times> json) list \<Rightarrow> (string, json) jsmap \<Rightarrow> (string, json) jsmap auth" where
  "user_entries [] out = Inr out"
| "user_entries ((key, v) # rest) out =
     (if key \<in> set PROTECTED_KEYS then Inl metadata_error
      else if key \<notin> set USER_EDITABLE_KEYS then Inl metadata_error
      else if is_compound v then Inl metadata_error
      else if too_long_text v then Inl metadata_error
      else user_entries rest (js_set key v out))"

definition sanitizeUserMetadata :: "json \<Rightarrow> (string, json) jsmap auth" where
  "sanitizeUserMetadata patch = (case patch of JObj kvs \<Rightarrow> user_entries kvs [] | _ \<Rightarrow> Inl metadata_error)"

fun app_entries :: "(string \<times> json) list \<Rightarrow> (string, json) jsmap \<Rightarrow> (string, json) jsmap auth" where
  "app_entries [] out = Inr out"
| "app_entries ((key, v) # rest) out =
     (if key = ''role'' \<and> v \<noteq> JStr ''authenticated'' \<and> v \<noteq> JStr ''admin'' then Inl metadata_error
      else if too_long_text v then Inl metadata_error
      else app_entries rest (js_set key v out))"

definition sanitizeAppMetadata :: "json \<Rightarrow> (string, json) jsmap auth" where
  "sanitizeAppMetadata patch = (case patch of JObj kvs \<Rightarrow> app_entries kvs [] | _ \<Rightarrow> Inl metadata_error)"

lemma user_entries_keys:
  "user_entries kvs out = Inr m \<Longrightarrow> fst ` set m \<subseteq> fst ` set out \<union> set USER_EDITABLE_KEYS"
proof (induction kvs arbitrary: out)
  case (Cons kv kvs)
  obtain k v where kv: "kv = (k, v)" by (cases kv)
  from Cons.prems have "user_entries kvs (js_set k v out) = Inr m" and k: "k \<in> set USER_EDITABLE_KEYS"
    by (auto simp: kv split: if_splits)
  from Cons.IH [OF this(1)] show ?case using k by (auto simp: dom_update)
qed simp

section \<open>Custom claims (tokens.ts)\<close>

definition claim_key_ok :: "string \<Rightarrow> bool" where
  "claim_key_ok k \<longleftrightarrow> (case k of [] \<Rightarrow> False
     | c # cs \<Rightarrow> (is_upper c \<or> is_lower c \<or> c = CHR ''_'') \<and> length cs \<le> 40 \<and>
         list_all (\<lambda>d. is_alnum d \<or> d = CHR ''_'') cs)"

definition RESERVED_CLAIMS :: "string list" where
  "RESERVED_CLAIMS = [''sub'', ''email'', ''projectId'', ''sessionId'', ''role'', ''tokenType'', ''iss'', ''aud'', ''exp'', ''iat'']"

definition claim_value_ok :: "json \<Rightarrow> bool" where
  "claim_value_ok v = (case v of JStr t \<Rightarrow> length t \<le> 200 | JNum _ \<Rightarrow> True | JBool _ \<Rightarrow> True | _ \<Rightarrow> False)"

fun claim_entries :: "(string \<times> json) list \<Rightarrow> (string, json) jsmap \<Rightarrow> (string, json) jsmap" where
  "claim_entries [] out = out"
| "claim_entries ((key, v) # rest) out =
     (if 10 \<le> length out then out
      else if \<not> claim_key_ok key \<or> key \<in> set RESERVED_CLAIMS then claim_entries rest out
      else if claim_value_ok v then claim_entries rest (js_set key v out)
      else claim_entries rest out)"

definition sanitizeCustomClaims :: "json \<Rightarrow> (string, json) jsmap" where
  "sanitizeCustomClaims input = (case input of JObj kvs \<Rightarrow> claim_entries kvs [] | _ \<Rightarrow> [])"

lemma length_js_set: "length (js_set k v m) \<le> length m + 1"
  by (induction m) auto

definition claims_ok :: "(string, json) jsmap \<Rightarrow> bool" where
  "claims_ok m \<longleftrightarrow> length m \<le> 10 \<and> js_ok m \<and>
     (\<forall>(k, v)\<in>set m. claim_key_ok k \<and> k \<notin> set RESERVED_CLAIMS \<and> claim_value_ok v)"

lemma set_js_set: "set (js_set k v m) \<subseteq> insert (k, v) (set m)"
  by (induction m) auto

lemma claim_entries_ok: "claims_ok out \<Longrightarrow> claims_ok (claim_entries kvs out)"
proof (induction kvs out rule: claim_entries.induct)
  case (2 key v rest out)
  have "claims_ok (js_set key v out)"
    if "length out < 10" "claim_key_ok key" "key \<notin> set RESERVED_CLAIMS" "claim_value_ok v"
    using that 2 length_js_set [of key v out] set_js_set [of key v out]
    by (auto simp: claims_ok_def js_ok_set)
  with 2 show ?case by (auto simp: not_le)
qed simp

lemma sanitizeCustomClaims_ok: "claims_ok (sanitizeCustomClaims input)"
  by (auto simp: sanitizeCustomClaims_def claims_ok_def [of "[]"] intro!: claim_entries_ok split: json.split)

text \<open>The claims of an access token; \<open>jwt\<close> signs them, and needs a secret of 32 characters.\<close>

record access_claims =
  acl_sub :: string
  acl_email :: string
  acl_projectId :: string
  acl_sessionId :: string
  acl_role :: string
  acl_issuer :: string
  acl_audience :: string
  acl_ttlSeconds :: int
  acl_custom :: "(string, json) jsmap"

record token_options =
  to_jwtSecret :: string
  to_issuer :: string
  to_projectId :: string
  to_accessTtlSeconds :: int

definition signCustomerAccessToken :: "(string \<Rightarrow> access_claims \<Rightarrow> string) \<Rightarrow> string \<Rightarrow> string \<Rightarrow> string \<Rightarrow> string \<Rightarrow>
    token_options \<Rightarrow> json \<Rightarrow> string auth" where
  "signCustomerAccessToken jwt sub email sessionId role opts custom =
     (if length (to_jwtSecret opts) < 32 then Inl (AuthBase WEAK_SECRET)
      else Inr (jwt (to_jwtSecret opts) \<lparr>acl_sub = sub, acl_email = email, acl_projectId = to_projectId opts,
        acl_sessionId = sessionId, acl_role = role, acl_issuer = to_issuer opts, acl_audience = to_projectId opts,
        acl_ttlSeconds = to_accessTtlSeconds opts, acl_custom = sanitizeCustomClaims custom\<rparr>))"

end
