(* ===== verification/AuthCodes.thy ===== *)
theory AuthCodes
  imports AuthPrimitives
begin

text \<open>
  What expires: the in-memory cache (\<open>packages/cache/src/index.ts\<close>), one-time passcodes over their store
  (\<open>packages/auth/src/otp.ts\<close>), phone numbers (\<open>sms.ts\<close>) and the denylist of revoked sessions (\<open>index.ts\<close>).

  A stored record is kept as the value \<open>JSON.parse\<close> gives back for it.  Arguments: \<open>sha\<close>, the digits \<open>randomInt\<close>
  draws, \<open>jwt_verify\<close> (the token library at a time) and \<open>claims_parse\<close> (the schema library).
\<close>

section \<open>Entries that expire\<close>

record 'v cache_entry =
  ce_value :: 'v
  ce_expiresAt :: instant

type_synonym 'v expiring = "(string, 'v cache_entry) jsmap"

text \<open>What both stores promise, and what follows for whoever reads later.\<close>

locale expiring_store =
  fixes peek :: "instant \<Rightarrow> string \<Rightarrow> 'm \<Rightarrow> 'v option \<times> 'm"
    and put :: "instant \<Rightarrow> string \<Rightarrow> 'v \<Rightarrow> int \<Rightarrow> 'm \<Rightarrow> 'm"
    and remove :: "string \<Rightarrow> 'm \<Rightarrow> 'm"
  assumes peek_put: "fst (peek now k (put t j v ttl m)) =
      (if k = j then if now \<le> t + ttl * 1000 then Some v else None else fst (peek now k m))"
    and peek_remove: "fst (peek now k (remove j m)) = (if k = j then None else fst (peek now k m))"
    and peek_peek: "fst (peek now k (snd (peek t j m))) =
      (if k = j \<and> fst (peek t j m) = None then None else fst (peek now k m))"
    and peek_later: "fst (peek now k m) = Some v \<Longrightarrow> t \<le> now \<Longrightarrow> fst (peek t k m) = Some v"
begin

lemma gone_stays_gone: "fst (peek t k m) = None \<Longrightarrow> t \<le> now \<Longrightarrow> fst (peek now k m) = None"
proof (cases "fst (peek now k m)")
  case (Some v)
  assume "fst (peek t k m) = None" "t \<le> now"
  with peek_later [OF Some, of t] show ?thesis by simp
qed simp

lemma peek_after_removal: "fst (peek now k (remove k m)) = None"
  by (simp add: peek_remove)

lemma peek_within: "now \<le> t + ttl * 1000 \<Longrightarrow> fst (peek now k (put t k v ttl m)) = Some v"
  by (simp add: peek_put)

lemma peek_keeps: "fst (peek now k m) = Some v \<Longrightarrow> t \<le> now \<Longrightarrow> fst (peek now k (snd (peek t j m))) = Some v"
  using peek_later [of now k m v t] by (auto simp: peek_peek)

end

section \<open>The in-memory cache (cache/src/index.ts)\<close>

definition cache_read :: "instant \<Rightarrow> string \<Rightarrow> 'v expiring \<Rightarrow> 'v option \<times> 'v expiring" where
  "cache_read now key m = (case js_get m key of None \<Rightarrow> (None, m)
     | Some e \<Rightarrow> if now > ce_expiresAt e then (None, js_delete key m) else (Some (ce_value e), m))"

definition cache_set :: "instant \<Rightarrow> string \<Rightarrow> 'v \<Rightarrow> int \<Rightarrow> 'v expiring \<Rightarrow> 'v expiring" where
  "cache_set now key v ttl m = js_set key \<lparr>ce_value = v, ce_expiresAt = now + ttl * 1000\<rparr> m"

definition cache_del :: "string \<Rightarrow> 'v expiring \<Rightarrow> 'v expiring" where
  "cache_del key m = js_delete key m"

text \<open>\<open>incr\<close> on a counter: the stored text is the decimal numeral of a number.\<close>

definition cache_incr :: "instant \<Rightarrow> string \<Rightarrow> int \<Rightarrow> nat expiring \<Rightarrow> nat \<times> nat expiring" where
  "cache_incr now key ttl m =
     (let (v, m') = cache_read now key m;
          current = (case v of None \<Rightarrow> 0 | Some n \<Rightarrow> n) + 1 in
      (current, js_set key \<lparr>ce_value = current, ce_expiresAt = now + ttl * 1000\<rparr> m'))"

interpretation cache: expiring_store cache_read cache_set cache_del
  by unfold_locales (auto simp: cache_read_def cache_set_def cache_del_def split: option.splits if_splits)

section \<open>The passcode store (otp.ts)\<close>

datatype otp_purpose = OtpLogin | OtpVerify | OtpReset | OtpMfa | OtpPhone

definition purpose_text :: "otp_purpose \<Rightarrow> string" where
  "purpose_text p = (case p of OtpLogin \<Rightarrow> ''login'' | OtpVerify \<Rightarrow> ''verify'' | OtpReset \<Rightarrow> ''reset''
     | OtpMfa \<Rightarrow> ''mfa'' | OtpPhone \<Rightarrow> ''phone'')"

record otp_record =
  otp_key :: string
  otp_codeHash :: string
  otp_purpose_of :: otp_purpose
  otp_attempts :: int
  otp_createdAt :: instant
  otp_expiresAt :: instant
  otp_consumedAt :: "instant option"

type_synonym otp_store = "otp_record expiring"

definition otp_get :: "instant \<Rightarrow> string \<Rightarrow> otp_store \<Rightarrow> otp_record option \<times> otp_store" where
  "otp_get now key m = (case js_get m key of None \<Rightarrow> (None, js_delete key m)
     | Some e \<Rightarrow> if now > ce_expiresAt e then (None, js_delete key m) else (Some (ce_value e), m))"

definition otp_set :: "instant \<Rightarrow> string \<Rightarrow> otp_record \<Rightarrow> int \<Rightarrow> otp_store \<Rightarrow> otp_store" where
  "otp_set now key v ttlSeconds m = js_set key \<lparr>ce_value = v, ce_expiresAt = now + ttlSeconds * 1000\<rparr> m"

definition otp_del :: "string \<Rightarrow> otp_store \<Rightarrow> otp_store" where
  "otp_del key m = js_delete key m"

interpretation otp: expiring_store otp_get otp_set otp_del
  by unfold_locales (auto simp: otp_get_def otp_set_def otp_del_def split: option.splits if_splits)

section \<open>The passcode service (otp.ts)\<close>

definition hashOtpCode :: "(string \<Rightarrow> string) \<Rightarrow> string \<Rightarrow> string" where
  "hashOtpCode sha c = sha (''otp:'' @ c)"

record otp_options =
  oo_codeLength :: "int option"
  oo_ttlSeconds :: "int option"
  oo_maxAttempts :: "int option"

record otp_config =
  oc_codeLength :: int
  oc_ttlSeconds :: int
  oc_maxAttempts :: int

definition otp_service :: "otp_options \<Rightarrow> otp_config" where
  "otp_service opts = \<lparr>oc_codeLength = min (max (over_value (oo_codeLength opts) 6) 4) 10,
     oc_ttlSeconds = over_value (oo_ttlSeconds opts) 600, oc_maxAttempts = over_value (oo_maxAttempts opts) 5\<rparr>"

definition recordKey :: "string \<Rightarrow> string \<Rightarrow> otp_purpose \<Rightarrow> string" where
  "recordKey namespace identity purpose =
     ''otp:'' @ namespace @ '':'' @ purpose_text purpose @ '':'' @ to_lower identity"

definition otp_issue :: "(string \<Rightarrow> string) \<Rightarrow> otp_config \<Rightarrow> (nat \<Rightarrow> nat) \<Rightarrow> instant \<Rightarrow> string \<Rightarrow> string \<Rightarrow> otp_purpose \<Rightarrow>
    otp_store \<Rightarrow> (string \<times> instant) \<times> otp_store" where
  "otp_issue sha cfg randomInt now namespace identity purpose m =
     (let codeText = concat (map (\<lambda>i. dec (randomInt i)) [0..<nat (oc_codeLength cfg)]);
          r = \<lparr>otp_key = recordKey namespace identity purpose, otp_codeHash = hashOtpCode sha codeText,
               otp_purpose_of = purpose, otp_attempts = 0, otp_createdAt = now,
               otp_expiresAt = now + oc_ttlSeconds cfg * 1000, otp_consumedAt = None\<rparr> in
      ((codeText, otp_expiresAt r), otp_set now (otp_key r) r (oc_ttlSeconds cfg) m))"

definition ceil_seconds :: "int \<Rightarrow> int" where
  "ceil_seconds ms = - ((- ms) div 1000)"

definition otp_verify :: "(string \<Rightarrow> string) \<Rightarrow> otp_config \<Rightarrow> instant \<Rightarrow> string \<Rightarrow> string \<Rightarrow> otp_purpose \<Rightarrow> string \<Rightarrow>
    otp_store \<Rightarrow> bool auth \<times> otp_store" where
  "otp_verify sha cfg now namespace identity purpose c m =
     (let key = recordKey namespace identity purpose; (raw, m') = otp_get now key m in
      case raw of None \<Rightarrow> (Inl (AuthFail OTP_EXPIRED 410), m')
      | Some r \<Rightarrow>
          if otp_consumedAt r \<noteq> None then (Inl (AuthFail OTP_CONSUMED 410), otp_del key m')
          else if otp_attempts r \<ge> oc_maxAttempts cfg then (Inl (AuthFail OTP_LOCKED 429), otp_del key m')
          else if otp_codeHash r \<noteq> hashOtpCode sha (js_trim c) then
            (let r' = r\<lparr>otp_attempts := otp_attempts r + 1\<rparr>;
                 ttl = max 1 (ceil_seconds (otp_expiresAt r - now)) in
             (Inl (AuthFail OTP_INVALID 401), otp_set now key r' ttl m'))
          else (Inr True, otp_del key m'))"

lemma ceil_seconds_bounds: "ms \<le> ceil_seconds ms * 1000" "ceil_seconds ms * 1000 < ms + 1000"
  by (auto simp: ceil_seconds_def)

text \<open>What one verification does to the record under its key.\<close>

lemma otp_verify_cases:
  assumes "otp_verify sha cfg now ns ident p c m = (res, m')" and "key = recordKey ns ident p"
  obtains
    (expired) "res = Inl (AuthFail OTP_EXPIRED 410)" "js_get m' key = None"
  | (ended) r e where "js_get m key = Some e" "ce_value e = r" "now \<le> ce_expiresAt e" "js_get m' key = None"
      "res = Inl (AuthFail OTP_CONSUMED 410) \<or> res = Inl (AuthFail OTP_LOCKED 429)"
  | (wrong) r e where "js_get m key = Some e" "ce_value e = r" "now \<le> ce_expiresAt e"
      "otp_attempts r < oc_maxAttempts cfg" "otp_consumedAt r = None" "otp_codeHash r \<noteq> hashOtpCode sha (js_trim c)"
      "res = Inl (AuthFail OTP_INVALID 401)"
      "js_get m' key = Some \<lparr>ce_value = r\<lparr>otp_attempts := otp_attempts r + 1\<rparr>,
         ce_expiresAt = now + max 1 (ceil_seconds (otp_expiresAt r - now)) * 1000\<rparr>"
  | (right) r e where "js_get m key = Some e" "ce_value e = r" "now \<le> ce_expiresAt e"
      "otp_attempts r < oc_maxAttempts cfg" "otp_consumedAt r = None" "otp_codeHash r = hashOtpCode sha (js_trim c)"
      "res = Inr True" "js_get m' key = None"
  using assms
  by (auto simp: otp_verify_def otp_get_def otp_set_def otp_del_def Let_def not_less not_le split: option.splits if_splits)

lemma otp_verify_frame:
  "k \<noteq> recordKey ns ident p \<Longrightarrow> js_get (snd (otp_verify sha cfg now ns ident p c m)) k = js_get m k"
  by (auto simp: otp_verify_def otp_get_def otp_set_def otp_del_def Let_def split: option.splits if_splits)

section \<open>Guesses against one code\<close>

text \<open>A run of verifications of the same identity, with no new code issued in between.\<close>

fun otp_guesses :: "(string \<Rightarrow> string) \<Rightarrow> otp_config \<Rightarrow> string \<Rightarrow> string \<Rightarrow> otp_purpose \<Rightarrow> (instant \<times> string) list \<Rightarrow>
    otp_store \<Rightarrow> bool auth list \<times> otp_store" where
  "otp_guesses sha cfg ns ident p [] m = ([], m)"
| "otp_guesses sha cfg ns ident p ((now, c) # gs) m =
     (let (r, m') = otp_verify sha cfg now ns ident p c m; (rs, m'') = otp_guesses sha cfg ns ident p gs m' in
      (r # rs, m''))"

text \<open>An answer that tells something about the code: right or wrong.\<close>

definition tells :: "bool auth \<Rightarrow> bool" where
  "tells r \<longleftrightarrow> (case r of Inr _ \<Rightarrow> True | Inl e \<Rightarrow> e = AuthFail OTP_INVALID 401)"

definition guesses_left :: "otp_config \<Rightarrow> string \<Rightarrow> otp_store \<Rightarrow> int" where
  "guesses_left cfg key m =
     (case js_get m key of None \<Rightarrow> 0 | Some e \<Rightarrow> max 0 (oc_maxAttempts cfg - otp_attempts (ce_value e)))"

lemma guesses_decrease:
  assumes "otp_verify sha cfg now ns ident p c m = (r, m')" and "key = recordKey ns ident p"
  shows "guesses_left cfg key m' + (if tells r then 1 else 0) \<le> guesses_left cfg key m"
  using assms by (cases rule: otp_verify_cases) (auto simp: guesses_left_def tells_def split: option.splits)

lemma guesses_bounded:
  "otp_guesses sha cfg ns ident p gs m = (rs, m') \<Longrightarrow>
   int (length (filter tells rs)) + guesses_left cfg (recordKey ns ident p) m' \<le> guesses_left cfg (recordKey ns ident p) m"
proof (induction gs arbitrary: m rs)
  case (Cons g gs)
  obtain now c where g: "g = (now, c)" by (cases g)
  obtain r m1 where v: "otp_verify sha cfg now ns ident p c m = (r, m1)" by fastforce
  obtain rs' where rs: "otp_guesses sha cfg ns ident p gs m1 = (rs', m')" "rs = r # rs'"
    using Cons.prems v by (auto simp: g split: prod.splits)
  show ?case using Cons.IH [OF rs(1)] guesses_decrease [OF v HOL.refl] by (auto simp: rs(2) split: if_splits)
qed simp

lemma gone_tells_nothing:
  assumes "js_get m (recordKey ns ident p) = None"
  shows "filter tells (fst (otp_guesses sha cfg ns ident p gs m)) = []"
proof -
  obtain rs m' where g: "otp_guesses sha cfg ns ident p gs m = (rs, m')" by fastforce
  have "int (length (filter tells rs)) + guesses_left cfg (recordKey ns ident p) m' \<le> 0"
    using guesses_bounded [OF g] assms by (simp add: guesses_left_def)
  moreover have "0 \<le> guesses_left cfg (recordKey ns ident p) m'"
    by (simp add: guesses_left_def split: option.split)
  ultimately have "int (length (filter tells rs)) \<le> 0" by linarith
  then show ?thesis by (simp add: g)
qed

text \<open>A code lives as long as it is meant to, and a second longer for each wrong guess.\<close>

definition otp_timely :: "string \<Rightarrow> instant \<Rightarrow> otp_store \<Rightarrow> bool" where
  "otp_timely key due m \<longleftrightarrow> (case js_get m key of None \<Rightarrow> True
     | Some e \<Rightarrow> otp_expiresAt (ce_value e) = due \<and> 0 \<le> otp_attempts (ce_value e) \<and>
         ce_expiresAt e \<le> due + 1000 * otp_attempts (ce_value e))"

lemma otp_timely_verify:
  assumes "otp_verify sha cfg now ns ident p c m = (r, m')" and "key = recordKey ns ident p" and "otp_timely key due m"
  shows "otp_timely key due m'" and "r = Inr True \<Longrightarrow> now < due + 1000 * max 1 (oc_maxAttempts cfg)"
proof -
  show "otp_timely key due m'"
    using assms(1,2)
  proof (cases rule: otp_verify_cases)
    case (wrong q e)
    then show ?thesis using assms(3) ceil_seconds_bounds [of "otp_expiresAt q - now"]
      by (auto simp: otp_timely_def max_def)
  qed (auto simp: otp_timely_def)
  show "now < due + 1000 * max 1 (oc_maxAttempts cfg)" if "r = Inr True"
    using assms(1,2)
  proof (cases rule: otp_verify_cases)
    case (right q e)
    then show ?thesis using assms(3) by (auto simp: otp_timely_def max_def)
  qed (use that in auto)
qed

lemma otp_timely_guesses:
  "otp_timely (recordKey ns ident p) due m \<Longrightarrow>
   otp_timely (recordKey ns ident p) due (snd (otp_guesses sha cfg ns ident p gs m))"
proof (induction gs arbitrary: m)
  case (Cons g gs)
  obtain now c where g: "g = (now, c)" by (cases g)
  obtain r m1 where v: "otp_verify sha cfg now ns ident p c m = (r, m1)" by fastforce
  from Cons.IH [OF otp_timely_verify(1) [OF v HOL.refl Cons.prems]] show ?case
    by (simp add: g v case_prod_beta)
qed simp

lemma no_guess_succeeds:
  "js_get m (recordKey ns ident p) = None \<Longrightarrow> Inr True \<notin> set (fst (otp_guesses sha cfg ns ident p gs m))"
  using gone_tells_nothing [of m ns ident p sha cfg gs] by (auto simp: filter_empty_conv tells_def)

lemma one_success:
  "length (filter (\<lambda>r. r = Inr True) (fst (otp_guesses sha cfg ns ident p gs m))) \<le> 1"
proof (induction gs arbitrary: m)
  case (Cons g gs)
  obtain now c where g: "g = (now, c)" by (cases g)
  obtain r m1 where v: "otp_verify sha cfg now ns ident p c m = (r, m1)" by fastforce
  show ?case
  proof (cases "r = Inr True")
    case True
    have "js_get m1 (recordKey ns ident p) = None"
      using v HOL.refl by (cases rule: otp_verify_cases) (use True in auto)
    from no_guess_succeeds [OF this, of sha cfg gs] have
      "filter (\<lambda>r. r = Inr True) (fst (otp_guesses sha cfg ns ident p gs m1)) = []"
      by (auto simp: filter_empty_conv)
    then show ?thesis by (simp add: g v True case_prod_beta)
  next
    case False
    then show ?thesis using Cons.IH [of m1] by (simp add: g v case_prod_beta)
  qed
qed simp

definition otp_code :: "otp_config \<Rightarrow> (nat \<Rightarrow> nat) \<Rightarrow> string" where
  "otp_code cfg randomInt = concat (map (\<lambda>i. dec (randomInt i)) [0..<nat (oc_codeLength cfg)])"

lemma otp_issue_simp:
  "otp_issue sha cfg randomInt t ns ident p m =
     ((otp_code cfg randomInt, t + oc_ttlSeconds cfg * 1000),
      js_set (recordKey ns ident p)
        \<lparr>ce_value = \<lparr>otp_key = recordKey ns ident p, otp_codeHash = hashOtpCode sha (otp_code cfg randomInt),
           otp_purpose_of = p, otp_attempts = 0, otp_createdAt = t, otp_expiresAt = t + oc_ttlSeconds cfg * 1000,
           otp_consumedAt = None\<rparr>, ce_expiresAt = t + oc_ttlSeconds cfg * 1000\<rparr> m)"
  by (simp add: otp_issue_def otp_set_def otp_code_def Let_def)

lemma trim_digits: "list_all is_digit s \<Longrightarrow> js_trim s = s"
proof (rule js_trim_id)
  assume d: "list_all is_digit s"
  have "\<not> is_space c" if "c \<in> set s" for c
    using d that by (auto simp: list_all_iff is_digit_def is_space_def)
  then show "trimmed s" by (auto simp: trimmed_def)
qed

lemma otp_code_digits: "list_all is_digit (otp_code cfg randomInt)"
  using dec_digits by (auto simp: otp_code_def list_all_iff)

lemma issued_code_accepted:
  assumes "otp_issue sha cfg randomInt t ns ident p m = ((c, due), m1)" and "0 < oc_maxAttempts cfg"
    and "now \<le> t + oc_ttlSeconds cfg * 1000"
  shows "fst (otp_verify sha cfg now ns ident p c m1) = Inr True"
  using assms by (auto simp: otp_issue_simp otp_verify_def otp_get_def Let_def trim_digits [OF otp_code_digits])

text \<open>
  C15. A one-time code, from its issue on, whatever is guessed and whenever: right away the code itself is accepted; at
  most the configured number of guesses are answered with right or wrong; at most one is accepted; and a guess accepted
  after any sequence of others comes before the code is due plus one second for each allowed attempt.
\<close>

theorem otp_code_lifecycle:
  assumes issue: "otp_issue sha cfg randomInt t ns ident p m = ((c, due), m1)" and mx: "0 < oc_maxAttempts cfg"
    and guess: "otp_guesses sha cfg ns ident p gs m1 = (rs, m2)"
  shows "(now \<le> due \<longrightarrow> fst (otp_verify sha cfg now ns ident p c m1) = Inr True) \<and>
    int (length (filter tells rs)) \<le> oc_maxAttempts cfg \<and>
    length (filter (\<lambda>r. r = Inr True) rs) \<le> 1 \<and>
    (fst (otp_verify sha cfg now ns ident p d m2) = Inr True \<longrightarrow> now < due + 1000 * oc_maxAttempts cfg)"
proof (intro conjI impI)
  have due: "due = t + oc_ttlSeconds cfg * 1000" using issue by (simp add: otp_issue_simp)
  show "fst (otp_verify sha cfg now ns ident p c m1) = Inr True" if "now \<le> due"
    using issued_code_accepted [OF issue mx] that due by simp
  have "guesses_left cfg (recordKey ns ident p) m1 = oc_maxAttempts cfg"
    using issue mx by (auto simp: otp_issue_simp guesses_left_def)
  moreover have "0 \<le> guesses_left cfg (recordKey ns ident p) m2"
    by (simp add: guesses_left_def split: option.split)
  ultimately show "int (length (filter tells rs)) \<le> oc_maxAttempts cfg"
    using guesses_bounded [OF guess] by linarith
  show "length (filter (\<lambda>r. r = Inr True) rs) \<le> 1"
    using one_success [of sha cfg ns ident p gs m1] by (simp add: guess)
  have "otp_timely (recordKey ns ident p) due m1"
    using issue by (auto simp: otp_issue_simp otp_timely_def)
  then have m2: "otp_timely (recordKey ns ident p) due m2"
    using otp_timely_guesses [of ns ident p due m1 sha cfg gs] by (simp add: guess)
  show "now < due + 1000 * oc_maxAttempts cfg" if "fst (otp_verify sha cfg now ns ident p d m2) = Inr True"
  proof -
    have "otp_verify sha cfg now ns ident p d m2 = (Inr True, snd (otp_verify sha cfg now ns ident p d m2))"
      using that by (simp add: prod_eq_iff)
    from otp_timely_verify(2) [OF this HOL.refl m2] mx show ?thesis by simp
  qed
qed

text \<open>An instance: the code is four digits, a wrong guess just before the end keeps it alive past its time.\<close>

definition sample_otp :: otp_config where
  "sample_otp = otp_service \<lparr>oo_codeLength = Some 4, oo_ttlSeconds = Some 60, oo_maxAttempts = Some 2\<rparr>"

theorem otp_code_lifecycle_witness:
  "(let ((c, due), m1) = otp_issue id sample_otp (\<lambda>i. i) 0 ''p'' ''A'' OtpLogin [];
        (rs, m2) = otp_guesses id sample_otp ''p'' ''a'' OtpLogin [(59500, ''9'')] m1 in
    c = ''0123'' \<and> due = 60000 \<and> rs = [Inl (AuthFail OTP_INVALID 401)] \<and> int (length (filter tells rs)) \<le> 2 \<and>
    fst (otp_verify id sample_otp 60400 ''p'' ''a'' OtpLogin c m2) = Inr True)"
proof -
  let ?i = "otp_issue id sample_otp (\<lambda>i. i) 0 ''p'' ''A'' OtpLogin []"
  let ?g = "otp_guesses id sample_otp ''p'' ''a'' OtpLogin [(59500, ''9'')] (snd ?i)"
  have c: "fst ?i = (''0123'', 60000)" by code_simp
  have k: "recordKey ''p'' ''A'' OtpLogin = recordKey ''p'' ''a'' OtpLogin" by code_simp
  have i: "otp_issue id sample_otp (\<lambda>i. i) 0 ''p'' ''a'' OtpLogin [] = ((''0123'', 60000), snd ?i)"
    using c k by (simp add: otp_issue_simp prod_eq_iff)
  have g: "fst ?g = [Inl (AuthFail OTP_INVALID 401)]" by code_simp
  have r: "fst (otp_verify id sample_otp 60400 ''p'' ''a'' OtpLogin ''0123'' (snd ?g)) = Inr True" by code_simp
  have "0 < oc_maxAttempts sample_otp" and two: "oc_maxAttempts sample_otp = 2" by code_simp+
  from otp_code_lifecycle [OF i this(1) surjective_pairing [of ?g]] have "int (length (filter tells (fst ?g))) \<le> 2"
    by (simp only: two)
  then show ?thesis using c g r by (simp add: case_prod_beta Let_def)
qed

section \<open>Phone numbers (sms.ts)\<close>

text \<open>\<open>^\\+[1-9]\\d{6,14}$\<close> on the trimmed text.\<close>

definition isValidPhone :: "string \<Rightarrow> bool" where
  "isValidPhone to = (case js_trim to of
       pl # d # ds \<Rightarrow> pl = CHR ''+'' \<and> is_digit d \<and> d \<noteq> CHR ''0'' \<and>
         6 \<le> length ds \<and> length ds \<le> 14 \<and> list_all is_digit ds
     | _ \<Rightarrow> False)"

section \<open>Revoked sessions (index.ts)\<close>

record session_claims =
  sn_sub :: string
  sn_email :: string
  sn_org :: "string option"
  sn_jti :: "string option"

text \<open>What the token library gives back: the expiry claim, when it is a number, and the payload for the schema.\<close>

record jwt_payload =
  jp_exp :: "int option"
  jp_claims :: json

record session_options =
  so_jwtSecret :: string
  so_issuer :: "string option"

record session_libs =
  sl_sha :: "string \<Rightarrow> string"
  sl_verify :: "instant \<Rightarrow> string \<Rightarrow> string \<Rightarrow> string \<Rightarrow> jwt_payload option"
  sl_parse :: "json \<Rightarrow> session_claims option"

definition jwtVerify :: "session_libs \<Rightarrow> session_options \<Rightarrow> instant \<Rightarrow> string \<Rightarrow> jwt_payload option" where
  "jwtVerify libs opts now token =
     sl_verify libs now (so_jwtSecret opts) (over_value (so_issuer opts) ''cloudnivo'') token"

definition verifySession :: "session_libs \<Rightarrow> session_options \<Rightarrow> instant \<Rightarrow> string \<Rightarrow> session_claims auth" where
  "verifySession libs opts now token =
     (if length (so_jwtSecret opts) < 32 then Inl (AuthBase INVALID_SESSION)
      else case jwtVerify libs opts now token of None \<Rightarrow> Inl (AuthBase INVALID_SESSION)
      | Some payload \<Rightarrow> (case sl_parse libs (jp_claims payload) of
          None \<Rightarrow> Inl (AuthBase INVALID_SESSION) | Some claims \<Rightarrow> Inr claims))"

definition REVOKED_PREFIX :: string where "REVOKED_PREFIX = ''sess-revoked:''"

definition revocationKeys :: "(string \<Rightarrow> string) \<Rightarrow> string \<Rightarrow> string option \<Rightarrow> string list" where
  "revocationKeys sha token jti =
     (case jti of None \<Rightarrow> [] | Some j \<Rightarrow> if j = [] then [] else [REVOKED_PREFIX @ ''jti:'' @ j])
     @ [REVOKED_PREFIX @ ''tok:'' @ sha token]"

definition sessionTtlSeconds :: "session_libs \<Rightarrow> session_options \<Rightarrow> instant \<Rightarrow> string \<Rightarrow> int auth" where
  "sessionTtlSeconds libs opts now token =
     (if length (so_jwtSecret opts) < 32 then Inl (AuthBase WEAK_SECRET)
      else Inr (case jwtVerify libs opts now token of None \<Rightarrow> 1
        | Some payload \<Rightarrow> (let exp' = (case jp_exp payload of Some e \<Rightarrow> e | None \<Rightarrow> 0) in max 1 (exp' - now div 1000))))"

fun first_hit :: "instant \<Rightarrow> string list \<Rightarrow> string expiring \<Rightarrow> bool \<times> string expiring" where
  "first_hit now [] m = (False, m)"
| "first_hit now (k # ks) m = (case cache_read now k m of
     (Some _, m') \<Rightarrow> (True, m') | (None, m') \<Rightarrow> first_hit now ks m')"

definition verifyActiveSession :: "session_libs \<Rightarrow> session_options \<Rightarrow> instant \<Rightarrow> string \<Rightarrow> string expiring option \<Rightarrow>
    session_claims auth \<times> string expiring option" where
  "verifyActiveSession libs opts now token store =
     (case verifySession libs opts now token of
        Inl e \<Rightarrow> (Inl e, store)
      | Inr session \<Rightarrow> (case store of None \<Rightarrow> (Inr session, None)
          | Some m \<Rightarrow> (case first_hit now (revocationKeys (sl_sha libs) token (sn_jti session)) m of
              (True, m') \<Rightarrow> (Inl (AuthBase REVOKED_SESSION), Some m') | (False, m') \<Rightarrow> (Inr session, Some m'))))"

definition set_all :: "instant \<Rightarrow> int \<Rightarrow> string list \<Rightarrow> string expiring \<Rightarrow> string expiring" where
  "set_all now ttl keys m = fold (\<lambda>k. cache_set now k ''1'' ttl) keys m"

definition revokeSession :: "session_libs \<Rightarrow> session_options \<Rightarrow> instant \<Rightarrow> string \<Rightarrow> string expiring \<Rightarrow>
    (bool \<times> string option) auth \<times> string expiring" where
  "revokeSession libs opts now token m =
     (case sessionTtlSeconds libs opts now token of
        Inl e \<Rightarrow> (Inl e, m)
      | Inr ttl \<Rightarrow>
          (let jti = (case verifySession libs opts now token of Inr session \<Rightarrow> sn_jti session | Inl _ \<Rightarrow> None) in
           (Inr (True, jti), set_all now ttl (revocationKeys (sl_sha libs) token jti) m)))"

text \<open>Requests of a server over time: a session is revoked, or presented.\<close>

datatype session_request = RevokeToken string | PresentToken string

definition serve :: "session_libs \<Rightarrow> session_options \<Rightarrow> instant \<times> session_request \<Rightarrow> string expiring \<Rightarrow> string expiring" where
  "serve libs opts r m = (case r of (now, RevokeToken tok) \<Rightarrow> snd (revokeSession libs opts now tok m)
     | (now, PresentToken tok) \<Rightarrow> over_value (snd (verifyActiveSession libs opts now tok (Some m))) m)"

text \<open>
  What the token library documents: it accepts a token only before its expiry claim, in whole seconds, and what it
  accepts now it has accepted before (the sessions carry no \<open>nbf\<close>).
\<close>

definition expiry_respected :: "session_libs \<Rightarrow> bool" where
  "expiry_respected libs \<longleftrightarrow> (\<forall>now s i tok p. sl_verify libs now s i tok = Some p \<longrightarrow>
     (\<exists>e. jp_exp p = Some e \<and> now div 1000 < e) \<and> (\<forall>t\<le>now. sl_verify libs t s i tok = Some p))"

lemma accepted_expiry:
  "expiry_respected libs \<Longrightarrow> jwtVerify libs opts now tok = Some p \<Longrightarrow> \<exists>e. jp_exp p = Some e \<and> now div 1000 < e"
  unfolding expiry_respected_def jwtVerify_def by blast

lemma accepted_before:
  "expiry_respected libs \<Longrightarrow> jwtVerify libs opts now tok = Some p \<Longrightarrow> t \<le> now \<Longrightarrow> jwtVerify libs opts t tok = Some p"
  unfolding expiry_respected_def jwtVerify_def by blast

definition token_key :: "session_libs \<Rightarrow> string \<Rightarrow> string" where
  "token_key libs token = REVOKED_PREFIX @ ''tok:'' @ sl_sha libs token"

definition denied :: "session_libs \<Rightarrow> session_options \<Rightarrow> string \<Rightarrow> instant \<Rightarrow> string expiring \<Rightarrow> bool" where
  "denied libs opts token now m \<longleftrightarrow> (\<forall>t\<ge>now. jwtVerify libs opts t token \<noteq> None \<longrightarrow>
     (\<exists>e. js_get m (token_key libs token) = Some e \<and> t \<le> ce_expiresAt e))"

lemma denied_mono: "denied libs opts token now m \<Longrightarrow> now \<le> t \<Longrightarrow> denied libs opts token t m"
  by (auto simp: denied_def)

lemma cache_read_denied: "denied libs opts token now m \<Longrightarrow> denied libs opts token now (snd (cache_read now k m))"
  by (fastforce simp: denied_def cache_read_def split: option.splits)

lemma first_hit_denied: "denied libs opts token now m \<Longrightarrow> denied libs opts token now (snd (first_hit now ks m))"
proof (induction ks arbitrary: m)
  case (Cons k ks)
  from cache_read_denied [OF Cons.prems, of k] Cons.IH show ?case
    by (auto split: option.split prod.split)
qed simp

lemma present_denied:
  assumes "denied libs opts token now m"
  shows "denied libs opts token now (serve libs opts (now, PresentToken tok) m)"
proof (cases "verifySession libs opts now tok")
  case (Inr session)
  obtain b m' where f: "first_hit now (revocationKeys (sl_sha libs) tok (sn_jti session)) m = (b, m')" by fastforce
  with first_hit_denied [OF assms, of "revocationKeys (sl_sha libs) tok (sn_jti session)"]
  have "denied libs opts token now m'" by simp
  then show ?thesis using Inr f by (cases b) (simp_all add: serve_def verifyActiveSession_def over_value_def)
qed (simp add: serve_def verifyActiveSession_def over_value_def assms)

lemma set_all_get:
  "js_get (set_all now ttl keys m) k =
     (if k \<in> set keys then Some \<lparr>ce_value = ''1'', ce_expiresAt = now + ttl * 1000\<rparr> else js_get m k)"
  unfolding set_all_def by (induction keys arbitrary: m) (auto simp: cache_set_def)

lemma token_key_in: "token_key libs token \<in> set (revocationKeys (sl_sha libs) tok jti) \<longleftrightarrow> sl_sha libs token = sl_sha libs tok"
  by (auto simp: token_key_def revocationKeys_def split: option.split)

lemma revoke_denied_self:
  assumes law: "expiry_respected libs" and ttl: "sessionTtlSeconds libs opts now token = Inr ttl"
    and k: "token_key libs token \<in> set keys"
  shows "denied libs opts token now (set_all now ttl keys m)"
  unfolding denied_def
proof (intro allI impI)
  fix t assume t: "now \<le> t" "jwtVerify libs opts t token \<noteq> None"
  then obtain p where p: "jwtVerify libs opts t token = Some p" by auto
  obtain e where e: "jp_exp p = Some e" "t div 1000 < e" using accepted_expiry [OF law p] by auto
  have before: "jwtVerify libs opts now token = Some p" by (rule accepted_before [OF law p t(1)])
  have "e - now div 1000 \<le> ttl" using ttl before e(1) by (auto simp: sessionTtlSeconds_def Let_def split: if_splits)
  moreover have "t < (t div 1000 + 1) * 1000"
    using div_mult_mod_eq [of t 1000] pos_mod_bound [of 1000 t] by simp
  moreover have "(now div 1000) * 1000 \<le> now"
    using div_mult_mod_eq [of now 1000] pos_mod_sign [of 1000 now] by simp
  ultimately have "t \<le> now + ttl * 1000" using e(2) by linarith
  then show "\<exists>en. js_get (set_all now ttl keys m) (token_key libs token) = Some en \<and> t \<le> ce_expiresAt en"
    using k by (simp add: set_all_get)
qed

lemma revoke_denied:
  assumes law: "expiry_respected libs" and d: "denied libs opts token now m"
    and tok: "sl_sha libs tok = sl_sha libs token \<Longrightarrow> tok = token"
  shows "denied libs opts token now (serve libs opts (now, RevokeToken tok) m)"
proof (cases "sessionTtlSeconds libs opts now tok")
  case (Inr ttl)
  define keys where "keys = revocationKeys (sl_sha libs) tok
    (case verifySession libs opts now tok of Inr session \<Rightarrow> sn_jti session | Inl _ \<Rightarrow> None)"
  have s: "serve libs opts (now, RevokeToken tok) m = set_all now ttl keys m"
    using Inr by (simp add: serve_def revokeSession_def keys_def Let_def)
  show ?thesis
  proof (cases "sl_sha libs tok = sl_sha libs token")
    case True
    then have "token_key libs token \<in> set keys" by (simp add: keys_def token_key_in)
    from revoke_denied_self [OF law _ this] Inr tok [OF True] have "denied libs opts token now (set_all now ttl keys m)"
      by simp
    then show ?thesis by (simp only: s)
  next
    case False
    then have "token_key libs token \<notin> set keys" by (simp add: keys_def token_key_in)
    then show ?thesis using d by (simp add: s denied_def set_all_get)
  qed
qed (simp add: serve_def revokeSession_def d)

definition serve_all :: "session_libs \<Rightarrow> session_options \<Rightarrow> (instant \<times> session_request) list \<Rightarrow> string expiring \<Rightarrow> string expiring" where
  "serve_all libs opts rs m = fold (serve libs opts) rs m"

lemma serve_all_denied:
  assumes "expiry_respected libs" and "denied libs opts token now m" and "sorted (now # map fst rs)"
    and "\<forall>tok. RevokeToken tok \<in> snd ` set rs \<longrightarrow> sl_sha libs tok = sl_sha libs token \<longrightarrow> tok = token"
  shows "denied libs opts token (last (now # map fst rs)) (serve_all libs opts rs m)"
  using assms(2-4)
proof (induction rs arbitrary: now m)
  case (Cons r rs)
  obtain t q where r: "r = (t, q)" by (cases r)
  have t: "denied libs opts token t m" using Cons.prems(1,2) by (auto simp: r intro: denied_mono)
  have "denied libs opts token t (serve libs opts r m)"
  proof (cases q)
    case (RevokeToken tok)
    then show ?thesis using revoke_denied [OF assms(1) t, of tok] Cons.prems(3) by (force simp: r)
  next
    case (PresentToken tok)
    then show ?thesis using present_denied [OF t] by (simp add: r)
  qed
  from Cons.IH [OF this] Cons.prems(2,3) show ?case by (auto simp: r serve_all_def)
qed (simp add: serve_all_def)

lemma first_hit_found:
  "fst (cache_read now j m) = Some v \<Longrightarrow> j \<in> set ks \<Longrightarrow> fst (first_hit now ks m)"
proof (induction ks arbitrary: m)
  case (Cons k ks)
  have later: "fst (cache_read now j (snd (cache_read now k m))) = Some v"
    by (rule cache.peek_keeps [OF Cons.prems(1)]) simp
  show ?case
  proof (cases "fst (cache_read now k m)")
    case None
    then have "k \<noteq> j" using Cons.prems(1) by auto
    with Cons.IH [OF later] Cons.prems(2) None show ?thesis by (auto split: prod.split)
  qed (auto split: prod.split)
qed simp

lemma denied_refused:
  assumes "denied libs opts token now m"
  shows "\<exists>e. fst (verifyActiveSession libs opts now token (Some m)) = Inl e"
proof (cases "verifySession libs opts now token")
  case (Inr session)
  then have "jwtVerify libs opts now token \<noteq> None" by (auto simp: verifySession_def split: if_splits option.splits)
  with assms obtain e where e: "js_get m (token_key libs token) = Some e" "now \<le> ce_expiresAt e"
    by (auto simp: denied_def)
  then have "fst (cache_read now (token_key libs token) m) = Some (ce_value e)" by (simp add: cache_read_def)
  from first_hit_found [OF this] have "fst (first_hit now (revocationKeys (sl_sha libs) token (sn_jti session)) m)"
    by (simp add: token_key_in)
  then show ?thesis using Inr by (auto simp: verifyActiveSession_def split: prod.splits bool.splits)
qed (simp add: verifyActiveSession_def)

text \<open>
  C10. A revoked session stays revoked.  Once a token has been revoked, whatever tokens are revoked and presented
  afterwards, presenting it is refused at every later time, for as long as the token itself would be accepted.
\<close>

theorem revoked_session_stays_dead:
  assumes "expiry_respected libs"
    and "\<forall>tok. RevokeToken tok \<in> snd ` set rs \<longrightarrow> sl_sha libs tok = sl_sha libs token \<longrightarrow> tok = token"
    and "revokeSession libs opts t0 token m = (Inr r, m1)"
    and "sorted (t0 # map fst rs @ [now])"
  shows "\<exists>e. fst (verifyActiveSession libs opts now token (Some (serve_all libs opts rs m1))) = Inl e"
proof -
  obtain ttl where ttl: "sessionTtlSeconds libs opts t0 token = Inr ttl"
    using assms(3) by (auto simp: revokeSession_def split: sum.splits)
  have m1: "m1 = set_all t0 ttl (revocationKeys (sl_sha libs) token
      (case verifySession libs opts t0 token of Inr session \<Rightarrow> sn_jti session | Inl _ \<Rightarrow> None)) m"
    using assms(3) ttl by (simp add: revokeSession_def Let_def)
  have "denied libs opts token t0 m1"
    unfolding m1 by (rule revoke_denied_self [OF assms(1) ttl]) (simp add: token_key_in)
  from serve_all_denied [OF assms(1) this _ assms(2)] assms(4)
  have "denied libs opts token (last (t0 # map fst rs)) (serve_all libs opts rs m1)"
    by (auto simp: sorted_append)
  moreover have "last (t0 # map fst rs) \<le> now"
    using assms(4) last_in_set [of "t0 # map fst rs"] by (auto simp: sorted_append)
  ultimately show ?thesis by (blast intro: denied_mono denied_refused)
qed

definition sample_libs :: session_libs where
  "sample_libs = \<lparr>sl_sha = id,
     sl_verify = (\<lambda>now s i tok. if now div 1000 < 3600 then Some \<lparr>jp_exp = Some 3600, jp_claims = JNull\<rparr> else None),
     sl_parse = (\<lambda>_. Some \<lparr>sn_sub = ''u'', sn_email = ''e'', sn_org = None, sn_jti = Some ''j''\<rparr>)\<rparr>"

definition sample_session :: session_options where
  "sample_session = \<lparr>so_jwtSecret = replicate 32 (CHR ''s''), so_issuer = None\<rparr>"

theorem revoked_session_stays_dead_witness:
  "(let m1 = snd (revokeSession sample_libs sample_session 1000 ''a'' []) in
    fst (verifyActiveSession sample_libs sample_session 900 ''a'' (Some [])) =
      Inr \<lparr>sn_sub = ''u'', sn_email = ''e'', sn_org = None, sn_jti = Some ''j''\<rparr> \<and>
    (\<exists>e. fst (verifyActiveSession sample_libs sample_session 3599000 ''a''
      (Some (serve_all sample_libs sample_session [(2000, PresentToken ''a''), (3000, RevokeToken ''b'')] m1))) = Inl e))"
proof -
  let ?m1 = "snd (revokeSession sample_libs sample_session 1000 ''a'' [])"
  have law: "expiry_respected sample_libs"
    by (auto simp: expiry_respected_def sample_libs_def split: if_splits)
  have inj: "\<forall>tok. RevokeToken tok \<in> snd ` set [(2000::int, PresentToken ''a''), (3000, RevokeToken ''b'')] \<longrightarrow>
      sl_sha sample_libs tok = sl_sha sample_libs ''a'' \<longrightarrow> tok = ''a''"
    by (simp add: sample_libs_def)
  have r: "revokeSession sample_libs sample_session 1000 ''a'' [] = (Inr (True, Some ''j''), ?m1)"
    by (simp add: revokeSession_def sessionTtlSeconds_def verifySession_def jwtVerify_def sample_libs_def sample_session_def Let_def)
  have "fst (verifyActiveSession sample_libs sample_session 900 ''a'' (Some [])) =
      Inr \<lparr>sn_sub = ''u'', sn_email = ''e'', sn_org = None, sn_jti = Some ''j''\<rparr>"
    by (simp add: verifyActiveSession_def verifySession_def jwtVerify_def sample_libs_def sample_session_def
        revocationKeys_def cache_read_def)
  moreover have "\<exists>e. fst (verifyActiveSession sample_libs sample_session 3599000 ''a''
      (Some (serve_all sample_libs sample_session [(2000, PresentToken ''a''), (3000, RevokeToken ''b'')] ?m1))) = Inl e"
    by (rule revoked_session_stays_dead [OF law inj r]) simp
  ultimately show ?thesis by (simp add: Let_def)
qed

end
