(* ===== verification/AuthTotp.thy ===== *)
theory AuthTotp
  imports AuthPrimitives "HOL-Library.Word"
begin

text \<open>
  Time-based codes for a second factor (\<open>packages/auth/src/totp.ts\<close>): base32 secrets on 32-bit shifts, HOTP over an
  HMAC-SHA-1 given as an argument, verification with a window, the provisioning address and recovery codes.
  Bytes are 8-bit words, the shift register is a 32-bit word that wraps as the language's bitwise operators do.
\<close>

unbundle bit_operations_syntax

type_synonym byte = "8 word"

section \<open>Base32\<close>

definition BASE32 :: string where "BASE32 = ''ABCDEFGHIJKLMNOPQRSTUVWXYZ234567''"

definition base32_char :: "32 word \<Rightarrow> char" where
  "base32_char v = BASE32 ! unat (v AND 31)"

text \<open>The inner \<open>while (bits >= 5)\<close>.\<close>

function emit5 :: "nat \<Rightarrow> 32 word \<Rightarrow> string \<Rightarrow> string \<times> nat" where
  "emit5 bits v out =
     (if 5 \<le> bits then emit5 (bits - 5) v (out @ [base32_char (drop_bit (bits - 5) v)]) else (out, bits))"
  by pat_completeness auto
termination by (relation "measure (\<lambda>(b, _). b)") auto

declare emit5.simps [simp del]

fun secret_loop :: "byte list \<Rightarrow> nat \<Rightarrow> 32 word \<Rightarrow> string \<Rightarrow> string \<times> nat \<times> 32 word" where
  "secret_loop [] bits v out = (out, bits, v)"
| "secret_loop (b # raw) bits v out =
     (let v' = push_bit 8 v OR ucast b; (out', bits') = emit5 (bits + 8) v' out in secret_loop raw bits' v' out')"

definition generateTotpSecret :: "byte list \<Rightarrow> string" where
  "generateTotpSecret raw = (case secret_loop raw 0 0 [] of
     (out, bits, v) \<Rightarrow> if bits > 0 then out @ [base32_char (push_bit (5 - bits) v)] else out)"

text \<open>\<open>BASE32.indexOf(char)\<close>, for a character the pattern has let through.\<close>

definition base32_index :: "char \<Rightarrow> nat" where
  "base32_index c = length (takeWhile (\<lambda>x. x \<noteq> c) BASE32)"

fun decode_loop :: "string \<Rightarrow> nat \<Rightarrow> 32 word \<Rightarrow> byte list \<Rightarrow> byte list" where
  "decode_loop [] bits v out = out"
| "decode_loop (c # cs) bits v out =
     (let v' = push_bit 5 v OR word_of_nat (base32_index c); bits' = bits + 5 in
      if 8 \<le> bits' then decode_loop cs (bits' - 8) v' (out @ [ucast (drop_bit (bits' - 8) v' AND 255)])
      else decode_loop cs bits' v' out)"

definition base32_clean :: "string \<Rightarrow> string" where
  "base32_clean secret = to_upper (rev (dropWhile (\<lambda>c. c = CHR ''='') (rev (js_trim secret))))"

definition decodeBase32 :: "string \<Rightarrow> byte list auth" where
  "decodeBase32 secret =
     (let clean = base32_clean secret in
      if clean = [] \<or> \<not> list_all (\<lambda>c. c \<in> set BASE32) clean \<or> length clean < 16 then Inl AuthPlain
      else Inr (decode_loop clean 0 0 []))"

section \<open>Codes\<close>

definition byte_at :: "byte list \<Rightarrow> nat \<Rightarrow> byte" where
  "byte_at m i = (if i < length m then m ! i else 0)"

definition counter_bytes :: "int \<Rightarrow> byte list" where
  "counter_bytes counter = map (\<lambda>i. word_of_int (counter div 256 ^ (7 - i))) [0..<8]"

definition hotp_value :: "byte list \<Rightarrow> nat" where
  "hotp_value mac =
     (let offset = unat (byte_at mac (length mac - 1) AND 0x0f);
          c = (push_bit 24 (ucast (byte_at mac offset AND 0x7f)) OR push_bit 16 (ucast (byte_at mac (offset + 1))) OR
               push_bit 8 (ucast (byte_at mac (offset + 2))) OR ucast (byte_at mac (offset + 3)) :: 32 word) in
      unat c mod 1000000)"

text \<open>\<open>writeBigUInt64BE\<close> refuses a counter outside 64 bits.\<close>

definition hotp :: "(byte list \<Rightarrow> byte list \<Rightarrow> byte list) \<Rightarrow> byte list \<Rightarrow> int \<Rightarrow> string auth" where
  "hotp hmac1 key counter =
     (if counter < 0 \<or> 2 ^ 64 \<le> counter then Inl AuthPlain
      else Inr (pad_start 6 (CHR ''0'') (dec (hotp_value (hmac1 key (counter_bytes counter))))))"

definition totpNow :: "(byte list \<Rightarrow> byte list \<Rightarrow> byte list) \<Rightarrow> string \<Rightarrow> int \<Rightarrow> int \<Rightarrow> string auth" where
  "totpNow hmac1 secret atMs stepSeconds =
     and_then (decodeBase32 secret) (\<lambda>key. hotp hmac1 key (atMs div (1000 * stepSeconds)))"

definition strip_separators :: "string \<Rightarrow> string" where
  "strip_separators c = filter (\<lambda>x. \<not> (is_space x \<or> x = CHR ''-'')) c"

fun try_steps :: "(byte list \<Rightarrow> byte list \<Rightarrow> byte list) \<Rightarrow> byte list \<Rightarrow> int \<Rightarrow> string \<Rightarrow> int list \<Rightarrow> bool auth" where
  "try_steps hmac1 key counter clean [] = Inr False"
| "try_steps hmac1 key counter clean (d # ds) =
     and_then (hotp hmac1 key (counter + d)) (\<lambda>h.
       let got = pad_start 6 (CHR ''0'') h;
           want = (if length clean = 6 then pad_start 6 (CHR ''0'') clean else clean);
           a = (if length clean = 6 then got else pad_start (length clean) (CHR ''0'') got) in
       if length a = length want \<and> a = want then Inr True else try_steps hmac1 key counter clean ds)"

record totp_options =
  tt_window :: "int option"
  tt_stepSeconds :: "int option"

definition verifyTotp :: "(byte list \<Rightarrow> byte list \<Rightarrow> byte list) \<Rightarrow> string \<Rightarrow> string \<Rightarrow> int \<Rightarrow> totp_options \<Rightarrow> bool auth" where
  "verifyTotp hmac1 secret c atMs opts =
     (let clean = strip_separators c in
      if \<not> (6 \<le> length clean \<and> length clean \<le> 8 \<and> list_all is_digit clean) then Inr False
      else
        (let step = over_value (tt_stepSeconds opts) 30; window = over_value (tt_window opts) 1 in
         case decodeBase32 secret of Inl _ \<Rightarrow> Inr False
         | Inr key \<Rightarrow> try_steps hmac1 key (atMs div (1000 * step)) clean [- window..window]))"

section \<open>Provisioning and recovery codes\<close>

definition hex_upper :: "nat \<Rightarrow> char" where
  "hex_upper d = (if d < 10 then char_of (48 + d) else char_of (55 + d))"

definition percent :: "nat \<Rightarrow> string" where
  "percent b = [CHR ''%'', hex_upper (b div 16), hex_upper (b mod 16)]"

text \<open>A code unit below 128 is one byte of UTF-8, one below 256 two.\<close>

definition utf8_bytes :: "char \<Rightarrow> nat list" where
  "utf8_bytes c = (let n = code c in if n < 128 then [n] else [192 + n div 64, 128 + n mod 64])"

definition encodeURIComponent :: "string \<Rightarrow> string" where
  "encodeURIComponent s = concat (map (\<lambda>c.
     if is_alnum c \<or> c = CHR 0x27 \<or> c \<in> set ''-_.!~*()'' then [c] else concat (map percent (utf8_bytes c))) s)"

definition form_encode :: "string \<Rightarrow> string" where
  "form_encode s = concat (map (\<lambda>c.
     if is_alnum c \<or> c \<in> set ''*-._'' then [c] else if c = CHR '' '' then ''+''
     else concat (map percent (utf8_bytes c))) s)"

definition totpProvisionUri :: "string \<Rightarrow> string \<Rightarrow> string option \<Rightarrow> string" where
  "totpProvisionUri secret account issuer =
     (let iss = over_value issuer ''CloudNivo'';
          label = encodeURIComponent iss @ '':'' @ encodeURIComponent account;
          params = [(''secret'', secret), (''issuer'', iss), (''algorithm'', ''SHA1''), (''digits'', ''6''), (''period'', ''30'')] in
      ''otpauth://totp/'' @ label @ ''?'' @
        join ''&'' (map (\<lambda>(k, v). form_encode k @ ''='' @ form_encode v) params))"

text \<open>\<open>draw i\<close> are the two random texts of the \<open>i\<close>-th code.\<close>

definition generateBackupCodes :: "(string \<Rightarrow> string) \<Rightarrow> (nat \<Rightarrow> string \<times> string) \<Rightarrow> nat \<Rightarrow> string list \<times> string list" where
  "generateBackupCodes sha draw n =
     (let codes = map (\<lambda>i. take 4 (fst (draw i)) @ ''-'' @ take 4 (snd (draw i))) [0..<n] in
      (codes, map (\<lambda>c. sha (strip_separators c)) codes))"

section \<open>Both directions of base32 carry the same bits\<close>

text \<open>The low \<open>n\<close> bits of a word, the highest first.\<close>

definition low_bits :: "nat \<Rightarrow> 'a::len word \<Rightarrow> bool list" where
  "low_bits n v = map (bit v) (rev [0..<n])"

lemma length_low_bits [simp]: "length (low_bits n v) = n"
  by (simp add: low_bits_def)

lemma low_bits_eqI: "(\<And>i. i < n \<Longrightarrow> bit v i = bit w i) \<Longrightarrow> low_bits n v = low_bits n w"
  by (simp add: low_bits_def)

lemma low_bits_split: "low_bits (n + k) v = map (bit v) (rev [k..<n + k]) @ low_bits k v"
proof -
  have "[0..<n + k] = [0..<k] @ [k..<n + k]" by (simp add: upt_add_eq_append [symmetric] add.commute)
  then show ?thesis by (simp add: low_bits_def)
qed

lemma upt_shift: "[k..<n + k] = map (\<lambda>i. i + k) [0..<n]"
  by (simp add: map_add_upt)

lemma low_bits_high: "map (bit v) (rev [k..<n + k]) = map (\<lambda>i. bit v (i + k)) (rev [0..<n])"
  by (simp add: upt_shift rev_map)

lemma push_bits:
  fixes v :: "32 word"
  assumes "n + k \<le> 32" and "\<And>i. bit w i \<Longrightarrow> i < k"
  shows "low_bits (n + k) (push_bit k v OR w) = low_bits n v @ low_bits k w"
proof -
  have "map (\<lambda>i. bit (push_bit k v OR w) (i + k)) (rev [0..<n]) = low_bits n v"
    unfolding low_bits_def using assms(1) by (rule_tac map_cong) (auto simp: bit_simps dest: assms(2))
  moreover have "low_bits k (push_bit k v OR w) = low_bits k w"
    by (rule low_bits_eqI) (auto simp: bit_simps)
  ultimately show ?thesis by (simp add: low_bits_split low_bits_high)
qed

lemma drop_bits:
  fixes v :: "32 word"
  shows "low_bits (n + k) v = low_bits n (drop_bit k v) @ low_bits k v"
  by (simp add: low_bits_split low_bits_high) (simp add: low_bits_def bit_simps add.commute)

lemma low_bits_inj: "LENGTH('a) \<le> n \<Longrightarrow> low_bits n (v::'a::len word) = low_bits n w \<Longrightarrow> v = w"
  by (rule bit_word_eqI) (simp add: low_bits_def)

text \<open>The bits of a character and of a byte.\<close>

definition char_bits :: "char \<Rightarrow> bool list" where
  "char_bits c = low_bits 5 (word_of_nat (base32_index c) :: 32 word)"

definition byte_bits :: "byte \<Rightarrow> bool list" where
  "byte_bits b = low_bits 8 b"

lemma BASE32_length: "length BASE32 = 32"
  by (simp add: BASE32_def)

lemma base32_index_nth: "i < 32 \<Longrightarrow> base32_index (BASE32 ! i) = i"
proof -
  have "distinct BASE32" by (simp add: BASE32_def)
  moreover assume "i < 32"
  ultimately show ?thesis unfolding base32_index_def
    by (subst takeWhile_eq_take_P_nth [of i]) (auto simp: BASE32_length nth_eq_iff_index_eq)
qed

lemma five_bits_less: "unat ((v :: 32 word) AND 31) < 32"
proof -
  have "v AND 31 = take_bit 5 v" by (simp add: take_bit_eq_mask mask_eq_decr_exp)
  then have "unat (v AND 31) = take_bit 5 (unat v)" by (simp add: unsigned_take_bit_eq)
  then show ?thesis using take_bit_nat_less_exp [of 5 "unat v"] by simp
qed

lemma base32_char_bits: "char_bits (base32_char v) = low_bits 5 v"
proof -
  have "char_bits (base32_char v) = low_bits 5 (v AND 31)"
    by (simp add: char_bits_def base32_char_def base32_index_nth five_bits_less)
  also have "\<dots> = low_bits 5 v"
    by (rule low_bits_eqI) (simp add: bit_simps flip: mask_eq_decr_exp [of 5, simplified])
  finally show ?thesis .
qed

lemma base32_char_in: "base32_char v \<in> set BASE32"
  by (simp add: base32_char_def five_bits_less BASE32_length)

lemma emit5_bits:
  "emit5 n v out = (out', n') \<Longrightarrow>
   concat (map char_bits out') @ low_bits n' v = concat (map char_bits out) @ low_bits n v \<and> n' < 5 \<and>
   (set out \<subseteq> set BASE32 \<longrightarrow> set out' \<subseteq> set BASE32)"
proof (induction n v out rule: emit5.induct)
  case (1 n v out)
  show ?case
  proof (cases "5 \<le> n")
    case True
    have "low_bits n v = low_bits 5 (drop_bit (n - 5) v) @ low_bits (n - 5) v"
      using drop_bits [of 5 "n - 5" v] True by simp
    with 1 True show ?thesis
      by (simp add: emit5.simps [of n] base32_char_bits base32_char_in)
  next
    case False
    with 1(2) show ?thesis by (simp add: emit5.simps [of n])
  qed
qed

lemma secret_loop_bits:
  "secret_loop raw n v out = (out', n', v') \<Longrightarrow> n < 5 \<Longrightarrow> set out \<subseteq> set BASE32 \<Longrightarrow>
   concat (map char_bits out') @ low_bits n' v' = concat (map char_bits out) @ low_bits n v @ concat (map byte_bits raw) \<and>
   n' < 5 \<and> set out' \<subseteq> set BASE32"
proof (induction raw arbitrary: n v out)
  case (Cons b raw)
  let ?w = "push_bit 8 v OR ucast b"
  obtain o1 n1 where e: "emit5 (n + 8) ?w out = (o1, n1)" by fastforce
  have "low_bits (n + 8) ?w = low_bits n v @ low_bits 8 (ucast b :: 32 word)"
    using Cons.prems(2) by (intro push_bits) (auto simp: bit_simps dest: bit_imp_le_length)
  moreover have "low_bits 8 (ucast b :: 32 word) = byte_bits b"
    by (simp add: low_bits_def byte_bits_def bit_simps)
  ultimately show ?case using emit5_bits [OF e] Cons.IH [of n1 ?w o1] Cons.prems by (simp add: e Let_def)
qed simp

lemma generate_bits:
  "\<exists>k<5. concat (map char_bits (generateTotpSecret raw)) = concat (map byte_bits raw) @ replicate k False"
  and generate_chars: "set (generateTotpSecret raw) \<subseteq> set BASE32"
proof -
  obtain out n v where s: "secret_loop raw 0 0 [] = (out, n, v)" by (metis prod.collapse)
  have *: "concat (map char_bits out) @ low_bits n v = concat (map byte_bits raw)" "n < 5" "set out \<subseteq> set BASE32"
    using secret_loop_bits [OF s] by (simp_all add: low_bits_def)
  show "set (generateTotpSecret raw) \<subseteq> set BASE32"
    using *(3) by (simp add: generateTotpSecret_def s base32_char_in)
  show "\<exists>k<5. concat (map char_bits (generateTotpSecret raw)) = concat (map byte_bits raw) @ replicate k False"
  proof (cases "n = 0")
    case True
    with * show ?thesis by (intro exI [of _ 0]) (simp add: generateTotpSecret_def s low_bits_def)
  next
    case False
    have "low_bits (n + (5 - n)) (push_bit (5 - n) v OR 0) = low_bits n v @ low_bits (5 - n) (0 :: 32 word)"
      using *(2) by (intro push_bits) auto
    moreover have "low_bits (5 - n) (0 :: 32 word) = replicate (5 - n) False"
      by (rule nth_equalityI) (simp_all add: low_bits_def)
    ultimately have "low_bits 5 (push_bit (5 - n) v) = low_bits n v @ replicate (5 - n) False"
      using *(2) by simp
    with False * show ?thesis
      by (intro exI [of _ "5 - n"]) (simp add: generateTotpSecret_def s base32_char_bits flip: *(1))
  qed
qed

lemma byte_bits_ucast: "byte_bits (ucast ((w :: 32 word) AND 255)) = low_bits 8 w"
proof -
  have m: "(255 :: 32 word) = mask 8" by (simp add: mask_eq_decr_exp)
  show ?thesis unfolding m by (auto simp: byte_bits_def low_bits_def bit_simps)
qed

lemma decode_loop_bits:
  "n < 8 \<Longrightarrow> set cs \<subseteq> set BASE32 \<Longrightarrow>
   \<exists>rest. length rest < 8 \<and>
     concat (map byte_bits (decode_loop cs n v out)) @ rest = concat (map byte_bits out) @ low_bits n v @ concat (map char_bits cs)"
proof (induction cs arbitrary: n v out)
  case (Cons c cs)
  let ?w = "push_bit 5 v OR word_of_nat (base32_index c)"
  have lt: "base32_index c < 32" if "c \<in> set BASE32" for c
    using that by (metis BASE32_length base32_index_nth in_set_conv_nth)
  have "i < 5" if "bit (word_of_nat (base32_index c) :: 32 word) i" for i
  proof -
    have "take_bit 5 (base32_index c) = base32_index c" using lt [of c] Cons.prems(2) by (simp add: take_bit_nat_eq_self)
    moreover have "bit (base32_index c) i" using that by (simp add: bit_simps)
    ultimately show ?thesis by (metis bit_take_bit_iff)
  qed
  then have w: "low_bits (n + 5) ?w = low_bits n v @ char_bits c"
    unfolding char_bits_def using Cons.prems(1) by (intro push_bits) auto
  show ?case
  proof (cases "8 \<le> n + 5")
    case True
    define b where "b = (ucast (drop_bit (n + 5 - 8) ?w AND 255) :: byte)"
    have "8 + (n + 5 - 8) = n + 5" using True by simp
    with drop_bits [of 8 "n + 5 - 8" ?w] have
      "low_bits n v @ char_bits c = byte_bits b @ low_bits (n + 5 - 8) ?w"
      by (simp only: w b_def byte_bits_ucast)
    then have e: "low_bits n v @ char_bits c @ r = byte_bits b @ low_bits (n + 5 - 8) ?w @ r" for r
      by (metis append_assoc)
    have "n + 5 - 8 < 8" "set cs \<subseteq> set BASE32" using Cons.prems by auto
    moreover have d: "decode_loop (c # cs) n v out = decode_loop cs (n + 5 - 8) ?w (out @ [b])"
      using True by (simp add: Let_def b_def)
    ultimately show ?thesis using Cons.IH [of "n + 5 - 8" ?w "out @ [b]"] unfolding d by (simp add: e)
  next
    case False
    then show ?thesis using Cons.IH [of "n + 5" ?w out] Cons.prems w by (simp add: Let_def)
  qed
qed (auto intro!: exI [of _ "low_bits n v"] simp: low_bits_def)

lemma byte_bits_inj: "byte_bits a = byte_bits b \<Longrightarrow> a = b"
  unfolding byte_bits_def by (rule low_bits_inj [of 8]) simp_all

lemma byte_bits_nonempty [simp]: "byte_bits b \<noteq> []"
  by (metis byte_bits_def length_low_bits list.size(3) zero_neq_numeral)

lemma length_byte_bits: "length (concat (map byte_bits bs)) = 8 * length bs"
  by (induction bs) (simp_all add: byte_bits_def)

lemma length_char_bits: "length (concat (map char_bits cs)) = 5 * length cs"
  by (induction cs) (simp_all add: char_bits_def)

lemma byte_blocks_inj:
  "concat (map byte_bits as) = concat (map byte_bits bs) \<Longrightarrow> as = bs"
proof (induction as arbitrary: bs)
  case Nil
  then show ?case by (cases bs) (simp_all add: byte_bits_def low_bits_def)
next
  case (Cons a as)
  then obtain b bs' where bs: "bs = b # bs'"
    using length_byte_bits [of "a # as"] length_byte_bits [of bs] by (cases bs) auto
  with Cons.prems have "byte_bits a = byte_bits b" "concat (map byte_bits as) = concat (map byte_bits bs')"
    by (simp_all add: append_eq_append_conv byte_bits_def [of a] byte_bits_def [of b])
  with Cons.IH show ?case by (simp add: bs byte_bits_inj)
qed

lemma clean_generated: "base32_clean (generateTotpSecret raw) = generateTotpSecret raw"
proof -
  have "\<forall>c\<in>set BASE32. \<not> is_space c \<and> c \<noteq> CHR ''='' \<and> upper_char c = c" by code_simp
  with generate_chars [of raw] have *: "\<not> is_space c \<and> c \<noteq> CHR ''='' \<and> upper_char c = c"
    if "c \<in> set (generateTotpSecret raw)" for c using that by auto
  have "js_trim (generateTotpSecret raw) = generateTotpSecret raw"
    by (rule js_trim_id) (auto simp: trimmed_def dest: * [OF hd_in_set] * [OF last_in_set])
  moreover have "dropWhile (\<lambda>c. c = CHR ''='') (rev (generateTotpSecret raw)) = rev (generateTotpSecret raw)"
    using * by (intro dropWhile_hd_id) (metis hd_in_set set_rev)
  ultimately show ?thesis using * by (simp add: base32_clean_def to_upper_def map_idI)
qed

text \<open>
  The secret given to an authenticator decodes to the random bytes it was made of, for any ten bytes or more,
  although both directions keep their bits in a 32-bit register that overflows.
\<close>

theorem totp_secret_roundtrip:
  assumes "10 \<le> length raw"
  shows "decodeBase32 (generateTotpSecret raw) = Inr raw"
proof -
  let ?s = "generateTotpSecret raw"
  obtain k where k: "k < 5" "concat (map char_bits ?s) = concat (map byte_bits raw) @ replicate k False"
    using generate_bits by blast
  obtain rest where r: "length rest < 8"
      "concat (map byte_bits (decode_loop ?s 0 0 [])) @ rest = concat (map byte_bits raw) @ replicate k False"
    using decode_loop_bits [of 0 ?s 0 "[]"] generate_chars [of raw] k(2) by (auto simp: low_bits_def)
  have len: "8 * length (decode_loop ?s 0 0 []) + length rest = 8 * length raw + k"
    using arg_cong [OF r(2), of length] by (simp add: length_byte_bits)
  have "length (decode_loop ?s 0 0 []) = length raw" using len k(1) r(1) by linarith
  then have "concat (map byte_bits (decode_loop ?s 0 0 [])) = concat (map byte_bits raw)"
    using r(2) by (simp add: append_eq_append_conv length_byte_bits)
  then have d: "decode_loop ?s 0 0 [] = raw" by (rule byte_blocks_inj)
  have "8 * length raw \<le> 5 * length ?s" using arg_cong [OF k(2), of length] by (simp add: length_byte_bits length_char_bits)
  then have "16 \<le> length ?s" using assms by linarith
  then show ?thesis using generate_chars [of raw] d
    by (auto simp: decodeBase32_def clean_generated Let_def list_all_iff)
qed

theorem totp_secret_roundtrip_witness:
  "generateTotpSecret (map word_of_nat [222, 173, 190, 239, 0, 1, 2, 3, 4, 255]) = ''32W353YAAEBAGBH7'' \<and>
   decodeBase32 ''32W353YAAEBAGBH7'' = Inr (map word_of_nat [222, 173, 190, 239, 0, 1, 2, 3, 4, 255])"
proof -
  have g: "generateTotpSecret (map word_of_nat [222, 173, 190, 239, 0, 1, 2, 3, 4, 255]) = ''32W353YAAEBAGBH7''"
    by code_simp
  show ?thesis using totp_secret_roundtrip [of "map word_of_nat [222, 173, 190, 239, 0, 1, 2, 3, 4, 255]"] g by simp
qed

section \<open>Which codes are accepted\<close>

text \<open>The reference: the three numbers shown by an authenticator around now.\<close>

definition step_values :: "(byte list \<Rightarrow> byte list \<Rightarrow> byte list) \<Rightarrow> byte list \<Rightarrow> int \<Rightarrow> nat set" where
  "step_values hmac1 key now = (\<lambda>d. hotp_value (hmac1 key (counter_bytes (now div 30000 + d)))) ` {- 1, 0, 1}"

lemma dec_val_bound: "list_all is_digit s \<Longrightarrow> dec_val s < 10 ^ length s"
proof (induction s rule: rev_induct)
  case (snoc c s)
  then have "digit_val c < 10" by (auto simp: is_digit_def digit_val_def)
  with snoc show ?case by (simp add: dec_val_snoc)
qed (simp add: dec_val_def)

lemma dec_val_inj:
  "list_all is_digit s \<Longrightarrow> list_all is_digit u \<Longrightarrow> length s = length u \<Longrightarrow> dec_val s = dec_val u \<Longrightarrow> s = u"
proof (induction s arbitrary: u rule: rev_induct)
  case (snoc c s)
  then obtain v d where u: "u = v @ [d]" by (cases u rule: rev_cases) auto
  have cd: "digit_val c < 10" "digit_val d < 10" using snoc.prems(1,2) by (auto simp: u is_digit_def digit_val_def)
  have "10 * dec_val s + digit_val c = 10 * dec_val v + digit_val d" using snoc.prems(4) by (simp add: u dec_val_snoc)
  then have "dec_val s = dec_val v" "digit_val c = digit_val d" using cd by presburger+
  moreover have "c = d" if "digit_val c = digit_val d"
    using that snoc.prems(1,2) by (auto simp: u is_digit_def digit_val_def intro!: code_inj)
  ultimately show ?case using snoc.IH [of v] snoc.prems by (simp add: u)
qed simp

lemma pad_start_digits: "list_all is_digit s \<Longrightarrow> list_all is_digit (pad_start n (CHR ''0'') s)"
  by (auto simp: pad_start_def list_all_iff is_digit_def code_def)

lemma dec_val_pad: "dec_val (pad_start n (CHR ''0'') s) = dec_val s"
  by (simp add: pad_start_def dec_val_zeros)

lemma pad_start_equals:
  assumes "list_all is_digit s" and "length s \<le> k" and "list_all is_digit u" and "length u = k"
  shows "pad_start k (CHR ''0'') s = u \<longleftrightarrow> dec_val s = dec_val u"
  using assms dec_val_inj [of "pad_start k (CHR ''0'') s" u] dec_val_pad [of k s] pad_start_digits [OF assms(1)]
  by (auto simp: pad_start_def)

lemma hotp_six:
  assumes "hotp hmac1 key c = Inr h"
  shows "list_all is_digit h" "length h = 6" "dec_val h = hotp_value (hmac1 key (counter_bytes c))"
proof -
  have "hotp_value m < 10 ^ 6" for m by (simp add: hotp_value_def Let_def)
  then have "length (dec (hotp_value m)) \<le> 6" for m by (intro dec_length_le) simp_all
  then show "length h = 6" using assms by (auto simp: hotp_def pad_start_def split: if_splits)
  show "list_all is_digit h" using assms by (auto simp: hotp_def intro!: pad_start_digits dec_digits split: if_splits)
  show "dec_val h = hotp_value (hmac1 key (counter_bytes c))"
    using assms by (auto simp: hotp_def dec_val_pad split: if_splits)
qed

lemma try_steps_spec:
  assumes "list_all is_digit clean" and "6 \<le> length clean" and "\<forall>d\<in>set ds. 0 \<le> counter + d \<and> counter + d < 2 ^ 64"
  shows "try_steps hmac1 key counter clean ds =
    Inr (dec_val clean \<in> (\<lambda>d. hotp_value (hmac1 key (counter_bytes (counter + d)))) ` set ds)"
  using assms(3)
proof (induction ds)
  case (Cons d ds)
  obtain h where h: "hotp hmac1 key (counter + d) = Inr h" using Cons.prems by (simp add: hotp_def)
  note six = hotp_six [OF h]
  have p6: "pad_start 6 (CHR ''0'') s = s" if "length s = 6" for s using that by (simp add: pad_start_def)
  have "pad_start (length clean) (CHR ''0'') h = clean \<longleftrightarrow> dec_val h = dec_val clean"
    using six assms(1,2) by (intro pad_start_equals) auto
  then have "(pad_start (length clean) (CHR ''0'') h = clean) = (hotp_value (hmac1 key (counter_bytes (counter + d))) = dec_val clean)"
    by (simp only: six(3))
  moreover have "try_steps hmac1 key counter clean (d # ds) =
      (if pad_start (length clean) (CHR ''0'') h = clean then Inr True else try_steps hmac1 key counter clean ds)"
    using p6 [OF six(2)] p6 [of clean] by (cases "length clean = 6") (auto simp: h Let_def)
  ultimately show ?case using Cons by auto
qed simp

text \<open>
  Which codes pass: exactly those of six to eight digits, however separated, whose number is one an authenticator
  shows in the current 30-second step or the one before or after it.
\<close>

theorem totp_accepts_window:
  assumes "decodeBase32 secret = Inr key" and "30000 \<le> now" and "now < 2 ^ 64"
  shows "verifyTotp hmac1 secret c now \<lparr>tt_window = None, tt_stepSeconds = None\<rparr> = Inr (
    length (strip_separators c) \<in> {6..8} \<and> list_all is_digit (strip_separators c) \<and>
    dec_val (strip_separators c) \<in> step_values hmac1 key now)"
proof -
  have "1 \<le> now div 30000" using assms(2) by linarith
  moreover have "now div 30000 + 1 < 2 ^ 64"
    using assms(2,3) div_mult_mod_eq [of now 30000] pos_mod_sign [of 30000 now] by linarith
  moreover have "[- 1..1] = [- 1, 0, 1 :: int]" and "(1000 :: int) * 30 = 30000" by code_simp+
  ultimately show ?thesis
    using assms(1) try_steps_spec [of "strip_separators c" "[- 1, 0, 1]" "now div 30000" hmac1 key]
    by (auto simp: verifyTotp_def over_value_def Let_def step_values_def simp del: try_steps.simps)
qed

text \<open>An instance with a keyless \<open>hmac1\<close> that shows the counter itself: an eight-digit spelling of the next step passes.\<close>

definition counter_mac :: "byte list \<Rightarrow> byte list \<Rightarrow> byte list" where
  "counter_mac key msg = msg @ replicate 11 0 @ [4]"

lemma sample_counter: "counter_bytes (3600000 div 30000 + 1) = [0, 0, 0, 0, 0, 0, 0, 121]"
  by (simp add: counter_bytes_def upt_rec)

lemma sample_value: "hotp_value (counter_mac (replicate 10 0) [0, 0, 0, 0, 0, 0, 0, 121]) = 121"
proof -
  let ?m = "counter_mac (replicate 10 0) [0, 0, 0, 0, 0, 0, 0, 121]"
  have "length ?m = 20" by (simp add: counter_mac_def)
  moreover have "byte_at ?m 19 = 4" "byte_at ?m 4 = 0" "byte_at ?m 5 = 0" "byte_at ?m 6 = 0" "byte_at ?m 7 = 121"
    by (simp_all add: byte_at_def counter_mac_def nth_append)
  moreover have "unat ((4 :: byte) AND 15) = 4" by simp
  ultimately show ?thesis by (simp add: hotp_value_def)
qed

theorem totp_accepts_window_witness:
  "verifyTotp counter_mac ''AAAAAAAAAAAAAAAA'' ''0000-0121'' 3600000 \<lparr>tt_window = None, tt_stepSeconds = None\<rparr> = Inr True"
proof -
  have d: "decodeBase32 ''AAAAAAAAAAAAAAAA'' = Inr (replicate 10 0)" by code_simp
  have s: "strip_separators ''0000-0121'' = ''00000121''" by code_simp
  have "dec_val ''00000121'' = 121" by code_simp
  then have v: "dec_val ''00000121'' = hotp_value (counter_mac (replicate 10 0) (counter_bytes (3600000 div 30000 + 1)))"
    by (simp only: sample_counter sample_value)
  have l: "length ''00000121'' \<in> {6..8}" by simp
  have g: "list_all is_digit ''00000121''" by code_simp
  have "dec_val ''00000121'' \<in> step_values counter_mac (replicate 10 0) 3600000"
    unfolding step_values_def v by (rule image_eqI [of _ _ 1]) simp_all
  moreover have "(30000 :: int) \<le> 3600000" "(3600000 :: int) < 2 ^ 64" by simp_all
  ultimately show ?thesis using totp_accepts_window [OF d, of 3600000 counter_mac "''0000-0121''"] l g by (simp only: s simp_thms)
qed

end
