(* ===== verification/WebAuthn.thy ===== *)
theory WebAuthn
  imports AuthTotp
begin

text \<open>
  The server half of passkeys (\<open>packages/auth/src/webauthn.ts\<close>): base64url, the CBOR reader, COSE keys in DER,
  authenticator and client data, registration and authentication.

  A buffer is a list of bytes.  Arguments, in a record: SHA-256 on bytes, \<open>JSON.parse\<close>, the import of a DER public key
  (which may throw) and the signature check.  UTF-8 text is taken to be ASCII.
\<close>

abbreviation webauthn_error :: auth_error where
  "webauthn_error \<equiv> AuthFail WEBAUTHN_ERROR 400"

record webauthn_libs =
  wl_sha256 :: "byte list \<Rightarrow> byte list"
  wl_json :: "string \<Rightarrow> json option"
  wl_import :: "byte list \<Rightarrow> byte list option"
  wl_signed :: "int \<Rightarrow> byte list \<Rightarrow> byte list \<Rightarrow> byte list \<Rightarrow> bool"

section \<open>Base64\<close>

definition B64URL :: string where
  "B64URL = ''ABCDEFGHIJKLMNOPQRSTUVWXYZabcdefghijklmnopqrstuvwxyz0123456789-_''"

definition B64STD :: string where
  "B64STD = ''ABCDEFGHIJKLMNOPQRSTUVWXYZabcdefghijklmnopqrstuvwxyz0123456789+/''"

fun sextets :: "nat list \<Rightarrow> nat list" where
  "sextets [] = []"
| "sextets [a] = [a div 4, (a mod 4) * 16]"
| "sextets [a, b] = [a div 4, (a mod 4) * 16 + b div 16, (b mod 16) * 4]"
| "sextets (a # b # c # r) =
     (a div 4) # ((a mod 4) * 16 + b div 16) # ((b mod 16) * 4 + c div 64) # (c mod 64) # sextets r"

fun octets :: "nat list \<Rightarrow> nat list" where
  "octets (p # q # r # s # rest) = (p * 4 + q div 16) # ((q mod 16) * 16 + r div 4) # ((r mod 4) * 64 + s) # octets rest"
| "octets [p, q, r] = [p * 4 + q div 16, (q mod 16) * 16 + r div 4]"
| "octets [p, q] = [p * 4 + q div 16]"
| "octets _ = []"

definition b64url :: "byte list \<Rightarrow> string" where
  "b64url bs = map (\<lambda>v. B64URL ! v) (sextets (map unat bs))"

definition base64 :: "byte list \<Rightarrow> string" where
  "base64 bs = (let t = map (\<lambda>v. B64STD ! v) (sextets (map unat bs)) in
     t @ replicate ((4 - length t mod 4) mod 4) (CHR ''=''))"

definition sextet_of :: "char \<Rightarrow> nat" where
  "sextet_of c = (if c = CHR ''+'' then 62 else if c = CHR ''/'' then 63
     else length (takeWhile (\<lambda>x. x \<noteq> c) B64URL))"

text \<open>What \<open>Buffer.from\<close> reads of a text in either alphabet, up to its padding.\<close>

definition buffer_from :: "string \<Rightarrow> byte list" where
  "buffer_from s = map word_of_nat (octets (map sextet_of (takeWhile (\<lambda>c. c \<noteq> CHR ''='') s)))"

definition fromB64url :: "string \<Rightarrow> byte list auth" where
  "fromB64url s =
     (let body = takeWhile (\<lambda>c. c \<noteq> CHR ''='') s; pad = dropWhile (\<lambda>c. c \<noteq> CHR ''='') s in
      if s = [] \<or> body = [] \<or> \<not> list_all (\<lambda>c. c \<in> set B64URL) body \<or> \<not> list_all (\<lambda>c. c = CHR ''='') pad
      then Inl webauthn_error else Inr (buffer_from s))"

section \<open>CBOR\<close>

datatype cbor = CInt int | CBytes "byte list" | CText string | CArr "cbor list" | CMap "(cbor \<times> cbor) list"

text \<open>A \<open>Map\<close> compares numbers and texts by value; buffers, arrays and maps are keys of their own.\<close>

definition by_value :: "cbor \<Rightarrow> bool" where
  "by_value k = (case k of CInt _ \<Rightarrow> True | CText _ \<Rightarrow> True | _ \<Rightarrow> False)"

definition cbor_set :: "cbor \<Rightarrow> cbor \<Rightarrow> (cbor \<times> cbor) list \<Rightarrow> (cbor \<times> cbor) list" where
  "cbor_set k v m = (if by_value k then js_set k v m else m @ [(k, v)])"

text \<open>The reader is what is left of the buffer.\<close>

definition cbor_byte :: "byte list \<Rightarrow> (nat \<times> byte list) auth" where
  "cbor_byte buf = (case buf of [] \<Rightarrow> Inl webauthn_error | b # r \<Rightarrow> Inr (unat b, r))"

definition cbor_take :: "nat \<Rightarrow> byte list \<Rightarrow> (byte list \<times> byte list) auth" where
  "cbor_take n buf = (if length buf < n then Inl webauthn_error else Inr (take n buf, drop n buf))"

definition big_endian :: "byte list \<Rightarrow> nat" where
  "big_endian bs = foldl (\<lambda>a b. 256 * a + unat b) 0 bs"

definition cbor_length :: "nat \<Rightarrow> byte list \<Rightarrow> (nat \<times> byte list) auth" where
  "cbor_length info buf =
     (if info < 24 then Inr (info, buf)
      else if info = 24 then cbor_byte buf
      else if info = 25 then
        and_then (cbor_byte buf) (\<lambda>(a, r). and_then (cbor_byte r) (\<lambda>(b, r'). Inr (a * 256 + b, r')))
      else if info = 26 then and_then (cbor_take 4 buf) (\<lambda>(bs, r). Inr (big_endian bs, r))
      else Inl webauthn_error)"

text \<open>
  The two loops of \<open>read\<close> over the reader they call, and \<open>read\<close> on a bound for its depth; \<open>None\<close> is a bound
  that was too small.
\<close>

type_synonym cbor_result = "(cbor \<times> byte list) auth option"

definition cbor_next :: "cbor_result \<Rightarrow> (cbor \<Rightarrow> byte list \<Rightarrow> cbor_result) \<Rightarrow> cbor_result" where
  "cbor_next r f = (case r of None \<Rightarrow> None | Some (Inl e) \<Rightarrow> Some (Inl e) | Some (Inr (v, rest)) \<Rightarrow> f v rest)"

primrec cbor_items :: "(byte list \<Rightarrow> cbor_result) \<Rightarrow> nat \<Rightarrow> byte list \<Rightarrow> cbor list \<Rightarrow> cbor_result" where
  "cbor_items read 0 buf arr = Some (Inr (CArr arr, buf))"
| "cbor_items read (Suc n) buf arr = cbor_next (read buf) (\<lambda>v r. cbor_items read n r (arr @ [v]))"

primrec cbor_pairs :: "(byte list \<Rightarrow> cbor_result) \<Rightarrow> nat \<Rightarrow> byte list \<Rightarrow> (cbor \<times> cbor) list \<Rightarrow> cbor_result" where
  "cbor_pairs read 0 buf m = Some (Inr (CMap m, buf))"
| "cbor_pairs read (Suc n) buf m = cbor_next (read buf) (\<lambda>k r. cbor_next (read r) (\<lambda>v r'.
     cbor_pairs read n r' (cbor_set k v m)))"

definition cbor_body :: "(byte list \<Rightarrow> cbor_result) \<Rightarrow> nat \<Rightarrow> byte list \<Rightarrow> cbor_result" where
  "cbor_body read initial r =
     (let major = initial div 32; info = initial mod 32 in
      if 5 < major then Some (Inl webauthn_error)
      else case cbor_length info r of Inl e \<Rightarrow> Some (Inl e)
      | Inr (n, r') \<Rightarrow>
          if major = 0 then Some (Inr (CInt (int n), r'))
          else if major = 1 then Some (Inr (CInt (- 1 - int n), r'))
          else if major = 2 then Some (and_then (cbor_take n r') (\<lambda>(bs, q). Inr (CBytes bs, q)))
          else if major = 3 then Some (and_then (cbor_take n r') (\<lambda>(bs, q). Inr (CText (map (\<lambda>b. char_of (unat b)) bs), q)))
          else if major = 4 then cbor_items read n r' []
          else cbor_pairs read n r' [])"

primrec cbor_read :: "nat \<Rightarrow> byte list \<Rightarrow> cbor_result" where
  "cbor_read 0 buf = None"
| "cbor_read (Suc f) buf = (case cbor_byte buf of Inl e \<Rightarrow> Some (Inl e)
     | Inr (initial, r) \<Rightarrow> cbor_body (cbor_read f) initial r)"

definition cborDecodeFirst :: "byte list \<Rightarrow> (cbor \<times> nat) auth" where
  "cborDecodeFirst buf = (case cbor_read (Suc (length buf)) buf of None \<Rightarrow> Inl AuthPlain
     | Some r \<Rightarrow> and_then r (\<lambda>(v, rest). Inr (v, length buf - length rest)))"

section \<open>The depth bound is enough\<close>

text \<open>A reader is good up to a length when it always returns there, and leaves less than it was given.\<close>

definition reads :: "(byte list \<Rightarrow> cbor_result) \<Rightarrow> nat \<Rightarrow> bool" where
  "reads rd n \<longleftrightarrow> (\<forall>buf. length buf \<le> n \<longrightarrow>
     (case rd buf of None \<Rightarrow> False | Some (Inl e) \<Rightarrow> True | Some (Inr (v, r)) \<Rightarrow> length r < length buf))"

definition loops :: "cbor_result \<Rightarrow> nat \<Rightarrow> bool" where
  "loops res n \<longleftrightarrow> (case res of None \<Rightarrow> False | Some (Inl e) \<Rightarrow> True | Some (Inr (v, r)) \<Rightarrow> length r \<le> n)"

lemma reads_next:
  assumes "reads rd n" and "length buf \<le> n" and f: "\<And>v r. length r < length buf \<Longrightarrow> loops (f v r) k"
  shows "loops (cbor_next (rd buf) f) k"
proof (cases "rd buf")
  case None
  then show ?thesis using assms(1,2) by (auto simp: reads_def dest: spec [of _ buf])
next
  case (Some x)
  show ?thesis
  proof (cases x)
    case (Inr vr)
    obtain v r where vr: "vr = (v, r)" by (cases vr)
    have "length r < length buf" using assms(1,2) Some by (auto simp: reads_def Inr vr dest: spec [of _ buf])
    from f [OF this] show ?thesis by (simp add: cbor_next_def Some Inr vr)
  qed (simp add: cbor_next_def loops_def Some)
qed

lemma loops_mono: "loops res k \<Longrightarrow> k \<le> n \<Longrightarrow> loops res n"
  by (auto simp: loops_def split: option.splits sum.splits)

lemma items_loop: "reads rd n \<Longrightarrow> length buf \<le> n \<Longrightarrow> loops (cbor_items rd k buf arr) (length buf)"
proof (induction k arbitrary: buf arr)
  case (Suc k)
  have "loops (cbor_items rd k r (arr @ [v])) (length buf)" if "length r < length buf" for v r
    by (rule loops_mono [OF Suc.IH]) (use Suc.prems that in auto)
  then show ?case using reads_next [OF Suc.prems] by simp
qed (simp add: loops_def)

lemma pairs_loop: "reads rd n \<Longrightarrow> length buf \<le> n \<Longrightarrow> loops (cbor_pairs rd k buf m) (length buf)"
proof (induction k arbitrary: buf m)
  case (Suc k)
  have "loops (cbor_next (rd r) (\<lambda>v r'. cbor_pairs rd k r' (cbor_set key v m))) (length buf)"
    if "length r < length buf" for key r
  proof (rule reads_next [OF Suc.prems(1)])
    show "loops (cbor_pairs rd k r' (cbor_set key v m)) (length buf)" if "length r' < length r" for v r'
      by (rule loops_mono [OF Suc.IH]) (use Suc.prems that \<open>length r < length buf\<close> in auto)
  qed (use Suc.prems(2) that in simp)
  then show ?case using reads_next [OF Suc.prems] by simp
qed (simp add: loops_def)

lemma cbor_length_shorter: "cbor_length info buf = Inr (n, r) \<Longrightarrow> length r \<le> length buf"
  by (auto simp: cbor_length_def cbor_byte_def cbor_take_def and_then_Inr split: if_splits list.splits)

lemma body_loop:
  assumes "\<And>k r'. length r' \<le> length r \<Longrightarrow> loops (cbor_items rd k r' []) (length r')"
    and "\<And>k r'. length r' \<le> length r \<Longrightarrow> loops (cbor_pairs rd k r' []) (length r')"
  shows "loops (cbor_body rd initial r) (length r)"
proof (cases "cbor_length (initial mod 32) r")
  case (Inr nr)
  obtain n r' where nr: "nr = (n, r')" by (cases nr)
  have le: "length r' \<le> length r" using Inr by (simp add: nr cbor_length_shorter)
  have "loops (Some (and_then (cbor_take n r') (\<lambda>(bs, q). Inr (g bs, q)))) (length r')" for g
    by (simp add: loops_def cbor_take_def)
  note this [THEN loops_mono, OF le] assms(1) [OF le, THEN loops_mono, OF le] assms(2) [OF le, THEN loops_mono, OF le]
  then show ?thesis using le by (auto simp: cbor_body_def Let_def Inr nr loops_def [of "Some (Inr _)"] loops_def [of "Some (Inl _)"])
qed (simp add: cbor_body_def Let_def loops_def)

lemma read_reads: "reads (cbor_read (Suc n)) n"
proof (induction n)
  case 0
  show ?case by (simp add: reads_def cbor_byte_def)
next
  case (Suc n)
  show ?case unfolding reads_def
  proof (intro allI impI)
    fix buf :: "byte list" assume l: "length buf \<le> Suc n"
    show "case cbor_read (Suc (Suc n)) buf of None \<Rightarrow> False | Some (Inl e) \<Rightarrow> True
      | Some (Inr (v, r)) \<Rightarrow> length r < length buf"
    proof (cases buf)
      case (Cons b rest)
      have "loops (cbor_body (cbor_read (Suc n)) (unat b) rest) (length rest)"
        by (rule body_loop; rule items_loop [OF Suc.IH] pairs_loop [OF Suc.IH]) (use l Cons in auto)
      then show ?thesis
        by (auto simp: cbor_byte_def Cons loops_def simp del: cbor_read.simps(2)
              simp add: cbor_read.simps(2) [of "Suc n"] split: option.splits sum.splits)
    qed (simp add: cbor_byte_def)
  qed
qed

text \<open>
  C16. Reading CBOR always ends: on any bytes, the depth bound \<open>length + 1\<close> is enough, and a value that is returned took at least one byte and none beyond the buffer.
\<close>

theorem cbor_always_ends:
  "case cbor_read (Suc (length buf)) buf of
     None \<Rightarrow> False
   | Some (Inl e) \<Rightarrow> cborDecodeFirst buf = Inl e
   | Some (Inr (v, rest)) \<Rightarrow> length rest < length buf \<and> cborDecodeFirst buf = Inr (v, length buf - length rest)"
  using read_reads [of "length buf"] unfolding reads_def cborDecodeFirst_def
  by (auto simp del: cbor_read.simps(2) split: option.splits sum.splits)

section \<open>COSE keys\<close>

definition COSE_ES256 :: int where "COSE_ES256 = - 7"
definition COSE_RS256 :: int where "COSE_RS256 = - 257"

definition SUPPORTED_ALGORITHMS :: "int list" where "SUPPORTED_ALGORITHMS = [COSE_ES256, COSE_RS256]"

type_synonym cbor_map = "(cbor \<times> cbor) list"

definition cose_num :: "cbor_map \<Rightarrow> int \<Rightarrow> int auth" where
  "cose_num m key = (case map_of m (CInt key) of Some (CInt i) \<Rightarrow> Inr i | _ \<Rightarrow> Inl webauthn_error)"

definition cose_bytes :: "cbor_map \<Rightarrow> int \<Rightarrow> byte list auth" where
  "cose_bytes m key = (case map_of m (CInt key) of Some (CBytes bs) \<Rightarrow> Inr bs | _ \<Rightarrow> Inl webauthn_error)"

text \<open>The number's bytes from the lowest; each is put in front of the ones before.\<close>

fun length_bytes :: "nat \<Rightarrow> byte list \<Rightarrow> byte list" where
  "length_bytes remaining out =
     (if 0 < remaining then length_bytes (remaining div 256) (word_of_nat (remaining mod 256) # out) else out)"

declare length_bytes.simps [simp del]

definition derLength :: "nat \<Rightarrow> byte list" where
  "derLength len =
     (if len < 128 then [word_of_nat len]
      else (let out = length_bytes len [] in (128 OR word_of_nat (length out)) # out))"

definition der :: "byte \<Rightarrow> byte list \<Rightarrow> byte list" where
  "der tag body = tag # derLength (length body) @ body"

definition der_uint :: "byte list \<Rightarrow> byte list" where
  "der_uint b =
     (let trimmed = (case b of x # xs \<Rightarrow> if x = 0 then xs else b | [] \<Rightarrow> b);
          needsPad = (case trimmed of x # _ \<Rightarrow> if x AND 0x80 \<noteq> 0 then [0] else [] | [] \<Rightarrow> []) in
      der 0x02 (needsPad @ trimmed))"

definition rsaSpki :: "byte list \<Rightarrow> byte list \<Rightarrow> byte list" where
  "rsaSpki n e =
     (let rsaKey = der 0x30 (der_uint n @ der_uint e);
          algId = [0x30, 0x0d, 0x06, 0x09, 0x2a, 0x86, 0x48, 0x86, 0xf7, 0x0d, 0x01, 0x01, 0x01, 0x05, 0x00];
          bitString = der 0x03 (0 # rsaKey) in
      der 0x30 (algId @ bitString))"

definition p256_prefix :: "byte list" where
  "p256_prefix = [0x30, 0x59, 0x30, 0x13, 0x06, 0x07, 0x2a, 0x86, 0x48, 0xce, 0x3d, 0x02, 0x01, 0x06, 0x08, 0x2a,
     0x86, 0x48, 0xce, 0x3d, 0x03, 0x01, 0x07, 0x03, 0x42, 0x00]"

definition import_key :: "webauthn_libs \<Rightarrow> byte list \<Rightarrow> byte list auth" where
  "import_key libs der' = (case wl_import libs der' of None \<Rightarrow> Inl AuthPlain | Some key \<Rightarrow> Inr key)"

definition coseToKey :: "webauthn_libs \<Rightarrow> cbor_map \<Rightarrow> (byte list \<times> int) auth" where
  "coseToKey libs cose =
     and_then (cose_num cose 1) (\<lambda>kty. and_then (cose_num cose 3) (\<lambda>alg.
       if alg = COSE_ES256 then
         (if kty \<noteq> 2 then Inl webauthn_error
          else and_then (cose_num cose (- 1)) (\<lambda>crv.
            if crv \<noteq> 1 then Inl webauthn_error
            else and_then (cose_bytes cose (- 2)) (\<lambda>x. and_then (cose_bytes cose (- 3)) (\<lambda>y.
              if length x \<noteq> 32 \<or> length y \<noteq> 32 then Inl webauthn_error
              else and_then (import_key libs (p256_prefix @ [0x04] @ x @ y)) (\<lambda>key. Inr (key, alg))))))
       else if alg = COSE_RS256 then
         (if kty \<noteq> 3 then Inl webauthn_error
          else and_then (cose_bytes cose (- 1)) (\<lambda>n. and_then (cose_bytes cose (- 2)) (\<lambda>e.
            and_then (import_key libs (rsaSpki n e)) (\<lambda>key. Inr (key, alg)))))
       else Inl webauthn_error))"

section \<open>Authenticator data\<close>

record authenticator_data =
  ad_rpIdHash :: "byte list"
  ad_userPresent :: bool
  ad_userVerified :: bool
  ad_backupEligible :: bool
  ad_backedUp :: bool
  ad_signCount :: nat
  ad_credentialId :: "byte list option"
  ad_credentialPublicKey :: "cbor_map option"
  ad_aaguid :: "byte list option"

definition subarray :: "nat \<Rightarrow> nat \<Rightarrow> byte list \<Rightarrow> byte list" where
  "subarray from upto' bs = take (upto' - from) (drop from bs)"

definition parseAuthenticatorData :: "byte list \<Rightarrow> authenticator_data auth" where
  "parseAuthenticatorData data =
     (if length data < 37 then Inl webauthn_error
      else
        (let flags = data ! 32;
             base = \<lparr>ad_rpIdHash = subarray 0 32 data, ad_userPresent = flags AND 0x01 \<noteq> 0,
               ad_userVerified = flags AND 0x04 \<noteq> 0, ad_backupEligible = flags AND 0x08 \<noteq> 0,
               ad_backedUp = flags AND 0x10 \<noteq> 0, ad_signCount = big_endian (subarray 33 37 data),
               ad_credentialId = None, ad_credentialPublicKey = None, ad_aaguid = None\<rparr> in
         if flags AND 0x40 = 0 then Inr base
         else if length data < 55 then Inl webauthn_error
         else
           (let idLen = big_endian (subarray 53 55 data) in
            if 1023 < idLen \<or> length data < 55 + idLen then Inl webauthn_error
            else and_then (cborDecodeFirst (drop (55 + idLen) data)) (\<lambda>(v, _). case v of
                CMap m \<Rightarrow> Inr (base\<lparr>ad_aaguid := Some (subarray 37 53 data),
                  ad_credentialId := Some (subarray 55 (55 + idLen) data), ad_credentialPublicKey := Some m\<rparr>)
              | _ \<Rightarrow> Inl webauthn_error))))"

section \<open>Client data\<close>

record client_data =
  cd_type :: string
  cd_challenge :: string
  cd_origin :: string
  cd_crossOrigin :: json

definition utf8_text :: "byte list \<Rightarrow> string" where
  "utf8_text bs = map (\<lambda>b. char_of (unat b)) bs"

definition parseClientData :: "webauthn_libs \<Rightarrow> byte list \<Rightarrow> client_data auth" where
  "parseClientData libs raw = (case wl_json libs (utf8_text raw) of
       Some (JObj kvs) \<Rightarrow> (case (json_field kvs ''type'', json_field kvs ''challenge'', json_field kvs ''origin'') of
           (JStr ty, JStr ch, JStr og) \<Rightarrow>
             Inr \<lparr>cd_type = ty, cd_challenge = ch, cd_origin = og, cd_crossOrigin = json_field kvs ''crossOrigin''\<rparr>
         | _ \<Rightarrow> Inl webauthn_error)
     | _ \<Rightarrow> Inl webauthn_error)"

definition ascii_bytes :: "string \<Rightarrow> byte list" where
  "ascii_bytes s = map (\<lambda>c. word_of_nat (code c)) s"

definition sameBytes :: "byte list \<Rightarrow> byte list \<Rightarrow> bool" where
  "sameBytes a b = (if length a \<noteq> length b then False else a = b)"

definition assertClientData :: "webauthn_libs \<Rightarrow> client_data \<Rightarrow> string \<Rightarrow> string \<Rightarrow> string list \<Rightarrow> string \<Rightarrow> byte list \<Rightarrow> unit auth" where
  "assertClientData libs client type challenge origins rpId rpIdHash =
     (if cd_type client \<noteq> type then Inl webauthn_error
      else if \<not> sameBytes (ascii_bytes (cd_challenge client)) (ascii_bytes challenge) then Inl webauthn_error
      else if cd_origin client \<notin> set origins then Inl webauthn_error
      else if cd_crossOrigin client = JBool True then Inl webauthn_error
      else if \<not> sameBytes rpIdHash (wl_sha256 libs (ascii_bytes rpId)) then Inl webauthn_error
      else Inr ())"

definition createChallenge :: "byte list \<Rightarrow> string" where
  "createChallenge random32 = b64url random32"

section \<open>Registration\<close>

record registration_input =
  ri_attestationObject :: string
  ri_clientDataJSON :: string
  ri_expectedChallenge :: string
  ri_expectedOrigins :: "string list"
  ri_expectedRpId :: string
  ri_requireUserVerification :: bool

record registered_credential =
  rc_credentialId :: string
  rc_publicKey :: string
  rc_algorithm :: int
  rc_signCount :: nat
  rc_aaguid :: "string option"
  rc_fmt :: string
  rc_backupEligible :: bool
  rc_backedUp :: bool
  rc_userVerified :: bool

definition hex_text :: "byte list \<Rightarrow> string" where
  "hex_text bs = concat (map (\<lambda>b. [digit_char (unat b div 16), digit_char (unat b mod 16)]) bs)"

text \<open>The second half, on the decoded attestation object.\<close>

definition registered :: "webauthn_libs \<Rightarrow> registration_input \<Rightarrow> client_data \<Rightarrow> cbor_map \<Rightarrow> byte list \<Rightarrow> registered_credential auth" where
  "registered libs input client m authDataRaw =
     and_then (parseAuthenticatorData authDataRaw) (\<lambda>authData.
     and_then (assertClientData libs client ''webauthn.create'' (ri_expectedChallenge input)
       (ri_expectedOrigins input) (ri_expectedRpId input) (ad_rpIdHash authData)) (\<lambda>_.
     if \<not> ad_userPresent authData then Inl webauthn_error
     else if ri_requireUserVerification input \<and> \<not> ad_userVerified authData then Inl webauthn_error
     else (case (ad_credentialId authData, ad_credentialPublicKey authData) of
       (Some cid, Some cose) \<Rightarrow>
         and_then (coseToKey libs cose) (\<lambda>(key, alg).
         Inr \<lparr>rc_credentialId = b64url cid, rc_publicKey = base64 key, rc_algorithm = alg,
           rc_signCount = ad_signCount authData, rc_aaguid = map_option hex_text (ad_aaguid authData),
           rc_fmt = (case map_of m (CText ''fmt'') of Some (CText fmt) \<Rightarrow> fmt | _ \<Rightarrow> ''none''),
           rc_backupEligible = ad_backupEligible authData, rc_backedUp = ad_backedUp authData,
           rc_userVerified = ad_userVerified authData\<rparr>)
       | _ \<Rightarrow> Inl webauthn_error)))"

definition verifyRegistration :: "webauthn_libs \<Rightarrow> registration_input \<Rightarrow> registered_credential auth" where
  "verifyRegistration libs input =
     and_then (fromB64url (ri_attestationObject input)) (\<lambda>attestation.
     and_then (fromB64url (ri_clientDataJSON input)) (\<lambda>clientDataRaw.
     and_then (parseClientData libs clientDataRaw) (\<lambda>client.
     and_then (cborDecodeFirst attestation) (\<lambda>(v, _). case v of
       CMap m \<Rightarrow> (case map_of m (CText ''authData'') of
         Some (CBytes authDataRaw) \<Rightarrow> registered libs input client m authDataRaw
       | _ \<Rightarrow> Inl webauthn_error)
     | _ \<Rightarrow> Inl webauthn_error))))"

section \<open>Authentication\<close>

record authentication_input =
  ai_credentialId :: string
  ai_authenticatorData :: string
  ai_clientDataJSON :: string
  ai_signature :: string
  ai_storedPublicKey :: string
  ai_storedAlgorithm :: int
  ai_storedSignCount :: nat
  ai_expectedChallenge :: string
  ai_expectedOrigins :: "string list"
  ai_expectedRpId :: string
  ai_requireUserVerification :: bool

record authentication_result =
  ar_signCount :: nat
  ar_userVerified :: bool
  ar_backedUp :: bool
  ar_signCountSuspect :: bool

definition verifyAuthentication :: "webauthn_libs \<Rightarrow> authentication_input \<Rightarrow> authentication_result auth" where
  "verifyAuthentication libs input =
     and_then (fromB64url (ai_authenticatorData input)) (\<lambda>authDataRaw.
     and_then (fromB64url (ai_clientDataJSON input)) (\<lambda>clientDataRaw.
     and_then (fromB64url (ai_signature input)) (\<lambda>signature.
     and_then (parseClientData libs clientDataRaw) (\<lambda>client.
     and_then (parseAuthenticatorData authDataRaw) (\<lambda>authData.
     and_then (assertClientData libs client ''webauthn.get'' (ai_expectedChallenge input)
       (ai_expectedOrigins input) (ai_expectedRpId input) (ad_rpIdHash authData)) (\<lambda>_.
     if \<not> ad_userPresent authData then Inl webauthn_error
     else if ai_requireUserVerification input \<and> \<not> ad_userVerified authData then Inl webauthn_error
     else and_then (import_key libs (buffer_from (ai_storedPublicKey input))) (\<lambda>key.
       let signedData = authDataRaw @ wl_sha256 libs clientDataRaw; alg = ai_storedAlgorithm input in
       if alg \<noteq> COSE_ES256 \<and> alg \<noteq> COSE_RS256 then Inl webauthn_error
       else if \<not> wl_signed libs alg key signedData signature then Inl webauthn_error
       else Inr \<lparr>ar_signCount = ad_signCount authData, ar_userVerified = ad_userVerified authData,
         ar_backedUp = ad_backedUp authData,
         ar_signCountSuspect = (if ad_signCount authData > 0 \<or> ai_storedSignCount input > 0
           then ad_signCount authData \<le> ai_storedSignCount input else False)\<rparr>)))))))"

section \<open>What an accepted ceremony means\<close>

lemma ascii_bytes_inj: "ascii_bytes s = ascii_bytes u \<Longrightarrow> s = u"
proof -
  have "inj (\<lambda>c. word_of_nat (code c) :: byte)"
  proof (rule injI)
    fix c d assume "(word_of_nat (code c) :: byte) = word_of_nat (code d)"
    then have "unat (word_of_nat (code c) :: byte) = unat (word_of_nat (code d) :: byte)" by simp
    then have "code c = code d" using code_less_256 [of c] code_less_256 [of d] by (simp add: unsigned_of_nat take_bit_nat_eq_self)
    then show "c = d" by (rule code_inj)
  qed
  then show "ascii_bytes s = ascii_bytes u \<Longrightarrow> s = u"
    by (simp add: ascii_bytes_def inj_map_eq_map)
qed

lemma sameBytes_iff [simp]: "sameBytes a b \<longleftrightarrow> a = b"
  by (auto simp: sameBytes_def)

lemma assertClientData_Inr:
  "assertClientData libs client ty ch ogs rp h = Inr u \<longleftrightarrow>
   cd_type client = ty \<and> cd_challenge client = ch \<and> cd_origin client \<in> set ogs \<and> cd_crossOrigin client \<noteq> JBool True \<and>
   h = wl_sha256 libs (ascii_bytes rp)"
  by (auto simp: assertClientData_def dest: ascii_bytes_inj)

lemma registered_client:
  "registered libs input client m raw = Inr c \<Longrightarrow>
    cd_type client = ''webauthn.create'' \<and> cd_challenge client = ri_expectedChallenge input \<and>
    cd_origin client \<in> set (ri_expectedOrigins input)"
  unfolding registered_def by (auto simp: and_then_Inr assertClientData_Inr)

lemma registration_client:
  assumes "verifyRegistration libs input = Inr c"
  shows "\<exists>raw client. fromB64url (ri_clientDataJSON input) = Inr raw \<and> parseClientData libs raw = Inr client \<and>
    cd_type client = ''webauthn.create'' \<and> cd_challenge client = ri_expectedChallenge input \<and>
    cd_origin client \<in> set (ri_expectedOrigins input)"
proof -
  from assms obtain att raw client v n where
    *: "fromB64url (ri_clientDataJSON input) = Inr raw" "parseClientData libs raw = Inr client" and
    v: "(case v of CMap m \<Rightarrow> (case map_of m (CText ''authData'') of
         Some (CBytes authDataRaw) \<Rightarrow> registered libs input client m authDataRaw
       | _ \<Rightarrow> Inl webauthn_error)
     | _ \<Rightarrow> Inl webauthn_error) = Inr c"
    unfolding verifyRegistration_def by (auto simp: and_then_Inr)
  obtain m a where "registered libs input client m a = Inr c"
    using v by (auto split: cbor.splits option.splits)
  from registered_client [OF this] * show ?thesis by blast
qed

text \<open>
  C11. An accepted passkey assertion proves what it should: the signature verifies, under the stored key, over exactly the
  authenticator data and the hash of the client data presented; the client data names this challenge and one of the
  expected origins letter by letter, is not cross-origin, and the authenticator data names the relying party and a
  present user; the clone warning is raised exactly when a counter is in use and did not advance.  The same client data
  can never be accepted as a registration.
\<close>

theorem assertion_proves_ceremony:
  assumes "verifyAuthentication libs input = Inr r"
  shows "\<exists>authRaw clientRaw signature client ad key.
    fromB64url (ai_authenticatorData input) = Inr authRaw \<and> fromB64url (ai_clientDataJSON input) = Inr clientRaw \<and>
    fromB64url (ai_signature input) = Inr signature \<and> wl_import libs (buffer_from (ai_storedPublicKey input)) = Some key \<and>
    wl_signed libs (ai_storedAlgorithm input) key (authRaw @ wl_sha256 libs clientRaw) signature \<and>
    ai_storedAlgorithm input \<in> set SUPPORTED_ALGORITHMS \<and>
    parseClientData libs clientRaw = Inr client \<and> cd_challenge client = ai_expectedChallenge input \<and>
    cd_origin client \<in> set (ai_expectedOrigins input) \<and> cd_crossOrigin client \<noteq> JBool True \<and>
    parseAuthenticatorData authRaw = Inr ad \<and> ad_userPresent ad \<and>
    ad_rpIdHash ad = wl_sha256 libs (ascii_bytes (ai_expectedRpId input)) \<and>
    (ar_signCountSuspect r \<longleftrightarrow> ad_signCount ad \<le> ai_storedSignCount input \<and> ai_storedSignCount input > 0) \<and>
    (ri_clientDataJSON reg = ai_clientDataJSON input \<longrightarrow> (\<forall>c. verifyRegistration libs reg \<noteq> Inr c))"
proof -
  from assms obtain authRaw clientRaw signature client ad key where
    *: "fromB64url (ai_authenticatorData input) = Inr authRaw" "fromB64url (ai_clientDataJSON input) = Inr clientRaw"
      "fromB64url (ai_signature input) = Inr signature" "wl_import libs (buffer_from (ai_storedPublicKey input)) = Some key"
      "wl_signed libs (ai_storedAlgorithm input) key (authRaw @ wl_sha256 libs clientRaw) signature"
      "ai_storedAlgorithm input \<in> set SUPPORTED_ALGORITHMS" "parseClientData libs clientRaw = Inr client"
      "cd_type client = ''webauthn.get''" "cd_challenge client = ai_expectedChallenge input"
      "cd_origin client \<in> set (ai_expectedOrigins input)" "cd_crossOrigin client \<noteq> JBool True"
      "parseAuthenticatorData authRaw = Inr ad" "ad_userPresent ad"
      "ad_rpIdHash ad = wl_sha256 libs (ascii_bytes (ai_expectedRpId input))"
      "ar_signCountSuspect r = (if ad_signCount ad > 0 \<or> ai_storedSignCount input > 0
           then ad_signCount ad \<le> ai_storedSignCount input else False)"
    unfolding verifyAuthentication_def import_key_def SUPPORTED_ALGORITHMS_def
    by (auto simp: and_then_Inr assertClientData_Inr Let_def split: option.splits if_split_asm)
  have "ar_signCountSuspect r \<longleftrightarrow> ad_signCount ad \<le> ai_storedSignCount input \<and> ai_storedSignCount input > 0"
    unfolding *(15) by auto
  moreover have "verifyRegistration libs reg \<noteq> Inr c" if "ri_clientDataJSON reg = ai_clientDataJSON input" for c
    using registration_client [of libs reg c] that *(2,7,8) by auto
  ultimately show ?thesis using *(1-7,9-14) by blast
qed

definition sample_webauthn :: webauthn_libs where
  "sample_webauthn = \<lparr>wl_sha256 = (\<lambda>_. replicate 32 0),
     wl_json = (\<lambda>_. Some (JObj [(''type'', JStr ''webauthn.get''), (''challenge'', JStr ''c''), (''origin'', JStr ''o'')])),
     wl_import = Some, wl_signed = (\<lambda>_ _ _ _. True)\<rparr>"

definition sample_assertion :: authentication_input where
  "sample_assertion = \<lparr>ai_credentialId = ''AA'', ai_authenticatorData = ''AAAAAAAAAAAAAAAAAAAAAAAAAAAAAAAAAAAAAAAAAAABAAAABQ'',
     ai_clientDataJSON = ''AA'', ai_signature = ''AA'', ai_storedPublicKey = ''AA'', ai_storedAlgorithm = - 7,
     ai_storedSignCount = 7, ai_expectedChallenge = ''c'', ai_expectedOrigins = [''x'', ''o''], ai_expectedRpId = ''r'',
     ai_requireUserVerification = False\<rparr>"

definition sample_registration :: registration_input where
  "sample_registration = \<lparr>ri_attestationObject = ''oA'', ri_clientDataJSON = ''AA'', ri_expectedChallenge = ''c'',
     ri_expectedOrigins = [''o''], ri_expectedRpId = ''r'', ri_requireUserVerification = False\<rparr>"

theorem assertion_proves_ceremony_witness:
  "verifyAuthentication sample_webauthn sample_assertion =
     Inr \<lparr>ar_signCount = 5, ar_userVerified = False, ar_backedUp = False, ar_signCountSuspect = True\<rparr> \<and>
   (\<exists>e. verifyRegistration sample_webauthn sample_registration = Inl e)"
proof -
  have v: "verifyAuthentication sample_webauthn sample_assertion =
     Inr \<lparr>ar_signCount = 5, ar_userVerified = False, ar_backedUp = False, ar_signCountSuspect = True\<rparr>"
    by code_simp
  have "ri_clientDataJSON sample_registration = ai_clientDataJSON sample_assertion"
    by (simp add: sample_registration_def sample_assertion_def)
  with assertion_proves_ceremony [OF v, of sample_registration]
  have "verifyRegistration sample_webauthn sample_registration \<noteq> Inr c" for c by (elim exE conjE) simp
  then have "\<exists>e. verifyRegistration sample_webauthn sample_registration = Inl e"
    by (cases "verifyRegistration sample_webauthn sample_registration") auto
  with v show ?thesis by simp
qed

end
