(* ===== verification/Actions.thy ===== *)
theory Actions
  imports Prelude
begin

text \<open>
  Operations that change a state and may throw: what \<open>await\<close> chains compute on one state.  An exception keeps the
  changes made before it.  Two ways to reason: a relation between the states before and after that every step
  keeps (a locale for reflexive and transitive relations), and triples of a precondition, an invariant and a
  postcondition of the returned value.
\<close>

type_synonym ('s, 'e, 'a) act = "'s \<Rightarrow> ('e + 'a) \<times> 's"

definition act_return :: "'a \<Rightarrow> ('s, 'e, 'a) act" where
  "act_return a = (\<lambda>s. (Inr a, s))"

definition act_throw :: "'e \<Rightarrow> ('s, 'e, 'a) act" where
  "act_throw e = (\<lambda>s. (Inl e, s))"

definition act_bind :: "('s, 'e, 'a) act \<Rightarrow> ('a \<Rightarrow> ('s, 'e, 'b) act) \<Rightarrow> ('s, 'e, 'b) act" where
  "act_bind m f = (\<lambda>s. case m s of (Inl e, s') \<Rightarrow> (Inl e, s') | (Inr a, s') \<Rightarrow> f a s')"

definition act_seq :: "('s, 'e, 'a) act \<Rightarrow> ('s, 'e, 'b) act \<Rightarrow> ('s, 'e, 'b) act" where
  "act_seq m k = act_bind m (\<lambda>_. k)"

definition act_asks :: "('s \<Rightarrow> 'a) \<Rightarrow> ('s, 'e, 'a) act" where
  "act_asks f = (\<lambda>s. (Inr (f s), s))"

definition act_modify :: "('s \<Rightarrow> 's) \<Rightarrow> ('s, 'e, unit) act" where
  "act_modify f = (\<lambda>s. (Inr (), f s))"

definition act_run :: "('s \<Rightarrow> 'a \<times> 's) \<Rightarrow> ('s, 'e, 'a) act" where
  "act_run f = (\<lambda>s. case f s of (a, s') \<Rightarrow> (Inr a, s'))"

definition act_lift :: "('e + 'a) \<Rightarrow> ('s, 'e, 'a) act" where
  "act_lift r = (\<lambda>s. (r, s))"

definition act_require :: "bool \<Rightarrow> 'e \<Rightarrow> ('s, 'e, unit) act" where
  "act_require b e = (if b then act_return () else act_throw e)"

definition act_some :: "'a option \<Rightarrow> 'e \<Rightarrow> ('s, 'e, 'a) act" where
  "act_some v e = (case v of Some a \<Rightarrow> act_return a | None \<Rightarrow> act_throw e)"

definition act_when :: "bool \<Rightarrow> ('s, 'e, unit) act \<Rightarrow> ('s, 'e, unit) act" where
  "act_when b m = (if b then m else act_return ())"

text \<open>\<open>try m catch (e) { h e }\<close>\<close>

definition act_catch :: "('s, 'e, 'a) act \<Rightarrow> ('e \<Rightarrow> ('s, 'e, 'a) act) \<Rightarrow> ('s, 'e, 'a) act" where
  "act_catch m h = (\<lambda>s. case m s of (Inl e, s') \<Rightarrow> h e s' | (Inr a, s') \<Rightarrow> (Inr a, s'))"

lemmas act_defs = act_return_def act_throw_def act_bind_def act_seq_def act_asks_def act_modify_def act_run_def
  act_lift_def act_require_def act_some_def act_when_def act_catch_def

section \<open>Running\<close>

lemma act_bind_Inr:
  "act_bind m f s = (Inr b, s'') \<longleftrightarrow> (\<exists>a s'. m s = (Inr a, s') \<and> f a s' = (Inr b, s''))"
  by (auto simp: act_bind_def split: prod.splits sum.splits)

lemma act_seq_Inr:
  "act_seq m k s = (Inr b, s'') \<longleftrightarrow> (\<exists>a s'. m s = (Inr a, s') \<and> k s' = (Inr b, s''))"
  by (simp add: act_seq_def act_bind_Inr)

lemma act_simps [simp]:
  "act_return a s = (Inr a, s)"
  "act_throw e s = (Inl e, s)"
  "act_asks f s = (Inr (f s), s)"
  "act_modify g s = (Inr (), g s)"
  "act_lift r s = (r, s)"
  by (simp_all add: act_defs)

lemma act_require_Inr: "act_require b e s = (Inr u, s') \<longleftrightarrow> b \<and> s' = s"
  by (auto simp: act_require_def)

lemma act_some_Inr: "act_some v e s = (Inr a, s') \<longleftrightarrow> v = Some a \<and> s' = s"
  by (auto simp: act_some_def split: option.splits)

lemma act_run_Inr: "act_run f s = (Inr a, s') \<longleftrightarrow> f s = (a, s')"
  by (auto simp: act_run_def split: prod.splits)

lemma act_when_Inr: "act_when b m s = (Inr u, s') \<longleftrightarrow> (if b then m s = (Inr (), s') else s' = s)"
  by (auto simp: act_when_def)

lemma act_catch_Inr:
  "act_catch m h s = (Inr a, s'') \<longleftrightarrow> m s = (Inr a, s'') \<or> (\<exists>e s'. m s = (Inl e, s') \<and> h e s' = (Inr a, s''))"
  by (auto simp: act_catch_def split: prod.splits sum.splits)

lemmas act_Inr = act_bind_Inr act_seq_Inr act_require_Inr act_some_Inr act_run_Inr act_when_Inr act_catch_Inr

section \<open>Relations every step keeps\<close>

definition keeps :: "('s \<Rightarrow> 's \<Rightarrow> bool) \<Rightarrow> ('s, 'e, 'a) act \<Rightarrow> bool" where
  "keeps R m \<longleftrightarrow> (\<forall>s. R s (snd (m s)))"

lemma keepsD: "keeps R m \<Longrightarrow> R s (snd (m s))"
  by (simp add: keeps_def)

locale kept_relation =
  fixes R :: "'s \<Rightarrow> 's \<Rightarrow> bool"
  assumes same: "R s s"
    and step: "R s t \<Longrightarrow> R t u \<Longrightarrow> R s u"
begin

lemma keeps_return: "keeps R (act_return a)"
  by (simp add: keeps_def same)

lemma keeps_throw: "keeps R (act_throw e)"
  by (simp add: keeps_def same)

lemma keeps_asks: "keeps R (act_asks f)"
  by (simp add: keeps_def same)

lemma keeps_lift: "keeps R (act_lift r)"
  by (simp add: keeps_def same)

lemma keeps_require: "keeps R (act_require b e)"
  by (simp add: act_require_def keeps_return keeps_throw)

lemma keeps_some: "keeps R (act_some v e)"
  by (simp add: act_some_def keeps_return keeps_throw split: option.split)

lemma keeps_modify: "(\<And>s. R s (f s)) \<Longrightarrow> keeps R (act_modify f)"
  by (simp add: keeps_def)

lemma keeps_run: "(\<And>s. R s (snd (f s))) \<Longrightarrow> keeps R (act_run f)"
  by (simp add: keeps_def act_run_def case_prod_beta)

lemma keeps_bind: "keeps R m \<Longrightarrow> (\<And>a. keeps R (f a)) \<Longrightarrow> keeps R (act_bind m f)"
  by (auto simp: keeps_def act_bind_def split: prod.split sum.split intro: step)
    (metis snd_conv step)+

lemma keeps_seq: "keeps R m \<Longrightarrow> keeps R k \<Longrightarrow> keeps R (act_seq m k)"
  by (simp add: act_seq_def keeps_bind)

lemma keeps_when: "keeps R m \<Longrightarrow> keeps R (act_when b m)"
  by (simp add: act_when_def keeps_return)

lemma keeps_catch: "keeps R m \<Longrightarrow> (\<And>e. keeps R (h e)) \<Longrightarrow> keeps R (act_catch m h)"
  by (auto simp: keeps_def act_catch_def split: prod.split sum.split intro: step)
    (metis snd_conv step)+

lemma keeps_if: "(b \<Longrightarrow> keeps R m) \<Longrightarrow> (\<not> b \<Longrightarrow> keeps R k) \<Longrightarrow> keeps R (if b then m else k)"
  by simp

lemma keeps_option:
  "(v = None \<Longrightarrow> keeps R m) \<Longrightarrow> (\<And>x. v = Some x \<Longrightarrow> keeps R (k x)) \<Longrightarrow>
   keeps R (case v of None \<Rightarrow> m | Some x \<Rightarrow> k x)"
  by (simp split: option.split)

lemma keeps_prod: "(\<And>x y. p = (x, y) \<Longrightarrow> keeps R (k x y)) \<Longrightarrow> keeps R (case p of (x, y) \<Rightarrow> k x y)"
  by (simp split: prod.split)

lemmas keeps_rules = keeps_return keeps_throw keeps_asks keeps_lift keeps_require keeps_some keeps_bind keeps_seq
  keeps_when keeps_catch keeps_if keeps_option keeps_prod

end

section \<open>Triples with an invariant\<close>

definition triple :: "('s \<Rightarrow> bool) \<Rightarrow> ('s \<Rightarrow> bool) \<Rightarrow> ('s, 'e, 'a) act \<Rightarrow> ('a \<Rightarrow> 's \<Rightarrow> bool) \<Rightarrow> bool" where
  "triple I P m Q \<longleftrightarrow> (\<forall>s. I s \<longrightarrow> P s \<longrightarrow> I (snd (m s)) \<and> (\<forall>a. fst (m s) = Inr a \<longrightarrow> Q a (snd (m s))))"

lemma tripleI:
  "(\<And>s r s'. I s \<Longrightarrow> P s \<Longrightarrow> m s = (r, s') \<Longrightarrow> I s' \<and> (\<forall>a. r = Inr a \<longrightarrow> Q a s')) \<Longrightarrow> triple I P m Q"
  unfolding triple_def by (metis prod.collapse)

lemma triple_bind:
  assumes "triple I P m Q" and "\<And>a. triple I (Q a) (f a) R"
  shows "triple I P (act_bind m f) R"
proof (rule tripleI)
  fix s r s' assume s: "I s" "P s" "act_bind m f s = (r, s')"
  obtain x s1 where m: "m s = (x, s1)" by fastforce
  show "I s' \<and> (\<forall>a. r = Inr a \<longrightarrow> R a s')"
  proof (cases x)
    case (Inl e)
    then show ?thesis using assms(1) s m by (auto simp: triple_def act_bind_def)
  next
    case (Inr a)
    then have "I s1" "Q a s1" "f a s1 = (r, s')" using assms(1) s m by (auto simp: triple_def act_bind_def)
    then show ?thesis using assms(2) [of a] by (auto simp: triple_def)
  qed
qed

lemma triple_seq: "triple I P m (\<lambda>_. Q) \<Longrightarrow> triple I Q k R \<Longrightarrow> triple I P (act_seq m k) R"
  unfolding act_seq_def by (rule triple_bind)

lemma triple_weaken: "triple I P m Q \<Longrightarrow> (\<And>s. I s \<Longrightarrow> P' s \<Longrightarrow> P s) \<Longrightarrow> (\<And>a s. Q a s \<Longrightarrow> Q' a s) \<Longrightarrow> triple I P' m Q'"
  by (simp add: triple_def)

lemma triple_asks: "triple I P (act_asks f) (\<lambda>a s. P s \<and> a = f s)"
  by (simp add: triple_def)

lemma triple_return: "triple I (P a) (act_return a) P"
  by (simp add: triple_def)

lemma triple_throw: "triple I P (act_throw e) Q"
  by (simp add: triple_def)

lemma triple_require: "triple I P (act_require b e) (\<lambda>_ s. P s \<and> b)"
  by (simp add: triple_def act_require_def)

lemma triple_some: "triple I P (act_some v e) (\<lambda>a s. P s \<and> v = Some a)"
  by (simp add: triple_def act_some_def split: option.split)

lemma triple_lift: "triple I P (act_lift r) (\<lambda>a s. P s \<and> r = Inr a)"
  by (simp add: triple_def)

lemma triple_if: "(b \<Longrightarrow> triple I P m Q) \<Longrightarrow> (\<not> b \<Longrightarrow> triple I P k Q) \<Longrightarrow> triple I P (if b then m else k) Q"
  by simp

lemma tripleD: "triple I P m Q \<Longrightarrow> I s \<Longrightarrow> P s \<Longrightarrow> m s = (Inr a, t) \<Longrightarrow> I t \<and> Q a t"
  unfolding triple_def by (metis fst_conv snd_conv)

text \<open>A step keeping a relation keeps what the relation keeps.\<close>

lemma triple_keeps: "keeps R m \<Longrightarrow> (\<And>s t. I s \<Longrightarrow> P s \<Longrightarrow> R s t \<Longrightarrow> I t \<and> Q t) \<Longrightarrow> triple I P m (\<lambda>_. Q)"
  by (simp add: triple_def keeps_def)

end
