(* ===== verification/AuthStore.thy ===== *)
theory AuthStore
  imports AuthCodes WebAuthn Actions
begin

text \<open>
  The customer identity model (\<open>packages/auth/src/customer/types.ts\<close>) and its memory store
  (\<open>customer/store.ts\<close>), one \<open>Map\<close> per table, keyed by texts \<open>projectId:id\<close>.  The state also holds what the service
  leaves elsewhere: the passcode store, the audit trail, and the messages handed to the mail and SMS drivers.
\<close>

section \<open>Types (types.ts)\<close>

datatype customer_role = Authenticated | AdminRole | ServiceRole | AnonymousRole

definition CUSTOMER_ROLES :: "customer_role list" where
  "CUSTOMER_ROLES = [Authenticated, AdminRole, ServiceRole, AnonymousRole]"

definition role_text :: "customer_role \<Rightarrow> string" where
  "role_text r = (case r of Authenticated \<Rightarrow> ''authenticated'' | AdminRole \<Rightarrow> ''admin''
     | ServiceRole \<Rightarrow> ''service_role'' | AnonymousRole \<Rightarrow> ''anonymous'')"

datatype customer_status = UserActive | UserDisabled | UserDeleted

record customer_user =
  cu_id :: string
  cu_projectId :: string
  cu_email :: string
  cu_phone :: "string option"
  cu_passwordHash :: "string option"
  cu_emailVerified :: bool
  cu_phoneVerified :: bool
  cu_status :: customer_status
  cu_isAnonymous :: bool
  cu_totpSecret :: "string option"
  cu_totpEnabled :: bool
  cu_backupCodeHashes :: "string list"
  cu_userMetadata :: "(string, json) jsmap"
  cu_appMetadata :: "(string, json) jsmap"
  cu_createdAt :: instant
  cu_updatedAt :: instant
  cu_lastSignInAt :: "instant option"

record exposed_user =
  eu_id :: string
  eu_email :: string
  eu_phone :: "string option"
  eu_emailVerified :: bool
  eu_phoneVerified :: bool
  eu_status :: customer_status
  eu_role :: customer_role
  eu_isAnonymous :: bool
  eu_totpEnabled :: bool
  eu_userMetadata :: "(string, json) jsmap"
  eu_appMetadata :: "(string, json) jsmap"
  eu_createdAt :: instant
  eu_updatedAt :: instant
  eu_lastSignInAt :: "instant option"

definition is_admin :: "customer_user \<Rightarrow> bool" where
  "is_admin u \<longleftrightarrow> js_get (cu_appMetadata u) ''role'' = Some (JStr ''admin'')"

definition exposeUser :: "customer_user \<Rightarrow> exposed_user" where
  "exposeUser u =
     \<lparr>eu_id = cu_id u, eu_email = cu_email u, eu_phone = cu_phone u, eu_emailVerified = cu_emailVerified u,
      eu_phoneVerified = cu_phoneVerified u, eu_status = cu_status u,
      eu_role = (if is_admin u then AdminRole else if cu_isAnonymous u then AnonymousRole else Authenticated),
      eu_isAnonymous = cu_isAnonymous u, eu_totpEnabled = cu_totpEnabled u, eu_userMetadata = cu_userMetadata u,
      eu_appMetadata = cu_appMetadata u, eu_createdAt = cu_createdAt u, eu_updatedAt = cu_updatedAt u,
      eu_lastSignInAt = cu_lastSignInAt u\<rparr>"

record customer_session =
  cs_id :: string
  cs_userId :: string
  cs_projectId :: string
  cs_refreshTokenHash :: string
  cs_usedRefreshHashes :: "string list"
  cs_ipAddress :: "string option"
  cs_userAgent :: "string option"
  cs_createdAt :: instant
  cs_updatedAt :: instant
  cs_expiresAt :: instant
  cs_lastActiveAt :: instant
  cs_revokedAt :: "instant option"

datatype token_kind = VerifyToken | ResetToken | MagicToken | MfaToken

record one_time_token =
  ot_tokenHash :: string
  ot_userId :: string
  ot_projectId :: string
  ot_kind :: token_kind
  ot_expiresAt :: instant
  ot_consumedAt :: "instant option"
  ot_createdAt :: instant

record auth_tokens =
  tk_accessToken :: string
  tk_refreshToken :: string
  tk_expiresIn :: int

record auth_config =
  ac_accessTtlSeconds :: int
  ac_refreshTtlSeconds :: int
  ac_resetTtlSeconds :: int
  ac_verifyTtlSeconds :: int
  ac_jwtSecret :: string
  ac_issuer :: string
  ac_passwordPolicy :: "password_policy option"

datatype audit_event =
    UserSignup | UserLogin | UserLoginFailed | UserLogout | PasswordChanged | PasswordResetRequested
  | PasswordResetCompleted | EmailVerified | SessionCreated | SessionRevoked | AccountDisabled | AccountDeleted
  | AnonymousCreated | UserConverted | OtpRequested | OtpVerified | MagicRequested | MagicConsumed | MfaEnrolled
  | MfaDisabled | MfaChallenged | MfaVerified | PasskeyRegistered | PasskeyAuthenticated | PasskeyRemoved
  | PasskeyCloneSuspected | PhoneVerified

record passkey_credential =
  pk_projectId :: string
  pk_credentialId :: string
  pk_userId :: string
  pk_publicKey :: string
  pk_algorithm :: int
  pk_signCount :: nat
  pk_aaguid :: "string option"
  pk_fmt :: string
  pk_label :: "string option"
  pk_backedUp :: bool
  pk_createdAt :: instant
  pk_lastUsedAt :: "instant option"

datatype challenge_kind = RegisterChallenge | AuthenticateChallenge

record passkey_challenge =
  pc_projectId :: string
  pc_challenge :: string
  pc_userId :: "string option"
  pc_kind :: challenge_kind
  pc_expiresAt :: instant

record public_passkey =
  pp_id :: string
  pp_label :: "string option"
  pp_backedUp :: bool
  pp_createdAt :: instant
  pp_lastUsedAt :: "instant option"

definition toPublicPasskey :: "passkey_credential \<Rightarrow> public_passkey" where
  "toPublicPasskey c = \<lparr>pp_id = take 16 (pk_credentialId c), pp_label = pk_label c, pp_backedUp = pk_backedUp c,
     pp_createdAt = pk_createdAt c, pp_lastUsedAt = pk_lastUsedAt c\<rparr>"

section \<open>The state\<close>

record audit_entry =
  au_event :: audit_event
  au_projectId :: string
  au_userId :: "string option"
  au_sessionId :: "string option"

datatype mail_kind = VerifyMail | ResetMail | MagicMail | OtpMail otp_purpose

record mail =
  ml_kind :: mail_kind
  ml_to :: string
  ml_content :: string

record auth_state =
  users :: "(string, customer_user) jsmap"
  sessions :: "(string, customer_session) jsmap"
  tokens :: "(string, one_time_token) jsmap"
  passkeys :: "(string, passkey_credential) jsmap"
  challenges :: "(string, passkey_challenge) jsmap"
  otps :: otp_store
  audits :: "audit_entry list"
  mails :: "mail list"
  texts :: "(string \<times> string) list"

definition empty_auth :: auth_state where
  "empty_auth = \<lparr>users = [], sessions = [], tokens = [], passkeys = [], challenges = [], otps = [], audits = [],
     mails = [], texts = []\<rparr>"

definition keyed :: "string \<Rightarrow> string \<Rightarrow> string" where
  "keyed projectId k = projectId @ '':'' @ k"

section \<open>Users (store.ts)\<close>

record new_user =
  nu_projectId :: string
  nu_email :: string
  nu_passwordHash :: "string option"
  nu_userMetadata :: "(string, json) jsmap"
  nu_isAnonymous :: bool
  nu_phone :: "string option"

definition user_at :: "string \<Rightarrow> string \<Rightarrow> customer_user \<Rightarrow> bool" where
  "user_at projectId email u \<longleftrightarrow> cu_projectId u = projectId \<and> cu_email u = email \<and> cu_status u \<noteq> UserDeleted"

definition st_createUser :: "string \<Rightarrow> instant \<Rightarrow> new_user \<Rightarrow> auth_state \<Rightarrow> customer_user auth \<times> auth_state" where
  "st_createUser uuid now input s =
     (let email = to_lower (nu_email input) in
      if list_ex (user_at (nu_projectId input) email) (js_values (users s)) then (Inl (AuthBase EMAIL_TAKEN), s)
      else
        (let user = \<lparr>cu_id = uuid, cu_projectId = nu_projectId input, cu_email = email, cu_phone = nu_phone input,
               cu_passwordHash = nu_passwordHash input, cu_emailVerified = False, cu_phoneVerified = False,
               cu_status = UserActive, cu_isAnonymous = nu_isAnonymous input, cu_totpSecret = None,
               cu_totpEnabled = False, cu_backupCodeHashes = [], cu_userMetadata = nu_userMetadata input,
               cu_appMetadata = [(''role'', JStr ''authenticated'')], cu_createdAt = now, cu_updatedAt = now,
               cu_lastSignInAt = None\<rparr> in
         (Inr user, s\<lparr>users := js_set (keyed (nu_projectId input) uuid) user (users s)\<rparr>)))"

definition st_findUserByEmail :: "string \<Rightarrow> string \<Rightarrow> auth_state \<Rightarrow> customer_user option" where
  "st_findUserByEmail projectId email s = find (user_at projectId (to_lower email)) (js_values (users s))"

definition live_user :: "customer_user option \<Rightarrow> customer_user option" where
  "live_user v = (case v of None \<Rightarrow> None | Some u \<Rightarrow> if cu_status u = UserDeleted then None else Some u)"

definition st_findUserById :: "string \<Rightarrow> string \<Rightarrow> auth_state \<Rightarrow> customer_user option" where
  "st_findUserById projectId userId s = live_user (js_get (users s) (keyed projectId userId))"

definition st_findUserByPhone :: "string \<Rightarrow> string \<Rightarrow> auth_state \<Rightarrow> customer_user option" where
  "st_findUserByPhone projectId phone s =
     find (\<lambda>u. cu_projectId u = projectId \<and> cu_phone u = Some phone \<and> cu_status u \<noteq> UserDeleted) (js_values (users s))"

text \<open>The patch is the record update it spreads; the identifiers and the time are written after it.\<close>

definition st_updateUser :: "instant \<Rightarrow> string \<Rightarrow> string \<Rightarrow> (customer_user \<Rightarrow> customer_user) \<Rightarrow> auth_state \<Rightarrow>
    customer_user option \<times> auth_state" where
  "st_updateUser now projectId userId patch s = (case st_findUserById projectId userId s of
       None \<Rightarrow> (None, s)
     | Some u \<Rightarrow>
         (let v = (patch u)\<lparr>cu_id := cu_id u, cu_projectId := cu_projectId u, cu_updatedAt := now\<rparr> in
          (Some v, s\<lparr>users := js_set (keyed projectId userId) v (users s)\<rparr>)))"

definition st_deleteUser :: "instant \<Rightarrow> string \<Rightarrow> string \<Rightarrow> auth_state \<Rightarrow> bool \<times> auth_state" where
  "st_deleteUser now projectId userId s = (case st_findUserById projectId userId s of
       None \<Rightarrow> (False, s)
     | Some u \<Rightarrow> (True, s\<lparr>users := js_set (keyed projectId userId) (u\<lparr>cu_status := UserDeleted, cu_updatedAt := now\<rparr>)
         (users s)\<rparr>))"

definition st_listUsers :: "string \<Rightarrow> auth_state \<Rightarrow> customer_user list" where
  "st_listUsers projectId s =
     filter (\<lambda>u. cu_projectId u = projectId \<and> cu_status u \<noteq> UserDeleted) (js_values (users s))"

section \<open>Sessions (store.ts)\<close>

text \<open>The identifier, the used hashes and the two times of the argument are not looked at.\<close>

definition st_createSession :: "string \<Rightarrow> instant \<Rightarrow> customer_session \<Rightarrow> auth_state \<Rightarrow> customer_session \<times> auth_state" where
  "st_createSession uuid now session s =
     (let full = session\<lparr>cs_id := uuid, cs_usedRefreshHashes := [], cs_createdAt := now, cs_updatedAt := now\<rparr> in
      (full, s\<lparr>sessions := js_set (keyed (cs_projectId session) uuid) full (sessions s)\<rparr>))"

definition st_findSession :: "string \<Rightarrow> string \<Rightarrow> auth_state \<Rightarrow> customer_session option" where
  "st_findSession projectId sessionId s = js_get (sessions s) (keyed projectId sessionId)"

definition holds_hash :: "string \<Rightarrow> string \<Rightarrow> customer_session \<Rightarrow> bool" where
  "holds_hash projectId hash x \<longleftrightarrow>
     cs_projectId x = projectId \<and> (cs_refreshTokenHash x = hash \<or> hash \<in> set (cs_usedRefreshHashes x))"

definition st_findSessionByRefreshHash :: "string \<Rightarrow> string \<Rightarrow> auth_state \<Rightarrow> customer_session option" where
  "st_findSessionByRefreshHash projectId hash s = find (holds_hash projectId hash) (js_values (sessions s))"

definition change_session :: "string \<Rightarrow> string \<Rightarrow> (customer_session \<Rightarrow> customer_session) \<Rightarrow> auth_state \<Rightarrow> auth_state" where
  "change_session projectId sessionId f s = (case js_get (sessions s) (keyed projectId sessionId) of
       None \<Rightarrow> s | Some x \<Rightarrow> s\<lparr>sessions := js_set (keyed projectId sessionId) (f x) (sessions s)\<rparr>)"

definition st_touchSession :: "instant \<Rightarrow> string \<Rightarrow> string \<Rightarrow> string \<Rightarrow> auth_state \<Rightarrow> auth_state" where
  "st_touchSession now projectId sessionId refreshTokenHash s = change_session projectId sessionId
     (\<lambda>x. x\<lparr>cs_refreshTokenHash := refreshTokenHash, cs_lastActiveAt := now, cs_updatedAt := now\<rparr>) s"

definition last_ten :: "'a list \<Rightarrow> 'a list" where
  "last_ten xs = drop (length xs - 10) xs"

definition st_markRefreshUsed :: "instant \<Rightarrow> string \<Rightarrow> string \<Rightarrow> string \<Rightarrow> auth_state \<Rightarrow> auth_state" where
  "st_markRefreshUsed now projectId sessionId oldHash s = change_session projectId sessionId
     (\<lambda>x. x\<lparr>cs_usedRefreshHashes := last_ten (cs_usedRefreshHashes x @ [oldHash]), cs_updatedAt := now\<rparr>) s"

definition st_revokeSession :: "instant \<Rightarrow> string \<Rightarrow> string \<Rightarrow> auth_state \<Rightarrow> bool \<times> auth_state" where
  "st_revokeSession now projectId sessionId s = (case js_get (sessions s) (keyed projectId sessionId) of
       None \<Rightarrow> (False, s)
     | Some x \<Rightarrow> if cs_revokedAt x \<noteq> None then (False, s)
         else (True, s\<lparr>sessions := js_set (keyed projectId sessionId) (x\<lparr>cs_revokedAt := Some now\<rparr>) (sessions s)\<rparr>))"

definition live_of :: "string \<Rightarrow> string \<Rightarrow> customer_session \<Rightarrow> bool" where
  "live_of projectId userId x \<longleftrightarrow> cs_projectId x = projectId \<and> cs_userId x = userId \<and> cs_revokedAt x = None"

definition st_revokeUserSessions :: "instant \<Rightarrow> string \<Rightarrow> string \<Rightarrow> auth_state \<Rightarrow> nat \<times> auth_state" where
  "st_revokeUserSessions now projectId userId s =
     (length (filter (live_of projectId userId) (js_values (sessions s))),
      s\<lparr>sessions := map_vals (\<lambda>x. if live_of projectId userId x then x\<lparr>cs_revokedAt := Some now\<rparr> else x) (sessions s)\<rparr>)"

definition st_listSessions :: "string \<Rightarrow> string \<Rightarrow> auth_state \<Rightarrow> customer_session list" where
  "st_listSessions projectId userId s =
     map (\<lambda>x. x\<lparr>cs_refreshTokenHash := [], cs_usedRefreshHashes := []\<rparr>)
       (filter (live_of projectId userId) (js_values (sessions s)))"

section \<open>One-time tokens (store.ts)\<close>

definition st_saveToken :: "instant \<Rightarrow> one_time_token \<Rightarrow> auth_state \<Rightarrow> auth_state" where
  "st_saveToken now t s =
     s\<lparr>tokens := js_set (keyed (ot_projectId t) (ot_tokenHash t)) (t\<lparr>ot_createdAt := now\<rparr>) (tokens s)\<rparr>"

definition st_findToken :: "instant \<Rightarrow> string \<Rightarrow> string \<Rightarrow> token_kind \<Rightarrow> auth_state \<Rightarrow> one_time_token option" where
  "st_findToken now projectId hash kind s = (case js_get (tokens s) (keyed projectId hash) of
       None \<Rightarrow> None
     | Some t \<Rightarrow> if ot_kind t \<noteq> kind \<or> ot_consumedAt t \<noteq> None then None
         else if ot_expiresAt t \<le> now then None else Some t)"

definition st_consumeToken :: "instant \<Rightarrow> string \<Rightarrow> string \<Rightarrow> auth_state \<Rightarrow> bool \<times> auth_state" where
  "st_consumeToken now projectId hash s = (case js_get (tokens s) (keyed projectId hash) of
       None \<Rightarrow> (False, s)
     | Some t \<Rightarrow> if ot_consumedAt t \<noteq> None then (False, s)
         else (True, s\<lparr>tokens := js_set (keyed projectId hash) (t\<lparr>ot_consumedAt := Some now\<rparr>) (tokens s)\<rparr>))"

definition st_deleteUserTokens :: "string \<Rightarrow> string \<Rightarrow> auth_state \<Rightarrow> auth_state" where
  "st_deleteUserTokens projectId userId s =
     s\<lparr>tokens := drop_vals (\<lambda>t. ot_projectId t = projectId \<and> ot_userId t = userId) (tokens s)\<rparr>"

section \<open>Passkeys (store.ts)\<close>

definition st_savePasskey :: "passkey_credential \<Rightarrow> auth_state \<Rightarrow> auth_state" where
  "st_savePasskey c s = s\<lparr>passkeys := js_set (keyed (pk_projectId c) (pk_credentialId c)) c (passkeys s)\<rparr>"

definition st_findPasskey :: "string \<Rightarrow> string \<Rightarrow> auth_state \<Rightarrow> passkey_credential option" where
  "st_findPasskey projectId credentialId s = js_get (passkeys s) (keyed projectId credentialId)"

definition st_listPasskeys :: "string \<Rightarrow> string \<Rightarrow> auth_state \<Rightarrow> passkey_credential list" where
  "st_listPasskeys projectId userId s =
     filter (\<lambda>c. pk_projectId c = projectId \<and> pk_userId c = userId) (js_values (passkeys s))"

definition st_touchPasskey :: "instant \<Rightarrow> string \<Rightarrow> string \<Rightarrow> nat \<Rightarrow> auth_state \<Rightarrow> auth_state" where
  "st_touchPasskey now projectId credentialId signCount s = (case js_get (passkeys s) (keyed projectId credentialId) of
       None \<Rightarrow> s
     | Some c \<Rightarrow> s\<lparr>passkeys := js_set (keyed projectId credentialId)
         (c\<lparr>pk_signCount := signCount, pk_lastUsedAt := Some now\<rparr>) (passkeys s)\<rparr>)"

definition st_deletePasskey :: "string \<Rightarrow> string \<Rightarrow> string \<Rightarrow> auth_state \<Rightarrow> bool \<times> auth_state" where
  "st_deletePasskey projectId userId credentialId s = (case js_get (passkeys s) (keyed projectId credentialId) of
       None \<Rightarrow> (False, s)
     | Some c \<Rightarrow> if pk_userId c \<noteq> userId then (False, s)
         else (True, s\<lparr>passkeys := js_delete (keyed projectId credentialId) (passkeys s)\<rparr>))"

definition st_savePasskeyChallenge :: "passkey_challenge \<Rightarrow> auth_state \<Rightarrow> auth_state" where
  "st_savePasskeyChallenge c s = s\<lparr>challenges := js_set (keyed (pc_projectId c) (pc_challenge c)) c (challenges s)\<rparr>"

definition st_consumePasskeyChallenge :: "instant \<Rightarrow> string \<Rightarrow> string \<Rightarrow> challenge_kind \<Rightarrow> auth_state \<Rightarrow>
    passkey_challenge option \<times> auth_state" where
  "st_consumePasskeyChallenge now projectId challenge kind s =
     (let key = keyed projectId challenge; c = js_get (challenges s) key; s' = s\<lparr>challenges := js_delete key (challenges s)\<rparr> in
      case c of None \<Rightarrow> (None, s')
      | Some x \<Rightarrow> if pc_kind x \<noteq> kind then (None, s') else if pc_expiresAt x \<le> now then (None, s') else (Some x, s'))"

lemmas st_defs = st_createUser_def st_updateUser_def st_deleteUser_def st_createSession_def change_session_def
  st_touchSession_def st_markRefreshUsed_def st_revokeSession_def st_revokeUserSessions_def st_saveToken_def
  st_consumeToken_def st_deleteUserTokens_def st_savePasskey_def st_touchPasskey_def st_deletePasskey_def
  st_savePasskeyChallenge_def st_consumePasskeyChallenge_def

end
