(* ===== verification/AuthService.thy ===== *)
theory AuthService
  imports AuthStore
begin

text \<open>
  The customer authentication service (\<open>packages/auth/src/customer/service.ts\<close>): accounts, sessions, passwords and
  one-time tokens, anonymous accounts, email codes and magic links.  Second factors, passkeys and phones are in
  \<open>AuthFactors\<close>.

  An operation takes the environment (configuration and the libraries it calls), the call (its time, its origin and
  what it draws at random) and its arguments, and is an action on the state.  Messages of errors are dropped.
\<close>

section \<open>Environment and calls\<close>

record auth_env =
  ae_config :: auth_config
  ae_appUrl :: string
  ae_otp :: otp_config
  ae_sha :: "string \<Rightarrow> string"
  ae_scrypt :: "string \<Rightarrow> string \<Rightarrow> string"
  ae_jwt :: "string \<Rightarrow> access_claims \<Rightarrow> string"
  ae_hmac1 :: "byte list \<Rightarrow> byte list \<Rightarrow> byte list"
  ae_webauthn :: webauthn_libs
  ae_sms :: "string \<Rightarrow> string \<Rightarrow> bool option"

record call =
  c_now :: instant
  c_ip :: "string option"
  c_agent :: "string option"
  c_sessionUuid :: string
  c_userUuid :: string
  c_anonUuid :: string
  c_refresh :: string
  c_token :: string
  c_salt :: string
  c_digits :: "nat \<Rightarrow> nat"
  c_secret :: "byte list"
  c_backup :: "nat \<Rightarrow> string \<times> string"
  c_challenge :: "byte list"

type_synonym 'a auth_act = "(auth_state, auth_error, 'a) act"

definition truthy :: "string option \<Rightarrow> bool" where
  "truthy v = (case v of None \<Rightarrow> False | Some t \<Rightarrow> t \<noteq> [])"

definition hashToken :: "auth_env \<Rightarrow> string \<Rightarrow> string" where
  "hashToken env raw = ae_sha env raw"

definition audit_log :: "audit_event \<Rightarrow> string \<Rightarrow> string option \<Rightarrow> string option \<Rightarrow> unit auth_act" where
  "audit_log ev projectId userId sessionId = act_modify (\<lambda>s. s\<lparr>audits := audits s @
     [\<lparr>au_event = ev, au_projectId = projectId, au_userId = userId, au_sessionId = sessionId\<rparr>]\<rparr>)"

definition send_mail :: "mail_kind \<Rightarrow> string \<Rightarrow> string \<Rightarrow> unit auth_act" where
  "send_mail kind to content = act_modify (\<lambda>s. s\<lparr>mails := mails s @ [\<lparr>ml_kind = kind, ml_to = to, ml_content = content\<rparr>]\<rparr>)"

definition with_otps :: "(otp_store \<Rightarrow> 'a auth \<times> otp_store) \<Rightarrow> 'a auth_act" where
  "with_otps f = (\<lambda>s. let (r, m) = f (otps s) in (r, s\<lparr>otps := m\<rparr>))"

definition appOrigin :: "auth_env \<Rightarrow> string" where
  "appOrigin env = rev (dropWhile (\<lambda>c. c = CHR ''/'') (rev (ae_appUrl env)))"

definition mail_link :: "auth_env \<Rightarrow> string \<Rightarrow> string \<Rightarrow> string \<Rightarrow> string" where
  "mail_link env page raw projectId = appOrigin env @ ''/'' @ page @ ''?token='' @ raw @ ''&project='' @ projectId"

definition DUMMY_HASH :: string where
  "DUMMY_HASH = ''scrypt:'' @ replicate 32 (CHR ''0'') @ '':'' @ replicate 128 (CHR ''0'')"

definition assertPasswordStrength :: "string \<Rightarrow> password_policy option \<Rightarrow> unit auth" where
  "assertPasswordStrength password policy =
     (if fst (checkPasswordPolicy password (over_value policy LEGACY_PASSWORD_POLICY)) then Inr ()
      else Inl (AuthFail WEAK_PASSWORD 400))"

text \<open>\<open>/^[^\\s@]+@[^\\s@]+\\.[^\\s@]+$/\<close>, and at most 320 characters.\<close>

definition email_ok :: "string \<Rightarrow> bool" where
  "email_ok e \<longleftrightarrow> length e \<le> 320 \<and> list_all (\<lambda>c. \<not> is_space c) e \<and>
     (case split_on (CHR ''@'') e of [l, d] \<Rightarrow> l \<noteq> [] \<and> d \<noteq> [] \<and> CHR ''.'' \<in> set (butlast (tl d)) | _ \<Rightarrow> False)"

definition normal_email :: "string \<Rightarrow> string" where
  "normal_email e = to_lower (js_trim e)"

section \<open>Sessions and access tokens\<close>

definition accessTokenFor :: "auth_env \<Rightarrow> string \<Rightarrow> customer_user \<Rightarrow> string \<Rightarrow> string auth" where
  "accessTokenFor env projectId user sessionId =
     (let role = (if is_admin user then AdminRole else Authenticated);
          claims = (if cu_isAnonymous user then js_set ''anonymous'' (JBool True) (cu_appMetadata user)
                    else cu_appMetadata user) in
      signCustomerAccessToken (ae_jwt env) (cu_id user) (cu_email user) sessionId
        (role_text (if cu_isAnonymous user then AnonymousRole else role))
        \<lparr>to_jwtSecret = ac_jwtSecret (ae_config env), to_issuer = ac_issuer (ae_config env), to_projectId = projectId,
         to_accessTtlSeconds = ac_accessTtlSeconds (ae_config env)\<rparr> (JObj claims))"

definition tokens_of :: "auth_env \<Rightarrow> string \<Rightarrow> string \<Rightarrow> auth_tokens" where
  "tokens_of env accessToken refreshToken = \<lparr>tk_accessToken = accessToken, tk_refreshToken = refreshToken,
     tk_expiresIn = ac_accessTtlSeconds (ae_config env)\<rparr>"

definition new_session :: "auth_env \<Rightarrow> call \<Rightarrow> string \<Rightarrow> customer_user \<Rightarrow> customer_session" where
  "new_session env c projectId user =
     \<lparr>cs_id = [], cs_userId = cu_id user, cs_projectId = projectId,
      cs_refreshTokenHash = hashToken env (c_refresh c), cs_usedRefreshHashes = [], cs_ipAddress = c_ip c,
      cs_userAgent = c_agent c, cs_createdAt = 0, cs_updatedAt = 0,
      cs_expiresAt = c_now c + ac_refreshTtlSeconds (ae_config env) * 1000, cs_lastActiveAt = c_now c,
      cs_revokedAt = None\<rparr>"

definition update_user :: "call \<Rightarrow> string \<Rightarrow> string \<Rightarrow> (customer_user \<Rightarrow> customer_user) \<Rightarrow> customer_user option auth_act" where
  "update_user c projectId userId patch = act_run (st_updateUser (c_now c) projectId userId patch)"

definition issueSession :: "auth_env \<Rightarrow> call \<Rightarrow> string \<Rightarrow> customer_user \<Rightarrow> (string \<times> auth_tokens) auth_act" where
  "issueSession env c projectId user =
     act_bind (act_run (st_createSession (c_sessionUuid c) (c_now c) (new_session env c projectId user))) (\<lambda>session.
     act_bind (act_lift (accessTokenFor env projectId user (cs_id session))) (\<lambda>accessToken.
     act_seq (update_user c projectId (cu_id user) (\<lambda>u. u\<lparr>cu_lastSignInAt := Some (c_now c)\<rparr>))
     (act_seq (audit_log SessionCreated projectId (Some (cu_id user)) (Some (cs_id session)))
     (act_return (cs_id session, tokens_of env accessToken (c_refresh c))))))"

record signed_in =
  sg_user :: exposed_user
  sg_tokens :: auth_tokens
  sg_sessionId :: string

text \<open>The end all sign-in paths share: a session, an audit entry, the user as it is now.\<close>

definition finish_sign_in :: "auth_env \<Rightarrow> call \<Rightarrow> string \<Rightarrow> customer_user \<Rightarrow> audit_event \<Rightarrow> signed_in auth_act" where
  "finish_sign_in env c projectId user ev =
     act_bind (issueSession env c projectId user) (\<lambda>(sessionId, toks).
     act_seq (audit_log ev projectId (Some (cu_id user)) (Some sessionId))
     (act_bind (act_asks (st_findUserById projectId (cu_id user))) (\<lambda>fresh.
      act_return \<lparr>sg_user = exposeUser (over_value fresh user), sg_tokens = toks, sg_sessionId = sessionId\<rparr>)))"

section \<open>Sign-up and sign-in\<close>

definition metadata_of :: "json option \<Rightarrow> (string, json) jsmap auth" where
  "metadata_of m = (case m of None \<Rightarrow> Inr [] | Some patch \<Rightarrow> sanitizeUserMetadata patch)"

definition save_token :: "auth_env \<Rightarrow> call \<Rightarrow> string \<Rightarrow> string \<Rightarrow> token_kind \<Rightarrow> int \<Rightarrow> unit auth_act" where
  "save_token env c projectId userId kind ttlMs = act_modify (st_saveToken (c_now c)
     \<lparr>ot_tokenHash = hashToken env (c_token c), ot_userId = userId, ot_projectId = projectId, ot_kind = kind,
      ot_expiresAt = c_now c + ttlMs, ot_consumedAt = None, ot_createdAt = 0\<rparr>)"

definition signUp :: "auth_env \<Rightarrow> call \<Rightarrow> string \<Rightarrow> string \<Rightarrow> string \<Rightarrow> json option \<Rightarrow> (exposed_user \<times> bool) auth_act" where
  "signUp env c projectId emailText password userMetadata =
     (let email = normal_email emailText in
      act_seq (act_require (email_ok email) (AuthFail INVALID_EMAIL 400))
     (act_seq (act_lift (assertPasswordStrength password (ac_passwordPolicy (ae_config env))))
     (act_bind (act_lift (metadata_of userMetadata)) (\<lambda>metadata.
      act_bind (act_catch
          (act_bind (act_lift (hashPassword (ae_scrypt env) (c_salt c) password)) (\<lambda>hash.
           st_createUser (c_userUuid c) (c_now c) \<lparr>nu_projectId = projectId, nu_email = email,
             nu_passwordHash = Some hash, nu_userMetadata = metadata, nu_isAnonymous = False, nu_phone = None\<rparr>))
          (\<lambda>err. act_throw (if err = AuthBase EMAIL_TAKEN then AuthFail EMAIL_TAKEN 409 else err))) (\<lambda>user.
      act_seq (save_token env c projectId (cu_id user) VerifyToken (ac_verifyTtlSeconds (ae_config env) * 1000))
     (act_seq (send_mail VerifyMail email (mail_link env ''verify'' (c_token c) projectId))
     (act_seq (audit_log UserSignup projectId (Some (cu_id user)) None)
     (act_return (exposeUser user, True)))))))))"

datatype sign_in_result = SignedIn signed_in | MfaRequired string string

definition signIn :: "auth_env \<Rightarrow> call \<Rightarrow> string \<Rightarrow> string \<Rightarrow> string \<Rightarrow> sign_in_result auth_act" where
  "signIn env c projectId emailText password =
     act_bind (act_asks (st_findUserByEmail projectId (normal_email emailText))) (\<lambda>found.
     let stored = (case found of Some u \<Rightarrow> over_value (cu_passwordHash u) DUMMY_HASH | None \<Rightarrow> DUMMY_HASH);
         ok = verifyPassword (ae_scrypt env) password stored in
     case found of
       None \<Rightarrow> act_seq (audit_log UserLoginFailed projectId None None) (act_throw (AuthFail INVALID_CREDENTIALS 401))
     | Some user \<Rightarrow>
         if cu_isAnonymous user then
           act_seq (audit_log UserLoginFailed projectId (Some (cu_id user)) None)
             (act_throw (AuthFail ANONYMOUS_CONVERT_REQUIRED 403))
         else if \<not> ok then
           act_seq (audit_log UserLoginFailed projectId None None) (act_throw (AuthFail INVALID_CREDENTIALS 401))
         else if cu_status user \<noteq> UserActive then
           act_seq (audit_log UserLoginFailed projectId (Some (cu_id user)) None) (act_throw (AuthFail USER_DISABLED 403))
         else if cu_totpEnabled user \<and> truthy (cu_totpSecret user) then
           act_seq (save_token env c projectId (cu_id user) MfaToken 300000)
          (act_seq (audit_log MfaChallenged projectId (Some (cu_id user)) None)
          (act_return (MfaRequired (c_token c) (cu_id user))))
         else act_bind (finish_sign_in env c projectId user UserLogin) (\<lambda>r. act_return (SignedIn r)))"

definition signOut :: "call \<Rightarrow> string \<Rightarrow> string \<Rightarrow> string \<Rightarrow> unit auth_act" where
  "signOut c projectId sessionId userId =
     act_seq (act_run (st_revokeSession (c_now c) projectId sessionId))
       (audit_log UserLogout projectId (Some userId) (Some sessionId))"

definition signOutByRefresh :: "auth_env \<Rightarrow> call \<Rightarrow> string \<Rightarrow> string \<Rightarrow> unit auth_act" where
  "signOutByRefresh env c projectId refreshToken =
     act_bind (act_asks (st_findSessionByRefreshHash projectId (hashToken env refreshToken))) (\<lambda>found. case found of
         None \<Rightarrow> act_return ()
       | Some session \<Rightarrow> act_seq (act_run (st_revokeSession (c_now c) projectId (cs_id session)))
           (audit_log UserLogout projectId (Some (cs_userId session)) (Some (cs_id session))))"

definition dead :: "instant \<Rightarrow> customer_session \<Rightarrow> bool" where
  "dead now session \<longleftrightarrow> cs_revokedAt session \<noteq> None \<or> cs_expiresAt session \<le> now"

definition refreshSession :: "auth_env \<Rightarrow> call \<Rightarrow> string \<Rightarrow> string \<Rightarrow> signed_in auth_act" where
  "refreshSession env c projectId refreshToken =
     (let hash = hashToken env refreshToken in
      act_bind (act_asks (st_findSessionByRefreshHash projectId hash)) (\<lambda>found. case found of
        None \<Rightarrow> act_throw (AuthFail INVALID_REFRESH 401)
      | Some session \<Rightarrow>
          if dead (c_now c) session then act_throw (AuthFail INVALID_REFRESH 401)
          else if cs_refreshTokenHash session \<noteq> hash then
            act_seq (act_run (st_revokeSession (c_now c) projectId (cs_id session)))
           (act_seq (audit_log SessionRevoked projectId (Some (cs_userId session)) (Some (cs_id session)))
           (act_throw (AuthFail REFRESH_REUSED 401)))
          else act_bind (act_asks (st_findUserById projectId (cs_userId session))) (\<lambda>who. case who of
            None \<Rightarrow> act_throw (AuthFail USER_DISABLED 403)
          | Some user \<Rightarrow>
              if cu_status user \<noteq> UserActive then act_throw (AuthFail USER_DISABLED 403)
              else act_seq (act_modify (st_markRefreshUsed (c_now c) projectId (cs_id session) hash))
                (act_seq (act_modify (st_touchSession (c_now c) projectId (cs_id session) (hashToken env (c_refresh c))))
                (act_bind (act_lift (accessTokenFor env projectId user (cs_id session))) (\<lambda>accessToken.
                 act_return \<lparr>sg_user = exposeUser user, sg_tokens = tokens_of env accessToken (c_refresh c),
                   sg_sessionId = cs_id session\<rparr>))))))"

definition getUser :: "string \<Rightarrow> string \<Rightarrow> exposed_user auth_act" where
  "getUser projectId userId =
     act_bind (act_asks (st_findUserById projectId userId)) (\<lambda>u.
     act_bind (act_some u (AuthFail USER_NOT_FOUND 404)) (\<lambda>user. act_return (exposeUser user)))"

definition requireLiveSession :: "call \<Rightarrow> string \<Rightarrow> string \<Rightarrow> customer_session auth_act" where
  "requireLiveSession c projectId sessionId =
     act_bind (act_asks (st_findSession projectId sessionId)) (\<lambda>found. case found of
        None \<Rightarrow> act_throw (AuthFail SESSION_REVOKED 401)
      | Some session \<Rightarrow> if dead (c_now c) session then act_throw (AuthFail SESSION_REVOKED 401) else act_return session)"

section \<open>Accounts\<close>

definition updateUser :: "call \<Rightarrow> string \<Rightarrow> string \<Rightarrow> json option \<Rightarrow> exposed_user auth_act" where
  "updateUser c projectId userId userMetadata =
     act_bind (act_lift (case userMetadata of None \<Rightarrow> Inr None
         | Some patch \<Rightarrow> and_then (sanitizeUserMetadata patch) (\<lambda>m. Inr (Some m)))) (\<lambda>metadata.
     act_bind (update_user c projectId userId
         (case metadata of None \<Rightarrow> id | Some m \<Rightarrow> (\<lambda>u. u\<lparr>cu_userMetadata := m\<rparr>))) (\<lambda>updated.
     act_bind (act_some updated (AuthFail USER_NOT_FOUND 404)) (\<lambda>u. act_return (exposeUser u))))"

text \<open>\<open>status\<close> is the request's text, not yet known to be a status.\<close>

definition status_of :: "string \<Rightarrow> customer_status option" where
  "status_of t = (if t = ''active'' then Some UserActive else if t = ''disabled'' then Some UserDisabled else None)"

definition adminUpdateUser :: "call \<Rightarrow> string \<Rightarrow> string \<Rightarrow> string option \<Rightarrow> json option \<Rightarrow> exposed_user auth_act" where
  "adminUpdateUser c projectId userId status appMetadata =
     act_bind (case status of None \<Rightarrow> act_return None
         | Some t \<Rightarrow> act_bind (act_some (status_of t) (AuthFail INVALID_STATUS 400)) (\<lambda>st. act_return (Some st))) (\<lambda>newStatus.
     act_bind (act_lift (case appMetadata of None \<Rightarrow> Inr None
         | Some patch \<Rightarrow> and_then (sanitizeAppMetadata patch) (\<lambda>m. Inr (Some m)))) (\<lambda>metadata.
     act_bind (update_user c projectId userId (\<lambda>u. u\<lparr>cu_status := over_value newStatus (cu_status u),
         cu_appMetadata := over_value metadata (cu_appMetadata u)\<rparr>)) (\<lambda>updated.
     act_bind (act_some updated (AuthFail USER_NOT_FOUND 404)) (\<lambda>u.
     act_seq (act_when (newStatus = Some UserDisabled)
       (act_seq (act_run (st_revokeUserSessions (c_now c) projectId userId))
         (audit_log AccountDisabled projectId (Some userId) None)))
     (act_return (exposeUser u))))))"

definition deleteUser :: "call \<Rightarrow> string \<Rightarrow> string \<Rightarrow> unit auth_act" where
  "deleteUser c projectId userId =
     act_bind (act_run (st_deleteUser (c_now c) projectId userId)) (\<lambda>ok.
     act_seq (act_require ok (AuthFail USER_NOT_FOUND 404))
    (act_seq (act_run (st_revokeUserSessions (c_now c) projectId userId))
    (act_seq (act_modify (st_deleteUserTokens projectId userId))
    (audit_log AccountDeleted projectId (Some userId) None))))"

section \<open>One-time tokens and passwords\<close>

definition take_token :: "auth_env \<Rightarrow> call \<Rightarrow> string \<Rightarrow> string \<Rightarrow> token_kind \<Rightarrow> auth_error \<Rightarrow> one_time_token auth_act" where
  "take_token env c projectId raw kind err =
     act_bind (act_asks (st_findToken (c_now c) projectId (hashToken env raw) kind)) (\<lambda>found.
     act_bind (act_some found err) (\<lambda>r.
     act_seq (act_run (st_consumeToken (c_now c) projectId (ot_tokenHash r))) (act_return r)))"

definition verifyEmail :: "auth_env \<Rightarrow> call \<Rightarrow> string \<Rightarrow> string \<Rightarrow> exposed_user auth_act" where
  "verifyEmail env c projectId token =
     act_bind (take_token env c projectId token VerifyToken (AuthFail INVALID_ONE_TIME 400)) (\<lambda>r.
     act_bind (update_user c projectId (ot_userId r) (\<lambda>u. u\<lparr>cu_emailVerified := True\<rparr>)) (\<lambda>updated.
     act_bind (act_some updated (AuthFail USER_NOT_FOUND 404)) (\<lambda>u.
     act_seq (audit_log EmailVerified projectId (Some (ot_userId r)) None) (act_return (exposeUser u)))))"

definition requestPasswordReset :: "auth_env \<Rightarrow> call \<Rightarrow> string \<Rightarrow> string \<Rightarrow> unit auth_act" where
  "requestPasswordReset env c projectId email =
     act_bind (act_asks (st_findUserByEmail projectId (normal_email email))) (\<lambda>found.
     act_seq (case found of None \<Rightarrow> act_return ()
       | Some user \<Rightarrow> act_when (cu_status user = UserActive)
           (act_seq (save_token env c projectId (cu_id user) ResetToken (ac_resetTtlSeconds (ae_config env) * 1000))
             (send_mail ResetMail (cu_email user) (mail_link env ''reset'' (c_token c) projectId))))
     (audit_log PasswordResetRequested projectId None None))"

text \<open>A changed password ends every session and every pending token of its user.\<close>

definition end_everything :: "call \<Rightarrow> string \<Rightarrow> string \<Rightarrow> unit auth_act" where
  "end_everything c projectId userId =
     act_seq (act_run (st_revokeUserSessions (c_now c) projectId userId))
       (act_modify (st_deleteUserTokens projectId userId))"

definition completePasswordReset :: "auth_env \<Rightarrow> call \<Rightarrow> string \<Rightarrow> string \<Rightarrow> string \<Rightarrow> unit auth_act" where
  "completePasswordReset env c projectId token password =
     act_seq (act_lift (assertPasswordStrength password (ac_passwordPolicy (ae_config env))))
    (act_bind (take_token env c projectId token ResetToken (AuthFail INVALID_ONE_TIME 400)) (\<lambda>r.
     act_bind (act_lift (hashPassword (ae_scrypt env) (c_salt c) password)) (\<lambda>hash.
     act_bind (update_user c projectId (ot_userId r) (\<lambda>u. u\<lparr>cu_passwordHash := Some hash\<rparr>)) (\<lambda>updated.
     act_bind (act_some updated (AuthFail USER_NOT_FOUND 404)) (\<lambda>_.
     act_seq (end_everything c projectId (ot_userId r))
       (audit_log PasswordResetCompleted projectId (Some (ot_userId r)) None))))))"

definition changePassword :: "auth_env \<Rightarrow> call \<Rightarrow> string \<Rightarrow> string \<Rightarrow> string \<Rightarrow> string \<Rightarrow> unit auth_act" where
  "changePassword env c projectId userId currentPassword newPassword =
     act_bind (act_asks (st_findUserById projectId userId)) (\<lambda>found.
     act_bind (act_some (case found of None \<Rightarrow> None
         | Some user \<Rightarrow> if truthy (cu_passwordHash user) then cu_passwordHash user else None)
       (AuthFail INVALID_CREDENTIALS 401)) (\<lambda>stored.
     act_seq (act_require (verifyPassword (ae_scrypt env) currentPassword stored) (AuthFail INVALID_CREDENTIALS 401))
    (act_seq (act_lift (assertPasswordStrength newPassword (ac_passwordPolicy (ae_config env))))
    (act_bind (act_lift (hashPassword (ae_scrypt env) (c_salt c) newPassword)) (\<lambda>hash.
     act_seq (update_user c projectId userId (\<lambda>u. u\<lparr>cu_passwordHash := Some hash\<rparr>))
    (act_seq (end_everything c projectId userId)
      (audit_log PasswordChanged projectId (Some userId) None)))))))"

section \<open>Session management\<close>

definition revokeOwnSession :: "call \<Rightarrow> string \<Rightarrow> string \<Rightarrow> string \<Rightarrow> unit auth_act" where
  "revokeOwnSession c projectId userId sessionId =
     act_bind (act_asks (st_findSession projectId sessionId)) (\<lambda>found.
     act_seq (act_require (case found of None \<Rightarrow> False | Some session \<Rightarrow> cs_userId session = userId)
       (AuthFail SESSION_NOT_FOUND 404))
    (act_seq (act_run (st_revokeSession (c_now c) projectId sessionId))
      (audit_log SessionRevoked projectId (Some userId) (Some sessionId))))"

definition revokeAllSessions :: "call \<Rightarrow> string \<Rightarrow> string \<Rightarrow> nat auth_act" where
  "revokeAllSessions c projectId userId =
     act_bind (act_run (st_revokeUserSessions (c_now c) projectId userId)) (\<lambda>revoked.
     act_seq (audit_log SessionRevoked projectId (Some userId) None) (act_return revoked))"

definition listSessions :: "string \<Rightarrow> string \<Rightarrow> customer_session list auth_act" where
  "listSessions projectId userId = act_asks (st_listSessions projectId userId)"

definition listUsers :: "string \<Rightarrow> exposed_user list auth_act" where
  "listUsers projectId = act_asks (\<lambda>s. map exposeUser (st_listUsers projectId s))"

section \<open>Anonymous accounts\<close>

definition signInAnonymously :: "auth_env \<Rightarrow> call \<Rightarrow> string \<Rightarrow> json option \<Rightarrow> signed_in auth_act" where
  "signInAnonymously env c projectId userMetadata =
     act_bind (act_lift (metadata_of userMetadata)) (\<lambda>metadata.
     act_bind (st_createUser (c_userUuid c) (c_now c) \<lparr>nu_projectId = projectId,
         nu_email = ''anon_'' @ take 12 (filter (\<lambda>x. x \<noteq> CHR ''-'') (c_anonUuid c)) @ ''@anonymous.local'',
         nu_passwordHash = None, nu_userMetadata = metadata, nu_isAnonymous = True, nu_phone = None\<rparr>) (\<lambda>user.
     act_bind (issueSession env c projectId user) (\<lambda>(sessionId, toks).
     act_seq (audit_log AnonymousCreated projectId (Some (cu_id user)) (Some sessionId))
     (act_return \<lparr>sg_user = exposeUser user, sg_tokens = toks, sg_sessionId = sessionId\<rparr>))))"

definition convertAnonymous :: "auth_env \<Rightarrow> call \<Rightarrow> string \<Rightarrow> string \<Rightarrow> string \<Rightarrow> string \<Rightarrow> (exposed_user \<times> bool) auth_act" where
  "convertAnonymous env c projectId userId emailText password =
     act_bind (act_asks (st_findUserById projectId userId)) (\<lambda>found.
     act_bind (act_some found (AuthFail USER_NOT_FOUND 404)) (\<lambda>user.
     act_seq (act_require (cu_isAnonymous user) (AuthFail NOT_ANONYMOUS 400))
    (let email = normal_email emailText in
     act_seq (act_require (email_ok email) (AuthFail INVALID_EMAIL 400))
    (act_seq (act_lift (assertPasswordStrength password (ac_passwordPolicy (ae_config env))))
    (act_bind (act_asks (st_findUserByEmail projectId email)) (\<lambda>existing.
     act_seq (act_require (case existing of None \<Rightarrow> True | Some x \<Rightarrow> cu_id x = cu_id user) (AuthFail EMAIL_TAKEN 409))
    (act_bind (act_lift (hashPassword (ae_scrypt env) (c_salt c) password)) (\<lambda>hash.
     act_bind (update_user c projectId (cu_id user)
         (\<lambda>u. u\<lparr>cu_email := email, cu_passwordHash := Some hash, cu_isAnonymous := False\<rparr>)) (\<lambda>updated.
     act_bind (act_some updated (AuthFail USER_NOT_FOUND 404)) (\<lambda>u.
     act_seq (save_token env c projectId (cu_id user) VerifyToken (ac_verifyTtlSeconds (ae_config env) * 1000))
    (act_seq (send_mail VerifyMail email (mail_link env ''verify'' (c_token c) projectId))
    (act_seq (audit_log UserConverted projectId (Some (cu_id user)) None)
    (act_return (exposeUser u, True))))))))))))))"

section \<open>Email codes and magic links\<close>

definition issue_code :: "auth_env \<Rightarrow> call \<Rightarrow> string \<Rightarrow> string \<Rightarrow> otp_purpose \<Rightarrow> string auth_act" where
  "issue_code env c projectId identity purpose =
     with_otps (\<lambda>m. case otp_issue (ae_sha env) (ae_otp env) (c_digits c) (c_now c) projectId identity purpose m of
       ((codeText, _), m') \<Rightarrow> (Inr codeText, m'))"

definition requestEmailOtp :: "auth_env \<Rightarrow> call \<Rightarrow> string \<Rightarrow> string \<Rightarrow> otp_purpose \<Rightarrow> unit auth_act" where
  "requestEmailOtp env c projectId email purpose =
     (let normalized = normal_email email in
      act_bind (act_asks (st_findUserByEmail projectId normalized)) (\<lambda>found.
      act_seq (case found of None \<Rightarrow> act_return ()
        | Some user \<Rightarrow> act_when (cu_status user = UserActive \<and> \<not> cu_isAnonymous user)
            (act_bind (issue_code env c projectId normalized purpose) (\<lambda>codeText.
             send_mail (OtpMail purpose) normalized codeText)))
      (audit_log OtpRequested projectId None None)))"

definition rethrown :: "auth_error \<Rightarrow> auth_error" where
  "rethrown e = (case e of AuthFail k st \<Rightarrow> AuthFail k st | AuthBase k \<Rightarrow> AuthFail k 401 | AuthPlain \<Rightarrow> AuthFail OTP_INVALID 401)"

definition check_otp :: "auth_env \<Rightarrow> call \<Rightarrow> string \<Rightarrow> string \<Rightarrow> otp_purpose \<Rightarrow> string \<Rightarrow> bool auth_act" where
  "check_otp env c projectId identity purpose given =
     with_otps (otp_verify (ae_sha env) (ae_otp env) (c_now c) projectId identity purpose given)"

definition usable :: "customer_user option \<Rightarrow> customer_user option" where
  "usable v = (case v of None \<Rightarrow> None
     | Some u \<Rightarrow> if cu_status u \<noteq> UserActive \<or> cu_isAnonymous u then None else Some u)"

definition verifyEmailOtp :: "auth_env \<Rightarrow> call \<Rightarrow> string \<Rightarrow> string \<Rightarrow> string \<Rightarrow> otp_purpose \<Rightarrow> signed_in auth_act" where
  "verifyEmailOtp env c projectId email given purpose =
     (let normalized = normal_email email in
      act_seq (act_catch (check_otp env c projectId normalized purpose given)
        (\<lambda>err. act_seq (audit_log UserLoginFailed projectId None None) (act_throw (rethrown err))))
     (act_bind (act_asks (st_findUserByEmail projectId normalized)) (\<lambda>found.
      act_bind (act_some (usable found) (AuthFail INVALID_CREDENTIALS 401)) (\<lambda>user.
      act_seq (act_when (purpose = OtpVerify \<and> \<not> cu_emailVerified user)
        (act_seq (update_user c projectId (cu_id user) (\<lambda>u. u\<lparr>cu_emailVerified := True\<rparr>)) (act_return ())))
      (finish_sign_in env c projectId user OtpVerified)))))"

definition requestMagicLink :: "auth_env \<Rightarrow> call \<Rightarrow> string \<Rightarrow> string \<Rightarrow> unit auth_act" where
  "requestMagicLink env c projectId email =
     (let normalized = normal_email email in
      if \<not> email_ok normalized then act_return ()
      else
        act_bind (act_asks (st_findUserByEmail projectId normalized)) (\<lambda>found.
        act_bind (case found of Some u \<Rightarrow> act_return (Some u)
            | None \<Rightarrow> act_catch (act_bind (st_createUser (c_userUuid c) (c_now c) \<lparr>nu_projectId = projectId,
                  nu_email = normalized, nu_passwordHash = None, nu_userMetadata = [], nu_isAnonymous = False,
                  nu_phone = None\<rparr>) (\<lambda>u. act_return (Some u))) (\<lambda>_. act_return None)) (\<lambda>who.
        case who of None \<Rightarrow> act_return ()
        | Some user \<Rightarrow>
            if cu_status user \<noteq> UserActive \<or> cu_isAnonymous user then act_return ()
            else act_seq (save_token env c projectId (cu_id user) MagicToken 900000)
              (act_seq (send_mail MagicMail normalized (mail_link env ''magic'' (c_token c) projectId))
              (audit_log MagicRequested projectId None None)))))"

definition consumeMagicLink :: "auth_env \<Rightarrow> call \<Rightarrow> string \<Rightarrow> string \<Rightarrow> signed_in auth_act" where
  "consumeMagicLink env c projectId token =
     act_bind (take_token env c projectId token MagicToken (AuthFail INVALID_ONE_TIME 400)) (\<lambda>r.
     act_bind (act_asks (st_findUserById projectId (ot_userId r))) (\<lambda>found.
     act_bind (act_some (usable found) (AuthFail INVALID_ONE_TIME 400)) (\<lambda>user.
     act_seq (act_when (\<not> cu_emailVerified user)
       (act_seq (update_user c projectId (cu_id user) (\<lambda>u. u\<lparr>cu_emailVerified := True\<rparr>)) (act_return ())))
     (finish_sign_in env c projectId user MagicConsumed))))"

end
