(* ===== verification/AuthFactors.thy ===== *)
theory AuthFactors
  imports AuthService
begin

text \<open>
  The rest of the customer authentication service (\<open>packages/auth/src/customer/service.ts\<close>): passkeys, time-based
  second factors and phone codes; then all its operations as one type, and runs of them.
\<close>

section \<open>Passkeys\<close>

definition PASSKEY_CHALLENGE_TTL_MS :: int where "PASSKEY_CHALLENGE_TTL_MS = 300000"

definition save_challenge :: "call \<Rightarrow> string \<Rightarrow> string option \<Rightarrow> challenge_kind \<Rightarrow> string auth_act" where
  "save_challenge c projectId userId kind =
     (let challenge = createChallenge (c_challenge c) in
      act_seq (act_modify (st_savePasskeyChallenge \<lparr>pc_projectId = projectId, pc_challenge = challenge,
        pc_userId = userId, pc_kind = kind, pc_expiresAt = c_now c + PASSKEY_CHALLENGE_TTL_MS\<rparr>))
      (act_return challenge))"

definition beginPasskeyRegistration :: "call \<Rightarrow> string \<Rightarrow> string \<Rightarrow> (string \<times> string list) auth_act" where
  "beginPasskeyRegistration c projectId userId =
     act_bind (act_asks (st_findUserById projectId userId)) (\<lambda>found.
     act_bind (act_some found (AuthFail USER_NOT_FOUND 404)) (\<lambda>user.
     act_seq (act_require (\<not> cu_isAnonymous user) (AuthFail NOT_SUPPORTED 400))
    (act_bind (save_challenge c projectId (Some userId) RegisterChallenge) (\<lambda>challenge.
     act_bind (act_asks (st_listPasskeys projectId userId)) (\<lambda>existing.
     act_return (challenge, map pk_credentialId existing))))))"

record registration_reply =
  rr_challenge :: string
  rr_attestationObject :: string
  rr_clientDataJSON :: string
  rr_label :: "string option"
  rr_origins :: "string list"
  rr_rpId :: string

definition finishPasskeyRegistration :: "auth_env \<Rightarrow> call \<Rightarrow> string \<Rightarrow> string \<Rightarrow> registration_reply \<Rightarrow>
    (string \<times> string option) auth_act" where
  "finishPasskeyRegistration env c projectId userId input =
     act_bind (act_run (st_consumePasskeyChallenge (c_now c) projectId (rr_challenge input) RegisterChallenge)) (\<lambda>pending.
     act_seq (act_require (case pending of None \<Rightarrow> False | Some p \<Rightarrow> pc_userId p = Some userId)
       (AuthFail PASSKEY_CHALLENGE_INVALID 400))
    (act_bind (act_lift (verifyRegistration (ae_webauthn env)
        \<lparr>ri_attestationObject = rr_attestationObject input, ri_clientDataJSON = rr_clientDataJSON input,
         ri_expectedChallenge = rr_challenge input, ri_expectedOrigins = rr_origins input,
         ri_expectedRpId = rr_rpId input, ri_requireUserVerification = False\<rparr>)) (\<lambda>cred.
     act_bind (act_asks (st_findPasskey projectId (rc_credentialId cred))) (\<lambda>clash.
     act_seq (act_require (clash = None) (AuthFail PASSKEY_EXISTS 409))
    (act_seq (act_modify (st_savePasskey \<lparr>pk_projectId = projectId, pk_credentialId = rc_credentialId cred,
        pk_userId = userId, pk_publicKey = rc_publicKey cred, pk_algorithm = rc_algorithm cred,
        pk_signCount = rc_signCount cred, pk_aaguid = rc_aaguid cred, pk_fmt = rc_fmt cred,
        pk_label = map_option (take 80) (rr_label input), pk_backedUp = rc_backedUp cred,
        pk_createdAt = c_now c, pk_lastUsedAt = None\<rparr>))
    (act_seq (audit_log PasskeyRegistered projectId (Some userId) None)
    (act_return (take 16 (rc_credentialId cred), rr_label input))))))))"

definition beginPasskeyAuthentication :: "call \<Rightarrow> string \<Rightarrow> string auth_act" where
  "beginPasskeyAuthentication c projectId = save_challenge c projectId None AuthenticateChallenge"

record assertion_reply =
  ay_challenge :: string
  ay_credentialId :: string
  ay_authenticatorData :: string
  ay_clientDataJSON :: string
  ay_signature :: string
  ay_origins :: "string list"
  ay_rpId :: string

definition assertion_input :: "assertion_reply \<Rightarrow> passkey_credential \<Rightarrow> authentication_input" where
  "assertion_input input cred =
     \<lparr>ai_credentialId = ay_credentialId input, ai_authenticatorData = ay_authenticatorData input,
      ai_clientDataJSON = ay_clientDataJSON input, ai_signature = ay_signature input,
      ai_storedPublicKey = pk_publicKey cred, ai_storedAlgorithm = pk_algorithm cred,
      ai_storedSignCount = pk_signCount cred, ai_expectedChallenge = ay_challenge input,
      ai_expectedOrigins = ay_origins input, ai_expectedRpId = ay_rpId input, ai_requireUserVerification = False\<rparr>"

abbreviation passkey_refused :: auth_error where
  "passkey_refused \<equiv> AuthFail PASSKEY_INVALID 401"

definition active_user :: "customer_user option \<Rightarrow> customer_user option" where
  "active_user v = (case v of None \<Rightarrow> None | Some u \<Rightarrow> if cu_status u \<noteq> UserActive then None else Some u)"

definition finishPasskeyAuthentication :: "auth_env \<Rightarrow> call \<Rightarrow> string \<Rightarrow> assertion_reply \<Rightarrow>
    (exposed_user \<times> auth_tokens) auth_act" where
  "finishPasskeyAuthentication env c projectId input =
     act_bind (act_run (st_consumePasskeyChallenge (c_now c) projectId (ay_challenge input) AuthenticateChallenge)) (\<lambda>pending.
     act_seq (act_require (pending \<noteq> None) (AuthFail PASSKEY_CHALLENGE_INVALID 400))
    (act_bind (act_asks (st_findPasskey projectId (ay_credentialId input))) (\<lambda>known.
     act_bind (act_some known passkey_refused) (\<lambda>cred.
     act_bind (act_catch (act_lift (verifyAuthentication (ae_webauthn env) (assertion_input input cred)))
         (\<lambda>_. act_throw passkey_refused)) (\<lambda>result.
     act_bind (act_asks (st_findUserById projectId (pk_userId cred))) (\<lambda>found.
     act_bind (act_some (active_user found) passkey_refused) (\<lambda>user.
     if ar_signCountSuspect result then
       act_seq (audit_log PasskeyCloneSuspected projectId (Some (cu_id user)) None)
         (act_throw (AuthFail PASSKEY_COUNTER_REGRESSED 401))
     else
       act_seq (act_modify (st_touchPasskey (c_now c) projectId (pk_credentialId cred) (ar_signCount result)))
      (act_bind (issueSession env c projectId user) (\<lambda>(sessionId, toks).
       act_seq (update_user c projectId (cu_id user) (\<lambda>u. u\<lparr>cu_lastSignInAt := Some (c_now c)\<rparr>))
      (act_seq (audit_log PasskeyAuthenticated projectId (Some (cu_id user)) None)
      (act_return (exposeUser user, toks))))))))))))"

definition listPasskeys :: "string \<Rightarrow> string \<Rightarrow> public_passkey list auth_act" where
  "listPasskeys projectId userId = act_asks (\<lambda>s. map toPublicPasskey (st_listPasskeys projectId userId s))"

definition removePasskey :: "call \<Rightarrow> string \<Rightarrow> string \<Rightarrow> string \<Rightarrow> bool auth_act" where
  "removePasskey c projectId userId handle =
     act_bind (act_asks (st_listPasskeys projectId userId)) (\<lambda>creds.
     case find (\<lambda>k. take 16 (pk_credentialId k) = handle) creds of
       None \<Rightarrow> act_return False
     | Some match \<Rightarrow>
         act_bind (act_run (st_deletePasskey projectId userId (pk_credentialId match))) (\<lambda>removed.
         act_seq (act_when removed (audit_log PasskeyRemoved projectId (Some userId) None)) (act_return removed)))"

section \<open>Time-based second factor\<close>

definition check_totp :: "auth_env \<Rightarrow> call \<Rightarrow> string \<Rightarrow> string \<Rightarrow> bool auth" where
  "check_totp env c secret given =
     verifyTotp (ae_hmac1 env) secret given (c_now c) \<lparr>tt_window = None, tt_stepSeconds = None\<rparr>"

definition enrollTotp :: "call \<Rightarrow> string \<Rightarrow> string \<Rightarrow> (string \<times> string) auth_act" where
  "enrollTotp c projectId userId =
     act_bind (act_asks (st_findUserById projectId userId)) (\<lambda>found.
     act_bind (act_some found (AuthFail USER_NOT_FOUND 404)) (\<lambda>user.
     act_seq (act_require (\<not> cu_isAnonymous user) (AuthFail NOT_SUPPORTED 400))
    (let secret = generateTotpSecret (c_secret c) in
     act_seq (update_user c projectId userId (\<lambda>u. u\<lparr>cu_totpSecret := Some secret, cu_totpEnabled := False\<rparr>))
    (act_seq (audit_log MfaEnrolled projectId (Some userId) None)
    (act_return (secret, totpProvisionUri secret (cu_email user) None))))))"

text \<open>A user with a secret, not empty; \<open>enabled\<close> is asked for as well.\<close>

definition enrolled :: "bool \<Rightarrow> customer_user option \<Rightarrow> (customer_user \<times> string) option" where
  "enrolled enabled v = (case v of None \<Rightarrow> None
     | Some u \<Rightarrow> (case cu_totpSecret u of None \<Rightarrow> None
         | Some secret \<Rightarrow> if secret = [] \<or> (enabled \<and> \<not> cu_totpEnabled u) then None else Some (u, secret)))"

definition confirmTotp :: "auth_env \<Rightarrow> call \<Rightarrow> string \<Rightarrow> string \<Rightarrow> string \<Rightarrow> string list auth_act" where
  "confirmTotp env c projectId userId given =
     act_bind (act_asks (st_findUserById projectId userId)) (\<lambda>found.
     act_bind (act_some (enrolled False found) (AuthFail MFA_NOT_ENROLLED 400)) (\<lambda>(user, secret).
     act_bind (act_lift (check_totp env c secret given)) (\<lambda>ok.
     act_seq (act_require ok (AuthFail MFA_INVALID 401))
    (case generateBackupCodes (ae_sha env) (c_backup c) 10 of (codes, hashes) \<Rightarrow>
     act_seq (update_user c projectId userId (\<lambda>u. u\<lparr>cu_totpEnabled := True, cu_backupCodeHashes := hashes\<rparr>))
     (act_return codes)))))"

definition disableTotp :: "auth_env \<Rightarrow> call \<Rightarrow> string \<Rightarrow> string \<Rightarrow> string \<Rightarrow> unit auth_act" where
  "disableTotp env c projectId userId given =
     act_bind (act_asks (st_findUserById projectId userId)) (\<lambda>found.
     act_bind (act_some (enrolled True found) (AuthFail MFA_NOT_ENROLLED 400)) (\<lambda>(user, secret).
     act_bind (act_lift (check_totp env c secret given)) (\<lambda>ok.
     act_seq (act_require ok (AuthFail MFA_INVALID 401))
    (act_seq (update_user c projectId userId
       (\<lambda>u. u\<lparr>cu_totpSecret := None, cu_totpEnabled := False, cu_backupCodeHashes := []\<rparr>))
    (audit_log MfaDisabled projectId (Some userId) None)))))"

definition verifyMfa :: "auth_env \<Rightarrow> call \<Rightarrow> string \<Rightarrow> string \<Rightarrow> string \<Rightarrow> signed_in auth_act" where
  "verifyMfa env c projectId mfaTicket given =
     act_bind (take_token env c projectId mfaTicket MfaToken (AuthFail MFA_EXPIRED 401)) (\<lambda>r.
     act_bind (act_asks (st_findUserById projectId (ot_userId r))) (\<lambda>found.
     act_bind (act_some (enrolled True (active_user found)) (AuthFail MFA_INVALID 401)) (\<lambda>(user, secret).
     let presented = strip_separators given in
     act_bind (act_lift (check_totp env c secret presented)) (\<lambda>live.
     act_bind (if live then act_return True
       else (let hash = ae_sha env presented; remaining = filter (\<lambda>h. h \<noteq> hash) (cu_backupCodeHashes user) in
         if length remaining \<noteq> length (cu_backupCodeHashes user) then
           act_seq (update_user c projectId (cu_id user) (\<lambda>u. u\<lparr>cu_backupCodeHashes := remaining\<rparr>)) (act_return True)
         else act_return False)) (\<lambda>ok.
     if \<not> ok then act_seq (audit_log UserLoginFailed projectId (Some (cu_id user)) None) (act_throw (AuthFail MFA_INVALID 401))
     else finish_sign_in env c projectId user MfaVerified)))))"

section \<open>Phone codes\<close>

definition updatePhone :: "call \<Rightarrow> string \<Rightarrow> string \<Rightarrow> string \<Rightarrow> exposed_user auth_act" where
  "updatePhone c projectId userId phone =
     (let normalized = js_trim phone in
      act_seq (act_require (isValidPhone normalized) (AuthFail INVALID_PHONE 400))
     (act_bind (update_user c projectId userId (\<lambda>u. u\<lparr>cu_phone := Some normalized, cu_phoneVerified := False\<rparr>)) (\<lambda>updated.
      act_bind (act_some updated (AuthFail USER_NOT_FOUND 404)) (\<lambda>u. act_return (exposeUser u)))))"

definition sms_body :: "string \<Rightarrow> string" where
  "sms_body codeText = ''Your CloudNivo code is: '' @ codeText @ ''. It expires in 10 minutes.''"

text \<open>The driver may throw, or say whether the message was delivered.\<close>

definition send_sms :: "auth_env \<Rightarrow> string \<Rightarrow> string \<Rightarrow> bool auth_act" where
  "send_sms env to body =
     act_bind (act_some (ae_sms env to body) AuthPlain) (\<lambda>delivered.
     act_seq (act_modify (\<lambda>s. s\<lparr>texts := texts s @ [(to, body)]\<rparr>)) (act_return delivered))"

definition with_phone :: "customer_user option \<Rightarrow> (customer_user \<times> string) option" where
  "with_phone v = (case v of None \<Rightarrow> None | Some u \<Rightarrow> (case cu_phone u of None \<Rightarrow> None
     | Some phone \<Rightarrow> if phone = [] then None else Some (u, phone)))"

definition requestPhoneOtp :: "auth_env \<Rightarrow> call \<Rightarrow> string \<Rightarrow> string \<Rightarrow> bool auth_act" where
  "requestPhoneOtp env c projectId userId =
     act_bind (act_asks (st_findUserById projectId userId)) (\<lambda>found.
     act_bind (act_some (with_phone found) (AuthFail PHONE_MISSING 400)) (\<lambda>(user, phone).
     act_seq (act_require (cu_status user = UserActive) (AuthFail USER_DISABLED 403))
    (act_bind (issue_code env c projectId (''phone:'' @ phone) OtpPhone) (\<lambda>codeText.
     act_bind (send_sms env phone (sms_body codeText)) (\<lambda>delivered.
     act_seq (audit_log OtpRequested projectId (Some userId) None) (act_return delivered))))))"

definition verifyPhoneOtp :: "auth_env \<Rightarrow> call \<Rightarrow> string \<Rightarrow> string \<Rightarrow> string \<Rightarrow> exposed_user auth_act" where
  "verifyPhoneOtp env c projectId userId given =
     act_bind (act_asks (st_findUserById projectId userId)) (\<lambda>found.
     act_bind (act_some (with_phone found) (AuthFail PHONE_MISSING 400)) (\<lambda>(user, phone).
     act_seq (act_catch (check_otp env c projectId (''phone:'' @ phone) OtpPhone given)
       (\<lambda>err. act_throw (rethrown err)))
    (act_bind (update_user c projectId (cu_id user) (\<lambda>u. u\<lparr>cu_phoneVerified := True\<rparr>)) (\<lambda>updated.
     act_bind (act_some updated (AuthFail USER_NOT_FOUND 404)) (\<lambda>u.
     act_seq (audit_log PhoneVerified projectId (Some userId) None) (act_return (exposeUser u)))))))"

definition requestLoginOtp :: "auth_env \<Rightarrow> call \<Rightarrow> string \<Rightarrow> string \<Rightarrow> bool auth_act" where
  "requestLoginOtp env c projectId phone =
     (let normalized = js_trim phone in
      if \<not> isValidPhone normalized then act_return False
      else act_bind (act_asks (st_findUserByPhone projectId normalized)) (\<lambda>found.
        case usable found of None \<Rightarrow> act_return False
        | Some user \<Rightarrow>
            act_bind (issue_code env c projectId (''phone:'' @ normalized) OtpPhone) (\<lambda>codeText.
            act_bind (act_catch (send_sms env normalized (sms_body codeText)) (\<lambda>_. act_return False)) (\<lambda>delivered.
            act_seq (audit_log OtpRequested projectId None None) (act_return delivered)))))"

definition verifyLoginOtp :: "auth_env \<Rightarrow> call \<Rightarrow> string \<Rightarrow> string \<Rightarrow> string \<Rightarrow> signed_in auth_act" where
  "verifyLoginOtp env c projectId phone given =
     (let normalized = js_trim phone in
      act_seq (act_catch (check_otp env c projectId (''phone:'' @ normalized) OtpPhone given)
        (\<lambda>err. act_seq (audit_log UserLoginFailed projectId None None) (act_throw (rethrown err))))
     (act_bind (act_asks (st_findUserByPhone projectId normalized)) (\<lambda>found.
      act_bind (act_some (usable found) (AuthFail INVALID_CREDENTIALS 401)) (\<lambda>user.
      act_seq (act_when (\<not> cu_phoneVerified user)
        (act_seq (update_user c projectId (cu_id user) (\<lambda>u. u\<lparr>cu_phoneVerified := True\<rparr>)) (act_return ())))
      (finish_sign_in env c projectId user OtpVerified)))))"

section \<open>Runs of operations\<close>

datatype auth_op =
    SignUp string string "json option" | SignIn string string | SignOut string string | SignOutByRefresh string
  | RefreshSession string | UpdateUser string "json option" | AdminUpdateUser string "string option" "json option"
  | DeleteUser string | VerifyEmailOp string | RequestPasswordReset string | CompletePasswordReset string string
  | ChangePassword string string string | RevokeOwnSession string string | RevokeAllSessions string
  | SignInAnonymously "json option" | ConvertAnonymous string string string
  | RequestEmailOtp string otp_purpose | VerifyEmailOtp string string otp_purpose
  | RequestMagicLink string | ConsumeMagicLink string
  | BeginPasskeyRegistration string | FinishPasskeyRegistration string registration_reply
  | BeginPasskeyAuthentication | FinishPasskeyAuthentication assertion_reply | RemovePasskey string string
  | EnrollTotp string | ConfirmTotp string string | DisableTotp string string | VerifyMfa string string
  | UpdatePhone string string | RequestPhoneOtp string | VerifyPhoneOtp string string
  | RequestLoginOtp string | VerifyLoginOtp string string

text \<open>An operation of a project, its result forgotten.\<close>

definition forget :: "'a auth_act \<Rightarrow> unit auth_act" where
  "forget m = act_bind m (\<lambda>_. act_return ())"

fun perform :: "auth_env \<Rightarrow> call \<Rightarrow> string \<Rightarrow> auth_op \<Rightarrow> unit auth_act" where
  "perform env c p (SignUp e w m) = forget (signUp env c p e w m)"
| "perform env c p (SignIn e w) = forget (signIn env c p e w)"
| "perform env c p (SignOut sid u) = forget (signOut c p sid u)"
| "perform env c p (SignOutByRefresh r) = forget (signOutByRefresh env c p r)"
| "perform env c p (RefreshSession r) = forget (refreshSession env c p r)"
| "perform env c p (UpdateUser u m) = forget (updateUser c p u m)"
| "perform env c p (AdminUpdateUser u st m) = forget (adminUpdateUser c p u st m)"
| "perform env c p (DeleteUser u) = forget (deleteUser c p u)"
| "perform env c p (VerifyEmailOp t) = forget (verifyEmail env c p t)"
| "perform env c p (RequestPasswordReset e) = forget (requestPasswordReset env c p e)"
| "perform env c p (CompletePasswordReset t w) = forget (completePasswordReset env c p t w)"
| "perform env c p (ChangePassword u w w') = forget (changePassword env c p u w w')"
| "perform env c p (RevokeOwnSession u sid) = forget (revokeOwnSession c p u sid)"
| "perform env c p (RevokeAllSessions u) = forget (revokeAllSessions c p u)"
| "perform env c p (SignInAnonymously m) = forget (signInAnonymously env c p m)"
| "perform env c p (ConvertAnonymous u e w) = forget (convertAnonymous env c p u e w)"
| "perform env c p (RequestEmailOtp e k) = forget (requestEmailOtp env c p e k)"
| "perform env c p (VerifyEmailOtp e g k) = forget (verifyEmailOtp env c p e g k)"
| "perform env c p (RequestMagicLink e) = forget (requestMagicLink env c p e)"
| "perform env c p (ConsumeMagicLink t) = forget (consumeMagicLink env c p t)"
| "perform env c p (BeginPasskeyRegistration u) = forget (beginPasskeyRegistration c p u)"
| "perform env c p (FinishPasskeyRegistration u r) = forget (finishPasskeyRegistration env c p u r)"
| "perform env c p BeginPasskeyAuthentication = forget (beginPasskeyAuthentication c p)"
| "perform env c p (FinishPasskeyAuthentication r) = forget (finishPasskeyAuthentication env c p r)"
| "perform env c p (RemovePasskey u h) = forget (removePasskey c p u h)"
| "perform env c p (EnrollTotp u) = forget (enrollTotp c p u)"
| "perform env c p (ConfirmTotp u g) = forget (confirmTotp env c p u g)"
| "perform env c p (DisableTotp u g) = forget (disableTotp env c p u g)"
| "perform env c p (VerifyMfa t g) = forget (verifyMfa env c p t g)"
| "perform env c p (UpdatePhone u f) = forget (updatePhone c p u f)"
| "perform env c p (RequestPhoneOtp u) = forget (requestPhoneOtp env c p u)"
| "perform env c p (VerifyPhoneOtp u g) = forget (verifyPhoneOtp env c p u g)"
| "perform env c p (RequestLoginOtp f) = forget (requestLoginOtp env c p f)"
| "perform env c p (VerifyLoginOtp f g) = forget (verifyLoginOtp env c p f g)"

record auth_request =
  rq_call :: call
  rq_projectId :: string
  rq_op :: auth_op

definition auth_step :: "auth_env \<Rightarrow> auth_request \<Rightarrow> auth_state \<Rightarrow> auth_state" where
  "auth_step env r s = snd (perform env (rq_call r) (rq_projectId r) (rq_op r) s)"

definition auth_run :: "auth_env \<Rightarrow> auth_request list \<Rightarrow> auth_state \<Rightarrow> auth_state" where
  "auth_run env rs s = fold (auth_step env) rs s"

end
