(* ===== verification/AuthRelations.thy ===== *)
theory AuthRelations
  imports AuthFactors
begin

text \<open>
  What every operation of the customer authentication service keeps.  A relation between states that each store
  operation keeps is kept by every operation of the service: proved once, in locales, for operations that open
  no session, for those that do, and for the two that change a user's status or role.  Refreshing a session is the one
  operation that rotates refresh tokens: the three \<open>steady\<close> locales are about all the others and ask nothing of the
  rotation, the other three add it.  The instances are on the model's own relations.
\<close>

section \<open>Relations kept by the store operations\<close>

definition plain_patch :: "(customer_user \<Rightarrow> customer_user) \<Rightarrow> bool" where
  "plain_patch patch \<longleftrightarrow> (\<forall>u. cu_status (patch u) = cu_status u \<and> cu_appMetadata (patch u) = cu_appMetadata u)"

fun privileged :: "auth_op \<Rightarrow> bool" where
  "privileged (AdminUpdateUser _ _ _) = True"
| "privileged (DeleteUser _) = True"
| "privileged _ = False"

fun opens_session :: "auth_op \<Rightarrow> bool" where
  "opens_session (SignIn _ _) = True"
| "opens_session (SignInAnonymously _) = True"
| "opens_session (VerifyEmailOtp _ _ _) = True"
| "opens_session (ConsumeMagicLink _) = True"
| "opens_session (FinishPasskeyAuthentication _) = True"
| "opens_session (VerifyMfa _ _) = True"
| "opens_session (VerifyLoginOtp _ _) = True"
| "opens_session _ = False"

fun refreshes :: "auth_op \<Rightarrow> bool" where
  "refreshes (RefreshSession _) = True"
| "refreshes _ = False"

locale steady_relation = kept_relation R for R :: "auth_state \<Rightarrow> auth_state \<Rightarrow> bool" +
  fixes env :: auth_env and c :: call and p :: string
  assumes r_create: "nu_projectId input = p \<Longrightarrow> R s (snd (st_createUser (c_userUuid c) (c_now c) input s))"
    and r_update: "plain_patch patch \<Longrightarrow> R s (snd (st_updateUser (c_now c) p uid patch s))"
    and r_revoke: "R s (snd (st_revokeSession (c_now c) p sid s))"
    and r_revoke_user: "R s (snd (st_revokeUserSessions (c_now c) p uid s))"
    and r_token: "ot_projectId t = p \<Longrightarrow> ot_tokenHash t = hashToken env (c_token c) \<Longrightarrow> R s (st_saveToken (c_now c) t s)"
    and r_consume: "R s (snd (st_consumeToken (c_now c) p h s))"
    and r_delete_tokens: "R s (st_deleteUserTokens p uid s)"
    and r_passkey: "pk_projectId k = p \<Longrightarrow> R s (st_savePasskey k s)"
    and r_touch_passkey: "R s (st_touchPasskey (c_now c) p kid n s)"
    and r_delete_passkey: "R s (snd (st_deletePasskey p uid kid s))"
    and r_challenge: "pc_projectId ch = p \<Longrightarrow> R s (st_savePasskeyChallenge ch s)"
    and r_consume_challenge: "R s (snd (st_consumePasskeyChallenge (c_now c) p txt kind s))"
    and r_issue: "R s (s\<lparr>otps := snd (otp_issue sha cfg dig (c_now c) p ident purpose (otps s))\<rparr>)"
    and r_verify: "R s (s\<lparr>otps := snd (otp_verify sha cfg (c_now c) p ident purpose given (otps s))\<rparr>)"
    and r_audits: "R s (s\<lparr>audits := a\<rparr>)"
    and r_mails: "R s (s\<lparr>mails := m\<rparr>)"
    and r_texts: "R s (s\<lparr>texts := x\<rparr>)"
begin

lemma k_create: "nu_projectId input = p \<Longrightarrow> keeps R (st_createUser (c_userUuid c) (c_now c) input)"
  by (simp add: keeps_def r_create)

lemma k_update: "plain_patch patch \<Longrightarrow> keeps R (update_user c p uid patch)"
  unfolding update_user_def by (rule keeps_run) (rule r_update)

lemma k_audit: "keeps R (audit_log ev q u x)"
  unfolding audit_log_def by (rule keeps_modify) (rule r_audits)

lemma k_mail: "keeps R (send_mail kind to content)"
  unfolding send_mail_def by (rule keeps_modify) (rule r_mails)

lemma k_sms: "keeps R (send_sms env to body)"
  unfolding send_sms_def by (intro keeps_rules keeps_modify r_texts)

lemma k_token: "keeps R (save_token env c p u kind ttl)"
  unfolding save_token_def by (rule keeps_modify) (rule r_token; simp)

lemma k_take: "keeps R (take_token env c p raw kind err)"
  unfolding take_token_def by (intro keeps_rules keeps_run r_consume)

lemma k_end: "keeps R (end_everything c p u)"
  unfolding end_everything_def by (intro keeps_rules keeps_run keeps_modify r_revoke_user r_delete_tokens)

lemma k_check: "keeps R (check_otp env c p ident purpose given)"
  using r_verify by (simp add: keeps_def check_otp_def with_otps_def case_prod_beta Let_def)

lemma k_issue: "keeps R (issue_code env c p ident purpose)"
  using r_issue by (simp add: keeps_def issue_code_def with_otps_def case_prod_beta Let_def)

lemma k_challenge: "keeps R (save_challenge c p u kind)"
  unfolding save_challenge_def Let_def by (intro keeps_rules keeps_modify r_challenge) simp

lemma k_forget: "keeps R m \<Longrightarrow> keeps R (forget m)"
  unfolding forget_def by (intro keeps_rules)

lemmas k_store = keeps_run [OF r_revoke] keeps_run [OF r_revoke_user] keeps_run [OF r_delete_passkey]
  keeps_run [OF r_consume_challenge] keeps_modify [OF r_delete_tokens] keeps_modify [OF r_touch_passkey]

lemmas k_rules = keeps_rules k_create k_update k_audit k_mail k_sms k_token k_take k_end k_check k_issue k_challenge k_store

lemma quiet_account_ops:
  "keeps R (signUp env c p e w m)" "keeps R (signOut c p sid u)" "keeps R (signOutByRefresh env c p r)"
  "keeps R (updateUser c p u m)" "keeps R (verifyEmail env c p tok)"
  "keeps R (requestPasswordReset env c p e)" "keeps R (completePasswordReset env c p tok w)"
  "keeps R (changePassword env c p u w w')" "keeps R (revokeOwnSession c p u sid)" "keeps R (revokeAllSessions c p u)"
  "keeps R (convertAnonymous env c p u e w)" "keeps R (requestEmailOtp env c p e purpose)" "keeps R (requestMagicLink env c p e)"
  unfolding signUp_def signOut_def signOutByRefresh_def updateUser_def verifyEmail_def
    requestPasswordReset_def completePasswordReset_def changePassword_def revokeOwnSession_def revokeAllSessions_def
    convertAnonymous_def requestEmailOtp_def requestMagicLink_def Let_def
  by (intro k_rules; simp add: plain_patch_def split: option.split)+

lemma quiet_factor_ops:
  "keeps R (beginPasskeyRegistration c p u)" "keeps R (finishPasskeyRegistration env c p u rr)"
  "keeps R (beginPasskeyAuthentication c p)" "keeps R (removePasskey c p u h)" "keeps R (enrollTotp c p u)"
  "keeps R (confirmTotp env c p u g)" "keeps R (disableTotp env c p u g)" "keeps R (updatePhone c p u f)"
  "keeps R (requestPhoneOtp env c p u)" "keeps R (verifyPhoneOtp env c p u g)" "keeps R (requestLoginOtp env c p f)"
  unfolding beginPasskeyRegistration_def finishPasskeyRegistration_def beginPasskeyAuthentication_def removePasskey_def
    enrollTotp_def confirmTotp_def disableTotp_def updatePhone_def requestPhoneOtp_def verifyPhoneOtp_def
    requestLoginOtp_def Let_def
  by (intro k_rules keeps_modify [OF r_passkey]; simp add: plain_patch_def)+

lemma k_steady_quiet: "\<not> privileged op \<Longrightarrow> \<not> opens_session op \<Longrightarrow> \<not> refreshes op \<Longrightarrow> keeps R (perform env c p op)"
  by (cases op; simp only: perform.simps privileged.simps opens_session.simps refreshes.simps)
    (intro k_forget quiet_account_ops quiet_factor_ops; simp)+

end

text \<open>Operations that open sessions.\<close>

locale steady_session = steady_relation +
  assumes r_session: "R s (snd (st_createSession (c_sessionUuid c) (c_now c) (new_session env c p user) s))"
begin

lemma k_issueSession: "keeps R (issueSession env c p user)"
  unfolding issueSession_def by (intro k_rules keeps_run [OF r_session]) (simp add: plain_patch_def)

lemma k_finish: "keeps R (finish_sign_in env c p user ev)"
  unfolding finish_sign_in_def by (intro k_rules k_issueSession)

lemma session_ops:
  "keeps R (signIn env c p e w)" "keeps R (signInAnonymously env c p m)" "keeps R (verifyEmailOtp env c p e g purpose)"
  "keeps R (consumeMagicLink env c p tok)" "keeps R (finishPasskeyAuthentication env c p ar)"
  "keeps R (verifyMfa env c p tok g)" "keeps R (verifyLoginOtp env c p f g)"
  unfolding signIn_def signInAnonymously_def verifyEmailOtp_def consumeMagicLink_def finishPasskeyAuthentication_def
    verifyMfa_def verifyLoginOtp_def Let_def
  by (intro k_rules k_issueSession k_finish; simp add: plain_patch_def)+

lemma k_steady_perform: "\<not> privileged op \<Longrightarrow> \<not> refreshes op \<Longrightarrow> keeps R (perform env c p op)"
  by (cases op; simp only: perform.simps privileged.simps refreshes.simps)
    (intro k_forget quiet_account_ops quiet_factor_ops session_ops; simp)+

end

text \<open>The two operations of an administrator.\<close>

locale steady_admin = steady_session +
  assumes r_change: "R s (snd (st_updateUser (c_now c) p uid patch s))"
    and r_delete: "R s (snd (st_deleteUser (c_now c) p uid s))"
begin

lemma k_change: "keeps R (update_user c p uid patch)"
  unfolding update_user_def by (rule keeps_run) (rule r_change)

lemma admin_ops: "keeps R (adminUpdateUser c p u st m)" "keeps R (deleteUser c p u)"
  unfolding adminUpdateUser_def deleteUser_def
  by (intro k_rules k_change keeps_run [OF r_delete])+

lemma k_steady: "\<not> refreshes op \<Longrightarrow> keeps R (perform env c p op)"
proof (cases "privileged op")
  case True
  then show ?thesis by (cases op) (simp_all add: k_forget admin_ops)
qed (rule k_steady_perform)

end

text \<open>The rotation of refresh tokens, and with it the remaining operation.\<close>

locale quiet_relation = steady_relation R env c p for R :: "auth_state \<Rightarrow> auth_state \<Rightarrow> bool" and env c p +
  assumes r_mark: "R s (st_markRefreshUsed (c_now c) p sid h s)"
    and r_touch: "R s (st_touchSession (c_now c) p sid h s)"
begin

lemma k_refresh: "keeps R (refreshSession env c p r)"
  unfolding refreshSession_def Let_def
  by (intro k_rules keeps_modify [OF r_mark] keeps_modify [OF r_touch])

lemma k_refreshes: "refreshes op \<Longrightarrow> keeps R (perform env c p op)"
  by (cases op) (simp_all add: k_forget k_refresh)

lemma k_quiet: "\<not> privileged op \<Longrightarrow> \<not> opens_session op \<Longrightarrow> keeps R (perform env c p op)"
  using k_steady_quiet k_refreshes by blast

end

locale session_relation = quiet_relation R env c p + steady_session R env c p
  for R :: "auth_state \<Rightarrow> auth_state \<Rightarrow> bool" and env c p
begin

lemma k_perform: "\<not> privileged op \<Longrightarrow> keeps R (perform env c p op)"
  using k_steady_perform k_refreshes by blast

end

locale admin_relation = session_relation R env c p + steady_admin R env c p
  for R :: "auth_state \<Rightarrow> auth_state \<Rightarrow> bool" and env c p
begin

lemma k_any: "keeps R (perform env c p op)"
  using k_steady k_refreshes by blast

lemma step_any: "R s (auth_step env \<lparr>rq_call = c, rq_projectId = p, rq_op = op\<rparr> s)"
  using k_any by (simp add: auth_step_def keeps_def)

end

end
