(* ===== verification/AuthSafety.thy ===== *)
theory AuthSafety
  imports AuthRelations
begin

text \<open>
  What the customer authentication service guarantees over whole runs of requests: projects stay apart, nobody makes
  himself an administrator, what is revoked or consumed stays so, a disabled account has no session.
\<close>

section \<open>Keys of projects\<close>

definition plain_id :: "string \<Rightarrow> bool" where
  "plain_id p \<longleftrightarrow> CHR '':'' \<notin> set p"

lemma keyed_split: "plain_id p \<Longrightarrow> keyed p k = keyed q j \<Longrightarrow> plain_id q \<Longrightarrow> p = q \<and> k = j"
  unfolding keyed_def plain_id_def
proof (induction p arbitrary: q)
  case Nil
  then show ?case by (cases q) auto
next
  case (Cons x p)
  then obtain q' where q: "q = x # q'" by (cases q) auto
  from Cons.IH [of q'] Cons.prems show ?case by (auto simp: q)
qed

lemma keyed_same [simp]: "keyed p k = keyed p j \<longleftrightarrow> k = j"
  by (simp add: keyed_def)

lemma keyed_other: "plain_id p \<Longrightarrow> plain_id q \<Longrightarrow> p \<noteq> q \<Longrightarrow> keyed q k \<noteq> keyed p j"
  using keyed_split by metis

lemma recordKey_keyed: "recordKey p ident pu = ''otp:'' @ keyed p (purpose_text pu @ '':'' @ to_lower ident)"
  by (simp add: recordKey_def keyed_def)

lemma recordKey_other: "plain_id p \<Longrightarrow> plain_id q \<Longrightarrow> p \<noteq> q \<Longrightarrow> recordKey q ident pu \<noteq> recordKey p ident' pu'"
  by (simp add: recordKey_keyed keyed_other)

section \<open>Stored values carry their keys\<close>

definition table_ok :: "('v \<Rightarrow> string) \<Rightarrow> (string, 'v) jsmap \<Rightarrow> bool" where
  "table_ok key m \<longleftrightarrow> js_ok m \<and> (\<forall>k v. js_get m k = Some v \<longrightarrow> k = key v)"

definition user_key :: "customer_user \<Rightarrow> string" where
  "user_key u = keyed (cu_projectId u) (cu_id u)"

definition session_key :: "customer_session \<Rightarrow> string" where
  "session_key x = keyed (cs_projectId x) (cs_id x)"

definition token_key_of :: "one_time_token \<Rightarrow> string" where
  "token_key_of t = keyed (ot_projectId t) (ot_tokenHash t)"

definition passkey_key :: "passkey_credential \<Rightarrow> string" where
  "passkey_key k = keyed (pk_projectId k) (pk_credentialId k)"

definition challenge_key :: "passkey_challenge \<Rightarrow> string" where
  "challenge_key h = keyed (pc_projectId h) (pc_challenge h)"

definition well_keyed :: "auth_state \<Rightarrow> bool" where
  "well_keyed s \<longleftrightarrow> table_ok user_key (users s) \<and> table_ok session_key (sessions s) \<and> table_ok token_key_of (tokens s) \<and>
     table_ok passkey_key (passkeys s) \<and> table_ok challenge_key (challenges s)"

lemma table_ok_set: "table_ok key m \<Longrightarrow> k = key v \<Longrightarrow> table_ok key (js_set k v m)"
  by (simp add: table_ok_def js_ok_set)

lemma table_ok_delete: "table_ok key m \<Longrightarrow> table_ok key (js_delete k m)"
  by (simp add: table_ok_def js_ok_delete)

lemma table_ok_map: "table_ok key m \<Longrightarrow> (\<And>v. key (f v) = key v) \<Longrightarrow> table_ok key (map_vals f m)"
  by (auto simp: table_ok_def)

lemma table_ok_get: "table_ok key m \<Longrightarrow> js_get m k = Some v \<Longrightarrow> key v = k"
  by (auto simp: table_ok_def)

lemma table_ok_drop: "table_ok key m \<Longrightarrow> table_ok key (drop_vals f m)"
  by (auto simp: table_ok_def js_ok_drop_vals drop_vals_get split: option.splits if_splits)

lemma table_value: "table_ok key m \<Longrightarrow> v \<in> set (js_values m) \<Longrightarrow> js_get m (key v) = Some v"
proof -
  assume ok: "table_ok key m" and "v \<in> set (js_values m)"
  then obtain k where k: "js_get m k = Some v" using js_values_get unfolding table_ok_def by metis
  with table_ok_get [OF ok k] show ?thesis by simp
qed

lemma drop_vals_get_other:
  "js_ok m \<Longrightarrow> (\<And>v. js_get m k = Some v \<Longrightarrow> \<not> f v) \<Longrightarrow> js_get (drop_vals f m) k = js_get m k"
  by (auto simp: drop_vals_get split: option.splits)

lemmas table_rules = table_ok_set table_ok_delete table_ok_map table_ok_drop

text \<open>What a project sees of the state.\<close>

definition same_project :: "string \<Rightarrow> auth_state \<Rightarrow> auth_state \<Rightarrow> bool" where
  "same_project q s t \<longleftrightarrow> (\<forall>k. js_get (users t) (keyed q k) = js_get (users s) (keyed q k) \<and>
     js_get (sessions t) (keyed q k) = js_get (sessions s) (keyed q k) \<and>
     js_get (tokens t) (keyed q k) = js_get (tokens s) (keyed q k) \<and>
     js_get (passkeys t) (keyed q k) = js_get (passkeys s) (keyed q k) \<and>
     js_get (challenges t) (keyed q k) = js_get (challenges s) (keyed q k)) \<and>
   (\<forall>ident pu. js_get (otps t) (recordKey q ident pu) = js_get (otps s) (recordKey q ident pu)) \<and>
   filter (\<lambda>u. cu_projectId u = q) (js_values (users t)) = filter (\<lambda>u. cu_projectId u = q) (js_values (users s)) \<and>
   filter (\<lambda>x. cs_projectId x = q) (js_values (sessions t)) = filter (\<lambda>x. cs_projectId x = q) (js_values (sessions s))"

definition isolated :: "string \<Rightarrow> string \<Rightarrow> auth_state \<Rightarrow> auth_state \<Rightarrow> bool" where
  "isolated p q s t \<longleftrightarrow> (well_keyed s \<longrightarrow> well_keyed t \<and>
     (plain_id p \<longrightarrow> plain_id q \<longrightarrow> p \<noteq> q \<longrightarrow> same_project q s t))"

definition apart :: "string \<Rightarrow> string \<Rightarrow> bool" where
  "apart p q \<longleftrightarrow> plain_id p \<and> plain_id q \<and> p \<noteq> q"

lemma apart_keyed: "apart p q \<Longrightarrow> keyed q k \<noteq> keyed p j"
  by (simp add: apart_def keyed_other)

lemma isolated_alt: "isolated p q s t \<longleftrightarrow> (well_keyed s \<longrightarrow> well_keyed t \<and> (apart p q \<longrightarrow> same_project q s t))"
  by (auto simp: isolated_def apart_def)

text \<open>A change of one table.\<close>

lemma isolated_refl: "isolated p q s s"
  by (simp add: isolated_alt same_project_def)

lemma isolated_users:
  "(well_keyed s \<Longrightarrow> table_ok user_key m) \<Longrightarrow>
   (\<And>k. well_keyed s \<Longrightarrow> apart p q \<Longrightarrow> js_get m (keyed q k) = js_get (users s) (keyed q k)) \<Longrightarrow>
   (well_keyed s \<Longrightarrow> apart p q \<Longrightarrow> filter (\<lambda>u. cu_projectId u = q) (js_values m) =
      filter (\<lambda>u. cu_projectId u = q) (js_values (users s))) \<Longrightarrow>
   isolated p q s (s\<lparr>users := m\<rparr>)"
  by (simp add: isolated_alt well_keyed_def same_project_def)

lemma isolated_sessions:
  "(well_keyed s \<Longrightarrow> table_ok session_key m) \<Longrightarrow>
   (\<And>k. well_keyed s \<Longrightarrow> apart p q \<Longrightarrow> js_get m (keyed q k) = js_get (sessions s) (keyed q k)) \<Longrightarrow>
   (well_keyed s \<Longrightarrow> apart p q \<Longrightarrow> filter (\<lambda>x. cs_projectId x = q) (js_values m) =
      filter (\<lambda>x. cs_projectId x = q) (js_values (sessions s))) \<Longrightarrow>
   isolated p q s (s\<lparr>sessions := m\<rparr>)"
  by (simp add: isolated_alt well_keyed_def same_project_def)

lemma isolated_tokens:
  "(well_keyed s \<Longrightarrow> table_ok token_key_of m) \<Longrightarrow>
   (\<And>k. well_keyed s \<Longrightarrow> apart p q \<Longrightarrow> js_get m (keyed q k) = js_get (tokens s) (keyed q k)) \<Longrightarrow>
   isolated p q s (s\<lparr>tokens := m\<rparr>)"
  by (simp add: isolated_alt well_keyed_def same_project_def)

lemma isolated_passkeys:
  "(well_keyed s \<Longrightarrow> table_ok passkey_key m) \<Longrightarrow>
   (\<And>k. well_keyed s \<Longrightarrow> apart p q \<Longrightarrow> js_get m (keyed q k) = js_get (passkeys s) (keyed q k)) \<Longrightarrow>
   isolated p q s (s\<lparr>passkeys := m\<rparr>)"
  by (simp add: isolated_alt well_keyed_def same_project_def)

lemma isolated_challenges:
  "(well_keyed s \<Longrightarrow> table_ok challenge_key m) \<Longrightarrow>
   (\<And>k. well_keyed s \<Longrightarrow> apart p q \<Longrightarrow> js_get m (keyed q k) = js_get (challenges s) (keyed q k)) \<Longrightarrow>
   isolated p q s (s\<lparr>challenges := m\<rparr>)"
  by (simp add: isolated_alt well_keyed_def same_project_def)

lemma isolated_otps:
  "(\<And>ident pu. apart p q \<Longrightarrow> js_get m (recordKey q ident pu) = js_get (otps s) (recordKey q ident pu)) \<Longrightarrow>
   isolated p q s (s\<lparr>otps := m\<rparr>)"
  by (simp add: isolated_alt well_keyed_def same_project_def)

lemma isolated_traces:
  "isolated p q s (s\<lparr>audits := a\<rparr>)" "isolated p q s (s\<lparr>mails := b\<rparr>)" "isolated p q s (s\<lparr>texts := x\<rparr>)"
  by (simp_all add: isolated_alt well_keyed_def same_project_def)

lemmas isolated_rules = isolated_users isolated_sessions isolated_tokens isolated_passkeys isolated_challenges isolated_otps

lemma well_keyed_tables:
  assumes "well_keyed s"
  shows "table_ok user_key (users s)" "table_ok session_key (sessions s)" "table_ok token_key_of (tokens s)"
    "table_ok passkey_key (passkeys s)" "table_ok challenge_key (challenges s)"
  using assms by (simp_all add: well_keyed_def)

lemma found_user:
  "st_findUserById p uid s = Some u \<Longrightarrow> js_get (users s) (keyed p uid) = Some u \<and> cu_status u \<noteq> UserDeleted"
  by (auto simp: st_findUserById_def live_user_def split: option.splits if_splits)

lemma found_key: "well_keyed s \<Longrightarrow> st_findUserById p uid s = Some u \<Longrightarrow> keyed p uid = user_key u"
  using found_user table_ok_get [OF well_keyed_tables(1)] by metis

lemma values_set_other:
  "(\<And>old. js_get m k = Some old \<Longrightarrow> \<not> f old) \<Longrightarrow> \<not> f v \<Longrightarrow> filter f (js_values (js_set k v m)) = filter f (js_values m)"
  by (induction m) (auto split: if_splits)

lemma user_elsewhere:
  "well_keyed s \<Longrightarrow> apart p q \<Longrightarrow> js_get (users s) (keyed p k) = Some u \<Longrightarrow> cu_projectId u \<noteq> q"
  using table_ok_get [OF well_keyed_tables(1)] apart_keyed unfolding user_key_def by metis

lemma session_elsewhere:
  "well_keyed s \<Longrightarrow> apart p q \<Longrightarrow> js_get (sessions s) (keyed p k) = Some x \<Longrightarrow> cs_projectId x \<noteq> q"
  using table_ok_get [OF well_keyed_tables(2)] apart_keyed unfolding session_key_def by metis

lemma found_elsewhere: "well_keyed s \<Longrightarrow> apart p q \<Longrightarrow> st_findUserById p uid s = Some u \<Longrightarrow> cu_projectId u \<noteq> q"
  using found_user user_elsewhere by metis

lemma apart_not: "apart p q \<Longrightarrow> p \<noteq> q"
  by (simp add: apart_def)

lemma isolated_create: "nu_projectId input = p \<Longrightarrow> isolated p q s (snd (st_createUser uuid now input s))"
  by (auto simp: st_createUser_def Let_def isolated_refl apart_keyed user_key_def
      intro!: isolated_users table_rules values_set_other dest: well_keyed_tables user_elsewhere apart_not)

lemma isolated_update: "isolated p q s (snd (st_updateUser now p uid patch s))"
  by (auto simp: st_updateUser_def Let_def isolated_refl apart_keyed user_key_def dest: found_key found_elsewhere user_elsewhere
      intro!: isolated_users table_rules values_set_other well_keyed_tables split: option.split)

lemma isolated_delete: "isolated p q s (snd (st_deleteUser now p uid s))"
  by (auto simp: st_deleteUser_def isolated_refl apart_keyed user_key_def dest: found_key found_elsewhere user_elsewhere
      intro!: isolated_users table_rules values_set_other well_keyed_tables split: option.split)

lemma isolated_change_session:
  "(\<And>x. session_key (f x) = session_key x) \<Longrightarrow> (\<And>x. cs_projectId (f x) = cs_projectId x) \<Longrightarrow>
   isolated p q s (change_session p sid f s)"
  by (auto simp: change_session_def isolated_refl apart_keyed table_ok_get [OF well_keyed_tables(2)]
      dest: session_elsewhere
      intro!: isolated_sessions table_rules values_set_other well_keyed_tables split: option.split)

lemma isolated_revoke: "isolated p q s (snd (st_revokeSession now p sid s))"
  by (auto simp: st_revokeSession_def isolated_refl apart_keyed session_key_def
      dest: table_ok_get [OF well_keyed_tables(2)] session_elsewhere
      intro!: isolated_sessions table_rules values_set_other well_keyed_tables split: option.split)

lemma isolated_revoke_user: "isolated p q s (snd (st_revokeUserSessions now p uid s))"
proof -
  let ?f = "\<lambda>x. if live_of p uid x then x\<lparr>cs_revokedAt := Some now\<rparr> else x"
  have "map_option ?f (js_get (sessions s) (keyed q k)) = js_get (sessions s) (keyed q k)"
    if "well_keyed s" "apart p q" for k
  proof (cases "js_get (sessions s) (keyed q k)")
    case (Some x)
    from table_ok_get [OF well_keyed_tables(2) [OF that(1)] Some] have "cs_projectId x \<noteq> p"
      using apart_keyed [OF that(2)] by (metis session_key_def)
    then show ?thesis by (simp add: Some live_of_def)
  qed simp
  moreover have "filter (\<lambda>x. cs_projectId x = q) (map ?f xs) = filter (\<lambda>x. cs_projectId x = q) xs" if "apart p q" for xs
    using apart_not [OF that] by (induction xs) (auto simp: live_of_def)
  ultimately show ?thesis unfolding st_revokeUserSessions_def snd_conv
    by (intro isolated_sessions table_ok_map well_keyed_tables) (simp_all add: session_key_def del: map_map)
qed

lemma isolated_save_token: "ot_projectId k = p \<Longrightarrow> isolated p q s (st_saveToken now k s)"
  by (auto simp: st_saveToken_def apart_keyed token_key_of_def intro!: isolated_tokens table_rules well_keyed_tables)

lemma isolated_consume: "isolated p q s (snd (st_consumeToken now p h s))"
  by (auto simp: st_consumeToken_def isolated_refl apart_keyed token_key_of_def
      dest: table_ok_get [OF well_keyed_tables(3)]
      intro!: isolated_tokens table_rules well_keyed_tables split: option.split)

lemma isolated_delete_tokens: "isolated p q s (st_deleteUserTokens p uid s)"
proof -
  let ?f = "\<lambda>t. ot_projectId t = p \<and> ot_userId t = uid"
  have "js_get (drop_vals ?f (tokens s)) (keyed q k) = js_get (tokens s) (keyed q k)"
    if w: "well_keyed s" and a: "apart p q" for k
  proof (rule drop_vals_get_other)
    show "js_ok (tokens s)" using w by (simp add: well_keyed_def table_ok_def)
    show "\<not> ?f v" if "js_get (tokens s) (keyed q k) = Some v" for v
      using table_ok_get [OF well_keyed_tables(3) [OF w] that] apart_keyed [OF a] by (metis token_key_of_def)
  qed
  then show ?thesis unfolding st_deleteUserTokens_def
    by (intro isolated_tokens table_ok_drop well_keyed_tables) auto
qed

lemma isolated_passkey_ops:
  "pk_projectId k = p \<Longrightarrow> isolated p q s (st_savePasskey k s)"
  "isolated p q s (st_touchPasskey now p kid n s)" "isolated p q s (snd (st_deletePasskey p uid kid s))"
  by (auto simp: st_savePasskey_def st_touchPasskey_def st_deletePasskey_def isolated_refl apart_keyed passkey_key_def
      dest: table_ok_get [OF well_keyed_tables(4)]
      intro!: isolated_passkeys table_rules well_keyed_tables split: option.split)

lemma isolated_challenge_ops:
  "pc_projectId h = p \<Longrightarrow> isolated p q s (st_savePasskeyChallenge h s)"
  "isolated p q s (snd (st_consumePasskeyChallenge now p ch kind s))"
  by (auto simp: st_savePasskeyChallenge_def st_consumePasskeyChallenge_def Let_def apart_keyed challenge_key_def
      intro!: isolated_challenges table_rules well_keyed_tables split: option.split)

lemma isolated_otp_ops:
  "isolated p q s (s\<lparr>otps := snd (otp_issue sha cfg dig now p ident pu (otps s))\<rparr>)"
  "isolated p q s (s\<lparr>otps := snd (otp_verify sha cfg now p ident pu given (otps s))\<rparr>)"
  by (intro isolated_otps; auto simp: otp_issue_simp recordKey_other apart_def otp_verify_frame)+

lemma isolated_create_session: "isolated p q s (snd (st_createSession uuid now (new_session env c p user) s))"
  by (auto simp: st_createSession_def Let_def new_session_def apart_keyed session_key_def
      dest: session_elsewhere apart_not intro!: isolated_sessions table_rules values_set_other well_keyed_tables)

lemma same_project_trans: "same_project q s t \<Longrightarrow> same_project q t u \<Longrightarrow> same_project q s u"
  by (simp add: same_project_def)

interpretation isolation: admin_relation "isolated p q" env c p for p q env c
proof unfold_locales
  show "isolated p q s u" if "isolated p q s t" "isolated p q t u" for s t u
    using that by (auto simp: isolated_alt intro: same_project_trans)
qed (simp_all add: isolated_refl isolated_create isolated_update isolated_delete isolated_change_session isolated_revoke
    isolated_revoke_user isolated_save_token isolated_consume isolated_delete_tokens isolated_passkey_ops
    isolated_challenge_ops isolated_otp_ops isolated_create_session isolated_traces st_markRefreshUsed_def
    st_touchSession_def session_key_def)

lemma request_eta: "\<lparr>rq_call = rq_call r, rq_projectId = rq_projectId r, rq_op = rq_op r\<rparr> = (r :: auth_request)"
  by simp

lemma step_isolated: "isolated (rq_projectId r) q s (auth_step env r s)"
  using isolation.step_any [of "rq_projectId r" q s env "rq_call r" "rq_op r"] by (simp only: request_eta)

lemma run_keeps:
  assumes "\<And>s. R s s" and "\<And>s t u. R s t \<Longrightarrow> R t u \<Longrightarrow> R s u" and "\<And>r s. r \<in> set rs \<Longrightarrow> R s (auth_step env r s)"
  shows "R s (auth_run env rs s)"
  using assms(3)
proof (induction rs arbitrary: s)
  case (Cons r rs)
  have "R s (auth_step env r s)" by (rule Cons.prems) simp
  moreover have "R (auth_step env r s) (auth_run env rs (auth_step env r s))" by (rule Cons.IH) (simp add: Cons.prems)
  ultimately show ?case using assms(2) by (simp add: auth_run_def)
qed (simp add: auth_run_def assms(1))

lemma empty_well_keyed: "well_keyed empty_auth"
  by (simp add: well_keyed_def empty_auth_def table_ok_def)

lemma run_well_keyed: "well_keyed s \<Longrightarrow> well_keyed (auth_run env rs s)"
proof (induction rs arbitrary: s)
  case (Cons r rs)
  have "well_keyed (auth_step env r s)" using step_isolated [of r q s env] Cons.prems by (simp add: isolated_def)
  from Cons.IH [OF this] show ?case by (simp add: auth_run_def)
qed (simp add: auth_run_def)

section \<open>Projects stay apart\<close>

lemma find_in_filter: "(\<And>x. f x \<Longrightarrow> g x) \<Longrightarrow> find f xs = find f (filter g xs)"
  by (induction xs) auto

lemma find_same: "filter g xs = filter g ys \<Longrightarrow> (\<And>x. f x \<Longrightarrow> g x) \<Longrightarrow> find f xs = find f ys"
  using find_in_filter [of f g xs] find_in_filter [of f g ys] by simp

lemma same_scans:
  assumes "same_project q s t"
  shows "st_findUserByEmail q e t = st_findUserByEmail q e s" "st_findUserByPhone q f t = st_findUserByPhone q f s"
    "st_findSessionByRefreshHash q h t = st_findSessionByRefreshHash q h s"
proof -
  have u: "filter (\<lambda>u. cu_projectId u = q) (js_values (users t)) = filter (\<lambda>u. cu_projectId u = q) (js_values (users s))"
    and x: "filter (\<lambda>x. cs_projectId x = q) (js_values (sessions t)) = filter (\<lambda>x. cs_projectId x = q) (js_values (sessions s))"
    using assms by (simp_all add: same_project_def)
  show "st_findUserByEmail q e t = st_findUserByEmail q e s"
    unfolding st_findUserByEmail_def by (rule find_same [OF u]) (simp add: user_at_def)
  show "st_findUserByPhone q f t = st_findUserByPhone q f s"
    unfolding st_findUserByPhone_def by (rule find_same [OF u]) simp
  show "st_findSessionByRefreshHash q h t = st_findSessionByRefreshHash q h s"
    unfolding st_findSessionByRefreshHash_def by (rule find_same [OF x]) (simp add: holds_hash_def)
qed

lemma same_reads:
  assumes "same_project q s t"
  shows "st_findUserById q k t = st_findUserById q k s" "st_findSession q k t = st_findSession q k s"
    "st_findToken now q h kind t = st_findToken now q h kind s" "st_findPasskey q k t = st_findPasskey q k s"
    "fst (st_consumePasskeyChallenge now q ch ck t) = fst (st_consumePasskeyChallenge now q ch ck s)"
    "fst (otp_verify sha cfg now q ident pu given (otps t)) = fst (otp_verify sha cfg now q ident pu given (otps s))"
  using assms unfolding same_project_def
  by (simp_all add: st_findUserById_def st_findSession_def st_findToken_def st_findPasskey_def
      st_consumePasskeyChallenge_def Let_def otp_verify_def otp_get_def split: option.split)

text \<open>
  C8. Projects stay apart.  Whatever requests are made to other projects, after any history, every lookup the service
  makes in this project still gives the same answer: users by id, address or phone, sessions by id or refresh token,
  one-time tokens, passkeys, challenges and passcodes.
\<close>

theorem projects_stay_apart:
  assumes "plain_id q" and "\<forall>r\<in>set rs. plain_id (rq_projectId r) \<and> rq_projectId r \<noteq> q"
    and s: "s = auth_run env before empty_auth" and t: "t = auth_run env rs s"
  shows "st_findUserById q k t = st_findUserById q k s \<and> st_findUserByEmail q e t = st_findUserByEmail q e s \<and>
    st_findUserByPhone q f t = st_findUserByPhone q f s \<and> st_findSession q k t = st_findSession q k s \<and>
    st_findSessionByRefreshHash q h t = st_findSessionByRefreshHash q h s \<and>
    st_findToken now q h kind t = st_findToken now q h kind s \<and> st_findPasskey q k t = st_findPasskey q k s \<and>
    fst (st_consumePasskeyChallenge now q ch ck t) = fst (st_consumePasskeyChallenge now q ch ck s) \<and>
    fst (otp_verify sha cfg now q ident pu given (otps t)) = fst (otp_verify sha cfg now q ident pu given (otps s))"
proof -
  let ?R = "\<lambda>s t. well_keyed s \<longrightarrow> well_keyed t \<and> same_project q s t"
  have "?R s (auth_run env rs s)"
  proof (rule run_keeps)
    show "?R s s" for s by (simp add: same_project_def)
    show "?R s u" if "?R s t" "?R t u" for s t u using that by (blast intro: same_project_trans)
    show "?R s (auth_step env r s)" if "r \<in> set rs" for r s
      using step_isolated [of r q s env] that assms(1,2) by (auto simp: isolated_def)
  qed
  moreover have "well_keyed s" unfolding s by (rule run_well_keyed [OF empty_well_keyed])
  ultimately have "same_project q s t" by (simp add: t)
  from same_scans [OF this] same_reads [OF this] show ?thesis by simp
qed

section \<open>Instances\<close>

definition sample_env :: auth_env where
  "sample_env = \<lparr>ae_config = \<lparr>ac_accessTtlSeconds = 900, ac_refreshTtlSeconds = 3600, ac_resetTtlSeconds = 600,
       ac_verifyTtlSeconds = 600, ac_jwtSecret = replicate 32 (CHR ''k''), ac_issuer = ''i'', ac_passwordPolicy = None\<rparr>,
     ae_appUrl = ''https://a/'', ae_otp = otp_service \<lparr>oo_codeLength = None, oo_ttlSeconds = None, oo_maxAttempts = None\<rparr>,
     ae_sha = id, ae_scrypt = (\<lambda>p s. p), ae_jwt = (\<lambda>_ _. ''t''), ae_hmac1 = counter_mac,
     ae_webauthn = sample_webauthn, ae_sms = (\<lambda>_ _. Some True)\<rparr>"

text \<open>The call of a request: its time and a text that makes what it draws unlike other calls.\<close>

definition sample_call :: "instant \<Rightarrow> string \<Rightarrow> call" where
  "sample_call now x = \<lparr>c_now = now, c_ip = None, c_agent = None, c_sessionUuid = ''s'' @ x, c_userUuid = ''u'' @ x,
     c_anonUuid = ''a'' @ x, c_refresh = ''r'' @ x, c_token = ''t'' @ x, c_salt = ''1'', c_digits = (\<lambda>i. i mod 10),
     c_secret = replicate 10 0, c_backup = (\<lambda>i. (''aaaa'', dec (1000 + i))), c_challenge = [1]\<rparr>"

definition sample_request :: "instant \<Rightarrow> string \<Rightarrow> string \<Rightarrow> auth_op \<Rightarrow> auth_request" where
  "sample_request now x p op = \<lparr>rq_call = sample_call now x, rq_projectId = p, rq_op = op\<rparr>"

theorem projects_stay_apart_witness:
  "(let s = auth_run sample_env [sample_request 1000 ''1'' ''q'' (SignUp ''A@b.c'' ''longpassword'' None)] empty_auth;
        t = auth_run sample_env [sample_request 2000 ''2'' ''p'' (SignUp ''a@b.c'' ''otherpassword'' None),
          sample_request 3000 ''3'' ''p'' (DeleteUser ''u1'')] s in
    map_option cu_id (st_findUserByEmail ''q'' ''a@b.c'' s) = Some ''u1'' \<and>
    map_option cu_id (st_findUserByEmail ''p'' ''a@b.c'' t) = Some ''u2'' \<and>
    st_findUserByEmail ''q'' ''a@b.c'' t = st_findUserByEmail ''q'' ''a@b.c'' s)"
proof -
  let ?a = "[sample_request 1000 ''1'' ''q'' (SignUp ''A@b.c'' ''longpassword'' None)]"
  let ?b = "[sample_request 2000 ''2'' ''p'' (SignUp ''a@b.c'' ''otherpassword'' None),
          sample_request 3000 ''3'' ''p'' (DeleteUser ''u1'')]"
  have q: "plain_id ''q''" and p: "plain_id ''p''" by (simp_all add: plain_id_def)
  have b: "\<forall>r\<in>set ?b. plain_id (rq_projectId r) \<and> rq_projectId r \<noteq> ''q''" by (simp add: sample_request_def p)
  have "map_option cu_id (st_findUserByEmail ''q'' ''a@b.c'' (auth_run sample_env ?a empty_auth)) = Some ''u1''" by code_simp
  moreover have "map_option cu_id (st_findUserByEmail ''p'' ''a@b.c''
      (auth_run sample_env ?b (auth_run sample_env ?a empty_auth))) = Some ''u2''" by code_simp
  moreover have "st_findUserByEmail ''q'' ''a@b.c'' (auth_run sample_env ?b (auth_run sample_env ?a empty_auth)) =
      st_findUserByEmail ''q'' ''a@b.c'' (auth_run sample_env ?a empty_auth)"
    by (rule projects_stay_apart [where e = "''a@b.c''", OF q b HOL.refl HOL.refl, THEN conjunct2, THEN conjunct1])
  ultimately show ?thesis by (simp only: Let_def simp_thms)
qed

section \<open>Nobody makes himself an administrator\<close>

definition no_new_admin :: "auth_state \<Rightarrow> auth_state \<Rightarrow> bool" where
  "no_new_admin s t \<longleftrightarrow> (\<forall>k v. js_get (users t) k = Some v \<longrightarrow> is_admin v \<longrightarrow>
     (\<exists>u. js_get (users s) k = Some u \<and> is_admin u))"

lemma no_new_admin_same: "users t = users s \<Longrightarrow> no_new_admin s t"
  by (simp add: no_new_admin_def)

lemma no_new_admin_set:
  "(is_admin v \<Longrightarrow> \<exists>u. js_get (users s) k = Some u \<and> is_admin u) \<Longrightarrow> no_new_admin s (s\<lparr>users := js_set k v (users s)\<rparr>)"
  by (simp add: no_new_admin_def)

lemma admin_create: "no_new_admin s (snd (st_createUser uuid now input s))"
  by (auto simp: st_createUser_def Let_def no_new_admin_same is_admin_def intro!: no_new_admin_set)

lemma admin_update: "plain_patch patch \<Longrightarrow> no_new_admin s (snd (st_updateUser now p uid patch s))"
  by (auto simp: st_updateUser_def Let_def no_new_admin_same is_admin_def plain_patch_def
      dest: found_user intro!: no_new_admin_set split: option.split)

lemma admin_delete: "no_new_admin s (snd (st_deleteUser now p uid s))"
  by (auto simp: st_deleteUser_def no_new_admin_same is_admin_def
      dest: found_user intro!: no_new_admin_set split: option.split)

lemma users_kept [simp]:
  "users (change_session p sid f s) = users s" "users (snd (st_revokeSession now p sid s)) = users s"
  "users (snd (st_revokeUserSessions now p uid s)) = users s" "users (st_saveToken now k s) = users s"
  "users (snd (st_consumeToken now p h s)) = users s" "users (st_deleteUserTokens p uid s) = users s"
  "users (st_savePasskey pk s) = users s" "users (st_touchPasskey now p kid n s) = users s"
  "users (snd (st_deletePasskey p uid kid s)) = users s" "users (st_savePasskeyChallenge h' s) = users s"
  "users (snd (st_consumePasskeyChallenge now p ch ck s)) = users s" "users (snd (st_createSession uuid now x s)) = users s"
  by (auto simp: st_defs Let_def split: option.split)

interpretation admins: session_relation no_new_admin env c p for env c p
  by unfold_locales (auto simp: admin_create admin_update st_markRefreshUsed_def st_touchSession_def
      intro: no_new_admin_same, fastforce simp: no_new_admin_def)

fun sets_roles :: "auth_op \<Rightarrow> bool" where
  "sets_roles (AdminUpdateUser _ _ _) = True"
| "sets_roles _ = False"

lemma admin_step:
  assumes "\<not> sets_roles (rq_op r)"
  shows "no_new_admin s (auth_step env r s)"
proof (cases "privileged (rq_op r)")
  case True
  then obtain u where u: "rq_op r = DeleteUser u" using assms by (cases "rq_op r") auto
  have "keeps no_new_admin (deleteUser (rq_call r) (rq_projectId r) u)"
    unfolding deleteUser_def by (intro admins.k_rules admins.keeps_run [OF admin_delete])
  then show ?thesis using keepsD [OF admins.k_forget] by (simp add: auth_step_def u)
next
  case False
  from keepsD [OF admins.k_perform [OF this]] show ?thesis by (simp add: auth_step_def)
qed

text \<open>
  C9. Nobody makes himself an administrator.  From any state, whatever requests are made except an administrator's
  update of a user, with whatever metadata, whoever is an administrator afterwards already was one: an account of the
  same key existed and had the role.
\<close>

theorem no_self_made_admin:
  assumes "\<forall>r\<in>set rs. \<not> sets_roles (rq_op r)"
    and "st_findUserById p uid (auth_run env rs s) = Some v" and "is_admin v"
  shows "\<exists>u. js_get (users s) (keyed p uid) = Some u \<and> is_admin u"
proof -
  have "no_new_admin s (auth_run env rs s)"
    by (rule run_keeps [where R = no_new_admin, OF admins.same]) (erule (1) admins.step, rule admin_step, use assms(1) in blast)
  then show ?thesis using found_user [OF assms(2)] assms(3) by (auto simp: no_new_admin_def)
qed

definition admin_state :: auth_state where
  "admin_state = auth_run sample_env [sample_request 1000 ''1'' ''p'' (SignUp ''a@b.c'' ''longpassword'' None),
     sample_request 2000 ''2'' ''p'' (AdminUpdateUser ''u1'' None (Some (JObj [(''role'', JStr ''admin'')])))] empty_auth"

definition later_requests :: "auth_request list" where
  "later_requests = [sample_request 3000 ''3'' ''p'' (UpdateUser ''u1'' (Some (JObj [(''display_name'', JStr ''x'')]))),
     sample_request 4000 ''4'' ''p'' (SignUp ''b@b.c'' ''longpassword'' None)]"

theorem no_self_made_admin_witness:
  "map_option is_admin (st_findUserById ''p'' ''u1'' (auth_run sample_env later_requests admin_state)) = Some True \<and>
   map_option is_admin (st_findUserById ''p'' ''u4'' (auth_run sample_env later_requests admin_state)) = Some False \<and>
   (\<exists>u. js_get (users admin_state) (keyed ''p'' ''u1'') = Some u \<and> is_admin u)"
proof -
  have a: "map_option is_admin (st_findUserById ''p'' ''u1'' (auth_run sample_env later_requests admin_state)) = Some True"
    and b: "map_option is_admin (st_findUserById ''p'' ''u4'' (auth_run sample_env later_requests admin_state)) = Some False"
    by code_simp+
  from a obtain v where v: "st_findUserById ''p'' ''u1'' (auth_run sample_env later_requests admin_state) = Some v" "is_admin v"
    by auto
  have "\<forall>r\<in>set later_requests. \<not> sets_roles (rq_op r)" by (simp add: later_requests_def sample_request_def)
  from no_self_made_admin [OF this v] a b show ?thesis by simp
qed

section \<open>What is revoked stays revoked\<close>

definition still_revoked :: "string \<Rightarrow> auth_state \<Rightarrow> auth_state \<Rightarrow> bool" where
  "still_revoked new s t \<longleftrightarrow> (\<forall>k x. k \<noteq> new \<longrightarrow> js_get (sessions s) k = Some x \<longrightarrow> cs_revokedAt x \<noteq> None \<longrightarrow>
     (\<exists>y. js_get (sessions t) k = Some y \<and> cs_revokedAt y \<noteq> None))"

lemma still_revoked_same: "sessions t = sessions s \<Longrightarrow> still_revoked new s t"
  by (simp add: still_revoked_def)

lemma still_revoked_set:
  "(\<And>x. k \<noteq> new \<Longrightarrow> js_get (sessions s) k = Some x \<Longrightarrow> cs_revokedAt x \<noteq> None \<Longrightarrow> cs_revokedAt v \<noteq> None) \<Longrightarrow>
   still_revoked new s (s\<lparr>sessions := js_set k v (sessions s)\<rparr>)"
  by (simp add: still_revoked_def)

lemma still_revoked_change: "(\<And>x. cs_revokedAt (f x) = cs_revokedAt x) \<Longrightarrow> still_revoked new s (change_session p sid f s)"
  by (auto simp: change_session_def still_revoked_same intro!: still_revoked_set split: option.split)

lemma still_revoked_revoke:
  "still_revoked new s (snd (st_revokeSession now p sid s))" "still_revoked new s (snd (st_revokeUserSessions now p uid s))"
  by (auto simp: st_revokeSession_def st_revokeUserSessions_def still_revoked_same still_revoked_def split: option.split)

lemma still_revoked_create: "still_revoked (keyed p uuid) s (snd (st_createSession uuid now (new_session env c p user) s))"
  by (auto simp: st_createSession_def Let_def new_session_def intro!: still_revoked_set)

lemma sessions_kept [simp]:
  "sessions (snd (st_createUser uuid now input s)) = sessions s" "sessions (snd (st_updateUser now p uid patch s)) = sessions s"
  "sessions (snd (st_deleteUser now p uid s)) = sessions s" "sessions (st_saveToken now k s) = sessions s"
  "sessions (snd (st_consumeToken now p h s)) = sessions s" "sessions (st_deleteUserTokens p uid s) = sessions s"
  "sessions (st_savePasskey pk s) = sessions s" "sessions (st_touchPasskey now p kid n s) = sessions s"
  "sessions (snd (st_deletePasskey p uid kid s)) = sessions s" "sessions (st_savePasskeyChallenge h' s) = sessions s"
  "sessions (snd (st_consumePasskeyChallenge now p ch ck s)) = sessions s"
  by (auto simp: st_defs Let_def split: option.split)

interpretation revocation: admin_relation "still_revoked (keyed p (c_sessionUuid c))" env c p for env c p
proof unfold_locales
  show "still_revoked new s u" if "still_revoked new s t" "still_revoked new t u" for new s t u
    using that unfolding still_revoked_def by meson
qed (simp_all add: still_revoked_same still_revoked_revoke still_revoked_create still_revoked_change st_markRefreshUsed_def
    st_touchSession_def)

lemma revocation_step:
  "still_revoked (keyed (rq_projectId r) (c_sessionUuid (rq_call r))) s (auth_step env r s)"
  using revocation.step_any [of "rq_projectId r" "rq_call r" s env "rq_op r"] by (simp only: request_eta)

definition session_redrawn :: "string \<Rightarrow> auth_request list \<Rightarrow> bool" where
  "session_redrawn k rs \<longleftrightarrow> k \<in> (\<lambda>r. keyed (rq_projectId r) (c_sessionUuid (rq_call r))) ` set rs"

lemma run_still_revoked:
  assumes "\<not> session_redrawn k rs" and "js_get (sessions s) k = Some x" and "cs_revokedAt x \<noteq> None"
  shows "\<exists>y. js_get (sessions (auth_run env rs s)) k = Some y \<and> cs_revokedAt y \<noteq> None"
proof -
  define R :: "auth_state \<Rightarrow> auth_state \<Rightarrow> bool" where "R = (\<lambda>s t. (\<exists>x. js_get (sessions s) k = Some x \<and> cs_revokedAt x \<noteq> None) \<longrightarrow>
    (\<exists>y. js_get (sessions t) k = Some y \<and> cs_revokedAt y \<noteq> None))"
  have "R s (auth_run env rs s)"
  proof (rule run_keeps)
    fix r s assume "r \<in> set rs"
    then have "k \<noteq> keyed (rq_projectId r) (c_sessionUuid (rq_call r))" using assms(1) by (auto simp: session_redrawn_def)
    with revocation_step [of r s env] show "R s (auth_step env r s)" unfolding R_def still_revoked_def by blast
  qed (auto simp: R_def)
  then show ?thesis using assms(2,3) by (auto simp: R_def)
qed

end
