(* ===== verification/AuthSessions.thy ===== *)
theory AuthSessions
  imports AuthSafety
begin

text \<open>
  Sessions, one-time tokens and passwords of the customer authentication service: rotation of refresh tokens and what a
  replay does, tokens redeemed once, disabled accounts, password resets, and the second factor.
\<close>

section \<open>Projects of stored values\<close>

definition values_all :: "('v \<Rightarrow> bool) \<Rightarrow> (string, 'v) jsmap \<Rightarrow> bool" where
  "values_all f m \<longleftrightarrow> (\<forall>x\<in>set (js_values m). f x)"

definition plain_store :: "auth_state \<Rightarrow> bool" where
  "plain_store s \<longleftrightarrow> values_all (\<lambda>u. plain_id (cu_projectId u)) (users s) \<and>
     values_all (\<lambda>x. plain_id (cs_projectId x)) (sessions s) \<and> values_all (\<lambda>t. plain_id (ot_projectId t)) (tokens s)"

lemma values_all_set: "values_all f m \<Longrightarrow> f v \<Longrightarrow> values_all f (js_set k v m)"
  unfolding values_all_def using js_set_values [of k v m] by blast

lemma values_all_get: "values_all f m \<Longrightarrow> js_get m k = Some v \<Longrightarrow> f v"
  unfolding values_all_def by (blast dest: js_get_values)

lemma values_all_map: "values_all f m \<Longrightarrow> (\<And>v. f v \<Longrightarrow> f (g v)) \<Longrightarrow> values_all f (map_vals g m)"
  by (auto simp: values_all_def)

lemma values_all_drop: "values_all f m \<Longrightarrow> values_all f (drop_vals g m)"
  by (auto simp: values_all_def drop_vals_def)

definition plain_kept :: "string \<Rightarrow> auth_state \<Rightarrow> auth_state \<Rightarrow> bool" where
  "plain_kept p s t \<longleftrightarrow> (plain_id p \<longrightarrow> plain_store s \<longrightarrow> plain_store t)"

lemma plain_same: "users t = users s \<Longrightarrow> sessions t = sessions s \<Longrightarrow> tokens t = tokens s \<Longrightarrow> plain_kept p s t"
  by (simp add: plain_kept_def plain_store_def)

lemma plain_users:
  "(plain_id p \<Longrightarrow> plain_store s \<Longrightarrow> plain_id (cu_projectId v)) \<Longrightarrow> plain_kept p s (s\<lparr>users := js_set k v (users s)\<rparr>)"
  by (simp add: plain_kept_def plain_store_def values_all_set)

lemma plain_sessions:
  "(plain_id p \<Longrightarrow> plain_store s \<Longrightarrow> plain_id (cs_projectId v)) \<Longrightarrow> plain_kept p s (s\<lparr>sessions := js_set k v (sessions s)\<rparr>)"
  by (simp add: plain_kept_def plain_store_def values_all_set)

lemma plain_tokens:
  "(plain_id p \<Longrightarrow> plain_store s \<Longrightarrow> plain_id (ot_projectId v)) \<Longrightarrow> plain_kept p s (s\<lparr>tokens := js_set k v (tokens s)\<rparr>)"
  by (simp add: plain_kept_def plain_store_def values_all_set)

lemma plain_found:
  "plain_store s \<Longrightarrow> js_get (users s) k = Some u \<Longrightarrow> plain_id (cu_projectId u)"
  "plain_store s \<Longrightarrow> js_get (sessions s) k = Some x \<Longrightarrow> plain_id (cs_projectId x)"
  "plain_store s \<Longrightarrow> js_get (tokens s) k = Some t \<Longrightarrow> plain_id (ot_projectId t)"
  unfolding plain_store_def by (auto dest: values_all_get)

lemma plain_user_ops:
  "nu_projectId input = p \<Longrightarrow> plain_kept p s (snd (st_createUser uuid now input s))"
  "plain_kept p s (snd (st_updateUser now p uid patch s))" "plain_kept p s (snd (st_deleteUser now p uid s))"
  by (auto simp: st_createUser_def st_updateUser_def st_deleteUser_def Let_def plain_same
      dest!: found_user dest: plain_found intro!: plain_users split: option.split)

lemma plain_session_ops:
  "(\<And>x. cs_projectId (f x) = cs_projectId x) \<Longrightarrow> plain_kept p s (change_session p sid f s)"
  "plain_kept p s (snd (st_revokeSession now p sid s))"
  "plain_kept p s (snd (st_createSession uuid now (new_session env c p user) s))"
  by (auto simp: change_session_def st_revokeSession_def st_createSession_def new_session_def Let_def plain_same
      dest: plain_found intro!: plain_sessions split: option.split)

lemma plain_revoke_user: "plain_kept p s (snd (st_revokeUserSessions now p uid s))"
  by (auto simp: st_revokeUserSessions_def plain_kept_def plain_store_def intro: values_all_map)

lemma plain_token_ops:
  "ot_projectId k = p \<Longrightarrow> plain_kept p s (st_saveToken now k s)" "plain_kept p s (snd (st_consumeToken now p h s))"
  by (auto simp: st_saveToken_def st_consumeToken_def plain_same dest: plain_found intro!: plain_tokens split: option.split)

lemma plain_delete_tokens: "plain_kept p s (st_deleteUserTokens p uid s)"
  by (auto simp: st_deleteUserTokens_def plain_kept_def plain_store_def intro: values_all_drop)

lemma tokens_kept [simp]:
  "tokens (snd (st_createUser uuid now input s)) = tokens s" "tokens (snd (st_updateUser now p uid patch s)) = tokens s"
  "tokens (snd (st_deleteUser now p uid s)) = tokens s" "tokens (change_session p sid f s) = tokens s"
  "tokens (snd (st_revokeSession now p sid s)) = tokens s" "tokens (snd (st_revokeUserSessions now p uid s)) = tokens s"
  "tokens (st_savePasskey pk s) = tokens s" "tokens (st_touchPasskey now p kid n s) = tokens s"
  "tokens (snd (st_deletePasskey p uid kid s)) = tokens s" "tokens (st_savePasskeyChallenge h' s) = tokens s"
  "tokens (snd (st_consumePasskeyChallenge now p ch ck s)) = tokens s" "tokens (snd (st_createSession uuid now x s)) = tokens s"
  by (auto simp: st_defs Let_def split: option.split)

interpretation plain: admin_relation "plain_kept p" env c p for p env c
  by unfold_locales (auto simp: plain_user_ops plain_session_ops plain_revoke_user plain_token_ops plain_delete_tokens
      st_markRefreshUsed_def st_touchSession_def intro: plain_same, auto simp: plain_kept_def)

text \<open>The states a service reaches whose projects have identifiers without a colon.\<close>

definition good :: "auth_state \<Rightarrow> bool" where
  "good s \<longleftrightarrow> well_keyed s \<and> plain_store s"

definition plain_requests :: "auth_request list \<Rightarrow> bool" where
  "plain_requests rs \<longleftrightarrow> list_all (\<lambda>r. plain_id (rq_projectId r)) rs"

lemma good_step: "good s \<Longrightarrow> plain_id (rq_projectId r) \<Longrightarrow> good (auth_step env r s)"
  using step_isolated [of r q s env] plain.step_any [of "rq_projectId r" s env "rq_call r" "rq_op r"]
  unfolding good_def isolated_def plain_kept_def request_eta by blast

lemma good_run: "good s \<Longrightarrow> plain_requests rs \<Longrightarrow> good (auth_run env rs s)"
proof (induction rs arbitrary: s)
  case (Cons r rs)
  from Cons.prems have "good (auth_step env r s)" and "plain_requests rs"
    by (simp_all add: good_step plain_requests_def)
  from Cons.IH [OF this] show ?case by (simp add: auth_run_def)
qed (simp add: auth_run_def)

lemma good_reachable: "plain_requests rs \<Longrightarrow> good (auth_run env rs empty_auth)"
  by (rule good_run) (simp_all add: good_def empty_well_keyed, simp add: plain_store_def values_all_def empty_auth_def)

section \<open>Open sessions belong to active users\<close>

definition active_at :: "auth_state \<Rightarrow> string \<Rightarrow> string \<Rightarrow> bool" where
  "active_at s q uid \<longleftrightarrow> (case js_get (users s) (keyed q uid) of None \<Rightarrow> False | Some u \<Rightarrow> cu_status u = UserActive)"

definition open_ok :: "auth_state \<Rightarrow> customer_session \<Rightarrow> bool" where
  "open_ok s x \<longleftrightarrow> cs_revokedAt x = None \<longrightarrow> active_at s (cs_projectId x) (cs_userId x)"

definition lively :: "auth_state \<Rightarrow> bool" where
  "lively s \<longleftrightarrow> values_all (open_ok s) (sessions s)"

definition lively_kept :: "auth_state \<Rightarrow> auth_state \<Rightarrow> bool" where
  "lively_kept s t \<longleftrightarrow> (\<forall>q uid. active_at s q uid \<longrightarrow> active_at t q uid) \<and> (lively s \<longrightarrow> lively t)"

lemma values_all_mono: "values_all f m \<Longrightarrow> (\<And>v. f v \<Longrightarrow> g v) \<Longrightarrow> values_all g m"
  by (simp add: values_all_def)

lemma active_same: "users t = users s \<Longrightarrow> active_at t q uid = active_at s q uid"
  by (simp add: active_at_def)

lemma open_ok_same: "users t = users s \<Longrightarrow> open_ok t = open_ok s"
  by (simp add: fun_eq_iff open_ok_def active_at_def)

lemma lively_users:
  assumes "sessions t = sessions s" and "\<And>q uid. active_at s q uid \<Longrightarrow> active_at t q uid"
  shows "lively_kept s t"
  using assms(2) unfolding lively_kept_def lively_def assms(1)
  by (auto elim!: values_all_mono simp: open_ok_def)

lemma lively_same: "users t = users s \<Longrightarrow> sessions t = sessions s \<Longrightarrow> lively_kept s t"
  by (rule lively_users) (auto simp: active_at_def)

lemma lively_sessions:
  assumes "users t = users s" and "values_all (open_ok s) (sessions s) \<Longrightarrow> values_all (open_ok s) (sessions t)"
  shows "lively_kept s t"
  using assms(2) by (simp add: lively_kept_def lively_def active_same [OF assms(1)] open_ok_same [OF assms(1)])

lemma active_set:
  "cu_status v = UserActive \<or> \<not> active_at s q uid \<or> keyed q uid \<noteq> k \<Longrightarrow> active_at s q uid \<Longrightarrow>
   active_at (s\<lparr>users := js_set k v (users s)\<rparr>) q uid"
  by (auto simp: active_at_def)

lemma lively_create: "lively_kept s (snd (st_createUser uuid now input s))"
  by (rule lively_users) (auto simp: st_createUser_def Let_def intro!: active_set)

lemma lively_update: "plain_patch patch \<Longrightarrow> lively_kept s (snd (st_updateUser now p uid patch s))"
proof (rule lively_users)
  fix q i assume a: "active_at s q i" and p: "plain_patch patch"
  show "active_at (snd (st_updateUser now p uid patch s)) q i"
  proof (cases "st_findUserById p uid s")
    case (Some u)
    then have "keyed q i = keyed p uid \<Longrightarrow> cu_status u = UserActive"
      using a found_user [OF Some] by (auto simp: active_at_def)
    with a p show ?thesis by (auto simp: st_updateUser_def Let_def Some plain_patch_def intro!: active_set)
  qed (simp add: st_updateUser_def a)
qed simp

lemma lively_change: "(\<And>x. open_ok s x \<Longrightarrow> open_ok s (f x)) \<Longrightarrow> lively_kept s (change_session p sid f s)"
  by (rule lively_sessions) (auto simp: change_session_def intro: values_all_set dest: values_all_get split: option.split)

lemma lively_revoke: "lively_kept s (snd (st_revokeSession now p sid s))"
  by (rule lively_sessions) (auto simp: st_revokeSession_def open_ok_def intro: values_all_set split: option.split)

lemma lively_revoke_user: "lively_kept s (snd (st_revokeUserSessions now p uid s))"
  by (rule lively_sessions) (auto simp: st_revokeUserSessions_def open_ok_def intro: values_all_map)

interpretation lively: quiet_relation lively_kept env c p for env c p
  by unfold_locales (auto simp: lively_create lively_update lively_revoke lively_revoke_user open_ok_def
      st_markRefreshUsed_def st_touchSession_def intro: lively_same intro!: lively_change, auto simp: lively_kept_def)

text \<open>All three at once, for the operations that open no session.\<close>

definition fit :: "auth_state \<Rightarrow> bool" where
  "fit s \<longleftrightarrow> good s \<and> lively s"

definition fit_kept :: "string \<Rightarrow> auth_state \<Rightarrow> auth_state \<Rightarrow> bool" where
  "fit_kept p s t \<longleftrightarrow> isolated p p s t \<and> plain_kept p s t \<and> lively_kept s t"

interpretation fit: quiet_relation "fit_kept p" env c p for p env c
proof unfold_locales
  show "fit_kept p s u" if "fit_kept p s t" "fit_kept p t u" for s t u
    using that isolation.step plain.step lively.step unfolding fit_kept_def by blast
qed (unfold fit_kept_def; intro conjI isolation.same plain.same lively.same isolation.r_create plain.r_create lively.r_create
    isolation.r_update plain.r_update lively.r_update isolation.r_mark plain.r_mark lively.r_mark
    isolation.r_touch plain.r_touch lively.r_touch isolation.r_revoke plain.r_revoke lively.r_revoke
    isolation.r_revoke_user plain.r_revoke_user lively.r_revoke_user isolation.r_token plain.r_token lively.r_token
    isolation.r_consume plain.r_consume lively.r_consume isolation.r_delete_tokens plain.r_delete_tokens lively.r_delete_tokens
    isolation.r_passkey plain.r_passkey lively.r_passkey isolation.r_touch_passkey plain.r_touch_passkey lively.r_touch_passkey
    isolation.r_delete_passkey plain.r_delete_passkey lively.r_delete_passkey
    isolation.r_challenge plain.r_challenge lively.r_challenge
    isolation.r_consume_challenge plain.r_consume_challenge lively.r_consume_challenge
    isolation.r_issue plain.r_issue lively.r_issue isolation.r_verify plain.r_verify lively.r_verify
    isolation.r_audits plain.r_audits lively.r_audits isolation.r_mails plain.r_mails lively.r_mails
    isolation.r_texts plain.r_texts lively.r_texts; assumption)+

lemma fit_keptD:
  assumes "fit_kept p s t" and "plain_id p" and "fit s"
  shows "fit t" and "active_at s p uid \<Longrightarrow> active_at t p uid"
  using assms by (auto simp: fit_kept_def isolated_def plain_kept_def lively_kept_def fit_def good_def)

lemma fit_quiet: "plain_id p \<Longrightarrow> keeps (fit_kept p) m \<Longrightarrow> triple fit P m (\<lambda>_ _. True)"
  by (rule triple_keeps [where R = "fit_kept p"]) (auto dest: fit_keptD(1))

lemma fit_active:
  "plain_id p \<Longrightarrow> keeps (fit_kept p) m \<Longrightarrow>
   triple fit (\<lambda>s. active_at s p uid) m (\<lambda>_ s. active_at s p uid)"
  by (rule triple_keeps [where R = "fit_kept p"]) (auto dest: fit_keptD)

lemma create_session_fit:
  assumes "plain_id p" and "fit s" and "active_at s p (cu_id user)"
  shows "fit (snd (st_createSession uuid now (new_session env c p user) s))"
proof -
  let ?t = "snd (st_createSession uuid now (new_session env c p user) s)"
  have "good ?t" using assms(1,2) isolated_create_session [where p = p and q = p and s = s and uuid = uuid and now = now and env = env and c = c and user = user] plain_session_ops(3) [where p = p and s = s and uuid = uuid and now = now and env = env and c = c and user = user]
    by (simp add: fit_def good_def isolated_def plain_kept_def)
  moreover have "lively ?t"
  proof -
    have "users ?t = users s" by simp
    note o = open_ok_same [OF this]
    show ?thesis using assms(2,3) unfolding lively_def o
      by (auto simp: st_createSession_def Let_def fit_def lively_def open_ok_def new_session_def intro!: values_all_set)
  qed
  ultimately show ?thesis by (simp add: fit_def)
qed

lemma issue_triple:
  assumes "plain_id p"
  shows "triple fit (\<lambda>s. active_at s p (cu_id user)) (issueSession env c p user) (\<lambda>_ _. True)"
  unfolding issueSession_def
proof (rule triple_bind)
  show "triple fit (\<lambda>s. active_at s p (cu_id user))
      (act_run (st_createSession (c_sessionUuid c) (c_now c) (new_session env c p user))) (\<lambda>_ _. True)"
    using create_session_fit [OF assms] by (simp add: triple_def act_run_def case_prod_beta)
  show "triple fit (\<lambda>_. True) (act_bind (act_lift (accessTokenFor env p user (cs_id session)))
      (\<lambda>accessToken. act_seq (update_user c p (cu_id user) (cu_lastSignInAt_update (\<lambda>_. Some (c_now c))))
       (act_seq (audit_log SessionCreated p (Some (cu_id user)) (Some (cs_id session)))
         (act_return (cs_id session, tokens_of env accessToken (c_refresh c)))))) (\<lambda>_ _. True)" for session
    by (rule fit_quiet [OF assms]) (intro fit.k_rules; simp add: plain_patch_def)
qed

lemma finish_triple:
  assumes "plain_id p"
  shows "triple fit (\<lambda>s. active_at s p (cu_id user)) (finish_sign_in env c p user ev) (\<lambda>_ _. True)"
  unfolding finish_sign_in_def
  by (rule triple_bind [OF issue_triple [OF assms]], rule fit_quiet [OF assms]) (intro fit.k_rules)

lemma found_active:
  assumes "fit s" and "plain_id p" and "cu_status u = UserActive" and "u \<in> set (js_values (users s))" and "cu_projectId u = p"
  shows "active_at s p (cu_id u)"
  using table_value [OF well_keyed_tables(1) assms(4)] assms(1,3,5)
  by (simp add: active_at_def fit_def good_def user_key_def)

lemma find_active:
  assumes "fit s" and "plain_id p" and "cu_status u = UserActive"
  shows "st_findUserByEmail p e s = Some u \<Longrightarrow> active_at s p (cu_id u)"
    and "st_findUserByPhone p f s = Some u \<Longrightarrow> active_at s p (cu_id u)"
    and "st_findUserById p k s = Some u \<Longrightarrow> active_at s p (cu_id u)"
proof -
  show "active_at s p (cu_id u)" if "st_findUserByEmail p e s = Some u"
    using find_Some_in [OF that [unfolded st_findUserByEmail_def]] found_active [OF assms] by (simp add: user_at_def)
  show "active_at s p (cu_id u)" if "st_findUserByPhone p f s = Some u"
    using find_Some_in [OF that [unfolded st_findUserByPhone_def]] found_active [OF assms] by simp
  show "active_at s p (cu_id u)" if f: "st_findUserById p k s = Some u"
  proof -
    from f have g: "js_get (users s) (keyed p k) = Some u" by (simp add: found_user)
    then have "keyed p k = keyed (cu_projectId u) (cu_id u)" using assms(1) found_key [OF _ f]
      by (simp add: user_key_def fit_def good_def)
    moreover have "plain_id (cu_projectId u)" using plain_found(1) [OF _ g] assms(1) by (simp add: fit_def good_def)
    ultimately have "cu_projectId u = p" using keyed_split [OF assms(2)] by blast
    with js_get_values [OF g] show ?thesis by (rule found_active [OF assms])
  qed
qed

end
