(* ===== verification/AuthTokens.thy ===== *)
theory AuthTokens
  imports AuthSessions
begin

text \<open>
  Tokens of the customer authentication service: a one-time token is redeemed once, a refresh token that was rotated
  away ends its session when it is presented again, a new password ends every session and token, and a password alone
  does not open a session of a user with a second factor.
\<close>

section \<open>One-time tokens\<close>

definition spent :: "string \<Rightarrow> auth_state \<Rightarrow> bool" where
  "spent k s \<longleftrightarrow> js_ok (tokens s) \<and> (\<forall>t. js_get (tokens s) k = Some t \<longrightarrow> ot_consumedAt t \<noteq> None)"

definition still_spent :: "string \<Rightarrow> auth_state \<Rightarrow> auth_state \<Rightarrow> bool" where
  "still_spent new s t \<longleftrightarrow> (\<forall>k. k \<noteq> new \<longrightarrow> spent k s \<longrightarrow> spent k t)"

lemma still_spent_same: "tokens t = tokens s \<Longrightarrow> still_spent new s t"
  by (simp add: still_spent_def spent_def)

lemma still_spent_save: "new = keyed (ot_projectId k) (ot_tokenHash k) \<Longrightarrow> still_spent new s (st_saveToken now k s)"
  by (simp add: still_spent_def spent_def st_saveToken_def js_ok_set)

lemma still_spent_consume: "still_spent new s (snd (st_consumeToken now p h s))"
  by (auto simp: still_spent_def spent_def st_consumeToken_def js_ok_set split: option.splits)

lemma still_spent_delete: "still_spent new s (st_deleteUserTokens p uid s)"
  by (auto simp: still_spent_def spent_def st_deleteUserTokens_def js_ok_drop_vals drop_vals_get split: option.splits if_splits)

interpretation spending: admin_relation "still_spent (keyed p (hashToken env (c_token c)))" env c p for env c p
proof unfold_locales
  show "still_spent new s u" if "still_spent new s t" "still_spent new t u" for new s t u
    using that unfolding still_spent_def by blast
qed (simp_all add: still_spent_same still_spent_save still_spent_consume still_spent_delete st_markRefreshUsed_def st_touchSession_def)

lemma consume_spends: "js_ok (tokens s) \<Longrightarrow> spent (keyed p h) (snd (st_consumeToken now p h s))"
  by (auto simp: spent_def st_consumeToken_def js_ok_set split: option.splits)

lemma spent_find: "spent (keyed p h) s \<Longrightarrow> st_findToken now p h kind s = None"
  by (auto simp: spent_def st_findToken_def split: option.splits)

text \<open>The operations that redeem a token, with the text presented and the kind of token.\<close>

fun redeems :: "auth_op \<Rightarrow> (string \<times> token_kind) option" where
  "redeems (VerifyEmailOp raw) = Some (raw, VerifyToken)"
| "redeems (CompletePasswordReset raw _) = Some (raw, ResetToken)"
| "redeems (ConsumeMagicLink raw) = Some (raw, MagicToken)"
| "redeems (VerifyMfa raw _) = Some (raw, MfaToken)"
| "redeems _ = None"

lemma take_token_Inr:
  "take_token env c p raw kind err s = (Inr t, s') \<longleftrightarrow>
     st_findToken (c_now c) p (hashToken env raw) kind s = Some t \<and> s' = snd (st_consumeToken (c_now c) p (ot_tokenHash t) s)"
  by (auto simp: take_token_def act_Inr) (metis prod.collapse)

lemma take_token_None:
  "st_findToken (c_now c) p (hashToken env raw) kind s = None \<Longrightarrow> take_token env c p raw kind err s = (Inl err, s)"
  by (simp add: take_token_def act_bind_def act_some_def)

lemma found_token_hash:
  assumes "well_keyed s" and "plain_store s" and "plain_id p" and "st_findToken now p h kind s = Some t"
  shows "ot_tokenHash t = h \<and> ot_projectId t = p"
proof -
  have g: "js_get (tokens s) (keyed p h) = Some t" using assms(4) by (auto simp: st_findToken_def split: option.splits if_splits)
  have "keyed p h = keyed (ot_projectId t) (ot_tokenHash t)"
    using table_ok_get [OF well_keyed_tables(3) [OF assms(1)] g] by (simp add: token_key_of_def)
  from keyed_split [OF assms(3) this] plain_found(3) [OF assms(2) g] show ?thesis by simp
qed

lemma take_spends:
  assumes "plain_id p"
  shows "triple (\<lambda>_. True) good (take_token env c p raw kind err) (\<lambda>_. spent (keyed p (hashToken env raw)))"
proof (rule tripleI)
  fix s r s' assume s: "good s" and m: "take_token env c p raw kind err s = (r, s')"
  have "spent (keyed p (hashToken env raw)) s'" if "r = Inr t" for t
  proof -
    from m that have f: "st_findToken (c_now c) p (hashToken env raw) kind s = Some t"
      and s': "s' = snd (st_consumeToken (c_now c) p (ot_tokenHash t) s)" by (simp_all add: take_token_Inr)
    have "ot_tokenHash t = hashToken env raw" using found_token_hash [OF _ _ assms f] s by (simp add: good_def)
    moreover have "js_ok (tokens s)" using s by (simp add: good_def well_keyed_def table_ok_def)
    ultimately show ?thesis by (simp add: s' consume_spends)
  qed
  then show "True \<and> (\<forall>a. r = Inr a \<longrightarrow> spent (keyed p (hashToken env raw)) s')" by blast
qed

lemma rest_spent:
  "keeps (still_spent (keyed p (hashToken env (c_token c)))) m \<Longrightarrow> k \<noteq> keyed p (hashToken env (c_token c)) \<Longrightarrow>
   triple (\<lambda>_. True) (spent k) m (\<lambda>_. spent k)"
  by (rule triple_keeps [where R = "still_spent (keyed p (hashToken env (c_token c)))"]) (auto simp: still_spent_def)

lemma triple_forget: "triple I P m (\<lambda>_. Q) \<Longrightarrow> triple I P (forget m) (\<lambda>_. Q)"
  unfolding forget_def by (rule triple_bind) (assumption, rule triple_return)

lemma redeem_spends:
  assumes "redeems op = Some (raw, kind)" and "plain_id p" and "hashToken env raw \<noteq> hashToken env (c_token c)"
  shows "triple (\<lambda>_. True) good (perform env c p op) (\<lambda>_. spent (keyed p (hashToken env raw)))"
proof -
  let ?k = "keyed p (hashToken env raw)"
  have k: "?k \<noteq> keyed p (hashToken env (c_token c))" using assms(3) by simp
  note rest = rest_spent [OF _ k] and first = triple_bind [OF take_spends [OF assms(2)]]
  have "triple (\<lambda>_. True) good (verifyEmail env c p raw) (\<lambda>_. spent ?k)"
    unfolding verifyEmail_def by (rule first, rule rest) (intro spending.k_rules; simp add: plain_patch_def)
  moreover have "triple (\<lambda>_. True) good (consumeMagicLink env c p raw) (\<lambda>_. spent ?k)"
    unfolding consumeMagicLink_def
    by (rule first, rule rest) (intro spending.k_rules spending.k_finish; simp add: plain_patch_def)
  moreover have "triple (\<lambda>_. True) good (verifyMfa env c p raw g) (\<lambda>_. spent ?k)" for g
    unfolding verifyMfa_def Let_def
    by (rule first, rule rest) (intro spending.k_rules spending.k_finish; simp add: plain_patch_def)
  moreover have "triple (\<lambda>_. True) good (completePasswordReset env c p raw w) (\<lambda>_. spent ?k)" for w
    unfolding completePasswordReset_def
    by (rule triple_seq, rule triple_weaken [OF triple_lift], assumption, erule conjunct1, rule first, rule rest)
      (intro spending.k_rules; simp add: plain_patch_def)
  ultimately show ?thesis using assms(1) by (cases op) (auto intro: triple_forget)
qed

lemma redeem_refused:
  assumes "redeems op = Some (raw, kind)" and "spent (keyed p (hashToken env raw)) s"
  shows "\<exists>e. perform env c p op s = (Inl e, s)"
proof -
  from take_token_None [OF spent_find [OF assms(2)]]
  have take: "take_token env c p raw k err s = (Inl err, s)" for k err .
  show ?thesis using assms(1)
    by (cases op) (auto simp: forget_def verifyEmail_def consumeMagicLink_def verifyMfa_def completePasswordReset_def
        act_bind_def act_seq_def act_lift_def take split: sum.split)
qed

lemma spent_run:
  assumes "spent k s" and "\<forall>r\<in>set rs. keyed (rq_projectId r) (hashToken env (c_token (rq_call r))) \<noteq> k"
  shows "spent k (auth_run env rs s)"
proof -
  define R :: "auth_state \<Rightarrow> auth_state \<Rightarrow> bool" where "R = (\<lambda>s t. spent k s \<longrightarrow> spent k t)"
  have "R s (auth_run env rs s)"
  proof (rule run_keeps)
    fix r s assume "r \<in> set rs"
    then have "k \<noteq> keyed (rq_projectId r) (hashToken env (c_token (rq_call r)))" using assms(2) by auto
    with spending.step_any [of "rq_projectId r" env "rq_call r" s "rq_op r"]
    show "R s (auth_step env r s)" unfolding R_def still_spent_def request_eta by blast
  qed (auto simp: R_def)
  then show ?thesis using assms(1) by (simp add: R_def)
qed

definition token_redrawn :: "auth_env \<Rightarrow> string \<Rightarrow> string \<Rightarrow> auth_request list \<Rightarrow> bool" where
  "token_redrawn env p raw rs \<longleftrightarrow>
     list_ex (\<lambda>r. keyed (rq_projectId r) (hashToken env (c_token (rq_call r))) = keyed p (hashToken env raw)) rs"

text \<open>
  A one-time token is redeemed once.  Once a verification, reset, magic-link or second-factor token has been
  redeemed, then, whatever requests follow, every further attempt to redeem it, as whatever kind, fails and changes
  nothing, as long as no request draws the same token anew.
\<close>

theorem one_time_token_redeemed_once:
  assumes "s = auth_run env before empty_auth" and "plain_requests before" and "plain_id p"
    and "redeems op = Some (raw, kind)" and "perform env c p op s = (Inr (), s1)"
    and fresh: "\<not> token_redrawn env p raw (\<lparr>rq_call = c, rq_projectId = p, rq_op = op\<rparr> # rs)"
    and "redeems op' = Some (raw', kind')" and "hashToken env raw' = hashToken env raw"
  shows "\<exists>e. perform env c' p op' (auth_run env rs s1) = (Inl e, auth_run env rs s1)"
proof -
  have "good s" unfolding assms(1) by (rule good_reachable [OF assms(2)])
  moreover have "hashToken env raw \<noteq> hashToken env (c_token c)" using fresh by (auto simp: token_redrawn_def)
  ultimately have "spent (keyed p (hashToken env raw)) s1"
    using tripleD [OF redeem_spends [OF assms(4,3)] TrueI _ assms(5)] by blast
  then have "spent (keyed p (hashToken env raw)) (auth_run env rs s1)"
    by (rule spent_run) (use fresh in \<open>auto simp: token_redrawn_def list_ex_iff\<close>)
  with assms(8) redeem_refused [OF assms(7)] show ?thesis by simp
qed

definition link_requests :: "auth_request list" where
  "link_requests = [sample_request 1000 ''1'' ''p'' (SignUp ''a@b.c'' ''longpassword'' None),
     sample_request 2000 ''2'' ''p'' (RequestMagicLink ''a@b.c'')]"

theorem one_time_token_redeemed_once_witness:
  "(let s = auth_run sample_env link_requests empty_auth;
        (r, s1) = perform sample_env (sample_call 3000 ''3'') ''p'' (ConsumeMagicLink ''t2'') s;
        s2 = auth_run sample_env [sample_request 4000 ''4'' ''p'' (RequestMagicLink ''a@b.c'')] s1 in
    r = Inr () \<and> length (sessions s1) = 1 \<and>
    (\<exists>e. perform sample_env (sample_call 5000 ''5'') ''p'' (ConsumeMagicLink ''t2'') s2 = (Inl e, s2)))"
proof -
  let ?s = "auth_run sample_env link_requests empty_auth"
  let ?x = "perform sample_env (sample_call 3000 ''3'') ''p'' (ConsumeMagicLink ''t2'') ?s"
  have ok: "fst ?x = Inr ()" and n: "length (sessions (snd ?x)) = 1" by code_simp+
  have pr: "plain_requests link_requests" and pi: "plain_id ''p''" by code_simp+
  have fr: "\<not> token_redrawn sample_env ''p'' ''t2'' (\<lparr>rq_call = sample_call 3000 ''3'', rq_projectId = ''p'',
      rq_op = ConsumeMagicLink ''t2''\<rparr> # [sample_request 4000 ''4'' ''p'' (RequestMagicLink ''a@b.c'')])" by code_simp
  have x: "?x = (Inr (), snd ?x)" using ok by (simp add: prod_eq_iff)
  have r: "redeems (ConsumeMagicLink ''t2'') = Some (''t2'', MagicToken)" by simp
  from one_time_token_redeemed_once [OF HOL.refl pr pi r x fr r HOL.refl, of "sample_call 5000 ''5''"] ok n
  show ?thesis by (simp add: Let_def case_prod_beta)
qed

end
