(* ===== verification/AuthRefresh.thy ===== *)
theory AuthRefresh
  imports AuthTokens
begin

text \<open>Rotation of refresh tokens: what presenting a retired token does, and that nothing revives the session.\<close>

section \<open>Finding a session by a refresh token\<close>

lemma refresh_found:
  assumes "good s" and "plain_id p" and "st_findSessionByRefreshHash p h s = Some x"
  shows "js_get (sessions s) (keyed p (cs_id x)) = Some x" and "holds_hash p h x"
proof -
  from find_Some_in [OF assms(3) [unfolded st_findSessionByRefreshHash_def]]
  have v: "x \<in> set (js_values (sessions s))" and h: "holds_hash p h x" by auto
  have "table_ok session_key (sessions s)" using assms(1) by (simp add: good_def well_keyed_def)
  from table_value [OF this v] h show "js_get (sessions s) (keyed p (cs_id x)) = Some x"
    by (simp add: session_key_def holds_hash_def)
  from h show "holds_hash p h x" .
qed

text \<open>A refresh that succeeds: which session, and what it becomes.\<close>

lemma refresh_Inr:
  assumes "refreshSession env c p raw s = (Inr y, t)"
  obtains x where "st_findSessionByRefreshHash p (hashToken env raw) s = Some x" and "\<not> dead (c_now c) x"
    and "cs_refreshTokenHash x = hashToken env raw" and "sg_sessionId y = cs_id x"
    and "t = st_touchSession (c_now c) p (cs_id x) (hashToken env (c_refresh c))
           (st_markRefreshUsed (c_now c) p (cs_id x) (hashToken env raw) s)"
proof -
  from assms obtain x where f: "st_findSessionByRefreshHash p (hashToken env raw) s = Some x"
    by (auto simp: refreshSession_def act_Inr Let_def split: option.splits)
  show ?thesis
    by (rule that [OF f]; use assms f in \<open>auto simp: refreshSession_def act_Inr Let_def split: option.splits if_splits\<close>)
qed

lemma refresh_reused:
  assumes "st_findSessionByRefreshHash p (hashToken env raw) s = Some x" and "\<not> dead (c_now c) x"
    and "cs_refreshTokenHash x \<noteq> hashToken env raw" and "js_get (sessions s) (keyed p (cs_id x)) = Some x"
  shows "fst (refreshSession env c p raw s) = Inl (AuthFail REFRESH_REUSED 401)"
    and "js_get (sessions (snd (refreshSession env c p raw s))) (keyed p (cs_id x)) = Some (x\<lparr>cs_revokedAt := Some (c_now c)\<rparr>)"
  using assms by (simp_all add: refreshSession_def act_seq_def act_bind_def act_run_def Let_def st_revokeSession_def dead_def
      audit_log_def)

text \<open>A revoked session serves nobody.\<close>

lemma revoked_serves_nobody:
  assumes "good s" and "plain_id p" and x: "js_get (sessions s) (keyed p sid) = Some x" "cs_revokedAt x \<noteq> None"
  shows "fst (requireLiveSession c p sid s) = Inl (AuthFail SESSION_REVOKED 401)"
    and "refreshSession env c p raw s = (Inr y, t) \<Longrightarrow> sg_sessionId y \<noteq> sid"
proof -
  show "fst (requireLiveSession c p sid s) = Inl (AuthFail SESSION_REVOKED 401)"
    using x by (simp add: requireLiveSession_def act_bind_def st_findSession_def dead_def)
  assume "refreshSession env c p raw s = (Inr y, t)"
  from refresh_Inr [OF this] obtain z where "st_findSessionByRefreshHash p (hashToken env raw) s = Some z"
    "\<not> dead (c_now c) z" "sg_sessionId y = cs_id z" by metis
  with refresh_found [OF assms(1,2), of _ z] x show "sg_sessionId y \<noteq> sid" by (auto simp: dead_def)
qed

section \<open>What a request does to the hashes a session keeps\<close>

definition same_hashes :: "customer_session \<Rightarrow> customer_session \<Rightarrow> bool" where
  "same_hashes x y \<longleftrightarrow> cs_projectId y = cs_projectId x \<and> cs_refreshTokenHash y = cs_refreshTokenHash x \<and>
     cs_usedRefreshHashes y = cs_usedRefreshHashes x"

text \<open>Every operation but the refresh: a session keeps its hashes, or has just been opened.\<close>

definition hashes_kept :: "auth_env \<Rightarrow> call \<Rightarrow> string \<Rightarrow> auth_state \<Rightarrow> auth_state \<Rightarrow> bool" where
  "hashes_kept env c p s t \<longleftrightarrow> (\<forall>k y. js_get (sessions t) k = Some y \<longrightarrow>
     (\<exists>x. js_get (sessions s) k = Some x \<and> same_hashes x y) \<or>
     k = keyed p (c_sessionUuid c) \<and> cs_usedRefreshHashes y = [] \<and> cs_refreshTokenHash y = hashToken env (c_refresh c))"

lemma hashes_kept_same: "sessions t = sessions s \<Longrightarrow> hashes_kept env c p s t"
  by (simp add: hashes_kept_def same_hashes_def)

lemma hashes_kept_ops:
  "hashes_kept env c p s (snd (st_revokeSession now p sid s))" "hashes_kept env c p s (snd (st_revokeUserSessions now p uid s))"
  "hashes_kept env c p s (snd (st_createSession (c_sessionUuid c) now (new_session env c p user) s))"
  by (auto simp: hashes_kept_def same_hashes_def st_revokeSession_def st_revokeUserSessions_def st_createSession_def
      new_session_def Let_def split: option.split if_splits)

interpretation keeping: steady_admin "hashes_kept env c p" env c p for env c p
proof unfold_locales
  show "hashes_kept env c p s u" if st: "hashes_kept env c p s t" and tu: "hashes_kept env c p t u" for env c p s t u
    unfolding hashes_kept_def
  proof (intro allI impI)
    fix k y assume "js_get (sessions u) k = Some y"
    from tu [unfolded hashes_kept_def, rule_format, OF this]
    show "(\<exists>x. js_get (sessions s) k = Some x \<and> same_hashes x y) \<or>
      k = keyed p (c_sessionUuid c) \<and> cs_usedRefreshHashes y = [] \<and> cs_refreshTokenHash y = hashToken env (c_refresh c)"
      using st [unfolded hashes_kept_def, rule_format, of k] by (fastforce simp: same_hashes_def)
  qed
qed (simp_all add: hashes_kept_same hashes_kept_ops)

text \<open>The refresh: it may also retire a session's hash, of which the last ten are kept.\<close>

definition hashes_step :: "auth_env \<Rightarrow> call \<Rightarrow> string \<Rightarrow> auth_state \<Rightarrow> auth_state \<Rightarrow> bool" where
  "hashes_step env c p s t \<longleftrightarrow> (\<forall>k y. js_get (sessions t) k = Some y \<longrightarrow>
     (\<exists>x. js_get (sessions s) k = Some x \<and> (same_hashes x y \<or> cs_projectId y = cs_projectId x \<and>
        cs_usedRefreshHashes y = last_ten (cs_usedRefreshHashes x @ [cs_refreshTokenHash x]) \<and>
        cs_refreshTokenHash y = hashToken env (c_refresh c))) \<or>
     k = keyed p (c_sessionUuid c) \<and> cs_usedRefreshHashes y = [] \<and> cs_refreshTokenHash y = hashToken env (c_refresh c))"

lemma refresh_step:
  assumes "good s" and "plain_id p"
  shows "hashes_step env c p s (snd (refreshSession env c p raw s))"
proof -
  have id: "hashes_step env c p s t" if "sessions t = sessions s" for t
    using that by (simp add: hashes_step_def same_hashes_def)
  let ?h = "hashToken env raw"
  show ?thesis
  proof (cases "st_findSessionByRefreshHash p ?h s")
    case None
    then show ?thesis by (intro id) (simp add: refreshSession_def Let_def act_bind_def)
  next
    case (Some x)
    note x = refresh_found(1) [OF assms Some]
    let ?t = "st_touchSession (c_now c) p (cs_id x) (hashToken env (c_refresh c)) (st_markRefreshUsed (c_now c) p (cs_id x) ?h s)"
    let ?u = "snd (st_revokeSession (c_now c) p (cs_id x) s)"
    have "hashes_step env c p s ?u"
      using hashes_kept_ops(1) [of env c p s "c_now c" "cs_id x"] unfolding hashes_step_def hashes_kept_def by blast
    moreover have "hashes_step env c p s ?t" if "cs_refreshTokenHash x = ?h"
      using that by (auto simp: hashes_step_def same_hashes_def st_touchSession_def st_markRefreshUsed_def change_session_def x)
    moreover have "hashes_step env c p s (t\<lparr>audits := a\<rparr>) = hashes_step env c p s t" for t a by (simp add: hashes_step_def)
    ultimately show ?thesis
      using id [OF HOL.refl] by (auto simp: refreshSession_def Some Let_def act_defs audit_log_def case_prod_beta split: option.split sum.split)
  qed
qed

lemma step_hashes:
  assumes "good s" and "plain_id (rq_projectId r)"
  shows "hashes_step env (rq_call r) (rq_projectId r) s (auth_step env r s)"
proof (cases "refreshes (rq_op r)")
  case True
  then obtain raw where "rq_op r = RefreshSession raw" by (cases "rq_op r") auto
  then show ?thesis using refresh_step [OF assms, of env "rq_call r" raw]
    by (simp add: auth_step_def forget_def act_bind_def case_prod_beta split: sum.split)
next
  case False
  from keepsD [OF keeping.k_steady [OF False]] show ?thesis
    unfolding auth_step_def hashes_step_def hashes_kept_def by blast
qed

section \<open>Retired hashes\<close>

text \<open>How often, in a run, a request changes the hashes that the session under a key keeps.\<close>

definition session_hashes :: "string \<Rightarrow> auth_state \<Rightarrow> (string \<times> string list) option" where
  "session_hashes k s = map_option (\<lambda>x. (cs_refreshTokenHash x, cs_usedRefreshHashes x)) (js_get (sessions s) k)"

fun rotations :: "auth_env \<Rightarrow> string \<Rightarrow> auth_request list \<Rightarrow> auth_state \<Rightarrow> nat" where
  "rotations env k [] s = 0"
| "rotations env k (r # rs) s = (let t = auth_step env r s in
     (if session_hashes k t = session_hashes k s then 0 else 1) + rotations env k rs t)"

text \<open>The session under \<open>k\<close> alone holds the hash \<open>h\<close>, retired, with at most \<open>n\<close> retired after it.\<close>

definition retired :: "string \<Rightarrow> string \<Rightarrow> string \<Rightarrow> nat \<Rightarrow> auth_state \<Rightarrow> bool" where
  "retired p h k n s \<longleftrightarrow> (\<forall>j y. js_get (sessions s) j = Some y \<longrightarrow> holds_hash p h y \<longrightarrow> j = k) \<and>
     (\<forall>y. js_get (sessions s) k = Some y \<longrightarrow> cs_refreshTokenHash y \<noteq> h \<and>
       (\<exists>pre post. cs_usedRefreshHashes y = pre @ h # post \<and> length post \<le> n))"

lemma last_ten_subset: "set (last_ten xs) \<subseteq> set xs"
  by (simp add: last_ten_def set_drop_subset)

lemma last_ten_keeps: "length post \<le> 9 \<Longrightarrow> \<exists>pre'. last_ten (pre @ h # post) = pre' @ h # post"
  by (rule exI [of _ "drop (length (pre @ h # post) - 10) pre"]) (simp add: last_ten_def)

lemma retired_step:
  assumes step: "hashes_step env c p' s t" and "retired p h k n s" and new: "h \<noteq> hashToken env (c_refresh c)" "k \<noteq> keyed p' (c_sessionUuid c)"
    and "session_hashes k t = session_hashes k s \<or> n < 9"
  shows "retired p h k (n + (if session_hashes k t = session_hashes k s then 0 else 1)) t"
proof -
  have own: "j = k" if "js_get (sessions s) j = Some x" "holds_hash p h x" for j x using assms(2) that by (simp add: retired_def)
  have "j = k" if y: "js_get (sessions t) j = Some y" "holds_hash p h y" for j y
    using step [unfolded hashes_step_def, rule_format, OF y(1)] y(2) new(1) own [of j] last_ten_subset
    by (fastforce simp: holds_hash_def same_hashes_def)
  moreover have "cs_refreshTokenHash y \<noteq> h \<and> (\<exists>pre post. cs_usedRefreshHashes y = pre @ h # post \<and>
      length post \<le> n + (if session_hashes k t = session_hashes k s then 0 else 1))" if y: "js_get (sessions t) k = Some y" for y
  proof -
    from step [unfolded hashes_step_def, rule_format, OF y] new(2) obtain x where x: "js_get (sessions s) k = Some x"
      and c: "same_hashes x y \<or> cs_usedRefreshHashes y = last_ten (cs_usedRefreshHashes x @ [cs_refreshTokenHash x]) \<and>
        cs_refreshTokenHash y = hashToken env (c_refresh c)" by blast
    obtain pre post where u: "cs_refreshTokenHash x \<noteq> h" "cs_usedRefreshHashes x = pre @ h # post" "length post \<le> n"
      using assms(2) x by (auto simp: retired_def)
    show ?thesis
    proof (cases "session_hashes k t = session_hashes k s")
      case True
      then show ?thesis using u x y by (auto simp: session_hashes_def)
    next
      case False
      then have "\<not> same_hashes x y" using x y by (auto simp: session_hashes_def same_hashes_def)
      then have r: "cs_usedRefreshHashes y = last_ten (pre @ h # (post @ [cs_refreshTokenHash x]))" "cs_refreshTokenHash y \<noteq> h"
        using c new(1) u(2) by auto
      moreover have "length (post @ [cs_refreshTokenHash x]) \<le> 9" using False assms(5) u(3) by simp
      ultimately show ?thesis using last_ten_keeps [of "post @ [cs_refreshTokenHash x]" pre h] u(3) False by fastforce
    qed
  qed
  ultimately show ?thesis by (simp add: retired_def)
qed

lemma retired_run:
  assumes "good s" and "plain_requests rs" and "retired p h k n s" and "n + rotations env k rs s \<le> 9"
    and "\<not> session_redrawn k rs" and "h \<notin> (\<lambda>r. hashToken env (c_refresh (rq_call r))) ` set rs"
  shows "retired p h k (n + rotations env k rs s) (auth_run env rs s)"
  using assms
proof (induction rs arbitrary: s n)
  case (Cons r rs)
  let ?t = "auth_step env r s" and ?d = "if session_hashes k (auth_step env r s) = session_hashes k s then 0 else (1 :: nat)"
  have p: "plain_id (rq_projectId r)" and rs: "plain_requests rs" using Cons.prems(2) by (simp_all add: plain_requests_def)
  have "retired p h k (n + ?d) ?t"
    by (rule retired_step [OF step_hashes [OF Cons.prems(1) p] Cons.prems(3)])
      (use Cons.prems(4-6) in \<open>auto simp: session_redrawn_def Let_def split: if_splits\<close>)
  from Cons.IH [OF good_step [OF Cons.prems(1) p] rs this] Cons.prems(4-6) show ?case
    by (auto simp: session_redrawn_def Let_def auth_run_def add.assoc split: if_splits)
qed (simp add: auth_run_def)

lemma retired_found:
  assumes "good s" and "plain_id p" and "retired p h (keyed p sid) n s" and x: "st_findSession p sid s = Some x"
  shows "st_findSessionByRefreshHash p h s = Some x" and "cs_id x = sid" and "cs_refreshTokenHash x \<noteq> h"
proof -
  have g: "js_get (sessions s) (keyed p sid) = Some x" using x by (simp add: st_findSession_def)
  have ok: "table_ok session_key (sessions s)" using assms(1) by (simp add: good_def well_keyed_def)
  have "plain_id (cs_projectId x)" using plain_found(2) [OF _ g] assms(1) by (simp add: good_def)
  then have id: "cs_projectId x = p" "cs_id x = sid"
    using table_ok_get [OF ok g] keyed_split [OF assms(2), of sid "cs_projectId x" "cs_id x"] by (simp_all add: session_key_def)
  show "cs_id x = sid" "cs_refreshTokenHash x \<noteq> h" using id assms(3) g by (auto simp: retired_def)
  have "holds_hash p h x" using id assms(3) g by (auto simp: retired_def holds_hash_def)
  then obtain v where v: "st_findSessionByRefreshHash p h s = Some v"
    using find_hits [of x "js_values (sessions s)"] js_get_values [OF g] unfolding st_findSessionByRefreshHash_def by blast
  from refresh_found [OF assms(1,2) v] assms(3) have "keyed p (cs_id v) = keyed p sid" by (auto simp: retired_def)
  with refresh_found(1) [OF assms(1,2) v] g v show "st_findSessionByRefreshHash p h s = Some x" by simp
qed

lemma rotated_session:
  assumes "good s" and "plain_id p" and "refreshSession env c p raw s = (Inr y, t)"
    and "hashToken env (c_refresh c) \<noteq> hashToken env raw"
    and own: "\<forall>x\<in>set (js_values (sessions s)). holds_hash p (hashToken env raw) x \<longrightarrow> cs_id x = sg_sessionId y"
  shows "retired p (hashToken env raw) (keyed p (sg_sessionId y)) 0 t" and "good t"
proof -
  let ?h = "hashToken env raw"
  from refresh_Inr [OF assms(3)] obtain x where f: "st_findSessionByRefreshHash p ?h s = Some x" and id: "sg_sessionId y = cs_id x"
    and t: "t = st_touchSession (c_now c) p (cs_id x) (hashToken env (c_refresh c)) (st_markRefreshUsed (c_now c) p (cs_id x) ?h s)"
    by metis
  note x = refresh_found [OF assms(1,2) f]
  have ok: "table_ok session_key (sessions s)" using assms(1) by (simp add: good_def well_keyed_def)
  have "j = keyed p (cs_id x)" if "js_get (sessions s) j = Some z" "holds_hash p ?h z" for j z
  proof -
    have "cs_id z = cs_id x" using own js_get_values [OF that(1)] that(2) id by metis
    then show ?thesis using table_ok_get [OF ok that(1)] that(2) by (simp add: session_key_def holds_hash_def)
  qed
  then show "retired p ?h (keyed p (sg_sessionId y)) 0 t"
    using assms(4) last_ten_keeps [of "[]" "cs_usedRefreshHashes x" ?h]
    by (auto simp: retired_def id t st_touchSession_def st_markRefreshUsed_def change_session_def x)
  show "good t"
    using good_step [OF assms(1), of "\<lparr>rq_call = c, rq_projectId = p, rq_op = RefreshSession raw\<rparr>" env] assms(2,3)
    by (simp add: auth_step_def forget_def act_bind_def)
qed

text \<open>
  C13. Presenting a refresh token that was rotated away ends its session.  After any history in which the token was given
  to no other session, once it has been exchanged, and through any requests that exchange the session's token
  at most nine times more (the store keeps the last ten), presenting the old one while the session is live fails as
  reuse; from then on, whatever requests follow,
  the session is refused as no longer live and no refresh token, the newest one included, ever yields tokens for it.
\<close>

theorem replayed_refresh_ends_session:
  assumes s: "s = auth_run env before empty_auth" and "plain_requests before" and p: "plain_id p"
    and rotated: "refreshSession env c p raw s = (Inr y, s1)"
    and own: "\<forall>x\<in>set (js_values (sessions s)). holds_hash p (hashToken env raw) x \<longrightarrow> cs_id x = sg_sessionId y"
    and fresh: "hashToken env raw \<notin> (\<lambda>c. hashToken env (c_refresh c)) ` set (c # map rq_call between)"
    and between: "plain_requests between" "\<not> session_redrawn (keyed p (sg_sessionId y)) between"
      "rotations env (keyed p (sg_sessionId y)) between s1 \<le> 9"
    and live: "st_findSession p (sg_sessionId y) (auth_run env between s1) = Some x" "cs_revokedAt x = None" "c_now c' < cs_expiresAt x"
    and replay: "refreshSession env c' p raw (auth_run env between s1) = (res, s2)"
    and rs: "plain_requests rs" "\<not> session_redrawn (keyed p (sg_sessionId y)) rs"
  shows "res = Inl (AuthFail REFRESH_REUSED 401) \<and>
    fst (requireLiveSession d p (sg_sessionId y) (auth_run env rs s2)) = Inl (AuthFail SESSION_REVOKED 401) \<and>
    (refreshSession env d p any (auth_run env rs s2) = (Inr z, t) \<longrightarrow> sg_sessionId z \<noteq> sg_sessionId y)"
proof -
  let ?k = "keyed p (sg_sessionId y)" and ?h = "hashToken env raw" and ?m = "auth_run env between s1"
  have g: "good s" unfolding s by (rule good_reachable [OF assms(2)])
  have "hashToken env (c_refresh c) \<noteq> ?h" using fresh by auto
  note r1 = rotated_session [OF g p rotated this own]
  have "retired p ?h ?k (0 + rotations env ?k between s1) ?m"
    by (rule retired_run [OF r1(2) between(1) r1(1)]) (use between fresh in \<open>auto simp: image_image\<close>)
  note found = retired_found [OF good_run [OF r1(2) between(1)] p this live(1)]
  have get: "js_get (sessions ?m) (keyed p (cs_id x)) = Some x" using live(1) found(2) by (simp add: st_findSession_def)
  have "\<not> dead (c_now c') x" using live by (simp add: dead_def)
  note reused = refresh_reused [OF found(1) this found(3) get, unfolded replay fst_conv snd_conv]
  have "good s2"
    using good_step [OF good_run [OF r1(2) between(1)], of "\<lparr>rq_call = c', rq_projectId = p, rq_op = RefreshSession raw\<rparr>" env env] p replay reused(1)
    by (simp add: auth_step_def forget_def act_bind_def)
  note g2 = good_run [OF this rs(1), of env]
  from run_still_revoked [OF rs(2), of s2 _ env] reused(2) found(2) obtain w
    where w: "js_get (sessions (auth_run env rs s2)) ?k = Some w" "cs_revokedAt w \<noteq> None" by auto
  from reused(1) revoked_serves_nobody(1) [OF g2 p w] revoked_serves_nobody(2) [OF g2 p w] show ?thesis by simp
qed

definition signed_in_requests :: "auth_request list" where
  "signed_in_requests = [sample_request 1000 ''1'' ''p'' (SignUp ''a@b.c'' ''longpassword'' None),
     sample_request 2000 ''2'' ''p'' (SignIn ''a@b.c'' ''longpassword'')]"

text \<open>The token of the sign-in is exchanged, then its successor, and then the first is presented again.\<close>

theorem replayed_refresh_ends_session_witness:
  "(let s = auth_run sample_env signed_in_requests empty_auth;
        (r1, s1) = refreshSession sample_env (sample_call 3000 ''3'') ''p'' ''r2'' s;
        (r2, s2) = refreshSession sample_env (sample_call 5000 ''5'') ''p'' ''r2''
          (auth_run sample_env [sample_request 4000 ''4'' ''p'' (RefreshSession ''r3'')] s1) in
    map_option cs_id (st_findSession ''p'' ''s2'' s) = Some ''s2'' \<and> r2 = Inl (AuthFail REFRESH_REUSED 401) \<and>
    fst (requireLiveSession (sample_call 6000 ''6'') ''p'' ''s2'' s2) = Inl (AuthFail SESSION_REVOKED 401))"
proof -
  let ?s = "auth_run sample_env signed_in_requests empty_auth" and ?m = "[sample_request 4000 ''4'' ''p'' (RefreshSession ''r3'')]"
  let ?a = "refreshSession sample_env (sample_call 3000 ''3'') ''p'' ''r2'' ?s"
  let ?b = "refreshSession sample_env (sample_call 5000 ''5'') ''p'' ''r2'' (auth_run sample_env ?m (snd ?a))"
  have "map_option sg_sessionId (case fst ?a of Inr y \<Rightarrow> Some y | Inl _ \<Rightarrow> None) = Some ''s2''" by code_simp
  then obtain y where y: "?a = (Inr y, snd ?a)" and id: "sg_sessionId y = ''s2''"
    by (auto simp: prod_eq_iff split: sum.splits)
  have "map_option (\<lambda>x. (cs_revokedAt x, cs_expiresAt x)) (st_findSession ''p'' ''s2'' (auth_run sample_env ?m (snd ?a))) =
      Some (None, 3602000)" by code_simp
  then obtain x where x: "st_findSession ''p'' ''s2'' (auth_run sample_env ?m (snd ?a)) = Some x" "cs_revokedAt x = None"
    "cs_expiresAt x = 3602000" by auto
  have due: "c_now (sample_call 5000 ''5'') < cs_expiresAt x" using x(3) by (simp add: sample_call_def)
  have pr: "plain_requests signed_in_requests" and pi: "plain_id ''p''" and pm: "plain_requests ?m" and ps: "plain_requests []" by code_simp+
  have nr: "\<not> session_redrawn (keyed ''p'' (sg_sessionId y)) ?m" "\<not> session_redrawn (keyed ''p'' (sg_sessionId y)) []"
    by (simp_all add: session_redrawn_def id keyed_def sample_request_def sample_call_def)
  have own: "\<forall>x\<in>set (js_values (sessions ?s)). holds_hash ''p'' (hashToken sample_env ''r2'') x \<longrightarrow> cs_id x = sg_sessionId y"
    unfolding id by code_simp
  have n: "hashToken sample_env ''r2'' \<notin> (\<lambda>c. hashToken sample_env (c_refresh c)) ` set (sample_call 3000 ''3'' # map rq_call ?m)"
    by code_simp
  have few: "rotations sample_env (keyed ''p'' (sg_sessionId y)) ?m (snd ?a) \<le> 9" unfolding id by code_simp
  have "map_option cs_id (st_findSession ''p'' ''s2'' ?s) = Some ''s2''" by code_simp
  moreover have b: "?b = (fst ?b, snd ?b)" by simp
  from replayed_refresh_ends_session [OF HOL.refl pr pi y own n pm nr(1) few x(1) [folded id] x(2) due b ps nr(2), of "sample_call 6000 ''6''"]
  have "fst ?b = Inl (AuthFail REFRESH_REUSED 401) \<and>
      fst (requireLiveSession (sample_call 6000 ''6'') ''p'' ''s2'' (snd ?b)) = Inl (AuthFail SESSION_REVOKED 401)"
    by (simp add: id auth_run_def)
  ultimately show ?thesis by (simp add: Let_def case_prod_beta)
qed

section \<open>A new password\<close>

text \<open>The user whose password an operation sets, and the password.\<close>

fun sets_password :: "auth_env \<Rightarrow> call \<Rightarrow> string \<Rightarrow> auth_op \<Rightarrow> auth_state \<Rightarrow> (string \<times> string) option" where
  "sets_password env c p (CompletePasswordReset raw w) s =
     map_option (\<lambda>t. (ot_userId t, w)) (st_findToken (c_now c) p (hashToken env raw) ResetToken s)"
| "sets_password env c p (ChangePassword uid _ w) s = Some (uid, w)"
| "sets_password env c p _ s = None"

definition password_set :: "auth_env \<Rightarrow> call \<Rightarrow> string \<Rightarrow> string \<Rightarrow> string \<Rightarrow> auth_state \<Rightarrow> auth_state \<Rightarrow> bool" where
  "password_set env c p uid w s t \<longleftrightarrow> (\<exists>u hash. hashPassword (ae_scrypt env) (c_salt c) w = Inr hash \<and>
     st_findUserById p uid s = Some u \<and> st_findUserById p uid t = Some (u\<lparr>cu_passwordHash := Some hash, cu_updatedAt := c_now c\<rparr>))"

lemma update_user_Inr:
  "update_user c p uid f s = (Inr v, t) \<longleftrightarrow> v = fst (st_updateUser (c_now c) p uid f s) \<and> t = snd (st_updateUser (c_now c) p uid f s)"
  by (auto simp: update_user_def act_Inr)

lemma audit_log_Inr: "audit_log ev p u x s = (Inr v, t) \<longleftrightarrow> t = s\<lparr>audits := audits s @
     [\<lparr>au_event = ev, au_projectId = p, au_userId = u, au_sessionId = x\<rparr>]\<rparr>"
  by (auto simp: audit_log_def)

lemma end_everything_Inr: "end_everything c p uid s = (Inr v, t) \<longleftrightarrow>
   t = st_deleteUserTokens p uid (snd (st_revokeUserSessions (c_now c) p uid s))"
  by (auto simp: end_everything_def act_Inr) (metis prod.collapse)

lemma ended_sessions: "st_listSessions p uid (snd (st_revokeUserSessions now p uid s)) = []"
  by (auto simp: st_listSessions_def st_revokeUserSessions_def live_of_def filter_empty_conv)

lemma ended_tokens: "good s \<Longrightarrow> plain_id p \<Longrightarrow> st_findToken now p h kind (st_deleteUserTokens p uid s) = Some k \<Longrightarrow> ot_userId k \<noteq> uid"
proof -
  assume g: "good s" "plain_id p" and f: "st_findToken now p h kind (st_deleteUserTokens p uid s) = Some k"
  have "js_ok (tokens s)" using g(1) by (simp add: good_def well_keyed_def table_ok_def)
  from drop_vals_get [OF this] f have "js_get (tokens s) (keyed p h) = Some k" and n: "\<not> (ot_projectId k = p \<and> ot_userId k = uid)"
    by (auto simp: st_findToken_def st_deleteUserTokens_def split: option.splits if_splits)
  then have "st_findToken now p h kind s = Some k" using f by (auto simp: st_findToken_def split: option.splits if_splits)
  from found_token_hash [OF _ _ g(2) this] g(1) n show ?thesis by (simp add: good_def)
qed

lemma listed_sessions: "sessions t = sessions s \<Longrightarrow> st_listSessions p v t = st_listSessions p v s"
  by (simp add: st_listSessions_def)

lemma other_sessions: "v \<noteq> uid \<Longrightarrow> st_listSessions p v (snd (st_revokeUserSessions now p uid s)) = st_listSessions p v s"
proof -
  assume "v \<noteq> uid"
  then have "filter (live_of p v) (map (\<lambda>x. if live_of p uid x then x\<lparr>cs_revokedAt := Some now\<rparr> else x) xs) =
      filter (live_of p v) xs" for xs
    by (induction xs) (auto simp: live_of_def)
  then show ?thesis by (simp add: st_listSessions_def st_revokeUserSessions_def flip: map_map)
qed

lemma found_same: "users t = users s \<Longrightarrow> st_findUserById p uid t = st_findUserById p uid s"
  by (simp add: st_findUserById_def)

text \<open>What both operations do once the new password is accepted.\<close>

lemma set_password_ends:
  assumes "good s" and p: "plain_id p" and h: "hashPassword (ae_scrypt env) (c_salt c) w = Inr hash"
    and u: "st_findUserById p uid s = Some u"
    and t: "t = st_deleteUserTokens p uid (snd (st_revokeUserSessions (c_now c) p uid
      (snd (st_updateUser (c_now c) p uid (\<lambda>u. u\<lparr>cu_passwordHash := Some hash\<rparr>) s))))"
  shows "password_set env c p uid w s t" and "st_listSessions p uid t = []"
    and "v \<noteq> uid \<Longrightarrow> st_listSessions p v t = st_listSessions p v s"
    and "st_findToken now p h kind t = Some k \<Longrightarrow> ot_userId k \<noteq> uid"
proof -
  let ?t1 = "snd (st_updateUser (c_now c) p uid (\<lambda>u. u\<lparr>cu_passwordHash := Some hash\<rparr>) s)"
  let ?t2 = "snd (st_revokeUserSessions (c_now c) p uid ?t1)"
  have st: "sessions t = sessions ?t2" and us: "users t = users ?t1" by (simp_all add: t)
  have "u\<lparr>cu_passwordHash := Some hash, cu_id := cu_id u, cu_projectId := cu_projectId u, cu_updatedAt := c_now c\<rparr>
      = u\<lparr>cu_passwordHash := Some hash, cu_updatedAt := c_now c\<rparr>" by simp
  then show "password_set env c p uid w s t"
    using found_user [OF u] unfolding password_set_def found_same [OF us]
    by (simp add: h u st_updateUser_def Let_def) (simp add: st_findUserById_def live_user_def)
  show "st_listSessions p uid t = []" using ended_sessions listed_sessions [OF st] by simp
  show "st_listSessions p v t = st_listSessions p v s" if "v \<noteq> uid"
    using other_sessions [OF that] listed_sessions [OF st] listed_sessions [of ?t1 s] by simp
  have "good ?t2"
    using assms(1) p isolation.r_change [of p p s c uid] isolation.r_revoke_user [of p p ?t1 c uid] plain.r_change [of p s c uid]
      plain.r_revoke_user [of p ?t1 c uid]
    by (simp add: good_def isolated_def plain_kept_def)
  from ended_tokens [OF this p] show "ot_userId k \<noteq> uid" if "st_findToken now p h kind t = Some k" using that by (simp add: t)
qed

lemma act_forget_Inr: "forget m s = (Inr u, t) \<longleftrightarrow> (\<exists>a. m s = (Inr a, t))"
  by (auto simp: forget_def act_Inr)

lemma password_ops:
  assumes "perform env c p op s = (Inr (), t)" and "sets_password env c p op s = Some (uid, w)"
    and "good s" and p: "plain_id p"
  obtains s' hash u t' where "good s'" and "sessions s' = sessions s" and "users s' = users s"
    and "hashPassword (ae_scrypt env) (c_salt c) w = Inr hash" and "st_findUserById p uid s' = Some u"
    and "t' = st_deleteUserTokens p uid (snd (st_revokeUserSessions (c_now c) p uid
      (snd (st_updateUser (c_now c) p uid (\<lambda>u. u\<lparr>cu_passwordHash := Some hash\<rparr>) s'))))"
    and "sessions t = sessions t'" and "users t = users t'" and "tokens t = tokens t'"
proof -
  let ?ended = "\<lambda>s' hash. st_deleteUserTokens p uid (snd (st_revokeUserSessions (c_now c) p uid
      (snd (st_updateUser (c_now c) p uid (\<lambda>u. u\<lparr>cu_passwordHash := Some hash\<rparr>) s'))))"
  note unfold = perform.simps act_forget_Inr act_Inr end_everything_Inr audit_log_Inr take_token_Inr update_user_Inr
  consider raw where "op = CompletePasswordReset raw w" | old where "op = ChangePassword uid old w"
    using assms(2) by (cases op) auto
  then show ?thesis
  proof cases
    case 1
    then obtain k where k: "st_findToken (c_now c) p (hashToken env raw) ResetToken s = Some k" "ot_userId k = uid"
      using assms(2) by auto
    let ?s = "snd (st_consumeToken (c_now c) p (ot_tokenHash k) s)"
    from assms(1) k obtain hash u where h: "hashPassword (ae_scrypt env) (c_salt c) w = Inr hash"
      and u: "fst (st_updateUser (c_now c) p uid (\<lambda>u. u\<lparr>cu_passwordHash := Some hash\<rparr>) ?s) = Some u"
      and t: "\<exists>a. t = ?ended ?s hash\<lparr>audits := a\<rparr>"
      unfolding 1 completePasswordReset_def unfold by auto
    have "good ?s" using assms(3) p isolation.r_consume [of p p s c] plain.r_consume [of p s c]
      by (simp add: good_def isolated_def plain_kept_def)
    moreover from u obtain v where "st_findUserById p uid ?s = Some v" by (auto simp: st_updateUser_def split: option.splits)
    ultimately show ?thesis using that [of ?s hash v "?ended ?s hash"] h t by auto
  next
    case 2
    from assms(1) obtain hash where h: "hashPassword (ae_scrypt env) (c_salt c) w = Inr hash"
      and t: "\<exists>a. t = ?ended s hash\<lparr>audits := a\<rparr>" and u: "st_findUserById p uid s \<noteq> None"
      unfolding 2 changePassword_def unfold by (auto split: option.splits)
    from u obtain v where "st_findUserById p uid s = Some v" by auto
    then show ?thesis using that [of s hash v "?ended s hash"] h t assms(3) by auto
  qed
qed

text \<open>
  A new password ends everything opened with the old one.  After any history, a completed reset or change of a
  password sets the hash of the new one and nothing else of the user but the time, leaves the user no open session and
  no token, and leaves every other user's sessions as they were.
\<close>

theorem new_password_ends_everything:
  assumes "s = auth_run env before empty_auth" and "plain_requests before" and "plain_id p"
    and "perform env c p op s = (Inr (), t)" and "sets_password env c p op s = Some (uid, w)"
  shows "password_set env c p uid w s t \<and> st_listSessions p uid t = [] \<and>
    (v \<noteq> uid \<longrightarrow> st_listSessions p v t = st_listSessions p v s) \<and>
    (st_findToken now p h kind t = Some k \<longrightarrow> ot_userId k \<noteq> uid)"
proof -
  have g: "good s" unfolding assms(1) by (rule good_reachable [OF assms(2)])
  from password_ops [OF assms(4,5) g assms(3)] obtain s' hash u t'
    where s': "good s'" "sessions s' = sessions s" "users s' = users s"
      and e: "hashPassword (ae_scrypt env) (c_salt c) w = Inr hash" "st_findUserById p uid s' = Some u"
        "t' = st_deleteUserTokens p uid (snd (st_revokeUserSessions (c_now c) p uid
          (snd (st_updateUser (c_now c) p uid (\<lambda>u. u\<lparr>cu_passwordHash := Some hash\<rparr>) s'))))"
      and t: "sessions t = sessions t'" "users t = users t'" "tokens t = tokens t'" .
  note ends = set_password_ends [OF s'(1) assms(3) e]
  have f: "st_findToken now p h kind t = st_findToken now p h kind t'" by (simp add: st_findToken_def t(3))
  show ?thesis using ends(1,2) ends(3) [of v] ends(4) [of now h kind k]
    unfolding f password_set_def found_same [OF t(2)] listed_sessions [OF t(1)]
    by (simp add: found_same [OF s'(3)] listed_sessions [OF s'(2)])
qed


theorem new_password_ends_everything_witness:
  "(let s = auth_run sample_env (signed_in_requests @ [sample_request 3000 ''3'' ''p'' (RequestPasswordReset ''a@b.c'')]) empty_auth;
        (r, t) = perform sample_env (sample_call 4000 ''4'') ''p'' (CompletePasswordReset ''t3'' ''newpassword'') s in
    length (st_listSessions ''p'' ''u1'' s) = 1 \<and> r = Inr () \<and> st_listSessions ''p'' ''u1'' t = [] \<and>
    map_option cu_passwordHash (st_findUserById ''p'' ''u1'' t) = Some (Some ''scrypt:1:newpassword''))"
proof -
  let ?s = "auth_run sample_env (signed_in_requests @ [sample_request 3000 ''3'' ''p'' (RequestPasswordReset ''a@b.c'')]) empty_auth"
  let ?x = "perform sample_env (sample_call 4000 ''4'') ''p'' (CompletePasswordReset ''t3'' ''newpassword'') ?s"
  have n: "length (st_listSessions ''p'' ''u1'' ?s) = 1" and r: "fst ?x = Inr ()"
    and w: "map_option cu_passwordHash (st_findUserById ''p'' ''u1'' (snd ?x)) = Some (Some ''scrypt:1:newpassword'')" by code_simp+
  have pr: "plain_requests (signed_in_requests @ [sample_request 3000 ''3'' ''p'' (RequestPasswordReset ''a@b.c'')])"
    and pi: "plain_id ''p''" by code_simp+
  have sp: "sets_password sample_env (sample_call 4000 ''4'') ''p'' (CompletePasswordReset ''t3'' ''newpassword'') ?s =
      Some (''u1'', ''newpassword'')" by code_simp
  have x: "?x = (Inr (), snd ?x)" using r by (simp add: prod_eq_iff)
  from new_password_ends_everything [OF HOL.refl pr pi x sp, THEN conjunct2, THEN conjunct1] n r w
  show ?thesis by (simp add: Let_def case_prod_beta)
qed

end
