(* ===== verification/AuthLive.thy ===== *)
theory AuthLive
  imports AuthRefresh
begin

text \<open>
  Who gets a session: with a second factor, the password alone does not open one; and an open session always belongs
  to a user who exists and is active.
\<close>

section \<open>The second factor\<close>

lemma found_by_email:
  assumes "good s" and "st_findUserByEmail p e s = Some u"
  shows "st_findUserById p (cu_id u) s = Some u"
proof -
  from find_Some_in [OF assms(2) [unfolded st_findUserByEmail_def]]
  have v: "u \<in> set (js_values (users s))" and a: "user_at p (to_lower e) u" by auto
  have "table_ok user_key (users s)" using assms(1) by (simp add: good_def well_keyed_def)
  from table_value [OF this v] a show ?thesis by (simp add: st_findUserById_def live_user_def user_key_def user_at_def)
qed

lemma issue_works:
  assumes "32 \<le> length (ac_jwtSecret (ae_config env))"
  shows "\<exists>y t. issueSession env c p u s = (Inr y, t)"
  using assms by (auto simp: issueSession_def accessTokenFor_def signCustomerAccessToken_def act_bind_def act_seq_def act_run_def
      update_user_def audit_log_def Let_def split: prod.split)

lemma finish_works:
  assumes "32 \<le> length (ac_jwtSecret (ae_config env))"
  shows "\<exists>y. fst (finish_sign_in env c p u ev s) = Inr y"
  using issue_works [OF assms, of c p u s] by (auto simp: finish_sign_in_def act_bind_def act_seq_def audit_log_def)

text \<open>What a sign-in of a user with a second factor does when the password is right.\<close>

definition challenged :: "auth_env \<Rightarrow> call \<Rightarrow> string \<Rightarrow> customer_user \<Rightarrow> auth_state \<Rightarrow> auth_state" where
  "challenged env c p u s = snd (audit_log MfaChallenged p (Some (cu_id u)) None
     (snd (save_token env c p (cu_id u) MfaToken 300000 s)))"

lemma sign_in_cases:
  assumes "st_findUserByEmail p (normal_email e) s = Some u" and "cu_totpEnabled u" and "cu_totpSecret u = Some secret" and "secret \<noteq> []"
  shows "(case fst (signIn env c p e w s) of Inl _ \<Rightarrow> True | Inr (SignedIn _) \<Rightarrow> False
      | Inr (MfaRequired ticket uid) \<Rightarrow> ticket = c_token c \<and> cu_status u = UserActive \<and> 
          verifyPassword (ae_scrypt env) w (over_value (cu_passwordHash u) DUMMY_HASH) \<and> snd (signIn env c p e w s) = challenged env c p u s)"
    and "sessions (snd (signIn env c p e w s)) = sessions s"
  using assms by (simp_all add: signIn_def act_bind_def act_seq_def audit_log_def save_token_def truthy_def challenged_def Let_def)

lemma mfa_works:
  assumes "good s" and "plain_id p" and u: "st_findUserById p (cu_id u) s = Some u" and "cu_status u = UserActive"
    and totp: "cu_totpEnabled u" "cu_totpSecret u = Some secret" "secret \<noteq> []"
    and "c_now c' < c_now c + 300000" and "32 \<le> length (ac_jwtSecret (ae_config env))"
  shows "(\<exists>y. fst (verifyMfa env c' p (c_token c) g (challenged env c p u s)) = Inr y) \<longleftrightarrow>
    check_totp env c' secret (strip_separators g) = Inr True \<or>
    check_totp env c' secret (strip_separators g) = Inr False \<and> ae_sha env (strip_separators g) \<in> set (cu_backupCodeHashes u)"
proof -
  let ?t = "challenged env c p u s" and ?h = "hashToken env (c_token c)" and ?given = "strip_separators g"
  let ?k = "\<lparr>ot_tokenHash = ?h, ot_userId = cu_id u, ot_projectId = p, ot_kind = MfaToken,
      ot_expiresAt = c_now c + 300000, ot_consumedAt = None, ot_createdAt = c_now c\<rparr>"
  let ?s = "snd (st_consumeToken (c_now c') p ?h ?t)"
  have k: "st_findToken (c_now c') p ?h MfaToken ?t = Some ?k"
    using assms(8) by (simp add: st_findToken_def challenged_def audit_log_def save_token_def st_saveToken_def)
  have take: "take_token env c' p (c_token c) MfaToken (AuthFail MFA_EXPIRED 401) ?t = (Inr ?k, ?s)"
    using k by (simp add: take_token_Inr)
  have "users ?s = users s" by (simp add: challenged_def audit_log_def save_token_def)
  then have f: "st_findUserById p (cu_id u) ?s = Some u" using u found_same by metis
  have e: "enrolled True (active_user (Some u)) = Some (u, secret)"
    using assms(4) totp by (simp add: enrolled_def active_user_def)
  have fin: "\<exists>y. fst (finish_sign_in env c' p u MfaVerified x) = Inr y" for x by (rule finish_works [OF assms(9)])
  have len: "length (filter (\<lambda>h. h \<noteq> v) hs) \<noteq> length hs \<longleftrightarrow> v \<in> set hs" for v :: string and hs
    using length_filter_less by (metis (mono_tags, lifting) filter_True order_less_irrefl)
  show ?thesis
    using fin f e
    by (auto simp: verifyMfa_def act_bind_def act_seq_def take update_user_def act_run_def act_some_def audit_log_def Let_def len
        split: sum.splits prod.splits)
qed

text \<open>
  C14. The password alone does not sign in a user with a second factor.  After any history such a sign-in opens no
  session: at best it verifies the password and returns a ticket.  Within the ticket's five minutes the ticket yields a
  session exactly for a code of the user's authenticator or one of the unused backup codes.
\<close>

theorem password_alone_is_not_enough:
  assumes "s = auth_run env before empty_auth" and "plain_requests before" and "plain_id p"
    and "st_findUserByEmail p (normal_email e) s = Some u"
    and "cu_totpEnabled u" and "cu_totpSecret u = Some secret" and "secret \<noteq> []"
    and "signIn env c p e w s = (r, t)"
    and "c_now c' < c_now c + 300000" and "32 \<le> length (ac_jwtSecret (ae_config env))"
  shows "sessions t = sessions s \<and> (case r of Inl _ \<Rightarrow> True | Inr (SignedIn _) \<Rightarrow> False
    | Inr (MfaRequired ticket _) \<Rightarrow> verifyPassword (ae_scrypt env) w (over_value (cu_passwordHash u) DUMMY_HASH) \<and>
        ((\<exists>y. fst (verifyMfa env c' p ticket g t) = Inr y) \<longleftrightarrow>
          check_totp env c' secret (strip_separators g) = Inr True \<or>
          check_totp env c' secret (strip_separators g) = Inr False \<and>
            ae_sha env (strip_separators g) \<in> set (cu_backupCodeHashes u)))"
proof -
  have g: "good s" unfolding assms(1) by (rule good_reachable [OF assms(2)])
  note cases = sign_in_cases [OF assms(4-7), where env = env and c = c and w = w, unfolded assms(8) fst_conv snd_conv]
  note mfa = mfa_works [OF g assms(3) found_by_email [OF g assms(4)] _ assms(5-7,9,10)]
  from cases mfa show ?thesis by (auto split: sum.splits sign_in_result.splits)
qed

text \<open>A user who enrolled and confirmed an authenticator whose codes are all zero.\<close>

definition totp_env :: auth_env where
  "totp_env = sample_env\<lparr>ae_hmac1 := \<lambda>_ _. replicate 20 0\<rparr>"

definition enroll_requests :: "auth_request list" where
  "enroll_requests = [sample_request 3600000 ''1'' ''p'' (SignUp ''a@b.c'' ''longpassword'' None),
     sample_request 3600000 ''2'' ''p'' (EnrollTotp ''u1'')]"

definition totp_requests :: "auth_request list" where
  "totp_requests = enroll_requests @ [sample_request 3600000 ''3'' ''p'' (ConfirmTotp ''u1'' ''000000'')]"

lemma zero_code: "check_totp totp_env (sample_call 3600000 x) ''AAAAAAAAAAAAAAAA'' ''000000'' = Inr True"
proof -
  have d: "decodeBase32 ''AAAAAAAAAAAAAAAA'' = Inr (replicate 10 0)" by code_simp
  have v: "hotp_value (replicate 20 0) = 0" by (simp add: hotp_value_def byte_at_def)
  have z: "dec 0 = ''0''" by code_simp
  have s: "strip_separators ''000000'' = ''000000''" by code_simp
  have g: "list_all is_digit ''000000''" by code_simp
  have r: "[- 1..1] = [- 1, 0, 1 :: int]" by code_simp
  have p: "replicate 5 (CHR ''0'') = ''00000''" by code_simp
  show ?thesis
    using g by (simp add: check_totp_def verifyTotp_def totp_env_def sample_call_def over_value_def d r s hotp_def v z pad_start_def Let_def p)
qed

lemma totp_user:
  obtains u where "st_findUserByEmail ''p'' ''a@b.c'' (auth_run totp_env totp_requests empty_auth) = Some u"
    and "cu_totpEnabled u" and "cu_totpSecret u = Some ''AAAAAAAAAAAAAAAA''" and "cu_status u = UserActive"
    and "cu_passwordHash u = Some ''scrypt:1:longpassword''" and "cu_isAnonymous u = False" and "cu_id u = ''u1''"
proof -
  let ?s = "auth_run totp_env enroll_requests empty_auth"
  have "map (\<lambda>(k, u). (k, cu_id u, cu_projectId u, cu_email u, cu_status u, cu_totpSecret u, cu_isAnonymous u, cu_passwordHash u)) (users ?s)
      = [(''p:u1'', ''u1'', ''p'', ''a@b.c'', UserActive, Some ''AAAAAAAAAAAAAAAA'', False, Some ''scrypt:1:longpassword'')]" by code_simp
  then obtain u where u: "users ?s = [(''p:u1'', u)]" "cu_id u = ''u1''" "cu_projectId u = ''p''" "cu_email u = ''a@b.c''" "cu_status u = UserActive"
      "cu_totpSecret u = Some ''AAAAAAAAAAAAAAAA''" "cu_isAnonymous u = False" "cu_passwordHash u = Some ''scrypt:1:longpassword''"
    by auto
  obtain codes hashes where b: "generateBackupCodes (ae_sha totp_env) (c_backup (sample_call 3600000 ''3'')) 10 = (codes, hashes)"
    by fastforce
  have run: "auth_run totp_env totp_requests empty_auth = auth_step totp_env (sample_request 3600000 ''3'' ''p'' (ConfirmTotp ''u1'' ''000000'')) ?s"
    by (simp add: totp_requests_def auth_run_def)
  have f: "st_findUserById ''p'' ''u1'' ?s = Some u" using u by (simp add: st_findUserById_def live_user_def keyed_def)
  have "users (auth_run totp_env totp_requests empty_auth) = [(''p:u1'', u\<lparr>cu_totpEnabled := True, cu_backupCodeHashes := hashes,
      cu_id := cu_id u, cu_projectId := cu_projectId u, cu_updatedAt := 3600000\<rparr>)]"
    unfolding run auth_step_def sample_request_def using u f b
    by (simp add: forget_def confirmTotp_def act_bind_def act_seq_def act_some_def act_require_def enrolled_def zero_code
        update_user_def act_run_def st_updateUser_def keyed_def Let_def) (simp add: sample_call_def)
  moreover have "to_lower ''a@b.c'' = ''a@b.c''" by code_simp
  ultimately show ?thesis using that u by (simp add: st_findUserByEmail_def user_at_def)
qed

theorem password_alone_is_not_enough_witness:
  "(let s = auth_run totp_env totp_requests empty_auth; (r, t) = signIn totp_env (sample_call 3600000 ''4'') ''p'' ''a@b.c'' ''longpassword'' s in
    r = Inr (MfaRequired ''t4'' ''u1'') \<and> sessions t = sessions s \<and>
    (\<exists>y. fst (verifyMfa totp_env (sample_call 3600000 ''5'') ''p'' ''t4'' ''000000'' t) = Inr y))"
proof -
  let ?s = "auth_run totp_env totp_requests empty_auth"
  let ?x = "signIn totp_env (sample_call 3600000 ''4'') ''p'' ''a@b.c'' ''longpassword'' ?s"
  have pr: "plain_requests totp_requests" and pi: "plain_id ''p''" by code_simp+
  from totp_user obtain u where u: "st_findUserByEmail ''p'' ''a@b.c'' ?s = Some u" "cu_totpEnabled u" "cu_totpSecret u = Some ''AAAAAAAAAAAAAAAA''"
      "cu_status u = UserActive" "cu_passwordHash u = Some ''scrypt:1:longpassword''" "cu_isAnonymous u = False" "cu_id u = ''u1''" by metis
  have e: "normal_email ''a@b.c'' = ''a@b.c''" by code_simp
  have f: "st_findUserByEmail ''p'' (normal_email ''a@b.c'') ?s = Some u" using u(1) by (simp only: e)
  have v: "verifyPassword (ae_scrypt totp_env) ''longpassword'' ''scrypt:1:longpassword''" by code_simp
  have r: "fst ?x = Inr (MfaRequired ''t4'' ''u1'')"
    using u v by (simp add: signIn_def act_bind_def act_seq_def e truthy_def save_token_def audit_log_def Let_def over_value_def) (simp add: sample_call_def)
  have len: "32 \<le> length (ac_jwtSecret (ae_config totp_env))" by (simp add: totp_env_def sample_env_def)
  have x: "?x = (Inr (MfaRequired ''t4'' ''u1''), snd ?x)" using r by (simp add: prod_eq_iff)
  have g: "strip_separators ''000000'' = ''000000''" by code_simp
  have now: "c_now (sample_call 3600000 ''5'') < c_now (sample_call 3600000 ''4'') + 300000" by (simp add: sample_call_def)
  from password_alone_is_not_enough [OF HOL.refl pr pi f u(2,3) _ x now len, of "''000000''"]
  show ?thesis using r zero_code by (simp add: Let_def case_prod_beta g)
qed

section \<open>Open sessions belong to active users\<close>

lemma finish_fit:
  assumes "plain_id p" and "\<And>s. fit s \<Longrightarrow> P s \<Longrightarrow> active_at s p (cu_id user)"
  shows "triple fit P (finish_sign_in env c p user ev) (\<lambda>_ _. True)"
  by (rule triple_weaken [OF finish_triple [OF assms(1)]]) (use assms(2) in auto)

lemma quiet_then: "plain_id p \<Longrightarrow> keeps (fit_kept p) m \<Longrightarrow> triple fit (\<lambda>_. True) k R \<Longrightarrow> triple fit (\<lambda>_. True) (act_seq m k) R"
  by (rule triple_seq) (rule fit_quiet)

lemma quiet_bind: "plain_id p \<Longrightarrow> keeps (fit_kept p) m \<Longrightarrow> (\<And>a. triple fit (\<lambda>_. True) (k a) R) \<Longrightarrow> triple fit (\<lambda>_. True) (act_bind m k) R"
  by (rule triple_bind) (rule fit_quiet)

text \<open>A user found active stays so through plain updates, up to the opening of the session.\<close>

lemma found_then:
  assumes "plain_id p" and "\<And>user. g found = Some user \<Longrightarrow> cu_status (h user) = UserActive \<and> found = Some (h user)"
    and "\<And>s u. fit s \<Longrightarrow> cu_status u = UserActive \<Longrightarrow> look s = Some u \<Longrightarrow> active_at s p (cu_id u)"
    and "\<And>user. triple fit (\<lambda>s. active_at s p (cu_id (h user))) (k user) R"
  shows "triple fit (\<lambda>s. True \<and> found = look s) (act_bind (act_some (g found) e) k) R"
proof (rule triple_bind [OF triple_some])
  fix user
  show "triple fit (\<lambda>s. (True \<and> found = look s) \<and> g found = Some user) (k user) R"
    by (rule triple_weaken [OF assms(4)]) (use assms(2,3) in auto)
qed

lemma usable_Some: "usable v = Some u \<longleftrightarrow> v = Some u \<and> cu_status u = UserActive \<and> \<not> cu_isAnonymous u"
  by (auto simp: usable_def split: option.splits if_splits)

lemma active_user_Some: "active_user v = Some u \<longleftrightarrow> v = Some u \<and> cu_status u = UserActive"
  by (auto simp: active_user_def split: option.splits if_splits)

lemma enrolled_Some: "enrolled b v = Some (u, x) \<Longrightarrow> v = Some u"
  by (auto simp: enrolled_def split: option.splits if_splits)

lemma update_then_finish:
  assumes "plain_id p" and "keeps (fit_kept p) m"
  shows "triple fit (\<lambda>s. active_at s p (cu_id user)) (act_seq m (finish_sign_in env c p user ev)) (\<lambda>_ _. True)"
  by (rule triple_seq [OF fit_active [OF assms]], rule finish_triple [OF assms(1)])

lemma find_then_finish:
  assumes p: "plain_id p" and "\<And>s u. fit s \<Longrightarrow> cu_status u = UserActive \<Longrightarrow> look s = Some u \<Longrightarrow> active_at s p (cu_id u)"
    and "\<And>user. keeps (fit_kept p) (m user)"
  shows "triple fit (\<lambda>_. True) (act_bind (act_asks look) (\<lambda>found. act_bind (act_some (usable found) e)
    (\<lambda>user. act_seq (m user) (finish_sign_in env c p user ev)))) (\<lambda>_ _. True)"
  by (rule triple_bind [OF triple_asks], rule found_then [where h = id, OF p])
    (use assms(2) update_then_finish [OF p assms(3)] in \<open>auto simp: usable_Some\<close>)

lemma opens_fit:
  assumes p: "plain_id p"
  shows "triple fit (\<lambda>_. True) (verifyEmailOtp env c p e g purpose) (\<lambda>_ _. True)"
    and "triple fit (\<lambda>_. True) (verifyLoginOtp env c p f g) (\<lambda>_ _. True)"
    and "triple fit (\<lambda>_. True) (consumeMagicLink env c p tok) (\<lambda>_ _. True)"
proof -
  note tail = find_then_finish [OF p] and find = find_active [OF _ p]
  show "triple fit (\<lambda>_. True) (verifyEmailOtp env c p e g purpose) (\<lambda>_ _. True)"
    unfolding verifyEmailOtp_def Let_def
    by (intro quiet_then [OF p] tail fit.k_rules; simp add: find plain_patch_def)
  show "triple fit (\<lambda>_. True) (verifyLoginOtp env c p f g) (\<lambda>_ _. True)"
    unfolding verifyLoginOtp_def Let_def
    by (intro quiet_then [OF p] tail fit.k_rules; simp add: find plain_patch_def)
  show "triple fit (\<lambda>_. True) (consumeMagicLink env c p tok) (\<lambda>_ _. True)"
    unfolding consumeMagicLink_def Let_def
    by (intro quiet_bind [OF p] tail fit.k_rules; simp add: find plain_patch_def)
qed

lemma mfa_fit:
  assumes p: "plain_id p"
  shows "triple fit (\<lambda>_. True) (verifyMfa env c p tok g) (\<lambda>_ _. True)"
  unfolding verifyMfa_def Let_def
proof (rule quiet_bind [OF p fit.k_take], rule triple_bind [OF triple_asks], rule found_then [where h = fst, OF p])
  fix user :: "customer_user \<times> string"
  show "cu_status (fst user) = UserActive \<and> found = Some (fst user)" if "enrolled True (active_user found) = Some user" for found
    using that enrolled_Some [of True "active_user found" "fst user" "snd user"] by (simp add: active_user_Some)
  show "active_at s p (cu_id u)" if "fit s" "cu_status u = UserActive" "st_findUserById p k s = Some u" for s u k
    using find_active(3) [OF that(1) p that(2,3)] .
  obtain u secret where user: "user = (u, secret)" by fastforce
  show "triple fit (\<lambda>s. active_at s p (cu_id (fst user))) (case user of (user, secret) \<Rightarrow>
      act_bind (act_lift (check_totp env c secret (strip_separators g))) (\<lambda>live.
      act_bind (if live then act_return True
        else if length (filter (\<lambda>h. h \<noteq> ae_sha env (strip_separators g)) (cu_backupCodeHashes user)) \<noteq> length (cu_backupCodeHashes user)
          then act_seq (update_user c p (cu_id user) (\<lambda>u. u\<lparr>cu_backupCodeHashes :=
            filter (\<lambda>h. h \<noteq> ae_sha env (strip_separators g)) (cu_backupCodeHashes user)\<rparr>)) (act_return True)
          else act_return False) (\<lambda>ok.
      if \<not> ok then act_seq (audit_log UserLoginFailed p (Some (cu_id user)) None) (act_throw (AuthFail MFA_INVALID 401))
      else finish_sign_in env c p user MfaVerified))) (\<lambda>_ _. True)"
    unfolding user split fst_conv
  proof (rule triple_bind, rule fit_active [OF p], rule fit.keeps_lift, rule triple_bind, rule fit_active [OF p])
    show "keeps (fit_kept p) (if live then act_return True
        else if length (filter (\<lambda>h. h \<noteq> ae_sha env (strip_separators g)) (cu_backupCodeHashes u)) \<noteq> length (cu_backupCodeHashes u)
          then act_seq (update_user c p (cu_id u) (\<lambda>x. x\<lparr>cu_backupCodeHashes :=
            filter (\<lambda>h. h \<noteq> ae_sha env (strip_separators g)) (cu_backupCodeHashes u)\<rparr>)) (act_return True)
          else act_return False)" for live
      by (intro fit.k_rules; simp add: plain_patch_def)
    show "triple fit (\<lambda>s. active_at s p (cu_id u)) (if \<not> ok then act_seq (audit_log UserLoginFailed p (Some (cu_id u)) None)
        (act_throw (AuthFail MFA_INVALID 401)) else finish_sign_in env c p u MfaVerified) (\<lambda>_ _. True)" for ok
      by (intro triple_if finish_triple p; rule fit_quiet [OF p], intro fit.k_rules)
  qed
qed

lemma sign_in_fit:
  assumes p: "plain_id p"
  shows "triple fit (\<lambda>_. True) (signIn env c p e w) (\<lambda>_ _. True)"
  unfolding signIn_def Let_def
proof (rule triple_bind [OF triple_asks])
  fix found
  show "triple fit (\<lambda>s. True \<and> found = st_findUserByEmail p (normal_email e) s) (case found of
       None \<Rightarrow> act_seq (audit_log UserLoginFailed p None None) (act_throw (AuthFail INVALID_CREDENTIALS 401))
     | Some user \<Rightarrow>
         if cu_isAnonymous user then
           act_seq (audit_log UserLoginFailed p (Some (cu_id user)) None) (act_throw (AuthFail ANONYMOUS_CONVERT_REQUIRED 403))
         else if \<not> verifyPassword (ae_scrypt env) w (case found of Some u \<Rightarrow> over_value (cu_passwordHash u) DUMMY_HASH | None \<Rightarrow> DUMMY_HASH) then
           act_seq (audit_log UserLoginFailed p None None) (act_throw (AuthFail INVALID_CREDENTIALS 401))
         else if cu_status user \<noteq> UserActive then
           act_seq (audit_log UserLoginFailed p (Some (cu_id user)) None) (act_throw (AuthFail USER_DISABLED 403))
         else if cu_totpEnabled user \<and> truthy (cu_totpSecret user) then
           act_seq (save_token env c p (cu_id user) MfaToken 300000)
          (act_seq (audit_log MfaChallenged p (Some (cu_id user)) None)
          (act_return (MfaRequired (c_token c) (cu_id user))))
         else act_bind (finish_sign_in env c p user UserLogin) (\<lambda>r. act_return (SignedIn r))) (\<lambda>_ _. True)"
  proof (cases found)
    case (Some user)
    have fin: "triple fit (\<lambda>s. True \<and> found = st_findUserByEmail p (normal_email e) s)
        (act_bind (finish_sign_in env c p user UserLogin) (\<lambda>r. act_return (SignedIn r))) (\<lambda>_ _. True)" if "cu_status user = UserActive"
      by (rule triple_bind, rule finish_fit [OF p], use Some find_active(1) [OF _ p that] in simp, rule fit_quiet [OF p fit.keeps_return])
    show ?thesis unfolding Some option.case
      by (intro triple_if; ((rule fin [unfolded Some], simp) | (rule fit_quiet [OF p], intro fit.k_rules)))
  qed (simp, intro fit_quiet [OF p] fit.k_rules)
qed

lemma anonymous_fit:
  assumes p: "plain_id p"
  shows "triple fit (\<lambda>_. True) (signInAnonymously env c p m) (\<lambda>_ _. True)"
  unfolding signInAnonymously_def
proof (rule quiet_bind [OF p fit.keeps_lift], rule triple_bind)
  fix metadata
  let ?new = "\<lparr>nu_projectId = p, nu_email = ''anon_'' @ take 12 (filter (\<lambda>x. x \<noteq> CHR ''-'') (c_anonUuid c)) @ ''@anonymous.local'',
    nu_passwordHash = None, nu_userMetadata = metadata, nu_isAnonymous = True, nu_phone = None\<rparr>"
  show "triple fit (\<lambda>_. True) (st_createUser (c_userUuid c) (c_now c) ?new) (\<lambda>user s. active_at s p (cu_id user))"
  proof (rule tripleI)
    fix s r s' assume s: "fit s" and m: "st_createUser (c_userUuid c) (c_now c) ?new s = (r, s')"
    have "fit_kept p s (snd (st_createUser (c_userUuid c) (c_now c) ?new s))" by (rule fit.r_create) simp
    from fit_keptD(1) [OF this p s] have "fit s'" unfolding m by simp
    moreover have "active_at s' p (cu_id a)" if "r = Inr a" for a
      using m that by (auto simp: st_createUser_def Let_def active_at_def split: if_splits)
    ultimately show "fit s' \<and> (\<forall>a. r = Inr a \<longrightarrow> active_at s' p (cu_id a))" by blast
  qed
  show "triple fit (\<lambda>s. active_at s p (cu_id user)) (act_bind (issueSession env c p user) (\<lambda>(sessionId, toks).
      act_seq (audit_log AnonymousCreated p (Some (cu_id user)) (Some sessionId))
        (act_return \<lparr>sg_user = exposeUser user, sg_tokens = toks, sg_sessionId = sessionId\<rparr>))) (\<lambda>_ _. True)" for user
    by (rule triple_bind [OF issue_triple [OF p]], rule fit_quiet [OF p]) (intro fit.k_rules)
qed

lemma passkey_fit:
  assumes p: "plain_id p"
  shows "triple fit (\<lambda>_. True) (finishPasskeyAuthentication env c p ar) (\<lambda>_ _. True)"
  unfolding finishPasskeyAuthentication_def
proof (rule quiet_bind [OF p], (intro fit.k_rules)[1], rule quiet_then [OF p fit.keeps_require],
    rule quiet_bind [OF p fit.keeps_asks], rule quiet_bind [OF p fit.keeps_some], rule quiet_bind [OF p], (intro fit.k_rules)[1],
    rule triple_bind [OF triple_asks], rule found_then [where h = id, OF p])
  fix result :: authentication_result and cred user
  show "triple fit (\<lambda>s. active_at s p (cu_id (id user))) (if ar_signCountSuspect result
      then act_seq (audit_log PasskeyCloneSuspected p (Some (cu_id user)) None) (act_throw (AuthFail PASSKEY_COUNTER_REGRESSED 401))
      else act_seq (act_modify (st_touchPasskey (c_now c) p (pk_credentialId cred) (ar_signCount result)))
        (act_bind (issueSession env c p user) (\<lambda>(sessionId, toks).
         act_seq (update_user c p (cu_id user) (\<lambda>u. u\<lparr>cu_lastSignInAt := Some (c_now c)\<rparr>))
        (act_seq (audit_log PasskeyAuthenticated p (Some (cu_id user)) None) (act_return (exposeUser user, toks)))))) (\<lambda>_ _. True)"
    unfolding id_apply
    by (intro triple_if fit_quiet [OF p] fit.k_rules triple_seq [OF fit_active [OF p]] triple_bind [OF issue_triple [OF p]])
      (simp add: plain_patch_def)
qed (auto simp: active_user_Some dest: find_active(3) [OF _ p])

text \<open>An administrator's update and a deletion end the sessions of the user they touch.\<close>

lemma ended_lively:
  assumes "fit s" and "plain_id p"
  shows "lively (snd (st_revokeUserSessions now p uid (s\<lparr>users := js_set (keyed p uid) v (users s)\<rparr>)))"
proof -
  let ?u = "s\<lparr>users := js_set (keyed p uid) v (users s)\<rparr>"
  have "open_ok ?u (if live_of p uid x then x\<lparr>cs_revokedAt := Some now\<rparr> else x)" if x: "x \<in> set (js_values (sessions s))" for x
  proof (cases "cs_revokedAt x = None \<and> \<not> live_of p uid x")
    case True
    have "plain_id (cs_projectId x)" and o: "open_ok s x"
      using assms(1) x by (auto simp: fit_def good_def plain_store_def lively_def values_all_def)
    then have "keyed (cs_projectId x) (cs_userId x) \<noteq> keyed p uid"
      using True keyed_split [OF assms(2)] by (metis live_of_def)
    with True o show ?thesis by (simp add: open_ok_def active_at_def)
  qed (auto simp: open_ok_def)
  then have "values_all (open_ok ?u) (map_vals (\<lambda>x. if live_of p uid x then x\<lparr>cs_revokedAt := Some now\<rparr> else x) (sessions s))"
    unfolding values_all_def map_vals_values set_map by blast
  moreover have "open_ok (snd (st_revokeUserSessions now p uid ?u)) = open_ok ?u" by (rule open_ok_same) simp
  ultimately show ?thesis by (simp add: lively_def) (simp add: st_revokeUserSessions_def)
qed

lemma audits_lively: "lively (s\<lparr>audits := a\<rparr>) = lively s"
proof -
  have "open_ok (s\<lparr>audits := a\<rparr>) = open_ok s" by (rule open_ok_same) simp
  then show ?thesis by (simp add: lively_def)
qed

lemma tokens_lively: "lively (st_deleteUserTokens p uid s) = lively s"
proof -
  have "open_ok (st_deleteUserTokens p uid s) = open_ok s" by (rule open_ok_same) simp
  then show ?thesis by (simp add: lively_def)
qed

lemma active_update_lively:
  assumes "lively s" and "\<And>u. cu_status u = UserActive \<Longrightarrow> cu_status (patch u) = UserActive"
  shows "lively (snd (st_updateUser now p uid patch s))"
proof -
  have "lively_kept s (snd (st_updateUser now p uid patch s))"
  proof (rule lively_users)
    show "active_at (snd (st_updateUser now p uid patch s)) q i" if "active_at s q i" for q i
      using that assms(2) found_user
      by (auto simp: st_updateUser_def Let_def active_at_def split: option.splits)
  qed simp
  with assms(1) show ?thesis by (simp add: lively_kept_def)
qed

lemma privileged_lively:
  assumes "fit s" and "plain_id p"
  shows "lively (snd (adminUpdateUser c p uid st m s))" and "lively (snd (deleteUser c p uid s))"
proof -
  have l: "lively s" using assms(1) by (simp add: fit_def)
  note end_admin = ended_lively [OF assms]
  show "lively (snd (deleteUser c p uid s))"
    using l end_admin
    by (auto simp: deleteUser_def act_bind_def act_seq_def act_run_def act_require_def st_deleteUser_def audit_log_def
        audits_lively tokens_lively case_prod_beta split: option.split)
  let ?f = "\<lambda>n k u. u\<lparr>cu_status := over_value n (cu_status u), cu_appMetadata := over_value k (cu_appMetadata u)\<rparr>"
  have quiet: "lively (snd (st_updateUser now p uid (?f n k) s))" if "n \<noteq> Some UserDisabled" "n \<noteq> Some UserDeleted" for n k now
    by (rule active_update_lively [OF l]) (use that in \<open>cases n; auto simp: over_value_def; metis customer_status.exhaust\<close>)
  have ends: "lively (snd (st_revokeUserSessions now' p uid (snd (st_updateUser now p uid f s))))"
      if "fst (st_updateUser now p uid f s) = Some u" for now f u now'
    using end_admin that by (auto simp: st_updateUser_def Let_def split: option.splits)
  have none: "fst (st_updateUser now p uid f s) = None \<Longrightarrow> snd (st_updateUser now p uid f s) = s" for now f
    by (auto simp: st_updateUser_def Let_def split: option.splits)
  have tail: "lively (snd (act_bind (update_user c p uid (?f n k)) (\<lambda>updated.
     act_bind (act_some updated (AuthFail USER_NOT_FOUND 404)) (\<lambda>u.
     act_seq (act_when (n = Some UserDisabled)
       (act_seq (act_run (st_revokeUserSessions (c_now c) p uid))
         (audit_log AccountDisabled p (Some uid) None)))
     (act_return (exposeUser u)))) s))" if "n \<noteq> Some UserDeleted" for n k
  proof (cases "fst (st_updateUser (c_now c) p uid (?f n k) s)")
    case None
    then show ?thesis using none [OF None] l by (simp add: act_bind_def update_user_def act_run_def case_prod_beta act_some_def)
  next
    case (Some u)
    then show ?thesis using quiet [of n "c_now c" k] ends [OF Some] that
      by (cases "n = Some UserDisabled")
        (simp_all add: act_bind_def act_seq_def update_user_def act_run_def case_prod_beta act_some_def act_when_def
          audit_log_def audits_lively del: split_paired_All)
  qed
  have status: "status_of x \<noteq> Some UserDeleted" for x by (simp add: status_of_def)
  show "lively (snd (adminUpdateUser c p uid st m s))"
  proof -
    have "triple lively (\<lambda>t. t = s) (adminUpdateUser c p uid st m) (\<lambda>_ _. True)"
      unfolding adminUpdateUser_def
    proof (rule triple_bind, rule_tac [2] triple_bind, rule_tac [2] triple_lift)
      show "triple lively (\<lambda>t. t = s) (case st of None \<Rightarrow> act_return None
         | Some t \<Rightarrow> act_bind (act_some (status_of t) (AuthFail INVALID_STATUS 400)) (\<lambda>st. act_return (Some st)))
           (\<lambda>n t. t = s \<and> n \<noteq> Some UserDeleted)"
        using status by (auto simp: triple_def act_bind_def act_some_def split: option.split)
    qed (use tail in \<open>simp add: triple_def\<close>)
    with l show ?thesis by (simp add: triple_def)
  qed
qed

lemma fit_step:
  assumes "fit s" and "plain_id (rq_projectId r)"
  shows "fit (auth_step env r s)"
proof -
  let ?c = "rq_call r" and ?p = "rq_projectId r"
  have good: "good (auth_step env r s)" using good_step assms by (simp add: fit_def)
  show ?thesis
  proof (cases "privileged (rq_op r)")
    case True
    then have "lively (auth_step env r s)"
      using privileged_lively [OF assms] unfolding auth_step_def
      by (cases "rq_op r") (auto simp: forget_def act_bind_def case_prod_beta split: sum.split)
    with good show ?thesis by (simp add: fit_def)
  next
    case False
    have "triple fit (\<lambda>_. True) (perform env ?c ?p (rq_op r)) (\<lambda>_ _. True)"
    proof (cases "opens_session (rq_op r)")
      case True
      then show ?thesis
        by (cases "rq_op r") (simp_all add: triple_forget sign_in_fit anonymous_fit opens_fit mfa_fit passkey_fit assms(2))
    next
      case no: False
      show ?thesis by (rule fit_quiet [OF assms(2) fit.k_quiet [OF False no]])
    qed
    then show ?thesis using assms(1) by (simp add: triple_def auth_step_def)
  qed
qed

lemma fit_reachable:
  assumes "plain_requests rs"
  shows "fit (auth_run env rs empty_auth)"
proof -
  have "fit s \<Longrightarrow> plain_requests rs \<Longrightarrow> fit (auth_run env rs s)" for s
    by (induction rs arbitrary: s) (auto simp: auth_run_def plain_requests_def fit_step)
  moreover have "fit empty_auth" using good_reachable [of "[]" undefined]
    by (simp add: fit_def auth_run_def plain_requests_def) (simp add: lively_def values_all_def empty_auth_def)
  ultimately show ?thesis using assms by blast
qed

text \<open>
  C12. Whoever holds a live session is an active user.  After any history of requests, a session that the service
  accepts as live, or lists as open, belongs to a user who exists and is active: disabling or deleting an account
  leaves it no session, and no later request, with whatever credential, code, link or passkey, opens one.
\<close>

theorem live_session_has_active_user:
  assumes "s = auth_run env rs empty_auth" and "plain_requests rs" and "plain_id p"
    and "requireLiveSession c p sid s = (Inr x, t)"
  shows "\<exists>u. st_findUserById p (cs_userId x) s = Some u \<and> cu_status u = UserActive"
proof -
  have f: "fit s" unfolding assms(1) by (rule fit_reachable [OF assms(2)])
  from assms(4) have x: "js_get (sessions s) (keyed p sid) = Some x" and r: "cs_revokedAt x = None"
    by (auto simp: requireLiveSession_def act_Inr st_findSession_def dead_def split: option.splits if_splits)
  have "table_ok session_key (sessions s)" using f by (simp add: fit_def good_def well_keyed_def)
  from table_ok_get [OF this x] have k: "keyed (cs_projectId x) (cs_id x) = keyed p sid" by (simp add: session_key_def)
  have "plain_id (cs_projectId x)" using plain_found(2) [OF _ x] f by (simp add: fit_def good_def)
  with keyed_split [OF assms(3) k [symmetric]] have "cs_projectId x = p" by simp
  moreover have "open_ok s x" using f values_all_get [of "open_ok s", OF _ x] by (simp add: fit_def lively_def)
  ultimately show ?thesis using r
    by (auto simp: open_ok_def active_at_def st_findUserById_def live_user_def split: option.splits)
qed

theorem live_session_has_active_user_witness:
  "(let s = auth_run sample_env signed_in_requests empty_auth;
        t = auth_run sample_env (signed_in_requests @ [sample_request 3000 ''3'' ''p'' (AdminUpdateUser ''u1'' (Some ''disabled'') None)]) empty_auth in
    (\<exists>u. st_findUserById ''p'' ''u1'' s = Some u \<and> cu_status u = UserActive) \<and>
    fst (requireLiveSession (sample_call 4000 ''4'') ''p'' ''s2'' t) = Inl (AuthFail SESSION_REVOKED 401))"
proof -
  let ?s = "auth_run sample_env signed_in_requests empty_auth"
  have pr: "plain_requests signed_in_requests" and pi: "plain_id ''p''" by code_simp+
  have "(case fst (requireLiveSession (sample_call 3000 ''3'') ''p'' ''s2'' ?s) of Inr x \<Rightarrow> cs_userId x = ''u1'' | Inl _ \<Rightarrow> False)" by code_simp
  then obtain x t where x: "requireLiveSession (sample_call 3000 ''3'') ''p'' ''s2'' ?s = (Inr x, t)" "cs_userId x = ''u1''"
    by (auto split: sum.splits) (metis prod.collapse)
  have d: "fst (requireLiveSession (sample_call 4000 ''4'') ''p'' ''s2'' (auth_run sample_env (signed_in_requests @
      [sample_request 3000 ''3'' ''p'' (AdminUpdateUser ''u1'' (Some ''disabled'') None)]) empty_auth)) = Inl (AuthFail SESSION_REVOKED 401)"
    by code_simp
  from live_session_has_active_user [OF HOL.refl pr pi x(1)] x(2) d show ?thesis by (simp add: Let_def)
qed

end
