(* ===== verification/StorageRules.thy ===== *)
theory StorageRules
  imports Rbac Json WebAuthn
begin

text \<open>
  The pure parts of object storage (\<open>packages/storage/src\<close>): the types (\<open>types.ts\<close>), names and paths
  (\<open>validation.ts\<close>), who may do what (\<open>policies.ts\<close>) and content types (\<open>mime.ts\<close>).  Sizes and limits are
  integers; a text is ASCII.
\<close>

section \<open>Types (types.ts)\<close>

datatype bucket_visibility = PublicBucket | PrivateBucket

record bucket =
  bk_id :: string
  bk_organizationId :: string
  bk_projectId :: string
  bk_name :: string
  bk_visibility :: bucket_visibility
  bk_fileSizeLimit :: "int option"
  bk_allowedMimeTypes :: "string list"
  bk_ownerIsolation :: bool
  bk_createdAt :: instant
  bk_updatedAt :: instant

text \<open>
  A content type is a text, except where an object literal is indexed with a name it inherits from
  \<open>Object.prototype\<close>: then it is the inherited value.
\<close>

datatype js_mime = MimeText string | MimeInherited string

record stored_object =
  ob_id :: string
  ob_organizationId :: string
  ob_projectId :: string
  ob_bucketId :: string
  ob_bucket :: string
  ob_path :: string
  ob_filename :: string
  ob_mimeType :: js_mime
  ob_size :: int
  ob_etag :: string
  ob_storageKey :: string
  ob_metadata :: "(string, json) jsmap"
  ob_createdAt :: instant
  ob_updatedAt :: instant

record exposed_object =
  eo_id :: string
  eo_bucket :: string
  eo_path :: string
  eo_filename :: string
  eo_mimeType :: js_mime
  eo_size :: int
  eo_etag :: string
  eo_metadata :: "(string, json) jsmap"
  eo_createdAt :: instant
  eo_updatedAt :: instant

definition exposeObject :: "stored_object \<Rightarrow> exposed_object" where
  "exposeObject ob =
     \<lparr>eo_id = ob_id ob, eo_bucket = ob_bucket ob, eo_path = ob_path ob, eo_filename = ob_filename ob,
      eo_mimeType = ob_mimeType ob, eo_size = ob_size ob, eo_etag = ob_etag ob, eo_metadata = ob_metadata ob,
      eo_createdAt = ob_createdAt ob, eo_updatedAt = ob_updatedAt ob\<rparr>"

datatype storage_caller_kind = SessionCaller | KeyCaller | CustomerCaller | AnonymousCaller

record storage_caller =
  ca_kind :: storage_caller_kind
  ca_userId :: "string option"
  ca_role :: string
  ca_projectId :: string
  ca_organizationId :: string
  ca_agent :: "(string \<times> string) option"

datatype storage_op =
    BucketCreate | BucketRead | BucketDelete | BucketUpdate | ObjectUpload | ObjectDownload | ObjectDelete
  | ObjectMove | ObjectCopy | ObjectList | ObjectSign

definition storage_op_text :: "storage_op \<Rightarrow> string" where
  "storage_op_text p = (case p of BucketCreate \<Rightarrow> ''bucket:create'' | BucketRead \<Rightarrow> ''bucket:read''
     | BucketDelete \<Rightarrow> ''bucket:delete'' | BucketUpdate \<Rightarrow> ''bucket:update'' | ObjectUpload \<Rightarrow> ''object:upload''
     | ObjectDownload \<Rightarrow> ''object:download'' | ObjectDelete \<Rightarrow> ''object:delete'' | ObjectMove \<Rightarrow> ''object:move''
     | ObjectCopy \<Rightarrow> ''object:copy'' | ObjectList \<Rightarrow> ''object:list'' | ObjectSign \<Rightarrow> ''object:sign'')"

datatype storage_event =
    BucketCreated | BucketDeleted | BucketUpdated | FileUploaded | FileDeleted | FileUpdated | FileMoved | FileCopied
  | FilePartUploaded | FileUploadAborted

text \<open>\<open>StorageFail code status\<close> is a \<open>StorageError\<close>; \<open>StoragePlain\<close> is any other exception.\<close>

datatype storage_code =
    SE_INVALID_BUCKET | SE_INVALID_PATH | SE_INVALID_FILENAME | SE_INVALID_KEY | SE_TENANT_FORBIDDEN | SE_NOT_FOUND
  | SE_FORBIDDEN | SE_CONFLICT | SE_LIMIT_EXCEEDED | SE_INVALID_LIMIT | SE_INVALID_MIME | SE_BUCKET_NOT_EMPTY
  | SE_MIME_REJECTED | SE_MIME_NOT_ALLOWED | SE_QUOTA_EXCEEDED | SE_FILE_TOO_LARGE | SE_VALIDATION_ERROR
  | SE_UPLOAD_EXPIRED | SE_INVALID_PAGINATION | SE_INVALID_TTL | SE_INVALID_SIGNATURE | SE_TOKEN_EXPIRED
  | SE_WEAK_SECRET

datatype storage_error = StorageFail storage_code nat | StoragePlain

type_synonym 'a storage_result = "storage_error + 'a"

section \<open>Names and paths (validation.ts)\<close>

definition bucket_char :: "char \<Rightarrow> bool" where
  "bucket_char c \<longleftrightarrow> is_lower c \<or> is_digit c \<or> c = CHR ''-''"

definition bucket_ok :: "string \<Rightarrow> bool" where
  "bucket_ok s \<longleftrightarrow> 3 \<le> length s \<and> length s \<le> 63 \<and> list_all bucket_char s \<and> hd s \<noteq> CHR ''-'' \<and> last s \<noteq> CHR ''-''"

definition segment_char :: "char \<Rightarrow> bool" where
  "segment_char c \<longleftrightarrow> is_alnum c \<or> c \<in> set ''._~()-''"

definition segment_ok :: "string \<Rightarrow> bool" where
  "segment_ok s \<longleftrightarrow> s \<noteq> [] \<and> length s \<le> 128 \<and> is_alnum (hd s) \<and> list_all segment_char s"

definition assertBucketName :: "string \<Rightarrow> string storage_result" where
  "assertBucketName name = (if \<not> bucket_ok name then Inl (StorageFail SE_INVALID_BUCKET 400) else Inr name)"

definition path_error :: "storage_error" where
  "path_error = StorageFail SE_INVALID_PATH 400"

definition slashes :: "string \<Rightarrow> string" where
  "slashes s = map (\<lambda>c. if c = CHR 0x5C then CHR ''/'' else c) s"

fun path_parts :: "string list \<Rightarrow> string list storage_result" where
  "path_parts [] = Inr []"
| "path_parts (part # parts) =
     (if part = '''' \<or> part = ''.'' then path_parts parts
      else if part = ''..'' then Inl path_error
      else if \<not> segment_ok part \<or> length part > 128 then Inl path_error
      else and_then (path_parts parts) (\<lambda>rest. Inr (part # rest)))"

definition assertObjectPath :: "string \<Rightarrow> string storage_result" where
  "assertObjectPath raw =
     (if raw = [] \<or> length raw > 1024 then Inl path_error
      else if CHR 0x00 \<in> set raw then Inl path_error
      else if starts_with raw ''/'' \<or> starts_with raw [CHR 0x5C] then Inl path_error
      else if (is_lower (hd raw) \<or> is_upper (hd raw)) \<and> starts_with (tl raw) '':'' then Inl path_error
      else and_then (path_parts (split_on (CHR ''/'') (slashes raw))) (\<lambda>parts.
        if parts = [] \<or> length parts > 32 then Inl path_error
        else let joined = join ''/'' parts in
          if length joined > 1024 then Inl path_error else Inr joined))"

definition after_last :: "char \<Rightarrow> string \<Rightarrow> string" where
  "after_last c s = rev (takeWhile (\<lambda>x. x \<noteq> c) (rev s))"

definition fileNameOf :: "string \<Rightarrow> string" where
  "fileNameOf path = after_last (CHR ''/'') path"

definition assertFileName :: "string \<Rightarrow> string storage_result" where
  "assertFileName name =
     (if name = [] \<or> length name > 255 then Inl (StorageFail SE_INVALID_FILENAME 400)
      else if CHR 0x00 \<in> set name \<or> CHR ''/'' \<in> set name \<or> CHR 0x5C \<in> set name
      then Inl (StorageFail SE_INVALID_FILENAME 400)
      else if name = ''.'' \<or> name = ''..'' then Inl (StorageFail SE_INVALID_FILENAME 400) else Inr name)"

definition scope_char :: "char \<Rightarrow> bool" where
  "scope_char c \<longleftrightarrow> is_digit c \<or> lower_char c \<in> set ''abcdef'' \<or> c = CHR ''-''"

definition scope_ok :: "string \<Rightarrow> bool" where
  "scope_ok p \<longleftrightarrow> length p = 36 \<and> list_all scope_char p"

definition storageKeyFor :: "string \<Rightarrow> string \<Rightarrow> string \<Rightarrow> string storage_result" where
  "storageKeyFor projectId name path =
     (if \<not> scope_ok projectId then Inl path_error
      else and_then (assertObjectPath path) (\<lambda>p. Inr (''p_'' @ projectId @ ''/b_'' @ name @ ''/'' @ p)))"

section \<open>Authorization (policies.ts)\<close>

definition read_op :: "storage_op \<Rightarrow> bool" where
  "read_op p \<longleftrightarrow> p = ObjectDownload \<or> p = ObjectList \<or> p = ObjectSign"

definition authorize :: "bucket \<Rightarrow> storage_caller \<Rightarrow> storage_op \<Rightarrow> string option \<Rightarrow> bool" where
  "authorize bk ca p path =
     (if ca_kind ca = AnonymousCaller then
        p = ObjectDownload \<and> bk_visibility bk = PublicBucket \<and> path \<noteq> None \<and> path \<noteq> Some ''''
      else if ca_kind ca = SessionCaller then
        (if ca_role ca = ''owner'' \<or> ca_role ca = ''admin'' then True
         else if starts_with (storage_op_text p) ''bucket:'' then p = BucketRead
         else if ca_role ca = ''viewer'' then read_op p
         else True)
      else if ca_kind ca = KeyCaller then
        (if starts_with (storage_op_text p) ''bucket:'' then False
         else if ca_role ca = ''public'' then read_op p
         else True)
      else if \<not> bk_ownerIsolation bk \<or> ca_role ca = ''admin'' then True
      else case path of None \<Rightarrow> False
        | Some q \<Rightarrow> if q = '''' then False
            else (case ca_userId ca of None \<Rightarrow> False
              | Some u \<Rightarrow> if u = '''' then False else q = u \<or> starts_with q (u @ ''/'')))"

definition ownerPrefix :: "string option \<Rightarrow> string option" where
  "ownerPrefix userId = (case userId of None \<Rightarrow> None | Some u \<Rightarrow> if u = '''' then None else Some (u @ ''/''))"

section \<open>Content types (mime.ts)\<close>

record mime_signature =
  ms_mime :: string
  ms_offset :: nat
  ms_bytes :: "byte list"

definition SIGNATURES :: "mime_signature list" where
  "SIGNATURES =
    [\<lparr>ms_mime = ''image/png'', ms_offset = 0, ms_bytes = [0x89, 0x50, 0x4e, 0x47, 0x0d, 0x0a, 0x1a, 0x0a]\<rparr>,
     \<lparr>ms_mime = ''image/jpeg'', ms_offset = 0, ms_bytes = [0xff, 0xd8, 0xff]\<rparr>,
     \<lparr>ms_mime = ''image/gif'', ms_offset = 0, ms_bytes = [0x47, 0x49, 0x46, 0x38]\<rparr>,
     \<lparr>ms_mime = ''image/webp'', ms_offset = 8, ms_bytes = [0x57, 0x45, 0x42, 0x50]\<rparr>,
     \<lparr>ms_mime = ''image/bmp'', ms_offset = 0, ms_bytes = [0x42, 0x4d]\<rparr>,
     \<lparr>ms_mime = ''image/avif'', ms_offset = 4, ms_bytes = [0x66, 0x74, 0x79, 0x70, 0x61, 0x76, 0x69, 0x66]\<rparr>,
     \<lparr>ms_mime = ''application/pdf'', ms_offset = 0, ms_bytes = [0x25, 0x50, 0x44, 0x46]\<rparr>,
     \<lparr>ms_mime = ''application/zip'', ms_offset = 0, ms_bytes = [0x50, 0x4b, 0x03, 0x04]\<rparr>,
     \<lparr>ms_mime = ''application/gzip'', ms_offset = 0, ms_bytes = [0x1f, 0x8b]\<rparr>,
     \<lparr>ms_mime = ''video/mp4'', ms_offset = 4, ms_bytes = [0x66, 0x74, 0x79, 0x70]\<rparr>,
     \<lparr>ms_mime = ''audio/mpeg'', ms_offset = 0, ms_bytes = [0x49, 0x44, 0x33]\<rparr>,
     \<lparr>ms_mime = ''audio/mpeg'', ms_offset = 0, ms_bytes = [0xff, 0xfb]\<rparr>]"

definition EXECUTABLE_MIMES :: "string list" where
  "EXECUTABLE_MIMES =
     [''application/x-msdownload'', ''application/x-sh'', ''application/x-executable'',
      ''application/x-mach-binary'']"

definition EXTENSION_MAP :: "(string \<times> string) list" where
  "EXTENSION_MAP =
     [(''png'', ''image/png''), (''jpg'', ''image/jpeg''), (''jpeg'', ''image/jpeg''), (''gif'', ''image/gif''),
      (''webp'', ''image/webp''), (''bmp'', ''image/bmp''), (''avif'', ''image/avif''), (''pdf'', ''application/pdf''),
      (''zip'', ''application/zip''), (''gz'', ''application/gzip''), (''mp4'', ''video/mp4''),
      (''mov'', ''video/quicktime''), (''mp3'', ''audio/mpeg''), (''wav'', ''audio/wav''),
      (''json'', ''application/json''), (''txt'', ''text/plain''), (''md'', ''text/markdown''), (''csv'', ''text/csv''),
      (''html'', ''text/html''), (''svg'', ''image/svg+xml''), (''css'', ''text/css''), (''js'', ''text/javascript'')]"

definition extension_mime :: "string \<Rightarrow> js_mime option" where
  "extension_mime ext = (case map_of EXTENSION_MAP ext of Some m \<Rightarrow> Some (MimeText m)
     | None \<Rightarrow> if ext \<in> set object_prototype then Some (MimeInherited ext) else None)"

definition signature_matches :: "byte list \<Rightarrow> mime_signature \<Rightarrow> bool" where
  "signature_matches bytes sig =
     (if length bytes < ms_offset sig + length (ms_bytes sig) then False
      else list_all2 (=) (ms_bytes sig) (take (length (ms_bytes sig)) (drop (ms_offset sig) bytes)))"

definition sniffMime :: "byte list \<Rightarrow> string option" where
  "sniffMime sample = map_option ms_mime (find (signature_matches sample) SIGNATURES)"

definition suspicious :: "byte \<Rightarrow> bool" where
  "suspicious b \<longleftrightarrow> b < 9 \<or> (b > 13 \<and> b < 32 \<and> b \<noteq> 27)"

text \<open>\<open>suspicious / n < 0.05\<close>; no quotient of two numbers up to 4096 rounds across the bound.\<close>

definition isTextual :: "byte list \<Rightarrow> bool" where
  "isTextual bytes =
     (let head = take 4096 bytes; n = length head in
      if n = 0 then True
      else if 0 \<in> set head then False
      else 20 * length (filter suspicious head) < n)"

record mime_result =
  mr_mime :: js_mime
  mr_sniffed :: "string option"
  mr_spoofed :: bool

definition clean_mime :: "string option \<Rightarrow> string" where
  "clean_mime provided =
     to_lower (js_trim (hd (split_on (CHR '';'') (case provided of Some p \<Rightarrow> p | None \<Rightarrow> ''''))))"

definition resolveMime :: "string option \<Rightarrow> string \<Rightarrow> byte list \<Rightarrow> mime_result storage_result" where
  "resolveMime provided filename sample =
     (let clean = clean_mime provided;
          ext = to_lower (after_last (CHR ''.'') filename);
          sniffed = sniffMime sample;
          fromExt = extension_mime ext in
      if clean \<in> set EXECUTABLE_MIMES then Inl StoragePlain
      else if sniffed = None \<and> \<not> isTextual sample \<and> (starts_with clean ''image/'' \<or> starts_with clean ''text/'')
      then Inl StoragePlain
      else case sniffed of
        Some m \<Rightarrow>
          if clean \<noteq> '''' \<and> clean \<noteq> m \<and> clean \<noteq> ''application/octet-stream''
          then if m \<in> set EXECUTABLE_MIMES then Inl StoragePlain
               else Inr \<lparr>mr_mime = MimeText m, mr_sniffed = sniffed, mr_spoofed = True\<rparr>
          else Inr \<lparr>mr_mime = MimeText m, mr_sniffed = sniffed, mr_spoofed = False\<rparr>
      | None \<Rightarrow> Inr \<lparr>mr_mime = (if clean \<noteq> '''' then MimeText clean
          else case fromExt of Some m \<Rightarrow> m | None \<Rightarrow> MimeText ''application/octet-stream''),
          mr_sniffed = sniffed, mr_spoofed = False\<rparr>)"

definition SAFE_INLINE :: "string list" where
  "SAFE_INLINE =
     [''image/png'', ''image/jpeg'', ''image/gif'', ''image/webp'', ''image/bmp'', ''image/avif'',
      ''application/pdf'', ''text/plain'', ''text/markdown'', ''text/csv'', ''application/json'']"

definition dispositionFor :: "js_mime \<Rightarrow> string \<Rightarrow> string" where
  "dispositionFor mime filename =
     (let safe = map (\<lambda>c. if c = CHR 0x22 \<or> c = CHR 0x0D \<or> c = CHR 0x0A then CHR ''_'' else c) filename;
          inline = (case mime of MimeText m \<Rightarrow> m \<in> set SAFE_INLINE | MimeInherited _ \<Rightarrow> False) in
      (if inline then ''inline; filename='' else ''attachment; filename='') @ [CHR 0x22] @ safe @ [CHR 0x22])"

section \<open>What a validated path is\<close>

lemma bucket_char_no_slash: "bucket_char c \<Longrightarrow> c \<noteq> CHR ''/'' \<and> segment_char c"
  by (auto simp: bucket_char_def segment_char_def is_lower_def is_digit_def is_alnum_def code_def)

lemma bucket_ok_no_slash: "bucket_ok s \<Longrightarrow> CHR ''/'' \<notin> set s"
  using bucket_char_no_slash by (auto simp: bucket_ok_def list_all_iff)

lemma segment_char_facts: "segment_char c \<Longrightarrow> c \<noteq> CHR ''/'' \<and> c \<noteq> CHR 0x5C \<and> c \<noteq> CHR 0x00 \<and> c \<noteq> CHR '':''"
  by (auto simp: segment_char_def is_alnum_def is_lower_def is_upper_def is_digit_def code_def)

lemma segment_ok_chars: "segment_ok s \<Longrightarrow> c \<in> set s \<Longrightarrow> segment_char c"
  by (simp add: segment_ok_def list_all_iff)

lemma segment_ok_nonempty: "segment_ok s \<Longrightarrow> s \<noteq> []"
  by (simp add: segment_ok_def)

lemma segment_ok_not_dots: "segment_ok s \<Longrightarrow> s \<noteq> ''.'' \<and> s \<noteq> ''..''"
  by (auto simp: segment_ok_def is_alnum_def is_lower_def is_upper_def is_digit_def code_def)

lemma segment_ok_no_slash: "segment_ok s \<Longrightarrow> CHR ''/'' \<notin> set s"
  using segment_ok_chars segment_char_facts by blast

lemma scope_char_segment: "scope_char c \<Longrightarrow> segment_char c"
proof -
  assume "scope_char c"
  then consider "is_digit c \<or> c = CHR ''-''" | "lower_char c \<in> set ''abcdef''" by (auto simp: scope_char_def)
  then show ?thesis
  proof cases
    case 2
    then have "is_lower (lower_char c)" by (auto simp: is_lower_def code_def)
    then show ?thesis by (auto simp: lower_char_def segment_char_def is_alnum_def split: if_splits)
  qed (auto simp: segment_char_def is_alnum_def)
qed

lemma scope_ok_no_slash: "scope_ok p \<Longrightarrow> CHR ''/'' \<notin> set p"
  using scope_char_segment segment_char_facts by (auto simp: scope_ok_def list_all_iff)

lemma path_parts_segments: "path_parts ws = Inr ps \<Longrightarrow> list_all segment_ok ps"
  by (induction ws arbitrary: ps) (auto simp: and_then_Inr split: if_splits)

lemma path_parts_id: "list_all segment_ok ps \<Longrightarrow> path_parts ps = Inr ps"
  using segment_ok_not_dots by (induction ps) (auto simp: segment_ok_def)

lemma split_join_segments: "ps \<noteq> [] \<Longrightarrow> list_all segment_ok ps \<Longrightarrow> split_on (CHR ''/'') (join ''/'' ps) = ps"
  using segment_ok_no_slash by (intro split_join) (auto simp: list_all_iff)

lemma join_set: "set (join sep ws) \<subseteq> \<Union> (set ` set ws) \<union> set sep"
  by (induction sep ws rule: join.induct) auto

text \<open>Paths in normal form: segments, none of them empty, \<open>.\<close> or \<open>..\<close>, joined by single slashes.\<close>

definition normal_path :: "string \<Rightarrow> bool" where
  "normal_path p \<longleftrightarrow> length p \<le> 1024 \<and> length (split_on (CHR ''/'') p) \<le> 32 \<and>
     list_all segment_ok (split_on (CHR ''/'') p)"

lemma normal_path_chars: "normal_path p \<Longrightarrow> c \<in> set p \<Longrightarrow> segment_char c \<or> c = CHR ''/''"
proof -
  assume n: "normal_path p" and c: "c \<in> set p"
  have "c \<in> set (join ''/'' (split_on (CHR ''/'') p))" using c by (simp add: join_split)
  then obtain w where "w \<in> set (split_on (CHR ''/'') p) \<and> c \<in> set w \<or> c = CHR ''/''"
    using join_set [of "''/''" "split_on (CHR ''/'') p"] by auto
  then show ?thesis using n segment_ok_chars by (auto simp: normal_path_def list_all_iff)
qed

lemma normal_path_nonempty: "normal_path p \<Longrightarrow> p \<noteq> []"
  by (auto simp: normal_path_def segment_ok_def)

lemma assertObjectPath_normal: "assertObjectPath raw = Inr p \<Longrightarrow> normal_path p"
  by (auto simp: assertObjectPath_def and_then_Inr normal_path_def split_join_segments path_parts_segments Let_def
      split: if_splits)

lemma slashes_id: "CHR 0x5C \<notin> set p \<Longrightarrow> slashes p = p"
  unfolding slashes_def by (rule map_idI) auto

lemma normal_path_id: "normal_path p \<Longrightarrow> assertObjectPath p = Inr p"
proof -
  assume n: "normal_path p"
  let ?ps = "split_on (CHR ''/'') p"
  from n have ps: "path_parts ?ps = Inr ?ps" by (simp add: normal_path_def path_parts_id)
  have ch: "CHR 0x5C \<notin> set p" "CHR 0x00 \<notin> set p" "CHR '':'' \<notin> set p"
    using normal_path_chars [OF n] segment_char_facts by blast+
  obtain w ws where w: "?ps = w # ws" "segment_ok w" using n by (cases ?ps) (auto simp: normal_path_def)
  have ne: "p \<noteq> []" using n by (rule normal_path_nonempty)
  have "join ''/'' ?ps = p" by (rule join_split)
  then have "hd p = hd w" using w segment_ok_nonempty [of w] by (cases ws) auto
  then have hd: "hd p \<noteq> CHR ''/''" "hd p \<noteq> CHR 0x5C"
    using segment_ok_chars [OF w(2), of "hd w"] segment_char_facts segment_ok_nonempty [OF w(2)] by force+
  have "\<not> starts_with (tl p) '':''" using ch(3) ne by (cases p) (auto simp: starts_with_iff)
  moreover have "\<not> starts_with p ''/''" "\<not> starts_with p [CHR 0x5C]" using hd by (auto simp: starts_with_iff)
  ultimately show ?thesis
    using n ne ch ps by (simp add: assertObjectPath_def slashes_id normal_path_def join_split)
qed

lemma storageKeyFor_Inr:
  "storageKeyFor pid name path = Inr k \<longleftrightarrow>
    scope_ok pid \<and> (\<exists>p. assertObjectPath path = Inr p \<and> k = ''p_'' @ pid @ ''/b_'' @ name @ ''/'' @ p)"
  by (auto simp: storageKeyFor_def and_then_Inr)

lemma storageKeyFor_normal:
  "scope_ok pid \<Longrightarrow> normal_path p \<Longrightarrow> storageKeyFor pid name p = Inr (''p_'' @ pid @ ''/b_'' @ name @ ''/'' @ p)"
  by (simp add: storageKeyFor_def normal_path_id)

text \<open>The segments of a storage key.\<close>

lemma split_on_key:
  assumes "CHR ''/'' \<notin> set pid" and "CHR ''/'' \<notin> set name"
  shows "split_on (CHR ''/'') (''p_'' @ pid @ ''/b_'' @ name @ ''/'' @ p) =
    (''p_'' @ pid) # (''b_'' @ name) # split_on (CHR ''/'') p"
proof -
  have "split_on (CHR ''/'') ((''p_'' @ pid) @ CHR ''/'' # (''b_'' @ name) @ CHR ''/'' # p) =
      (''p_'' @ pid) # (''b_'' @ name) # split_on (CHR ''/'') p"
    using assms by (subst split_on_append, simp, subst split_on_append, simp_all)
  then show ?thesis by simp
qed

end
