(* ===== verification/StorageStore.thy ===== *)
theory StorageStore
  imports StorageRules Actions
begin

text \<open>
  What storage keeps: the memory metadata store (\<open>metadata.ts\<close>), one \<open>Map\<close> per table, and the local provider
  (\<open>providers.ts\<close>, class \<open>LocalStorageProvider\<close>) over the part of the file system below its base directory.

  A file system is the map of its files and the list of its directories, a path being its list of names below
  the base directory; what it does when a name on the way is a file, or the last name a directory, is the
  behaviour of \<open>mkdir -p\<close>, \<open>rename\<close>, \<open>stat\<close>, \<open>unlink\<close> and \<open>copyFile\<close> on one POSIX volume.  A read stream is the bytes
  it delivers, or \<open>None\<close> for a stream over a directory, which fails when read.  \<open>sha\<close> is SHA-256 in hexadecimal.
\<close>

section \<open>Buckets (metadata.ts)\<close>

record usage_counters =
  uc_files :: int
  uc_bytes :: int
  uc_uploads :: int
  uc_downloads :: int

datatype upload_status = UploadActive | UploadCompleted | UploadAborted

record upload_session =
  ul_id :: string
  ul_organizationId :: string
  ul_projectId :: string
  ul_bucket :: string
  ul_path :: string
  ul_contentType :: "string option"
  ul_totalBytes :: "int option"
  ul_receivedBytes :: int
  ul_parts :: "int list"
  ul_upsert :: bool
  ul_status :: upload_status
  ul_expiresAt :: instant
  ul_createdAt :: instant

record storage_meta =
  sm_buckets :: "(string, bucket) jsmap"
  sm_objects :: "(string, stored_object) jsmap"
  sm_usage :: "(string, usage_counters) jsmap"
  sm_uploads :: "(string, upload_session) jsmap"

record create_bucket_input =
  cb_organizationId :: string
  cb_projectId :: string
  cb_name :: string
  cb_visibility :: bucket_visibility
  cb_fileSizeLimit :: "int option"
  cb_allowedMimeTypes :: "string list"
  cb_ownerIsolation :: bool

record put_object_input =
  po_organizationId :: string
  po_projectId :: string
  po_bucketId :: string
  po_bucket :: string
  po_path :: string
  po_filename :: string
  po_mimeType :: js_mime
  po_size :: int
  po_etag :: string
  po_storageKey :: string
  po_metadata :: "(string, json) jsmap"

record upload_session_input =
  ui_organizationId :: string
  ui_projectId :: string
  ui_bucket :: string
  ui_path :: string
  ui_contentType :: "string option"
  ui_totalBytes :: "int option"
  ui_upsert :: bool

record bucket_patch =
  bp_visibility :: "bucket_visibility option"
  bp_fileSizeLimit :: "int option option"
  bp_allowedMimeTypes :: "string list option"
  bp_ownerIsolation :: "bool option"

definition bucketKey :: "string \<Rightarrow> string \<Rightarrow> string" where
  "bucketKey projectId name = projectId @ ''/'' @ name"

definition objectKey :: "string \<Rightarrow> string \<Rightarrow> string \<Rightarrow> string" where
  "objectKey projectId name path = projectId @ ''/'' @ name @ ''/'' @ path"

definition uploadKey :: "string \<Rightarrow> string \<Rightarrow> string" where
  "uploadKey projectId uid = projectId @ '':'' @ uid"

definition no_usage :: usage_counters where
  "no_usage = \<lparr>uc_files = 0, uc_bytes = 0, uc_uploads = 0, uc_downloads = 0\<rparr>"

text \<open>\<open>counters\<close>: the entry of a project, made when there is none.\<close>

definition counters :: "string \<Rightarrow> storage_meta \<Rightarrow> usage_counters \<times> storage_meta" where
  "counters projectId m = (case js_get (sm_usage m) projectId of Some c \<Rightarrow> (c, m)
     | None \<Rightarrow> (no_usage, m\<lparr>sm_usage := js_set projectId no_usage (sm_usage m)\<rparr>))"

definition update_counters :: "(usage_counters \<Rightarrow> usage_counters) \<Rightarrow> string \<Rightarrow> storage_meta \<Rightarrow> storage_meta" where
  "update_counters f projectId m = (let (c, m') = counters projectId m in
     m'\<lparr>sm_usage := js_set projectId (f c) (sm_usage m')\<rparr>)"

text \<open>\<open>None\<close>: the store raises \<open>BUCKET_EXISTS\<close>.\<close>

definition meta_createBucket :: "instant \<Rightarrow> string \<Rightarrow> create_bucket_input \<Rightarrow> storage_meta \<Rightarrow> bucket option \<times> storage_meta" where
  "meta_createBucket now nid input m = (let key = bucketKey (cb_projectId input) (cb_name input) in
     if js_get (sm_buckets m) key \<noteq> None then (None, m)
     else let bk = \<lparr>bk_id = nid, bk_organizationId = cb_organizationId input, bk_projectId = cb_projectId input,
            bk_name = cb_name input, bk_visibility = cb_visibility input, bk_fileSizeLimit = cb_fileSizeLimit input,
            bk_allowedMimeTypes = cb_allowedMimeTypes input, bk_ownerIsolation = cb_ownerIsolation input,
            bk_createdAt = now, bk_updatedAt = now\<rparr> in
       (Some bk, m\<lparr>sm_buckets := js_set key bk (sm_buckets m)\<rparr>))"

definition meta_getBucket :: "string \<Rightarrow> string \<Rightarrow> storage_meta \<Rightarrow> bucket option" where
  "meta_getBucket projectId name m = js_get (sm_buckets m) (bucketKey projectId name)"

definition meta_listBuckets :: "string \<Rightarrow> storage_meta \<Rightarrow> bucket list" where
  "meta_listBuckets projectId m = filter (\<lambda>b. bk_projectId b = projectId) (js_values (sm_buckets m))"

definition apply_patch :: "instant \<Rightarrow> bucket_patch \<Rightarrow> bucket \<Rightarrow> bucket" where
  "apply_patch now patch b = b\<lparr>
     bk_visibility := (case bp_visibility patch of Some v \<Rightarrow> v | None \<Rightarrow> bk_visibility b),
     bk_fileSizeLimit := (case bp_fileSizeLimit patch of Some v \<Rightarrow> v | None \<Rightarrow> bk_fileSizeLimit b),
     bk_allowedMimeTypes := (case bp_allowedMimeTypes patch of Some v \<Rightarrow> v | None \<Rightarrow> bk_allowedMimeTypes b),
     bk_ownerIsolation := (case bp_ownerIsolation patch of Some v \<Rightarrow> v | None \<Rightarrow> bk_ownerIsolation b),
     bk_updatedAt := now\<rparr>"

definition meta_updateBucket :: "instant \<Rightarrow> string \<Rightarrow> string \<Rightarrow> bucket_patch \<Rightarrow> storage_meta \<Rightarrow> bucket option \<times> storage_meta" where
  "meta_updateBucket now projectId name patch m = (let key = bucketKey projectId name in
     case js_get (sm_buckets m) key of None \<Rightarrow> (None, m)
     | Some b \<Rightarrow> let next = apply_patch now patch b in
         (Some next, m\<lparr>sm_buckets := js_set key next (sm_buckets m)\<rparr>))"

definition meta_deleteBucket :: "string \<Rightarrow> string \<Rightarrow> storage_meta \<Rightarrow> storage_meta" where
  "meta_deleteBucket projectId name m = m\<lparr>sm_buckets := js_delete (bucketKey projectId name) (sm_buckets m)\<rparr>"

definition meta_countBuckets :: "string \<Rightarrow> storage_meta \<Rightarrow> int" where
  "meta_countBuckets projectId m = int (length (meta_listBuckets projectId m))"

section \<open>Objects\<close>

definition meta_putObject :: "instant \<Rightarrow> string \<Rightarrow> put_object_input \<Rightarrow> storage_meta \<Rightarrow> stored_object \<times> storage_meta" where
  "meta_putObject now nid input m =
     (let key = objectKey (po_projectId input) (po_bucket input) (po_path input);
          prev = js_get (sm_objects m) key;
          ob = \<lparr>ob_id = (case prev of Some p \<Rightarrow> ob_id p | None \<Rightarrow> nid), ob_organizationId = po_organizationId input,
             ob_projectId = po_projectId input, ob_bucketId = po_bucketId input, ob_bucket = po_bucket input,
             ob_path = po_path input, ob_filename = po_filename input, ob_mimeType = po_mimeType input,
             ob_size = po_size input, ob_etag = po_etag input, ob_storageKey = po_storageKey input,
             ob_metadata = po_metadata input,
             ob_createdAt = (case prev of Some p \<Rightarrow> ob_createdAt p | None \<Rightarrow> now), ob_updatedAt = now\<rparr> in
      (ob, m\<lparr>sm_objects := js_set key ob (sm_objects m)\<rparr>))"

definition meta_getObject :: "string \<Rightarrow> string \<Rightarrow> string \<Rightarrow> storage_meta \<Rightarrow> stored_object option" where
  "meta_getObject projectId name path m = js_get (sm_objects m) (objectKey projectId name path)"

definition matching_objects :: "string \<Rightarrow> string \<Rightarrow> string \<Rightarrow> storage_meta \<Rightarrow> stored_object list" where
  "matching_objects projectId name prefix m = sort_key ob_path
     (filter (\<lambda>ob. ob_projectId ob = projectId \<and> ob_bucket ob = name \<and> starts_with (ob_path ob) prefix)
       (js_values (sm_objects m)))"

definition meta_listObjects :: "string \<Rightarrow> string \<Rightarrow> string \<Rightarrow> nat \<Rightarrow> nat \<Rightarrow> storage_meta \<Rightarrow> stored_object list \<times> nat" where
  "meta_listObjects projectId name prefix n offset m = (let all = matching_objects projectId name prefix m in
     (take n (drop offset all), length all))"

definition meta_deleteObject :: "string \<Rightarrow> string \<Rightarrow> string \<Rightarrow> storage_meta \<Rightarrow> storage_meta" where
  "meta_deleteObject projectId name path m = m\<lparr>sm_objects := js_delete (objectKey projectId name path) (sm_objects m)\<rparr>"

definition meta_countObjectsInBucket :: "string \<Rightarrow> string \<Rightarrow> storage_meta \<Rightarrow> int" where
  "meta_countObjectsInBucket projectId name m = int (length
     (filter (\<lambda>ob. ob_projectId ob = projectId \<and> ob_bucket ob = name) (js_values (sm_objects m))))"

definition meta_usage :: "string \<Rightarrow> storage_meta \<Rightarrow> usage_counters \<times> storage_meta" where
  "meta_usage projectId m = counters projectId m"

definition meta_recordUpload :: "string \<Rightarrow> int \<Rightarrow> storage_meta \<Rightarrow> storage_meta" where
  "meta_recordUpload projectId bytes m = update_counters (\<lambda>c. c\<lparr>uc_files := uc_files c + 1,
     uc_bytes := uc_bytes c + bytes, uc_uploads := uc_uploads c + 1\<rparr>) projectId m"

definition meta_recordDownload :: "string \<Rightarrow> storage_meta \<Rightarrow> storage_meta" where
  "meta_recordDownload projectId m = update_counters (\<lambda>c. c\<lparr>uc_downloads := uc_downloads c + 1\<rparr>) projectId m"

definition meta_adjustUsage :: "string \<Rightarrow> int \<Rightarrow> int \<Rightarrow> storage_meta \<Rightarrow> storage_meta" where
  "meta_adjustUsage projectId filesDelta bytesDelta m = update_counters (\<lambda>c. c\<lparr>
     uc_files := max 0 (uc_files c + filesDelta), uc_bytes := max 0 (uc_bytes c + bytesDelta)\<rparr>) projectId m"

section \<open>Upload sessions\<close>

definition meta_createUploadSession :: "instant \<Rightarrow> string \<Rightarrow> upload_session_input \<Rightarrow> storage_meta \<Rightarrow> upload_session \<times> storage_meta" where
  "meta_createUploadSession now nid input m =
     (let ul = \<lparr>ul_id = nid, ul_organizationId = ui_organizationId input, ul_projectId = ui_projectId input,
          ul_bucket = ui_bucket input, ul_path = ui_path input, ul_contentType = ui_contentType input,
          ul_totalBytes = ui_totalBytes input, ul_receivedBytes = 0, ul_parts = [], ul_upsert = ui_upsert input,
          ul_status = UploadActive, ul_expiresAt = now + 24 * 3600000, ul_createdAt = now\<rparr> in
      (ul, m\<lparr>sm_uploads := js_set (uploadKey (ui_projectId input) nid) ul (sm_uploads m)\<rparr>))"

definition meta_getUploadSession :: "string \<Rightarrow> string \<Rightarrow> storage_meta \<Rightarrow> upload_session option" where
  "meta_getUploadSession projectId uid m = js_get (sm_uploads m) (uploadKey projectId uid)"

definition meta_recordUploadPart ::
  "instant \<Rightarrow> string \<Rightarrow> string \<Rightarrow> int \<Rightarrow> int \<Rightarrow> storage_meta \<Rightarrow> upload_session option \<times> storage_meta" where
  "meta_recordUploadPart now projectId uid index bytes m = (let key = uploadKey projectId uid in
     case js_get (sm_uploads m) key of None \<Rightarrow> (None, m)
     | Some ul \<Rightarrow>
         if ul_status ul \<noteq> UploadActive \<or> ul_expiresAt ul \<le> now then (None, m)
         else let parts = (if index \<in> set (ul_parts ul) then ul_parts ul else sort (ul_parts ul @ [index]));
                  next = ul\<lparr>ul_parts := parts, ul_receivedBytes := ul_receivedBytes ul + bytes\<rparr> in
           (Some next, m\<lparr>sm_uploads := js_set key next (sm_uploads m)\<rparr>))"

definition meta_finishUploadSession :: "string \<Rightarrow> string \<Rightarrow> upload_status \<Rightarrow> storage_meta \<Rightarrow> storage_meta" where
  "meta_finishUploadSession projectId uid status m = (let key = uploadKey projectId uid in
     case js_get (sm_uploads m) key of None \<Rightarrow> m
     | Some ul \<Rightarrow> m\<lparr>sm_uploads := js_set key (ul\<lparr>ul_status := status\<rparr>) (sm_uploads m)\<rparr>)"

definition meta_pruneUploadSessions :: "instant \<Rightarrow> storage_meta \<Rightarrow> nat \<times> storage_meta" where
  "meta_pruneUploadSessions before m =
     (let stale = (\<lambda>ul. ul_expiresAt ul < before \<and> ul_status ul = UploadActive) in
      (length (filter stale (js_values (sm_uploads m))), m\<lparr>sm_uploads := drop_vals stale (sm_uploads m)\<rparr>))"

section \<open>The file system\<close>

record disk =
  dk_files :: "(string list, byte list) jsmap"
  dk_dirs :: "string list list"
  dk_temps :: "byte list list"

text \<open>\<open>temps\<close>: temporary files the code leaves behind.\<close>

definition is_file :: "disk \<Rightarrow> string list \<Rightarrow> bool" where
  "is_file d f \<longleftrightarrow> js_get (dk_files d) f \<noteq> None"

definition is_dir :: "disk \<Rightarrow> string list \<Rightarrow> bool" where
  "is_dir d f \<longleftrightarrow> f = [] \<or> f \<in> set (dk_dirs d)"

text \<open>A proper, non-empty prefix of the path is a file: \<open>ENOTDIR\<close>.\<close>

definition blocked :: "disk \<Rightarrow> string list \<Rightarrow> bool" where
  "blocked d f \<longleftrightarrow> list_ex (\<lambda>n. is_file d (take n f)) [1..<length f]"

text \<open>\<open>mkdir(dirname(f), { recursive: true })\<close>\<close>

definition mkdir_for :: "string list \<Rightarrow> disk \<Rightarrow> unit storage_result \<times> disk" where
  "mkdir_for f d =
     (if blocked d f then (Inl StoragePlain, d)
      else (Inr (), d\<lparr>dk_dirs := js_unique (dk_dirs d @ map (\<lambda>n. take n f) [1..<length f])\<rparr>))"

section \<open>The local provider (providers.ts)\<close>

definition assertProviderKey :: "string \<Rightarrow> string list storage_result" where
  "assertProviderKey key =
     (let parts = split_on (CHR ''/'') (slashes key) in
      if length parts < 3 \<or> length parts > 34 then Inl (StorageFail SE_INVALID_KEY 400)
      else if list_ex (\<lambda>p. p = '''' \<or> p = ''.'' \<or> p = ''..'' \<or> \<not> segment_ok p) parts
      then Inl (StorageFail SE_INVALID_KEY 400)
      else Inr parts)"

text \<open>The guard of \<open>putStream\<close>: the bytes let through, unless their number passes the maximum.\<close>

fun guard_stream :: "int \<Rightarrow> int \<Rightarrow> byte list \<Rightarrow> byte list list \<Rightarrow> byte list storage_result" where
  "guard_stream maxBytes sz out [] = Inr out"
| "guard_stream maxBytes sz out (chunk # chunks) =
     (let sz' = sz + int (length chunk) in
      if sz' > maxBytes then Inl (StorageFail SE_FILE_TOO_LARGE 413)
      else guard_stream maxBytes sz' (out @ chunk) chunks)"

type_synonym 'a disk_act = "(disk, storage_error, 'a) act"

text \<open>\<open>rename(tmp, dest)\<close>: replaces a file, fails on a directory and leaves the temporary file.\<close>

definition rename_onto :: "string list \<Rightarrow> byte list \<Rightarrow> unit disk_act" where
  "rename_onto f bytes d =
     (if is_dir d f \<or> blocked d f then (Inl StoragePlain, d\<lparr>dk_temps := dk_temps d @ [bytes]\<rparr>)
      else (Inr (), d\<lparr>dk_files := js_set f bytes (dk_files d)\<rparr>))"

definition putStream :: "(byte list \<Rightarrow> string) \<Rightarrow> string \<Rightarrow> byte list list \<Rightarrow> int \<Rightarrow> (int \<times> string) disk_act" where
  "putStream sha key source maxBytes =
     act_bind (act_lift (assertProviderKey key)) (\<lambda>dest.
     act_seq (mkdir_for dest)
    (act_bind (act_lift (guard_stream maxBytes 0 [] source)) (\<lambda>bytes.
     act_seq (rename_onto dest bytes)
    (act_return (int (length bytes), sha bytes)))))"

definition putBytes :: "(byte list \<Rightarrow> string) \<Rightarrow> string \<Rightarrow> byte list \<Rightarrow> int option \<Rightarrow> (int \<times> string) disk_act" where
  "putBytes sha key body maxBytes =
     (case maxBytes of
        Some n \<Rightarrow> if int (length body) > n then act_throw (StorageFail SE_FILE_TOO_LARGE 413)
                  else putStream sha key [body] n
      | None \<Rightarrow> putStream sha key [body] (int (length body)))"

definition getStream :: "string \<Rightarrow> byte list option disk_act" where
  "getStream key =
     act_bind (act_lift (assertProviderKey key)) (\<lambda>f.
     act_bind (act_asks (\<lambda>d. (js_get (dk_files d) f, is_dir d f))) (\<lambda>(file, dir).
     case file of Some bytes \<Rightarrow> act_return (Some bytes)
     | None \<Rightarrow> if dir then act_return None else act_throw (StorageFail SE_NOT_FOUND 404)))"

definition getBytes :: "string \<Rightarrow> byte list disk_act" where
  "getBytes key = act_bind (getStream key) (\<lambda>stream. act_some stream StoragePlain)"

definition unlink :: "string list \<Rightarrow> unit disk_act" where
  "unlink f d =
     (if is_file d f then (Inr (), d\<lparr>dk_files := js_delete f (dk_files d)\<rparr>)
      else if is_dir d f \<or> blocked d f then (Inl StoragePlain, d)
      else (Inr (), d))"

definition provider_delete :: "string \<Rightarrow> unit disk_act" where
  "provider_delete key = act_bind (act_lift (assertProviderKey key)) unlink"

definition provider_exists :: "string \<Rightarrow> disk \<Rightarrow> bool" where
  "provider_exists key d = (case assertProviderKey key of Inr f \<Rightarrow> is_file d f | Inl _ \<Rightarrow> False)"

definition copy_file :: "string list \<Rightarrow> string list \<Rightarrow> unit disk_act" where
  "copy_file f g d =
     (case js_get (dk_files d) f of
        None \<Rightarrow> if is_dir d f \<or> blocked d f then (Inl StoragePlain, d) else (Inl (StorageFail SE_NOT_FOUND 404), d)
      | Some bytes \<Rightarrow> if is_dir d g then (Inl StoragePlain, d)
          else (Inr (), d\<lparr>dk_files := js_set g bytes (dk_files d)\<rparr>))"

definition provider_copy :: "string \<Rightarrow> string \<Rightarrow> unit disk_act" where
  "provider_copy src dest =
     act_bind (act_lift (assertProviderKey src)) (\<lambda>f.
     act_bind (act_lift (assertProviderKey dest)) (\<lambda>g.
     act_seq (mkdir_for g) (copy_file f g)))"

end
