(* ===== verification/StorageSigned.thy ===== *)
theory StorageSigned
  imports StorageRules
begin

text \<open>
  Signed capability tokens (\<open>packages/storage/src/signed-urls.ts\<close>) and the parameters of image transforms
  (\<open>transform.ts\<close>; what the image library does with them is not modelled).  Arguments: \<open>hmac secret text\<close>, the bytes
  of HMAC-SHA-256, and \<open>json_parse\<close>, \<open>JSON.parse\<close> with \<open>None\<close> for an exception.  Times are milliseconds.
\<close>

section \<open>Capability tokens (signed-urls.ts)\<close>

datatype signed_op = SignDownload | SignUpload

definition signed_op_text :: "signed_op \<Rightarrow> string" where
  "signed_op_text p = (case p of SignDownload \<Rightarrow> ''download'' | SignUpload \<Rightarrow> ''upload'')"

record signed_claims =
  sg_projectId :: string
  sg_bucket :: string
  sg_path :: string
  sg_op :: signed_op
  sg_exp :: int
  sg_nonce :: string

type_synonym hmac = "string \<Rightarrow> string \<Rightarrow> byte list"
type_synonym json_parse = "string \<Rightarrow> json option"

definition claims_json :: "signed_claims \<Rightarrow> json" where
  "claims_json cl = JObj
     [(''v'', JNum 1), (''projectId'', JStr (sg_projectId cl)), (''bucket'', JStr (sg_bucket cl)),
      (''path'', JStr (sg_path cl)), (''op'', JStr (signed_op_text (sg_op cl))), (''exp'', JNum (sg_exp cl)),
      (''nonce'', JStr (sg_nonce cl))]"

definition b64urlEncode :: "json \<Rightarrow> string" where
  "b64urlEncode v = b64url (ascii_bytes (json_stringify v))"

text \<open>\<open>Buffer.from(text, 'base64url')\<close> skips every character outside the alphabets.\<close>

definition from_base64url :: "string \<Rightarrow> byte list" where
  "from_base64url s = map word_of_nat (octets (map sextet_of (filter (\<lambda>c. c \<in> set B64URL \<or> c \<in> set ''+/'') s)))"

definition b64urlDecode :: "json_parse \<Rightarrow> string \<Rightarrow> json option" where
  "b64urlDecode json_parse raw = json_parse (utf8_text (from_base64url raw))"

definition epoch_seconds :: "instant \<Rightarrow> int" where
  "epoch_seconds now = now div 1000"

definition signToken :: "hmac \<Rightarrow> string \<Rightarrow> signed_claims \<Rightarrow> int \<Rightarrow> instant \<Rightarrow> string storage_result" where
  "signToken hmac secret claims maxTtlSeconds now =
     (if length secret < 32 then Inl (StorageFail SE_WEAK_SECRET 500)
      else if sg_exp claims \<le> epoch_seconds now then Inl (StorageFail SE_INVALID_TTL 400)
      else if sg_exp claims - epoch_seconds now > maxTtlSeconds then Inl (StorageFail SE_INVALID_TTL 400)
      else let payload = b64urlEncode (claims_json claims) in
        Inr (payload @ ''.'' @ b64url (hmac secret payload)))"

definition bad_signature :: "'a storage_result" where
  "bad_signature = Inl (StorageFail SE_INVALID_SIGNATURE 401)"

text \<open>The claims stay as parsed: the code checks only \<open>v\<close>, the type of \<open>exp\<close> and the time.\<close>

definition verifyCapability :: "hmac \<Rightarrow> json_parse \<Rightarrow> string \<Rightarrow> instant \<Rightarrow> string \<Rightarrow> (string \<times> json) list storage_result" where
  "verifyCapability hmac json_parse secret now token =
     (case split_on (CHR ''.'') token of
        payload # mac # _ \<Rightarrow>
          if payload = [] \<or> mac = [] then bad_signature
          else if from_base64url mac \<noteq> hmac secret payload then bad_signature
          else (case b64urlDecode json_parse payload of
              None \<Rightarrow> bad_signature
            | Some JNull \<Rightarrow> Inl StoragePlain
            | Some (JObj kvs) \<Rightarrow>
                (case json_field kvs ''exp'' of
                   JNum expires \<Rightarrow>
                     if json_field kvs ''v'' \<noteq> JNum 1 then bad_signature
                     else if expires \<le> epoch_seconds now then Inl (StorageFail SE_TOKEN_EXPIRED 401)
                     else Inr kvs
                 | _ \<Rightarrow> bad_signature)
            | Some _ \<Rightarrow> bad_signature)
      | _ \<Rightarrow> bad_signature)"

section \<open>Image transforms (transform.ts)\<close>

definition MAX_DIMENSION :: int where "MAX_DIMENSION = 4000"
definition MAX_OUTPUT_PIXELS :: int where "MAX_OUTPUT_PIXELS = 8000000"
definition MAX_INPUT_PIXELS :: int where "MAX_INPUT_PIXELS = 50000000"

definition TRANSFORMABLE_MIME :: "string list" where
  "TRANSFORMABLE_MIME =
     [''image/jpeg'', ''image/png'', ''image/webp'', ''image/avif'', ''image/gif'', ''image/tiff'']"

definition OUTPUT_FORMATS :: "(string \<times> string) list" where
  "OUTPUT_FORMATS =
     [(''webp'', ''image/webp''), (''avif'', ''image/avif''), (''jpeg'', ''image/jpeg''), (''png'', ''image/png'')]"

definition FITS :: "string list" where
  "FITS = [''cover'', ''contain'', ''fill'', ''inside'', ''outside'']"

definition DEFAULT_QUALITY :: int where "DEFAULT_QUALITY = 80"

record transform_spec =
  tf_width :: "int option"
  tf_height :: "int option"
  tf_fit :: string
  tf_format :: "string option"
  tf_quality :: int
  tf_keepMetadata :: bool

definition transform_error :: "'a storage_result" where
  "transform_error = Inl (StorageFail SE_VALIDATION_ERROR 400)"

definition intParam :: "string option \<Rightarrow> int \<Rightarrow> int option storage_result" where
  "intParam raw maximum =
     (case raw of None \<Rightarrow> Inr None
      | Some s \<Rightarrow> if s = '''' then Inr None
          else case js_integer s of
              Some n \<Rightarrow> if n < 1 \<or> n > maximum then transform_error else Inr (Some n)
            | None \<Rightarrow> transform_error)"

definition given :: "string option \<Rightarrow> bool" where
  "given raw \<longleftrightarrow> raw \<noteq> None \<and> raw \<noteq> Some ''''"

text \<open>\<open>normalized in OUTPUT_FORMATS\<close> also holds of the names an object literal inherits.\<close>

definition format_known :: "string \<Rightarrow> bool" where
  "format_known f \<longleftrightarrow> map_of OUTPUT_FORMATS f \<noteq> None \<or> f \<in> set object_prototype"

definition parse_format :: "string option \<Rightarrow> string option storage_result" where
  "parse_format raw =
     (case raw of None \<Rightarrow> Inr None
      | Some s \<Rightarrow> if s = '''' then Inr None
          else let clean = to_lower (js_trim s); normalized = (if clean = ''jpg'' then ''jpeg'' else clean) in
            if \<not> format_known normalized then transform_error else Inr (Some normalized))"

definition parse_fit :: "string option \<Rightarrow> string storage_result" where
  "parse_fit raw =
     (case raw of None \<Rightarrow> Inr ''cover''
      | Some s \<Rightarrow> if s = '''' then Inr ''cover''
          else let clean = to_lower (js_trim s) in
            if clean \<notin> set FITS then transform_error else Inr clean)"

definition parse_quality :: "string option \<Rightarrow> int option storage_result" where
  "parse_quality raw = (if raw = None then Inr (Some DEFAULT_QUALITY) else intParam raw 100)"

definition parseTransform :: "(string \<Rightarrow> string option) \<Rightarrow> transform_spec option storage_result" where
  "parseTransform params =
     and_then (intParam (params ''width'') MAX_DIMENSION) (\<lambda>width.
     and_then (intParam (params ''height'') MAX_DIMENSION) (\<lambda>height.
     let formatRaw = params ''format''; qualityRaw = params ''quality''; fitRaw = params ''fit'';
         metaRaw = params ''metadata'' in
     if width = None \<and> height = None \<and> \<not> given formatRaw \<and> \<not> given qualityRaw \<and> \<not> given fitRaw \<and> \<not> given metaRaw
     then Inr None
     else
     and_then (parse_format formatRaw) (\<lambda>format.
     and_then (parse_quality qualityRaw) (\<lambda>quality.
     and_then (parse_fit fitRaw) (\<lambda>fit.
     if width \<noteq> None \<and> height \<noteq> None \<and> the width * the height > MAX_OUTPUT_PIXELS then transform_error
     else Inr (Some \<lparr>tf_width = width, tf_height = height, tf_fit = fit,
       tf_format = (if given format then format else None),
       tf_quality = (case quality of Some q \<Rightarrow> q | None \<Rightarrow> DEFAULT_QUALITY),
       tf_keepMetadata = (metaRaw = Some ''keep'')\<rparr>))))))"

definition outputMime :: "transform_spec \<Rightarrow> js_mime \<Rightarrow> js_mime" where
  "outputMime spec sourceMime =
     (case tf_format spec of None \<Rightarrow> sourceMime
      | Some f \<Rightarrow> (case map_of OUTPUT_FORMATS f of Some m \<Rightarrow> MimeText m | None \<Rightarrow> MimeInherited f))"

definition dash_or :: "string option \<Rightarrow> string" where
  "dash_or v = (case v of Some t \<Rightarrow> t | None \<Rightarrow> ''-'')"

definition transformCacheKey :: "string \<Rightarrow> transform_spec \<Rightarrow> string" where
  "transformCacheKey etag spec = join '':''
     [etag, dash_or (map_option dec_int (tf_width spec)), dash_or (map_option dec_int (tf_height spec)), tf_fit spec,
      dash_or (tf_format spec), dec_int (tf_quality spec), (if tf_keepMetadata spec then ''meta'' else ''nometa'')]"

definition assertTransformable :: "js_mime \<Rightarrow> unit storage_result" where
  "assertTransformable mimeType = (case mimeType of
       MimeText m \<Rightarrow> if m \<in> set TRANSFORMABLE_MIME then Inr () else transform_error
     | MimeInherited _ \<Rightarrow> Inl StoragePlain)"

section \<open>What a parsed transform is\<close>

definition transform_wf :: "transform_spec \<Rightarrow> bool" where
  "transform_wf spec \<longleftrightarrow>
     (\<forall>w. tf_width spec = Some w \<longrightarrow> 1 \<le> w \<and> w \<le> MAX_DIMENSION) \<and>
     (\<forall>h. tf_height spec = Some h \<longrightarrow> 1 \<le> h \<and> h \<le> MAX_DIMENSION) \<and>
     (\<forall>w h. tf_width spec = Some w \<longrightarrow> tf_height spec = Some h \<longrightarrow> w * h \<le> MAX_OUTPUT_PIXELS) \<and>
     tf_fit spec \<in> set FITS \<and> (\<forall>f. tf_format spec = Some f \<longrightarrow> format_known f) \<and>
     1 \<le> tf_quality spec \<and> tf_quality spec \<le> 100"

lemma intParam_bounds: "intParam raw m = Inr (Some n) \<Longrightarrow> 1 \<le> n \<and> n \<le> m"
  by (auto simp: intParam_def transform_error_def split: option.splits if_splits)

lemma parse_format_known: "parse_format raw = Inr (Some f) \<Longrightarrow> format_known f"
  by (auto simp: parse_format_def transform_error_def Let_def split: option.splits if_splits)

lemma parse_fit_known: "parse_fit raw = Inr f \<Longrightarrow> f \<in> set FITS"
  by (auto simp: parse_fit_def transform_error_def Let_def FITS_def split: option.splits if_splits)

lemma parse_quality_bounds: "parse_quality raw = Inr (Some q) \<Longrightarrow> 1 \<le> q \<and> q \<le> 100"
  by (auto simp: parse_quality_def DEFAULT_QUALITY_def dest: intParam_bounds split: if_splits)

lemma transform_error_Inr [simp]: "transform_error \<noteq> Inr x"
  by (simp add: transform_error_def)

lemma parseTransform_Inr:
  assumes "parseTransform params = Inr (Some spec)"
  obtains w h f q t where "intParam (params ''width'') MAX_DIMENSION = Inr w"
    "intParam (params ''height'') MAX_DIMENSION = Inr h" "parse_format (params ''format'') = Inr f"
    "parse_quality (params ''quality'') = Inr q" "parse_fit (params ''fit'') = Inr t"
    "w = None \<or> h = None \<or> the w * the h \<le> MAX_OUTPUT_PIXELS"
    "spec = \<lparr>tf_width = w, tf_height = h, tf_fit = t, tf_format = (if given f then f else None),
       tf_quality = (case q of Some q \<Rightarrow> q | None \<Rightarrow> DEFAULT_QUALITY),
       tf_keepMetadata = (params ''metadata'' = Some ''keep'')\<rparr>"
  using assms unfolding parseTransform_def Let_def and_then_Inr
  by (elim exE conjE) (auto simp: and_then_Inr not_less split: if_splits)

lemma parseTransform_wf: "parseTransform params = Inr (Some spec) \<Longrightarrow> transform_wf spec"
proof (erule parseTransform_Inr)
  fix w h f q t
  assume w: "intParam (params ''width'') MAX_DIMENSION = Inr w" and h: "intParam (params ''height'') MAX_DIMENSION = Inr h"
    and f: "parse_format (params ''format'') = Inr f" and q: "parse_quality (params ''quality'') = Inr q"
    and t: "parse_fit (params ''fit'') = Inr t"
    and a: "w = None \<or> h = None \<or> the w * the h \<le> MAX_OUTPUT_PIXELS"
    and s: "spec = \<lparr>tf_width = w, tf_height = h, tf_fit = t, tf_format = (if given f then f else None),
       tf_quality = (case q of Some q \<Rightarrow> q | None \<Rightarrow> DEFAULT_QUALITY),
       tf_keepMetadata = (params ''metadata'' = Some ''keep'')\<rparr>"
  have "1 \<le> tf_quality spec \<and> tf_quality spec \<le> 100"
    using q s by (cases q) (simp_all add: DEFAULT_QUALITY_def parse_quality_bounds)
  moreover have "tf_format spec = Some g \<Longrightarrow> format_known g" for g
    using f s by (simp add: parse_format_known split: if_splits)
  ultimately show ?thesis
    using intParam_bounds [of _ MAX_DIMENSION] w h a parse_fit_known [OF t] s by (auto simp: transform_wf_def)
qed

lemma format_known_no_colon: "format_known f \<Longrightarrow> CHR '':'' \<notin> set f \<and> f \<noteq> ''-''"
proof -
  assume "format_known f"
  then have "f \<in> set (map fst OUTPUT_FORMATS @ object_prototype)"
    by (auto simp: format_known_def map_of_eq_None_iff image_iff)
  moreover have "list_all (\<lambda>f. CHR '':'' \<notin> set f \<and> f \<noteq> ''-'') (map fst OUTPUT_FORMATS @ object_prototype)"
    by code_simp
  ultimately show ?thesis by (simp add: list_all_iff)
qed

lemma dec_no_colon: "CHR '':'' \<notin> set (dec_int i)"
proof -
  have "CHR '':'' \<notin> set (dec n)" for n
    using dec_digits [of n] by (auto simp: list_all_iff is_digit_def code_def)
  then show ?thesis by (simp add: dec_int_def)
qed

lemma dec_int_not_dash: "0 \<le> i \<Longrightarrow> dec_int i \<noteq> ''-''"
proof
  assume "0 \<le> i" "dec_int i = ''-''"
  then have "dec (nat i) = ''-''" by (simp add: dec_int_def)
  with dec_digits [of "nat i"] show False by (simp add: is_digit_def code_def)
qed

lemma dash_or_dec_inj:
  "(\<And>x. v = Some x \<Longrightarrow> 0 \<le> x) \<Longrightarrow> (\<And>x. w = Some x \<Longrightarrow> 0 \<le> x) \<Longrightarrow>
   dash_or (map_option dec_int v) = dash_or (map_option dec_int w) \<Longrightarrow> v = w"
  by (cases v; cases w) (auto simp: dash_or_def dest: dec_int_inj dec_int_not_dash dest!: sym [of "''-''"])

lemma dash_or_no_colon: "CHR '':'' \<notin> set (dash_or (map_option dec_int v))"
  by (cases v) (simp_all add: dash_or_def dec_no_colon)

end
