(* ===== verification/StorageService.thy ===== *)
theory StorageService
  imports StorageStore StorageSigned
begin

text \<open>
  The service (\<open>packages/storage/src/service.ts\<close>), one action per method on the metadata, the disk and the audit
  trail.  Arguments: \<open>sv\<close>, the options and the libraries; \<open>now\<close>, the time; \<open>nid\<close>, the identifier drawn for a new record;
  \<open>nonce\<close>, the random part of a token.  A byte source is the list of chunks it delivers.  An action is one step:
  its \<open>await\<close>s are not interleaved with other requests, except where an upload is split in two below.
\<close>

section \<open>State and options\<close>

record storage_service =
  sv_maxBuckets :: int
  sv_quotaBytes :: int
  sv_defaultMaxFileBytes :: int
  sv_maxSignedTtlSeconds :: int
  sv_signingSecret :: string
  sv_sha :: "byte list \<Rightarrow> string"
  sv_hmac :: hmac
  sv_json_parse :: json_parse

record storage_audit =
  sa_event :: storage_event
  sa_projectId :: string
  sa_bucket :: string
  sa_path :: "string option"
  sa_dest :: "string option"
  sa_size :: "int option"

record storage_state =
  ss_meta :: storage_meta
  ss_disk :: disk
  ss_audit :: "storage_audit list"

type_synonym 'a storage_act = "(storage_state, storage_error, 'a) act"

definition fail :: "storage_code \<Rightarrow> nat \<Rightarrow> 'a storage_act" where
  "fail c status = act_throw (StorageFail c status)"

definition on_meta :: "(storage_meta \<Rightarrow> 'a \<times> storage_meta) \<Rightarrow> 'a storage_act" where
  "on_meta f = act_run (\<lambda>s. case f (ss_meta s) of (a, m) \<Rightarrow> (a, s\<lparr>ss_meta := m\<rparr>))"

definition meta_do :: "(storage_meta \<Rightarrow> storage_meta) \<Rightarrow> unit storage_act" where
  "meta_do f = act_modify (\<lambda>s. s\<lparr>ss_meta := f (ss_meta s)\<rparr>)"

definition meta_get :: "(storage_meta \<Rightarrow> 'a) \<Rightarrow> 'a storage_act" where
  "meta_get f = act_asks (\<lambda>s. f (ss_meta s))"

definition on_disk :: "'a disk_act \<Rightarrow> 'a storage_act" where
  "on_disk m = (\<lambda>s. case m (ss_disk s) of (r, d) \<Rightarrow> (r, s\<lparr>ss_disk := d\<rparr>))"

definition audit :: "storage_event \<Rightarrow> string \<Rightarrow> string \<Rightarrow> string option \<Rightarrow> string option \<Rightarrow> int option \<Rightarrow> unit storage_act" where
  "audit ev projectId name path dest sz = act_modify (\<lambda>s. s\<lparr>ss_audit := ss_audit s @
     [\<lparr>sa_event = ev, sa_projectId = projectId, sa_bucket = name, sa_path = path, sa_dest = dest, sa_size = sz\<rparr>]\<rparr>)"

text \<open>\<open>p.catch(() => undefined)\<close>\<close>

definition quietly :: "unit storage_act \<Rightarrow> unit storage_act" where
  "quietly m = act_catch m (\<lambda>_. act_return ())"

definition new_storage :: "storage_service \<Rightarrow> unit storage_result" where
  "new_storage sv = (if length (sv_signingSecret sv) < 32 then Inl (StorageFail SE_WEAK_SECRET 500) else Inr ())"

definition empty_storage :: storage_state where
  "empty_storage = \<lparr>ss_meta = \<lparr>sm_buckets = [], sm_objects = [], sm_usage = [], sm_uploads = []\<rparr>,
     ss_disk = \<lparr>dk_files = [], dk_dirs = [], dk_temps = []\<rparr>, ss_audit = []\<rparr>"

section \<open>Buckets\<close>

definition storage_check :: "bucket \<Rightarrow> storage_caller \<Rightarrow> storage_op \<Rightarrow> string option \<Rightarrow> unit storage_act" where
  "storage_check bk ca p path =
     (if ca_projectId ca \<noteq> bk_projectId bk then fail SE_TENANT_FORBIDDEN 403
      else if \<not> authorize bk ca p path then
        (if p = ObjectDownload \<or> p = ObjectList then fail SE_NOT_FOUND 404 else fail SE_FORBIDDEN 403)
      else act_return ())"

definition bucketFor :: "string \<Rightarrow> string \<Rightarrow> string \<Rightarrow> bucket storage_act" where
  "bucketFor projectId organizationId name =
     act_bind (act_lift (assertBucketName name)) (\<lambda>name.
     act_bind (meta_get (meta_getBucket projectId name)) (\<lambda>found.
     case found of None \<Rightarrow> fail SE_NOT_FOUND 404
     | Some bk \<Rightarrow> if bk_organizationId bk \<noteq> organizationId then fail SE_NOT_FOUND 404 else act_return bk))"

definition mime_filter_ok :: "string \<Rightarrow> bool" where
  "mime_filter_ok m = (case split_on (CHR ''/'') m of
       [a, b] \<Rightarrow> a \<noteq> [] \<and> list_all (\<lambda>c. is_lower c \<or> is_digit c \<or> c \<in> set ''.+-'') a \<and>
         list_all (\<lambda>c. is_lower c \<or> is_digit c \<or> c \<in> set ''.*+-'') b
     | _ \<Rightarrow> False)"

record bucket_input =
  bi_name :: string
  bi_visibility :: "bucket_visibility option"
  bi_fileSizeLimit :: "int option option"
  bi_allowedMimeTypes :: "string list option"
  bi_ownerIsolation :: "bool option"

definition or_else :: "'a option \<Rightarrow> 'a \<Rightarrow> 'a" where
  "or_else v d = (case v of Some x \<Rightarrow> x | None \<Rightarrow> d)"

definition createBucket :: "storage_service \<Rightarrow> instant \<Rightarrow> string \<Rightarrow> storage_caller \<Rightarrow> bucket_input \<Rightarrow> bucket storage_act" where
  "createBucket sv now nid ca input =
     (if ca_kind ca \<noteq> SessionCaller \<or> (ca_role ca \<noteq> ''owner'' \<and> ca_role ca \<noteq> ''admin'') then fail SE_FORBIDDEN 403
      else
      act_bind (act_lift (assertBucketName (bi_name input))) (\<lambda>name.
      act_bind (meta_get (meta_getBucket (ca_projectId ca) name)) (\<lambda>found.
      act_seq (act_require (found = None) (StorageFail SE_CONFLICT 409))
     (act_bind (meta_get (meta_countBuckets (ca_projectId ca))) (\<lambda>held.
      act_seq (act_require (held < sv_maxBuckets sv) (StorageFail SE_LIMIT_EXCEEDED 403))
     (act_seq (act_require (case bi_fileSizeLimit input of
          Some (Some n) \<Rightarrow> 1024 \<le> n \<and> n \<le> sv_defaultMaxFileBytes sv * 10 | _ \<Rightarrow> True) (StorageFail SE_INVALID_LIMIT 400))
     (let allowed = take 20 (or_else (bi_allowedMimeTypes input) []) in
      act_seq (act_require (list_all mime_filter_ok allowed) (StorageFail SE_INVALID_MIME 400))
     (act_bind (on_meta (meta_createBucket now nid \<lparr>cb_organizationId = ca_organizationId ca,
          cb_projectId = ca_projectId ca, cb_name = name, cb_visibility = or_else (bi_visibility input) PrivateBucket,
          cb_fileSizeLimit = or_else (bi_fileSizeLimit input) None, cb_allowedMimeTypes = allowed,
          cb_ownerIsolation = or_else (bi_ownerIsolation input) True\<rparr>)) (\<lambda>made.
      act_bind (act_some made (StorageFail SE_CONFLICT 409)) (\<lambda>bk.
      act_seq (audit BucketCreated (ca_projectId ca) name None None None) (act_return bk)))))))))))"

definition listBuckets :: "storage_caller \<Rightarrow> bucket list storage_act" where
  "listBuckets ca = meta_get (meta_listBuckets (ca_projectId ca))"

definition getBucket :: "storage_caller \<Rightarrow> string \<Rightarrow> bucket storage_act" where
  "getBucket ca name =
     act_bind (bucketFor (ca_projectId ca) (ca_organizationId ca) name) (\<lambda>bk.
     act_seq (storage_check bk ca BucketRead None) (act_return bk))"

definition updateBucket :: "instant \<Rightarrow> storage_caller \<Rightarrow> string \<Rightarrow> bucket_patch \<Rightarrow> bucket storage_act" where
  "updateBucket now ca name patch =
     act_bind (bucketFor (ca_projectId ca) (ca_organizationId ca) name) (\<lambda>bk.
     act_seq (storage_check bk ca BucketUpdate None)
    (act_seq (act_require (case bp_fileSizeLimit patch of Some (Some n) \<Rightarrow> 1024 \<le> n | _ \<Rightarrow> True)
        (StorageFail SE_INVALID_LIMIT 400))
    (act_seq (act_require (case bp_allowedMimeTypes patch of Some ms \<Rightarrow> length ms \<le> 20 \<and> list_all mime_filter_ok ms
        | None \<Rightarrow> True) (StorageFail SE_INVALID_MIME 400))
    (act_bind (on_meta (meta_updateBucket now (ca_projectId ca) name patch)) (\<lambda>updated.
     act_bind (act_some updated (StorageFail SE_NOT_FOUND 404)) (\<lambda>next.
     act_seq (audit BucketUpdated (ca_projectId ca) name None None None) (act_return next)))))))"

definition deleteBucket :: "storage_caller \<Rightarrow> string \<Rightarrow> unit storage_act" where
  "deleteBucket ca name =
     act_bind (bucketFor (ca_projectId ca) (ca_organizationId ca) name) (\<lambda>bk.
     act_seq (storage_check bk ca BucketDelete None)
    (act_bind (meta_get (meta_countObjectsInBucket (ca_projectId ca) name)) (\<lambda>held.
     act_seq (act_require (\<not> held > 0) (StorageFail SE_BUCKET_NOT_EMPTY 409))
    (act_seq (meta_do (meta_deleteBucket (ca_projectId ca) name))
    (audit BucketDeleted (ca_projectId ca) name None None None)))))"

section \<open>Uploads\<close>

record upload_input =
  up_contentType :: "string option"
  up_source :: "byte list list"
  up_sample :: "byte list"
  up_upsert :: bool

definition max_bytes :: "storage_service \<Rightarrow> bucket \<Rightarrow> int" where
  "max_bytes sv bk = min (or_else (bk_fileSizeLimit bk) (sv_defaultMaxFileBytes sv)) (sv_defaultMaxFileBytes sv)"

text \<open>The filters of a bucket are prefixes; an inherited value has no \<open>startsWith\<close>.\<close>

definition mime_allowed :: "string list \<Rightarrow> js_mime \<Rightarrow> unit storage_result" where
  "mime_allowed filters mime =
     (if filters = [] then Inr ()
      else case mime of
        MimeText m \<Rightarrow> if list_ex (starts_with m) filters then Inr () else Inl (StorageFail SE_MIME_NOT_ALLOWED 400)
      | MimeInherited _ \<Rightarrow> Inl StoragePlain)"

text \<open>What the two upload methods do before the bytes arrive, and what they do with them.\<close>

record upload_plan =
  pl_bucket :: bucket
  pl_path :: string
  pl_mime :: js_mime
  pl_existing :: "stored_object option"
  pl_usedBytes :: int
  pl_key :: string

definition plan_upload :: "storage_service \<Rightarrow> string \<Rightarrow> bucket \<Rightarrow> string \<Rightarrow> upload_input \<Rightarrow> upload_plan storage_act" where
  "plan_upload sv projectId bk path input =
     act_bind (act_lift (case resolveMime (up_contentType input) (fileNameOf path) (up_sample input) of
         Inl _ \<Rightarrow> Inl (StorageFail SE_MIME_REJECTED 400) | Inr r \<Rightarrow> Inr (mr_mime r))) (\<lambda>mime.
     act_seq (act_lift (mime_allowed (bk_allowedMimeTypes bk) mime))
    (act_bind (meta_get (meta_getObject projectId (bk_name bk) path)) (\<lambda>existing.
     act_seq (act_require (existing = None \<or> up_upsert input) (StorageFail SE_CONFLICT 409))
    (act_bind (on_meta (meta_usage projectId)) (\<lambda>usage.
     act_seq (act_require (uc_bytes usage < sv_quotaBytes sv) (StorageFail SE_QUOTA_EXCEEDED 403))
    (act_bind (act_lift (storageKeyFor projectId (bk_name bk) path)) (\<lambda>key.
     act_return \<lparr>pl_bucket = bk, pl_path = path, pl_mime = mime, pl_existing = existing,
       pl_usedBytes = uc_bytes usage, pl_key = key\<rparr>)))))))"

definition store_upload :: "storage_service \<Rightarrow> instant \<Rightarrow> string \<Rightarrow> string \<Rightarrow> string \<Rightarrow> byte list list \<Rightarrow> upload_plan \<Rightarrow>
    exposed_object storage_act" where
  "store_upload sv now nid projectId organizationId source pl =
     (let bk = pl_bucket pl; key = pl_key pl; path = pl_path pl in
     act_bind (on_disk (putStream (sv_sha sv) key source (max_bytes sv bk))) (\<lambda>(sz, etag).
     act_seq (act_when (pl_usedBytes pl + sz > sv_quotaBytes sv)
        (act_seq (quietly (on_disk (provider_delete key))) (fail SE_QUOTA_EXCEEDED 403)))
    (act_bind (on_meta (meta_putObject now nid \<lparr>po_organizationId = organizationId, po_projectId = projectId,
         po_bucketId = bk_id bk, po_bucket = bk_name bk, po_path = path, po_filename = fileNameOf path,
         po_mimeType = pl_mime pl, po_size = sz, po_etag = etag, po_storageKey = key, po_metadata = []\<rparr>)) (\<lambda>record.
     act_seq (meta_do (case pl_existing pl of
         Some old \<Rightarrow> meta_adjustUsage projectId 0 (sz - ob_size old) | None \<Rightarrow> meta_recordUpload projectId sz))
    (act_seq (audit (if pl_existing pl \<noteq> None then FileUpdated else FileUploaded) projectId (bk_name bk) (Some path) None (Some sz))
    (act_return (exposeObject record)))))))"

definition upload :: "storage_service \<Rightarrow> instant \<Rightarrow> string \<Rightarrow> storage_caller \<Rightarrow> string \<Rightarrow> string \<Rightarrow> upload_input \<Rightarrow>
    exposed_object storage_act" where
  "upload sv now nid ca name raw input =
     act_bind (bucketFor (ca_projectId ca) (ca_organizationId ca) name) (\<lambda>bk.
     act_bind (act_lift (assertObjectPath raw)) (\<lambda>path.
     act_seq (storage_check bk ca ObjectUpload (Some path))
    (act_bind (plan_upload sv (ca_projectId ca) bk path input)
     (store_upload sv now nid (ca_projectId ca) (ca_organizationId ca) (up_source input)))))"

definition putSigned :: "storage_service \<Rightarrow> instant \<Rightarrow> string \<Rightarrow> string \<Rightarrow> string \<Rightarrow> string \<Rightarrow> string \<Rightarrow> upload_input \<Rightarrow>
    exposed_object storage_act" where
  "putSigned sv now nid projectId organizationId name raw input =
     act_bind (bucketFor projectId organizationId name) (\<lambda>bk.
     act_bind (act_lift (assertObjectPath raw)) (\<lambda>path.
     act_bind (plan_upload sv projectId bk path input)
     (store_upload sv now nid projectId organizationId (up_source input))))"

section \<open>Downloads\<close>

record download_result =
  dn_stream :: "byte list option"
  dn_object :: exposed_object
  dn_etag :: string

definition fetch_object :: "string \<Rightarrow> bucket \<Rightarrow> string \<Rightarrow> download_result storage_act" where
  "fetch_object projectId bk path =
     act_bind (meta_get (meta_getObject projectId (bk_name bk) path)) (\<lambda>found.
     act_bind (act_some found (StorageFail SE_NOT_FOUND 404)) (\<lambda>record.
     act_bind (act_catch (on_disk (getStream (ob_storageKey record))) (\<lambda>_. fail SE_NOT_FOUND 404)) (\<lambda>stream.
     act_seq (meta_do (meta_recordDownload projectId))
    (act_return \<lparr>dn_stream = stream, dn_object = exposeObject record, dn_etag = ob_etag record\<rparr>))))"

definition downloadSigned :: "string \<Rightarrow> string \<Rightarrow> string \<Rightarrow> string \<Rightarrow> download_result storage_act" where
  "downloadSigned projectId organizationId name raw =
     act_bind (bucketFor projectId organizationId name) (\<lambda>bk.
     act_bind (act_lift (assertObjectPath raw)) (\<lambda>path. fetch_object projectId bk path))"

definition download :: "storage_caller \<Rightarrow> string \<Rightarrow> string \<Rightarrow> download_result storage_act" where
  "download ca name raw =
     act_bind (bucketFor (ca_projectId ca) (ca_organizationId ca) name) (\<lambda>bk.
     act_bind (act_lift (assertObjectPath raw)) (\<lambda>path.
     act_seq (storage_check bk ca ObjectDownload (Some path)) (fetch_object (ca_projectId ca) bk path)))"

definition object_metadata :: "storage_caller \<Rightarrow> string \<Rightarrow> string \<Rightarrow> exposed_object storage_act" where
  "object_metadata ca name raw =
     act_bind (bucketFor (ca_projectId ca) (ca_organizationId ca) name) (\<lambda>bk.
     act_bind (act_lift (assertObjectPath raw)) (\<lambda>path.
     act_seq (storage_check bk ca ObjectDownload (Some path))
    (act_bind (meta_get (meta_getObject (ca_projectId ca) (bk_name bk) path)) (\<lambda>found.
     act_bind (act_some found (StorageFail SE_NOT_FOUND 404)) (\<lambda>record. act_return (exposeObject record))))))"

record bucket_row =
  rw_name :: string
  rw_visibility :: bucket_visibility
  rw_files :: int
  rw_bytes :: int

definition row_of :: "string \<Rightarrow> storage_meta \<Rightarrow> bucket \<Rightarrow> bucket_row" where
  "row_of projectId m b = (let (objects, n) = meta_listObjects projectId (bk_name b) '''' 5000 0 m in
     \<lparr>rw_name = bk_name b, rw_visibility = bk_visibility b, rw_files = int n,
      rw_bytes = sum_list (map ob_size objects)\<rparr>)"

definition analytics :: "storage_service \<Rightarrow> storage_caller \<Rightarrow> (bucket_row list \<times> int \<times> int \<times> int) storage_act" where
  "analytics sv ca = meta_get (\<lambda>m.
     let rows = map (row_of (ca_projectId ca) m) (meta_listBuckets (ca_projectId ca) m) in
     (rows, sum_list (map rw_files rows), sum_list (map rw_bytes rows), sv_quotaBytes sv))"

section \<open>Upload sessions\<close>

definition uploadPartKey :: "string \<Rightarrow> string \<Rightarrow> string \<Rightarrow> int \<Rightarrow> string" where
  "uploadPartKey projectId name uploadId index =
     (let plain = (\<lambda>c. is_alnum c \<or> c = CHR ''-'');
          safeBucket = map (\<lambda>c. if plain c then c else CHR ''-'') name;
          safeId = filter plain uploadId in
      ''p_'' @ projectId @ ''/b_'' @ safeBucket @ ''/upload-'' @ safeId @ ''/'' @ dec_int index @ ''.part'')"

record session_input =
  si_bucket :: string
  si_path :: string
  si_contentType :: "string option"
  si_totalBytes :: "int option"
  si_upsert :: bool

definition createUploadSession :: "storage_service \<Rightarrow> instant \<Rightarrow> string \<Rightarrow> storage_caller \<Rightarrow> session_input \<Rightarrow>
    upload_session storage_act" where
  "createUploadSession sv now nid ca input =
     act_bind (bucketFor (ca_projectId ca) (ca_organizationId ca) (si_bucket input)) (\<lambda>bk.
     act_bind (act_lift (assertObjectPath (si_path input))) (\<lambda>path.
     act_seq (storage_check bk ca ObjectUpload (Some path))
    (act_seq (case si_totalBytes input of None \<Rightarrow> act_return ()
       | Some n \<Rightarrow> if n \<le> 0 then fail SE_VALIDATION_ERROR 400
           else if n > max_bytes sv bk then fail SE_FILE_TOO_LARGE 413 else act_return ())
    (act_bind (meta_get (meta_getObject (ca_projectId ca) (bk_name bk) path)) (\<lambda>existing.
     act_seq (act_require (existing = None \<or> si_upsert input) (StorageFail SE_CONFLICT 409))
    (on_meta (meta_createUploadSession now nid \<lparr>ui_organizationId = ca_organizationId ca,
       ui_projectId = ca_projectId ca, ui_bucket = bk_name bk, ui_path = path,
       ui_contentType = si_contentType input, ui_totalBytes = si_totalBytes input, ui_upsert = si_upsert input\<rparr>)))))))"

definition session_of :: "storage_caller \<Rightarrow> string \<Rightarrow> upload_session storage_act" where
  "session_of ca uploadId =
     act_bind (meta_get (meta_getUploadSession (ca_projectId ca) uploadId)) (\<lambda>found.
     case found of None \<Rightarrow> fail SE_NOT_FOUND 404
     | Some ul \<Rightarrow> if ul_organizationId ul \<noteq> ca_organizationId ca then fail SE_NOT_FOUND 404 else act_return ul)"

definition getUploadSession :: "instant \<Rightarrow> storage_caller \<Rightarrow> string \<Rightarrow> upload_session storage_act" where
  "getUploadSession now ca uploadId =
     act_bind (session_of ca uploadId) (\<lambda>ul.
     if ul_status ul \<noteq> UploadActive \<or> ul_expiresAt ul \<le> now then fail SE_UPLOAD_EXPIRED 410 else act_return ul)"

definition uploadPart :: "storage_service \<Rightarrow> instant \<Rightarrow> storage_caller \<Rightarrow> string \<Rightarrow> int \<Rightarrow> byte list list \<Rightarrow>
    (int \<times> int \<times> int list) storage_act" where
  "uploadPart sv now ca uploadId index source =
     act_seq (act_require (0 \<le> index \<and> index \<le> 999) (StorageFail SE_VALIDATION_ERROR 400))
    (act_bind (getUploadSession now ca uploadId) (\<lambda>ul.
     act_bind (bucketFor (ca_projectId ca) (ca_organizationId ca) (ul_bucket ul)) (\<lambda>bk.
     act_seq (storage_check bk ca ObjectUpload (Some (ul_path ul)))
    (act_bind (on_disk (putStream (sv_sha sv) (uploadPartKey (ca_projectId ca) (bk_name bk) uploadId index) source
        (max_bytes sv bk))) (\<lambda>(sz, _).
     act_bind (on_meta (meta_recordUploadPart now (ca_projectId ca) uploadId index sz)) (\<lambda>updated.
     act_bind (act_some updated (StorageFail SE_UPLOAD_EXPIRED 410)) (\<lambda>ul'.
     act_seq (audit FilePartUploaded (ca_projectId ca) (bk_name bk) (Some (ul_path ul)) None (Some sz))
    (act_return (index, ul_receivedBytes ul', ul_parts ul')))))))))"

fun read_parts :: "string \<Rightarrow> string \<Rightarrow> string \<Rightarrow> int list \<Rightarrow> byte list list storage_act" where
  "read_parts projectId name uploadId [] = act_return []"
| "read_parts projectId name uploadId (i # rest) =
     act_bind (act_catch (on_disk (getBytes (uploadPartKey projectId name uploadId i)))
        (\<lambda>_. fail SE_VALIDATION_ERROR 400)) (\<lambda>bytes.
     act_bind (read_parts projectId name uploadId rest) (\<lambda>chunks. act_return (bytes # chunks)))"

fun delete_parts :: "string \<Rightarrow> string \<Rightarrow> string \<Rightarrow> int list \<Rightarrow> unit storage_act" where
  "delete_parts projectId name uploadId [] = act_return ()"
| "delete_parts projectId name uploadId (i # rest) =
     act_seq (quietly (on_disk (provider_delete (uploadPartKey projectId name uploadId i))))
       (delete_parts projectId name uploadId rest)"

definition completeUploadSession :: "storage_service \<Rightarrow> instant \<Rightarrow> string \<Rightarrow> storage_caller \<Rightarrow> string \<Rightarrow>
    exposed_object storage_act" where
  "completeUploadSession sv now nid ca uploadId =
     act_bind (getUploadSession now ca uploadId) (\<lambda>ul.
     act_bind (bucketFor (ca_projectId ca) (ca_organizationId ca) (ul_bucket ul)) (\<lambda>bk.
     act_seq (storage_check bk ca ObjectUpload (Some (ul_path ul)))
    (act_seq (act_require (ul_parts ul \<noteq> []) (StorageFail SE_VALIDATION_ERROR 400))
    (let indices = [0..Max (set (ul_parts ul))]; pid = ca_projectId ca in
     act_seq (act_require (list_all (\<lambda>i. i \<in> set (ul_parts ul)) indices) (StorageFail SE_VALIDATION_ERROR 400))
    (act_bind (read_parts pid (bk_name bk) uploadId indices) (\<lambda>chunks.
     act_catch
       (act_bind (upload sv now nid ca (bk_name bk) (ul_path ul)
          \<lparr>up_contentType = ul_contentType ul, up_source = chunks,
           up_sample = (case chunks of c # _ \<Rightarrow> take 32 c | [] \<Rightarrow> []), up_upsert = ul_upsert ul\<rparr>) (\<lambda>assembled.
        act_seq (delete_parts pid (bk_name bk) uploadId indices)
       (act_seq (meta_do (meta_finishUploadSession pid uploadId UploadCompleted)) (act_return assembled))))
       (\<lambda>e. act_seq (delete_parts pid (bk_name bk) uploadId indices)
           (act_seq (meta_do (meta_finishUploadSession pid uploadId UploadAborted)) (act_throw e)))))))))"

definition abortUploadSession :: "storage_caller \<Rightarrow> string \<Rightarrow> unit storage_act" where
  "abortUploadSession ca uploadId =
     act_bind (session_of ca uploadId) (\<lambda>ul.
     act_seq (delete_parts (ca_projectId ca) (ul_bucket ul) uploadId (ul_parts ul))
    (act_seq (meta_do (meta_finishUploadSession (ca_projectId ca) uploadId UploadAborted))
    (audit FileUploadAborted (ca_projectId ca) (ul_bucket ul) (Some (ul_path ul)) None None)))"

section \<open>Listing, removing, copying, moving\<close>

definition drop_slash :: "string \<Rightarrow> string" where
  "drop_slash s = (if ends_with s ''/'' then butlast s else s)"

definition list_objects :: "storage_caller \<Rightarrow> string \<Rightarrow> string \<Rightarrow> int \<Rightarrow> int \<Rightarrow> (exposed_object list \<times> int) storage_act" where
  "list_objects ca name prefix n offset =
     act_bind (bucketFor (ca_projectId ca) (ca_organizationId ca) name) (\<lambda>bk.
     act_bind (if prefix = '''' then act_return '''' else act_lift (assertObjectPath (drop_slash prefix))) (\<lambda>_.
     act_seq (storage_check bk ca ObjectList (if prefix = '''' then None else Some prefix))
    (act_seq (act_require (1 \<le> n \<and> n \<le> 200) (StorageFail SE_INVALID_PAGINATION 400))
    (act_seq (act_require (0 \<le> offset \<and> offset \<le> 1000000) (StorageFail SE_INVALID_PAGINATION 400))
    (let user = or_else (ca_userId ca) '''';
         scoped = (ca_kind ca = CustomerCaller \<and> ca_role ca \<noteq> ''admin'' \<and> bk_ownerIsolation bk \<and> user \<noteq> '''');
         own = user @ ''/'' in
     if scoped \<and> prefix \<noteq> '''' \<and> \<not> starts_with prefix own \<and> prefix \<noteq> user then act_return ([], 0)
     else let effective = (if scoped \<and> prefix = '''' then own else prefix) in
       meta_get (\<lambda>m. let (objects, k) = meta_listObjects (ca_projectId ca) (bk_name bk) effective (nat n) (nat offset) m in
         (map exposeObject objects, int k)))))))"

definition remove_object :: "storage_caller \<Rightarrow> string \<Rightarrow> string \<Rightarrow> unit storage_act" where
  "remove_object ca name raw =
     act_bind (bucketFor (ca_projectId ca) (ca_organizationId ca) name) (\<lambda>bk.
     act_bind (act_lift (assertObjectPath raw)) (\<lambda>path.
     act_seq (storage_check bk ca ObjectDelete (Some path))
    (act_bind (meta_get (meta_getObject (ca_projectId ca) (bk_name bk) path)) (\<lambda>found.
     act_bind (act_some found (StorageFail SE_NOT_FOUND 404)) (\<lambda>record.
     act_seq (on_disk (provider_delete (ob_storageKey record)))
    (act_seq (meta_do (meta_deleteObject (ca_projectId ca) (bk_name bk) path))
    (act_seq (meta_do (meta_adjustUsage (ca_projectId ca) (- 1) (- ob_size record)))
    (audit FileDeleted (ca_projectId ca) (bk_name bk) (Some path) None None))))))))"

definition copyOrMove :: "storage_service \<Rightarrow> instant \<Rightarrow> string \<Rightarrow> storage_caller \<Rightarrow> string \<Rightarrow> string \<Rightarrow> string \<Rightarrow> bool \<Rightarrow>
    exposed_object storage_act" where
  "copyOrMove sv now nid ca name raw rawDest isMove =
     act_bind (bucketFor (ca_projectId ca) (ca_organizationId ca) name) (\<lambda>bk.
     act_bind (act_lift (assertObjectPath raw)) (\<lambda>path.
     act_bind (act_lift (assertObjectPath rawDest)) (\<lambda>dest.
     act_seq (storage_check bk ca (if isMove then ObjectMove else ObjectCopy) (Some path))
    (act_seq (storage_check bk ca ObjectUpload (Some dest))
    (act_bind (meta_get (meta_getObject (ca_projectId ca) (bk_name bk) path)) (\<lambda>found.
     act_bind (act_some found (StorageFail SE_NOT_FOUND 404)) (\<lambda>record.
     act_bind (meta_get (meta_getObject (ca_projectId ca) (bk_name bk) dest)) (\<lambda>there.
     act_seq (act_require (there = None) (StorageFail SE_CONFLICT 409))
    (act_seq (if isMove then act_return () else
       act_bind (on_meta (meta_usage (ca_projectId ca))) (\<lambda>usage.
       act_require (\<not> uc_bytes usage + ob_size record > sv_quotaBytes sv) (StorageFail SE_QUOTA_EXCEEDED 403)))
    (act_bind (act_lift (storageKeyFor (ca_projectId ca) (bk_name bk) dest)) (\<lambda>destKey.
     act_seq (on_disk (provider_copy (ob_storageKey record) destKey))
    (act_bind (on_meta (meta_putObject now nid \<lparr>po_organizationId = ca_organizationId ca, po_projectId = ca_projectId ca,
         po_bucketId = bk_id bk, po_bucket = bk_name bk, po_path = dest, po_filename = fileNameOf dest,
         po_mimeType = ob_mimeType record, po_size = ob_size record, po_etag = ob_etag record,
         po_storageKey = destKey, po_metadata = []\<rparr>)) (\<lambda>copied.
     act_seq (if isMove then
         act_seq (on_disk (provider_delete (ob_storageKey record)))
        (act_seq (meta_do (meta_deleteObject (ca_projectId ca) (bk_name bk) path))
        (audit FileMoved (ca_projectId ca) (bk_name bk) (Some path) (Some dest) None))
       else
         act_seq (meta_do (meta_recordUpload (ca_projectId ca) (ob_size record)))
        (audit FileCopied (ca_projectId ca) (bk_name bk) (Some path) (Some dest) None))
     (act_return (exposeObject copied)))))))))))))))"

definition move_object :: "storage_service \<Rightarrow> instant \<Rightarrow> string \<Rightarrow> storage_caller \<Rightarrow> string \<Rightarrow> string \<Rightarrow> string \<Rightarrow>
    exposed_object storage_act" where
  "move_object sv now nid ca name raw rawDest = copyOrMove sv now nid ca name raw rawDest True"

definition copy_object :: "storage_service \<Rightarrow> instant \<Rightarrow> string \<Rightarrow> storage_caller \<Rightarrow> string \<Rightarrow> string \<Rightarrow> string \<Rightarrow>
    exposed_object storage_act" where
  "copy_object sv now nid ca name raw rawDest = copyOrMove sv now nid ca name raw rawDest False"

section \<open>Signed access\<close>

definition sign_object :: "storage_service \<Rightarrow> instant \<Rightarrow> string \<Rightarrow> storage_caller \<Rightarrow> string \<Rightarrow> string \<Rightarrow> signed_op \<Rightarrow> int \<Rightarrow>
    (string \<times> instant) storage_act" where
  "sign_object sv now nonce ca name raw p expiresInSeconds =
     act_bind (bucketFor (ca_projectId ca) (ca_organizationId ca) name) (\<lambda>bk.
     act_bind (act_lift (assertObjectPath raw)) (\<lambda>path.
     act_seq (storage_check bk ca ObjectSign (Some path))
    (act_seq (act_require (60 \<le> expiresInSeconds \<and> expiresInSeconds \<le> sv_maxSignedTtlSeconds sv)
        (StorageFail SE_INVALID_TTL 400))
    (act_seq (if p = SignDownload then
         act_bind (meta_get (meta_getObject (ca_projectId ca) (bk_name bk) path)) (\<lambda>found.
         act_require (found \<noteq> None) (StorageFail SE_NOT_FOUND 404))
       else act_return ())
    (let expires = epoch_seconds now + expiresInSeconds in
     act_bind (act_lift (signToken (sv_hmac sv) (sv_signingSecret sv) \<lparr>sg_projectId = ca_projectId ca,
        sg_bucket = bk_name bk, sg_path = path, sg_op = p, sg_exp = expires, sg_nonce = nonce\<rparr>
        (sv_maxSignedTtlSeconds sv) now)) (\<lambda>token.
     act_return (token, expires * 1000)))))))"

definition verifySigned :: "storage_service \<Rightarrow> instant \<Rightarrow> string \<Rightarrow> string \<Rightarrow> signed_op \<Rightarrow> (json \<times> json) storage_result" where
  "verifySigned sv now projectId token p =
     and_then (verifyCapability (sv_hmac sv) (sv_json_parse sv) (sv_signingSecret sv) now token) (\<lambda>claims.
     if json_field claims ''projectId'' \<noteq> JStr projectId \<or> json_field claims ''op'' \<noteq> JStr (signed_op_text p)
     then bad_signature
     else Inr (json_field claims ''bucket'', json_field claims ''path''))"

definition storage_usage :: "storage_service \<Rightarrow> storage_caller \<Rightarrow> (usage_counters \<times> int) storage_act" where
  "storage_usage sv ca =
     act_bind (on_meta (meta_usage (ca_projectId ca))) (\<lambda>u. act_return (u, sv_quotaBytes sv))"

section \<open>Project deletion\<close>

text \<open>One object of a batch; the error of the provider is dropped.\<close>

definition purge_object :: "string \<Rightarrow> string \<Rightarrow> stored_object \<Rightarrow> storage_state \<Rightarrow> storage_state" where
  "purge_object projectId name ob s =
     (let s1 = snd (quietly (on_disk (provider_delete (ob_storageKey ob))) s) in
      s1\<lparr>ss_meta := meta_deleteObject projectId name (ob_path ob) (ss_meta s1)\<rparr>)"

text \<open>\<open>for (;;)\<close> over batches of two hundred until one is empty; \<open>None\<close> if that never happens.\<close>

partial_function (option) purge_bucket :: "string \<Rightarrow> string \<Rightarrow> nat \<Rightarrow> storage_state \<Rightarrow> (nat \<times> storage_state) option" where
  "purge_bucket projectId name n s =
     (let batch = fst (meta_listObjects projectId name '''' 200 0 (ss_meta s)) in
      if batch = [] then Some (n, s)
      else purge_bucket projectId name (n + length batch) (fold (purge_object projectId name) batch s))"

fun purge_buckets :: "string \<Rightarrow> bucket list \<Rightarrow> nat \<Rightarrow> nat \<Rightarrow> storage_state \<Rightarrow> (nat \<times> nat \<times> storage_state) option" where
  "purge_buckets projectId [] b n s = Some (b, n, s)"
| "purge_buckets projectId (bk # bks) b n s =
     (case purge_bucket projectId (bk_name bk) n s of None \<Rightarrow> None
      | Some (n', s') \<Rightarrow> purge_buckets projectId bks (b + 1) n'
          (s'\<lparr>ss_meta := meta_deleteBucket projectId (bk_name bk) (ss_meta s')\<rparr>))"

definition deleteProjectData :: "string \<Rightarrow> storage_state \<Rightarrow> (nat \<times> nat \<times> storage_state) option" where
  "deleteProjectData projectId s =
     (case purge_buckets projectId (meta_listBuckets projectId (ss_meta s)) 0 0 s of None \<Rightarrow> None
      | Some (b, n, s') \<Rightarrow>
          (let (usage, m) = meta_usage projectId (ss_meta s') in
           Some (b, n, s'\<lparr>ss_meta := meta_adjustUsage projectId (- uc_files usage) (- uc_bytes usage) m\<rparr>)))"

end
