(* ===== verification/StorageInvariants.thy ===== *)
theory StorageInvariants
  imports StorageService
begin

text \<open>
  What every operation of the storage service keeps: records stand under their own keys and name an existing
  bucket, the usage counters of a project are the number and the bytes of its records, and stay within the quota.
\<close>

section \<open>Keys\<close>

lemma split_last_slash:
  assumes "p @ [c] @ a = q @ [c] @ b" and "c \<notin> set a" and "c \<notin> set b"
  shows "p = q \<and> a = b"
proof -
  have "rev (a :: 'a list) = takeWhile (\<lambda>x. x \<noteq> c) (rev (p @ [c] @ a))"
    using assms(2) by (simp add: takeWhile_append takeWhile_eq_all_conv)
  also have "\<dots> = rev b" using assms(1,3) by (simp add: takeWhile_append takeWhile_eq_all_conv)
  finally show ?thesis using assms(1) by simp
qed

lemma split_first_slash:
  assumes "p @ [c] @ a = q @ [c] @ b" and "c \<notin> set p" and "c \<notin> set q"
  shows "p = q \<and> a = b"
proof -
  have "(p :: 'a list) = takeWhile (\<lambda>x. x \<noteq> c) (p @ [c] @ a)" using assms(2) by (simp add: takeWhile_append takeWhile_eq_all_conv)
  also have "\<dots> = q" using assms(1,3) by (simp add: takeWhile_append takeWhile_eq_all_conv)
  finally show ?thesis using assms(1) by simp
qed

lemma bucketKey_inj: "bucketKey p a = bucketKey q b \<Longrightarrow> bucket_ok a \<Longrightarrow> bucket_ok b \<Longrightarrow> p = q \<and> a = b"
  unfolding bucketKey_def by (rule split_last_slash) (auto dest: bucket_ok_no_slash)

lemma objectKey_inj:
  assumes "objectKey p a x = objectKey q b y" and "scope_ok p" and "scope_ok q" and "bucket_ok a" and "bucket_ok b"
  shows "p = q \<and> a = b \<and> x = y"
proof -
  have "p = q \<and> a @ ''/'' @ x = b @ ''/'' @ y"
    using assms(1) unfolding objectKey_def
    using assms(2,3) by - (rule split_first_slash, auto dest: scope_ok_no_slash)
  moreover have "a @ ''/'' @ x = b @ ''/'' @ y \<Longrightarrow> a = b \<and> x = y"
    using assms(4,5) by - (rule split_first_slash, auto dest: bucket_ok_no_slash)
  ultimately show ?thesis by blast
qed

lemma scope_ok_no_colon: "scope_ok p \<Longrightarrow> CHR '':'' \<notin> set p"
  using scope_char_segment segment_char_facts by (auto simp: scope_ok_def list_all_iff)

lemma uploadKey_inj: "uploadKey p i = uploadKey q j \<Longrightarrow> scope_ok p \<Longrightarrow> scope_ok q \<Longrightarrow> p = q \<and> i = j"
  unfolding uploadKey_def by (rule split_first_slash) (auto dest: scope_ok_no_colon)

text \<open>The file of an object.\<close>

definition object_file :: "string \<Rightarrow> string \<Rightarrow> string \<Rightarrow> string list" where
  "object_file pid name path = (''p_'' @ pid) # (''b_'' @ name) # split_on (CHR ''/'') path"

lemma object_file_inj: "object_file p a x = object_file q b y \<longleftrightarrow> p = q \<and> a = b \<and> x = y"
proof -
  have "split_on (CHR ''/'') x = split_on (CHR ''/'') y \<Longrightarrow> x = y" by (metis join_split)
  then show ?thesis by (auto simp: object_file_def)
qed

lemma alnum_letter: "is_alnum (CHR ''p'')" "is_alnum (CHR ''b'')"
  by (simp_all add: is_alnum_def is_lower_def code_def)

lemma prefixed_segment:
  assumes "is_alnum c" and "list_all segment_char s" and "length s \<le> 126"
  shows "segment_ok (c # CHR ''_'' # s)"
  using assms by (simp add: segment_ok_def segment_char_def)

lemma provider_key_object:
  assumes "scope_ok pid" and "bucket_ok name" and "normal_path path"
  shows "assertProviderKey (''p_'' @ pid @ ''/b_'' @ name @ ''/'' @ path) = Inr (object_file pid name path)"
proof -
  let ?k = "''p_'' @ pid @ ''/b_'' @ name @ ''/'' @ path"
  have s: "segment_ok (''p_'' @ pid)"
    using assms(1) alnum_letter prefixed_segment [of "CHR ''p''" pid]
    by (simp add: scope_ok_def list_all_iff scope_char_segment)
  have b: "segment_ok (''b_'' @ name)"
    using assms(2) alnum_letter prefixed_segment [of "CHR ''b''" name]
    by (simp add: bucket_ok_def list_all_iff bucket_char_no_slash)
  have "segment_char c \<or> c = CHR ''/''" if "c \<in> set pid \<union> set name \<union> set path" for c
    using that assms scope_char_segment bucket_char_no_slash normal_path_chars [OF assms(3)]
    by (auto simp: scope_ok_def bucket_ok_def list_all_iff)
  then have "CHR 0x5C \<notin> set pid \<union> set name \<union> set path" using segment_char_facts by fastforce
  then have chars: "CHR 0x5C \<notin> set ?k" by simp
  have sp: "split_on (CHR ''/'') ?k = object_file pid name path"
    unfolding object_file_def using assms by (intro split_on_key) (simp_all add: scope_ok_no_slash bucket_ok_no_slash)
  have "list_all segment_ok (object_file pid name path)"
    using s b assms(3) by (simp add: object_file_def normal_path_def)
  then have "\<not> list_ex (\<lambda>p. p = '''' \<or> p = ''.'' \<or> p = ''..'' \<or> \<not> segment_ok p) (object_file pid name path)"
    using segment_ok_not_dots segment_ok_nonempty by (auto simp: list_ex_iff list_all_iff)
  moreover have "length (object_file pid name path) \<ge> 3" "length (object_file pid name path) \<le> 34"
    using assms(3) by (simp_all add: object_file_def normal_path_def Suc_le_eq)
  ultimately show ?thesis unfolding assertProviderKey_def Let_def slashes_id [OF chars] sp by auto
qed

section \<open>Sums over a map\<close>

definition total_of :: "('v \<Rightarrow> int) \<Rightarrow> ('k, 'v) jsmap \<Rightarrow> int" where
  "total_of f m = sum_list (map f (js_values m))"

lemma total_of_set: "js_ok m \<Longrightarrow>
   total_of f (js_set k v m) = total_of f m + f v - (case js_get m k of Some u \<Rightarrow> f u | None \<Rightarrow> 0)"
proof (induction m)
  case (Cons a m)
  then show ?case by (cases a) (auto simp: total_of_def js_ok_def)
qed (simp add: total_of_def)

lemma total_of_delete: "js_ok m \<Longrightarrow> total_of f (js_delete k m) = total_of f m - (case js_get m k of Some u \<Rightarrow> f u | None \<Rightarrow> 0)"
proof (induction m)
  case (Cons a m)
  obtain j u where a: "a = (j, u)" by (cases a)
  then have "js_get m j = None" "js_ok m" using Cons.prems by (simp_all add: js_ok_def map_of_eq_None_iff)
  moreover have "k = j \<Longrightarrow> js_get m k = None \<Longrightarrow> js_delete k m = m"
    by (simp add: AList.delete_eq filter_id_conv map_of_eq_None_iff) force
  ultimately show ?case using Cons.IH a by (auto simp: total_of_def)
qed (simp add: total_of_def)

lemma total_of_nonneg: "\<forall>v\<in>set (js_values m). 0 \<le> f v \<Longrightarrow> 0 \<le> total_of f m"
  by (induction m) (auto simp: total_of_def)

lemma total_of_member:
  assumes "\<forall>v\<in>set (js_values m). 0 \<le> f v" and "js_ok m" and "js_get m k = Some u"
  shows "f u \<le> total_of f m"
proof -
  have "\<forall>v\<in>set (js_values (js_delete k m)). 0 \<le> f v"
    by (rule ballI) (rule bspec [OF assms(1) subsetD [OF js_delete_values]])
  then have "0 \<le> total_of f (js_delete k m)" by (rule total_of_nonneg)
  then show ?thesis using assms(2,3) by (simp add: total_of_delete)
qed

section \<open>Well-formed metadata\<close>

definition object_wf :: "string \<Rightarrow> stored_object \<Rightarrow> bool" where
  "object_wf k ob \<longleftrightarrow> k = objectKey (ob_projectId ob) (ob_bucket ob) (ob_path ob) \<and> scope_ok (ob_projectId ob) \<and>
     bucket_ok (ob_bucket ob) \<and> normal_path (ob_path ob) \<and> 0 \<le> ob_size ob \<and>
     ob_storageKey ob = ''p_'' @ ob_projectId ob @ ''/b_'' @ ob_bucket ob @ ''/'' @ ob_path ob"

definition bucket_wf :: "string \<Rightarrow> bucket \<Rightarrow> bool" where
  "bucket_wf k bk \<longleftrightarrow> k = bucketKey (bk_projectId bk) (bk_name bk) \<and> bucket_ok (bk_name bk)"

definition meta_ok :: "storage_meta \<Rightarrow> bool" where
  "meta_ok m \<longleftrightarrow> js_ok (sm_objects m) \<and> js_ok (sm_buckets m) \<and>
     (\<forall>k ob. js_get (sm_objects m) k = Some ob \<longrightarrow> object_wf k ob) \<and>
     (\<forall>k bk. js_get (sm_buckets m) k = Some bk \<longrightarrow> bucket_wf k bk) \<and>
     (\<forall>k ob. js_get (sm_objects m) k = Some ob \<longrightarrow>
        js_get (sm_buckets m) (bucketKey (ob_projectId ob) (ob_bucket ob)) \<noteq> None)"

definition usage_of :: "string \<Rightarrow> storage_meta \<Rightarrow> usage_counters" where
  "usage_of p m = or_else (js_get (sm_usage m) p) no_usage"

definition files_of :: "string \<Rightarrow> storage_meta \<Rightarrow> int" where
  "files_of p m = total_of (\<lambda>ob. if ob_projectId ob = p then 1 else 0) (sm_objects m)"

definition bytes_of :: "string \<Rightarrow> storage_meta \<Rightarrow> int" where
  "bytes_of p m = total_of (\<lambda>ob. if ob_projectId ob = p then ob_size ob else 0) (sm_objects m)"

definition counted :: "storage_meta \<Rightarrow> bool" where
  "counted m \<longleftrightarrow> (\<forall>p. uc_files (usage_of p m) = files_of p m \<and> uc_bytes (usage_of p m) = bytes_of p m)"

definition storage_inv :: "storage_service \<Rightarrow> storage_state \<Rightarrow> bool" where
  "storage_inv sv s \<longleftrightarrow> meta_ok (ss_meta s) \<and> counted (ss_meta s) \<and>
     (\<forall>p. uc_bytes (usage_of p (ss_meta s)) \<le> sv_quotaBytes sv)"

lemma files_of_alt: "files_of p m = int (length (filter (\<lambda>ob. ob_projectId ob = p) (js_values (sm_objects m))))"
proof -
  have "sum_list (map (\<lambda>ob. if ob_projectId ob = p then 1 else 0) obs) = int (length (filter (\<lambda>ob. ob_projectId ob = p) obs))"
    for obs :: "stored_object list"
    by (induction obs) auto
  then show ?thesis by (simp only: files_of_def total_of_def)
qed

lemma bytes_of_alt: "bytes_of p m = sum_list (map ob_size (filter (\<lambda>ob. ob_projectId ob = p) (js_values (sm_objects m))))"
  by (simp add: bytes_of_def total_of_def sum_list_map_filter')

lemma meta_ok_object: "meta_ok m \<Longrightarrow> js_get (sm_objects m) k = Some ob \<Longrightarrow> object_wf k ob"
  by (simp add: meta_ok_def)

lemma meta_ok_bucket: "meta_ok m \<Longrightarrow> js_get (sm_buckets m) k = Some bk \<Longrightarrow> bucket_wf k bk"
  by (simp add: meta_ok_def)

lemma meta_ok_value: "meta_ok m \<Longrightarrow> ob \<in> set (js_values (sm_objects m)) \<Longrightarrow>
    js_get (sm_objects m) (objectKey (ob_projectId ob) (ob_bucket ob) (ob_path ob)) = Some ob"
  by (metis js_values_get meta_ok_def object_wf_def)

lemma getObject_wf:
  assumes "meta_ok m" and "meta_getObject p name path m = Some ob" and "scope_ok p" and "bucket_ok name"
  shows "ob_projectId ob = p" "ob_bucket ob = name" "ob_path ob = path" "normal_path path" "0 \<le> ob_size ob"
    "ob_storageKey ob = ''p_'' @ p @ ''/b_'' @ name @ ''/'' @ path"
proof -
  have w: "object_wf (objectKey p name path) ob" using assms by (simp add: meta_getObject_def meta_ok_object)
  then have "p = ob_projectId ob \<and> name = ob_bucket ob \<and> path = ob_path ob"
    using assms by (auto simp: object_wf_def dest: objectKey_inj)
  then show "ob_projectId ob = p" "ob_bucket ob = name" "ob_path ob = path" "normal_path path" "0 \<le> ob_size ob"
    "ob_storageKey ob = ''p_'' @ p @ ''/b_'' @ name @ ''/'' @ path" using w by (auto simp: object_wf_def)
qed

lemma getBucket_wf:
  assumes "meta_ok m" and "meta_getBucket p name m = Some bk" and "bucket_ok name"
  shows "bk_projectId bk = p \<and> bk_name bk = name"
  using assms bucketKey_inj [of p name "bk_projectId bk" "bk_name bk"] meta_ok_bucket
  by (force simp: meta_getBucket_def bucket_wf_def)

section \<open>Effects on the metadata\<close>

definition meta_inv :: "storage_service \<Rightarrow> storage_meta \<Rightarrow> bool" where
  "meta_inv sv m \<longleftrightarrow> meta_ok m \<and> counted m \<and> (\<forall>p. uc_bytes (usage_of p m) \<le> sv_quotaBytes sv)"

lemma storage_inv_meta: "storage_inv sv s = meta_inv sv (ss_meta s)"
  by (simp add: storage_inv_def meta_inv_def)

lemma counters_usage [simp]: "fst (counters p m) = usage_of p m" "usage_of q (snd (counters p m)) = usage_of q m"
  by (auto simp: counters_def usage_of_def or_else_def split: option.split)

lemma counters_frame [simp]: "sm_objects (snd (counters p m)) = sm_objects m" "sm_buckets (snd (counters p m)) = sm_buckets m"
    "sm_uploads (snd (counters p m)) = sm_uploads m"
  by (auto simp: counters_def split: option.split)

lemma update_counters_usage [simp]: "usage_of q (update_counters f p m) = (if q = p then f (usage_of p m) else usage_of q m)"
  by (auto simp: update_counters_def counters_def usage_of_def or_else_def Let_def split: option.split)

lemma update_counters_frame [simp]: "sm_objects (update_counters f p m) = sm_objects m" "sm_buckets (update_counters f p m) = sm_buckets m"
    "sm_uploads (update_counters f p m) = sm_uploads m"
  by (auto simp: update_counters_def counters_def Let_def split: option.split)

lemmas usage_effects = meta_usage_def meta_recordUpload_def meta_recordDownload_def meta_adjustUsage_def

lemma meta_inv_cong:
  "sm_objects n = sm_objects m \<Longrightarrow> sm_buckets n = sm_buckets m \<Longrightarrow>
   (\<And>q. uc_files (usage_of q n) = uc_files (usage_of q m) \<and> uc_bytes (usage_of q n) = uc_bytes (usage_of q m)) \<Longrightarrow>
   meta_inv sv n = meta_inv sv m"
  by (simp add: meta_inv_def meta_ok_def counted_def files_of_def bytes_of_def)

lemma meta_inv_parts: "meta_inv sv m \<Longrightarrow> meta_ok m" "meta_inv sv m \<Longrightarrow> uc_files (usage_of p m) = files_of p m"
    "meta_inv sv m \<Longrightarrow> uc_bytes (usage_of p m) = bytes_of p m" "meta_inv sv m \<Longrightarrow> uc_bytes (usage_of p m) \<le> sv_quotaBytes sv"
  unfolding meta_inv_def counted_def by blast+

lemma object_sizes: "meta_ok m \<Longrightarrow> \<forall>ob\<in>set (js_values (sm_objects m)). 0 \<le> ob_size ob"
  using meta_ok_value meta_ok_object by (fastforce simp: object_wf_def)

text \<open>The counters are right when the totals change as they do.\<close>

lemma meta_invI:
  assumes "meta_inv sv m" and "meta_ok n"
    and "\<And>q. files_of q n = files_of q m + (if q = p then df else 0)"
    and "\<And>q. bytes_of q n = bytes_of q m + (if q = p then db else 0)"
    and "\<And>q. uc_files (usage_of q n) = uc_files (usage_of q m) + (if q = p then df else 0)"
    and "\<And>q. uc_bytes (usage_of q n) = uc_bytes (usage_of q m) + (if q = p then db else 0)"
    and "uc_bytes (usage_of p m) + db \<le> sv_quotaBytes sv"
  shows "meta_inv sv n"
  using assms unfolding meta_inv_def counted_def by auto

lemma put_object_effect:
  "sm_buckets (snd (meta_putObject now nid input m)) = sm_buckets m"
  "sm_usage (snd (meta_putObject now nid input m)) = sm_usage m"
  "sm_uploads (snd (meta_putObject now nid input m)) = sm_uploads m"
  "sm_objects (snd (meta_putObject now nid input m)) =
     js_set (objectKey (po_projectId input) (po_bucket input) (po_path input)) (fst (meta_putObject now nid input m)) (sm_objects m)"
  by (simp_all add: meta_putObject_def Let_def)

lemma put_object_fields:
  "ob_projectId (fst (meta_putObject now nid input m)) = po_projectId input"
  "ob_bucket (fst (meta_putObject now nid input m)) = po_bucket input"
  "ob_path (fst (meta_putObject now nid input m)) = po_path input"
  "ob_size (fst (meta_putObject now nid input m)) = po_size input"
  "ob_storageKey (fst (meta_putObject now nid input m)) = po_storageKey input"
  by (simp_all add: meta_putObject_def Let_def)

lemma usage_of_same: "sm_usage n = sm_usage m \<Longrightarrow> usage_of p n = usage_of p m"
  by (simp add: usage_of_def)

definition put_ok :: "string \<Rightarrow> string \<Rightarrow> string \<Rightarrow> put_object_input \<Rightarrow> storage_meta \<Rightarrow> bool" where
  "put_ok p name path input m \<longleftrightarrow> po_projectId input = p \<and> po_bucket input = name \<and> po_path input = path \<and>
     0 \<le> po_size input \<and> po_storageKey input = ''p_'' @ p @ ''/b_'' @ name @ ''/'' @ path \<and>
     scope_ok p \<and> bucket_ok name \<and> normal_path path \<and> js_get (sm_buckets m) (bucketKey p name) \<noteq> None"

lemma put_meta_ok:
  assumes "meta_ok m" and "put_ok p name path input m"
  shows "meta_ok (snd (meta_putObject now nid input m))"
proof -
  let ?ob = "fst (meta_putObject now nid input m)"
  have "object_wf (objectKey p name path) ?ob"
    using assms(2) by (simp add: object_wf_def put_object_fields put_ok_def)
  then show ?thesis
    using assms unfolding meta_ok_def put_ok_def by (auto simp: put_object_effect put_object_fields js_ok_set)
qed

lemma put_totals:
  assumes "meta_ok m" and "put_ok p name path input m" and n_def: "n = snd (meta_putObject now nid input m)"
    and old_def: "old = meta_getObject p name path m"
  shows "files_of q n = files_of q m + (if q = p then (if old = None then 1 else 0) else 0)"
    and "bytes_of q n = bytes_of q m + (if q = p then po_size input - (case old of Some ob \<Rightarrow> ob_size ob | None \<Rightarrow> 0) else 0)"
proof -
  have p: "old = Some ob \<Longrightarrow> ob_projectId ob = p" for ob
    using assms(1,2) getObject_wf(1) unfolding old_def put_ok_def by blast
  have "js_ok (sm_objects m)" using assms(1) by (simp add: meta_ok_def)
  then show "files_of q n = files_of q m + (if q = p then (if old = None then 1 else 0) else 0)"
    "bytes_of q n = bytes_of q m + (if q = p then po_size input - (case old of Some ob \<Rightarrow> ob_size ob | None \<Rightarrow> 0) else 0)"
    using assms(2) p by (auto simp: files_of_def bytes_of_def n_def put_object_effect total_of_set put_object_fields put_ok_def
        old_def meta_getObject_def split: option.split)
qed

lemma put_inv:
  assumes m: "meta_inv sv m" and ok: "put_ok p name path input m"
    and quota: "uc_bytes (usage_of p m) + po_size input \<le> sv_quotaBytes sv"
  shows "meta_inv sv (case meta_getObject p name path m of
      Some old \<Rightarrow> meta_adjustUsage p 0 (po_size input - ob_size old) (snd (meta_putObject now nid input m))
    | None \<Rightarrow> meta_recordUpload p (po_size input) (snd (meta_putObject now nid input m)))"
proof -
  let ?n = "snd (meta_putObject now nid input m)"
  note mok = meta_inv_parts(1) [OF m]
  note totals = put_totals [OF mok ok HOL.refl [of ?n] HOL.refl]
  have n: "meta_ok ?n" by (rule put_meta_ok [OF mok ok])
  have u: "usage_of q ?n = usage_of q m" for q by (rule usage_of_same) (simp add: put_object_effect)
  show ?thesis
  proof (cases "meta_getObject p name path m")
    case None
    with totals have "meta_inv sv (meta_recordUpload p (po_size input) ?n)"
      using n quota u by (intro meta_invI [where p = p and df = 1 and db = "po_size input", OF m])
        (auto simp: usage_effects meta_ok_def files_of_def bytes_of_def)
    with None show ?thesis by simp
  next
    case (Some old)
    then have old: "ob_projectId old = p" "0 \<le> ob_size old"
      using getObject_wf [OF mok Some] ok by (simp_all add: put_ok_def)
    have "(if ob_projectId old = p then ob_size old else 0) \<le> bytes_of p m"
      unfolding bytes_of_def using Some mok object_sizes [OF mok]
      by (intro total_of_member) (auto simp: meta_getObject_def meta_ok_def)
    then have "ob_size old \<le> uc_bytes (usage_of p m)" "0 \<le> uc_files (usage_of p m)"
      using old meta_inv_parts(2,3) [OF m, of p] by (simp_all add: files_of_alt)
    with totals Some old have "meta_inv sv (meta_adjustUsage p 0 (po_size input - ob_size old) ?n)"
      using n quota u ok by (intro meta_invI [where p = p and df = 0 and db = "po_size input - ob_size old", OF m])
        (auto simp: usage_effects meta_ok_def files_of_def bytes_of_def put_ok_def)
    with Some show ?thesis by simp
  qed
qed

text \<open>Deleting the record of an object.\<close>

lemma delete_frame [simp]:
  "sm_buckets (meta_deleteObject p name path m) = sm_buckets m" "sm_usage (meta_deleteObject p name path m) = sm_usage m"
  "sm_uploads (meta_deleteObject p name path m) = sm_uploads m"
  "sm_objects (meta_deleteObject p name path m) = js_delete (objectKey p name path) (sm_objects m)"
  by (simp_all add: meta_deleteObject_def)

lemma delete_meta_ok: "meta_ok m \<Longrightarrow> meta_ok (meta_deleteObject p name path m)"
  by (auto simp: meta_ok_def js_ok_delete)

lemma delete_totals:
  assumes "meta_ok m" and "meta_getObject p name path m = Some ob" and "scope_ok p" and "bucket_ok name"
  shows "files_of q (meta_deleteObject p name path m) = files_of q m - (if q = p then 1 else 0)"
    and "bytes_of q (meta_deleteObject p name path m) = bytes_of q m - (if q = p then ob_size ob else 0)"
  using assms getObject_wf(1) [OF assms]
  by (auto simp: files_of_def bytes_of_def total_of_delete meta_ok_def meta_getObject_def)

lemma remove_inv:
  assumes m: "meta_inv sv m" and ob: "meta_getObject p name path m = Some ob" and ok: "scope_ok p" "bucket_ok name"
  shows "meta_inv sv (meta_adjustUsage p (- 1) (- ob_size ob) (meta_deleteObject p name path m))"
proof -
  let ?n = "meta_deleteObject p name path m"
  note mok = meta_inv_parts(1) [OF m]
  have u: "usage_of q ?n = usage_of q m" for q by (rule usage_of_same) simp
  have n: "meta_ok ?n" by (rule delete_meta_ok [OF mok])
  have "files_of p ?n = files_of p m - 1" "bytes_of p ?n = bytes_of p m - ob_size ob"
    using delete_totals [OF mok ob ok] by simp_all
  moreover have "0 \<le> files_of p ?n" by (simp add: files_of_alt)
  moreover have "0 \<le> bytes_of p ?n"
    unfolding bytes_of_def using object_sizes [OF n] by (intro total_of_nonneg) auto
  ultimately have "uc_files (usage_of p m) \<ge> 1" "uc_bytes (usage_of p m) \<ge> ob_size ob"
    using meta_inv_parts(2,3) [OF m, of p] by simp_all
  then show ?thesis
    using delete_totals [OF mok ob ok] n u getObject_wf(5) [OF mok ob ok] meta_inv_parts(4) [OF m, of p]
    by (intro meta_invI [where p = p and df = "- 1" and db = "- ob_size ob", OF m])
      (auto simp: usage_effects meta_ok_def files_of_def bytes_of_def)
qed

lemma move_inv:
  assumes m: "meta_inv sv m" and ob: "meta_getObject p name path m = Some ob"
    and ok: "put_ok p name dest input m" and new: "meta_getObject p name dest m = None" and sz: "po_size input = ob_size ob"
  shows "meta_inv sv (meta_deleteObject p name path (snd (meta_putObject now nid input m)))"
proof -
  let ?n = "snd (meta_putObject now nid input m)"
  note mok = meta_inv_parts(1) [OF m]
  have sb: "scope_ok p" "bucket_ok name" using ok by (simp_all add: put_ok_def)
  have n: "meta_ok ?n" by (rule put_meta_ok [OF mok ok])
  have "path \<noteq> dest" using ob new by auto
  then have "objectKey p name path \<noteq> objectKey p name dest" using sb objectKey_inj by blast
  then have there: "meta_getObject p name path ?n = Some ob"
    using ob ok by (simp add: meta_getObject_def put_object_effect put_ok_def)
  have u: "usage_of q (meta_deleteObject p name path ?n) = usage_of q m" for q
    by (rule usage_of_same) (simp add: put_object_effect)
  show ?thesis
    using delete_totals [OF n there sb] put_totals [OF mok ok HOL.refl [of ?n] HOL.refl] new sz u delete_meta_ok [OF n]
      meta_inv_parts(4) [OF m, of p]
    by (intro meta_invI [where p = p and df = 0 and db = 0, OF m]) auto
qed

text \<open>Buckets.\<close>

lemma meta_inv_objects:
  assumes "meta_inv sv m" and "meta_ok n" and "sm_objects n = sm_objects m" and "sm_usage n = sm_usage m"
  shows "meta_inv sv n"
  using assms by (intro meta_invI [where p = "[]" and df = 0 and db = 0, OF assms(1)])
    (simp_all add: files_of_def bytes_of_def usage_of_def meta_inv_parts(4) [unfolded usage_of_def])

lemma bucket_put_inv:
  assumes m: "meta_inv sv m" and b: "bucket_wf k bk" and n: "n = m\<lparr>sm_buckets := js_set k bk (sm_buckets m)\<rparr>"
  shows "meta_inv sv n"
proof -
  have "meta_ok n" using meta_inv_parts(1) [OF m] b n by (auto simp: meta_ok_def js_ok_set)
  then show ?thesis using n by (intro meta_inv_objects [OF m]) simp_all
qed

lemma bucket_delete_inv:
  assumes m: "meta_inv sv m" and empty: "meta_countObjectsInBucket p name m \<le> 0" and name: "bucket_ok name"
  shows "meta_inv sv (meta_deleteBucket p name m)"
proof -
  have "bucketKey (ob_projectId ob) (ob_bucket ob) \<noteq> bucketKey p name" if g: "js_get (sm_objects m) k = Some ob" for k ob
  proof
    assume e: "bucketKey (ob_projectId ob) (ob_bucket ob) = bucketKey p name"
    have "bucket_ok (ob_bucket ob)" using meta_ok_object [OF meta_inv_parts(1) [OF m] g] by (simp add: object_wf_def)
    then have "ob_projectId ob = p \<and> ob_bucket ob = name" using bucketKey_inj [OF e] name by blast
    then have "ob \<in> set (filter (\<lambda>ob. ob_projectId ob = p \<and> ob_bucket ob = name) (js_values (sm_objects m)))"
      using js_get_values [OF g] by simp
    then show False using empty unfolding meta_countObjectsInBucket_def by (metis length_pos_if_in_set of_nat_0_less_iff not_less)
  qed
  then have "meta_ok (meta_deleteBucket p name m)"
    using meta_inv_parts(1) [OF m] by (auto simp: meta_ok_def meta_deleteBucket_def js_ok_delete)
  then show ?thesis by (intro meta_inv_objects [OF m]) (simp_all add: meta_deleteBucket_def)
qed

lemma createBucket_meta_inv: "meta_inv sv m \<Longrightarrow> bucket_ok (cb_name input) \<Longrightarrow> meta_inv sv (snd (meta_createBucket now nid input m))"
  by (auto simp: meta_createBucket_def Let_def bucket_wf_def intro!: bucket_put_inv [of sv m])

lemma updateBucket_meta_inv: "meta_inv sv m \<Longrightarrow> meta_inv sv (snd (meta_updateBucket now p name patch m))"
proof (cases "js_get (sm_buckets m) (bucketKey p name)")
  case (Some bk)
  assume m: "meta_inv sv m"
  have "bucket_wf (bucketKey p name) bk" by (rule meta_ok_bucket [OF meta_inv_parts(1) [OF m] Some])
  then have "bucket_wf (bucketKey p name) (apply_patch now patch bk)" by (simp add: bucket_wf_def apply_patch_def)
  then show ?thesis by (rule bucket_put_inv [OF m]) (simp add: meta_updateBucket_def Let_def Some)
qed (simp add: meta_updateBucket_def)

lemma uploads_meta_inv:
  "meta_inv sv (m\<lparr>sm_uploads := us\<rparr>) = meta_inv sv m"
  by (rule meta_inv_cong) (simp_all add: usage_of_def)

lemma session_meta_inv:
  "meta_inv sv m \<Longrightarrow> meta_inv sv (snd (meta_createUploadSession now nid ui m))"
  "meta_inv sv m \<Longrightarrow> meta_inv sv (snd (meta_recordUploadPart now p uid i b m))"
  "meta_inv sv m \<Longrightarrow> meta_inv sv (meta_finishUploadSession p uid st m)"
  "meta_inv sv m \<Longrightarrow> meta_inv sv (snd (meta_pruneUploadSessions before m))"
  by (auto simp: meta_createUploadSession_def meta_recordUploadPart_def meta_finishUploadSession_def
      meta_pruneUploadSessions_def Let_def uploads_meta_inv split: option.split)

lemma counters_meta_inv: "meta_inv sv m \<Longrightarrow> meta_inv sv (snd (counters p m))"
  using meta_inv_cong [of "snd (counters p m)" m sv] by simp

lemma recordDownload_meta_inv: "meta_inv sv m \<Longrightarrow> meta_inv sv (meta_recordDownload p m)"
  using meta_inv_cong [of "meta_recordDownload p m" m sv] by (simp add: meta_recordDownload_def)

section \<open>What belongs to a project\<close>

text \<open>Two states that differ at most in what belongs to project \<open>p\<close>.\<close>

definition meta_outside :: "string \<Rightarrow> storage_meta \<Rightarrow> storage_meta \<Rightarrow> bool" where
  "meta_outside p m n \<longleftrightarrow>
     (\<forall>k. js_get (sm_objects n) k = js_get (sm_objects m) k \<or> (\<exists>b x. k = objectKey p b x)) \<and>
     (\<forall>k. js_get (sm_buckets n) k = js_get (sm_buckets m) k \<or> (\<exists>b. k = bucketKey p b \<and> bucket_ok b)) \<and>
     (\<forall>k. js_get (sm_uploads n) k = js_get (sm_uploads m) k \<or> (\<exists>i. k = uploadKey p i)) \<and>
     (\<forall>q. q \<noteq> p \<longrightarrow> usage_of q n = usage_of q m)"

definition disk_outside :: "string \<Rightarrow> disk \<Rightarrow> disk \<Rightarrow> bool" where
  "disk_outside p d e \<longleftrightarrow> (\<forall>f. js_get (dk_files e) f = js_get (dk_files d) f \<or> (\<exists>r. f = (''p_'' @ p) # r))"

lemma meta_outside_refl: "meta_outside p m m"
  by (simp add: meta_outside_def)

lemma meta_outside_trans: "meta_outside p m n \<Longrightarrow> meta_outside p n k \<Longrightarrow> meta_outside p m k"
  unfolding meta_outside_def by (intro conjI allI) metis+

lemma disk_outside_refl: "disk_outside p d d"
  by (simp add: disk_outside_def)

lemma disk_outside_trans: "disk_outside p d e \<Longrightarrow> disk_outside p e f \<Longrightarrow> disk_outside p d f"
  unfolding disk_outside_def by metis

lemma put_outside: "po_projectId input = p \<Longrightarrow> meta_outside p m (snd (meta_putObject now nid input m))"
  by (auto simp: meta_outside_def put_object_effect usage_of_def)

lemma delete_outside: "meta_outside p m (meta_deleteObject p name path m)"
  by (auto simp: meta_outside_def usage_of_def)

lemma counters_outside: "meta_outside p m (snd (counters p m))" "meta_outside p m (update_counters f p m)"
  by (simp_all add: meta_outside_def)

lemma session_outside:
  "ui_projectId ui = p \<Longrightarrow> meta_outside p m (snd (meta_createUploadSession now nid ui m))"
  "meta_outside p m (snd (meta_recordUploadPart now p uid i b m))"
  "meta_outside p m (meta_finishUploadSession p uid st m)"
  by (auto simp: meta_outside_def meta_createUploadSession_def meta_recordUploadPart_def meta_finishUploadSession_def
      Let_def usage_of_def split: option.split)

lemma bucket_outside:
  "cb_projectId input = p \<Longrightarrow> bucket_ok (cb_name input) \<Longrightarrow> meta_outside p m (snd (meta_createBucket now nid input m))"
  "bucket_ok name \<Longrightarrow> meta_outside p m (snd (meta_updateBucket now p name patch m))"
  "bucket_ok name \<Longrightarrow> meta_outside p m (meta_deleteBucket p name m)"
  by (auto simp: meta_outside_def meta_createBucket_def meta_updateBucket_def meta_deleteBucket_def Let_def usage_of_def
      split: option.split)

text \<open>The keys a project's requests write under.\<close>

definition key_in :: "string \<Rightarrow> string \<Rightarrow> bool" where
  "key_in p key \<longleftrightarrow> (\<exists>r. key = ''p_'' @ p @ ''/'' @ r)"

lemma scope_ok_no_backslash: "scope_ok p \<Longrightarrow> CHR 0x5C \<notin> set p"
  using scope_char_segment segment_char_facts by (auto simp: scope_ok_def list_all_iff)

lemma provider_key_in:
  assumes "key_in p key" and "scope_ok p" and "assertProviderKey key = Inr f"
  shows "\<exists>r. f = (''p_'' @ p) # r"
proof -
  obtain r where r: "key = (''p_'' @ p) @ CHR ''/'' # r" using assms(1) by (auto simp: key_in_def)
  have "slashes (''p_'' @ p) = ''p_'' @ p" by (rule slashes_id) (simp add: scope_ok_no_backslash assms(2))
  then have k: "slashes key = (''p_'' @ p) @ CHR ''/'' # slashes r" by (simp add: r slashes_def)
  have "CHR ''/'' \<notin> set (''p_'' @ p)" using scope_ok_no_slash [OF assms(2)] by simp
  from split_on_append [OF this] have "split_on (CHR ''/'') (slashes key) = (''p_'' @ p) # split_on (CHR ''/'') (slashes r)"
    unfolding k .
  moreover have "f = split_on (CHR ''/'') (slashes key)"
    using assms(3) by (simp add: assertProviderKey_def Let_def split: if_splits)
  ultimately show ?thesis by blast
qed

lemma storage_key_in: "key_in p (''p_'' @ p @ ''/b_'' @ name @ ''/'' @ path)"
  by (simp add: key_in_def)

lemma part_key_in: "key_in p (uploadPartKey p name uid i)"
  by (simp add: key_in_def uploadPartKey_def Let_def)

lemma mkdir_files: "dk_files (snd (mkdir_for f d)) = dk_files d"
  by (simp add: mkdir_for_def)

lemma putStream_outside: "key_in p key \<Longrightarrow> scope_ok p \<Longrightarrow> disk_outside p d (snd (putStream sha key src mx d))"
  by (cases "assertProviderKey key")
    (auto simp: putStream_def act_defs rename_onto_def mkdir_for_def disk_outside_def dest: provider_key_in
      split: prod.split sum.split)

lemma delete_disk_outside: "key_in p key \<Longrightarrow> scope_ok p \<Longrightarrow> disk_outside p d (snd (provider_delete key d))"
  by (cases "assertProviderKey key")
    (auto simp: provider_delete_def act_defs unlink_def disk_outside_def dest: provider_key_in)

lemma copy_outside: "key_in p dest \<Longrightarrow> scope_ok p \<Longrightarrow> disk_outside p d (snd (provider_copy src dest d))"
  by (cases "assertProviderKey src"; cases "assertProviderKey dest")
    (auto simp: provider_copy_def act_defs copy_file_def mkdir_for_def disk_outside_def dest: provider_key_in
      split: option.split)

lemma getStream_disk: "snd (getStream key d) = d"
  by (auto simp: getStream_def act_defs split: sum.split option.split)

lemma getBytes_disk: "snd (getBytes key d) = d"
  using getStream_disk [of key d] by (auto simp: getBytes_def act_defs split: prod.split sum.split option.split)

lemmas disk_outside_rules = putStream_outside delete_disk_outside copy_outside

end
