(* ===== verification/StorageSteps.thy ===== *)
theory StorageSteps
  imports StorageInvariants
begin

text \<open>Every operation of the storage service keeps the invariant of its state.\<close>

section \<open>Rules for the steps\<close>

lemma on_meta_do:
  "act_bind (on_meta f) (\<lambda>r. act_seq (meta_do (g r)) (k r)) =
   act_bind (on_meta (\<lambda>m. case f m of (r, m') \<Rightarrow> (r, g r m'))) k"
  by (rule ext) (simp add: act_defs on_meta_def meta_do_def split: prod.split)

lemma meta_do_do: "act_seq (meta_do f) (act_seq (meta_do g) k) = act_seq (meta_do (\<lambda>m. g (f m))) k"
  by (rule ext) (simp add: act_defs meta_do_def)

text \<open>The invariant, and that nothing outside the project \<open>p\<close> has changed since \<open>s0\<close>.\<close>

definition sinv :: "storage_service \<Rightarrow> string \<Rightarrow> storage_state \<Rightarrow> storage_state \<Rightarrow> bool" where
  "sinv sv p s0 s \<longleftrightarrow> scope_ok p \<and> meta_inv sv (ss_meta s) \<and> meta_outside p (ss_meta s0) (ss_meta s) \<and>
     disk_outside p (ss_disk s0) (ss_disk s)"

lemma sinv_disk: "sinv sv p s0 s \<Longrightarrow> disk_outside p (ss_disk s) d \<Longrightarrow> sinv sv p s0 (s\<lparr>ss_disk := d\<rparr>)"
  by (auto simp: sinv_def intro: disk_outside_trans)

lemma sinv_meta: "sinv sv p s0 s \<Longrightarrow> meta_inv sv m \<Longrightarrow> meta_outside p (ss_meta s) m \<Longrightarrow> sinv sv p s0 (s\<lparr>ss_meta := m\<rparr>)"
  by (auto simp: sinv_def intro: meta_outside_trans)

lemma sinv_audit [simp]: "sinv sv p s0 (s\<lparr>ss_audit := a\<rparr>) = sinv sv p s0 s"
  by (simp add: sinv_def)

lemma sinv_inv: "sinv sv p s0 s \<Longrightarrow> meta_inv sv (ss_meta s)" "sinv sv p s0 s \<Longrightarrow> scope_ok p"
  by (simp_all add: sinv_def)

lemma triple_on_meta:
  assumes "\<And>m. scope_ok p \<Longrightarrow> meta_inv sv m \<Longrightarrow> P m \<Longrightarrow>
     meta_inv sv (snd (f m)) \<and> meta_outside p m (snd (f m)) \<and> Q (fst (f m)) (snd (f m))"
  shows "triple (sinv sv p s0) (\<lambda>s. P (ss_meta s)) (on_meta f) (\<lambda>a s. Q a (ss_meta s))"
  using assms by (auto simp: triple_def on_meta_def act_run_def case_prod_beta sinv_inv intro: sinv_meta)

lemma triple_meta_do:
  assumes "\<And>m. scope_ok p \<Longrightarrow> meta_inv sv m \<Longrightarrow> P m \<Longrightarrow> meta_inv sv (f m) \<and> meta_outside p m (f m) \<and> Q (f m)"
  shows "triple (sinv sv p s0) (\<lambda>s. P (ss_meta s)) (meta_do f) (\<lambda>_ s. Q (ss_meta s))"
  using assms by (auto simp: triple_def meta_do_def sinv_inv intro: sinv_meta)

lemma triple_audit: "triple (sinv sv p s0) (\<lambda>s. P (ss_meta s)) (audit ev pid b q d z) (\<lambda>_ s. P (ss_meta s))"
  by (simp add: triple_def audit_def)

lemma triple_fail: "triple I P (fail c n) Q"
  by (simp add: fail_def triple_throw)

text \<open>The steps that only guard what follows.\<close>

lemma triple_seq_require: "(b \<Longrightarrow> triple I P k R) \<Longrightarrow> triple I P (act_seq (act_require b e) k) R"
  by (auto simp: triple_def act_defs)

lemma triple_seq_lift: "(\<And>u. r = Inr u \<Longrightarrow> triple I P k R) \<Longrightarrow> triple I P (act_seq (act_lift r) k) R"
  by (cases r) (auto simp: triple_def act_defs)

lemma triple_bind_lift: "(\<And>a. r = Inr a \<Longrightarrow> triple I P (f a) R) \<Longrightarrow> triple I P (act_bind (act_lift r) f) R"
  by (cases r) (auto simp: triple_def act_defs)

lemma triple_bind_some: "(\<And>a. v = Some a \<Longrightarrow> triple I P (f a) R) \<Longrightarrow> triple I P (act_bind (act_some v e) f) R"
  by (cases v) (auto simp: triple_def act_defs)

lemma triple_bind_get: "(\<And>a. triple I (\<lambda>s. P s \<and> a = f (ss_meta s)) (k a) R) \<Longrightarrow> triple I P (act_bind (meta_get f) k) R"
  by (auto simp: triple_def act_defs meta_get_def)

lemma triple_seq_check:
  "(bk_projectId bk = ca_projectId ca \<Longrightarrow> authorize bk ca op path \<Longrightarrow> triple I P k R) \<Longrightarrow>
   triple I P (act_seq (storage_check bk ca op path) k) R"
  by (auto simp: triple_def act_defs storage_check_def fail_def)

lemma triple_seq_audit: "triple (sinv sv p s0) (\<lambda>s. P (ss_meta s)) k R \<Longrightarrow>
    triple (sinv sv p s0) (\<lambda>s. P (ss_meta s)) (act_seq (audit ev pid b q d z) k) R"
  by (rule triple_seq [OF triple_audit])

text \<open>A step on the disk within the project.\<close>

definition disk_within :: "string \<Rightarrow> 'a disk_act \<Rightarrow> bool" where
  "disk_within p m \<longleftrightarrow> (\<forall>d. disk_outside p d (snd (m d)))"

lemma disk_within:
  "key_in p key \<Longrightarrow> scope_ok p \<Longrightarrow> disk_within p (putStream sha key src mx)"
  "key_in p key \<Longrightarrow> scope_ok p \<Longrightarrow> disk_within p (provider_delete key)"
  "key_in p dest \<Longrightarrow> scope_ok p \<Longrightarrow> disk_within p (provider_copy k dest)"
  "disk_within p (getStream k)" "disk_within p (getBytes k)"
  by (simp_all add: disk_within_def disk_outside_rules getStream_disk getBytes_disk disk_outside_refl)

lemma triple_disk_then:
  assumes w: "\<And>m. scope_ok p \<Longrightarrow> meta_inv sv m \<Longrightarrow> P m \<Longrightarrow> disk_within p a"
    and k: "\<And>r. (\<exists>d d'. a d = (Inr r, d')) \<Longrightarrow> triple (sinv sv p s0) (\<lambda>s. P (ss_meta s)) (k r) R"
  shows "triple (sinv sv p s0) (\<lambda>s. P (ss_meta s)) (act_bind (on_disk a) k) R"
proof (rule tripleI)
  fix s r s' assume s: "sinv sv p s0 s" "P (ss_meta s)" "act_bind (on_disk a) k s = (r, s')"
  obtain x d where x: "a (ss_disk s) = (x, d)" by fastforce
  have "disk_within p a" using w [OF _ _ s(2)] sinv_inv [OF s(1)] by blast
  then have i: "sinv sv p s0 (s\<lparr>ss_disk := d\<rparr>)" using sinv_disk [OF s(1)] x unfolding disk_within_def by (metis snd_conv)
  show "sinv sv p s0 s' \<and> (\<forall>a. r = Inr a \<longrightarrow> R a s')"
  proof (cases x)
    case (Inl e)
    then show ?thesis using i s(3) x by (auto simp: act_bind_def on_disk_def)
  next
    case (Inr b)
    then show ?thesis using i s(2,3) x k [of b, unfolded triple_def, rule_format, of "s\<lparr>ss_disk := d\<rparr>"]
      by (auto simp: act_bind_def on_disk_def)
  qed
qed

lemma triple_option:
  "(v = None \<Longrightarrow> triple I P m Q) \<Longrightarrow> (\<And>x. v = Some x \<Longrightarrow> triple I P (k x) Q) \<Longrightarrow>
   triple I P (case v of None \<Rightarrow> m | Some x \<Rightarrow> k x) Q"
  by (cases v) simp_all

lemma triple_return_keep: "triple I P (act_return a) (\<lambda>_. P)"
  by (simp add: triple_def)

lemma triple_conj: "(c \<Longrightarrow> triple I P m Q) \<Longrightarrow> triple I (\<lambda>s. P s \<and> c) m Q"
  by (cases c) (simp_all add: triple_def)

lemma triple_returnI: "(\<And>s. I s \<Longrightarrow> P s \<Longrightarrow> Q a s) \<Longrightarrow> triple I P (act_return a) Q"
  by (simp add: triple_def)

abbreviation kept_by :: "storage_service \<Rightarrow> string \<Rightarrow> storage_state \<Rightarrow> 'a storage_act \<Rightarrow> bool" where
  "kept_by sv p s0 m \<equiv> triple (sinv sv p s0) (\<lambda>_. True) m (\<lambda>_ _. True)"

text \<open>The bucket a name stands for.\<close>

definition bucket_of :: "string \<Rightarrow> string \<Rightarrow> bucket \<Rightarrow> storage_meta \<Rightarrow> bool" where
  "bucket_of p name bk m \<longleftrightarrow> bk_name bk = name \<and> bk_projectId bk = p \<and> bucket_ok name \<and>
     meta_getBucket p name m = Some bk"

lemma triple_bucketFor:
  "triple (sinv sv p s0) (\<lambda>_. True) (bucketFor p og name) (\<lambda>bk s. bucket_of p name bk (ss_meta s))"
  using getBucket_wf
  by (auto simp: triple_def bucketFor_def act_defs meta_get_def fail_def assertBucketName_def bucket_of_def sinv_def meta_inv_def
      split: option.split)

section \<open>Uploads\<close>

definition plan_ok :: "storage_service \<Rightarrow> string \<Rightarrow> bucket \<Rightarrow> string \<Rightarrow> upload_plan \<Rightarrow> storage_meta \<Rightarrow> bool" where
  "plan_ok sv p bk path pl m \<longleftrightarrow> pl_bucket pl = bk \<and> pl_path pl = path \<and> scope_ok p \<and>
     pl_key pl = ''p_'' @ p @ ''/b_'' @ bk_name bk @ ''/'' @ path \<and>
     pl_existing pl = meta_getObject p (bk_name bk) path m \<and> pl_usedBytes pl = uc_bytes (usage_of p m)"

lemma getObject_counters [simp]: "meta_getObject p b q (snd (counters r m)) = meta_getObject p b q m"
  by (simp add: meta_getObject_def)

lemma getBucket_counters [simp]: "meta_getBucket p b (snd (counters r m)) = meta_getBucket p b m"
  by (simp add: meta_getBucket_def)

lemma bucket_of_counters [simp]: "bucket_of p b bk (snd (counters r m)) = bucket_of p b bk m"
  by (simp add: bucket_of_def)

lemma triple_usage:
  assumes "\<And>m. P (snd (counters p m)) = P m"
  shows "triple (sinv sv p s0) (\<lambda>s. P (ss_meta s)) (on_meta (meta_usage p))
     (\<lambda>u s. P (ss_meta s) \<and> u = usage_of p (ss_meta s))"
  by (rule triple_on_meta [where Q = "\<lambda>u m. P m \<and> u = usage_of p m"])
    (simp add: meta_usage_def assms counters_meta_inv counters_outside)

lemma triple_plan:
  assumes "normal_path path"
  shows "triple (sinv sv p s0) (\<lambda>s. bucket_of p name bk (ss_meta s)) (plan_upload sv p bk path input)
    (\<lambda>pl s. bucket_of p name bk (ss_meta s) \<and> plan_ok sv p bk path pl (ss_meta s))"
  unfolding plan_upload_def
  by (rule triple_bind_lift, rule triple_seq_lift, rule triple_bind_get, rule triple_seq_require,
      rule triple_bind [OF triple_usage], simp, rule triple_seq_require, rule triple_bind_lift, rule triple_returnI)
    (auto simp: plan_ok_def storageKeyFor_Inr normal_path_id [OF assms] bucket_of_def)

lemma triple_seq_refuse:
  assumes w: "scope_ok p \<Longrightarrow> disk_within p m" and k: "\<not> b \<Longrightarrow> triple (sinv sv p s0) P k R"
  shows "triple (sinv sv p s0) P (act_seq (act_when b (act_seq (quietly (on_disk m)) (fail c n))) k) R"
proof (cases b)
  case True
  have "sinv sv p s0 s \<Longrightarrow> m (ss_disk s) = (x, d) \<Longrightarrow> sinv sv p s0 (s\<lparr>ss_disk := d\<rparr>)" for s x d
    using w sinv_disk sinv_inv(2) unfolding disk_within_def by (metis snd_conv)
  with True show ?thesis
    by (auto simp: triple_def act_defs quietly_def on_disk_def fail_def split: prod.split sum.split)
next
  case False
  then show ?thesis using k by (auto simp: triple_def act_defs)
qed

lemma guard_stream_Inr:
  "guard_stream mx n out chunks = Inr bytes \<Longrightarrow> bytes = out @ concat chunks \<and>
     (chunks \<noteq> [] \<longrightarrow> n + int (length (concat chunks)) \<le> mx)"
proof (induction mx n out chunks arbitrary: bytes rule: guard_stream.induct)
  case (2 mx n out chunk chunks)
  then have le: "\<not> n + int (length chunk) > mx"
    and r: "guard_stream mx (n + int (length chunk)) (out @ chunk) chunks = Inr bytes"
    by (auto simp: Let_def split: if_splits)
  show ?case using 2(1) [OF HOL.refl le r] le by (cases "chunks = []") auto
qed simp

lemma putStream_Inr:
  assumes "putStream sha key source mx d = (Inr (sz, etag), d')"
  obtains f where "assertProviderKey key = Inr f" "sz = int (length (concat source))" "etag = sha (concat source)"
    "dk_files d' = js_set f (concat source) (dk_files d)" "source \<noteq> [] \<longrightarrow> sz \<le> mx"
  using assms
  by (auto simp: putStream_def act_Inr rename_onto_def mkdir_for_def dest!: guard_stream_Inr split: if_splits)

lemma putStream_size: "putStream sha key source mx d = (Inr (sz, etag), d') \<Longrightarrow> 0 \<le> sz"
  by (erule putStream_Inr) simp

lemma triple_store:
  assumes "normal_path path"
  shows "triple (sinv sv p s0) (\<lambda>s. bucket_of p name bk (ss_meta s) \<and> plan_ok sv p bk path pl (ss_meta s))
    (store_upload sv now nid p og source pl) (\<lambda>_ _. True)"
proof -
  let ?in = "\<lambda>sz etag. \<lparr>po_organizationId = og, po_projectId = p, po_bucketId = bk_id (pl_bucket pl),
    po_bucket = bk_name (pl_bucket pl), po_path = pl_path pl, po_filename = fileNameOf (pl_path pl),
    po_mimeType = pl_mime pl, po_size = sz, po_etag = etag, po_storageKey = pl_key pl, po_metadata = []\<rparr>"
  let ?g = "\<lambda>sz. case pl_existing pl of Some old \<Rightarrow> meta_adjustUsage p 0 (sz - ob_size old)
    | None \<Rightarrow> meta_recordUpload p sz"
  have step: "meta_inv sv (?g sz (snd (meta_putObject now nid (?in sz etag) m)))"
    if m: "meta_inv sv m" and b: "bucket_of p name bk m" and pl: "plan_ok sv p bk path pl m"
      and sz: "0 \<le> sz" and q: "\<not> pl_usedBytes pl + sz > sv_quotaBytes sv" for sz etag m
  proof -
    have ok: "put_ok p name path (?in sz etag) m"
      using b pl sz assms by (auto simp: put_ok_def bucket_of_def plan_ok_def meta_getBucket_def)
    have "uc_bytes (usage_of p m) + po_size (?in sz etag) \<le> sv_quotaBytes sv" using pl q by (simp add: plan_ok_def)
    moreover have "pl_existing pl = meta_getObject p name path m" using pl b by (simp add: plan_ok_def bucket_of_def)
    ultimately show ?thesis using put_inv [OF m ok, where now = now and nid = nid] by (simp split: option.splits)
  qed
  have out: "meta_outside p m (?g sz (snd (meta_putObject now nid (?in sz etag) m)))" for sz etag m
  proof -
    have "meta_outside p x (?g sz x)" for x
      by (simp add: meta_adjustUsage_def meta_recordUpload_def counters_outside split: option.split)
    then show ?thesis by (rule meta_outside_trans [OF put_outside, rotated]) simp
  qed
  have key: "key_in p (pl_key pl)" if "plan_ok sv p bk path pl m" for m
    using that by (simp add: plan_ok_def key_in_def)
  have within: "disk_within p (putStream (sv_sha sv) (pl_key pl) source (max_bytes sv (pl_bucket pl)))"
      "disk_within p (provider_delete (pl_key pl))" if "plan_ok sv p bk path pl m" for m
    using key [OF that] that by (auto simp: plan_ok_def intro: disk_within)
  show ?thesis
  proof (cases "key_in p (pl_key pl)")
    case True
    show ?thesis
      unfolding store_upload_def Let_def on_meta_do
      apply (rule triple_disk_then)
       apply (blast intro: within)
      apply (rename_tac r, case_tac r, simp only: prod.case)
      apply (rule triple_seq_refuse)
       apply (rule disk_within(2) [OF True], assumption)
      apply (rule triple_bind [OF triple_on_meta [where Q = "\<lambda>_ _. True"]])
       apply (simp add: case_prod_beta out)
       apply (blast intro: step putStream_size)
      apply (rule triple_seq_audit)
      apply (rule triple_returnI, simp)
      done
  next
    case False
    then show ?thesis using key by (auto simp: triple_def)
  qed
qed

lemma upload_kept: "kept_by sv (ca_projectId ca) s0 (upload sv now nid ca name raw input)"
  unfolding upload_def
  by (rule triple_bind [OF triple_bucketFor], rule triple_bind_lift, rule triple_seq_check,
      rule triple_bind [OF triple_plan], erule assertObjectPath_normal, rule triple_store, erule assertObjectPath_normal)

lemma putSigned_kept: "kept_by sv p s0 (putSigned sv now nid p og name raw input)"
  unfolding putSigned_def
  by (rule triple_bind [OF triple_bucketFor], rule triple_bind_lift,
      rule triple_bind [OF triple_plan], erule assertObjectPath_normal, rule triple_store, erule assertObjectPath_normal)

section \<open>Steps that leave the records alone\<close>

lemma kept_bind: "kept_by sv p s0 m \<Longrightarrow> (\<And>a. kept_by sv p s0 (f a)) \<Longrightarrow> kept_by sv p s0 (act_bind m f)"
  by (rule triple_bind) simp_all

lemma kept_seq: "kept_by sv p s0 m \<Longrightarrow> kept_by sv p s0 k \<Longrightarrow> kept_by sv p s0 (act_seq m k)"
  by (rule triple_seq) simp_all

lemma kept_on_disk: "(scope_ok p \<Longrightarrow> disk_within p m) \<Longrightarrow> kept_by sv p s0 (on_disk m)"
  by (auto simp: triple_def on_disk_def disk_within_def sinv_inv intro!: sinv_disk split: prod.split) (metis sinv_inv(2) snd_conv)

lemma kept_audit: "kept_by sv p s0 (audit ev pid b q d z)"
  by (simp add: triple_def audit_def)

lemma kept_meta_do:
  "(\<And>m. meta_inv sv m \<Longrightarrow> meta_inv sv (f m)) \<Longrightarrow> (\<And>m. meta_outside p m (f m)) \<Longrightarrow> kept_by sv p s0 (meta_do f)"
  by (auto simp: triple_def meta_do_def sinv_inv intro: sinv_meta)

lemma kept_on_meta:
  "(\<And>m. meta_inv sv m \<Longrightarrow> meta_inv sv (snd (f m))) \<Longrightarrow> (\<And>m. meta_outside p m (snd (f m))) \<Longrightarrow> kept_by sv p s0 (on_meta f)"
  by (auto simp: triple_def on_meta_def act_run_def sinv_inv case_prod_beta intro: sinv_meta)

lemma kept_pure:
  "kept_by sv p s0 (meta_get f)" "kept_by sv p s0 (act_lift r)" "kept_by sv p s0 (act_return a)" "kept_by sv p s0 (fail c n)"
  "kept_by sv p s0 (act_require b e)" "kept_by sv p s0 (act_some v e)" "kept_by sv p s0 (storage_check bk ca op path)"
  "kept_by sv p s0 (bucketFor pid og name)" "kept_by sv p s0 (act_throw e)" "kept_by sv p s0 (session_of ca uid)"
  "kept_by sv p s0 (getUploadSession now ca uid)"
  by (auto simp: triple_def act_defs meta_get_def fail_def storage_check_def bucketFor_def session_of_def
      getUploadSession_def split: option.split sum.split)

lemma kept_catch: "kept_by sv p s0 m \<Longrightarrow> (\<And>e. kept_by sv p s0 (h e)) \<Longrightarrow> kept_by sv p s0 (act_catch m h)"
proof (rule tripleI)
  fix s r s' assume m: "kept_by sv p s0 m" and h: "\<And>e. kept_by sv p s0 (h e)" and i: "sinv sv p s0 s" and c: "act_catch m h s = (r, s')"
  obtain x t where x: "m s = (x, t)" by fastforce
  with m i have "sinv sv p s0 t" by (auto simp: triple_def)
  then show "sinv sv p s0 s' \<and> (\<forall>a. r = Inr a \<longrightarrow> True)"
    using x c h [of "projl x"] by (cases x) (auto simp: act_catch_def triple_def)
qed

lemma kept_if: "kept_by sv p s0 m \<Longrightarrow> kept_by sv p s0 k \<Longrightarrow> kept_by sv p s0 (if b then m else k)"
  by simp

lemma kept_option:
  "kept_by sv p s0 m \<Longrightarrow> (\<And>x. kept_by sv p s0 (k x)) \<Longrightarrow> kept_by sv p s0 (case v of None \<Rightarrow> m | Some x \<Rightarrow> k x)"
  by (simp split: option.split)

lemma kept_prod: "(\<And>x y. kept_by sv p s0 (k x y)) \<Longrightarrow> kept_by sv p s0 (case z of (x, y) \<Rightarrow> k x y)"
  by (simp split: prod.split)

lemma kept_quietly: "kept_by sv p s0 m \<Longrightarrow> kept_by sv p s0 (quietly m)"
  unfolding quietly_def by (rule kept_catch) (simp_all add: kept_pure)

lemma outside_usage: "meta_outside p m (snd (meta_usage p m))" "meta_outside p m (meta_recordDownload p m)"
  by (simp_all add: meta_usage_def meta_recordDownload_def counters_outside)

lemmas kept_rules = kept_on_disk kept_audit kept_pure kept_catch kept_quietly kept_bind kept_seq kept_if kept_option kept_prod
  kept_meta_do kept_on_meta session_meta_inv recordDownload_meta_inv outside_usage session_outside disk_within part_key_in

lemma fetch_kept: "kept_by sv p s0 (fetch_object p bk path)"
  unfolding fetch_object_def by (intro kept_rules)

lemma download_kept: "kept_by sv (ca_projectId ca) s0 (download ca name raw)" "kept_by sv p s0 (downloadSigned p og name raw)"
  unfolding download_def downloadSigned_def by (intro kept_rules fetch_kept)+

lemma createUploadSession_kept: "kept_by sv (ca_projectId ca) s0 (createUploadSession sv now nid ca si)"
  unfolding createUploadSession_def by (intro kept_rules) auto

lemma uploadPart_kept: "kept_by sv (ca_projectId ca) s0 (uploadPart sv now ca uid i source)"
  unfolding uploadPart_def by (intro kept_rules)

lemma read_parts_kept: "kept_by sv p s0 (read_parts p b uid is)"
  by (induction "is") (simp_all only: read_parts.simps, (intro kept_rules | assumption)+)

lemma delete_parts_kept: "kept_by sv p s0 (delete_parts p b uid is)"
  by (induction "is") (simp_all only: delete_parts.simps, (intro kept_rules | assumption)+)

lemma complete_kept: "kept_by sv (ca_projectId ca) s0 (completeUploadSession sv now nid ca uid)"
  unfolding completeUploadSession_def Let_def by (intro kept_rules read_parts_kept delete_parts_kept upload_kept)

lemma abort_kept: "kept_by sv (ca_projectId ca) s0 (abortUploadSession ca uid)"
  unfolding abortUploadSession_def by (intro kept_rules delete_parts_kept)

lemma usage_kept: "kept_by sv (ca_projectId ca) s0 (storage_usage sv ca)"
  unfolding storage_usage_def by (intro kept_rules) (simp add: meta_usage_def counters_meta_inv)

lemma createBucket_kept: "kept_by sv (ca_projectId ca) s0 (createBucket sv now nid ca input)"
  unfolding createBucket_def Let_def
  by (rule kept_if, rule kept_pure, rule triple_bind_lift)
    (auto simp: assertBucketName_def split: if_splits intro!: kept_rules createBucket_meta_inv bucket_outside)

lemma updateBucket_kept: "kept_by sv (ca_projectId ca) s0 (updateBucket now ca name patch)"
  unfolding updateBucket_def
  apply (rule triple_bind [OF triple_bucketFor], rule triple_seq_check, rule triple_seq_require, rule triple_seq_require)
  apply (rule triple_bind [OF triple_on_meta [where Q = "\<lambda>_ _. True"]])
   apply (auto simp: bucket_of_def intro: updateBucket_meta_inv bucket_outside)[1]
  apply (intro kept_rules)
  done

lemma deleteBucket_kept: "kept_by sv (ca_projectId ca) s0 (deleteBucket ca name)"
  unfolding deleteBucket_def
  apply (rule triple_bind [OF triple_bucketFor], rule triple_seq_check, rule triple_bind_get, rule triple_seq_require)
  apply (rule triple_seq [OF triple_meta_do [where Q = "\<lambda>_. True"] kept_audit])
  apply (auto simp: bucket_of_def intro: bucket_delete_inv bucket_outside)
  done

section \<open>Removing, copying, moving\<close>

lemma act_seq_assoc: "act_seq (act_seq a b) c = act_seq a (act_seq b c)"
  by (rule ext) (simp add: act_defs split: prod.split sum.split)

lemma act_seq_bind: "act_seq (act_bind m f) k = act_bind m (\<lambda>a. act_seq (f a) k)"
  by (rule ext) (simp add: act_defs split: prod.split sum.split)

lemma triple_seq_disk:
  assumes "\<And>m. scope_ok p \<Longrightarrow> meta_inv sv m \<Longrightarrow> P m \<Longrightarrow> disk_within p a" and "triple (sinv sv p s0) (\<lambda>s. P (ss_meta s)) k R"
  shows "triple (sinv sv p s0) (\<lambda>s. P (ss_meta s)) (act_seq (on_disk a) k) R"
  unfolding act_seq_def by (rule triple_disk_then, rule assms(1)) (simp_all add: assms(2))

lemma object_key_in:
  "meta_inv sv m \<Longrightarrow> bucket_of p name bk m \<Longrightarrow> scope_ok p \<Longrightarrow> meta_getObject p (bk_name bk) path m = Some ob \<Longrightarrow>
   key_in p (ob_storageKey ob)"
  using getObject_wf(6) [OF meta_inv_parts(1), of sv m p name path ob] by (auto simp: bucket_of_def key_in_def)

lemma remove_kept: "kept_by sv (ca_projectId ca) s0 (remove_object ca name raw)"
proof -
  let ?p = "ca_projectId ca"
  have step: "meta_inv sv (meta_adjustUsage ?p (- 1) (- ob_size ob) (meta_deleteObject ?p (bk_name bk) path m))"
    if "scope_ok ?p" "meta_inv sv m" "bucket_of ?p name bk m" "meta_getObject ?p (bk_name bk) path m = Some ob" for m bk path ob
    using that by (intro remove_inv) (auto simp: bucket_of_def)
  have out: "meta_outside ?p m (meta_adjustUsage ?p i j (meta_deleteObject ?p b x m))" for m i j b x
    unfolding meta_adjustUsage_def by (rule meta_outside_trans [OF delete_outside counters_outside(2)])
  show ?thesis
    unfolding remove_object_def meta_do_do
    apply (rule triple_bind [OF triple_bucketFor], rule triple_bind_lift, rule triple_seq_check, rule triple_bind_get,
        rule triple_bind_some, rule triple_seq_disk)
     apply (auto intro!: disk_within(2) object_key_in)[1]
    apply (rule triple_seq [OF triple_meta_do [where Q = "\<lambda>_. True"] kept_audit])
    using step out by auto
qed

lemma provider_copy_Inr:
  assumes "provider_copy src dest d = (Inr u, d')"
  obtains f g bytes where "assertProviderKey src = Inr f" "assertProviderKey dest = Inr g"
    "js_get (dk_files d) f = Some bytes" "dk_files d' = js_set g bytes (dk_files d)"
  using assms
  by (auto simp: provider_copy_def act_Inr copy_file_def mkdir_for_def split: if_splits option.splits)

lemma triple_copy_then:
  assumes w: "key_in p dest"
    and k: "\<And>f. assertProviderKey src = Inr f \<Longrightarrow> triple (sinv sv p s0) (\<lambda>s. P (ss_meta s) \<and> is_file (ss_disk s) f) k R"
  shows "triple (sinv sv p s0) (\<lambda>s. P (ss_meta s)) (act_seq (on_disk (provider_copy src dest)) k) R"
proof (rule tripleI)
  fix s r s' assume s: "sinv sv p s0 s" "P (ss_meta s)" "act_seq (on_disk (provider_copy src dest)) k s = (r, s')"
  obtain x d where x: "provider_copy src dest (ss_disk s) = (x, d)" by fastforce
  have i: "sinv sv p s0 (s\<lparr>ss_disk := d\<rparr>)"
    using sinv_disk [OF s(1)] copy_outside [OF w sinv_inv(2) [OF s(1)], of "ss_disk s" src] x by simp
  show "sinv sv p s0 s' \<and> (\<forall>a. r = Inr a \<longrightarrow> R a s')"
  proof (cases x)
    case (Inl e)
    then show ?thesis using s i x by (auto simp: act_defs on_disk_def)
  next
    case (Inr u)
    from x [unfolded Inr] show ?thesis
    proof (rule provider_copy_Inr)
      fix f g bytes assume f: "assertProviderKey src = Inr f" "js_get (dk_files (ss_disk s)) f = Some bytes"
        "dk_files d = js_set g bytes (dk_files (ss_disk s))"
      have "is_file d f" using f by (simp add: is_file_def)
      then show ?thesis
        using k [OF f(1), unfolded triple_def, rule_format, of "s\<lparr>ss_disk := d\<rparr>"] s i x Inr
        by (auto simp: act_defs on_disk_def)
    qed
  qed
qed

text \<open>Copying an object, then counting it; moving it, the source file being there to unlink.\<close>

lemma triple_put_then:
  assumes "\<And>m. scope_ok p \<Longrightarrow> meta_inv sv m \<Longrightarrow> P m \<Longrightarrow> meta_inv sv (g (snd (meta_putObject now nid input m)))"
    and "\<And>m. meta_outside p m (g m)" and "po_projectId input = p"
  shows "triple (sinv sv p s0) (\<lambda>s. P (ss_meta s))
    (act_bind (on_meta (meta_putObject now nid input)) (\<lambda>ob. act_seq (meta_do g) (act_seq (audit ev pid b q d z) (act_return (h ob)))))
    (\<lambda>_ _. True)"
  unfolding on_meta_do
  apply (rule triple_bind [OF triple_on_meta [where Q = "\<lambda>_ _. True"]])
   apply (simp add: case_prod_beta)
   apply (blast intro: assms meta_outside_trans [OF put_outside])
  apply (intro kept_rules)
  done

lemma triple_put_unlink_then:
  assumes f: "assertProviderKey k = Inr f" "\<And>m. scope_ok p \<Longrightarrow> meta_inv sv m \<Longrightarrow> P m \<Longrightarrow> disk_within p (provider_delete k)"
    and i: "\<And>m. scope_ok p \<Longrightarrow> meta_inv sv m \<Longrightarrow> P m \<Longrightarrow> meta_inv sv (g (snd (meta_putObject now nid input m)))"
    and o: "\<And>m. meta_outside p m (g m)" "po_projectId input = p"
  shows "triple (sinv sv p s0) (\<lambda>s. P (ss_meta s) \<and> is_file (ss_disk s) f)
    (act_bind (on_meta (meta_putObject now nid input)) (\<lambda>ob. act_seq (on_disk (provider_delete k))
      (act_seq (meta_do g) (act_seq (audit ev pid b q d z) (act_return (h ob)))))) (\<lambda>_ _. True)"
proof (rule tripleI)
  fix s r s' assume s: "sinv sv p s0 s" "P (ss_meta s) \<and> is_file (ss_disk s) f"
    "act_bind (on_meta (meta_putObject now nid input)) (\<lambda>ob. act_seq (on_disk (provider_delete k))
      (act_seq (meta_do g) (act_seq (audit ev pid b q d z) (act_return (h ob))))) s = (r, s')"
  let ?m = "g (snd (meta_putObject now nid input (ss_meta s)))" and ?d = "snd (provider_delete k (ss_disk s))"
  have m: "meta_inv sv ?m" using s(2) i sinv_inv [OF s(1)] by blast
  have "meta_outside p (ss_meta s) ?m" by (rule meta_outside_trans [OF put_outside [OF o(2)] o(1)])
  moreover have "disk_outside p (ss_disk s) ?d"
    using f(2) s(2) sinv_inv [OF s(1)] unfolding disk_within_def by blast
  moreover have "ss_meta s' = ?m \<and> ss_disk s' = ?d"
    using s(2,3) f(1)
    by (auto simp: act_defs on_meta_def on_disk_def meta_do_def audit_def provider_delete_def unlink_def case_prod_beta)
  ultimately show "sinv sv p s0 s' \<and> (\<forall>a. r = Inr a \<longrightarrow> True)"
    using s(1) m by (auto simp: sinv_def intro: meta_outside_trans disk_outside_trans)
qed

definition copy_input :: "storage_caller \<Rightarrow> bucket \<Rightarrow> string \<Rightarrow> string \<Rightarrow> stored_object \<Rightarrow> put_object_input" where
  "copy_input ca bk dest destKey record = \<lparr>po_organizationId = ca_organizationId ca, po_projectId = ca_projectId ca,
     po_bucketId = bk_id bk, po_bucket = bk_name bk, po_path = dest, po_filename = fileNameOf dest,
     po_mimeType = ob_mimeType record, po_size = ob_size record, po_etag = ob_etag record,
     po_storageKey = destKey, po_metadata = []\<rparr>"

lemma copy_put_ok:
  assumes "meta_inv sv m" and "bucket_of (ca_projectId ca) name bk m" and "normal_path dest" and "scope_ok (ca_projectId ca)"
    and "meta_getObject (ca_projectId ca) (bk_name bk) path m = Some ob"
    and "storageKeyFor (ca_projectId ca) (bk_name bk) dest = Inr destKey"
  shows "put_ok (ca_projectId ca) name dest (copy_input ca bk dest destKey ob) m"
  using assms getObject_wf(5) [OF meta_inv_parts(1) [OF assms(1)] assms(5,4)]
  by (auto simp: put_ok_def copy_input_def bucket_of_def meta_getBucket_def storageKeyFor_Inr normal_path_id)

lemma dest_key_in: "storageKeyFor p b x = Inr k \<Longrightarrow> key_in p k"
  by (auto simp: storageKeyFor_Inr key_in_def)

lemma copy_input_project: "po_projectId (copy_input ca bk dest k ob) = ca_projectId ca"
  by (simp add: copy_input_def)

lemma move_kept:
  shows "kept_by sv (ca_projectId ca) s0 (copyOrMove sv now nid ca name raw rawDest True)"
proof -
  let ?p = "ca_projectId ca"
  have step: "meta_inv sv (meta_deleteObject ?p (bk_name bk) path (snd (meta_putObject now nid (copy_input ca bk dest destKey ob) m)))"
    if sc: "scope_ok ?p" and m: "meta_inv sv m" and "bucket_of ?p name bk m" "normal_path dest" "meta_getObject ?p (bk_name bk) path m = Some ob"
      "meta_getObject ?p (bk_name bk) dest m = None" "storageKeyFor ?p (bk_name bk) dest = Inr destKey"
    for m bk path dest ob destKey
    using move_inv [OF m _ copy_put_ok [OF m that(3,4) sc that(5,7)], where now = now and nid = nid] that
    by (simp add: copy_input_def bucket_of_def)
  show ?thesis
    unfolding copyOrMove_def if_True act_seq_assoc copy_input_def [symmetric]
    apply (rule triple_bind [OF triple_bucketFor], rule triple_bind_lift, rule triple_bind_lift, rule triple_seq_check,
        rule triple_seq_check, rule triple_bind_get, rule triple_bind_some, rule triple_bind_get, rule triple_seq_require,
        rule triple_seq [OF triple_return_keep], rule triple_bind_lift, rule triple_copy_then, erule dest_key_in)
    apply (rule triple_put_unlink_then, assumption)
       apply (auto intro!: disk_within(2) object_key_in)[1]
    using step assertObjectPath_normal by (auto simp: copy_input_project delete_outside)
qed

lemma copy_kept:
  shows "kept_by sv (ca_projectId ca) s0 (copyOrMove sv now nid ca name raw rawDest False)"
proof -
  let ?p = "ca_projectId ca"
  have step: "meta_inv sv (meta_recordUpload ?p (ob_size ob) (snd (meta_putObject now nid (copy_input ca bk dest destKey ob) m)))"
    if sc: "scope_ok ?p" and m: "meta_inv sv m" and "bucket_of ?p name bk m" "normal_path dest" "meta_getObject ?p (bk_name bk) path m = Some ob"
      "meta_getObject ?p (bk_name bk) dest m = None" "storageKeyFor ?p (bk_name bk) dest = Inr destKey"
      and q: "\<not> uc_bytes (usage_of ?p m) + ob_size ob > sv_quotaBytes sv"
    for m bk path dest ob destKey
    using put_inv [OF m copy_put_ok [OF m that(3,4) sc that(5,7)], where now = now and nid = nid] that
    by (simp add: copy_input_def bucket_of_def)
  show ?thesis
    unfolding copyOrMove_def if_False act_seq_assoc act_seq_bind copy_input_def [symmetric]
    apply (rule triple_bind [OF triple_bucketFor], rule triple_bind_lift, rule triple_bind_lift, rule triple_seq_check,
        rule triple_seq_check, rule triple_bind_get, rule triple_bind_some, rule triple_bind_get, rule triple_seq_require,
        rule triple_bind [OF triple_usage], simp, rule triple_seq_require, rule triple_bind_lift, rule triple_seq_disk)
     apply (blast intro: disk_within dest_key_in)
    apply (rule triple_put_then)
    using step assertObjectPath_normal
    by (auto simp: copy_input_project meta_recordUpload_def counters_outside)
qed

lemma copyOrMove_kept: "kept_by sv (ca_projectId ca) s0 (copyOrMove sv now nid ca name raw rawDest isMove)"
  by (cases isMove) (simp_all add: move_kept copy_kept)

end
