(* ===== verification/StoragePurge.thy ===== *)
theory StoragePurge
  imports StorageSteps
begin

text \<open>
  Deleting the data of a project (\<open>service.ts\<close>, \<open>deleteProjectData\<close>): the endless loop over batches ends, and what it
  leaves.
\<close>

section \<open>Project deletion\<close>

definition held_in :: "string \<Rightarrow> string \<Rightarrow> storage_meta \<Rightarrow> int" where
  "held_in p name m = total_of (\<lambda>ob. if ob_projectId ob = p \<and> ob_bucket ob = name then 1 else 0) (sm_objects m)"

lemma starts_with_Nil: "starts_with s ''''"
  by (simp add: starts_with_def)

lemma matching_set: "set (matching_objects p name '''' m) =
    {ob \<in> set (js_values (sm_objects m)). ob_projectId ob = p \<and> ob_bucket ob = name}"
  by (auto simp: matching_objects_def starts_with_def)

lemma purge_object_meta: "ss_meta (purge_object p name ob s) = meta_deleteObject p name (ob_path ob) (ss_meta s)"
  by (auto simp: purge_object_def Let_def quietly_def act_catch_def on_disk_def split: prod.split sum.split)

text \<open>The objects of one bucket gone and nothing else.\<close>

definition purged :: "string \<Rightarrow> string \<Rightarrow> storage_meta \<Rightarrow> storage_meta \<Rightarrow> bool" where
  "purged p name m n \<longleftrightarrow> meta_ok n \<and> sm_usage n = sm_usage m \<and> sm_uploads n = sm_uploads m \<and> sm_buckets n = sm_buckets m \<and>
     (\<forall>k. js_get (sm_objects n) k = js_get (sm_objects m) k \<or>
        js_get (sm_objects n) k = None \<and> (\<exists>ob. js_get (sm_objects m) k = Some ob \<and> ob_projectId ob = p \<and> ob_bucket ob = name))"

lemma purged_refl: "meta_ok m \<Longrightarrow> purged p name m m"
  by (simp add: purged_def)

lemma purged_trans: "purged p name m n \<Longrightarrow> purged p name n k \<Longrightarrow> purged p name m k"
  unfolding purged_def by metis

lemma purge_one:
  assumes m: "meta_ok (ss_meta s)" and ob: "ob \<in> set (js_values (sm_objects (ss_meta s)))"
    and p: "ob_projectId ob = p" "ob_bucket ob = name"
  shows "purged p name (ss_meta s) (ss_meta (purge_object p name ob s))"
    and "held_in p name (ss_meta (purge_object p name ob s)) = held_in p name (ss_meta s) - 1"
    and "set (js_values (sm_objects (ss_meta (purge_object p name ob s)))) = set (js_values (sm_objects (ss_meta s))) - {ob}"
proof -
  let ?k = "objectKey p name (ob_path ob)"
  have k: "js_get (sm_objects (ss_meta s)) ?k = Some ob" using meta_ok_value [OF m ob] p by simp
  show "purged p name (ss_meta s) (ss_meta (purge_object p name ob s))"
    using m k p by (auto simp: purged_def purge_object_meta delete_meta_ok)
  show "held_in p name (ss_meta (purge_object p name ob s)) = held_in p name (ss_meta s) - 1"
    using m k p by (simp add: held_in_def purge_object_meta total_of_delete meta_ok_def)
  have ok: "js_ok (sm_objects (ss_meta s))" using m by (simp add: meta_ok_def)
  show "set (js_values (sm_objects (ss_meta (purge_object p name ob s)))) = set (js_values (sm_objects (ss_meta s))) - {ob}"
  proof (intro equalityI subsetI)
    fix x assume "x \<in> set (js_values (sm_objects (ss_meta (purge_object p name ob s))))"
    then obtain j where "js_get (js_delete ?k (sm_objects (ss_meta s))) j = Some x"
      using js_values_get [OF js_ok_delete [OF ok]] by (auto simp: purge_object_meta)
    then have j: "j \<noteq> ?k" "js_get (sm_objects (ss_meta s)) j = Some x" by (auto split: if_splits)
    then have "x \<noteq> ob" using meta_ok_object [OF m j(2)] p by (auto simp: object_wf_def)
    then show "x \<in> set (js_values (sm_objects (ss_meta s))) - {ob}" using js_get_values [OF j(2)] by blast
  next
    fix x assume x: "x \<in> set (js_values (sm_objects (ss_meta s))) - {ob}"
    then obtain j where j: "js_get (sm_objects (ss_meta s)) j = Some x" using js_values_get [OF ok] by blast
    then have "j \<noteq> ?k" using k x by auto
    then have "js_get (sm_objects (ss_meta (purge_object p name ob s))) j = Some x" using j by (simp add: purge_object_meta)
    then show "x \<in> set (js_values (sm_objects (ss_meta (purge_object p name ob s))))" by (rule js_get_values)
  qed
qed

text \<open>Files only go, and an object of the project keeps its record as long as it keeps its file.\<close>

definition no_file :: "stored_object \<Rightarrow> storage_state \<Rightarrow> bool" where
  "no_file ob s \<longleftrightarrow> (\<forall>f. assertProviderKey (ob_storageKey ob) = Inr f \<longrightarrow> js_get (dk_files (ss_disk s)) f = None)"

definition wiped :: "string \<Rightarrow> storage_state \<Rightarrow> storage_state \<Rightarrow> bool" where
  "wiped p s t \<longleftrightarrow> (\<forall>f. js_get (dk_files (ss_disk t)) f \<in> {None, js_get (dk_files (ss_disk s)) f}) \<and>
     (\<forall>ob \<in> set (js_values (sm_objects (ss_meta s))). ob_projectId ob = p \<longrightarrow>
        ob \<in> set (js_values (sm_objects (ss_meta t))) \<or> no_file ob t)"

lemma wiped_same: "ss_disk t = ss_disk s \<Longrightarrow> sm_objects (ss_meta t) = sm_objects (ss_meta s) \<Longrightarrow> wiped p s t"
  by (simp add: wiped_def)

lemma wiped_trans: "wiped p s t \<Longrightarrow> wiped p t u \<Longrightarrow> wiped p s u"
proof -
  assume a: "wiped p s t" and b: "wiped p t u"
  have f: "js_get (dk_files (ss_disk u)) f \<in> {None, js_get (dk_files (ss_disk t)) f}" for f using b by (simp only: wiped_def)
  then have "no_file ob t \<Longrightarrow> no_file ob u" for ob unfolding no_file_def by (metis empty_iff insertE)
  moreover have "js_get (dk_files (ss_disk u)) f \<in> {None, js_get (dk_files (ss_disk s)) f}" for f
    using f [of f] a unfolding wiped_def by (metis insert_iff singletonD)
  ultimately show ?thesis using a b unfolding wiped_def by blast
qed

lemma purge_object_files:
  "js_get (dk_files (ss_disk (purge_object p name ob s))) f =
    (if assertProviderKey (ob_storageKey ob) = Inr f then None else js_get (dk_files (ss_disk s)) f)"
  by (cases "assertProviderKey (ob_storageKey ob)")
    (auto simp: purge_object_def Let_def quietly_def act_defs on_disk_def provider_delete_def unlink_def is_file_def)

lemma wiped_one:
  assumes "meta_ok (ss_meta s)" and "ob \<in> set (js_values (sm_objects (ss_meta s)))"
    and "ob_projectId ob = p" "ob_bucket ob = name"
  shows "wiped p s (purge_object p name ob s)"
  using purge_one(3) [OF assms] by (auto simp: wiped_def no_file_def purge_object_files)

lemma purge_batch:
  assumes "meta_ok (ss_meta s)" and "distinct batch"
    and "\<forall>ob\<in>set batch. ob \<in> set (js_values (sm_objects (ss_meta s))) \<and> ob_projectId ob = p \<and> ob_bucket ob = name"
  shows "purged p name (ss_meta s) (ss_meta (fold (purge_object p name) batch s)) \<and>
    held_in p name (ss_meta (fold (purge_object p name) batch s)) = held_in p name (ss_meta s) - int (length batch) \<and>
    wiped p s (fold (purge_object p name) batch s)"
  using assms
proof (induction batch arbitrary: s)
  case (Cons ob batch)
  let ?t = "purge_object p name ob s"
  have "ob \<in> set (js_values (sm_objects (ss_meta s)))" "ob_projectId ob = p" "ob_bucket ob = name"
    using Cons.prems(3) by (meson list.set_intros(1))+
  note one = purge_one [OF Cons.prems(1) this] and wipe = wiped_one [OF Cons.prems(1) this]
  have "purged p name (ss_meta ?t) (ss_meta (fold (purge_object p name) batch ?t)) \<and>
    held_in p name (ss_meta (fold (purge_object p name) batch ?t)) = held_in p name (ss_meta ?t) - int (length batch) \<and>
    wiped p ?t (fold (purge_object p name) batch ?t)"
  proof (rule Cons.IH)
    show "\<forall>o'\<in>set batch. o' \<in> set (js_values (sm_objects (ss_meta ?t))) \<and> ob_projectId o' = p \<and> ob_bucket o' = name"
      unfolding one(3) using Cons.prems(2,3) by auto
  qed (use one(1) Cons.prems in \<open>simp_all add: purged_def\<close>)
  then show ?case using one(1,2) purged_trans [of p name "ss_meta s" "ss_meta ?t"] wiped_trans [OF wipe] by auto
qed (simp add: purged_refl wiped_same)

lemma matching_distinct:
  assumes m: "meta_ok m"
  shows "distinct (matching_objects p name pre m)"
proof -
  let ?key = "\<lambda>ob. objectKey (ob_projectId ob) (ob_bucket ob) (ob_path ob)"
  have "js_ok (sm_objects m)" using m by (simp add: meta_ok_def)
  moreover have "map ?key (js_values (sm_objects m)) = map fst (sm_objects m)"
  proof -
    have "?key (snd e) = fst e" if "e \<in> set (sm_objects m)" for e
      using that m js_pair_get [OF \<open>js_ok (sm_objects m)\<close>, of "fst e" "snd e"] meta_ok_object
      by (auto simp: object_wf_def)
    then show ?thesis by simp
  qed
  ultimately have "distinct (js_values (sm_objects m))" unfolding js_ok_def by (metis distinct_map)
  then show ?thesis unfolding matching_objects_def by (simp add: distinct_filter)
qed

lemma held_in_nonneg: "0 \<le> held_in p name m"
  unfolding held_in_def by (rule total_of_nonneg) simp

lemma held_in_matching: "held_in p name m = int (length (matching_objects p name '''' m))"
proof -
  have "sum_list (map (\<lambda>ob. if ob_projectId ob = p \<and> ob_bucket ob = name then 1 else 0) obs) =
      int (length (filter (\<lambda>ob. ob_projectId ob = p \<and> ob_bucket ob = name) obs))" for obs
    by (induction obs) auto
  then show ?thesis
    unfolding held_in_def total_of_def matching_objects_def by (simp only: length_sort starts_with_Nil simp_thms)
qed

lemma purge_object_disk:
  assumes "ob \<in> set (js_values (sm_objects m))" and "meta_ok m" and "ob_projectId ob = p"
  shows "disk_outside p (ss_disk u) (ss_disk (purge_object p name ob u))"
proof -
  have "object_wf (objectKey (ob_projectId ob) (ob_bucket ob) (ob_path ob)) ob"
    using meta_ok_object meta_ok_value assms(1,2) by blast
  then have "key_in p (ob_storageKey ob)" "scope_ok p" using assms(3) by (auto simp: object_wf_def key_in_def)
  from delete_disk_outside [OF this, of "ss_disk u"] show ?thesis
    by (auto simp: purge_object_def Let_def quietly_def act_catch_def on_disk_def split: prod.split sum.split)
qed

lemma purge_batch_disk:
  assumes "meta_ok m" and "\<forall>ob\<in>set batch. ob \<in> set (js_values (sm_objects m)) \<and> ob_projectId ob = p"
  shows "disk_outside p (ss_disk s) (ss_disk (fold (purge_object p name) batch s))"
  using assms(2)
proof (induction batch arbitrary: s)
  case (Cons ob batch)
  have "ob \<in> set (js_values (sm_objects m))" "ob_projectId ob = p" using Cons.prems by (meson list.set_intros(1))+
  then have "disk_outside p (ss_disk s) (ss_disk (purge_object p name ob s))"
    using purge_object_disk [OF _ assms(1)] by blast
  moreover have "disk_outside p (ss_disk (purge_object p name ob s)) (ss_disk (fold (purge_object p name) batch (purge_object p name ob s)))"
    using Cons.prems by (intro Cons.IH) (meson list.set_intros(2))
  ultimately show ?case using disk_outside_trans by fastforce
qed (simp add: disk_outside_refl)

lemma purge_bucket_ends:
  assumes "meta_ok (ss_meta s)"
  shows "\<exists>t. purge_bucket p name n s = Some (n + nat (held_in p name (ss_meta s)), t) \<and>
    purged p name (ss_meta s) (ss_meta t) \<and> held_in p name (ss_meta t) = 0 \<and> disk_outside p (ss_disk s) (ss_disk t) \<and>
    wiped p s t"
  using assms
proof (induction "nat (held_in p name (ss_meta s))" arbitrary: n s rule: less_induct)
  case less
  let ?batch = "take 200 (matching_objects p name '''' (ss_meta s))"
  have unf: "purge_bucket p name n s = (if ?batch = [] then Some (n, s)
      else purge_bucket p name (n + length ?batch) (fold (purge_object p name) ?batch s))"
    by (subst purge_bucket.simps) (simp add: meta_listObjects_def Let_def)
  show ?case
  proof (cases "?batch = []")
    case True
    then have "held_in p name (ss_meta s) = 0" by (simp add: held_in_matching)
    then show ?thesis using unf True purged_refl [OF less.prems] by (simp add: disk_outside_refl wiped_same)
  next
    case False
    let ?t = "fold (purge_object p name) ?batch s"
    have sub: "\<forall>ob\<in>set ?batch. ob \<in> set (js_values (sm_objects (ss_meta s))) \<and> ob_projectId ob = p \<and> ob_bucket ob = name"
      using set_take_subset [of 200 "matching_objects p name '''' (ss_meta s)"] unfolding matching_set by blast
    have b: "purged p name (ss_meta s) (ss_meta ?t)"
      "held_in p name (ss_meta ?t) = held_in p name (ss_meta s) - int (length ?batch)" "wiped p s ?t"
      using purge_batch [OF less.prems distinct_take [OF matching_distinct [OF less.prems]] sub] by blast+
    have pos: "0 < length ?batch" using False by blast
    have "nat (held_in p name (ss_meta ?t)) < nat (held_in p name (ss_meta s))"
      using b(2) pos held_in_nonneg [of p name "ss_meta ?t"] by linarith
    then obtain u where u: "purge_bucket p name (n + length ?batch) ?t =
        Some (n + length ?batch + nat (held_in p name (ss_meta ?t)), u)"
      "purged p name (ss_meta ?t) (ss_meta u)" "held_in p name (ss_meta u) = 0" "disk_outside p (ss_disk ?t) (ss_disk u)"
      "wiped p ?t u"
      using less.hyps [of ?t "n + length ?batch"] b(1) by (auto simp: purged_def)
    have "length ?batch + nat (held_in p name (ss_meta ?t)) = nat (held_in p name (ss_meta s))"
      using b(2) held_in_nonneg [of p name "ss_meta ?t"] by linarith
    moreover have "disk_outside p (ss_disk s) (ss_disk ?t)" using sub by (intro purge_batch_disk [OF less.prems]) blast
    ultimately show ?thesis
      using unf False u(1,3) purged_trans [OF b(1) u(2)] disk_outside_trans [OF _ u(4)] wiped_trans [OF b(3) u(5)] by (simp add: add.assoc)
  qed
qed

text \<open>All buckets of a list, one after the other.\<close>

definition emptied :: "string \<Rightarrow> string set \<Rightarrow> storage_meta \<Rightarrow> storage_meta \<Rightarrow> bool" where
  "emptied p names m n \<longleftrightarrow> meta_ok n \<and> sm_usage n = sm_usage m \<and> sm_uploads n = sm_uploads m \<and>
     (\<forall>k. js_get (sm_objects n) k = js_get (sm_objects m) k \<or>
        js_get (sm_objects n) k = None \<and> (\<exists>ob. js_get (sm_objects m) k = Some ob \<and> ob_projectId ob = p)) \<and>
     (\<forall>ob\<in>set (js_values (sm_objects n)). ob_projectId ob = p \<longrightarrow> ob_bucket ob \<notin> names) \<and>
     (\<forall>k. js_get (sm_buckets n) k = (if k \<in> bucketKey p ` names then None else js_get (sm_buckets m) k))"

lemma held_in_zero: "held_in p name m = 0 \<Longrightarrow> ob \<in> set (js_values (sm_objects m)) \<Longrightarrow> ob_projectId ob \<noteq> p \<or> ob_bucket ob \<noteq> name"
  using matching_set [of p name m] by (auto simp: held_in_matching)

lemma delete_empty_bucket:
  assumes m: "meta_ok m" and empty: "held_in p name m = 0" and name: "bucket_ok name"
  shows "meta_ok (meta_deleteBucket p name m)"
proof -
  have "bucketKey (ob_projectId ob) (ob_bucket ob) \<noteq> bucketKey p name" if g: "js_get (sm_objects m) k = Some ob" for k ob
  proof
    assume e: "bucketKey (ob_projectId ob) (ob_bucket ob) = bucketKey p name"
    have "bucket_ok (ob_bucket ob)" using meta_ok_object [OF m g] by (simp add: object_wf_def)
    then have "ob_projectId ob = p \<and> ob_bucket ob = name" using bucketKey_inj [OF e] name by blast
    then show False using held_in_zero [OF empty js_get_values [OF g]] by blast
  qed
  then show ?thesis using m by (auto simp: meta_ok_def meta_deleteBucket_def js_ok_delete)
qed

lemma purge_buckets_end:
  assumes "meta_ok (ss_meta s)" and "\<forall>bk\<in>set bks. bucket_ok (bk_name bk)"
  shows "\<exists>k t. purge_buckets p bks b n s = Some (b + length bks, k, t) \<and>
    emptied p (bk_name ` set bks) (ss_meta s) (ss_meta t) \<and> disk_outside p (ss_disk s) (ss_disk t) \<and> wiped p s t"
  using assms
proof (induction bks arbitrary: b n s)
  case Nil
  then show ?case by (simp add: emptied_def disk_outside_refl wiped_same)
next
  case (Cons bk bks)
  obtain t where t: "purge_bucket p (bk_name bk) n s = Some (n + nat (held_in p (bk_name bk) (ss_meta s)), t)"
    "purged p (bk_name bk) (ss_meta s) (ss_meta t)" "held_in p (bk_name bk) (ss_meta t) = 0"
    "disk_outside p (ss_disk s) (ss_disk t)" "wiped p s t"
    using purge_bucket_ends [OF Cons.prems(1)] by blast
  let ?u = "t\<lparr>ss_meta := meta_deleteBucket p (bk_name bk) (ss_meta t)\<rparr>"
  have u: "meta_ok (ss_meta ?u)" using t(2,3) Cons.prems(2) by (simp add: delete_empty_bucket purged_def)
  obtain k v where v: "purge_buckets p bks (b + 1) (n + nat (held_in p (bk_name bk) (ss_meta s))) ?u =
      Some (b + 1 + length bks, k, v)" "emptied p (bk_name ` set bks) (ss_meta ?u) (ss_meta v)"
    "disk_outside p (ss_disk t) (ss_disk v)" "wiped p ?u v"
    using Cons.IH [OF u, of "b + 1" "n + nat (held_in p (bk_name bk) (ss_meta s))"] Cons.prems(2)
    by (auto simp del: storage_state.simps)
  have "emptied p (bk_name ` set (bk # bks)) (ss_meta s) (ss_meta v)"
    unfolding emptied_def
  proof (intro conjI allI ballI impI)
    show "meta_ok (ss_meta v)" "sm_usage (ss_meta v) = sm_usage (ss_meta s)" "sm_uploads (ss_meta v) = sm_uploads (ss_meta s)"
      using v(2) t(2) by (simp_all add: emptied_def purged_def meta_deleteBucket_def)
    fix j
    show "js_get (sm_objects (ss_meta v)) j = js_get (sm_objects (ss_meta s)) j \<or>
        js_get (sm_objects (ss_meta v)) j = None \<and> (\<exists>ob. js_get (sm_objects (ss_meta s)) j = Some ob \<and> ob_projectId ob = p)"
      using v(2) t(2) by (auto simp: emptied_def purged_def meta_deleteBucket_def) (metis option.inject)+
    show "js_get (sm_buckets (ss_meta v)) j = (if j \<in> bucketKey p ` bk_name ` set (bk # bks) then None
        else js_get (sm_buckets (ss_meta s)) j)"
      using v(2) t(2) by (auto simp: emptied_def purged_def meta_deleteBucket_def)
  next
    fix ob assume ob: "ob \<in> set (js_values (sm_objects (ss_meta v)))" "ob_projectId ob = p"
    have "js_ok (sm_objects (ss_meta v))" using v(2) by (simp add: emptied_def meta_ok_def)
    then obtain j where j: "js_get (sm_objects (ss_meta v)) j = Some ob" using js_values_get [OF _ ob(1)] by blast
    then have "js_get (sm_objects (ss_meta t)) j = Some ob"
      using v(2) by (auto simp: emptied_def meta_deleteBucket_def) (metis option.distinct(1))
    then have "ob_bucket ob \<noteq> bk_name bk" using held_in_zero [OF t(3) js_get_values] ob(2) by blast
    then show "ob_bucket ob \<notin> bk_name ` set (bk # bks)" using v(2) ob by (auto simp: emptied_def)
  qed
  moreover have "wiped p t ?u" by (rule wiped_same) (simp_all add: meta_deleteBucket_def)
  then have "wiped p s v" using wiped_trans t(5) v(4) by blast
  ultimately show ?case using t(1) v(1) disk_outside_trans [OF t(4) v(3)] by simp
qed

lemma all_buckets_of:
  assumes m: "meta_ok m" and n: "emptied p (bk_name ` set (meta_listBuckets p m)) m n"
  shows "\<forall>ob\<in>set (js_values (sm_objects n)). ob_projectId ob \<noteq> p" and "meta_listBuckets p n = []"
proof -
  let ?names = "bk_name ` set (meta_listBuckets p m)"
  have listed: "bk_name bk \<in> ?names" if "js_get (sm_buckets m) k = Some bk" "bk_projectId bk = p" for k bk
    using that js_get_values [OF that(1)] by (auto simp: meta_listBuckets_def)
  show "\<forall>ob\<in>set (js_values (sm_objects n)). ob_projectId ob \<noteq> p"
  proof (rule ballI, rule notI)
    fix ob assume ob: "ob \<in> set (js_values (sm_objects n))" "ob_projectId ob = p"
    have nok: "meta_ok n" using n by (simp add: emptied_def)
    have g: "js_get (sm_objects n) (objectKey p (ob_bucket ob) (ob_path ob)) = Some ob"
      using meta_ok_value [OF nok ob(1)] ob(2) by simp
    then have "js_get (sm_objects m) (objectKey p (ob_bucket ob) (ob_path ob)) = Some ob"
      using n unfolding emptied_def by (metis option.distinct(1))
    then obtain bk where bk: "js_get (sm_buckets m) (bucketKey p (ob_bucket ob)) = Some bk"
      using m ob(2) unfolding meta_ok_def by blast
    have "bucket_ok (ob_bucket ob)" using meta_ok_object [OF nok g] by (simp add: object_wf_def)
    then have "bk_projectId bk = p \<and> bk_name bk = ob_bucket ob"
      using getBucket_wf [OF m] bk by (simp add: meta_getBucket_def)
    then show False using listed [OF bk] n ob by (auto simp: emptied_def)
  qed
  show "meta_listBuckets p n = []"
  proof (rule ccontr)
    assume "meta_listBuckets p n \<noteq> []"
    then obtain bk where bk: "bk \<in> set (js_values (sm_buckets n))" "bk_projectId bk = p"
      by (auto simp: meta_listBuckets_def filter_empty_conv)
    have "js_ok (sm_buckets n)" using n by (simp add: emptied_def meta_ok_def)
    then obtain k where k: "js_get (sm_buckets n) k = Some bk" using js_values_get [OF _ bk(1)] by blast
    then have "bucket_wf k bk" using n meta_ok_bucket by (auto simp: emptied_def)
    moreover have "js_get (sm_buckets m) k = Some bk" "k \<notin> bucketKey p ` ?names"
      using n k by (auto simp: emptied_def split: if_splits)
    ultimately show False using listed bk(2) by (auto simp: bucket_wf_def)
  qed
qed

lemma total_of_keys:
  assumes "js_ok m" and "fst ` set m \<subseteq> K" and "finite K"
  shows "total_of f m = (\<Sum>k\<in>K. case js_get m k of Some v \<Rightarrow> f v | None \<Rightarrow> 0)"
  using assms
proof (induction m arbitrary: K)
  case Nil
  then show ?case by (simp add: total_of_def)
next
  case (Cons e m)
  obtain k v where e: "e = (k, v)" by (cases e)
  let ?g = "\<lambda>m k. case js_get m k of Some v \<Rightarrow> f v | None \<Rightarrow> 0"
  have k: "k \<notin> fst ` set m" "js_ok m" "k \<in> K" using Cons.prems e by (auto simp: js_ok_def)
  then have "js_get m k = None" by (simp add: map_of_eq_None_iff)
  then have none: "?g m k = 0" by simp
  have "(\<Sum>j\<in>K. ?g (e # m) j) = f v + (\<Sum>j\<in>K - {k}. ?g (e # m) j)"
    using Cons.prems k(3) e by (simp add: sum.remove)
  also have "(\<Sum>j\<in>K - {k}. ?g (e # m) j) = (\<Sum>j\<in>K - {k}. ?g m j)" using e by (intro sum.cong) auto
  also have "\<dots> = (\<Sum>j\<in>K. ?g m j)" using Cons.prems k(3) none by (simp add: sum.remove)
  also have "\<dots> = total_of f m" using Cons.IH [OF k(2), of K] Cons.prems e by simp
  finally show ?case using e by (simp add: total_of_def)
qed

lemma total_of_agree:
  assumes "js_ok m" and "js_ok n"
    and "\<And>k. (case js_get n k of Some v \<Rightarrow> f v | None \<Rightarrow> 0) = (case js_get m k of Some v \<Rightarrow> f v | None \<Rightarrow> 0)"
  shows "total_of f n = total_of f m"
proof -
  let ?K = "fst ` set m \<union> fst ` set n"
  show ?thesis
    using total_of_keys [OF assms(1), of ?K f] total_of_keys [OF assms(2), of ?K f] by (simp add: assms(3))
qed

lemma emptied_totals:
  assumes m: "meta_ok m" and n: "emptied p names m n" and q: "q \<noteq> p"
  shows "files_of q n = files_of q m" "bytes_of q n = bytes_of q m"
proof -
  have j: "js_ok (sm_objects m)" "js_ok (sm_objects n)" using m n by (simp_all add: meta_ok_def emptied_def)
  have d: "js_get (sm_objects n) k = js_get (sm_objects m) k \<or>
      js_get (sm_objects n) k = None \<and> (\<exists>ob. js_get (sm_objects m) k = Some ob \<and> ob_projectId ob = p)" for k
    using n by (simp add: emptied_def)
  have "(case js_get (sm_objects n) k of Some ob \<Rightarrow> if ob_projectId ob = q then g ob else 0 | None \<Rightarrow> 0) =
      (case js_get (sm_objects m) k of Some ob \<Rightarrow> if ob_projectId ob = q then g ob else (0::int) | None \<Rightarrow> 0)" for g k
    by (rule disjE [OF d [of k]]) (use q in auto)
  then show "files_of q n = files_of q m" "bytes_of q n = bytes_of q m"
    unfolding files_of_def bytes_of_def by (intro total_of_agree j; simp)+
qed

text \<open>Deleting a project: always ends, and leaves the state well-formed and the rest alone.\<close>

lemma deleteProjectData_ends:
  assumes inv: "meta_inv sv (ss_meta s)"
  shows "\<exists>k t. deleteProjectData p s = Some (length (meta_listBuckets p (ss_meta s)), k, t) \<and>
    meta_inv sv (ss_meta t) \<and> meta_outside p (ss_meta s) (ss_meta t) \<and> disk_outside p (ss_disk s) (ss_disk t) \<and>
    meta_listBuckets p (ss_meta t) = [] \<and> files_of p (ss_meta t) = 0 \<and> bytes_of p (ss_meta t) = 0 \<and>
    (\<forall>ob \<in> set (js_values (sm_objects (ss_meta s))). ob_projectId ob = p \<longrightarrow> no_file ob t)"
proof -
  let ?bks = "meta_listBuckets p (ss_meta s)"
  note ok = meta_inv_parts(1) [OF inv]
  have names: "\<forall>bk\<in>set ?bks. bk_projectId bk = p \<and> bucket_ok (bk_name bk)"
  proof
    fix bk assume "bk \<in> set ?bks"
    then have bk: "bk \<in> set (js_values (sm_buckets (ss_meta s)))" "bk_projectId bk = p" by (auto simp: meta_listBuckets_def)
    have "js_ok (sm_buckets (ss_meta s))" using ok by (simp add: meta_ok_def)
    from js_values_get [OF this bk(1)] show "bk_projectId bk = p \<and> bucket_ok (bk_name bk)"
      using meta_ok_bucket [OF ok] bk(2) by (auto simp: bucket_wf_def)
  qed
  then obtain k t where t: "purge_buckets p ?bks 0 0 s = Some (length ?bks, k, t)"
    "emptied p (bk_name ` set ?bks) (ss_meta s) (ss_meta t)" "disk_outside p (ss_disk s) (ss_disk t)" "wiped p s t"
    using purge_buckets_end [OF ok, of ?bks p 0 0] by auto
  let ?m = "ss_meta t" and ?u = "usage_of p (ss_meta t)"
  let ?n = "meta_adjustUsage p (- uc_files ?u) (- uc_bytes ?u) (snd (counters p ?m))"
  have none: "\<forall>ob\<in>set (js_values (sm_objects ?m)). ob_projectId ob \<noteq> p" and empty: "meta_listBuckets p ?m = []"
    by (rule all_buckets_of [OF ok t(2)])+
  have gone: "filter (\<lambda>ob. ob_projectId ob = p) (js_values (sm_objects ?m)) = []"
    by (rule filter_False [OF none])
  have zero: "files_of p ?m = 0" "bytes_of p ?m = 0" unfolding files_of_alt bytes_of_alt gone by simp_all
  have mok: "meta_ok ?m" and same: "sm_usage ?m = sm_usage (ss_meta s)" using t(2) by (simp_all add: emptied_def)
  have nok: "meta_ok ?n" using mok by (simp add: meta_adjustUsage_def meta_ok_def)
  have others: "files_of q ?m = files_of q (ss_meta s)" "bytes_of q ?m = bytes_of q (ss_meta s)" if "q \<noteq> p" for q
    using emptied_totals [OF ok t(2) that] by simp_all
  have totals: "files_of q ?n = files_of q ?m" "bytes_of q ?n = bytes_of q ?m" for q
    by (simp_all add: meta_adjustUsage_def files_of_def bytes_of_def)
  have "0 \<le> bytes_of p (ss_meta s)"
    unfolding bytes_of_def using object_sizes [OF ok] by (intro total_of_nonneg) auto
  then have quota: "0 \<le> sv_quotaBytes sv" using meta_inv_parts(3,4) [OF inv, of p] by simp
  have "meta_inv sv ?n"
  proof (rule meta_invI [OF inv nok, where p = p and df = "- files_of p (ss_meta s)" and db = "- bytes_of p (ss_meta s)"])
    fix q
    show "files_of q ?n = files_of q (ss_meta s) + (if q = p then - files_of p (ss_meta s) else 0)"
      "bytes_of q ?n = bytes_of q (ss_meta s) + (if q = p then - bytes_of p (ss_meta s) else 0)"
      unfolding totals using zero others [of q] by simp_all
    show "uc_files (usage_of q ?n) = uc_files (usage_of q (ss_meta s)) + (if q = p then - files_of p (ss_meta s) else 0)"
      "uc_bytes (usage_of q ?n) = uc_bytes (usage_of q (ss_meta s)) + (if q = p then - bytes_of p (ss_meta s) else 0)"
      using meta_inv_parts(2,3) [OF inv, of p] usage_of_same [OF same, of p] usage_of_same [OF same, of q]
      by (simp_all add: meta_adjustUsage_def)
  qed (use quota meta_inv_parts(3) [OF inv, of p] in simp)
  moreover have "meta_outside p (ss_meta s) ?n"
  proof -
    have "js_get (sm_objects ?m) k = js_get (sm_objects (ss_meta s)) k \<or> (\<exists>b x. k = objectKey p b x)" for k
    proof -
      have "js_get (sm_objects ?m) k = js_get (sm_objects (ss_meta s)) k \<or>
          (\<exists>ob. js_get (sm_objects (ss_meta s)) k = Some ob \<and> ob_projectId ob = p)"
        using t(2) unfolding emptied_def by blast
      then show ?thesis using meta_ok_object [OF ok, of k] unfolding object_wf_def by blast
    qed
    moreover have "js_get (sm_buckets ?m) k = js_get (sm_buckets (ss_meta s)) k \<or> (\<exists>b. k = bucketKey p b \<and> bucket_ok b)" for k
      using t(2) names unfolding emptied_def by auto
    moreover have "sm_uploads ?m = sm_uploads (ss_meta s)" using t(2) by (simp add: emptied_def)
    ultimately have "meta_outside p (ss_meta s) ?m" by (simp add: meta_outside_def usage_of_same [OF same])
    then show ?thesis
      unfolding meta_adjustUsage_def
      by (rule meta_outside_trans [OF _ meta_outside_trans [OF counters_outside(1) counters_outside(2)]])
  qed
  moreover have "meta_listBuckets p ?n = []" "files_of p ?n = 0" "bytes_of p ?n = 0"
    using empty zero by (simp_all add: meta_adjustUsage_def meta_listBuckets_def files_of_def bytes_of_def)
  moreover have "no_file ob (t\<lparr>ss_meta := ?n\<rparr>)" if "ob \<in> set (js_values (sm_objects (ss_meta s)))" "ob_projectId ob = p" for ob
  proof -
    have "ob \<in> set (js_values (sm_objects ?m)) \<or> no_file ob t" using t(4) that by (simp only: wiped_def)
    then have "no_file ob t" using none that(2) by blast
    then show ?thesis by (simp add: no_file_def)
  qed
  ultimately show ?thesis using t(1,3) by (auto simp: deleteProjectData_def meta_usage_def case_prod_beta Let_def)
qed

end
