(* ===== verification/StorageSafety.thy ===== *)
theory StorageSafety
  imports StoragePurge
begin

text \<open>
  The requests the storage service serves, the states they reach, and what holds in all of them.  A project
  identifier is the lower- or upper-case hexadecimal text with hyphens the registry gives out.
\<close>

section \<open>Requests\<close>

datatype storage_request =
    CreateBucketReq storage_caller bucket_input
  | UpdateBucketReq storage_caller string bucket_patch
  | DeleteBucketReq storage_caller string
  | UploadReq storage_caller string string upload_input
  | PutSignedReq string string string string upload_input
  | DownloadReq storage_caller string string
  | DownloadSignedReq string string string string
  | CreateSessionReq storage_caller session_input
  | UploadPartReq storage_caller string int "byte list list"
  | CompleteReq storage_caller string
  | AbortReq storage_caller string
  | RemoveReq storage_caller string string
  | CopyReq storage_caller string string string
  | MoveReq storage_caller string string string
  | UsageReq storage_caller
  | DeleteProjectReq string

fun request_project :: "storage_request \<Rightarrow> string" where
  "request_project (CreateBucketReq ca _) = ca_projectId ca"
| "request_project (UpdateBucketReq ca _ _) = ca_projectId ca"
| "request_project (DeleteBucketReq ca _) = ca_projectId ca"
| "request_project (UploadReq ca _ _ _) = ca_projectId ca"
| "request_project (PutSignedReq p _ _ _ _) = p"
| "request_project (DownloadReq ca _ _) = ca_projectId ca"
| "request_project (DownloadSignedReq p _ _ _) = p"
| "request_project (CreateSessionReq ca _) = ca_projectId ca"
| "request_project (UploadPartReq ca _ _ _) = ca_projectId ca"
| "request_project (CompleteReq ca _) = ca_projectId ca"
| "request_project (AbortReq ca _) = ca_projectId ca"
| "request_project (RemoveReq ca _ _) = ca_projectId ca"
| "request_project (CopyReq ca _ _ _) = ca_projectId ca"
| "request_project (MoveReq ca _ _ _) = ca_projectId ca"
| "request_project (UsageReq ca) = ca_projectId ca"
| "request_project (DeleteProjectReq p) = p"

text \<open>The state after a request, whether it succeeds or throws; \<open>None\<close> if it never ends.\<close>

fun serve :: "storage_service \<Rightarrow> instant \<Rightarrow> string \<Rightarrow> storage_request \<Rightarrow> storage_state \<Rightarrow> storage_state option" where
  "serve sv now nid (CreateBucketReq ca input) s = Some (snd (createBucket sv now nid ca input s))"
| "serve sv now nid (UpdateBucketReq ca name patch) s = Some (snd (updateBucket now ca name patch s))"
| "serve sv now nid (DeleteBucketReq ca name) s = Some (snd (deleteBucket ca name s))"
| "serve sv now nid (UploadReq ca name raw input) s = Some (snd (upload sv now nid ca name raw input s))"
| "serve sv now nid (PutSignedReq p og name raw input) s = Some (snd (putSigned sv now nid p og name raw input s))"
| "serve sv now nid (DownloadReq ca name raw) s = Some (snd (download ca name raw s))"
| "serve sv now nid (DownloadSignedReq p og name raw) s = Some (snd (downloadSigned p og name raw s))"
| "serve sv now nid (CreateSessionReq ca si) s = Some (snd (createUploadSession sv now nid ca si s))"
| "serve sv now nid (UploadPartReq ca uid i src) s = Some (snd (uploadPart sv now ca uid i src s))"
| "serve sv now nid (CompleteReq ca uid) s = Some (snd (completeUploadSession sv now nid ca uid s))"
| "serve sv now nid (AbortReq ca uid) s = Some (snd (abortUploadSession ca uid s))"
| "serve sv now nid (RemoveReq ca name raw) s = Some (snd (remove_object ca name raw s))"
| "serve sv now nid (CopyReq ca name raw dest) s = Some (snd (copy_object sv now nid ca name raw dest s))"
| "serve sv now nid (MoveReq ca name raw dest) s = Some (snd (move_object sv now nid ca name raw dest s))"
| "serve sv now nid (UsageReq ca) s = Some (snd (storage_usage sv ca s))"
| "serve sv now nid (DeleteProjectReq p) s = map_option (\<lambda>(_, _, t). t) (deleteProjectData p s)"

inductive storage_reach :: "storage_service \<Rightarrow> storage_state \<Rightarrow> bool" for sv where
  start: "storage_reach sv empty_storage"
| served: "storage_reach sv s \<Longrightarrow> scope_ok (request_project req) \<Longrightarrow> serve sv now nid req s = Some t \<Longrightarrow> storage_reach sv t"

lemma meta_inv_empty: "0 \<le> sv_quotaBytes sv \<Longrightarrow> meta_inv sv (ss_meta empty_storage)"
  by (simp add: empty_storage_def meta_inv_def meta_ok_def counted_def usage_of_def or_else_def no_usage_def
      files_of_def bytes_of_def total_of_def)

lemma kept_step:
  assumes "kept_by sv p s (m :: 'a storage_act)" and "scope_ok p" and "meta_inv sv (ss_meta s)"
  shows "sinv sv p s (snd (m s))"
  using assms meta_outside_refl disk_outside_refl by (simp add: triple_def sinv_def)

lemma serve_sinv:
  assumes "serve sv now nid req s = Some t" and "scope_ok (request_project req)" and "meta_inv sv (ss_meta s)"
  shows "sinv sv (request_project req) s t"
proof (cases req)
  case (DeleteProjectReq p)
  then show ?thesis using deleteProjectData_ends [OF assms(3), of p] assms by (auto simp: sinv_def)
qed (use assms in \<open>auto simp: copy_object_def move_object_def intro!: kept_step createBucket_kept updateBucket_kept
    deleteBucket_kept upload_kept putSigned_kept download_kept createUploadSession_kept uploadPart_kept complete_kept
    abort_kept remove_kept copyOrMove_kept usage_kept\<close>)

lemma reach_meta_inv: "storage_reach sv s \<Longrightarrow> 0 \<le> sv_quotaBytes sv \<Longrightarrow> meta_inv sv (ss_meta s)"
proof (induction rule: storage_reach.induct)
  case start
  then show ?case by (rule meta_inv_empty)
next
  case (served s req now nid t)
  then show ?case using serve_sinv sinv_inv(1) by blast
qed

section \<open>A small service\<close>

primrec serve_all :: "storage_service \<Rightarrow> (instant \<times> string \<times> storage_request) list \<Rightarrow> storage_state \<Rightarrow> storage_state option" where
  "serve_all sv [] s = Some s"
| "serve_all sv (r # rs) s = (case r of (now, nid, req) \<Rightarrow>
     (case serve sv now nid req s of None \<Rightarrow> None | Some t \<Rightarrow> serve_all sv rs t))"

lemma serve_all_reach:
  "storage_reach sv s \<Longrightarrow> list_all (\<lambda>(_, _, req). scope_ok (request_project req)) rs \<Longrightarrow> serve_all sv rs s = Some t \<Longrightarrow>
   storage_reach sv t"
proof (induction rs arbitrary: s)
  case (Cons r rs)
  obtain now nid req where r: "r = (now, nid, req)" by (cases r)
  then obtain u where u: "serve sv now nid req s = Some u" "serve_all sv rs u = Some t"
    using Cons.prems(3) by (auto split: option.splits)
  have "scope_ok (request_project req)" using Cons.prems(2) r by simp
  then have "storage_reach sv u" by (rule storage_reach.served [OF Cons.prems(1) _ u(1)])
  then show ?case by (rule Cons.IH) (use Cons.prems(2) u(2) in simp_all)
qed simp

definition sample_storage :: storage_service where
  "sample_storage = \<lparr>sv_maxBuckets = 5, sv_quotaBytes = 10, sv_defaultMaxFileBytes = 100, sv_maxSignedTtlSeconds = 3600,
     sv_signingSecret = replicate 32 (CHR ''s''), sv_sha = (\<lambda>bs. replicate (length bs) (CHR ''e'')),
     sv_hmac = (\<lambda>_ t. ascii_bytes (take 2 t)), sv_json_parse = (\<lambda>_. None)\<rparr>"

definition sample_project :: string where
  "sample_project = ''00000000-0000-0000-0000-000000000001''"

definition sample_admin :: storage_caller where
  "sample_admin = \<lparr>ca_kind = SessionCaller, ca_userId = Some ''u1'', ca_role = ''admin'', ca_projectId = sample_project,
     ca_organizationId = ''o1'', ca_agent = None\<rparr>"

definition sample_bucket :: bucket_input where
  "sample_bucket = \<lparr>bi_name = ''files'', bi_visibility = None, bi_fileSizeLimit = None, bi_allowedMimeTypes = None,
     bi_ownerIsolation = None\<rparr>"

definition sample_upload :: "nat \<Rightarrow> upload_input" where
  "sample_upload n = \<lparr>up_contentType = None, up_source = [replicate n 65], up_sample = [], up_upsert = True\<rparr>"

definition sample_requests :: "(instant \<times> string \<times> storage_request) list" where
  "sample_requests = [(1000, ''b1'', CreateBucketReq sample_admin sample_bucket),
     (2000, ''f1'', UploadReq sample_admin ''files'' ''docs/a.txt'' (sample_upload 4))]"

definition sample_state :: storage_state where
  "sample_state = the (serve_all sample_storage sample_requests empty_storage)"

lemma sample_runs: "serve_all sample_storage sample_requests empty_storage = Some sample_state"
proof -
  have "serve_all sample_storage sample_requests empty_storage \<noteq> None"
    by (simp add: sample_requests_def)
  then show ?thesis by (simp add: sample_state_def)
qed

lemma sample_reached: "storage_reach sample_storage sample_state"
proof (rule serve_all_reach [OF storage_reach.start _ sample_runs])
  show "list_all (\<lambda>(_, _, req). scope_ok (request_project req)) sample_requests" by code_simp
qed

lemma sample_quota: "0 \<le> sv_quotaBytes sample_storage"
  by (simp add: sample_storage_def)

section \<open>What holds in every state\<close>

definition objects_of :: "string \<Rightarrow> storage_state \<Rightarrow> stored_object list" where
  "objects_of p s = filter (\<lambda>ob. ob_projectId ob = p) (js_values (sm_objects (ss_meta s)))"

text \<open>What an upload adds, whatever happened since it was planned.\<close>

lemma store_adds:
  assumes "store_upload sv now nid p og source pl s = (Inr eo, t)" and "0 \<le> uc_bytes (usage_of p (ss_meta s))"
    and "\<And>old. pl_existing pl = Some old \<Longrightarrow> 0 \<le> ob_size old" and "pl_usedBytes pl \<le> sv_quotaBytes sv"
  shows "uc_bytes (usage_of p (ss_meta t)) \<le> sv_quotaBytes sv + (uc_bytes (usage_of p (ss_meta s)) - pl_usedBytes pl)"
proof -
  obtain sz u where u: "usage_of p u = usage_of p (ss_meta s)" and fit: "pl_usedBytes pl + sz \<le> sv_quotaBytes sv"
    and t: "ss_meta t = (case pl_existing pl of Some old \<Rightarrow> meta_adjustUsage p 0 (sz - ob_size old) u | None \<Rightarrow> meta_recordUpload p sz u)"
  proof -
    from assms(1) obtain sz etag d where d: "putStream (sv_sha sv) (pl_key pl) source (max_bytes sv (pl_bucket pl)) (ss_disk s) = (Inr (sz, etag), d)"
      and fit: "\<not> pl_usedBytes pl + sz > sv_quotaBytes sv"
      unfolding store_upload_def Let_def act_Inr on_disk_def
      by (auto simp: act_Inr fail_def split: prod.splits if_splits)
    let ?i = "\<lparr>po_organizationId = og, po_projectId = p, po_bucketId = bk_id (pl_bucket pl), po_bucket = bk_name (pl_bucket pl), po_path = pl_path pl,
      po_filename = fileNameOf (pl_path pl), po_mimeType = pl_mime pl, po_size = sz, po_etag = etag, po_storageKey = pl_key pl, po_metadata = []\<rparr>"
    let ?u = "snd (meta_putObject now nid ?i (ss_meta s))"
    have "ss_meta t = (case pl_existing pl of Some old \<Rightarrow> meta_adjustUsage p 0 (sz - ob_size old) ?u | None \<Rightarrow> meta_recordUpload p sz ?u)"
      using assms(1) d fit
      by (simp add: store_upload_def Let_def act_defs on_disk_def on_meta_def meta_do_def audit_def case_prod_beta)
        (auto split: option.splits)
    then show ?thesis using that [of ?u sz] usage_of_same [OF put_object_effect(2)] fit by auto
  qed
  show ?thesis
  proof (cases "pl_existing pl")
    case None
    then show ?thesis using t u fit by (simp add: usage_effects)
  next
    case (Some old)
    then show ?thesis using t u fit assms(2,4) assms(3) [OF Some] by (simp add: usage_effects)
  qed
qed

lemma plan_reads:
  assumes "plan_upload sv p bk path input s = (Inr pl, t)"
  shows "pl_usedBytes pl = uc_bytes (usage_of p (ss_meta s))" and "pl_usedBytes pl < sv_quotaBytes sv"
    and "pl_existing pl = Some old \<Longrightarrow> meta_getObject p (bk_name bk) path (ss_meta s) = Some old"
  using assms
  by (auto simp: plan_upload_def act_Inr meta_get_def on_meta_def act_run_def meta_usage_def usage_of_def or_else_def counters_def
      split: option.splits prod.splits)

text \<open>C17. Usage is exact and within the quota.  When requests are served one after the other, the usage the service
  reports for a project is exactly the number and the total size of the objects it holds, and never more bytes than the
  quota.  An upload waits for its bytes between its look at the usage and its entry: when requests were served in
  between, it goes past the quota by no more than what they added (and two uploads that overlap may go past it, see
  \<open>StorageLimits\<close>).\<close>

theorem usage_is_exact:
  assumes "storage_reach sv s" and "0 \<le> sv_quotaBytes sv"
  shows "uc_files (fst (meta_usage p (ss_meta s))) = int (length (objects_of p s)) \<and>
    uc_bytes (fst (meta_usage p (ss_meta s))) = sum_list (map ob_size (objects_of p s)) \<and>
    uc_bytes (fst (meta_usage p (ss_meta s))) \<le> sv_quotaBytes sv \<and>
    (\<forall>s0 s1 bk path input pl now nid og source eo t.
       storage_reach sv s0 \<longrightarrow> plan_upload sv p bk path input s0 = (Inr pl, s1) \<longrightarrow>
       store_upload sv now nid p og source pl s = (Inr eo, t) \<longrightarrow>
       uc_bytes (fst (meta_usage p (ss_meta t))) \<le> sv_quotaBytes sv +
         (uc_bytes (fst (meta_usage p (ss_meta s))) - uc_bytes (fst (meta_usage p (ss_meta s0)))))"
proof -
  note inv = reach_meta_inv [OF assms]
  have "uc_bytes (usage_of p (ss_meta t)) \<le> sv_quotaBytes sv + (uc_bytes (usage_of p (ss_meta s)) - uc_bytes (usage_of p (ss_meta s0)))"
    if r: "storage_reach sv s0" and pl: "plan_upload sv p bk path input s0 = (Inr pl, s1)"
      and st: "store_upload sv now nid p og source pl s = (Inr eo, t)" for s0 s1 bk path input pl now nid og source eo t
  proof -
    note m0 = meta_inv_parts(1) [OF reach_meta_inv [OF r assms(2)]]
    have "0 \<le> bytes_of p (ss_meta s)"
      unfolding bytes_of_def using object_sizes [OF meta_inv_parts(1) [OF inv]] by (intro total_of_nonneg) auto
    then have "0 \<le> uc_bytes (usage_of p (ss_meta s))" using meta_inv_parts(3) [OF inv, of p] by simp
    moreover have "0 \<le> ob_size old" if "pl_existing pl = Some old" for old
      using meta_ok_object [OF m0] plan_reads(3) [OF pl that] by (auto simp: meta_getObject_def object_wf_def)
    ultimately show ?thesis using store_adds [OF st] plan_reads(1,2) [OF pl] by simp
  qed
  then show ?thesis
    using meta_inv_parts(2-4) [OF inv, of p] by (simp add: meta_usage_def objects_of_def files_of_alt bytes_of_alt)
qed

theorem usage_is_exact_witness:
  "uc_files (fst (meta_usage sample_project (ss_meta sample_state))) = int (length (objects_of sample_project sample_state)) \<and>
   map ob_path (objects_of sample_project sample_state) = [''docs/a.txt''] \<and>
   uc_bytes (fst (meta_usage sample_project (ss_meta sample_state))) = 4"
proof -
  have "map ob_path (objects_of sample_project sample_state) = [''docs/a.txt'']"
    "uc_bytes (fst (meta_usage sample_project (ss_meta sample_state))) = 4"
    by code_simp+
  then show ?thesis using usage_is_exact [OF sample_reached sample_quota, of sample_project] by blast
qed

text \<open>C19. Projects are apart: a request for one project changes no bucket, object, upload session, usage counter and
  no file of another.\<close>

theorem storage_projects_apart:
  assumes "storage_reach sv s" and "0 \<le> sv_quotaBytes sv" and "serve sv now nid req s = Some t"
    and "scope_ok (request_project req)" and "scope_ok q" and "q \<noteq> request_project req"
  shows "meta_getObject q name path (ss_meta t) = meta_getObject q name path (ss_meta s) \<and>
    (bucket_ok name \<longrightarrow> meta_getBucket q name (ss_meta t) = meta_getBucket q name (ss_meta s)) \<and>
    meta_getUploadSession q uid (ss_meta t) = meta_getUploadSession q uid (ss_meta s) \<and>
    fst (meta_usage q (ss_meta t)) = fst (meta_usage q (ss_meta s)) \<and>
    js_get (dk_files (ss_disk t)) ((''p_'' @ q) # f) = js_get (dk_files (ss_disk s)) ((''p_'' @ q) # f)"
proof -
  let ?p = "request_project req"
  have i: "sinv sv ?p s t" using serve_sinv [OF assms(3,4) reach_meta_inv [OF assms(1,2)]] .
  have o: "objectKey q name path \<noteq> objectKey ?p b x" for b x
  proof
    assume "objectKey q name path = objectKey ?p b x"
    then have "q @ ''/'' @ (name @ ''/'' @ path) = ?p @ ''/'' @ (b @ ''/'' @ x)" by (simp add: objectKey_def)
    from split_first_slash [OF this] show False using assms(4-6) scope_ok_no_slash by blast
  qed
  have b: "bucket_ok name \<Longrightarrow> bucket_ok c \<Longrightarrow> bucketKey q name \<noteq> bucketKey ?p c" for c
    using bucketKey_inj assms(6) by blast
  have u: "uploadKey q uid \<noteq> uploadKey ?p j" for j using uploadKey_inj assms(4-6) by blast
  have f: "(''p_'' @ q) # f \<noteq> (''p_'' @ ?p) # r" for r using assms(6) by simp
  show ?thesis
    using i o b u f assms(6)
    unfolding sinv_def meta_outside_def disk_outside_def meta_getObject_def meta_getBucket_def meta_getUploadSession_def
      meta_usage_def counters_usage by metis
qed

theorem storage_projects_apart_witness:
  "meta_getObject (replicate 36 (CHR ''a'')) ''files'' ''docs/a.txt'' (ss_meta sample_state) =
   meta_getObject (replicate 36 (CHR ''a'')) ''files'' ''docs/a.txt''
     (ss_meta (snd (remove_object sample_admin ''files'' ''docs/a.txt'' sample_state))) \<and>
   fst (remove_object sample_admin ''files'' ''docs/a.txt'' sample_state) = Inr ()"
proof -
  have "serve sample_storage 3000 ''x'' (RemoveReq sample_admin ''files'' ''docs/a.txt'') sample_state =
      Some (snd (remove_object sample_admin ''files'' ''docs/a.txt'' sample_state))"
    "fst (remove_object sample_admin ''files'' ''docs/a.txt'' sample_state) = Inr ()"
    by (simp, code_simp)
  moreover have "scope_ok (request_project (RemoveReq sample_admin ''files'' ''docs/a.txt''))"
    "scope_ok (replicate 36 (CHR ''a''))"
    "replicate 36 (CHR ''a'') \<noteq> request_project (RemoveReq sample_admin ''files'' ''docs/a.txt'')"
    by code_simp+
  ultimately show ?thesis using storage_projects_apart [OF sample_reached sample_quota] by metis
qed

text \<open>C21. Deleting a project's data always ends: it reports one bucket per bucket of the project, and leaves no bucket,
  no object, a usage of zero, and of no object the file that held its bytes.  Parts of upload sessions that were never
  completed are no objects; their files stay.\<close>

theorem project_deletion_ends:
  assumes "storage_reach sv s" and "0 \<le> sv_quotaBytes sv"
  shows "\<exists>k t. deleteProjectData p s = Some (length (meta_listBuckets p (ss_meta s)), k, t) \<and>
    meta_listBuckets p (ss_meta t) = [] \<and> objects_of p t = [] \<and>
    uc_files (fst (meta_usage p (ss_meta t))) = 0 \<and> uc_bytes (fst (meta_usage p (ss_meta t))) = 0 \<and>
    (\<forall>ob \<in> set (objects_of p s). \<exists>f. assertProviderKey (ob_storageKey ob) = Inr f \<and> js_get (dk_files (ss_disk t)) f = None)"
proof -
  note inv = reach_meta_inv [OF assms(1,2)]
  obtain k t where t: "deleteProjectData p s = Some (length (meta_listBuckets p (ss_meta s)), k, t)"
    "meta_inv sv (ss_meta t)" "meta_listBuckets p (ss_meta t) = []" "files_of p (ss_meta t) = 0" "bytes_of p (ss_meta t) = 0"
    "\<forall>ob \<in> set (js_values (sm_objects (ss_meta s))). ob_projectId ob = p \<longrightarrow> no_file ob t"
    using deleteProjectData_ends [OF inv, of p] by blast
  then have "objects_of p t = []" unfolding files_of_alt objects_of_def by (simp only: of_nat_eq_0_iff length_0_conv)
  moreover have "\<exists>f. assertProviderKey (ob_storageKey ob) = Inr f \<and> js_get (dk_files (ss_disk t)) f = None"
    if "ob \<in> set (objects_of p s)" for ob
  proof -
    have ob: "ob \<in> set (js_values (sm_objects (ss_meta s)))" "ob_projectId ob = p" using that by (auto simp: objects_of_def)
    note m = meta_inv_parts(1) [OF inv]
    have "object_wf (objectKey (ob_projectId ob) (ob_bucket ob) (ob_path ob)) ob"
      using meta_ok_object meta_ok_value m ob(1) by blast
    then have "assertProviderKey (ob_storageKey ob) = Inr (object_file (ob_projectId ob) (ob_bucket ob) (ob_path ob))"
      using provider_key_object by (simp add: object_wf_def)
    then show ?thesis using t(6) ob by (auto simp: no_file_def)
  qed
  ultimately show ?thesis using t meta_inv_parts(2,3) [OF t(2), of p] by (simp add: meta_usage_def)
qed

theorem project_deletion_ends_witness:
  "(case deleteProjectData sample_project sample_state of None \<Rightarrow> False
    | Some (b, k, t) \<Rightarrow> b = 1 \<and> objects_of sample_project t = [] \<and>
        js_get (dk_files (ss_disk t)) (object_file sample_project ''files'' ''docs/a.txt'') = None) \<and>
   js_get (dk_files (ss_disk sample_state)) (object_file sample_project ''files'' ''docs/a.txt'') = Some [65, 65, 65, 65]"
proof -
  let ?f = "object_file sample_project ''files'' ''docs/a.txt''"
  have s: "length (meta_listBuckets sample_project (ss_meta sample_state)) = 1"
    "map (assertProviderKey \<circ> ob_storageKey) (objects_of sample_project sample_state) = [Inr ?f]"
    "js_get (dk_files (ss_disk sample_state)) ?f = Some [65, 65, 65, 65]" by code_simp+
  then obtain ob where ob: "ob \<in> set (objects_of sample_project sample_state)" "assertProviderKey (ob_storageKey ob) = Inr ?f" by force
  obtain k t where "deleteProjectData sample_project sample_state = Some (1, k, t)" "objects_of sample_project t = []"
    "\<exists>f. assertProviderKey (ob_storageKey ob) = Inr f \<and> js_get (dk_files (ss_disk t)) f = None"
    using project_deletion_ends [OF sample_reached sample_quota, of sample_project] s(1) ob(1) by metis
  then show ?thesis using s(3) ob(2) by simp
qed

end
