(* ===== verification/StorageObjects.thy ===== *)
theory StorageObjects
  imports StorageSafety
begin

text \<open>
  Objects as a client sees them: paths stay below the storage directory, the service implements a map from
  (project, bucket, path) to bytes, and a customer stays in the folder of their own.
\<close>

section \<open>Paths\<close>

text \<open>Containment of paths: an accepted path is in normal form, and its key is a key the local provider accepts; the file
  it resolves to lies at least three names below the base directory, no name being empty, \<open>.\<close> or \<open>..\<close>, and no
  other project, bucket or path resolves to it.\<close>

theorem path_stays_below_base:
  assumes "assertObjectPath raw = Inr path" and "scope_ok pid" and "bucket_ok name"
  shows "assertObjectPath path = Inr path \<and>
    (\<exists>key f. storageKeyFor pid name raw = Inr key \<and> assertProviderKey key = Inr f \<and> 3 \<le> length f \<and> length f \<le> 34 \<and>
      list_all (\<lambda>w. w \<noteq> '''' \<and> w \<noteq> ''.'' \<and> w \<noteq> ''..'' \<and> CHR ''/'' \<notin> set w) f \<and>
      (\<forall>pid' name' path' key'. scope_ok pid' \<longrightarrow> bucket_ok name' \<longrightarrow> storageKeyFor pid' name' path' = Inr key' \<longrightarrow>
         assertProviderKey key' = Inr f \<longrightarrow> pid' = pid \<and> name' = name \<and> assertObjectPath path' = Inr path))"
proof -
  have n: "normal_path path" by (rule assertObjectPath_normal [OF assms(1)])
  let ?key = "''p_'' @ pid @ ''/b_'' @ name @ ''/'' @ path" and ?f = "object_file pid name path"
  have k: "storageKeyFor pid name raw = Inr ?key" using assms by (simp add: storageKeyFor_def)
  have f: "assertProviderKey ?key = Inr ?f" by (rule provider_key_object [OF assms(2,3) n])
  then have "list_all segment_ok ?f" "3 \<le> length ?f" "length ?f \<le> 34"
    by (auto simp: assertProviderKey_def Let_def list_ex_iff list_all_iff split: if_splits)
  then have safe: "list_all (\<lambda>w. w \<noteq> '''' \<and> w \<noteq> ''.'' \<and> w \<noteq> ''..'' \<and> CHR ''/'' \<notin> set w) ?f"
    using segment_ok_not_dots segment_ok_nonempty segment_ok_no_slash by (auto simp: list_all_iff)
  have "pid' = pid \<and> name' = name \<and> assertObjectPath path' = Inr path"
    if a: "scope_ok pid'" "bucket_ok name'" "storageKeyFor pid' name' path' = Inr key'" "assertProviderKey key' = Inr ?f"
    for pid' name' path' key'
  proof -
    obtain q where q: "assertObjectPath path' = Inr q" "key' = ''p_'' @ pid' @ ''/b_'' @ name' @ ''/'' @ q"
      using a(3) by (auto simp: storageKeyFor_Inr)
    have "object_file pid' name' q = ?f"
      using provider_key_object [OF a(1,2) assertObjectPath_normal [OF q(1)]] a(4) q(2) by simp
    then show ?thesis using q(1) by (simp add: object_file_inj)
  qed
  then show ?thesis using k f safe normal_path_id [OF n] \<open>3 \<le> length ?f\<close> \<open>length ?f \<le> 34\<close> by blast
qed

theorem path_stays_below_base_witness:
  "assertObjectPath ''a//./b.txt'' = Inr ''a/b.txt'' \<and> assertObjectPath ''a/../b'' = Inl path_error \<and>
   (\<exists>key f. storageKeyFor sample_project ''files'' ''a//./b.txt'' = Inr key \<and> assertProviderKey key = Inr f \<and> 3 \<le> length f)"
proof -
  have "assertObjectPath ''a//./b.txt'' = Inr ''a/b.txt''" "assertObjectPath ''a/../b'' = Inl path_error"
    "scope_ok sample_project" "bucket_ok ''files''" by code_simp+
  then show ?thesis using path_stays_below_base [of "''a//./b.txt''" "''a/b.txt''" sample_project "''files''"] by blast
qed

section \<open>The objects as a map\<close>

definition contents :: "storage_state \<Rightarrow> string \<times> string \<times> string \<Rightarrow> byte list option" where
  "contents s k = (case k of (p, name, path) \<Rightarrow>
     if scope_ok p \<and> bucket_ok name \<and> meta_getObject p name path (ss_meta s) \<noteq> None
     then js_get (dk_files (ss_disk s)) (object_file p name path) else None)"

lemma contents_change:
  assumes ok: "scope_ok p" "bucket_ok name"
    and objs: "\<And>k. k \<noteq> objectKey p name path \<Longrightarrow> js_get (sm_objects (ss_meta t)) k = js_get (sm_objects (ss_meta s)) k"
    and files: "\<And>f. f \<noteq> object_file p name path \<Longrightarrow> js_get (dk_files (ss_disk t)) f = js_get (dk_files (ss_disk s)) f"
  shows "contents t = (contents s)((p, name, path) := contents t (p, name, path))"
proof (rule ext)
  fix k show "contents t k = ((contents s)((p, name, path) := contents t (p, name, path))) k"
  proof (cases k)
    case (fields q b x)
    show ?thesis
    proof (cases "k = (p, name, path)")
      case False
      then have "scope_ok q \<Longrightarrow> bucket_ok b \<Longrightarrow> objectKey q b x \<noteq> objectKey p name path"
        using objectKey_inj ok fields by blast
      moreover have "object_file q b x \<noteq> object_file p name path" using False fields by (simp add: object_file_inj)
      ultimately have "contents t k = contents s k"
        using objs [of "objectKey q b x"] files [of "object_file q b x"] fields
        by (cases "scope_ok q \<and> bucket_ok b") (auto simp: contents_def meta_getObject_def)
      with False show ?thesis by simp
    qed simp
  qed
qed

lemma bucketFor_Inr:
  assumes "bucketFor p og name s = (Inr bk, t)"
  shows "t = s \<and> bucket_ok name \<and> meta_getBucket p name (ss_meta s) = Some bk \<and> bk_organizationId bk = og"
  using assms by (auto simp: bucketFor_def act_Inr meta_get_def fail_def assertBucketName_def split: if_splits option.splits)

lemma check_Inr: "storage_check bk ca op path s = (Inr u, t) \<longleftrightarrow>
    t = s \<and> ca_projectId ca = bk_projectId bk \<and> authorize bk ca op path"
  by (auto simp: storage_check_def fail_def)

lemma meta_get_Inr: "meta_get f s = (Inr a, t) \<longleftrightarrow> a = f (ss_meta s) \<and> t = s"
  by (auto simp: meta_get_def)

lemma on_meta_Inr: "on_meta f s = (Inr a, t) \<longleftrightarrow> (\<exists>m. f (ss_meta s) = (a, m) \<and> t = s\<lparr>ss_meta := m\<rparr>)"
  by (auto simp: on_meta_def act_run_def split: prod.splits)

lemma on_disk_Inr: "on_disk m s = (Inr a, t) \<longleftrightarrow> (\<exists>d. m (ss_disk s) = (Inr a, d) \<and> t = s\<lparr>ss_disk := d\<rparr>)"
  by (auto simp: on_disk_def split: prod.splits)

lemma counters_pair: "counters p m = (c, n) \<Longrightarrow> c = usage_of p m \<and> sm_objects n = sm_objects m \<and> sm_buckets n = sm_buckets m"
  by (auto simp: counters_def usage_of_def or_else_def split: option.splits)

lemma put_pair: "meta_putObject now nid input m = (ob, n) \<Longrightarrow>
    sm_objects n = js_set (objectKey (po_projectId input) (po_bucket input) (po_path input)) ob (sm_objects m) \<and>
    ob_size ob = po_size input \<and> ob_etag ob = po_etag input \<and> ob_storageKey ob = po_storageKey input"
  by (auto simp: meta_putObject_def Let_def)

lemma meta_do_Inr: "meta_do f s = (Inr u, t) \<longleftrightarrow> t = s\<lparr>ss_meta := f (ss_meta s)\<rparr>"
  by (auto simp: meta_do_def)

lemma audit_Inr: "audit ev p b q d z s = (Inr u, t) \<Longrightarrow> ss_meta t = ss_meta s \<and> ss_disk t = ss_disk s"
  by (auto simp: audit_def)

lemmas storage_Inr = act_Inr check_Inr meta_get_Inr on_meta_Inr on_disk_Inr meta_do_Inr

lemma plan_Inr:
  assumes "plan_upload sv p bk path input s = (Inr pl, t)" and "normal_path path"
  shows "sm_objects (ss_meta t) = sm_objects (ss_meta s) \<and> ss_disk t = ss_disk s \<and> pl_bucket pl = bk \<and> pl_path pl = path \<and>
    scope_ok p \<and> pl_key pl = ''p_'' @ p @ ''/b_'' @ bk_name bk @ ''/'' @ path"
  using assms(1)
  by (auto simp: plan_upload_def storage_Inr meta_usage_def storageKeyFor_Inr normal_path_id [OF assms(2)]
      dest!: counters_pair)

lemma store_Inr:
  assumes "store_upload sv now nid p og source pl s = (Inr eo, t)"
  shows "\<exists>f ob. assertProviderKey (pl_key pl) = Inr f \<and>
    dk_files (ss_disk t) = js_set f (concat source) (dk_files (ss_disk s)) \<and>
    sm_objects (ss_meta t) = js_set (objectKey p (bk_name (pl_bucket pl)) (pl_path pl)) ob (sm_objects (ss_meta s)) \<and>
    eo = exposeObject ob \<and> ob_size ob = int (length (concat source)) \<and> ob_etag ob = sv_sha sv (concat source)"
  using assms
  by (auto simp: store_upload_def storage_Inr Let_def case_prod_beta meta_adjustUsage_def meta_recordUpload_def fail_def
      split: option.splits if_splits dest!: audit_Inr put_pair elim!: putStream_Inr)

lemma upload_contents:
  assumes m: "meta_ok (ss_meta s)" and u: "upload sv now nid ca name raw input s = (Inr eo, t)"
    and path: "assertObjectPath raw = Inr path"
  shows "contents t = (contents s)((ca_projectId ca, name, path) \<mapsto> concat (up_source input))"
    and "scope_ok (ca_projectId ca) \<and> bucket_ok name"
proof -
  let ?p = "ca_projectId ca"
  note n = assertObjectPath_normal [OF path]
  obtain bk pl r where b: "bucketFor ?p (ca_organizationId ca) name s = (Inr bk, s)"
    and pl: "plan_upload sv ?p bk path input s = (Inr pl, r)"
    and st: "store_upload sv now nid ?p (ca_organizationId ca) (up_source input) pl r = (Inr eo, t)"
    using u path unfolding upload_def storage_Inr by (auto dest: bucketFor_Inr)
  have bk: "bucket_ok name" "bk_name bk = name"
    using bucketFor_Inr [OF b] getBucket_wf [OF m] by blast+
  note p = plan_Inr [OF pl n]
  obtain f ob where f: "assertProviderKey (pl_key pl) = Inr f" "dk_files (ss_disk t) = js_set f (concat (up_source input)) (dk_files (ss_disk r))"
    and o: "sm_objects (ss_meta t) = js_set (objectKey ?p (bk_name (pl_bucket pl)) (pl_path pl)) ob (sm_objects (ss_meta r))"
    using store_Inr [OF st] by blast
  have sc: "scope_ok ?p" using p by simp
  have f': "f = object_file ?p name path" using f(1) p bk provider_key_object [OF sc bk(1) n] by simp
  show "scope_ok ?p \<and> bucket_ok name" using sc bk by simp
  have "contents t (?p, name, path) = Some (concat (up_source input))"
    using sc bk f(2) f' o p by (simp add: contents_def meta_getObject_def)
  moreover have "contents t = (contents s)((?p, name, path) := contents t (?p, name, path))"
    using f(2) f' o p bk by (intro contents_change sc bk(1)) simp_all
  ultimately show "contents t = (contents s)((?p, name, path) \<mapsto> concat (up_source input))" by simp
qed

lemma unlink_Inr: "unlink f d = (Inr u, e) \<Longrightarrow> dk_files e = js_delete f (dk_files d)"
  by (auto simp: unlink_def is_file_def map_of_eq_None_iff delete_id split: if_splits)

lemma provider_delete_Inr: "provider_delete key d = (Inr u, e) \<Longrightarrow>
    \<exists>f. assertProviderKey key = Inr f \<and> dk_files e = js_delete f (dk_files d)"
  by (auto simp: provider_delete_def act_Inr dest: unlink_Inr)

lemma object_key_file:
  assumes "meta_ok m" and "meta_getObject p name path m = Some ob" and "scope_ok p" and "bucket_ok name"
  shows "assertProviderKey (ob_storageKey ob) = Inr (object_file p name path)"
  using getObject_wf [OF assms] provider_key_object [OF assms(3,4)] by simp

lemma remove_contents:
  assumes m: "meta_ok (ss_meta s)" and sc: "scope_ok (ca_projectId ca)" and path: "assertObjectPath raw = Inr path"
    and r: "remove_object ca name raw s = (Inr (), t)"
  shows "contents t = (contents s)((ca_projectId ca, name, path) := None)"
proof -
  let ?p = "ca_projectId ca"
  obtain bk ob d where b: "bucket_ok name" "meta_getBucket ?p name (ss_meta s) = Some bk"
    and ob: "meta_getObject ?p (bk_name bk) path (ss_meta s) = Some ob"
    and d: "provider_delete (ob_storageKey ob) (ss_disk s) = (Inr (), d)"
    and t: "ss_disk t = d" "ss_meta t = meta_adjustUsage ?p (- 1) (- ob_size ob) (meta_deleteObject ?p (bk_name bk) path (ss_meta s))"
    using r path unfolding remove_object_def storage_Inr by (auto dest!: bucketFor_Inr audit_Inr)
  have bk: "bucket_ok name" "bk_name bk = name"
    using b getBucket_wf [OF m] by blast+
  have "dk_files d = js_delete (object_file ?p name path) (dk_files (ss_disk s))"
    using provider_delete_Inr [OF d] object_key_file [OF m ob sc] bk by auto
  then have "contents t = (contents s)((?p, name, path) := contents t (?p, name, path))"
    using t bk by (intro contents_change sc bk(1)) (simp_all add: meta_adjustUsage_def)
  moreover have "contents t (?p, name, path) = None"
    using t bk by (simp add: contents_def meta_getObject_def meta_adjustUsage_def)
  ultimately show ?thesis by simp
qed

lemma copyOrMove_contents:
  assumes m: "meta_ok (ss_meta s)" and sc: "scope_ok (ca_projectId ca)"
    and path: "assertObjectPath raw = Inr path" "assertObjectPath rawDest = Inr dest"
    and r: "copyOrMove sv now nid ca name raw rawDest isMove s = (Inr eo, t)"
  shows "contents t = (if isMove then (\<lambda>c. c((ca_projectId ca, name, path) := None)) else (\<lambda>c. c))
     ((contents s)((ca_projectId ca, name, dest) := contents s (ca_projectId ca, name, path)))"
proof -
  let ?p = "ca_projectId ca"
  have "\<exists>bk ob key d. bucket_ok name \<and> meta_getBucket ?p name (ss_meta s) = Some bk \<and>
      meta_getObject ?p (bk_name bk) path (ss_meta s) = Some ob \<and> meta_getObject ?p (bk_name bk) dest (ss_meta s) = None \<and>
      storageKeyFor ?p (bk_name bk) dest = Inr key \<and> provider_copy (ob_storageKey ob) key (ss_disk s) = (Inr (), d) \<and>
      (if isMove then provider_delete (ob_storageKey ob) d = (Inr (), ss_disk t) else ss_disk t = d) \<and>
      (\<exists>ob'. sm_objects (ss_meta t) = (if isMove then js_delete (objectKey ?p (bk_name bk) path) else id)
         (js_set (objectKey ?p (bk_name bk) dest) ob' (sm_objects (ss_meta s))))"
    using r path unfolding copyOrMove_def storage_Inr
    by (cases isMove) (auto simp: storage_Inr meta_usage_def meta_recordUpload_def dest!: bucketFor_Inr audit_Inr put_pair counters_pair)
  then obtain bk ob key d ob' where b: "bucket_ok name" "meta_getBucket ?p name (ss_meta s) = Some bk"
    and ob: "meta_getObject ?p (bk_name bk) path (ss_meta s) = Some ob" "meta_getObject ?p (bk_name bk) dest (ss_meta s) = None"
    and key: "storageKeyFor ?p (bk_name bk) dest = Inr key" "provider_copy (ob_storageKey ob) key (ss_disk s) = (Inr (), d)"
    and td: "if isMove then provider_delete (ob_storageKey ob) d = (Inr (), ss_disk t) else ss_disk t = d"
    and to: "sm_objects (ss_meta t) = (if isMove then js_delete (objectKey ?p (bk_name bk) path) else id)
         (js_set (objectKey ?p (bk_name bk) dest) ob' (sm_objects (ss_meta s)))"
    by blast
  have bk: "bucket_ok name" "bk_name bk = name"
    using b getBucket_wf [OF m] by blast+
  have ne: "path \<noteq> dest" using ob by auto
  have sf: "assertProviderKey (ob_storageKey ob) = Inr (object_file ?p name path)"
    using object_key_file [OF m ob(1) sc] bk by simp
  have n: "normal_path dest" by (rule assertObjectPath_normal [OF path(2)])
  then have df: "assertProviderKey key = Inr (object_file ?p name dest)"
    using key(1) bk provider_key_object [OF sc bk(1) n] by (simp add: storageKeyFor_Inr normal_path_id)
  obtain bytes where bytes: "js_get (dk_files (ss_disk s)) (object_file ?p name path) = Some bytes"
    "dk_files d = js_set (object_file ?p name dest) bytes (dk_files (ss_disk s))"
    by (rule provider_copy_Inr [OF key(2)]) (use sf df in auto)
  have src: "contents s (?p, name, path) = Some bytes" using bytes ob bk sc by (simp add: contents_def)
  have keys: "objectKey ?p name path \<noteq> objectKey ?p name dest" "object_file ?p name path \<noteq> object_file ?p name dest"
    using objectKey_inj [of ?p name path ?p name dest] sc bk(1) ne by (auto simp: object_file_inj)
  have files: "dk_files (ss_disk t) = (if isMove then js_delete (object_file ?p name path) else id) (dk_files d)"
    using td sf provider_delete_Inr [of "ob_storageKey ob" d] by (cases isMove) force+
  show ?thesis
  proof (rule ext)
    fix k show "contents t k = ((if isMove then (\<lambda>c. c((?p, name, path) := None)) else (\<lambda>c. c))
     ((contents s)((?p, name, dest) := contents s (?p, name, path)))) k"
    proof (cases k)
      case (fields q b x)
      have inj: "scope_ok q \<Longrightarrow> bucket_ok b \<Longrightarrow> objectKey q b x = objectKey ?p name y \<longleftrightarrow> q = ?p \<and> b = name \<and> x = y" for y
        using objectKey_inj sc bk(1) by blast
      show ?thesis
        using fields src to files bytes(2) bk keys inj [of path] inj [of dest] sc ne
        by (cases "scope_ok q \<and> bucket_ok b"; cases isMove)
          (auto simp: contents_def meta_getObject_def object_file_inj)
    qed
  qed
qed

lemma getStream_Inr: "getStream key d = (Inr a, e) \<Longrightarrow>
    e = d \<and> (\<exists>f. assertProviderKey key = Inr f \<and> a = js_get (dk_files d) f)"
  by (auto simp: getStream_def act_Inr split: option.splits if_splits)

lemma download_contents:
  assumes m: "meta_ok (ss_meta s)" and sc: "scope_ok (ca_projectId ca)" and path: "assertObjectPath raw = Inr path"
    and r: "download ca name raw s = (Inr r, t)"
  shows "dn_stream r = contents s (ca_projectId ca, name, path) \<and> contents t = contents s"
proof -
  let ?p = "ca_projectId ca"
  have "\<exists>bk ob. bucket_ok name \<and> meta_getBucket ?p name (ss_meta s) = Some bk \<and>
      meta_getObject ?p (bk_name bk) path (ss_meta s) = Some ob \<and>
      (\<exists>f. assertProviderKey (ob_storageKey ob) = Inr f \<and> dn_stream r = js_get (dk_files (ss_disk s)) f) \<and>
      ss_disk t = ss_disk s \<and> sm_objects (ss_meta t) = sm_objects (ss_meta s)"
    using r path unfolding download_def fetch_object_def storage_Inr
    by (auto simp: meta_recordDownload_def fail_def dest!: bucketFor_Inr getStream_Inr)
  then obtain bk ob f where b: "bucket_ok name" "meta_getBucket ?p name (ss_meta s) = Some bk"
    and ob: "meta_getObject ?p (bk_name bk) path (ss_meta s) = Some ob"
    and f: "assertProviderKey (ob_storageKey ob) = Inr f" "dn_stream r = js_get (dk_files (ss_disk s)) f"
    and t: "ss_disk t = ss_disk s" "sm_objects (ss_meta t) = sm_objects (ss_meta s)"
    by blast
  have bk: "bk_name bk = name" using b getBucket_wf [OF m] by blast
  then have "dn_stream r = contents s (?p, name, path)"
    using f object_key_file [OF m ob sc] b(1) ob sc by (simp add: contents_def)
  moreover have "contents t = contents s" by (rule ext) (auto simp: contents_def t meta_getObject_def split: prod.split)
  ultimately show ?thesis by simp
qed

text \<open>C18. Refinement: seen as a map from (project, bucket, path) to bytes, a successful upload sets one entry to the bytes
  sent, a removal clears it, a copy sets the destination to what the source holds, a move also clears the source,
  and a download returns what the map holds and changes nothing.\<close>

theorem storage_refines_map:
  assumes "storage_reach sv s" and "0 \<le> sv_quotaBytes sv" and "scope_ok (ca_projectId ca)"
    and "assertObjectPath raw = Inr path" and "assertObjectPath rawDest = Inr dest"
    and "k = (ca_projectId ca, name, path)" and "k' = (ca_projectId ca, name, dest)"
  shows "(\<forall>eo t. upload sv now nid ca name raw input s = (Inr eo, t) \<longrightarrow>
      contents t = (contents s)(k \<mapsto> concat (up_source input))) \<and>
    (\<forall>t. remove_object ca name raw s = (Inr (), t) \<longrightarrow> contents t = (contents s)(k := None)) \<and>
    (\<forall>eo t. copy_object sv now nid ca name raw rawDest s = (Inr eo, t) \<longrightarrow> contents t = (contents s)(k' := contents s k)) \<and>
    (\<forall>eo t. move_object sv now nid ca name raw rawDest s = (Inr eo, t) \<longrightarrow>
      contents t = (contents s)(k' := contents s k, k := None)) \<and>
    (\<forall>r t. download ca name raw s = (Inr r, t) \<longrightarrow> dn_stream r = contents s k \<and> contents t = contents s)"
proof -
  have m: "meta_ok (ss_meta s)" by (rule meta_inv_parts(1) [OF reach_meta_inv [OF assms(1,2)]])
  show ?thesis
    unfolding assms(6,7)
  proof (intro conjI allI impI)
    fix eo t assume "upload sv now nid ca name raw input s = (Inr eo, t)"
    then show "contents t = (contents s)((ca_projectId ca, name, path) \<mapsto> concat (up_source input))"
      by (rule upload_contents(1) [OF m _ assms(4)])
  next
    fix t assume "remove_object ca name raw s = (Inr (), t)"
    then show "contents t = (contents s)((ca_projectId ca, name, path) := None)"
      by (rule remove_contents [OF m assms(3,4)])
  next
    fix eo t assume "copy_object sv now nid ca name raw rawDest s = (Inr eo, t)"
    from copyOrMove_contents [OF m assms(3-5) this [unfolded copy_object_def]]
    show "contents t = (contents s)((ca_projectId ca, name, dest) := contents s (ca_projectId ca, name, path))" by simp
  next
    fix eo t assume "move_object sv now nid ca name raw rawDest s = (Inr eo, t)"
    from copyOrMove_contents [OF m assms(3-5) this [unfolded move_object_def]]
    show "contents t = (contents s)((ca_projectId ca, name, dest) := contents s (ca_projectId ca, name, path),
      (ca_projectId ca, name, path) := None)" by simp
  next
    fix r t assume d: "download ca name raw s = (Inr r, t)"
    show "dn_stream r = contents s (ca_projectId ca, name, path)" "contents t = contents s"
      using download_contents [OF m assms(3,4) d] by simp_all
  qed
qed

theorem storage_refines_map_witness:
  "\<not> isl (fst (move_object sample_storage 3000 ''f2'' sample_admin ''files'' ''docs/a.txt'' ''b.txt'' sample_state)) \<and>
   contents (snd (move_object sample_storage 3000 ''f2'' sample_admin ''files'' ''docs/a.txt'' ''b.txt'' sample_state))
     (sample_project, ''files'', ''b.txt'') = Some [65, 65, 65, 65]"
proof -
  let ?m = "move_object sample_storage 3000 ''f2'' sample_admin ''files'' ''docs/a.txt'' ''b.txt'' sample_state"
  let ?k = "(sample_project, ''files'', ''docs/a.txt'')" and ?k' = "(sample_project, ''files'', ''b.txt'')"
  have ok: "\<not> isl (fst ?m)" by code_simp
  then obtain eo where m: "?m = (Inr eo, snd ?m)" by (cases "fst ?m"; cases ?m) auto
  have "assertObjectPath ''docs/a.txt'' = Inr ''docs/a.txt''" "assertObjectPath ''b.txt'' = Inr ''b.txt''"
    "scope_ok (ca_projectId sample_admin)" "ca_projectId sample_admin = sample_project" by code_simp+
  from storage_refines_map [OF sample_reached sample_quota this(3,1,2), of ?k "''files''" ?k'] m this(4)
  have "contents (snd ?m) = (contents sample_state)(?k' := contents sample_state ?k, ?k := None)" by simp
  moreover have "contents sample_state ?k = Some [65, 65, 65, 65]" by code_simp
  ultimately show ?thesis using ok by simp
qed

section \<open>A customer's folder\<close>

definition in_folder :: "string \<Rightarrow> string \<Rightarrow> bool" where
  "in_folder u path \<longleftrightarrow> path = u \<or> starts_with path (u @ ''/'')"

text \<open>What the service answers to a customer outside the folder of their own: writes are refused with 403, reads with
  404 as if nothing were there.\<close>

lemma check_refuses:
  assumes "ca_kind ca = CustomerCaller" and "ca_role ca \<noteq> ''admin''" and "ca_userId ca = Some u"
    and "bk_ownerIsolation bk" and "bk_projectId bk = ca_projectId ca" and "\<not> in_folder u path"
  shows "storage_check bk ca op (Some path) s =
    (Inl (if op = ObjectDownload \<or> op = ObjectList then StorageFail SE_NOT_FOUND 404 else StorageFail SE_FORBIDDEN 403), s)"
  using assms by (auto simp: storage_check_def authorize_def in_folder_def fail_def split: if_splits)

lemma folder_prefix: "starts_with path (u @ ''/'') \<Longrightarrow> starts_with path u"
  by (auto simp: starts_with_iff)

lemma longer_prefix: "starts_with path q \<Longrightarrow> starts_with q p \<Longrightarrow> starts_with path p"
  by (auto simp: starts_with_iff)

text \<open>A listing asked for by a customer runs under a prefix in the folder, or under the bare identifier.\<close>

lemma listing_in_folder:
  assumes "list_objects ca name prefix n k s = (Inr (obs, many), t)"
    and b: "bucketFor (ca_projectId ca) (ca_organizationId ca) name s = (Inr bk, s)"
    and "bk_ownerIsolation bk" "ca_kind ca = CustomerCaller" "ca_role ca \<noteq> ''admin''" "ca_userId ca = Some u"
  shows "t = s \<and> (\<forall>ob\<in>set obs. starts_with (eo_path ob) u \<and> (prefix \<noteq> u \<longrightarrow> in_folder u (eo_path ob)))"
proof -
  have pre: "prefix = u \<or> starts_with prefix (u @ ''/'')"
    and obs: "t = s" "obs = map exposeObject (fst (meta_listObjects (ca_projectId ca) (bk_name bk) prefix (nat n) (nat k) (ss_meta s)))"
    using assms
    by (auto simp: list_objects_def act_Inr act_bind_def act_seq_def b storage_check_def authorize_def fail_def meta_get_def
        act_require_def act_defs or_else_def split: if_splits sum.splits prod.splits)
  have "starts_with (eo_path ob) prefix" if "ob \<in> set obs" for ob
    using that unfolding obs
    by (auto simp: meta_listObjects_def Let_def matching_objects_def exposeObject_def dest!: in_set_takeD in_set_dropD)
  then show ?thesis
    using pre obs(1) longer_prefix [of _ prefix "u @ ''/''"] folder_prefix [of _ u] by (auto simp: in_folder_def)
qed

lemma getUploadSession_cases: "(\<exists>e. getUploadSession now ca uid s = (Inl e, s)) \<or>
    (\<exists>ul. getUploadSession now ca uid s = (Inr ul, s) \<and> meta_getUploadSession (ca_projectId ca) uid (ss_meta s) = Some ul)"
  by (auto simp: getUploadSession_def session_of_def act_defs meta_get_def fail_def split: option.split)

text \<open>C20. A customer stays in their folder: in a bucket with owner isolation, a customer who is no administrator and asks to
  upload, delete, sign, move, copy, download or look up an object, or to open an upload session, at a path outside the
  folder of their own is refused, and the refusal changes nothing: neither record nor byte nor counter. The same holds
  of sending a part to, or completing, an upload session that somebody opened at such a path. A listing the customer is
  given changes nothing and shows only objects of the folder; only under the bare identifier, without the slash, it
  shows every object whose path begins with the identifier. Looking up and aborting an upload session, which ask no
  policy, are not covered.\<close>

theorem customer_stays_in_folder:
  assumes "storage_reach sv s" and "0 \<le> sv_quotaBytes sv"
    and "meta_getBucket (ca_projectId ca) name (ss_meta s) = Some bk" and "bucket_ok name"
    and "bk_organizationId bk = ca_organizationId ca" and "bk_ownerIsolation bk"
    and "ca_kind ca = CustomerCaller" and "ca_role ca \<noteq> ''admin''" and "ca_userId ca = Some u"
    and "assertObjectPath raw = Inr path" and "\<not> in_folder u path"
    and "assertObjectPath rawOther = Inr other"
  shows "upload sv now nid ca name raw input s = (Inl (StorageFail SE_FORBIDDEN 403), s) \<and>
    remove_object ca name raw s = (Inl (StorageFail SE_FORBIDDEN 403), s) \<and>
    sign_object sv now nonce ca name raw p ttl s = (Inl (StorageFail SE_FORBIDDEN 403), s) \<and>
    createUploadSession sv now nid ca (si\<lparr>si_bucket := name, si_path := raw\<rparr>) s = (Inl (StorageFail SE_FORBIDDEN 403), s) \<and>
    move_object sv now nid ca name raw rawOther s = (Inl (StorageFail SE_FORBIDDEN 403), s) \<and>
    move_object sv now nid ca name rawOther raw s = (Inl (StorageFail SE_FORBIDDEN 403), s) \<and>
    copy_object sv now nid ca name raw rawOther s = (Inl (StorageFail SE_FORBIDDEN 403), s) \<and>
    copy_object sv now nid ca name rawOther raw s = (Inl (StorageFail SE_FORBIDDEN 403), s) \<and>
    download ca name raw s = (Inl (StorageFail SE_NOT_FOUND 404), s) \<and>
    object_metadata ca name raw s = (Inl (StorageFail SE_NOT_FOUND 404), s) \<and>
    (\<forall>uid ul index source nid'. meta_getUploadSession (ca_projectId ca) uid (ss_meta s) = Some ul \<longrightarrow>
       ul_bucket ul = name \<longrightarrow> ul_path ul = path \<longrightarrow>
       (\<exists>e. uploadPart sv now ca uid index source s = (Inl e, s)) \<and>
       (\<exists>e. completeUploadSession sv now nid' ca uid s = (Inl e, s))) \<and>
    (\<forall>prefix n k obs many t. list_objects ca name prefix n k s = (Inr (obs, many), t) \<longrightarrow>
       t = s \<and> (\<forall>ob\<in>set obs. starts_with (eo_path ob) u \<and> (prefix \<noteq> u \<longrightarrow> in_folder u (eo_path ob))))"
proof -
  have "meta_ok (ss_meta s)" by (rule meta_inv_parts(1) [OF reach_meta_inv [OF assms(1,2)]])
  from getBucket_wf [OF this assms(3,4)] have bk: "bk_projectId bk = ca_projectId ca" by simp
  have b: "bucketFor (ca_projectId ca) (ca_organizationId ca) name s = (Inr bk, s)"
    using assms(3-5) by (simp add: bucketFor_def act_defs meta_get_def assertBucketName_def)
  have no: "storage_check bk ca op (Some path) s =
      (Inl (if op = ObjectDownload \<or> op = ObjectList then StorageFail SE_NOT_FOUND 404 else StorageFail SE_FORBIDDEN 403), s)" for op
    by (rule check_refuses [OF assms(7-9,6) bk assms(11)])
  have other: "storage_check bk ca op (Some other) s = (Inr (), s) \<or>
      storage_check bk ca op (Some other) s = (Inl (StorageFail SE_FORBIDDEN 403), s)" if "op \<noteq> ObjectDownload" "op \<noteq> ObjectList" for op
    using that bk by (simp add: storage_check_def fail_def)
  have parts: "(\<exists>e. uploadPart sv now ca uid index source s = (Inl e, s)) \<and>
      (\<exists>e. completeUploadSession sv now nid' ca uid s = (Inl e, s))"
    if held: "meta_getUploadSession (ca_projectId ca) uid (ss_meta s) = Some ul" "ul_bucket ul = name" "ul_path ul = path"
    for uid ul index source nid'
  proof -
    consider e where "getUploadSession now ca uid s = (Inl e, s)" | "getUploadSession now ca uid s = (Inr ul, s)"
      using getUploadSession_cases [of now ca uid s] held(1) by auto
    then show ?thesis
      by cases (simp_all add: uploadPart_def completeUploadSession_def act_defs act_bind_def act_seq_def b no held(2,3))
  qed
  have refused: "upload sv now nid ca name raw input s = (Inl (StorageFail SE_FORBIDDEN 403), s)"
    "remove_object ca name raw s = (Inl (StorageFail SE_FORBIDDEN 403), s)"
    "sign_object sv now nonce ca name raw p ttl s = (Inl (StorageFail SE_FORBIDDEN 403), s)"
    "createUploadSession sv now nid ca (si\<lparr>si_bucket := name, si_path := raw\<rparr>) s = (Inl (StorageFail SE_FORBIDDEN 403), s)"
    "move_object sv now nid ca name raw rawOther s = (Inl (StorageFail SE_FORBIDDEN 403), s)"
    "move_object sv now nid ca name rawOther raw s = (Inl (StorageFail SE_FORBIDDEN 403), s)"
    "copy_object sv now nid ca name raw rawOther s = (Inl (StorageFail SE_FORBIDDEN 403), s)"
    "copy_object sv now nid ca name rawOther raw s = (Inl (StorageFail SE_FORBIDDEN 403), s)"
    "download ca name raw s = (Inl (StorageFail SE_NOT_FOUND 404), s)"
    "object_metadata ca name raw s = (Inl (StorageFail SE_NOT_FOUND 404), s)"
    using other [of ObjectCopy] other [of ObjectMove]
    by (auto simp: upload_def remove_object_def sign_object_def createUploadSession_def move_object_def copy_object_def
        copyOrMove_def download_def object_metadata_def act_bind_def act_seq_def b no assms(10,12))
  show ?thesis
    by (intro conjI allI impI refused parts [THEN conjunct1] parts [THEN conjunct2] listing_in_folder [OF _ b assms(6-9), THEN conjunct1]
        listing_in_folder [OF _ b assms(6-9), THEN conjunct2])
qed

definition sample_customer :: storage_caller where
  "sample_customer = \<lparr>ca_kind = CustomerCaller, ca_userId = Some ''u7'', ca_role = ''authenticated'',
     ca_projectId = sample_project, ca_organizationId = ''o1'', ca_agent = None\<rparr>"

theorem customer_stays_in_folder_witness:
  "remove_object sample_customer ''files'' ''docs/a.txt'' sample_state = (Inl (StorageFail SE_FORBIDDEN 403), sample_state) \<and>
   download sample_customer ''files'' ''docs/a.txt'' sample_state = (Inl (StorageFail SE_NOT_FOUND 404), sample_state)"
proof -
  define bk where "bk = the (meta_getBucket (ca_projectId sample_customer) ''files'' (ss_meta sample_state))"
  have "meta_getBucket (ca_projectId sample_customer) ''files'' (ss_meta sample_state) \<noteq> None" by code_simp
  then have "meta_getBucket (ca_projectId sample_customer) ''files'' (ss_meta sample_state) = Some bk"
    by (simp add: bk_def)
  moreover have "bucket_ok ''files''" "bk_organizationId bk = ca_organizationId sample_customer" "bk_ownerIsolation bk"
    unfolding bk_def by code_simp+
  moreover have "ca_kind sample_customer = CustomerCaller" "ca_role sample_customer \<noteq> ''admin''"
    "ca_userId sample_customer = Some ''u7''" "assertObjectPath ''docs/a.txt'' = Inr ''docs/a.txt''"
    "\<not> in_folder ''u7'' ''docs/a.txt''"
    by code_simp+
  ultimately show ?thesis using customer_stays_in_folder [OF sample_reached sample_quota] by blast
qed

end
