(* ===== verification/StorageTokens.thy ===== *)
theory StorageTokens
  imports StorageObjects
begin

text \<open>
  What a signed link is worth (\<open>sign\<close>, \<open>verifySigned\<close> of \<open>service.ts\<close> over \<open>signed-urls.ts\<close>) and what a parsed image
  transform is (\<open>transform.ts\<close>).
\<close>

section \<open>Base64url\<close>

lemma digit_split: "y < k \<Longrightarrow> (x * k + y) div k = x \<and> (x * k + y) mod k = (y :: nat)"
  by simp

lemma digit_parts: "(n :: nat) < 256 \<Longrightarrow> n div 16 < 16 \<and> n div 64 < 4 \<and> n div 4 < 64"
  by (simp add: div_less_iff_less_mult)

lemma octets_sextets: "list_all (\<lambda>n. n < 256) bs \<Longrightarrow> octets (sextets bs) = bs"
proof (induction bs rule: sextets.induct)
  case (2 a) then show ?case by simp
next
  case (3 a b)
  then have "b < 256" by simp
  then show ?case using digit_parts [of b] digit_split [of "b div 16" 16 "a mod 4"] by simp
next
  case (4 a b c r)
  then have "b < 256" "c < 256" by simp_all
  then show ?case
    using 4 digit_parts [of b] digit_parts [of c] digit_split [of "b div 16" 16 "a mod 4"]
      digit_split [of "c div 64" 4 "b mod 16"] by simp
qed simp

lemma sextets_range: "list_all (\<lambda>n. n < 256) bs \<Longrightarrow> list_all (\<lambda>n. n < 64) (sextets bs)"
proof (induction bs rule: sextets.induct)
  case (2 a)
  then have "a div 4 < 64" "a mod 4 \<le> 3" using digit_parts [of a] by simp_all
  then show ?case by simp
next
  case (3 a b)
  then have "a div 4 < 64" "a mod 4 \<le> 3" "b div 16 < 16" "b mod 16 \<le> 15"
    using digit_parts [of a] digit_parts [of b] by simp_all
  then show ?case by simp
next
  case (4 a b c r)
  then have "a div 4 < 64" "a mod 4 \<le> 3" "b div 16 < 16" "b mod 16 \<le> 15" "c div 64 < 4" "c mod 64 < 64"
    using digit_parts [of a] digit_parts [of b] digit_parts [of c] by simp_all
  then show ?case using 4 by simp
qed simp

lemma B64URL_nth:
  assumes "v < 64"
  shows "B64URL ! v \<in> set B64URL \<and> B64URL ! v \<noteq> CHR ''.'' \<and> sextet_of (B64URL ! v) = v"
proof -
  have "list_all (\<lambda>v. B64URL ! v \<in> set B64URL \<and> B64URL ! v \<noteq> CHR ''.'' \<and> sextet_of (B64URL ! v) = v) [0..<64]"
    by code_simp
  with assms show ?thesis by (simp add: list_all_iff)
qed

lemma bytes_below: "list_all (\<lambda>n. n < 256) (map unat (bs :: byte list))"
proof -
  have "unat b < 256" for b :: byte
  proof -
    have "unat b < 2 ^ LENGTH(8)" by (rule unsigned_less)
    then show ?thesis by simp
  qed
  then show ?thesis by (simp add: list_all_iff)
qed

lemma b64url_digits: "c \<in> set (b64url bs) \<Longrightarrow> c \<in> set B64URL \<and> c \<noteq> CHR ''.''"
  using sextets_range [OF bytes_below [of bs]] B64URL_nth by (auto simp: b64url_def list_all_iff)

lemma from_base64url_b64url [simp]: "from_base64url (b64url bs) = bs"
proof -
  have "filter (\<lambda>c. c \<in> set B64URL \<or> c \<in> set ''+/'') (b64url bs) = b64url bs"
    using b64url_digits [of _ bs] by (simp only: filter_id_conv) blast
  moreover have "map sextet_of (b64url bs) = sextets (map unat bs)"
    using sextets_range [OF bytes_below [of bs]] B64URL_nth by (auto simp: b64url_def list_all_iff map_idI)
  ultimately show ?thesis
    by (simp add: from_base64url_def octets_sextets [OF bytes_below] map_idI)
qed

lemma b64url_nonempty: "bs \<noteq> [] \<Longrightarrow> b64url bs \<noteq> []"
  by (metis from_base64url_b64url b64url_def map_is_Nil_conv sextets.simps(1) list.simps(8))

lemma utf8_ascii [simp]: "utf8_text (ascii_bytes s) = s"
proof -
  have "char_of (unat (word_of_nat (code c) :: byte)) = c" for c
    using code_less_256 [of c] by (simp add: unsigned_of_nat take_bit_nat_eq_self code_def)
  then show ?thesis by (simp add: utf8_text_def ascii_bytes_def map_idI)
qed

section \<open>Issued tokens\<close>

lemma signToken_Inr:
  "signToken hmac secret claims ttl now = Inr token \<longleftrightarrow>
     32 \<le> length secret \<and> epoch_seconds now < sg_exp claims \<and> sg_exp claims \<le> epoch_seconds now + ttl \<and>
     token = b64urlEncode (claims_json claims) @ ''.'' @ b64url (hmac secret (b64urlEncode (claims_json claims)))"
  by (auto simp: signToken_def Let_def not_less not_le)

lemma payload_no_dot: "CHR ''.'' \<notin> set (b64urlEncode v)"
  using b64url_digits by (auto simp: b64urlEncode_def)

lemma payload_nonempty: "b64urlEncode (claims_json cl) \<noteq> []"
proof -
  have "json_stringify (claims_json cl) \<noteq> []" by (simp add: claims_json_def braces_def)
  then have "ascii_bytes (json_stringify (claims_json cl)) \<noteq> []" by (simp add: ascii_bytes_def)
  then show ?thesis unfolding b64urlEncode_def by (rule b64url_nonempty)
qed

lemma token_parts:
  "split_on (CHR ''.'') (b64urlEncode v @ ''.'' @ b64url bs) = [b64urlEncode v, b64url bs]"
proof -
  have "CHR ''.'' \<notin> set (b64url bs)" using b64url_digits [of "CHR ''.''" bs] by blast
  then show ?thesis using split_on_append [OF payload_no_dot, of v "b64url bs"] by (simp add: split_on_no_sep)
qed

lemma b64url_decodes: "b64urlDecode json_parse (b64urlEncode v) = json_parse (json_stringify v)"
  by (simp add: b64urlDecode_def b64urlEncode_def)

definition link_entries :: "signed_claims \<Rightarrow> (string \<times> json) list" where
  "link_entries cl = (case claims_json cl of JObj kvs \<Rightarrow> kvs | _ \<Rightarrow> [])"

lemma claims_json_entries: "claims_json cl = JObj (link_entries cl)"
  by (simp add: link_entries_def claims_json_def)

lemma claim_fields:
  "json_field (link_entries cl) ''v'' = JNum 1"
  "json_field (link_entries cl) ''projectId'' = JStr (sg_projectId cl)"
  "json_field (link_entries cl) ''bucket'' = JStr (sg_bucket cl)"
  "json_field (link_entries cl) ''path'' = JStr (sg_path cl)"
  "json_field (link_entries cl) ''op'' = JStr (signed_op_text (sg_op cl))"
  "json_field (link_entries cl) ''exp'' = JNum (sg_exp cl)"
  by (simp_all add: link_entries_def claims_json_def json_field_def)

lemma signed_op_text_inj [simp]: "signed_op_text p = signed_op_text q \<longleftrightarrow> p = q"
  by (simp add: signed_op_text_def split: signed_op.splits)

section \<open>Signed links\<close>

text \<open>What \<open>verifyCapability\<close> accepts.\<close>

lemma verifyCapability_Inr:
  assumes "verifyCapability hmac json_parse secret now token = Inr kvs"
  obtains payload mac rest e where "split_on (CHR ''.'') token = payload # mac # rest"
    "from_base64url mac = hmac secret payload" "b64urlDecode json_parse payload = Some (JObj kvs)"
    "json_field kvs ''v'' = JNum 1" "json_field kvs ''exp'' = JNum e" "epoch_seconds now < e"
  using assms unfolding verifyCapability_def bad_signature_def
  by (auto split: list.splits if_splits option.splits json.splits)

lemma verify_issued:
  assumes "signToken hmac secret cl ttl at_sign = Inr token"
    and "json_parse (json_stringify (claims_json cl)) = Some (claims_json cl)"
    and mac: "\<forall>secret t. hmac secret t \<noteq> []"
  shows "verifyCapability hmac json_parse secret now token =
    (if sg_exp cl \<le> epoch_seconds now then Inl (StorageFail SE_TOKEN_EXPIRED 401) else Inr (link_entries cl))"
proof -
  let ?p = "b64urlEncode (claims_json cl)"
  have t: "token = ?p @ ''.'' @ b64url (hmac secret ?p)" using assms(1) by (simp add: signToken_Inr)
  have "b64url (hmac secret ?p) \<noteq> []" by (rule b64url_nonempty [OF mac [rule_format]])
  moreover have "split_on (CHR ''.'') token = [?p, b64url (hmac secret ?p)]"
    unfolding t by (rule token_parts)
  moreover have "b64urlDecode json_parse ?p = Some (JObj (link_entries cl))"
    using assms(2) by (simp add: b64url_decodes claims_json_entries)
  ultimately show ?thesis
    using payload_nonempty [of cl] by (simp add: verifyCapability_def claim_fields)
qed

lemma sign_object_Inr:
  assumes "sign_object sv now nonce ca name raw p ttl s = (Inr (token, until), s')"
  obtains bk path where "meta_getBucket (ca_projectId ca) name (ss_meta s) = Some bk" "bucket_ok name" "assertObjectPath raw = Inr path"
    "60 \<le> ttl" "ttl \<le> sv_maxSignedTtlSeconds sv" "until = (epoch_seconds now + ttl) * 1000"
    "signToken (sv_hmac sv) (sv_signingSecret sv) \<lparr>sg_projectId = ca_projectId ca, sg_bucket = bk_name bk,
       sg_path = path, sg_op = p, sg_exp = epoch_seconds now + ttl, sg_nonce = nonce\<rparr>
       (sv_maxSignedTtlSeconds sv) now = Inr token"
    "p = SignDownload \<longrightarrow> meta_getObject (ca_projectId ca) (bk_name bk) path (ss_meta s) \<noteq> None"
proof (cases p)
  case SignDownload
  with assms show thesis
    unfolding sign_object_def Let_def act_Inr
    apply (elim exE conjE)
    apply (frule bucketFor_Inr)
    apply (clarsimp simp: storage_Inr)
    apply (rule that)
          apply (assumption | simp)+
    done
next
  case SignUpload
  with assms show thesis
    unfolding sign_object_def Let_def act_Inr
    apply (elim exE conjE)
    apply (frule bucketFor_Inr)
    apply (clarsimp simp: storage_Inr)
    apply (rule that)
          apply (assumption | simp)+
    done
qed


definition link_claims :: "storage_caller \<Rightarrow> string \<Rightarrow> string \<Rightarrow> signed_op \<Rightarrow> int \<Rightarrow> string \<Rightarrow> signed_claims" where
  "link_claims ca name path p e nonce = \<lparr>sg_projectId = ca_projectId ca, sg_bucket = name, sg_path = path, sg_op = p,
     sg_exp = e, sg_nonce = nonce\<rparr>"

lemma epoch_parts: "epoch_seconds t * 1000 \<le> t \<and> t < epoch_seconds t * 1000 + 1000"
proof -
  have "t = t div 1000 * 1000 + t mod 1000" "0 \<le> t mod 1000" "t mod 1000 < 1000" by simp_all
  then show ?thesis unfolding epoch_seconds_def by linarith
qed

lemma link_lifetime: "60 \<le> ttl \<Longrightarrow> now < (epoch_seconds now + ttl) * 1000 \<and> (epoch_seconds now + ttl) * 1000 \<le> now + ttl * 1000"
  using epoch_parts [of now] by simp

lemma expiry_reached: "e \<le> epoch_seconds t \<longleftrightarrow> e * 1000 \<le> t"
  using epoch_parts [of t] by auto

text \<open>C22. A signed link works for exactly its time and purpose: the token that \<open>sign\<close> issued is accepted by
  \<open>verifySigned\<close> for the project and the operation it was issued for, giving back the bucket and the normalized path,
  until the announced time, from which on it is refused as expired; for any other project or operation it is refused
  as a bad signature.  The announced time lies after the call and at most the requested seconds after it.
  (\<open>JSON.parse\<close> is taken to give claims back from their text, and a MAC to have at least one byte.)\<close>

theorem signed_link_roundtrip:
  assumes "storage_reach sv s" and "0 \<le> sv_quotaBytes sv"
    and issued: "sign_object sv now nonce ca name raw p ttl s = (Inr (token, until), s')"
    and "assertObjectPath raw = Inr path"
    and parse: "sv_json_parse sv (json_stringify (claims_json (link_claims ca name path p (epoch_seconds now + ttl) nonce))) =
      Some (claims_json (link_claims ca name path p (epoch_seconds now + ttl) nonce))"
    and mac: "\<forall>secret t. sv_hmac sv secret t \<noteq> []"
  shows "now < until \<and> until \<le> now + ttl * 1000 \<and>
    verifySigned sv at_time project token q =
      (if until \<le> at_time then Inl (StorageFail SE_TOKEN_EXPIRED 401)
       else if project = ca_projectId ca \<and> q = p then Inr (JStr name, JStr path) else bad_signature)"
proof -
  obtain bk path' where bk: "meta_getBucket (ca_projectId ca) name (ss_meta s) = Some bk" and n: "bucket_ok name"
    and "assertObjectPath raw = Inr path'" and ttl: "60 \<le> ttl" and until: "until = (epoch_seconds now + ttl) * 1000"
    and tok: "signToken (sv_hmac sv) (sv_signingSecret sv) \<lparr>sg_projectId = ca_projectId ca, sg_bucket = bk_name bk,
       sg_path = path', sg_op = p, sg_exp = epoch_seconds now + ttl, sg_nonce = nonce\<rparr>
       (sv_maxSignedTtlSeconds sv) now = Inr token"
    using sign_object_Inr [OF issued] by blast
  have "meta_ok (ss_meta s)" by (rule meta_inv_parts(1) [OF reach_meta_inv [OF assms(1,2)]])
  from getBucket_wf [OF this bk n] have "bk_name bk = name" by simp
  moreover have "path' = path" using \<open>assertObjectPath raw = Inr path'\<close> assms(4) by simp
  ultimately have tok': "signToken (sv_hmac sv) (sv_signingSecret sv) (link_claims ca name path p (epoch_seconds now + ttl) nonce)
       (sv_maxSignedTtlSeconds sv) now = Inr token" using tok by (simp add: link_claims_def)
  have "verifyCapability (sv_hmac sv) (sv_json_parse sv) (sv_signingSecret sv) at_time token =
    (if until \<le> at_time then Inl (StorageFail SE_TOKEN_EXPIRED 401)
     else Inr (link_entries (link_claims ca name path p (epoch_seconds now + ttl) nonce)))"
    using verify_issued [where json_parse = "sv_json_parse sv" and now = at_time, OF tok' parse mac] until expiry_reached
    by (simp add: link_claims_def)
  then show ?thesis
    using link_lifetime [OF ttl, of now] until by (simp add: verifySigned_def claim_fields) (simp add: link_claims_def)
qed

section \<open>Forged links\<close>

text \<open>Tampering gains nothing: whatever token \<open>verifySigned\<close> accepts carries a payload with the MAC of that payload
  under the signing secret, the project and the operation the caller asked for, and an expiry that has not passed; and
  when its MAC is that of a token issued for some claims (and the MACs of different texts differ), it gives what those
  claims say: their bucket and path, for their project and operation, before their expiry.\<close>

theorem tampering_gains_nothing:
  assumes "verifySigned sv now project token p = Inr (b, path)"
  shows "\<exists>payload mac rest. split_on (CHR ''.'') token = payload # mac # rest \<and>
     from_base64url mac = sv_hmac sv (sv_signingSecret sv) payload \<and>
     (\<exists>kvs e. b64urlDecode (sv_json_parse sv) payload = Some (JObj kvs) \<and> json_field kvs ''projectId'' = JStr project \<and>
        json_field kvs ''op'' = JStr (signed_op_text p) \<and> json_field kvs ''exp'' = JNum e \<and> now < e * 1000) \<and>
     (\<forall>cl. from_base64url mac = sv_hmac sv (sv_signingSecret sv) (b64urlEncode (claims_json cl)) \<longrightarrow>
        inj (sv_hmac sv (sv_signingSecret sv)) \<longrightarrow>
        sv_json_parse sv (json_stringify (claims_json cl)) = Some (claims_json cl) \<longrightarrow>
        project = sg_projectId cl \<and> p = sg_op cl \<and> b = JStr (sg_bucket cl) \<and> path = JStr (sg_path cl) \<and>
        now < sg_exp cl * 1000)"
proof -
  obtain kvs where v: "verifyCapability (sv_hmac sv) (sv_json_parse sv) (sv_signingSecret sv) now token = Inr kvs"
    and k: "json_field kvs ''projectId'' = JStr project" "json_field kvs ''op'' = JStr (signed_op_text p)"
      "b = json_field kvs ''bucket''" "path = json_field kvs ''path''"
    using assms by (auto simp: verifySigned_def and_then_Inr bad_signature_def split: if_splits)
  from v obtain payload mac rest e where t: "split_on (CHR ''.'') token = payload # mac # rest"
    and m: "from_base64url mac = sv_hmac sv (sv_signingSecret sv) payload"
    and d: "b64urlDecode (sv_json_parse sv) payload = Some (JObj kvs)"
    and e: "json_field kvs ''exp'' = JNum e" "epoch_seconds now < e"
    by (rule verifyCapability_Inr)
  have late: "now < e * 1000" using e(2) expiry_reached [of e now] by simp
  have "project = sg_projectId cl \<and> p = sg_op cl \<and> b = JStr (sg_bucket cl) \<and> path = JStr (sg_path cl) \<and> now < sg_exp cl * 1000"
    if "from_base64url mac = sv_hmac sv (sv_signingSecret sv) (b64urlEncode (claims_json cl))"
      "inj (sv_hmac sv (sv_signingSecret sv))" "sv_json_parse sv (json_stringify (claims_json cl)) = Some (claims_json cl)" for cl
  proof -
    have "payload = b64urlEncode (claims_json cl)" using that(1,2) m by (auto dest: injD)
    then have "kvs = link_entries cl" using d that(3) by (simp add: b64url_decodes claims_json_entries)
    then show ?thesis using k e(1) late by (simp add: claim_fields)
  qed
  then show ?thesis using t m d k(1,2) e(1) late by blast
qed

section \<open>Transforms\<close>

lemma intParam_error: "intParam raw m = Inl e \<Longrightarrow> e = StorageFail SE_VALIDATION_ERROR 400"
  by (auto simp: intParam_def transform_error_def split: option.splits if_splits)

lemma parse_format_error: "parse_format raw = Inl e \<Longrightarrow> e = StorageFail SE_VALIDATION_ERROR 400"
  by (auto simp: parse_format_def transform_error_def Let_def split: option.splits if_splits)

lemma parse_fit_error: "parse_fit raw = Inl e \<Longrightarrow> e = StorageFail SE_VALIDATION_ERROR 400"
  by (auto simp: parse_fit_def transform_error_def Let_def split: option.splits if_splits)

lemma parse_quality_error: "parse_quality raw = Inl e \<Longrightarrow> e = StorageFail SE_VALIDATION_ERROR 400"
  by (auto simp: parse_quality_def dest: intParam_error split: if_splits)

lemmas transform_errors = intParam_error parse_format_error parse_fit_error parse_quality_error

lemma intParam_none: "intParam raw m = Inr None \<Longrightarrow> \<not> given raw"
  by (auto simp: intParam_def given_def transform_error_def split: option.splits if_splits)

text \<open>An image transform is bounded before any work is done: whatever the query, a transform that is parsed asks for
  edges from 1 to 4000, for at most eight million pixels when it names both edges, for a quality from 1 to 100 and for
  one of the five fits; a query without any transform parameter is no transform.\<close>

lemma transform_is_bounded:
  "(case parseTransform params of
      Inr (Some spec) \<Rightarrow> transform_wf spec
    | Inr None \<Rightarrow> \<not> given (params ''width'') \<and> \<not> given (params ''height'') \<and> \<not> given (params ''format'') \<and>
        \<not> given (params ''quality'') \<and> \<not> given (params ''fit'') \<and> \<not> given (params ''metadata'')
    | Inl e \<Rightarrow> e = StorageFail SE_VALIDATION_ERROR 400)"
proof (cases "parseTransform params")
  case (Inl e)
  then show ?thesis
    by (auto simp: parseTransform_def and_then_def transform_error_def Let_def dest: transform_errors
        split: sum.splits if_splits)
next
  case (Inr v)
  show ?thesis
  proof (cases v)
    case None
    then show ?thesis using Inr
      by (auto simp: parseTransform_def and_then_def transform_error_def Let_def dest: intParam_none
          split: sum.splits if_splits)
  next
    case (Some spec) then show ?thesis using Inr by (simp add: parseTransform_wf)
  qed
qed

lemma split_on_colon: "split_on c (a @ c # b) = split_on c a @ split_on c b"
  by (induction a) (auto split: list.splits)

lemma split_on_join_tail:
  "list_all (\<lambda>w. c \<notin> set w) ws \<Longrightarrow> ws \<noteq> [] \<Longrightarrow> split_on c (join [c] (a # ws)) = split_on c a @ ws"
proof (induction ws arbitrary: a)
  case (Cons w ws)
  show ?case
  proof (cases ws)
    case Nil with Cons.prems show ?thesis by (simp add: split_on_colon split_on_no_sep)
  next
    case (Cons v vs)
    with Cons.prems Cons.IH [of w] show ?thesis by (simp add: split_on_colon split_on_no_sep)
  qed
qed simp

lemma join_tail_inj:
  assumes "list_all (\<lambda>w. c \<notin> set w) ws" "list_all (\<lambda>w. c \<notin> set w) vs" "length ws = length vs" "ws \<noteq> []"
    and "join [c] (a # ws) = join [c] (b # vs)"
  shows "a = b \<and> ws = vs"
proof -
  have "vs \<noteq> []" using assms(3,4) by auto
  then have "split_on c a @ ws = split_on c b @ vs"
    using split_on_join_tail [OF assms(1,4), of a] split_on_join_tail [OF assms(2), of b] assms(5) by simp
  then have "split_on c a = split_on c b" "ws = vs" using assms(3) by simp_all
  moreover from this have "a = b" by (subst (1 2) join_split [symmetric, of _ c]) simp
  ultimately show ?thesis by simp
qed

definition cache_fields :: "transform_spec \<Rightarrow> string list" where
  "cache_fields spec = [dash_or (map_option dec_int (tf_width spec)), dash_or (map_option dec_int (tf_height spec)), tf_fit spec,
      dash_or (tf_format spec), dec_int (tf_quality spec), (if tf_keepMetadata spec then ''meta'' else ''nometa'')]"

lemma cache_fields_plain: "transform_wf spec \<Longrightarrow> list_all (\<lambda>w. CHR '':'' \<notin> set w) (cache_fields spec)"
  using format_known_no_colon
  by (auto simp: cache_fields_def transform_wf_def FITS_def dash_or_no_colon dec_no_colon dash_or_def split: option.splits)

lemma dash_or_inj:
  "\<forall>f. v = Some f \<longrightarrow> format_known f \<Longrightarrow> \<forall>f. w = Some f \<longrightarrow> format_known f \<Longrightarrow> dash_or v = dash_or w \<Longrightarrow> v = w"
  by (cases v; cases w) (auto simp: dash_or_def dest: format_known_no_colon)

lemma cache_fields_inj:
  assumes "transform_wf x" "transform_wf y" "cache_fields x = cache_fields y"
  shows "x = y"
proof -
  have "tf_width x = tf_width y"
    by (rule dash_or_dec_inj) (use assms in \<open>fastforce simp: transform_wf_def cache_fields_def\<close>)+
  moreover have "tf_height x = tf_height y"
    by (rule dash_or_dec_inj) (use assms in \<open>fastforce simp: transform_wf_def cache_fields_def\<close>)+
  moreover have "tf_quality x = tf_quality y"
    by (rule dec_int_inj) (use assms in \<open>simp_all add: transform_wf_def cache_fields_def\<close>)
  moreover have "tf_format x = tf_format y"
    by (rule dash_or_inj) (use assms in \<open>simp_all add: transform_wf_def cache_fields_def\<close>)
  ultimately show ?thesis using assms(3) by (simp add: cache_fields_def split: if_splits)
qed

text \<open>The transform cache never mixes up two images: for parsed transforms, two cache keys are equal exactly when
  the etag of the source and the whole transform are equal, whatever characters the etags hold.\<close>

theorem transform_cache_identity:
  assumes "parseTransform params = Inr (Some spec)" and "parseTransform params' = Inr (Some spec')"
  shows "transformCacheKey etag spec = transformCacheKey etag' spec' \<longleftrightarrow> etag = etag' \<and> spec = spec'"
proof -
  have k: "transformCacheKey tag sp = join '':'' (tag # cache_fields sp)" for tag sp
    by (simp add: transformCacheKey_def cache_fields_def)
  have wf: "transform_wf spec" "transform_wf spec'" using assms by (simp_all add: parseTransform_wf)
  have "length (cache_fields spec) = length (cache_fields spec')" "cache_fields spec \<noteq> []"
    by (simp_all add: cache_fields_def)
  then have "transformCacheKey etag spec = transformCacheKey etag' spec' \<longrightarrow> etag = etag' \<and> cache_fields spec = cache_fields spec'"
    unfolding k using join_tail_inj [OF cache_fields_plain [OF wf(1)] cache_fields_plain [OF wf(2)], of etag etag'] by blast
  then show ?thesis using cache_fields_inj [OF wf] by (auto simp: k)
qed

section \<open>Instances\<close>

text \<open>A service whose MAC is its text (of any length, so different texts have different MACs).\<close>

definition link_storage :: storage_service where
  "link_storage = sample_storage\<lparr>sv_hmac := (\<lambda>secret t. 0 # ascii_bytes t),
     sv_json_parse := (\<lambda>t. if t = json_stringify (claims_json (link_claims sample_admin ''files'' ''docs/a.txt'' SignDownload 63 ''n1''))
       then Some (claims_json (link_claims sample_admin ''files'' ''docs/a.txt'' SignDownload 63 ''n1'')) else None)\<rparr>"

definition sample_link :: "string \<times> instant" where
  "sample_link = (case sign_object link_storage 3000 ''n1'' sample_admin ''files'' ''docs/a.txt'' SignDownload 60 sample_state of
     (Inr r, _) \<Rightarrow> r | _ \<Rightarrow> ('''', 0))"

lemma ex_Inr_case: "(\<exists>r. x = Inr r) \<longleftrightarrow> (case x of Inr _ \<Rightarrow> True | Inl _ \<Rightarrow> False)"
  by (cases x) simp_all

lemma sample_link_issued:
  "sign_object link_storage 3000 ''n1'' sample_admin ''files'' ''docs/a.txt'' SignDownload 60 sample_state =
    (Inr (fst sample_link, snd sample_link), snd (sign_object link_storage 3000 ''n1'' sample_admin ''files'' ''docs/a.txt'' SignDownload 60 sample_state))"
proof -
  have "\<exists>r. fst (sign_object link_storage 3000 ''n1'' sample_admin ''files'' ''docs/a.txt'' SignDownload 60 sample_state) = Inr r"
    by (subst ex_Inr_case) code_simp
  then show ?thesis
    unfolding sample_link_def
    by (cases "sign_object link_storage 3000 ''n1'' sample_admin ''files'' ''docs/a.txt'' SignDownload 60 sample_state") auto
qed

lemma link_reached: "storage_reach link_storage sample_state"
proof (rule serve_all_reach [OF storage_reach.start])
  show "list_all (\<lambda>(_, _, req). scope_ok (request_project req)) sample_requests" by code_simp
  show "serve_all link_storage sample_requests empty_storage = Some sample_state" by code_simp
qed

theorem signed_link_roundtrip_witness:
  "verifySigned link_storage 62999 sample_project (fst sample_link) SignDownload = Inr (JStr ''files'', JStr ''docs/a.txt'') \<and>
   verifySigned link_storage 63000 sample_project (fst sample_link) SignDownload = Inl (StorageFail SE_TOKEN_EXPIRED 401) \<and>
   verifySigned link_storage 3000 sample_project (fst sample_link) SignUpload = bad_signature"
proof -
  have "0 \<le> sv_quotaBytes link_storage" "\<forall>secret t. sv_hmac link_storage secret t \<noteq> []"
    by (simp_all add: link_storage_def sample_storage_def)
  moreover have "sv_json_parse link_storage (json_stringify (claims_json (link_claims sample_admin ''files'' ''docs/a.txt''
        SignDownload (epoch_seconds 3000 + 60) ''n1''))) =
      Some (claims_json (link_claims sample_admin ''files'' ''docs/a.txt'' SignDownload (epoch_seconds 3000 + 60) ''n1''))"
    by (simp add: link_storage_def epoch_seconds_def)
  moreover have "assertObjectPath ''docs/a.txt'' = Inr ''docs/a.txt''" by code_simp
  moreover have "snd sample_link = 63000" by code_simp
  moreover have "sample_project = ca_projectId sample_admin" by (simp add: sample_admin_def)
  ultimately show ?thesis
    using signed_link_roundtrip [OF link_reached _ sample_link_issued, of "''docs/a.txt''"] by simp
qed

theorem tampering_gains_nothing_witness:
  "\<exists>payload mac rest. split_on (CHR ''.'') (fst sample_link) = payload # mac # rest \<and>
     from_base64url mac = 0 # ascii_bytes payload"
proof -
  have "verifySigned link_storage 3000 sample_project (fst sample_link) SignDownload = Inr (JStr ''files'', JStr ''docs/a.txt'')"
    by code_simp
  from tampering_gains_nothing [OF this] show ?thesis by (auto simp: link_storage_def)
qed

definition sample_query :: "string \<Rightarrow> string option" where
  "sample_query k = map_of [(''width'', ''200''), (''format'', '' JPG'')] k"

theorem transform_cache_identity_witness:
  "\<exists>spec. parseTransform sample_query = Inr (Some spec) \<and> tf_format spec = Some ''jpeg'' \<and>
     (transformCacheKey ''a:b'' spec = transformCacheKey ''a'' spec \<longleftrightarrow> ''a:b'' = ''a'')"
proof -
  have "parseTransform sample_query = Inr (Some \<lparr>tf_width = Some 200, tf_height = None, tf_fit = ''cover'',
    tf_format = Some ''jpeg'', tf_quality = 80, tf_keepMetadata = False\<rparr>)" by code_simp
  from transform_cache_identity [OF this this] this show ?thesis by auto
qed

end
