(* ===== verification/StorageLimits.thy ===== *)
theory StorageLimits
  imports StorageSafety
begin

text \<open>
  Where the storage service falls short of what it sets out to do: runs of the model that show it.  None contradicts a
  property proved elsewhere; each marks a boundary of one.
\<close>

section \<open>Runs\<close>

definition sample_viewer :: storage_caller where
  "sample_viewer = sample_admin\<lparr>ca_userId := Some ''u2'', ca_role := ''viewer''\<rparr>"

definition sample_user :: "string \<Rightarrow> storage_caller" where
  "sample_user u = sample_admin\<lparr>ca_kind := CustomerCaller, ca_userId := Some u, ca_role := ''authenticated''\<rparr>"

definition file_at :: "string \<Rightarrow> storage_state \<Rightarrow> byte list option" where
  "file_at path s = (case storageKeyFor sample_project ''files'' path of
     Inr k \<Rightarrow> (case assertProviderKey k of Inr f \<Rightarrow> js_get (dk_files (ss_disk s)) f | Inl _ \<Rightarrow> None) | Inl _ \<Rightarrow> None)"

definition size_at :: "string \<Rightarrow> storage_state \<Rightarrow> int option" where
  "size_at path s = map_option ob_size (meta_getObject sample_project ''files'' path (ss_meta s))"

section \<open>Quota\<close>

text \<open>An overwrite that is refused for the quota has already replaced the object's bytes, and then deletes them; the record
  of the object stays.\<close>

lemma refused_overwrite_loses_bytes:
  "(case upload sample_storage 5000 ''f2'' sample_admin ''files'' ''docs/a.txt'' (sample_upload 20) sample_state of
     (r, t) \<Rightarrow> case_sum (\<lambda>e. e = StorageFail SE_QUOTA_EXCEEDED 403) (\<lambda>_. False) r \<and>
       file_at ''docs/a.txt'' sample_state = Some (replicate 4 65) \<and> file_at ''docs/a.txt'' t = None \<and>
       size_at ''docs/a.txt'' t = Some 4)"
  by code_simp

text \<open>Two uploads that both plan before either stores pass the quota together.\<close>

definition interleaved :: "storage_state \<Rightarrow> storage_state" where
  "interleaved s =
     (case meta_getBucket sample_project ''files'' (ss_meta s) of None \<Rightarrow> s
      | Some bk \<Rightarrow> (case plan_upload sample_storage sample_project bk ''x.txt'' (sample_upload 6) s of
          (Inr pl, s1) \<Rightarrow> (case plan_upload sample_storage sample_project bk ''y.txt'' (sample_upload 6) s1 of
              (Inr pl', s2) \<Rightarrow>
                (let s3 = snd (store_upload sample_storage 6000 ''f3'' sample_project ''o1'' (up_source (sample_upload 6)) pl s2)
                 in snd (store_upload sample_storage 6000 ''f4'' sample_project ''o1'' (up_source (sample_upload 6)) pl' s3))
            | _ \<Rightarrow> s)
        | _ \<Rightarrow> s))"

lemma concurrent_uploads_exceed_quota:
  "uc_bytes (fst (meta_usage sample_project (ss_meta (interleaved sample_state)))) = 16 \<and> sv_quotaBytes sample_storage = 10"
  by code_simp

section \<open>Policies\<close>

text \<open>A viewer cannot upload, but may sign a link that uploads.\<close>

lemma viewer_signs_uploads:
  "(case (sign_object sample_storage 3000 ''n1'' sample_viewer ''files'' ''docs/a.txt'' SignUpload 60 sample_state,
          upload sample_storage 3000 ''f2'' sample_viewer ''files'' ''docs/a.txt'' (sample_upload 1) sample_state) of
     ((Inr _, _), (Inl e, _)) \<Rightarrow> e = StorageFail SE_FORBIDDEN 403 | _ \<Rightarrow> False)"
  by code_simp

text \<open>Without owner isolation a customer passes every check, bucket management included.\<close>

definition open_bucket :: storage_state where
  "open_bucket = snd (updateBucket 2500 sample_admin ''files''
     \<lparr>bp_visibility = None, bp_fileSizeLimit = None, bp_allowedMimeTypes = None, bp_ownerIsolation = Some False\<rparr> sample_state)"

lemma customer_manages_open_bucket:
  "(case meta_getBucket sample_project ''files'' (ss_meta open_bucket) of None \<Rightarrow> False
    | Some bk \<Rightarrow> authorize bk (sample_user ''u7'') BucketUpdate None \<and> authorize bk (sample_user ''u7'') BucketDelete None)"
  by code_simp

text \<open>Aborting an upload session asks no policy: a viewer aborts the administrator's.\<close>

definition with_session :: storage_state where
  "with_session = snd (createUploadSession sample_storage 3000 ''s1'' sample_admin
     \<lparr>si_bucket = ''files'', si_path = ''big.bin'', si_contentType = None, si_totalBytes = None, si_upsert = False\<rparr> sample_state)"

lemma viewer_aborts_sessions:
  "(case abortUploadSession sample_viewer ''s1'' with_session of
     (r, t) \<Rightarrow> case_sum (\<lambda>_. False) (\<lambda>_. True) r \<and>
       map_option ul_status (meta_getUploadSession sample_project ''s1'' (ss_meta with_session)) = Some UploadActive \<and>
       map_option ul_status (meta_getUploadSession sample_project ''s1'' (ss_meta t)) \<noteq> Some UploadActive)"
  by code_simp

text \<open>Looking up an upload session asks no policy either: a customer reads where the administrator uploads to.\<close>

lemma customer_reads_sessions:
  "(case getUploadSession 3000 (sample_user ''u7'') ''s1'' with_session of
     (r, _) \<Rightarrow> case_sum (\<lambda>_. False) (\<lambda>ul. ul_path ul = ''big.bin'') r)"
  by code_simp

text \<open>Asked for the bare identifier, a listing shows the folder of a user whose identifier is longer.\<close>

definition longer_name :: storage_state where
  "longer_name = snd (upload sample_storage 3000 ''f2'' sample_admin ''files'' ''u12/secret.txt'' (sample_upload 1) sample_state)"

lemma listing_shows_longer_names:
  "(case list_objects (sample_user ''u1'') ''files'' ''u1'' 10 0 longer_name of
     (r, _) \<Rightarrow> case_sum (\<lambda>_. False) (\<lambda>(obs, _). map eo_path obs = [''u12/secret.txt'']) r)"
  by code_simp

section \<open>Content types\<close>

text \<open>A filter with a star is accepted, and then matches only a type that begins with the literal star.\<close>

lemma wildcard_filter_rejects_images:
  "mime_filter_ok ''image/*'' \<and> mime_allowed [''image/*''] (MimeText ''image/png'') = Inl (StorageFail SE_MIME_NOT_ALLOWED 400)"
  by code_simp

text \<open>The table of extensions and that of formats are object literals: names they inherit are found in them.\<close>

lemma inherited_extension:
  "(case resolveMime None ''a.constructor'' [] of Inr r \<Rightarrow> mr_mime r = MimeInherited ''constructor'' | Inl _ \<Rightarrow> False)"
  by code_simp

lemma inherited_format:
  "map_option (map_option tf_format) (case parseTransform (\<lambda>k. if k = ''format'' then Some ''constructor'' else None) of
     Inr v \<Rightarrow> Some v | Inl _ \<Rightarrow> None) = Some (Some (Some ''constructor''))"
  by code_simp

section \<open>Parts of resumable uploads\<close>

text \<open>The place of a part is also the place of an ordinary object.\<close>

lemma part_key_is_an_object_key:
  "storageKeyFor sample_project ''files'' ''upload-s1/0.part'' = Inr (uploadPartKey sample_project ''files'' ''s1'' 0)"
  by code_simp

end
