(* ===== verification/DataCsv.thy ===== *)
theory DataCsv
  imports Json
begin

text \<open>
  CSV import and export of a table (\<open>packages/api-engine/src/csv.ts\<close>).  Texts are ASCII, so the byte order mark that
  \<open>parseCsv\<close> strips does not occur.  A row is the list of its entries; the entry of a header named \<open>__proto__\<close> is lost,
  because assigning a string to that name of an object has no effect.
\<close>

section \<open>Errors and limits\<close>

datatype csv_code = CSV_MALFORMED | CSV_TOO_LARGE | CSV_INVALID

datatype csv_error = CsvFail csv_code nat

type_synonym 'a csv_result = "csv_error + 'a"

definition CSV_MAX_BYTES :: int where "CSV_MAX_BYTES = 1000000"
definition CSV_MAX_ROWS :: int where "CSV_MAX_ROWS = 1024"
definition CSV_MAX_COLUMNS :: int where "CSV_MAX_COLUMNS = 100"
definition CSV_MAX_CELL_CHARS :: int where "CSV_MAX_CELL_CHARS = 100000"

record parsed_csv =
  pc_headers :: "string list"
  pc_rows :: "(string, string) jsmap list"

definition invalid_csv :: "'a csv_result" where
  "invalid_csv = Inl (CsvFail CSV_INVALID 400)"

definition dquote :: char where "dquote = CHR 0x22"
definition cr :: char where "cr = CHR 0x0D"
definition lf :: char where "lf = CHR 0x0A"

section \<open>Parsing\<close>

text \<open>The loop of \<open>parseRecords\<close>: inside quotes, the field, row and records so far, the text that is left.\<close>

function (sequential) csv_scan :: "bool \<Rightarrow> string \<Rightarrow> string list \<Rightarrow> string list list \<Rightarrow> string \<Rightarrow>
    bool \<times> string \<times> string list \<times> string list list" where
  "csv_scan inQuotes field row records [] = (inQuotes, field, row, records)"
| "csv_scan True field row records (c # t) =
     (if c = dquote then
        (if t \<noteq> [] \<and> hd t = dquote then csv_scan True (field @ [dquote]) row records (tl t)
         else csv_scan False field row records t)
      else csv_scan True (field @ [c]) row records t)"
| "csv_scan False field row records (c # t) =
     (if c = dquote then csv_scan True field row records t
      else if c = CHR '','' then csv_scan False [] (row @ [field]) records t
      else if c = cr \<and> t \<noteq> [] \<and> hd t = lf then csv_scan False [] [] (records @ [row @ [field]]) (tl t)
      else if c = lf then csv_scan False [] [] (records @ [row @ [field]]) t
      else csv_scan False (field @ [c]) row records t)"
  by pat_completeness auto
termination
  by (relation "measure (\<lambda>(_, _, _, _, t). length t)") auto

definition parseRecords :: "string \<Rightarrow> string list list csv_result" where
  "parseRecords text =
     (case csv_scan False [] [] [] text of (inQuotes, field, row, records) \<Rightarrow>
        if inQuotes then Inl (CsvFail CSV_MALFORMED 400)
        else let all_records = (if field \<noteq> [] \<or> row \<noteq> [] then records @ [row @ [field]] else records) in
          Inr (filter (\<lambda>r. r \<noteq> [[]]) all_records))"

text \<open>The entries of one row, left to right; the first cell over the limit ends it.\<close>

fun csv_cells :: "string list \<Rightarrow> string list \<Rightarrow> (string, string) jsmap \<Rightarrow> (string, string) jsmap csv_result" where
  "csv_cells (h # hs) (cell # cells) out =
     (if int (length cell) > CSV_MAX_CELL_CHARS then invalid_csv
      else csv_cells hs cells (if h = ''__proto__'' then out else js_set h cell out))"
| "csv_cells _ _ out = Inr out"

definition csv_row :: "string list \<Rightarrow> string list \<Rightarrow> (string, string) jsmap csv_result" where
  "csv_row headers cells =
     (if length cells \<noteq> length headers then invalid_csv else csv_cells headers cells [])"

definition parseCsv :: "string \<Rightarrow> parsed_csv csv_result" where
  "parseCsv text =
     (if int (length text) > CSV_MAX_BYTES then Inl (CsvFail CSV_TOO_LARGE 413)
      else and_then (parseRecords text) (\<lambda>records.
        case records of [] \<Rightarrow> invalid_csv
        | first # body \<Rightarrow>
            let headers = map js_trim first in
            if headers = [] \<or> list_ex (\<lambda>h. h = []) headers then invalid_csv
            else if int (length headers) > CSV_MAX_COLUMNS then invalid_csv
            else if \<not> distinct headers then invalid_csv
            else if int (length body) > CSV_MAX_ROWS then invalid_csv
            else and_then (each (csv_row headers) body) (\<lambda>rows. Inr \<lparr>pc_headers = headers, pc_rows = rows\<rparr>)))"

section \<open>Printing\<close>

definition cell_text :: "json \<Rightarrow> string" where
  "cell_text v = (if v = JNull \<or> v = JUndefined then '''' else js_String v)"

definition needs_quotes :: "string \<Rightarrow> bool" where
  "needs_quotes s \<longleftrightarrow> dquote \<in> set s \<or> CHR '','' \<in> set s \<or> cr \<in> set s \<or> lf \<in> set s"

definition double_quotes :: "string \<Rightarrow> string" where
  "double_quotes s = concat (map (\<lambda>c. if c = dquote then [dquote, dquote] else [c]) s)"

definition quote_cell :: "string \<Rightarrow> string" where
  "quote_cell s = (if needs_quotes s then [dquote] @ double_quotes s @ [dquote] else s)"

definition escapeCell :: "json \<Rightarrow> string" where
  "escapeCell v = quote_cell (cell_text v)"

definition serializeCsv :: "string list \<Rightarrow> (string \<times> json) list list \<Rightarrow> string" where
  "serializeCsv headers rows =
     join [cr, lf] (join '','' (map quote_cell headers) #
       map (\<lambda>row. join '','' (map (\<lambda>h. escapeCell (json_field row h)) headers)) rows) @ [cr, lf]"

section \<open>Scanning what was printed\<close>

lemma scan_plain:
  "\<not> needs_quotes s \<Longrightarrow> csv_scan False f row rs (s @ t) = csv_scan False (f @ s) row rs t"
  by (induction s arbitrary: f) (auto simp: needs_quotes_def)

lemma scan_doubled:
  "t \<noteq> [] \<Longrightarrow> hd t \<noteq> dquote \<Longrightarrow> csv_scan True f row rs (double_quotes s @ dquote # t) = csv_scan False (f @ s) row rs t"
  by (induction s arbitrary: f) (auto simp: double_quotes_def)

lemma scan_cell:
  "t \<noteq> [] \<Longrightarrow> hd t \<noteq> dquote \<Longrightarrow> csv_scan False [] row rs (quote_cell s @ t) = csv_scan False s row rs t"
  using scan_plain [of s "[]" row rs t] scan_doubled [of t "[]" row rs s] by (simp add: quote_cell_def)

lemma ends_apart [simp]: "cr \<noteq> dquote" "lf \<noteq> dquote" "cr \<noteq> CHR '',''" "lf \<noteq> CHR '',''" "cr \<noteq> lf" "CHR '','' \<noteq> dquote"
  by (simp_all add: cr_def lf_def dquote_def)

lemma scan_line:
  "cells \<noteq> [] \<Longrightarrow> csv_scan False [] row rs (join '','' (map quote_cell cells) @ cr # lf # t) =
     csv_scan False [] [] (rs @ [row @ cells]) t"
proof (induction cells arbitrary: row)
  case (Cons c cells)
  show ?case
  proof (cases cells)
    case Nil
    then show ?thesis using scan_cell [of "cr # lf # t" row rs c] by simp
  next
    case (Cons d ds)
    then have "csv_scan False [] row rs (join '','' (map quote_cell (c # cells)) @ cr # lf # t) =
        csv_scan False [] (row @ [c]) rs (join '','' (map quote_cell cells) @ cr # lf # t)"
      using scan_cell [of "CHR '','' # join '','' (map quote_cell cells) @ cr # lf # t" row rs c] by simp
    then show ?thesis using Cons.IH Cons by simp
  qed
qed simp

definition csv_lines :: "string list list \<Rightarrow> string" where
  "csv_lines rows = concat (map (\<lambda>cells. join '','' (map quote_cell cells) @ [cr, lf]) rows)"

lemma scan_lines:
  "list_all (\<lambda>cells. cells \<noteq> []) rows \<Longrightarrow> csv_scan False [] [] rs (csv_lines rows) = (False, [], [], rs @ rows)"
proof (induction rows arbitrary: rs)
  case (Cons cells rows)
  then show ?case using scan_line [of cells "[]" rs "csv_lines rows"] by (simp add: csv_lines_def)
qed (simp add: csv_lines_def)

lemma join_lines: "ws \<noteq> [] \<Longrightarrow> join [cr, lf] ws @ [cr, lf] = concat (map (\<lambda>w. w @ [cr, lf]) ws)"
proof (induction ws)
  case (Cons w ws)
  then show ?case by (cases ws) (simp_all add: join_Cons)
qed simp

lemma serialize_lines:
  "serializeCsv headers rows = csv_lines (headers # map (\<lambda>row. map (\<lambda>h. cell_text (json_field row h)) headers) rows)"
  by (simp add: serializeCsv_def csv_lines_def join_lines escapeCell_def comp_def del: join.simps)

lemma csv_cells_zip:
  "length cells = length hs \<Longrightarrow> distinct hs \<Longrightarrow> ''__proto__'' \<notin> set hs \<Longrightarrow> set hs \<inter> fst ` set out = {} \<Longrightarrow>
   list_all (\<lambda>c. int (length c) \<le> CSV_MAX_CELL_CHARS) cells \<Longrightarrow> csv_cells hs cells out = Inr (out @ zip hs cells)"
proof (induction hs cells out rule: csv_cells.induct)
  case (1 h hs cell cells out)
  then have "js_set h cell out = out @ [(h, cell)]" by (simp add: js_set_new map_of_eq_None_iff)
  with 1 show ?case by auto
qed simp_all

section \<open>Round trip\<close>

text \<open>A header is kept by the trip: it has no white space around it, is not empty and is not \<open>__proto__\<close>.\<close>

definition plain_headers :: "string list \<Rightarrow> bool" where
  "plain_headers headers \<longleftrightarrow> headers \<noteq> [] \<and> int (length headers) \<le> CSV_MAX_COLUMNS \<and> distinct headers \<and>
     list_all (\<lambda>h. h \<noteq> [] \<and> js_trim h = h \<and> h \<noteq> ''__proto__'') headers"

definition printed_rows :: "string list \<Rightarrow> (string \<times> json) list list \<Rightarrow> string list list" where
  "printed_rows headers rows = map (\<lambda>row. map (\<lambda>h. cell_text (json_field row h)) headers) rows"

lemma each_all: "list_all (\<lambda>x. f x = Inr (g x)) xs \<Longrightarrow> each f xs = Inr (map g xs)"
  by (induction xs) simp_all

text \<open>C33. An export imports again: when a table is printed as CSV within the limits of the parser and read back, the headers
  and, for every row, the printed text of each column are what the table had, whatever quotes, commas and line ends the
  cells hold; in a table of one column no cell may be empty.\<close>

theorem csv_roundtrip:
  assumes "plain_headers headers" and "int (length rows) \<le> CSV_MAX_ROWS"
    and "list_all (list_all (\<lambda>c. int (length c) \<le> CSV_MAX_CELL_CHARS)) (printed_rows headers rows)"
    and "length headers = 1 \<Longrightarrow> [[]] \<notin> set (printed_rows headers rows)"
    and "int (length (serializeCsv headers rows)) \<le> CSV_MAX_BYTES"
  shows "parseCsv (serializeCsv headers rows) =
    Inr \<lparr>pc_headers = headers, pc_rows = map (\<lambda>row. map (\<lambda>h. (h, cell_text (json_field row h))) headers) rows\<rparr>"
proof -
  let ?rows = "printed_rows headers rows"
  have h: "headers \<noteq> []" "distinct headers" "list_all (\<lambda>h. h \<noteq> [] \<and> js_trim h = h \<and> h \<noteq> ''__proto__'') headers"
    "int (length headers) \<le> CSV_MAX_COLUMNS"
    using assms(1) by (simp_all add: plain_headers_def)
  have "list_all (\<lambda>cells. cells \<noteq> []) (headers # ?rows)"
    using h(1) by (auto simp: printed_rows_def list_all_iff)
  from scan_lines [OF this] have scan: "csv_scan False [] [] [] (serializeCsv headers rows) = (False, [], [], headers # ?rows)"
    by (simp add: serialize_lines printed_rows_def)
  have "r \<noteq> [[]]" if "r \<in> set (headers # ?rows)" for r
  proof
    assume "r = [[]]"
    with that have "headers = [[]] \<or> [[]] \<in> set ?rows" by auto
    moreover have "headers \<noteq> [[]]" using h(3) by auto
    moreover have "length headers = 1" if "[[]] \<in> set ?rows"
    proof -
      have "[[]] \<in> (\<lambda>row. map (\<lambda>h. cell_text (json_field row h)) headers) ` set rows"
        using that by (simp only: printed_rows_def set_map)
      then obtain row where "[[]] = map (\<lambda>h. cell_text (json_field row h)) headers" by (rule imageE)
      from arg_cong [OF this, of length] show ?thesis by simp
    qed
    ultimately show False using assms(4) by blast
  qed
  then have "filter (\<lambda>r. r \<noteq> [[]]) (headers # ?rows) = headers # ?rows" by (simp only: filter_id_conv) blast
  then have parsed: "parseRecords (serializeCsv headers rows) = Inr (headers # ?rows)"
    by (simp add: parseRecords_def scan)
  have "csv_row headers cells = Inr (zip headers cells)" if "cells \<in> set ?rows" for cells
  proof -
    have "length cells = length headers" using that by (auto simp: printed_rows_def)
    moreover have "list_all (\<lambda>c. int (length c) \<le> CSV_MAX_CELL_CHARS) cells" using that assms(3) by (simp add: list_all_iff)
    ultimately show ?thesis
      using h csv_cells_zip [of cells headers "[]"] by (auto simp: csv_row_def list_all_iff)
  qed
  then have "each (csv_row headers) ?rows = Inr (map (zip headers) ?rows)"
    by (intro each_all) (simp add: list_all_iff)
  moreover have "map (zip headers) ?rows = map (\<lambda>row. map (\<lambda>h. (h, cell_text (json_field row h))) headers) rows"
    by (simp add: printed_rows_def zip_map2 zip_same_conv_map)
  moreover have "map js_trim headers = headers" using h(3) by (simp add: list_all_iff map_idI)
  moreover have "\<not> list_ex (\<lambda>h. h = []) headers" using h(3) by (auto simp: list_all_iff list_ex_iff)
  ultimately show ?thesis
    using parsed h assms(2,5) by (simp add: parseCsv_def printed_rows_def)
qed

theorem csv_roundtrip_witness:
  "parseCsv (serializeCsv [''id'', ''note''] [[(''id'', JNum 7), (''note'', JStr [CHR ''a'', dquote, CHR '','', lf])], [(''id'', JNull)]]) =
     Inr \<lparr>pc_headers = [''id'', ''note''],
       pc_rows = [[(''id'', ''7''), (''note'', [CHR ''a'', dquote, CHR '','', lf])], [(''id'', ''''), (''note'', '''')]]\<rparr>"
proof -
  let ?hs = "[''id'', ''note'']" and ?rows = "[[(''id'', JNum 7), (''note'', JStr [CHR ''a'', dquote, CHR '','', lf])], [(''id'', JNull)]]"
  have "plain_headers ?hs" "int (length ?rows) \<le> CSV_MAX_ROWS"
    "list_all (list_all (\<lambda>c. int (length c) \<le> CSV_MAX_CELL_CHARS)) (printed_rows ?hs ?rows)"
    "int (length (serializeCsv ?hs ?rows)) \<le> CSV_MAX_BYTES" by code_simp+
  moreover have "map (\<lambda>row. map (\<lambda>h. (h, cell_text (json_field row h))) ?hs) ?rows =
      [[(''id'', ''7''), (''note'', [CHR ''a'', dquote, CHR '','', lf])], [(''id'', ''''), (''note'', '''')]]" by code_simp
  ultimately show ?thesis using csv_roundtrip [of ?hs ?rows] by simp
qed

text \<open>In a table of one column an empty cell prints as a blank line, which the parser skips.\<close>

lemma blank_line_is_dropped:
  "serializeCsv [''note''] [[(''note'', JNull)], [(''note'', JStr ''x'')]] = ''note'' @ [cr, lf, cr, lf] @ ''x'' @ [cr, lf] \<and>
   parseCsv (serializeCsv [''note''] [[(''note'', JNull)], [(''note'', JStr ''x'')]]) =
     Inr \<lparr>pc_headers = [''note''], pc_rows = [[(''note'', ''x'')]]\<rparr>"
  by code_simp

end
