(* ===== verification/DataQueries.thy ===== *)
theory DataQueries
  imports Json Actions
begin

text \<open>
  The data API of a project: the query builder (\<open>packages/api-engine/src/query-builder.ts\<close>) over a schema snapshot
  (the types of \<open>packages/database/src/project-db.ts\<close>), the engine that executes what it builds (\<open>engine.ts\<close>) and the
  cache of snapshots (\<open>introspection.ts\<close>).  The database is an argument: an action \<open>exec text params\<close> on a state of its
  own.  Numbers are integers; the body of a request is the list of its entries.
\<close>

section \<open>Snapshots (packages/database/src/project-db.ts)\<close>

record column_info =
  co_name :: string
  co_dataType :: string
  co_nullable :: bool
  co_defaultValue :: "string option"

record table_info =
  ti_schema :: string
  ti_name :: string
  ti_columns :: "column_info list"
  ti_primaryKeys :: "string list"
  ti_indexes :: "(string \<times> string) list"

record foreign_key =
  fk_table :: string
  fk_column :: string
  fk_foreignTable :: string
  fk_foreignColumn :: string

record schema_info =
  si_tables :: "table_info list"
  si_foreignKeys :: "foreign_key list"

section \<open>Identifiers\<close>

datatype engine_code =
    EE_INVALID_TABLE | EE_TABLE_NOT_FOUND | EE_INVALID_COLUMN | EE_NO_SINGLE_PK | EE_INVALID_FILTER | EE_INVALID_ORDER
  | EE_INVALID_PAGINATION | EE_INVALID_SELECT | EE_INVALID_ID | EE_EMPTY_BODY | EE_BODY_TOO_LARGE | EE_INVALID_FIELD
  | EE_FIELD_TOO_LARGE | EE_ROW_NOT_FOUND

datatype engine_error = EngineFail engine_code nat

type_synonym 'a engine_result = "engine_error + 'a"

record built_query =
  bq_text :: string
  bq_params :: "json list"

definition ident_start :: "char \<Rightarrow> bool" where
  "ident_start c \<longleftrightarrow> is_lower c \<or> is_upper c \<or> c = CHR ''_''"

definition ident_char :: "char \<Rightarrow> bool" where
  "ident_char c \<longleftrightarrow> ident_start c \<or> is_digit c"

definition ident_ok :: "string \<Rightarrow> bool" where
  "ident_ok s \<longleftrightarrow> s \<noteq> [] \<and> ident_start (hd s) \<and> list_all ident_char (tl s) \<and> length s \<le> 63"

definition quoteIdent :: "string \<Rightarrow> string" where
  "quoteIdent n = [CHR 0x22] @ concat (map (\<lambda>c. if c = CHR 0x22 then [c, c] else [c]) n) @ [CHR 0x22]"

record resolved_table =
  rt_table :: table_info
  rt_qualified :: string

definition resolveTable :: "schema_info \<Rightarrow> string \<Rightarrow> resolved_table engine_result" where
  "resolveTable snapshot ref =
     (let parts = split_on (CHR ''.'') ref in
      if length parts > 2 \<or> list_ex (\<lambda>p. p = [] \<or> \<not> ident_ok p) parts then Inl (EngineFail EE_INVALID_TABLE 400)
      else let schema = (if length parts = 2 then parts ! 0 else ''public''); n = (if length parts = 2 then parts ! 1 else parts ! 0) in
        case find (\<lambda>t. ti_schema t = schema \<and> ti_name t = n) (si_tables snapshot) of
          None \<Rightarrow> Inl (EngineFail EE_TABLE_NOT_FOUND 404)
        | Some t \<Rightarrow> Inr \<lparr>rt_table = t, rt_qualified = quoteIdent schema @ ''.'' @ quoteIdent n\<rparr>)"

definition column_names :: "table_info \<Rightarrow> string list" where
  "column_names t = map co_name (ti_columns t)"

definition resolveColumn :: "table_info \<Rightarrow> string \<Rightarrow> string engine_result" where
  "resolveColumn t col =
     (if \<not> ident_ok col \<or> col \<notin> set (column_names t) then Inl (EngineFail EE_INVALID_COLUMN 400)
      else Inr (quoteIdent col))"

definition primaryKeyColumn :: "table_info \<Rightarrow> string engine_result" where
  "primaryKeyColumn t =
     (case ti_primaryKeys t of [pk] \<Rightarrow> if pk = '''' then Inl (EngineFail EE_NO_SINGLE_PK 400) else Inr pk
      | _ \<Rightarrow> Inl (EngineFail EE_NO_SINGLE_PK 400))"

section \<open>Filters and sort keys\<close>

datatype filter_op = OpEq | OpNeq | OpGt | OpGte | OpLt | OpLte | OpLike | OpIlike | OpIn | OpIs

definition filter_op_of :: "string \<Rightarrow> filter_op option" where
  "filter_op_of s = map_of [(''eq'', OpEq), (''neq'', OpNeq), (''gt'', OpGt), (''gte'', OpGte), (''lt'', OpLt),
     (''lte'', OpLte), (''like'', OpLike), (''ilike'', OpIlike), (''in'', OpIn), (''is'', OpIs)] s"

record query_filter =
  qf_column :: string
  qf_op :: filter_op
  qf_value :: string

definition bad_filter :: "'a engine_result" where
  "bad_filter = Inl (EngineFail EE_INVALID_FILTER 400)"

text \<open>\<open>FILTER_RE\<close>: the column holds no \<open>=\<close> and the operator no dot, so both end at the first one.\<close>

definition parse_filter :: "string \<Rightarrow> query_filter engine_result" where
  "parse_filter f =
     (let col = takeWhile (\<lambda>c. c \<noteq> CHR ''='') f; r = dropWhile (\<lambda>c. c \<noteq> CHR ''='') f in
      if r = [] \<or> \<not> ident_ok col then bad_filter
      else let p = takeWhile (\<lambda>c. c \<noteq> CHR ''.'') (tl r); v = dropWhile (\<lambda>c. c \<noteq> CHR ''.'') (tl r) in
        case filter_op_of p of None \<Rightarrow> bad_filter
        | Some op \<Rightarrow> if v = [] then bad_filter
            else if length (tl v) > 500 then bad_filter
            else Inr \<lparr>qf_column = col, qf_op = op, qf_value = tl v\<rparr>)"

definition parseFilters :: "string list \<Rightarrow> query_filter list engine_result" where
  "parseFilters raw = (if length raw > 10 then bad_filter else each parse_filter raw)"

text \<open>\<open>params.push(v)\<close> and the placeholder it returns.\<close>

definition placeholder :: "nat \<Rightarrow> string" where
  "placeholder k = ''$'' @ dec k"

fun push_all :: "json list \<Rightarrow> json list \<Rightarrow> string list" where
  "push_all params [] = []"
| "push_all params (v # vs) = placeholder (length params + 1) # push_all (params @ [v]) vs"

definition op_symbol :: "filter_op \<Rightarrow> string" where
  "op_symbol p = (case p of OpEq \<Rightarrow> '' = '' | OpNeq \<Rightarrow> '' <> '' | OpGt \<Rightarrow> '' > '' | OpGte \<Rightarrow> '' >= '' | OpLt \<Rightarrow> '' < ''
     | OpLte \<Rightarrow> '' <= '' | OpLike \<Rightarrow> '' LIKE '' | OpIlike \<Rightarrow> '' ILIKE '' | OpIn \<Rightarrow> '' IN ('' | OpIs \<Rightarrow> '' IS '')"

definition filterSql :: "table_info \<Rightarrow> query_filter \<Rightarrow> json list \<Rightarrow> (string \<times> json list) engine_result" where
  "filterSql t f params =
     and_then (resolveColumn t (qf_column f)) (\<lambda>col.
     let v = qf_value f in
     case qf_op f of
       OpIn \<Rightarrow> (let vals = map JStr (take 50 (split_on (CHR '','') v)) in
          if vals = [] then bad_filter
          else Inr (col @ op_symbol OpIn @ join '', '' (push_all params vals) @ '')'', params @ vals))
     | OpIs \<Rightarrow>
          if v = ''null'' then Inr (col @ '' IS NULL'', params)
          else if v = ''notnull'' then Inr (col @ '' IS NOT NULL'', params)
          else if v = ''true'' then Inr (col @ '' IS TRUE'', params)
          else if v = ''false'' then Inr (col @ '' IS FALSE'', params)
          else bad_filter
     | p \<Rightarrow> Inr (col @ op_symbol p @ placeholder (length params + 1), params @ [JStr v]))"

text \<open>The clauses in order, each appending its values to the parameters.\<close>

fun filters_sql :: "table_info \<Rightarrow> query_filter list \<Rightarrow> json list \<Rightarrow> (string list \<times> json list) engine_result" where
  "filters_sql t [] params = Inr ([], params)"
| "filters_sql t (f # fs) params =
     and_then (filterSql t f params) (\<lambda>(w, params1).
     and_then (filters_sql t fs params1) (\<lambda>(ws, params2). Inr (w # ws, params2)))"

definition bad_order :: "'a engine_result" where
  "bad_order = Inl (EngineFail EE_INVALID_ORDER 400)"

definition parse_sort_key :: "string \<Rightarrow> (string \<times> bool) engine_result" where
  "parse_sort_key k =
     (case split_on (CHR ''.'') k of
        [col, dir] \<Rightarrow> if ident_ok col \<and> (dir = ''asc'' \<or> dir = ''desc'') then Inr (col, dir = ''desc'') else bad_order
      | _ \<Rightarrow> bad_order)"

definition parseOrder :: "string option \<Rightarrow> (string \<times> bool) list engine_result" where
  "parseOrder raw =
     (case raw of None \<Rightarrow> Inr []
      | Some s \<Rightarrow> if s = '''' then Inr []
          else if length (split_on (CHR '','') s) > 3 then bad_order
          else each parse_sort_key (take 3 (split_on (CHR '','') s)))"

definition sort_sql :: "table_info \<Rightarrow> string \<times> bool \<Rightarrow> string engine_result" where
  "sort_sql t key = (case key of (c, desc) \<Rightarrow>
     and_then (resolveColumn t c) (\<lambda>col. Inr (col @ '' '' @ (if desc then ''DESC'' else ''ASC''))))"

section \<open>Statements\<close>

record list_options =
  lo_select :: "string option"
  lo_filters :: "string list"
  lo_order :: "string option"
  lo_limit :: "int option"
  lo_offset :: "int option"
  lo_maxLimit :: "int option"

definition default_to :: "'a option \<Rightarrow> 'a \<Rightarrow> 'a" where
  "default_to v d = (case v of Some x \<Rightarrow> x | None \<Rightarrow> d)"

definition select_sql :: "table_info \<Rightarrow> string option \<Rightarrow> string list engine_result" where
  "select_sql t sel =
     (case sel of None \<Rightarrow> Inr [''*'']
      | Some s \<Rightarrow> if s = '''' then Inr [''*''] else each (\<lambda>c. resolveColumn t (js_trim c)) (split_on (CHR '','') s))"

definition buildList :: "schema_info \<Rightarrow> string \<Rightarrow> list_options \<Rightarrow> built_query engine_result" where
  "buildList snapshot ref opts =
     and_then (resolveTable snapshot ref) (\<lambda>r.
     let t = rt_table r; n = default_to (lo_limit opts) 20; offset = default_to (lo_offset opts) 0 in
     if n < 1 \<or> n > default_to (lo_maxLimit opts) 500 then Inl (EngineFail EE_INVALID_PAGINATION 400)
     else if offset < 0 \<or> offset > 1000000 then Inl (EngineFail EE_INVALID_PAGINATION 400)
     else and_then (select_sql t (lo_select opts)) (\<lambda>cols.
       if length cols > 50 then Inl (EngineFail EE_INVALID_SELECT 400)
       else and_then (parseFilters (lo_filters opts)) (\<lambda>filters.
         and_then (filters_sql t filters []) (\<lambda>(wheres, params).
         and_then (parseOrder (lo_order opts)) (\<lambda>keys.
         and_then (each (sort_sql t) keys) (\<lambda>order.
         let params' = params @ [JNum n, JNum offset] in
         Inr \<lparr>bq_text = ''SELECT '' @ join '', '' cols @ '' FROM '' @ rt_qualified r
             @ (if wheres \<noteq> [] then '' WHERE '' @ join '' AND '' wheres else '''')
             @ (if order \<noteq> [] then '' ORDER BY '' @ join '', '' order else '''')
             @ '' LIMIT '' @ placeholder (length params' - 1) @ '' OFFSET '' @ placeholder (length params'),
           bq_params = params'\<rparr>))))))"

definition id_ok :: "string \<Rightarrow> unit engine_result" where
  "id_ok i = (if length i > 500 then Inl (EngineFail EE_INVALID_ID 400) else Inr ())"

definition buildGet :: "schema_info \<Rightarrow> string \<Rightarrow> string \<Rightarrow> built_query engine_result" where
  "buildGet snapshot ref i =
     and_then (resolveTable snapshot ref) (\<lambda>r.
     and_then (primaryKeyColumn (rt_table r)) (\<lambda>pk.
     and_then (id_ok i) (\<lambda>_.
     Inr \<lparr>bq_text = ''SELECT * FROM '' @ rt_qualified r @ '' WHERE '' @ quoteIdent pk @ '' = $1'', bq_params = [JStr i]\<rparr>)))"

definition writable_entry :: "table_info \<Rightarrow> string \<times> json \<Rightarrow> (string \<times> json) engine_result" where
  "writable_entry t e = (case e of (n, v) \<Rightarrow>
     if \<not> ident_ok n \<or> n \<notin> set (column_names t) then Inl (EngineFail EE_INVALID_FIELD 400)
     else if ti_primaryKeys t = [n] \<and> v = JUndefined then Inl (EngineFail EE_INVALID_FIELD 400)
     else case v of
         JStr s \<Rightarrow> if int (length s) > 100000 then Inl (EngineFail EE_FIELD_TOO_LARGE 400) else Inr (n, v)
       | JArr _ \<Rightarrow> Inl (EngineFail EE_INVALID_FIELD 400)
       | JObj _ \<Rightarrow> Inl (EngineFail EE_INVALID_FIELD 400)
       | _ \<Rightarrow> Inr (n, v))"

definition writableColumns :: "table_info \<Rightarrow> (string \<times> json) list \<Rightarrow> (string \<times> json) list engine_result" where
  "writableColumns t body =
     (if body = [] then Inl (EngineFail EE_EMPTY_BODY 400)
      else if length body > 50 then Inl (EngineFail EE_BODY_TOO_LARGE 400)
      else each (writable_entry t) body)"

definition buildInsert :: "schema_info \<Rightarrow> string \<Rightarrow> (string \<times> json) list \<Rightarrow> built_query engine_result" where
  "buildInsert snapshot ref body =
     and_then (resolveTable snapshot ref) (\<lambda>r.
     and_then (writableColumns (rt_table r) body) (\<lambda>entries.
     Inr \<lparr>bq_text = ''INSERT INTO '' @ rt_qualified r @ '' ('' @ join '', '' (map (\<lambda>(n, _). quoteIdent n) entries)
         @ '') VALUES ('' @ join '', '' (map (\<lambda>i. placeholder (i + 1)) [0..<length entries]) @ '') RETURNING *'',
       bq_params = map snd entries\<rparr>))"

definition set_clause :: "nat \<times> string \<times> json \<Rightarrow> string" where
  "set_clause e = (case e of (i, n, _) \<Rightarrow> quoteIdent n @ '' = '' @ placeholder (i + 1))"

definition buildUpdate :: "schema_info \<Rightarrow> string \<Rightarrow> string \<Rightarrow> (string \<times> json) list \<Rightarrow> built_query engine_result" where
  "buildUpdate snapshot ref i body =
     and_then (resolveTable snapshot ref) (\<lambda>r.
     and_then (primaryKeyColumn (rt_table r)) (\<lambda>pk.
     and_then (writableColumns (rt_table r) body) (\<lambda>all_entries.
     let entries = filter (\<lambda>(n, _). n \<noteq> pk) all_entries in
     if entries = [] then Inl (EngineFail EE_EMPTY_BODY 400)
     else and_then (id_ok i) (\<lambda>_.
       Inr \<lparr>bq_text = ''UPDATE '' @ rt_qualified r @ '' SET '' @ join '', '' (map set_clause (enumerate 0 entries))
           @ '' WHERE '' @ quoteIdent pk @ '' = '' @ placeholder (length entries + 1) @ '' RETURNING *'',
         bq_params = map snd entries @ [JStr i]\<rparr>))))"

definition buildDelete :: "schema_info \<Rightarrow> string \<Rightarrow> string \<Rightarrow> built_query engine_result" where
  "buildDelete snapshot ref i =
     and_then (resolveTable snapshot ref) (\<lambda>r.
     and_then (primaryKeyColumn (rt_table r)) (\<lambda>pk.
     and_then (id_ok i) (\<lambda>_.
     Inr \<lparr>bq_text = ''DELETE FROM '' @ rt_qualified r @ '' WHERE '' @ quoteIdent pk @ '' = $1'', bq_params = [JStr i]\<rparr>)))"

definition relationshipsOf :: "schema_info \<Rightarrow> string \<Rightarrow> (string \<times> string) list engine_result" where
  "relationshipsOf snapshot ref =
     and_then (resolveTable snapshot ref) (\<lambda>r. let n = ti_name (rt_table r) in
     Inr (map (\<lambda>fk. (fk_column fk, fk_foreignTable fk @ ''.'' @ fk_foreignColumn fk))
       (filter (\<lambda>fk. fk_table fk = ''public.'' @ n \<or> ends_with (fk_table fk) (''.'' @ n)) (si_foreignKeys snapshot))))"

section \<open>The engine (engine.ts)\<close>

type_synonym data_row = "(string \<times> json) list"
type_synonym ('d, 'a) data_act = "('d, engine_error, 'a) act"
type_synonym 'd executor = "string \<Rightarrow> json list \<Rightarrow> ('d, data_row list) data_act"

definition run_query :: "'d executor \<Rightarrow> built_query engine_result \<Rightarrow> ('d, data_row list) data_act" where
  "run_query exec built = act_bind (act_lift built) (\<lambda>q. exec (bq_text q) (bq_params q))"

definition data_list :: "'d executor \<Rightarrow> schema_info \<Rightarrow> string \<Rightarrow> list_options \<Rightarrow> ('d, data_row list \<times> int \<times> int) data_act" where
  "data_list exec snapshot ref opts =
     act_bind (run_query exec (buildList snapshot ref opts)) (\<lambda>rows.
     act_return (rows, default_to (lo_limit opts) 20, default_to (lo_offset opts) 0))"

definition data_get :: "'d executor \<Rightarrow> schema_info \<Rightarrow> string \<Rightarrow> string \<Rightarrow> ('d, data_row) data_act" where
  "data_get exec snapshot ref i =
     act_bind (run_query exec (buildGet snapshot ref i)) (\<lambda>rows.
     case rows of [] \<Rightarrow> act_throw (EngineFail EE_ROW_NOT_FOUND 404) | row # _ \<Rightarrow> act_return row)"

definition first_row :: "data_row list \<Rightarrow> data_row" where
  "first_row rows = (case rows of [] \<Rightarrow> [] | row # _ \<Rightarrow> row)"

definition data_create :: "'d executor \<Rightarrow> schema_info \<Rightarrow> string \<Rightarrow> (string \<times> json) list \<Rightarrow> ('d, data_row) data_act" where
  "data_create exec snapshot ref body =
     act_bind (run_query exec (buildInsert snapshot ref body)) (\<lambda>rows. act_return (first_row rows))"

definition data_update :: "'d executor \<Rightarrow> schema_info \<Rightarrow> string \<Rightarrow> string \<Rightarrow> (string \<times> json) list \<Rightarrow> ('d, data_row) data_act" where
  "data_update exec snapshot ref i body =
     act_seq (data_get exec snapshot ref i)
     (act_bind (run_query exec (buildUpdate snapshot ref i body)) (\<lambda>rows. act_return (first_row rows)))"

definition data_remove :: "'d executor \<Rightarrow> schema_info \<Rightarrow> string \<Rightarrow> string \<Rightarrow> ('d, unit) data_act" where
  "data_remove exec snapshot ref i =
     act_seq (data_get exec snapshot ref i)
     (act_seq (run_query exec (buildDelete snapshot ref i)) (act_return ()))"

section \<open>The cache of snapshots (introspection.ts)\<close>

record 'd introspection =
  is_cached :: "(instant \<times> schema_info) option"
  is_source :: 'd

type_synonym ('d, 'a) introspect_act = "('d introspection, engine_error, 'a) act"

text \<open>\<open>source.read()\<close> as an argument: what a read returns or throws and the state it leaves.\<close>

type_synonym 'd schema_reader = "'d \<Rightarrow> (engine_error + schema_info) \<times> 'd"

definition getSchema :: "'d schema_reader \<Rightarrow> int \<Rightarrow> instant \<Rightarrow> ('d, schema_info) introspect_act" where
  "getSchema reader ttlMs now s =
     (case is_cached s of
        Some (at_time, schema) \<Rightarrow> if now - at_time < ttlMs then (Inr schema, s)
          else (case reader (is_source s) of (Inl e, d) \<Rightarrow> (Inl e, s\<lparr>is_source := d\<rparr>)
            | (Inr fresh, d) \<Rightarrow> (Inr fresh, \<lparr>is_cached = Some (now, fresh), is_source = d\<rparr>))
      | None \<Rightarrow> (case reader (is_source s) of (Inl e, d) \<Rightarrow> (Inl e, s\<lparr>is_source := d\<rparr>)
            | (Inr fresh, d) \<Rightarrow> (Inr fresh, \<lparr>is_cached = Some (now, fresh), is_source = d\<rparr>)))"

definition findTable :: "schema_info \<Rightarrow> string \<Rightarrow> table_info engine_result" where
  "findTable snapshot n = (case find (\<lambda>t. ti_name t = n) (si_tables snapshot) of
     None \<Rightarrow> Inl (EngineFail EE_TABLE_NOT_FOUND 404) | Some t \<Rightarrow> Inr t)"

definition getTables :: "'d schema_reader \<Rightarrow> int \<Rightarrow> instant \<Rightarrow> ('d, table_info list) introspect_act" where
  "getTables reader ttlMs now = act_bind (getSchema reader ttlMs now) (\<lambda>s. act_return (si_tables s))"

definition getColumns :: "'d schema_reader \<Rightarrow> int \<Rightarrow> instant \<Rightarrow> string \<Rightarrow> ('d, column_info list) introspect_act" where
  "getColumns reader ttlMs now n = act_bind (getSchema reader ttlMs now) (\<lambda>s.
     act_bind (act_lift (findTable s n)) (\<lambda>t. act_return (ti_columns t)))"

definition getPrimaryKeys :: "'d schema_reader \<Rightarrow> int \<Rightarrow> instant \<Rightarrow> string \<Rightarrow> ('d, string list) introspect_act" where
  "getPrimaryKeys reader ttlMs now n = act_bind (getSchema reader ttlMs now) (\<lambda>s.
     act_bind (act_lift (findTable s n)) (\<lambda>t. act_return (ti_primaryKeys t)))"

definition getForeignKeys :: "'d schema_reader \<Rightarrow> int \<Rightarrow> instant \<Rightarrow> ('d, foreign_key list) introspect_act" where
  "getForeignKeys reader ttlMs now = act_bind (getSchema reader ttlMs now) (\<lambda>s. act_return (si_foreignKeys s))"

definition getIndexes :: "'d schema_reader \<Rightarrow> int \<Rightarrow> instant \<Rightarrow> string \<Rightarrow> ('d, (string \<times> string) list) introspect_act" where
  "getIndexes reader ttlMs now n = act_bind (getSchema reader ttlMs now) (\<lambda>s.
     act_bind (act_lift (findTable s n)) (\<lambda>t. act_return (ti_indexes t)))"

definition invalidate :: "'d introspection \<Rightarrow> 'd introspection" where
  "invalidate s = s\<lparr>is_cached := None\<rparr>"

end
