(* ===== verification/DataSql.thy ===== *)
theory DataSql
  imports DataQueries
begin

text \<open>
  What the statements of the query builder say, read the way a database reads them: a lexer for the SQL they are written
  in, and for every builder the tokens of its text.
\<close>

section \<open>Tokens\<close>

datatype sql_token = TWord string | TSym char | TIdent string | TParam nat

definition letter :: "char \<Rightarrow> bool" where
  "letter c \<longleftrightarrow> is_lower c \<or> is_upper c"

definition sql_symbols :: string where
  "sql_symbols = ''(),*=<>.''"

text \<open>A quoted identifier ends at the first quote that is not doubled.\<close>

fun read_ident :: "string \<Rightarrow> (string \<times> string) option" where
  "read_ident [] = None"
| "read_ident [c] = (if c = CHR 0x22 then Some ([], []) else None)"
| "read_ident (c # d # t) =
     (if c = CHR 0x22 then
        (if d = CHR 0x22 then map_option (\<lambda>(n, r). (c # n, r)) (read_ident t) else Some ([], d # t))
      else map_option (\<lambda>(n, r). (c # n, r)) (read_ident (d # t)))"

lemma read_ident_shorter: "read_ident t = Some (n, r) \<Longrightarrow> length r < length t"
  by (induction t arbitrary: n rule: read_ident.induct) (fastforce split: if_splits)+

function sql_lex :: "string \<Rightarrow> sql_token list option" where
  "sql_lex s = (case s of [] \<Rightarrow> Some []
     | c # t \<Rightarrow>
        if c = CHR '' '' then sql_lex t
        else if c = CHR 0x22 then
          (case read_ident t of None \<Rightarrow> None | Some (n, r) \<Rightarrow> map_option (Cons (TIdent n)) (sql_lex r))
        else if c = CHR ''$'' then
          (if takeWhile is_digit t = [] then None
           else map_option (Cons (TParam (dec_val (takeWhile is_digit t)))) (sql_lex (dropWhile is_digit t)))
        else if letter c then
          map_option (Cons (TWord (takeWhile letter s))) (sql_lex (dropWhile letter t))
        else if c \<in> set sql_symbols then map_option (Cons (TSym c)) (sql_lex t)
        else None)"
  by pat_completeness auto
termination
  by (relation "measure length")
    (auto dest: read_ident_shorter simp: le_imp_less_Suc length_dropWhile_le)

declare sql_lex.simps [simp del]

section \<open>Lexing in pieces\<close>

text \<open>A piece that ends a token by itself, and one whose last token a space, comma, bracket or dot must end.\<close>

definition lexes :: "string \<Rightarrow> sql_token list \<Rightarrow> bool" where
  "lexes s toks \<longleftrightarrow> (\<forall>t. sql_lex (s @ t) = map_option (append toks) (sql_lex t))"

definition ends_token :: "string \<Rightarrow> bool" where
  "ends_token t \<longleftrightarrow> t = [] \<or> hd t \<in> set '' ,).''"

definition lexes_before :: "string \<Rightarrow> sql_token list \<Rightarrow> bool" where
  "lexes_before s toks \<longleftrightarrow> (\<forall>t. ends_token t \<longrightarrow> sql_lex (s @ t) = map_option (append toks) (sql_lex t))"

lemma map_append [simp]: "map_option (append []) x = x"
  by (cases x) simp_all

lemma map_append_append: "map_option (append a) (map_option (append b) x) = map_option (append (a @ b)) x"
  by (cases x) simp_all

lemma lexes_weaken: "lexes s toks \<Longrightarrow> lexes_before s toks"
  by (simp add: lexes_def lexes_before_def)

lemma lexes_append: "lexes a x \<Longrightarrow> lexes b y \<Longrightarrow> lexes (a @ b) (x @ y)"
  by (simp add: lexes_def map_append_append)

lemma lexes_then_before: "lexes a x \<Longrightarrow> lexes_before b y \<Longrightarrow> lexes_before (a @ b) (x @ y)"
  by (simp add: lexes_def lexes_before_def map_append_append)

lemma ends_token_append: "b \<noteq> [] \<Longrightarrow> ends_token (b @ t) = ends_token b"
  by (simp add: ends_token_def)

lemma before_then: "lexes_before a x \<Longrightarrow> lexes b y \<Longrightarrow> b \<noteq> [] \<Longrightarrow> ends_token b \<Longrightarrow> lexes (a @ b) (x @ y)"
  by (simp add: lexes_def lexes_before_def ends_token_append map_append_append)

lemma before_then_before:
  "lexes_before a x \<Longrightarrow> lexes_before b y \<Longrightarrow> b = [] \<or> ends_token b \<Longrightarrow> b = [] \<longrightarrow> y = [] \<Longrightarrow> lexes_before (a @ b) (x @ y)"
  by (cases "b = []") (simp_all add: lexes_before_def ends_token_append map_append_append)

lemma lexes_text: "lexes_before s toks \<Longrightarrow> sql_lex s = Some toks"
proof -
  assume "lexes_before s toks"
  moreover have "ends_token []" by (simp add: ends_token_def)
  ultimately have "sql_lex (s @ []) = map_option (append toks) (sql_lex [])" unfolding lexes_before_def by blast
  then show ?thesis by (simp add: sql_lex.simps [of "[]"])
qed

lemma read_quoted:
  "t = [] \<or> hd t \<noteq> CHR 0x22 \<Longrightarrow>
   read_ident (concat (map (\<lambda>c. if c = CHR 0x22 then [c, c] else [c]) n) @ CHR 0x22 # t) = Some (n, t)"
proof (induction n)
  case Nil
  then show ?case by (cases t) auto
next
  case (Cons c n)
  obtain d r where r: "concat (map (\<lambda>c. if c = CHR 0x22 then [c, c] else [c]) n) @ CHR 0x22 # t = d # r"
    by (cases "concat (map (\<lambda>c. if c = CHR 0x22 then [c, c] else [c]) n) @ CHR 0x22 # t") auto
  then have ih: "read_ident (d # r) = Some (n, t)" using Cons by simp
  show ?case
  proof (cases "c = CHR 0x22")
    case True
    have "concat (map (\<lambda>c. if c = CHR 0x22 then [c, c] else [c]) (c # n)) @ CHR 0x22 # t = CHR 0x22 # CHR 0x22 # d # r"
      using True r by simp
    then show ?thesis using ih True by (simp only: read_ident.simps) simp
  next
    case False
    have "concat (map (\<lambda>c. if c = CHR 0x22 then [c, c] else [c]) (c # n)) @ CHR 0x22 # t = c # d # r"
      using False r by simp
    then show ?thesis using ih False by (simp only: read_ident.simps) simp
  qed
qed

lemma lexes_ident: "lexes_before (quoteIdent n) [TIdent n]"
  unfolding lexes_before_def
proof (intro allI impI)
  fix t assume "ends_token t"
  then have "t = [] \<or> hd t \<noteq> CHR 0x22" by (auto simp: ends_token_def)
  from read_quoted [OF this, of n] show "sql_lex (quoteIdent n @ t) = map_option (append [TIdent n]) (sql_lex t)"
    by (cases "sql_lex t") (simp_all add: quoteIdent_def sql_lex.simps [of "_ # _"])
qed

lemma lexes_placeholder: "lexes_before (placeholder k) [TParam k]"
  unfolding lexes_before_def
proof (intro allI impI)
  fix t assume "ends_token t"
  then have "t = [] \<or> \<not> is_digit (hd t)" by (auto simp: ends_token_def eval_simps)
  moreover have "\<forall>c\<in>set (dec k). is_digit c" using dec_digits [of k] by (simp add: list_all_iff)
  ultimately have "takeWhile is_digit (dec k @ t) = dec k" "dropWhile is_digit (dec k @ t) = t"
    by (cases t; auto simp: takeWhile_append2 dropWhile_append2)+
  then show "sql_lex (placeholder k @ t) = map_option (append [TParam k]) (sql_lex t)"
    by (cases "sql_lex t") (simp_all add: placeholder_def sql_lex.simps [of "_ # _"])
qed


lemma append_unfold: "append [] = (\<lambda>y. y)" "append (a # x) = (\<lambda>y. a # append x y)"
  by (simp_all add: fun_eq_iff)

lemmas lex_literal = append_unfold lexes_def sql_lex.simps [of "_ # _"] letter_def char_defs sql_symbols_def map_append_append
  option.map_comp comp_def option.map_ident

lemma literals:
  "lexes ''SELECT '' [TWord ''SELECT'']" "lexes '' FROM '' [TWord ''FROM'']" "lexes '' WHERE '' [TWord ''WHERE'']"
  "lexes '' AND '' [TWord ''AND'']" "lexes '' ORDER BY '' [TWord ''ORDER'', TWord ''BY'']"
  "lexes '' LIMIT '' [TWord ''LIMIT'']" "lexes '' OFFSET '' [TWord ''OFFSET'']" "lexes '', '' [TSym (CHR '','')]"
  "lexes ''.'' [TSym (CHR ''.'')]" "lexes ''*'' [TSym (CHR ''*'')]" "lexes '')'' [TSym (CHR '')'')]"
  "lexes ''INSERT INTO '' [TWord ''INSERT'', TWord ''INTO'']" "lexes '' ('' [TSym (CHR ''('')]"
  "lexes '') VALUES ('' [TSym (CHR '')''), TWord ''VALUES'', TSym (CHR ''('')]"
  "lexes ''UPDATE '' [TWord ''UPDATE'']" "lexes '' SET '' [TWord ''SET'']" "lexes '' = '' [TSym (CHR ''='')]"
  "lexes '' <> '' [TSym (CHR ''<''), TSym (CHR ''>'')]" "lexes '' > '' [TSym (CHR ''>'')]"
  "lexes '' >= '' [TSym (CHR ''>''), TSym (CHR ''='')]" "lexes '' < '' [TSym (CHR ''<'')]"
  "lexes '' <= '' [TSym (CHR ''<''), TSym (CHR ''='')]" "lexes '' LIKE '' [TWord ''LIKE'']"
  "lexes '' ILIKE '' [TWord ''ILIKE'']" "lexes '' IN ('' [TWord ''IN'', TSym (CHR ''('')]"
  "lexes ''DELETE FROM '' [TWord ''DELETE'', TWord ''FROM'']" "lexes '' '' []"
  "lexes '' RETURNING *'' [TWord ''RETURNING'', TSym (CHR ''*'')]"
  "lexes '') RETURNING *'' [TSym (CHR '')''), TWord ''RETURNING'', TSym (CHR ''*'')]"
  by (simp_all add: lex_literal)

section \<open>What a text says\<close>

definition SQL_WORDS :: "string list" where
  "SQL_WORDS = [''SELECT'', ''FROM'', ''WHERE'', ''AND'', ''ORDER'', ''BY'', ''ASC'', ''DESC'', ''LIMIT'', ''OFFSET'', ''LIKE'', ''ILIKE'',
     ''IN'', ''IS'', ''NOT'', ''NULL'', ''TRUE'', ''FALSE'', ''INSERT'', ''INTO'', ''VALUES'', ''RETURNING'', ''UPDATE'', ''SET'', ''DELETE'']"

definition own_names :: "table_info \<Rightarrow> string set" where
  "own_names t = {ti_schema t, ti_name t} \<union> set (column_names t) \<union> set (ti_primaryKeys t)"

definition token_ok :: "table_info \<Rightarrow> sql_token \<Rightarrow> bool" where
  "token_ok t tok = (case tok of TWord w \<Rightarrow> w \<in> set SQL_WORDS | TIdent n \<Rightarrow> n \<in> own_names t
     | TSym c \<Rightarrow> c \<in> set sql_symbols | TParam _ \<Rightarrow> True)"

definition params_of :: "sql_token list \<Rightarrow> nat list" where
  "params_of toks = concat (map (\<lambda>tok. case tok of TParam k \<Rightarrow> [k] | _ \<Rightarrow> []) toks)"

text \<open>The tokens are words of SQL, names of the table and the placeholders from \<open>a + 1\<close> to \<open>b\<close> in order.\<close>

definition toks_ok :: "table_info \<Rightarrow> nat \<Rightarrow> nat \<Rightarrow> sql_token list \<Rightarrow> bool" where
  "toks_ok t a b toks \<longleftrightarrow> a \<le> b \<and> list_all (token_ok t) toks \<and> params_of toks = [Suc a..<Suc b]"

definition says :: "table_info \<Rightarrow> nat \<Rightarrow> nat \<Rightarrow> string \<Rightarrow> bool" where
  "says t a b s \<longleftrightarrow> (\<exists>toks. lexes_before s toks \<and> toks_ok t a b toks)"

definition says_all :: "table_info \<Rightarrow> nat \<Rightarrow> nat \<Rightarrow> string \<Rightarrow> bool" where
  "says_all t a b s \<longleftrightarrow> (\<exists>toks. lexes s toks \<and> toks_ok t a b toks)"

lemma toks_ok_append: "toks_ok t a b x \<Longrightarrow> toks_ok t b c y \<Longrightarrow> toks_ok t a c (x @ y)"
  using upt_add_eq_append [of "Suc a" "Suc b" "c - b"]
  by (auto simp: toks_ok_def params_of_def simp del: upt_Suc)

lemma toks_ok_le: "toks_ok t a b x \<Longrightarrow> a \<le> b"
  by (simp add: toks_ok_def)

lemma says_weaken: "says_all t a b s \<Longrightarrow> says t a b s"
  by (auto simp: says_def says_all_def intro: lexes_weaken)

lemma says_append: "says_all t a b s \<Longrightarrow> says t b c u \<Longrightarrow> says t a c (s @ u)"
  unfolding says_def says_all_def by (blast intro: lexes_then_before toks_ok_append)

lemma says_all_append: "says_all t a b s \<Longrightarrow> says_all t b c u \<Longrightarrow> says_all t a c (s @ u)"
  unfolding says_all_def by (blast intro: lexes_append toks_ok_append)

lemma says_then: "says t a b s \<Longrightarrow> says_all t b c u \<Longrightarrow> u \<noteq> [] \<Longrightarrow> ends_token u \<Longrightarrow> says_all t a c (s @ u)"
  unfolding says_def says_all_def by (blast intro: before_then toks_ok_append)

lemma lexes_nothing: "lexes_before [] y \<Longrightarrow> y = []"
  using lexes_text [of "[]" y] by (simp add: sql_lex.simps [of "[]"])

lemma says_before: "says t a b s \<Longrightarrow> says t b c u \<Longrightarrow> ends_token u \<Longrightarrow> says t a c (s @ u)"
  unfolding says_def by (metis before_then_before toks_ok_append lexes_nothing)

lemma says_nothing: "says t a a []"
  unfolding says_def by (rule exI [of _ "[]"]) (simp add: lexes_before_def toks_ok_def params_of_def)

lemma says_text: "says t 0 n s \<Longrightarrow> \<exists>toks. sql_lex s = Some toks \<and> list_all (token_ok t) toks \<and> params_of toks = [1..<Suc n]"
  unfolding says_def toks_ok_def using lexes_text by fastforce

lemma says_literal: "lexes s toks \<Longrightarrow> list_all (\<lambda>tok. case tok of TWord w \<Rightarrow> w \<in> set SQL_WORDS | TSym c \<Rightarrow> c \<in> set sql_symbols | _ \<Rightarrow> False) toks \<Longrightarrow>
   says_all t a a s"
  unfolding says_all_def toks_ok_def
  by (rule exI [of _ toks])
    (auto simp: list_all_iff token_ok_def params_of_def split: sql_token.splits intro!: map_idI)

lemma says_ident: "n \<in> own_names t \<Longrightarrow> says t a a (quoteIdent n)"
  unfolding says_def toks_ok_def
  by (rule exI [of _ "[TIdent n]"]) (simp add: lexes_ident token_ok_def params_of_def)

lemma says_placeholder: "says t a (Suc a) (placeholder (Suc a))"
  unfolding says_def toks_ok_def
  by (rule exI [of _ "[TParam (Suc a)]"]) (simp add: lexes_placeholder token_ok_def params_of_def)

lemmas says_literals = literals [THEN says_literal]

lemmas word_simps = SQL_WORDS_def sql_symbols_def ends_token_def

section \<open>The builders\<close>

lemma resolveTable_Inr:
  assumes "resolveTable snapshot ref = Inr r"
  shows "rt_table r \<in> set (si_tables snapshot) \<and> ident_ok (ti_schema (rt_table r)) \<and> ident_ok (ti_name (rt_table r)) \<and>
    rt_qualified r = quoteIdent (ti_schema (rt_table r)) @ ''.'' @ quoteIdent (ti_name (rt_table r))"
proof -
  have "ident_ok ''public''" by code_simp
  with assms show ?thesis
    by (fastforce simp: resolveTable_def Let_def list_ex_iff length_Suc_conv numeral_2_eq_2 find_Some_iff in_set_conv_nth
        split: if_splits option.splits)
qed

lemma says_qualified: "resolveTable snapshot ref = Inr r \<Longrightarrow> says (rt_table r) a a (rt_qualified r)"
proof -
  assume "resolveTable snapshot ref = Inr r"
  then have q: "rt_qualified r = quoteIdent (ti_schema (rt_table r)) @ ''.'' @ quoteIdent (ti_name (rt_table r))"
    by (simp add: resolveTable_Inr)
  show ?thesis unfolding q
    by (rule says_before [OF says_ident says_append [OF says_literals(9) says_ident]])
      (simp_all add: own_names_def word_simps)
qed

lemma resolveColumn_says: "resolveColumn t c = Inr col \<Longrightarrow> says t a a col"
  by (auto simp: resolveColumn_def own_names_def intro!: says_ident split: if_splits)

lemma says_join_same:
  assumes "says_all t a a sep" "ends_token sep" "sep \<noteq> []" "list_all (says t a a) ws" "ws \<noteq> []"
  shows "says t a a (join sep ws)"
  using assms(4,5)
proof (induction ws)
  case (Cons w ws)
  then show ?case
    using says_append [OF says_then [OF _ assms(1,3,2)]] by (cases ws) simp_all
qed simp

lemma says_star: "says t a a ''*''"
  by (rule says_weaken [OF says_literals(10)]) (simp add: word_simps)

lemma select_says:
  assumes "select_sql t sel = Inr cols"
  shows "says t a a (join '', '' cols)"
proof -
  have "list_all (says t a a) cols \<and> cols \<noteq> []"
    using assms says_star resolveColumn_says
    by (auto simp: select_sql_def each_Inr list_all2_conv_all_nth list_all_length split: option.splits if_splits)
  then show ?thesis by (intro says_join_same says_literals(8)) (simp_all add: word_simps)
qed

lemma push_all_says: "vs \<noteq> [] \<Longrightarrow> says t (length params) (length params + length vs) (join '', '' (push_all params vs))"
proof (induction vs arbitrary: params)
  case (Cons v vs)
  show ?case
  proof (cases vs)
    case Nil
    then show ?thesis using says_placeholder [of t "length params"] by simp
  next
    case (Cons w ws)
    then have "push_all (params @ [v]) vs \<noteq> []" by simp
    then have "join '', '' (push_all params (v # vs)) =
        (placeholder (Suc (length params)) @ '', '') @ join '', '' (push_all (params @ [v]) vs)"
      by (simp add: join_Cons)
    moreover have "says t (length params) (length params + length (v # vs)) \<dots>"
      by (rule says_append [OF says_then [OF says_placeholder says_literals(8)]])
        (use Cons.IH [of "params @ [v]"] Cons in \<open>simp_all add: word_simps\<close>)
    ultimately show ?thesis by simp
  qed
qed simp

lemma letters_end: "ends_token t \<Longrightarrow> takeWhile letter t = [] \<and> dropWhile letter t = t"
  by (cases t) (auto simp: ends_token_def letter_def char_defs)

lemma before_literals:
  "lexes_before '' IS NULL'' [TWord ''IS'', TWord ''NULL'']"
  "lexes_before '' IS NOT NULL'' [TWord ''IS'', TWord ''NOT'', TWord ''NULL'']"
  "lexes_before '' IS TRUE'' [TWord ''IS'', TWord ''TRUE'']" "lexes_before '' IS FALSE'' [TWord ''IS'', TWord ''FALSE'']"
  "lexes_before ''ASC'' [TWord ''ASC'']" "lexes_before ''DESC'' [TWord ''DESC'']"
  by (simp_all add: lexes_before_def lex_literal letters_end)

lemma says_ending:
  "lexes_before s toks \<Longrightarrow>
   list_all (\<lambda>tok. case tok of TWord w \<Rightarrow> w \<in> set SQL_WORDS | TSym c \<Rightarrow> c \<in> set sql_symbols | _ \<Rightarrow> False) toks \<Longrightarrow> says t a a s"
  unfolding says_def toks_ok_def
  by (rule exI [of _ toks])
    (auto simp: list_all_iff token_ok_def params_of_def split: sql_token.splits intro!: map_idI)

section \<open>Clauses\<close>

lemma filter_says:
  assumes "filterSql t f params = Inr (w, params')"
  shows "says t (length params) (length params') w"
proof -
  obtain col where col: "resolveColumn t (qf_column f) = Inr col"
    using assms by (auto simp: filterSql_def and_then_Inr)
  have c: "says t (length params) (length params) col" by (rule resolveColumn_says [OF col])
  have binary: "says t (length params) (Suc (length params)) (col @ op @ placeholder (Suc (length params)))"
    if "lexes op toks" "list_all (\<lambda>tok. case tok of TWord w \<Rightarrow> w \<in> set SQL_WORDS | TSym c \<Rightarrow> c \<in> set sql_symbols | _ \<Rightarrow> False) toks"
      "ends_token (op @ placeholder (Suc (length params)))" for op toks
    by (rule says_before [OF c says_append [OF says_literal [OF that(1,2)] says_placeholder] that(3)])
  have unary: "says t (length params) (length params) (col @ op)"
    if "lexes_before op toks" "list_all (\<lambda>tok. case tok of TWord w \<Rightarrow> w \<in> set SQL_WORDS | TSym c \<Rightarrow> c \<in> set sql_symbols | _ \<Rightarrow> False) toks"
      "ends_token op" for op toks
    by (rule says_before [OF c says_ending [OF that(1,2)] that(3)])
  show ?thesis
  proof (cases "qf_op f")
    case OpIn
    let ?vals = "map JStr (take 50 (split_on (CHR '','') (qf_value f)))"
    have v: "?vals \<noteq> []" "w = col @ op_symbol OpIn @ join '', '' (push_all params ?vals) @ '')''" "params' = params @ ?vals"
      using assms col OpIn by (simp_all add: filterSql_def Let_def bad_filter_def split: if_splits)
    show ?thesis
      unfolding v op_symbol_def filter_op.case length_append
      by (rule says_before [OF c says_append [OF says_literals(25) says_before [OF push_all_says says_weaken [OF says_literals(11)]]]])
        (use v(1) in \<open>simp_all add: word_simps\<close>)
  next
    case OpIs
    then show ?thesis
      using assms col unary [OF before_literals(1)] unary [OF before_literals(2)] unary [OF before_literals(3)]
        unary [OF before_literals(4)]
      by (auto simp: filterSql_def Let_def bad_filter_def word_simps split: if_splits)
  qed (use assms col binary [OF literals(17)] binary [OF literals(18)] binary [OF literals(19)] binary [OF literals(20)]
      binary [OF literals(21)] binary [OF literals(22)] binary [OF literals(23)] binary [OF literals(24)]
    in \<open>auto simp: filterSql_def Let_def op_symbol_def word_simps\<close>)
qed

lemma says_joined:
  assumes "says t a b w" "says_all t b b sep" "ends_token sep" "sep \<noteq> []" "ws \<noteq> [] \<Longrightarrow> says t b c (join sep ws)" "ws = [] \<Longrightarrow> b = c"
  shows "says t a c (join sep (w # ws))"
proof (cases ws)
  case Nil
  then show ?thesis using assms by simp
next
  case (Cons v vs)
  then have "says t b c (join sep ws)" using assms(5) by simp
  from says_append [OF says_then [OF assms(1,2,4,3)] this] show ?thesis using Cons by simp
qed

lemma filters_say:
  "filters_sql t fs params = Inr (ws, params') \<Longrightarrow>
   if ws = [] then params' = params else says t (length params) (length params') (join '' AND '' ws)"
proof (induction fs arbitrary: params ws)
  case (Cons f fs)
  then obtain w params1 ws' where w: "filterSql t f params = Inr (w, params1)"
    and ws: "filters_sql t fs params1 = Inr (ws', params')" "ws = w # ws'"
    by (auto simp: and_then_Inr)
  have "says t (length params) (length params') (join '' AND '' (w # ws'))"
    by (rule says_joined [OF filter_says [OF w] says_literals(4)])
      (use Cons.IH [OF ws(1)] in \<open>auto simp: word_simps split: if_splits\<close>)
  then show ?case using ws(2) by simp
qed simp

lemma sort_says: "sort_sql t key = Inr s \<Longrightarrow> says t a a s"
proof -
  assume "sort_sql t key = Inr s"
  then obtain c col desc where "resolveColumn t c = Inr col" and s: "s = col @ '' '' @ (if desc then ''DESC'' else ''ASC'')"
    by (auto simp: sort_sql_def and_then_Inr split: prod.splits)
  from resolveColumn_says [OF this(1)] show ?thesis
    unfolding s
    by (rule says_before [OF _ says_append [OF says_literals(27)]])
      (cases desc; auto intro!: says_ending before_literals simp: word_simps)+
qed

lemma order_says:
  "each (sort_sql t) keys = Inr order \<Longrightarrow> order \<noteq> [] \<Longrightarrow> says t a a (join '', '' order)"
  by (rule says_join_same [OF says_literals(8)])
    (auto simp: each_Inr list_all2_conv_all_nth list_all_length word_simps dest!: sort_says)

lemma placeholders_say:
  "m < n \<Longrightarrow> says t m n (join '', '' (map (\<lambda>i. placeholder (i + 1)) [m..<n]))"
proof (induction "n - m" arbitrary: m)
  case (Suc k)
  then have "[m..<n] = m # [Suc m..<n]" by (simp add: upt_conv_Cons)
  moreover have "says t m n (join '', '' (placeholder (Suc m) # map (\<lambda>i. placeholder (i + 1)) [Suc m..<n]))"
    by (rule says_joined [OF says_placeholder says_literals(8)])
      (use Suc.hyps(1) [of "Suc m"] Suc.hyps(2) Suc.prems in \<open>auto simp: word_simps\<close>)
  ultimately show ?case by simp
qed simp

lemma set_clauses_say:
  "es \<noteq> [] \<Longrightarrow> fst ` set es \<subseteq> own_names t \<Longrightarrow>
   says t m (m + length es) (join '', '' (map set_clause (enumerate m es)))"
proof (induction es arbitrary: m)
  case (Cons e es)
  obtain n v where e: "e = (n, v)" by (cases e)
  have "says t m (Suc m) (set_clause (m, e))"
    unfolding e set_clause_def prod.case
    by (rule says_before [OF says_ident says_append [OF says_literals(17)]])
      (use Cons.prems e says_placeholder in \<open>auto simp: word_simps\<close>)
  moreover have "says t m (m + length (e # es)) (join '', '' (set_clause (m, e) # map set_clause (enumerate (Suc m) es)))"
    by (rule says_joined [OF calculation says_literals(8)])
      (use Cons.IH [of "Suc m"] Cons.prems in \<open>(cases es; simp add: word_simps)+\<close>)
  ultimately show ?case by simp
qed simp

section \<open>Every statement\<close>

datatype data_request =
    ListRequest list_options
  | GetRequest string
  | InsertRequest "(string \<times> json) list"
  | UpdateRequest string "(string \<times> json) list"
  | DeleteRequest string

fun built :: "schema_info \<Rightarrow> string \<Rightarrow> data_request \<Rightarrow> built_query engine_result" where
  "built snapshot ref (ListRequest opts) = buildList snapshot ref opts"
| "built snapshot ref (GetRequest i) = buildGet snapshot ref i"
| "built snapshot ref (InsertRequest body) = buildInsert snapshot ref body"
| "built snapshot ref (UpdateRequest i body) = buildUpdate snapshot ref i body"
| "built snapshot ref (DeleteRequest i) = buildDelete snapshot ref i"

lemma pk_own: "primaryKeyColumn t = Inr pk \<Longrightarrow> pk \<in> own_names t"
  by (auto simp: primaryKeyColumn_def own_names_def split: list.splits if_splits)

lemma writable_entry_name: "writable_entry t e = Inr x \<Longrightarrow> fst x \<in> own_names t"
  by (auto simp: writable_entry_def own_names_def split: prod.splits if_splits json.splits)

lemma writable_names:
  assumes "writableColumns t body = Inr entries"
  shows "fst ` set entries \<subseteq> own_names t \<and> entries \<noteq> []"
proof -
  have l: "list_all2 (\<lambda>e x. writable_entry t e = Inr x) body entries" and "body \<noteq> []"
    using assms by (auto simp: writableColumns_def each_Inr split: if_splits)
  then have "entries \<noteq> []" by auto
  moreover have "fst x \<in> own_names t" if "x \<in> set entries" for x
    using that l by (auto simp: in_set_conv_nth list_all2_conv_all_nth intro: writable_entry_name)
  ultimately show ?thesis by blast
qed

lemma where_pk: "pk \<in> own_names t \<Longrightarrow> says t a (Suc a) ('' WHERE '' @ quoteIdent pk @ '' = '' @ placeholder (Suc a))"
  by (rule says_append [OF says_literals(3) says_before [OF says_ident says_append [OF says_literals(17) says_placeholder]]])
    (simp_all add: word_simps)

lemma list_says:
  assumes "buildList snapshot ref opts = Inr q"
  shows "\<exists>r. resolveTable snapshot ref = Inr r \<and> says (rt_table r) 0 (length (bq_params q)) (bq_text q)"
proof -
  obtain r where r: "resolveTable snapshot ref = Inr r" using assms by (auto simp: buildList_def and_then_Inr)
  obtain cols filters wheres params keys order n offset where
    cols: "select_sql (rt_table r) (lo_select opts) = Inr cols"
    and wheres: "filters_sql (rt_table r) filters [] = Inr (wheres, params)"
    and order: "each (sort_sql (rt_table r)) keys = Inr order"
    and q: "q = \<lparr>bq_text = ''SELECT '' @ join '', '' cols @ '' FROM '' @ rt_qualified r
             @ (if wheres \<noteq> [] then '' WHERE '' @ join '' AND '' wheres else '''')
             @ (if order \<noteq> [] then '' ORDER BY '' @ join '', '' order else '''')
             @ '' LIMIT '' @ placeholder (Suc (length params)) @ '' OFFSET '' @ placeholder (Suc (Suc (length params))),
           bq_params = params @ [JNum n, JNum offset]\<rparr>"
    using assms r by (auto simp: buildList_def and_then_Inr Let_def split: if_splits)
  let ?t = "rt_table r" and ?k = "length params"
  have tail: "says ?t ?k (Suc (Suc ?k)) ('' LIMIT '' @ placeholder (Suc ?k) @ '' OFFSET '' @ placeholder (Suc (Suc ?k)))"
    by (rule says_append [OF says_literals(6) says_before [OF says_placeholder says_append [OF says_literals(7) says_placeholder]]])
      (simp_all add: word_simps)
  have ordered: "says ?t ?k (Suc (Suc ?k)) ((if order \<noteq> [] then '' ORDER BY '' @ join '', '' order else '''') @
      '' LIMIT '' @ placeholder (Suc ?k) @ '' OFFSET '' @ placeholder (Suc (Suc ?k)))"
    (is "says _ _ _ ?ordered")
  proof (cases "order = []")
    case False
    then have "says ?t ?k (Suc (Suc ?k)) ('' ORDER BY '' @ join '', '' order @
        '' LIMIT '' @ placeholder (Suc ?k) @ '' OFFSET '' @ placeholder (Suc (Suc ?k)))"
      by (intro says_append [OF says_literals(5)] says_before [OF order_says [OF order] tail]) (simp_all add: word_simps)
    then show ?thesis using False by simp
  qed (use tail in simp)
  have "says ?t 0 (Suc (Suc ?k)) ((if wheres \<noteq> [] then '' WHERE '' @ join '' AND '' wheres else '''') @ ?ordered)"
  proof (cases "wheres = []")
    case True
    then show ?thesis using ordered filters_say [OF wheres] by simp
  next
    case False
    then have w: "says ?t 0 ?k (join '' AND '' wheres)" using filters_say [OF wheres] by simp
    have "says ?t 0 (Suc (Suc ?k)) ('' WHERE '' @ join '' AND '' wheres @ ?ordered)"
      by (intro says_append [OF says_literals(3)] says_before [OF w ordered]) (simp_all add: word_simps)
    then show ?thesis using False by simp
  qed
  then have "says ?t 0 (Suc (Suc ?k)) (bq_text q)"
    unfolding q built_query.simps
    by (intro says_append [OF says_literals(1)] says_before [OF select_says [OF cols]] says_append [OF says_literals(2)]
        says_before [OF says_qualified [OF r]]) (simp_all add: word_simps)
  then show ?thesis using r q by simp
qed

lemma single_row_says:
  assumes "resolveTable snapshot ref = Inr r" "primaryKeyColumn (rt_table r) = Inr pk" "lexes s toks"
    "list_all (\<lambda>tok. case tok of TWord w \<Rightarrow> w \<in> set SQL_WORDS | TSym c \<Rightarrow> c \<in> set sql_symbols | _ \<Rightarrow> False) toks"
  shows "says (rt_table r) 0 1 (s @ rt_qualified r @ '' WHERE '' @ quoteIdent pk @ '' = $1'')"
proof -
  have "placeholder (Suc 0) = ''$1''" by code_simp
  then have "'' WHERE '' @ quoteIdent pk @ '' = $1'' = '' WHERE '' @ quoteIdent pk @ '' = '' @ placeholder (Suc 0)" by simp
  then show ?thesis
    using says_append [OF says_literal [OF assms(3,4)] says_before [OF says_qualified [OF assms(1)] where_pk [OF pk_own [OF assms(2)]]], of 0]
    by (simp add: word_simps)
qed

lemma built_says:
  assumes "built snapshot ref req = Inr q"
  shows "\<exists>r. resolveTable snapshot ref = Inr r \<and> says (rt_table r) 0 (length (bq_params q)) (bq_text q)"
proof (cases req)
  case (ListRequest opts)
  then show ?thesis using list_says assms by simp
next
  case (GetRequest i)
  have "lexes ''SELECT * FROM '' [TWord ''SELECT'', TSym (CHR ''*''), TWord ''FROM'']" by (simp add: lex_literal)
  then show ?thesis using assms GetRequest single_row_says
    by (fastforce simp: buildGet_def and_then_Inr word_simps)
next
  case (DeleteRequest i)
  then show ?thesis using assms single_row_says [OF _ _ literals(26)]
    by (fastforce simp: buildDelete_def and_then_Inr word_simps)
next
  case (InsertRequest body)
  then obtain r entries where r: "resolveTable snapshot ref = Inr r" and e: "writableColumns (rt_table r) body = Inr entries"
    and q: "q = \<lparr>bq_text = ''INSERT INTO '' @ rt_qualified r @ '' ('' @ join '', '' (map (\<lambda>(n, _). quoteIdent n) entries)
         @ '') VALUES ('' @ join '', '' (map (\<lambda>i. placeholder (i + 1)) [0..<length entries]) @ '') RETURNING *'',
       bq_params = map snd entries\<rparr>"
    using assms by (auto simp: buildInsert_def and_then_Inr)
  have "says (rt_table r) 0 0 (join '', '' (map (\<lambda>(n, _). quoteIdent n) entries))"
    by (rule says_join_same [OF says_literals(8)])
      (use writable_names [OF e] in \<open>auto simp: word_simps list_all_iff intro!: says_ident\<close>)
  then have "says (rt_table r) 0 (length entries) (bq_text q)"
    unfolding q built_query.simps
    by (intro says_append [OF says_literals(12)] says_before [OF says_qualified [OF r]] says_append [OF says_literals(13)]
        says_before [OF _ says_append [OF says_literals(14) says_before [OF placeholders_say says_weaken [OF says_literals(29)]]]])
      (use writable_names [OF e] in \<open>simp_all add: word_simps\<close>)
  then show ?thesis using r q by simp
next
  case (UpdateRequest i body)
  then obtain r pk all_entries entries where r: "resolveTable snapshot ref = Inr r" and pk: "primaryKeyColumn (rt_table r) = Inr pk"
    and a: "writableColumns (rt_table r) body = Inr all_entries" and e: "entries = filter (\<lambda>(n, _). n \<noteq> pk) all_entries" "entries \<noteq> []"
    and q: "q = \<lparr>bq_text = ''UPDATE '' @ rt_qualified r @ '' SET '' @ join '', '' (map set_clause (enumerate 0 entries))
           @ '' WHERE '' @ quoteIdent pk @ '' = '' @ placeholder (length entries + 1) @ '' RETURNING *'',
         bq_params = map snd entries @ [JStr i]\<rparr>"
    using assms by (auto simp: buildUpdate_def and_then_Inr Let_def split: if_splits)
  have names: "fst ` set entries \<subseteq> own_names (rt_table r)" using writable_names [OF a] e(1) by auto
  have "says (rt_table r) (length entries) (Suc (length entries)) ('' WHERE '' @ quoteIdent pk @ '' = '' @
      placeholder (Suc (length entries)) @ '' RETURNING *'')"
    using says_before [OF where_pk [OF pk_own [OF pk]] says_weaken [OF says_literals(28)], of "length entries"]
    by (simp add: word_simps)
  then have "says (rt_table r) 0 (Suc (length entries)) (bq_text q)"
    unfolding q built_query.simps
    by (intro says_append [OF says_literals(15)] says_before [OF says_qualified [OF r]] says_append [OF says_literals(16)]
        says_before [OF set_clauses_say [where m = 0]])
      (use names e(2) in \<open>simp_all add: word_simps\<close>)
  then show ?thesis using r q by simp
qed

text \<open>C31. The data API cannot be made to say anything else: read the way a database reads it, every statement the builders
  return for a table reference, whatever options, identifiers and bodies the request holds, consists of the words and
  signs of SQL the builders use, of the quoted names of the one table that was resolved (its schema, its own name, its
  columns) and of placeholders numbered from one to the number of parameters, each once and in order; the values of
  the request travel as parameters only.\<close>

theorem statements_are_templates:
  assumes "built snapshot ref req = Inr q"
  shows "\<exists>r toks. resolveTable snapshot ref = Inr r \<and> rt_table r \<in> set (si_tables snapshot) \<and>
    sql_lex (bq_text q) = Some toks \<and> list_all (token_ok (rt_table r)) toks \<and>
    params_of toks = [1..<Suc (length (bq_params q))]"
  using built_says [OF assms] says_text resolveTable_Inr by blast

definition sample_table :: table_info where
  "sample_table = \<lparr>ti_schema = ''public'', ti_name = ''notes'',
     ti_columns = map (\<lambda>n. \<lparr>co_name = n, co_dataType = ''text'', co_nullable = True, co_defaultValue = None\<rparr>) [''id'', ''body''],
     ti_primaryKeys = [''id''], ti_indexes = []\<rparr>"

definition sample_schema :: schema_info where
  "sample_schema = \<lparr>si_tables = [sample_table], si_foreignKeys = []\<rparr>"

definition sample_list :: list_options where
  "sample_list = \<lparr>lo_select = Some ''id, body'', lo_filters = [''body=eq.x'' @ [CHR 0x27] @ '' OR 1=1 --'', ''id=in.1,2''],
     lo_order = Some ''id.desc'', lo_limit = None, lo_offset = None, lo_maxLimit = None\<rparr>"

theorem statements_are_templates_witness:
  "\<exists>q. built sample_schema ''notes'' (ListRequest sample_list) = Inr q \<and>
     bq_params q = [JStr (''x'' @ [CHR 0x27] @ '' OR 1=1 --''), JStr ''1'', JStr ''2'', JNum 20, JNum 0] \<and>
     (\<exists>r toks. resolveTable sample_schema ''notes'' = Inr r \<and> sql_lex (bq_text q) = Some toks \<and>
        list_all (token_ok (rt_table r)) toks \<and> params_of toks = [1..<6])"
proof -
  define q where "q = (case built sample_schema ''notes'' (ListRequest sample_list) of Inr q \<Rightarrow> q | Inl _ \<Rightarrow> \<lparr>bq_text = [], bq_params = []\<rparr>)"
  have b: "built sample_schema ''notes'' (ListRequest sample_list) = Inr q"
    unfolding q_def by code_simp
  moreover have "bq_params q = [JStr (''x'' @ [CHR 0x27] @ '' OR 1=1 --''), JStr ''1'', JStr ''2'', JNum 20, JNum 0]"
    unfolding q_def by code_simp
  ultimately show ?thesis using statements_are_templates [OF b] by (auto simp del: upt_Suc simp: numeral_eq_Suc)
qed

text \<open>A list of more than fifty values is cut short without an error.\<close>

lemma long_in_list_is_cut:
  "case_sum (\<lambda>_. 0) (\<lambda>(_, params). length params)
     (filterSql sample_table \<lparr>qf_column = ''id'', qf_op = OpIn, qf_value = concat (replicate 60 ''7,'')\<rparr> []) = 50"
  by code_simp

end
