(* ===== verification/DataKeys.thy ===== *)
theory DataKeys
  imports AuthPrimitives AgentApprovals
begin

text \<open>
  The API keys of a project (\<open>packages/api-engine/src/keys.ts\<close>): the memory store, issuing and verifying.  Arguments:
  \<open>sha\<close>, the hexadecimal SHA-256, and the text \<open>rnd\<close> drawn for a key.  Of an expiry date \<open>Some None\<close> is a text that
  \<open>Date.parse\<close> cannot read.
\<close>

section \<open>Keys and their store\<close>

datatype key_role = PublicKey | ServiceKey | AdminKey

record project_key =
  pk_id :: string
  pk_projectId :: string
  pk_organizationId :: string
  pk_name :: string
  pk_prefix :: string
  pk_hash :: string
  pk_role :: key_role
  pk_scopes :: "string list"
  pk_expiresAt :: "instant option"
  pk_revokedAt :: "instant option"
  pk_requestCount :: nat
  pk_lastUsedAt :: "instant option"
  pk_createdBy :: string
  pk_createdAt :: instant

text \<open>The exposed shape: a record without its hash.\<close>

record exposed_key =
  xk_id :: string
  xk_projectId :: string
  xk_organizationId :: string
  xk_name :: string
  xk_prefix :: string
  xk_role :: key_role
  xk_scopes :: "string list"
  xk_expiresAt :: "instant option"
  xk_revokedAt :: "instant option"
  xk_requestCount :: nat
  xk_lastUsedAt :: "instant option"
  xk_createdBy :: string
  xk_createdAt :: instant

definition exposeKey :: "project_key \<Rightarrow> exposed_key" where
  "exposeKey k = \<lparr>xk_id = pk_id k, xk_projectId = pk_projectId k, xk_organizationId = pk_organizationId k,
     xk_name = pk_name k, xk_prefix = pk_prefix k, xk_role = pk_role k, xk_scopes = pk_scopes k,
     xk_expiresAt = pk_expiresAt k, xk_revokedAt = pk_revokedAt k, xk_requestCount = pk_requestCount k,
     xk_lastUsedAt = pk_lastUsedAt k, xk_createdBy = pk_createdBy k, xk_createdAt = pk_createdAt k\<rparr>"

datatype key_code = KE_INVALID_ROLE | KE_INVALID_NAME | KE_INVALID_EXPIRY | KE_INVALID_KEY | KE_KEY_REVOKED | KE_KEY_EXPIRED

datatype key_error = KeyFail key_code nat

record key_state =
  ks_keys :: "(string, project_key) jsmap"
  ks_counter :: nat

definition key_save :: "project_key \<Rightarrow> key_state \<Rightarrow> project_key \<times> key_state" where
  "key_save k s = (k, s\<lparr>ks_keys := js_set (pk_id k) k (ks_keys s)\<rparr>)"

definition findByHash :: "string \<Rightarrow> key_state \<Rightarrow> project_key option" where
  "findByHash h s = find (\<lambda>k. pk_hash k = h) (js_values (ks_keys s))"

definition listByProject :: "string \<Rightarrow> key_state \<Rightarrow> exposed_key list" where
  "listByProject p s = map exposeKey (filter (\<lambda>k. pk_projectId k = p) (js_values (ks_keys s)))"

definition key_revoke :: "instant \<Rightarrow> string \<Rightarrow> key_state \<Rightarrow> exposed_key option \<times> key_state" where
  "key_revoke now i s =
     (case js_get (ks_keys s) i of None \<Rightarrow> (None, s)
      | Some k \<Rightarrow> if pk_revokedAt k \<noteq> None then (None, s)
          else let k' = k\<lparr>pk_revokedAt := Some now\<rparr> in
            (Some (exposeKey k'), s\<lparr>ks_keys := js_set i k' (ks_keys s)\<rparr>))"

definition key_touch :: "instant \<Rightarrow> string \<Rightarrow> key_state \<Rightarrow> key_state" where
  "key_touch now i s =
     (case js_get (ks_keys s) i of None \<Rightarrow> s
      | Some k \<Rightarrow> s\<lparr>ks_keys := js_set i (k\<lparr>pk_requestCount := pk_requestCount k + 1, pk_lastUsedAt := Some now\<rparr>) (ks_keys s)\<rparr>)"

section \<open>Issuing and verifying\<close>

record key_input =
  ki_projectId :: string
  ki_organizationId :: string
  ki_name :: string
  ki_role :: "key_role option"
  ki_scopes :: "string list option"
  ki_expiresAt :: "instant option option"
  ki_createdBy :: string

definition key_expiry :: "instant \<Rightarrow> instant option option \<Rightarrow> key_error + instant option" where
  "key_expiry now e = (case e of None \<Rightarrow> Inr None
     | Some None \<Rightarrow> Inl (KeyFail KE_INVALID_EXPIRY 400)
     | Some (Some t) \<Rightarrow> if t \<le> now then Inl (KeyFail KE_INVALID_EXPIRY 400) else Inr (Some t))"

definition new_key :: "(string \<Rightarrow> string) \<Rightarrow> instant \<Rightarrow> string \<Rightarrow> key_input \<Rightarrow> key_role \<Rightarrow> instant option \<Rightarrow> nat \<Rightarrow> project_key" where
  "new_key sha now rnd input role expires counter = (let pair = createApiKey sha rnd in
     \<lparr>pk_id = counter_id ''key_'' now counter, pk_projectId = ki_projectId input,
       pk_organizationId = ki_organizationId input, pk_name = ki_name input, pk_prefix = kp_prefix pair,
       pk_hash = kp_hash pair, pk_role = role,
       pk_scopes = (case ki_scopes input of Some l \<Rightarrow> l | None \<Rightarrow> []), pk_expiresAt = expires,
       pk_revokedAt = None, pk_requestCount = 0, pk_lastUsedAt = None, pk_createdBy = ki_createdBy input,
       pk_createdAt = now\<rparr>)"

text \<open>A role outside \<open>KEY_ROLES\<close> is \<open>None\<close>.\<close>

definition issueKey :: "(string \<Rightarrow> string) \<Rightarrow> instant \<Rightarrow> string \<Rightarrow> key_input \<Rightarrow> key_state \<Rightarrow>
    (key_error + exposed_key \<times> string) \<times> key_state" where
  "issueKey sha now rnd input s =
     (case ki_role input of None \<Rightarrow> (Inl (KeyFail KE_INVALID_ROLE 400), s)
      | Some role \<Rightarrow>
        if ki_name input = '''' \<or> length (ki_name input) > 100 then (Inl (KeyFail KE_INVALID_NAME 400), s)
        else case key_expiry now (ki_expiresAt input) of Inl e \<Rightarrow> (Inl e, s)
          | Inr expires \<Rightarrow>
            let counter = ks_counter s + 1;
                (k, t) = key_save (new_key sha now rnd input role expires counter) (s\<lparr>ks_counter := counter\<rparr>) in
            (Inr (exposeKey k, kp_raw (createApiKey sha rnd)), t))"

definition hashApiKey :: "(string \<Rightarrow> string) \<Rightarrow> string \<Rightarrow> string" where
  "hashApiKey sha raw = sha raw"

definition verifyKey :: "(string \<Rightarrow> string) \<Rightarrow> instant \<Rightarrow> string \<Rightarrow> key_state \<Rightarrow> key_error + project_key" where
  "verifyKey sha now raw s =
     (if raw = '''' \<or> length raw > 200 then Inl (KeyFail KE_INVALID_KEY 401)
      else case findByHash (hashApiKey sha raw) s of None \<Rightarrow> Inl (KeyFail KE_INVALID_KEY 401)
        | Some k \<Rightarrow>
            if pk_revokedAt k \<noteq> None then Inl (KeyFail KE_KEY_REVOKED 403)
            else if (case pk_expiresAt k of None \<Rightarrow> False | Some e \<Rightarrow> e \<le> now) then Inl (KeyFail KE_KEY_EXPIRED 401)
            else Inr k)"

definition keyCanWrite :: "key_role \<Rightarrow> bool" where
  "keyCanWrite role \<longleftrightarrow> role = ServiceKey \<or> role = AdminKey"

section \<open>Runs\<close>

datatype key_request = IssueKey instant string key_input | RevokeKey instant string | TouchKey instant string

fun key_step :: "(string \<Rightarrow> string) \<Rightarrow> key_request \<Rightarrow> key_state \<Rightarrow> key_state" where
  "key_step sha (IssueKey now rnd input) s = snd (issueKey sha now rnd input s)"
| "key_step sha (RevokeKey now i) s = snd (key_revoke now i s)"
| "key_step sha (TouchKey now i) s = key_touch now i s"

definition key_run :: "(string \<Rightarrow> string) \<Rightarrow> key_request list \<Rightarrow> key_state \<Rightarrow> key_state" where
  "key_run sha reqs s = fold (key_step sha) reqs s"

definition no_keys :: key_state where
  "no_keys = \<lparr>ks_keys = [], ks_counter = 0\<rparr>"

text \<open>Every record sits under its identifier, which an earlier call drew.\<close>

definition keys_ok :: "key_state \<Rightarrow> bool" where
  "keys_ok s \<longleftrightarrow> js_ok (ks_keys s) \<and>
     (\<forall>i k. js_get (ks_keys s) i = Some k \<longrightarrow> pk_id k = i \<and> (\<exists>now n. i = counter_id ''key_'' now n \<and> n \<le> ks_counter s))"

lemma keys_ok_get: "keys_ok s \<Longrightarrow> js_get (ks_keys s) i = Some k \<Longrightarrow> pk_id k = i"
  by (simp add: keys_ok_def)

lemma keys_ok_fresh: "keys_ok s \<Longrightarrow> js_get (ks_keys s) (counter_id ''key_'' now (Suc (ks_counter s))) = None"
proof (rule ccontr)
  assume "keys_ok s" and "js_get (ks_keys s) (counter_id ''key_'' now (Suc (ks_counter s))) \<noteq> None"
  then obtain now' n where "counter_id ''key_'' now (Suc (ks_counter s)) = counter_id ''key_'' now' n" "n \<le> ks_counter s"
    by (fastforce simp: keys_ok_def)
  then show False using counter_id_inj by fastforce
qed

text \<open>What a request leaves of a key: it stays under its identifier with its hash, project, role and expiry, and revoked if it was.\<close>

definition key_kept :: "project_key \<Rightarrow> project_key \<Rightarrow> bool" where
  "key_kept k k' \<longleftrightarrow> pk_id k' = pk_id k \<and> pk_hash k' = pk_hash k \<and> pk_projectId k' = pk_projectId k \<and>
     pk_role k' = pk_role k \<and> pk_expiresAt k' = pk_expiresAt k \<and> (pk_revokedAt k \<noteq> None \<longrightarrow> pk_revokedAt k' = pk_revokedAt k)"

definition keys_grow :: "key_state \<Rightarrow> key_state \<Rightarrow> bool" where
  "keys_grow s t \<longleftrightarrow> (\<forall>i k. js_get (ks_keys s) i = Some k \<longrightarrow> (\<exists>k'. js_get (ks_keys t) i = Some k' \<and> key_kept k k'))"

lemma keys_grow_refl: "keys_grow s s"
  by (simp add: keys_grow_def key_kept_def)

lemma key_kept_trans: "key_kept k l \<Longrightarrow> key_kept l m \<Longrightarrow> key_kept k m"
  by (auto simp: key_kept_def)

lemma keys_grow_trans: "keys_grow s t \<Longrightarrow> keys_grow t u \<Longrightarrow> keys_grow s u"
  unfolding keys_grow_def by (meson key_kept_trans)

lemma new_key_fields:
  "pk_id (new_key sha now rnd input role e n) = counter_id ''key_'' now n" "pk_revokedAt (new_key sha now rnd input role e n) = None"
  by (simp_all add: new_key_def Let_def)

lemma issue_step:
  "snd (issueKey sha now rnd input s) = s \<or>
   (\<exists>k. pk_id k = counter_id ''key_'' now (Suc (ks_counter s)) \<and>
      snd (issueKey sha now rnd input s) = \<lparr>ks_keys = js_set (pk_id k) k (ks_keys s), ks_counter = Suc (ks_counter s)\<rparr>)"
proof (cases "snd (issueKey sha now rnd input s) = s")
  case False
  then obtain role e where "snd (issueKey sha now rnd input s) =
      snd (key_save (new_key sha now rnd input role e (Suc (ks_counter s))) (s\<lparr>ks_counter := Suc (ks_counter s)\<rparr>))"
    by (auto simp: issueKey_def Let_def case_prod_beta split: option.splits sum.splits if_splits)
  then show ?thesis
    by (intro disjI2 exI [of _ "new_key sha now rnd input role e (Suc (ks_counter s))"])
      (simp add: key_save_def new_key_fields)
qed simp

lemma key_step_ok:
  assumes "keys_ok s"
  shows "keys_ok (key_step sha req s) \<and> keys_grow s (key_step sha req s)"
proof (cases req)
  case (IssueKey now rnd input)
  from issue_step [of sha now rnd input s] consider "key_step sha req s = s"
    | k where "pk_id k = counter_id ''key_'' now (Suc (ks_counter s))"
      "key_step sha req s = \<lparr>ks_keys = js_set (pk_id k) k (ks_keys s), ks_counter = Suc (ks_counter s)\<rparr>"
    unfolding IssueKey key_step.simps by blast
  then show ?thesis
  proof cases
    case 2
    have "keys_ok (key_step sha req s)"
      using assms 2 by (auto simp: keys_ok_def js_get_set js_ok_set intro: le_SucI) (metis le_SucI)
    moreover have "keys_grow s (key_step sha req s)"
      using keys_ok_fresh [OF assms, of now] 2 by (auto simp: keys_grow_def key_kept_def js_get_set)
    ultimately show ?thesis ..
  qed (use assms keys_grow_refl in simp)
next
  case (RevokeKey now i)
  then show ?thesis using assms keys_grow_refl
    by (auto simp: key_revoke_def Let_def keys_ok_def keys_grow_def key_kept_def js_get_set js_ok_set split: option.splits)
next
  case (TouchKey now i)
  then show ?thesis using assms keys_grow_refl
    by (auto simp: key_touch_def keys_ok_def keys_grow_def key_kept_def js_get_set js_ok_set split: option.splits)
qed

lemma key_run_ok: "keys_ok s \<Longrightarrow> keys_ok (key_run sha reqs s) \<and> keys_grow s (key_run sha reqs s)"
proof (induction reqs arbitrary: s)
  case (Cons req reqs)
  have "keys_ok (key_step sha req s)" "keys_grow s (key_step sha req s)" using key_step_ok [OF Cons.prems] by simp_all
  then show ?case using Cons.IH keys_grow_trans by (simp add: key_run_def)
qed (simp add: key_run_def keys_grow_refl)

lemma no_keys_ok: "keys_ok no_keys"
  by (simp add: keys_ok_def no_keys_def js_ok_def)

lemma verifyKey_Inr:
  "verifyKey sha now raw s = Inr k \<Longrightarrow> k \<in> set (js_values (ks_keys s)) \<and> pk_hash k = sha raw \<and> pk_revokedAt k = None \<and>
     (\<forall>e. pk_expiresAt k = Some e \<longrightarrow> now < e)"
  by (auto simp: verifyKey_def findByHash_def hashApiKey_def split: if_splits option.splits dest!: find_Some_in)

text \<open>C32. An API key works only while it lives: in every state a run of the key service reaches, the secret that verifies is
  the one whose hash the record holds, and the record is neither revoked nor past its expiry; and once a key is revoked,
  no secret verifies as it again, whatever requests follow.\<close>

theorem revoked_key_stays_dead:
  assumes "js_get (ks_keys (key_run sha reqs no_keys)) i = Some k" and "pk_revokedAt k \<noteq> None"
    and "verifyKey sha now raw (key_run sha (reqs @ later) no_keys) = Inr k'"
  shows "pk_id k' \<noteq> i \<and> pk_hash k' = sha raw \<and> pk_revokedAt k' = None \<and> (\<forall>e. pk_expiresAt k' = Some e \<longrightarrow> now < e)"
proof -
  let ?s = "key_run sha reqs no_keys" and ?t = "key_run sha (reqs @ later) no_keys"
  have s: "keys_ok ?s" using key_run_ok [OF no_keys_ok] by simp
  have t: "?t = key_run sha later ?s" by (simp add: key_run_def)
  have ok: "keys_ok ?t" "keys_grow ?s ?t" unfolding t using key_run_ok [OF s] by simp_all
  have v: "k' \<in> set (js_values (ks_keys ?t))" "pk_hash k' = sha raw" "pk_revokedAt k' = None"
    "\<forall>e. pk_expiresAt k' = Some e \<longrightarrow> now < e" using verifyKey_Inr [OF assms(3)] by simp_all
  obtain j where j: "js_get (ks_keys ?t) j = Some k'"
    using ok(1) v(1) by (auto simp: keys_ok_def js_ok_def dest!: map_of_is_SomeI)
  then have "pk_id k' = j" by (rule keys_ok_get [OF ok(1)])
  moreover obtain k'' where k'': "js_get (ks_keys ?t) i = Some k''" "key_kept k k''"
    using ok(2) assms(1) unfolding keys_grow_def by blast
  then have "pk_revokedAt k'' \<noteq> None" using assms(2) by (simp add: key_kept_def)
  then have "j \<noteq> i" using j k''(1) v(3) by auto
  ultimately show ?thesis using v by simp
qed

definition sample_key_input :: key_input where
  "sample_key_input = \<lparr>ki_projectId = ''p1'', ki_organizationId = ''o1'', ki_name = ''web'', ki_role = Some ServiceKey,
     ki_scopes = None, ki_expiresAt = Some (Some 900), ki_createdBy = ''u1''\<rparr>"

definition sample_key_id :: "instant \<Rightarrow> nat \<Rightarrow> string" where
  "sample_key_id now n = counter_id ''key_'' now n"

theorem revoked_key_stays_dead_witness:
  "(case verifyKey (\<lambda>x. x) 30 ''cn_b'' (key_run (\<lambda>x. x) ([IssueKey 10 ''a'' sample_key_input, RevokeKey 20 (sample_key_id 10 1)] @
      [IssueKey 25 ''b'' sample_key_input]) no_keys) of
     Inr k \<Rightarrow> pk_id k \<noteq> sample_key_id 10 1 \<and> pk_hash k = ''cn_b'' | Inl _ \<Rightarrow> False)"
proof -
  let ?reqs = "[IssueKey 10 ''a'' sample_key_input, RevokeKey 20 (sample_key_id 10 1)]" and ?later = "[IssueKey 25 ''b'' sample_key_input]"
  define k where "k = the (js_get (ks_keys (key_run (\<lambda>x. x) ?reqs no_keys)) (sample_key_id 10 1))"
  define k' where "k' = (case verifyKey (\<lambda>x. x) 30 ''cn_b'' (key_run (\<lambda>x. x) (?reqs @ ?later) no_keys) of Inr x \<Rightarrow> x | Inl _ \<Rightarrow> k)"
  have "js_get (ks_keys (key_run (\<lambda>x. x) ?reqs no_keys)) (sample_key_id 10 1) = Some k" unfolding k_def by code_simp
  moreover have "pk_revokedAt k \<noteq> None" unfolding k_def by code_simp
  moreover have v: "verifyKey (\<lambda>x. x) 30 ''cn_b'' (key_run (\<lambda>x. x) (?reqs @ ?later) no_keys) = Inr k'" unfolding k'_def by code_simp
  ultimately show ?thesis using revoked_key_stays_dead [of "\<lambda>x. x" ?reqs "sample_key_id 10 1" k 30 "''cn_b''" ?later k'] by simp
qed

end
