(* ===== verification/RealtimeFrames.thy ===== *)
theory RealtimeFrames
  imports AuthTotp WebAuthn
begin

text \<open>
  The WebSocket codec (\<open>packages/realtime/src/protocol.ts\<close>) on bytes, and how a socket turns the chunks it receives into
  messages (\<open>TcpSocket.feed\<close> of \<open>server.ts\<close>, run to its end for one chunk before the next).  Lengths are integers.  SHA-1
  is an argument.
\<close>

section \<open>Frames\<close>

datatype ws_opcode = WsText | WsBinary | WsContinuation | WsClose | WsPing | WsPong

record ws_frame =
  wf_opcode :: ws_opcode
  wf_payload :: "byte list"
  wf_fin :: bool

datatype ws_error = WsProtocolError

type_synonym 'a ws_result = "ws_error + 'a"

definition WS_GUID :: string where
  "WS_GUID = ''258EAFA5-E914-47DA-95CA-C5AB0DC85B11''"

definition acceptKey :: "(byte list \<Rightarrow> byte list) \<Rightarrow> string \<Rightarrow> string" where
  "acceptKey sha1 clientKey = base64 (sha1 (ascii_bytes (js_trim clientKey @ WS_GUID)))"

definition opcodeOf :: "byte \<Rightarrow> ws_opcode ws_result" where
  "opcodeOf b = (let n = uint b mod 16 in
     if n = 0 then Inr WsContinuation else if n = 1 then Inr WsText else if n = 2 then Inr WsBinary
     else if n = 8 then Inr WsClose else if n = 9 then Inr WsPing else if n = 10 then Inr WsPong
     else Inl WsProtocolError)"

definition opcodeByte :: "ws_opcode \<Rightarrow> int" where
  "opcodeByte p = (case p of WsText \<Rightarrow> 1 | WsContinuation \<Rightarrow> 0 | WsBinary \<Rightarrow> 2 | WsClose \<Rightarrow> 8 | WsPing \<Rightarrow> 9 | WsPong \<Rightarrow> 10)"

definition control_opcode :: "ws_opcode \<Rightarrow> bool" where
  "control_opcode p \<longleftrightarrow> p = WsClose \<or> p = WsPing \<or> p = WsPong"

text \<open>\<open>writeUInt16BE\<close>, \<open>writeUInt32BE\<close> and back; the high bit of a byte.\<close>

definition be16 :: "int \<Rightarrow> byte list" where
  "be16 n = [word_of_int (n div 256), word_of_int (n mod 256)]"

definition be32 :: "int \<Rightarrow> byte list" where
  "be32 n = be16 (n div 65536) @ be16 (n mod 65536)"

definition be_uint :: "byte list \<Rightarrow> int" where
  "be_uint bs = foldl (\<lambda>n b. n * 256 + uint b) 0 bs"

definition high_bit :: "byte \<Rightarrow> bool" where
  "high_bit b \<longleftrightarrow> 128 \<le> uint b"

definition first_byte :: "ws_opcode \<Rightarrow> bool \<Rightarrow> byte" where
  "first_byte p fin = word_of_int ((if fin then 128 else 0) + opcodeByte p)"

text \<open>\<open>writeUInt32BE\<close> throws on a length that does not fit.\<close>

definition frame_length_bytes :: "int \<Rightarrow> int \<Rightarrow> byte list option" where
  "frame_length_bytes flag n =
     (if n < 126 then Some [word_of_int (flag + n)]
      else if n < 65536 then Some (word_of_int (flag + 126) # be16 n)
      else if n < 4294967296 then Some (word_of_int (flag + 127) # be32 0 @ be32 n)
      else None)"

definition encodeFrame :: "ws_opcode \<Rightarrow> byte list \<Rightarrow> bool \<Rightarrow> byte list option" where
  "encodeFrame p body fin =
     map_option (\<lambda>len. first_byte p fin # len @ body) (frame_length_bytes 0 (int (length body)))"

definition xor_mask :: "byte list \<Rightarrow> byte list \<Rightarrow> byte list" where
  "xor_mask key bs = map (\<lambda>(i, b). xor b (key ! (i mod 4))) (enumerate 0 bs)"

definition encodeMaskedFrame :: "ws_opcode \<Rightarrow> string \<Rightarrow> byte list ws_result" where
  "encodeMaskedFrame p payload =
     (let body = ascii_bytes payload; key = [0x12, 0x34, 0x56, 0x78] in
      if 126 \<le> int (length body) then Inl WsProtocolError
      else Inr (first_byte p True # word_of_int (128 + int (length body)) # key @ xor_mask key body))"

section \<open>Decoding\<close>

text \<open>The header of a frame: its length and that of its payload, \<open>None\<close> when bytes are missing.\<close>

definition frame_length :: "int \<Rightarrow> byte list \<Rightarrow> (nat \<times> int) option ws_result" where
  "frame_length len7 chunk =
     (if len7 = 126 then
        (if length chunk < 4 then Inr None else Inr (Some (4, be_uint (take 2 (drop 2 chunk)))))
      else if len7 = 127 then
        (if length chunk < 10 then Inr None
         else let hi = be_uint (take 4 (drop 2 chunk)); lo = be_uint (take 4 (drop 6 chunk)) in
           if hi \<noteq> 0 \<or> lo > 67108864 then Inl WsProtocolError else Inr (Some (10, lo)))
      else Inr (Some (2, len7)))"

text \<open>The body of the loop at the head of the chunk: \<open>None\<close> for an incomplete frame, else the frame and what follows it.\<close>

definition frame_body :: "int \<Rightarrow> ws_opcode \<Rightarrow> bool \<Rightarrow> bool \<Rightarrow> nat \<times> int \<Rightarrow> byte list \<Rightarrow> (ws_frame \<times> byte list) option ws_result" where
  "frame_body maxPayload p fin masked header chunk = (case header of (h, n) \<Rightarrow>
     let start = h + (if masked then 4 else 0) in
     if int (length chunk) < int start + n then Inr None
     else if n > maxPayload then Inl WsProtocolError
     else if control_opcode p \<and> n > 125 then Inl WsProtocolError
     else let body = take (nat n) (drop start chunk);
              payload = (if masked then xor_mask (take 4 (drop h chunk)) body else body) in
       Inr (Some (\<lparr>wf_opcode = p, wf_payload = payload, wf_fin = fin\<rparr>, drop (start + nat n) chunk)))"

definition decode_frame :: "int \<Rightarrow> byte list \<Rightarrow> (ws_frame \<times> byte list) option ws_result" where
  "decode_frame maxPayload chunk =
     (case chunk of b0 # b1 # _ \<Rightarrow>
        and_then (opcodeOf b0) (\<lambda>p.
        if control_opcode p \<and> \<not> high_bit b0 then Inl WsProtocolError
        else and_then (frame_length (uint b1 mod 128) chunk) (\<lambda>header.
          case header of None \<Rightarrow> Inr None
          | Some hn \<Rightarrow> frame_body maxPayload p (high_bit b0) (high_bit b1) hn chunk))
      | _ \<Rightarrow> Inr None)"

lemma frame_length_pos: "frame_length n chunk = Inr (Some (h, m)) \<Longrightarrow> 2 \<le> h"
  by (auto simp: frame_length_def Let_def split: if_splits)

lemma frame_body_Some:
  "frame_body m p fin masked (h, n) chunk = Inr (Some (f, r)) \<longleftrightarrow>
   int (h + (if masked then 4 else 0)) + n \<le> int (length chunk) \<and> n \<le> m \<and> (control_opcode p \<longrightarrow> n \<le> 125) \<and>
   r = drop (h + (if masked then 4 else 0) + nat n) chunk \<and>
   f = \<lparr>wf_opcode = p, wf_payload =
        (if masked then xor_mask (take 4 (drop h chunk)) (take (nat n) (drop (h + 4) chunk)) else take (nat n) (drop h chunk)),
      wf_fin = fin\<rparr>"
  unfolding frame_body_def Let_def by (cases masked) auto

lemma decode_frame_Some:
  "decode_frame m chunk = Inr (Some (f, r)) \<longleftrightarrow>
   (\<exists>b0 b1 t p h n. chunk = b0 # b1 # t \<and> opcodeOf b0 = Inr p \<and> (control_opcode p \<longrightarrow> high_bit b0) \<and>
      frame_length (uint b1 mod 128) chunk = Inr (Some (h, n)) \<and>
      frame_body m p (high_bit b0) (high_bit b1) (h, n) chunk = Inr (Some (f, r)))"
  by (auto simp: decode_frame_def and_then_Inr split: list.splits if_splits option.splits)

lemma decode_frame_shorter: "decode_frame m chunk = Inr (Some (f, rest)) \<Longrightarrow> length rest < length chunk"
  by (auto simp: decode_frame_Some frame_body_Some dest!: frame_length_pos)

function ws_decode_loop :: "int \<Rightarrow> int \<Rightarrow> byte list \<Rightarrow> (ws_frame list \<times> byte list \<times> int) ws_result" where
  "ws_decode_loop maxPayload buffered chunk =
     (case decode_frame maxPayload chunk of
        Inl e \<Rightarrow> Inl e
      | Inr None \<Rightarrow> Inr ([], chunk, buffered)
      | Inr (Some (f, rest)) \<Rightarrow>
          if buffered + int (length (wf_payload f)) > maxPayload then Inl WsProtocolError
          else (case ws_decode_loop maxPayload (buffered + int (length (wf_payload f))) rest of
              Inl e \<Rightarrow> Inl e | Inr (fs, r, n) \<Rightarrow> Inr (f # fs, r, n)))"
  by pat_completeness auto
termination
  by (relation "measure (\<lambda>(_, _, chunk). length chunk)") (auto dest: decode_frame_shorter)

declare ws_decode_loop.simps [simp del]

definition decodeFrames :: "byte list \<Rightarrow> int \<Rightarrow> (ws_frame list \<times> byte list \<times> int) ws_result" where
  "decodeFrames chunk maxPayload = ws_decode_loop maxPayload 0 chunk"

section \<open>A socket (server.ts)\<close>

record ws_socket =
  wk_dead :: bool
  wk_tail :: "byte list"
  wk_fragments :: "(byte list list \<times> int) option"

datatype ws_event = WsMessage string | WsReply "byte list" | WsDestroy | WsFailed

text \<open>One decoded frame: the events it causes, the socket after it, and whether the loop goes on.\<close>

definition feed_frame :: "int \<Rightarrow> ws_frame \<Rightarrow> ws_socket \<Rightarrow> ws_event list \<times> ws_socket \<times> bool" where
  "feed_frame maxPayload f s =
     (let pl = wf_payload f in
      case wf_opcode f of
        WsClose \<Rightarrow> ([WsDestroy], s\<lparr>wk_dead := True\<rparr>, False)
      | WsPing \<Rightarrow> ([WsReply pl], s, True)
      | WsPong \<Rightarrow> ([], s, True)
      | WsBinary \<Rightarrow> ([], s, True)
      | p \<Rightarrow>
          if \<not> wf_fin f then
            (case wk_fragments s of
               None \<Rightarrow> if p = WsText then ([], s\<lparr>wk_fragments := Some ([pl], int (length pl))\<rparr>, True) else ([WsFailed], s, False)
             | Some (parts, n) \<Rightarrow>
                 if p = WsText then ([WsFailed], s, False)
                 else let s' = s\<lparr>wk_fragments := Some (parts @ [pl], n + int (length pl))\<rparr> in
                   if n + int (length pl) > maxPayload then ([WsFailed], s', False) else ([], s', True))
          else (case wk_fragments s of
               Some (parts, _) \<Rightarrow>
                 if p \<noteq> WsContinuation then ([WsFailed], s, False)
                 else ([WsMessage (utf8_text (concat (parts @ [pl])))], s\<lparr>wk_fragments := None\<rparr>, True)
             | None \<Rightarrow> if p \<noteq> WsText then ([], s, True) else ([WsMessage (utf8_text pl)], s, True)))"

fun feed_frames :: "int \<Rightarrow> ws_frame list \<Rightarrow> ws_socket \<Rightarrow> ws_event list \<times> ws_socket" where
  "feed_frames maxPayload [] s = ([], s)"
| "feed_frames maxPayload (f # fs) s =
     (case feed_frame maxPayload f s of
        (es, s', False) \<Rightarrow> (es, s')
      | (es, s', True) \<Rightarrow> (case feed_frames maxPayload fs s' of (es', s'') \<Rightarrow> (es @ es', s'')))"

definition feed :: "int \<Rightarrow> byte list \<Rightarrow> ws_socket \<Rightarrow> ws_event list \<times> ws_socket" where
  "feed maxPayload chunk s =
     (if wk_dead s then ([], s)
      else case decodeFrames (wk_tail s @ chunk) maxPayload of
        Inl _ \<Rightarrow> ([WsFailed], s)
      | Inr (fs, rest, _) \<Rightarrow> feed_frames maxPayload fs (s\<lparr>wk_tail := rest\<rparr>))"

section \<open>Chunks\<close>

lemma frame_length_append:
  "frame_length n a = Inr (Some x) \<Longrightarrow> frame_length n (a @ b) = Inr (Some x)"
  "frame_length n a = Inl e \<Longrightarrow> frame_length n (a @ b) = Inl e"
  by (auto simp: frame_length_def Let_def split: if_splits)

lemma be_uint_nonneg: "0 \<le> be_uint bs"
proof -
  have "0 \<le> n \<Longrightarrow> 0 \<le> foldl (\<lambda>n (b :: byte). n * 256 + uint b) n bs" for n
    by (induction bs arbitrary: n) simp_all
  then show ?thesis by (simp add: be_uint_def)
qed

lemma frame_length_nonneg: "frame_length (k mod 128) chunk = Inr (Some (h, n)) \<Longrightarrow> 0 \<le> n"
  by (auto simp: frame_length_def Let_def be_uint_nonneg split: if_splits)

lemma frame_body_append:
  assumes "frame_body m p fin masked (h, n) a = Inr (Some (f, r))" and "0 \<le> n"
  shows "frame_body m p fin masked (h, n) (a @ b) = Inr (Some (f, r @ b))"
proof -
  have fit: "h + (if masked then 4 else 0) + nat n \<le> length a"
    using assms unfolding frame_body_Some by (cases masked) auto
  then have "take (nat n) (drop (h + (if masked then 4 else 0)) (a @ b)) = take (nat n) (drop (h + (if masked then 4 else 0)) a)"
    by simp
  moreover have "take 4 (drop h (a @ b)) = take 4 (drop h a)" if masked using fit that by simp
  ultimately show ?thesis
    using assms fit unfolding frame_body_Some by (cases masked) auto
qed

lemma frame_body_append_error:
  "frame_body m p fin masked hn a = Inl e \<Longrightarrow> frame_body m p fin masked hn (a @ b) = Inl e"
  by (auto simp: frame_body_def Let_def split: prod.splits if_splits)

lemma decode_frame_append: "decode_frame m a = Inr (Some (f, r)) \<Longrightarrow> decode_frame m (a @ b) = Inr (Some (f, r @ b))"
  unfolding decode_frame_Some using frame_length_append(1) frame_body_append frame_length_nonneg by fastforce

lemma decode_frame_append_error:
  assumes "decode_frame m a = Inl e"
  shows "decode_frame m (a @ b) = Inl e"
proof -
  obtain b0 b1 t where a: "a = b0 # b1 # t"
    using assms by (auto simp: decode_frame_def split: list.splits)
  show ?thesis
  proof (cases "opcodeOf b0")
    case p: (Inr p)
    show ?thesis
    proof (cases "frame_length (uint b1 mod 128) a")
      case (Inl e')
      then show ?thesis using assms p frame_length_append(2) [OF Inl, of b]
        by (auto simp: decode_frame_def a split: if_splits)
    next
      case (Inr x)
      then show ?thesis
        using assms p frame_length_append(1) [of _ a _ b] frame_body_append_error [of m p _ _ _ a e b]
        by (cases x) (auto simp: decode_frame_def a split: if_splits)
    qed
  qed (use assms in \<open>simp add: decode_frame_def a\<close>)
qed

text \<open>The count grows, and within the limit.\<close>

lemma decode_loop_grows: "ws_decode_loop m n a = Inr (fs, rest, k) \<Longrightarrow> n \<le> k"
proof (induction m n a arbitrary: fs k rule: ws_decode_loop.induct)
  case (1 m n a)
  show ?case using "1.prems"
    by (subst (asm) ws_decode_loop.simps) (fastforce dest: "1.IH" split: sum.splits option.splits prod.splits if_splits)
qed

lemma decode_loop_limit: "n \<le> m \<Longrightarrow> ws_decode_loop m n a = Inr (fs, rest, k) \<Longrightarrow> k \<le> m"
proof (induction m n a arbitrary: fs k rule: ws_decode_loop.induct)
  case (1 m n a)
  show ?case using "1.prems"(2,1)
    by (subst (asm) ws_decode_loop.simps) (fastforce dest: "1.IH" split: sum.splits option.splits prod.splits if_splits)
qed

text \<open>The loop on two chunks, the second with the bytes and the count the first left.\<close>

lemma decode_loop_append:
  "ws_decode_loop m n (a @ b) =
    (case ws_decode_loop m n a of
       Inl e \<Rightarrow> Inl e
     | Inr (fs, rest, k) \<Rightarrow> and_then (ws_decode_loop m k (rest @ b)) (\<lambda>(gs, rest', k'). Inr (fs @ gs, rest', k')))"
proof (induction m n a rule: ws_decode_loop.induct)
  case (1 m n a)
  show ?case
  proof (cases "decode_frame m a")
    case (Inl e)
    then show ?thesis using decode_frame_append_error [OF Inl, of b]
      by (simp add: ws_decode_loop.simps [of m n a] ws_decode_loop.simps [of m n "a @ b"])
  next
    case (Inr x)
    show ?thesis
    proof (cases x)
      case None
      then show ?thesis using Inr
        by (auto simp: ws_decode_loop.simps [of m n a] and_then_def split: sum.splits)
    next
      case (Some y)
      obtain f rest where y: "y = (f, rest)" by (cases y)
      then have d: "decode_frame m a = Inr (Some (f, rest))" using Inr Some by simp
      show ?thesis
      proof (cases "n + int (length (wf_payload f)) > m")
        case True
        then show ?thesis using d decode_frame_append [OF d, of b]
          by (simp add: ws_decode_loop.simps [of m n a] ws_decode_loop.simps [of m n "a @ b"])
      next
        case False
        then show ?thesis
          using d decode_frame_append [OF d, of b] "1.IH" [OF d HOL.refl HOL.refl False]
          by (auto simp: ws_decode_loop.simps [of m n a] ws_decode_loop.simps [of m n "a @ b"] and_then_def split: sum.splits)
      qed
    qed
  qed
qed

text \<open>What the count at the start does to the loop.\<close>

lemma decode_loop_count:
  assumes "0 \<le> n" and "n \<le> m"
  shows "ws_decode_loop m n a = (case ws_decode_loop m 0 a of
       Inl e \<Rightarrow> Inl e
     | Inr (fs, rest, k) \<Rightarrow> if n + k \<le> m then Inr (fs, rest, n + k) else Inl WsProtocolError)"
proof -
  have "ws_decode_loop m (n + i) a = (case ws_decode_loop m i a of
       Inl e \<Rightarrow> Inl e
     | Inr (fs, rest, k) \<Rightarrow> if n + k \<le> m then Inr (fs, rest, n + k) else Inl WsProtocolError)" if "n + i \<le> m" "0 \<le> i" for i
    using that
  proof (induction m i a rule: ws_decode_loop.induct)
    case (1 m i a)
    show ?case
    proof (cases "decode_frame m a")
      case (Inl e)
      then show ?thesis by (simp add: ws_decode_loop.simps [of m _ a])
    next
      case (Inr x)
      show ?thesis
      proof (cases x)
        case None
        then show ?thesis using Inr "1.prems" by (simp add: ws_decode_loop.simps [of m _ a])
      next
        case (Some y)
        obtain f rest where y: "y = (f, rest)" by (cases y)
        then have d: "decode_frame m a = Inr (Some (f, rest))" using Inr Some by simp
        let ?l = "int (length (wf_payload f))"
        have e: "e = WsProtocolError" for e :: ws_error by (cases e) simp
        show ?thesis
        proof (cases "n + i + ?l > m")
          case True
          have "case ws_decode_loop m (i + ?l) rest of Inl e \<Rightarrow> True | Inr (fs, r, k) \<Rightarrow> n + k > m"
            using True decode_loop_grows [of m "i + ?l" rest] by (auto split: sum.splits)
          then show ?thesis using True d assms(1)
            by (auto simp: ws_decode_loop.simps [of m _ a] split: sum.splits) (metis e)+
        next
          case False
          then show ?thesis using d "1.IH" [OF d HOL.refl HOL.refl] "1.prems" assms(1)
            by (auto simp: ws_decode_loop.simps [of m _ a] add.assoc split: sum.splits)
        qed
      qed
    qed
  qed
  from this [of 0] show ?thesis using assms(2) by simp
qed

text \<open>C37. Where the network cuts the byte stream does not matter, up to the limit of one decoding.  Decoding two chunks one after
  the other, the second behind the bytes the first left over, gives the same frames, in the same order, and the same rest as
  decoding them as one, and refuses the same violations, whatever follows them; only the limit on all payloads
  together starts anew with every call, so that frames which pass it together are refused in one chunk and accepted in
  two.\<close>

theorem chunks_decode_alike:
  assumes "0 \<le> m"
  shows "decodeFrames (a @ b) m =
    (case decodeFrames a m of
       Inl e \<Rightarrow> Inl e
     | Inr (fs, rest, k) \<Rightarrow>
         (case decodeFrames (rest @ b) m of
            Inl e \<Rightarrow> Inl e
          | Inr (gs, rest', k') \<Rightarrow> if k + k' \<le> m then Inr (fs @ gs, rest', k + k') else Inl WsProtocolError))"
proof (cases "ws_decode_loop m 0 a")
  case (Inl e)
  then show ?thesis by (simp add: decodeFrames_def decode_loop_append [of m 0 a b])
next
  case (Inr x)
  obtain fs rest k where x: "x = (fs, rest, k)" by (cases x)
  have "0 \<le> k" "k \<le> m" using decode_loop_grows [of m 0 a] decode_loop_limit [of 0 m a] assms Inr x by auto
  from decode_loop_count [OF this, of "rest @ b"] Inr x show ?thesis
    by (auto simp: decodeFrames_def decode_loop_append [of m 0 a b] and_then_def split: sum.splits)
qed

theorem chunks_decode_alike_witness:
  "let w = the (encodeFrame WsText (ascii_bytes ''hello'') True) in
   decodeFrames (w @ w) 8 = Inl WsProtocolError \<and> decodeFrames (w @ take 3 w) 8 =
     Inr ([\<lparr>wf_opcode = WsText, wf_payload = ascii_bytes ''hello'', wf_fin = True\<rparr>], take 3 w, 5)"
proof -
  let ?w = "the (encodeFrame WsText (ascii_bytes ''hello'') True)"
  have "decodeFrames ?w 8 = Inr ([\<lparr>wf_opcode = WsText, wf_payload = ascii_bytes ''hello'', wf_fin = True\<rparr>], [], 5)"
    "decodeFrames (take 3 ?w) 8 = Inr ([], take 3 ?w, 0)" by code_simp+
  then show ?thesis using chunks_decode_alike [of 8 ?w ?w] chunks_decode_alike [of 8 ?w "take 3 ?w"] by (simp add: Let_def)
qed

section \<open>Round trip\<close>

lemma uint_byte: "0 \<le> n \<Longrightarrow> n < 256 \<Longrightarrow> uint (word_of_int n :: byte) = n"
  by (simp add: uint_word_of_int)

lemma be_uint_be16: "0 \<le> n \<Longrightarrow> n < 65536 \<Longrightarrow> be_uint (be16 n) = n"
proof -
  assume n: "0 \<le> n" "n < 65536"
  have d: "n = n div 256 * 256 + n mod 256" "0 \<le> n mod 256" "n mod 256 < 256" by simp_all
  from d n have "0 \<le> n div 256" by linarith
  moreover from d n have "n div 256 < 256" by linarith
  ultimately have "uint (word_of_int (n div 256) :: byte) = n div 256" by (rule uint_byte)
  moreover have "uint (word_of_int (n mod 256) :: byte) = n mod 256" using d(2,3) by (rule uint_byte)
  ultimately show ?thesis unfolding be_uint_def be16_def by (simp add: d(1) [symmetric])
qed

lemma length_be [simp]: "length (be16 n) = 2" "length (be32 n) = 4"
  by (simp_all add: be16_def be32_def)

lemma be_uint_append: "be_uint (a @ b) = be_uint a * 256 ^ length b + be_uint b"
proof -
  have g: "foldl (\<lambda>n (b :: byte). n * 256 + uint b) m bs = m * 256 ^ length bs + be_uint bs" for m bs
  proof (induction bs arbitrary: m)
    case (Cons b bs)
    have "be_uint (b # bs) = uint b * 256 ^ length bs + be_uint bs"
      unfolding be_uint_def [of "b # bs"] by (simp add: Cons [of "uint b"])
    then show ?case by (simp add: Cons [of "m * 256 + uint b"] distrib_right)
  qed (simp add: be_uint_def)
  show ?thesis unfolding be_uint_def [of "a @ b"] foldl_append unfolding g by simp
qed

lemma be_uint_be32: "0 \<le> n \<Longrightarrow> n < 4294967296 \<Longrightarrow> be_uint (be32 n) = n"
proof -
  assume n: "0 \<le> n" "n < 4294967296"
  have d: "n = n div 65536 * 65536 + n mod 65536" "0 \<le> n mod 65536" "n mod 65536 < 65536" by simp_all
  then have "0 \<le> n div 65536" "n div 65536 < 65536" using n by linarith+
  then have "be_uint (be16 (n div 65536)) = n div 65536" "be_uint (be16 (n mod 65536)) = n mod 65536"
    using d be_uint_be16 by blast+
  then show ?thesis using d by (simp add: be32_def be_uint_append)
qed

text \<open>A frame that either side may send: within the limits of the decoder, control frames short and in one piece.\<close>

definition frame_fits :: "int \<Rightarrow> ws_frame \<Rightarrow> bool" where
  "frame_fits m f \<longleftrightarrow> int (length (wf_payload f)) \<le> m \<and> int (length (wf_payload f)) \<le> 67108864 \<and>
     (control_opcode (wf_opcode f) \<longrightarrow> wf_fin f \<and> length (wf_payload f) \<le> 125)"

text \<open>The bytes of a frame: a server's as \<open>encodeFrame\<close> writes them, a client's with a key of four bytes.\<close>

definition frame_bytes :: "byte list option \<Rightarrow> ws_frame \<Rightarrow> byte list" where
  "frame_bytes key f = (let n = int (length (wf_payload f)); flag = (if key = None then 0 else 128) in
     first_byte (wf_opcode f) (wf_fin f) # the (frame_length_bytes flag n) @
       (case key of None \<Rightarrow> wf_payload f | Some k \<Rightarrow> k @ xor_mask k (wf_payload f)))"

lemma encode_server: "frame_fits m f \<Longrightarrow> encodeFrame (wf_opcode f) (wf_payload f) (wf_fin f) = Some (frame_bytes None f)"
  by (auto simp: encodeFrame_def frame_bytes_def frame_fits_def frame_length_bytes_def Let_def)

lemma encode_client:
  "encodeMaskedFrame p s = Inr bs \<Longrightarrow>
   bs = frame_bytes (Some [0x12, 0x34, 0x56, 0x78]) \<lparr>wf_opcode = p, wf_payload = ascii_bytes s, wf_fin = True\<rparr>"
  by (auto simp: encodeMaskedFrame_def frame_bytes_def frame_length_bytes_def Let_def split: if_splits)

lemma first_byte_reads:
  "opcodeOf (first_byte p fin) = Inr p" "high_bit (first_byte p fin) = fin"
proof -
  have "0 \<le> opcodeByte p" "opcodeByte p < 16" by (cases p; simp add: opcodeByte_def)+
  then have u: "uint (first_byte p fin) = (if fin then 128 else 0) + opcodeByte p"
    unfolding first_byte_def by (intro uint_byte) auto
  then show "opcodeOf (first_byte p fin) = Inr p" by (cases p; cases fin) (simp_all add: opcodeOf_def opcodeByte_def Let_def)
  show "high_bit (first_byte p fin) = fin"
    using u \<open>opcodeByte p < 16\<close> \<open>0 \<le> opcodeByte p\<close> by (auto simp: high_bit_def)
qed

lemma xor_twice: "xor_mask k (xor_mask k bs) = bs"
  by (rule nth_equalityI) (simp_all add: xor_mask_def nth_enumerate_eq xor.assoc)

lemma length_xor_mask [simp]: "length (xor_mask k bs) = length bs"
  by (simp add: xor_mask_def)

lemma length_bytes_reads:
  assumes "0 \<le> n" "n \<le> 67108864" and "flag = 0 \<or> flag = 128"
  obtains b ls where "frame_length_bytes flag n = Some (b # ls)" "high_bit b = (flag = 128)"
    "\<forall>b0 t. frame_length (uint b mod 128) (b0 # b # ls @ t) = Inr (Some (2 + length ls, n))"
proof -
  have u: "uint (word_of_int (flag + k) :: byte) = flag + k" "(flag + k) mod 128 = k" if "0 \<le> k" "k < 128" for k
  proof -
    show "uint (word_of_int (flag + k) :: byte) = flag + k" by (rule uint_byte) (use that assms(3) in auto)
    show "(flag + k) mod 128 = k" using that assms(3) by auto
  qed
  have h: "high_bit (word_of_int (flag + k) :: byte) = (flag = 128)" if "0 \<le> k" "k < 128" for k
    unfolding high_bit_def u(1) [OF that] using that assms(3) by auto
  consider "n < 126" | "126 \<le> n" "n < 65536" | "65536 \<le> n" by linarith
  then show ?thesis
  proof cases
    case 1
    then show ?thesis using u [of n] h [of n] assms(1)
      by (intro that [of "word_of_int (flag + n)" "[]"]) (simp_all add: frame_length_bytes_def frame_length_def)
  next
    case 2
    then show ?thesis using u [of 126] h [of 126] be_uint_be16 [of n]
      by (intro that [of "word_of_int (flag + 126)" "be16 n"]) (simp_all add: frame_length_bytes_def frame_length_def)
  next
    case 3
    have "drop 4 (be32 0 @ xs) = xs" "take 4 (be32 0 @ xs) = be32 0" for xs by simp_all
    then show ?thesis using 3 assms(2) u [of 127] h [of 127] be_uint_be32 [of n] be_uint_be32 [of 0]
      by (intro that [of "word_of_int (flag + 127)" "be32 0 @ be32 n"])
        (simp_all add: frame_length_bytes_def frame_length_def Let_def)
  qed
qed

lemma frame_decodes:
  assumes "frame_fits m f" and "\<And>k. key = Some k \<Longrightarrow> length k = 4"
  shows "decode_frame m (frame_bytes key f @ t) = Inr (Some (f, t))"
proof -
  let ?n = "int (length (wf_payload f))" and ?flag = "if key = None then 0 else 128 :: int"
  have n: "0 \<le> ?n" "?n \<le> 67108864" "?flag = 0 \<or> ?flag = 128" using assms(1) by (auto simp: frame_fits_def)
  obtain b ls where l: "frame_length_bytes ?flag ?n = Some (b # ls)" "high_bit b = (?flag = 128)"
    "\<forall>b0 t. frame_length (uint b mod 128) (b0 # b # ls @ t) = Inr (Some (2 + length ls, ?n))"
    using length_bytes_reads [OF n] by blast
  define p where "p = (case key of None \<Rightarrow> wf_payload f | Some k \<Rightarrow> k @ xor_mask k (wf_payload f))"
  have bytes: "frame_bytes key f @ t = first_byte (wf_opcode f) (wf_fin f) # b # ls @ p @ t"
    using l(1) by (simp add: frame_bytes_def p_def Let_def)
  have body: "frame_body m (wf_opcode f) (wf_fin f) (high_bit b) (2 + length ls, ?n) (hd @ p @ t) = Inr (Some (f, t))"
    if hd: "length hd = 2 + length ls" for hd
  proof (cases key)
    case None
    then show ?thesis using assms(1) l(2) unfolding hd [symmetric] frame_body_Some by (auto simp: p_def frame_fits_def)
  next
    case (Some k)
    have "drop (length hd + 4 + i) (hd @ k @ xs) = drop i xs" "drop (length hd + 4) (hd @ k @ xs) = xs" for i xs
      using assms(2) [OF Some] by simp_all
    then show ?thesis using assms Some l(2) unfolding hd [symmetric] frame_body_Some
      by (auto simp: p_def frame_fits_def xor_twice)
  qed
  have "frame_body m (wf_opcode f) (wf_fin f) (high_bit b) (2 + length ls, ?n)
      (first_byte (wf_opcode f) (wf_fin f) # b # ls @ p @ t) = Inr (Some (f, t))"
    using body [of "first_byte (wf_opcode f) (wf_fin f) # b # ls"] by simp
  moreover have "frame_length (uint b mod 128) (first_byte (wf_opcode f) (wf_fin f) # b # ls @ p @ t) = Inr (Some (2 + length ls, ?n))"
    using l(3) by blast
  ultimately show ?thesis
    using assms(1) by (auto simp: bytes decode_frame_Some first_byte_reads frame_fits_def)
qed

lemma written_decodes:
  assumes "frame_fits m f"
    and "encodeFrame (wf_opcode f) (wf_payload f) (wf_fin f) = Some bytes \<or>
      (\<exists>payload. encodeMaskedFrame (wf_opcode f) payload = Inr bytes \<and> wf_payload f = ascii_bytes payload \<and> wf_fin f)"
  shows "decode_frame m (bytes @ t) = Inr (Some (f, t))"
  using assms(2)
proof (elim disjE exE conjE)
  assume "encodeFrame (wf_opcode f) (wf_payload f) (wf_fin f) = Some bytes"
  then have "bytes = frame_bytes None f" using encode_server [OF assms(1)] by simp
  then show ?thesis using frame_decodes [OF assms(1), of None] by simp
next
  fix payload assume e: "encodeMaskedFrame (wf_opcode f) payload = Inr bytes" "wf_payload f = ascii_bytes payload" "wf_fin f"
  then have "f = \<lparr>wf_opcode = wf_opcode f, wf_payload = ascii_bytes payload, wf_fin = True\<rparr>" by (cases f) simp
  then have "bytes = frame_bytes (Some [0x12, 0x34, 0x56, 0x78]) f" using encode_client [OF e(1)] by metis
  then show ?thesis using frame_decodes [OF assms(1), of "Some [0x12, 0x34, 0x56, 0x78]"] by simp
qed

text \<open>C38. What one side of a connection writes the other reads.  Whatever frames are written, each by \<open>encodeFrame\<close> or, as a
  text, by \<open>encodeMaskedFrame\<close>, in any of the three length encodings, the bytes one after the other decode to exactly those
  frames with nothing left over, as long as each frame fits the limits and all of them together the limit of one
  decoding; and \<open>encodeFrame\<close> writes every frame that fits.\<close>

theorem websocket_roundtrip:
  assumes "list_all2 (\<lambda>f bytes. encodeFrame (wf_opcode f) (wf_payload f) (wf_fin f) = Some bytes \<or>
      (\<exists>payload. encodeMaskedFrame (wf_opcode f) payload = Inr bytes \<and> wf_payload f = ascii_bytes payload \<and> wf_fin f)) fs wire"
    and "list_all (frame_fits m) fs" and "(\<Sum>f \<leftarrow> fs. int (length (wf_payload f))) \<le> m"
  shows "decodeFrames (concat wire) m = Inr (fs, [], \<Sum>f \<leftarrow> fs. int (length (wf_payload f))) \<and>
    list_all (\<lambda>f. encodeFrame (wf_opcode f) (wf_payload f) (wf_fin f) \<noteq> None) fs"
proof -
  have "ws_decode_loop m n (concat wire) = Inr (fs, [], n + (\<Sum>f \<leftarrow> fs. int (length (wf_payload f))))"
    if "n + (\<Sum>f \<leftarrow> fs. int (length (wf_payload f))) \<le> m" for n
    using assms(1,2) that
  proof (induction fs wire arbitrary: n rule: list_all2_induct)
    case Nil
    show ?case by (simp add: ws_decode_loop.simps decode_frame_def)
  next
    case (Cons f fs bytes wire)
    have "0 \<le> (\<Sum>f \<leftarrow> fs. int (length (wf_payload f)))" by (rule sum_list_nonneg) auto
    moreover have "decode_frame m (bytes @ concat wire) = Inr (Some (f, concat wire))"
      using Cons.hyps(1) Cons.prems(1) by (intro written_decodes) auto
    ultimately show ?case
      using Cons.prems Cons.IH [of "n + int (length (wf_payload f))"]
      by (simp add: ws_decode_loop.simps [of m n] add.assoc)
  qed
  from this [of 0] show ?thesis using assms(2,3) encode_server by (auto simp: decodeFrames_def list_all_iff)
qed

theorem websocket_roundtrip_witness:
  "let f = \<lparr>wf_opcode = WsText, wf_payload = ascii_bytes ''hi'', wf_fin = True\<rparr>;
       g = \<lparr>wf_opcode = WsText, wf_payload = replicate 130 7, wf_fin = False\<rparr> in
   decodeFrames (concat [projr (encodeMaskedFrame WsText ''hi''), the (encodeFrame WsText (replicate 130 7) False)]) 200 =
     Inr ([f, g], [], 132)"
proof -
  define f where "f = \<lparr>wf_opcode = WsText, wf_payload = ascii_bytes ''hi'', wf_fin = True\<rparr>"
  define g :: ws_frame where "g = \<lparr>wf_opcode = WsText, wf_payload = replicate 130 7, wf_fin = False\<rparr>"
  let ?wire = "[projr (encodeMaskedFrame WsText ''hi''), the (encodeFrame WsText (replicate 130 7) False)]"
  have "encodeMaskedFrame WsText ''hi'' = Inr (projr (encodeMaskedFrame WsText ''hi''))"
    "encodeFrame WsText (replicate 130 7) False = Some (the (encodeFrame WsText (replicate 130 7) False))"
    by (simp_all add: encodeMaskedFrame_def encodeFrame_def frame_length_bytes_def ascii_bytes_def Let_def)
  moreover have "list_all (frame_fits 200) [f, g]" "(\<Sum>f \<leftarrow> [f, g]. int (length (wf_payload f))) = 132"
    by (simp_all add: f_def g_def frame_fits_def control_opcode_def ascii_bytes_def)
  ultimately show ?thesis using websocket_roundtrip [of "[f, g]" ?wire 200] unfolding f_def [symmetric] g_def [symmetric]
    by (simp add: f_def g_def Let_def) blast
qed

end
