(* ===== verification/RealtimeGateway.thy ===== *)
theory RealtimeGateway
  imports Json
begin

text \<open>
  The realtime gateway (\<open>packages/realtime/src/gateway.ts\<close>) over the memory bus and the memory presence manager, with the
  channel grammar, the filters (\<open>types.ts\<close>) and the authorization rules (\<open>authz.ts\<close>) it relies on.  A handler runs to
  its end before the next event.  What a call gets from outside is the environment \<open>gw_env\<close>: the clock, the count the rate
  limit store returns (\<open>None\<close> without a store or when it fails), whether a table has a feed, the columns of a table, and
  \<open>JSON.parse\<close>.  Error texts and latencies are left out.
\<close>

section \<open>Channels and filters (types.ts)\<close>

record parsed_channel =
  pc_project :: string
  pc_topic :: string

definition hex_or_dash :: "char \<Rightarrow> bool" where
  "hex_or_dash c \<longleftrightarrow> is_digit c \<or> c \<in> set ''abcdef-''"

definition topic_char :: "char \<Rightarrow> bool" where
  "topic_char c \<longleftrightarrow> is_alnum c \<or> c \<in> set ''_.:-''"

definition parseChannel :: "string \<Rightarrow> parsed_channel option" where
  "parseChannel channel =
     (if starts_with channel ''project:'' then
        let r = drop 8 channel; project = take 36 r; topic = drop 37 r in
        if length project = 36 \<and> list_all hex_or_dash project \<and> take 1 (drop 36 r) = '':'' \<and>
           1 \<le> length topic \<and> length topic \<le> 160 \<and> list_all topic_char topic
        then Some \<lparr>pc_project = project, pc_topic = topic\<rparr> else None
      else None)"

definition tableOfTopic :: "string \<Rightarrow> string option" where
  "tableOfTopic topic =
     (if starts_with topic ''table:'' then
        (case drop 6 topic of
           [] \<Rightarrow> None
         | c # cs \<Rightarrow> if (is_upper c \<or> is_lower c \<or> c = CHR ''_'') \<and> length cs \<le> 62 \<and> list_all (\<lambda>c. is_alnum c \<or> c = CHR ''_'') cs
                     then Some (c # cs) else None)
      else None)"

type_synonym sub_filter = "(string \<times> json) list"

definition filter_key :: "string \<Rightarrow> bool" where
  "filter_key k \<longleftrightarrow> (case k of [] \<Rightarrow> False
     | c # cs \<Rightarrow> (is_lower c \<or> c = CHR ''_'') \<and> length cs \<le> 62 \<and> list_all (\<lambda>c. is_lower c \<or> is_digit c \<or> c = CHR ''_'') cs)"

fun filter_value :: "json \<Rightarrow> bool" where
  "filter_value JNull = True"
| "filter_value (JBool _) = True"
| "filter_value (JNum _) = True"
| "filter_value (JStr s) = (length s \<le> 256)"
| "filter_value _ = False"

text \<open>\<open>None\<close> is the \<open>INVALID_FILTER\<close> error, \<open>Some None\<close> no filter.  Writing the key \<open>__proto__\<close> of a plain object stores
  no entry.\<close>

definition parseSubscriptionFilter :: "json \<Rightarrow> sub_filter option option" where
  "parseSubscriptionFilter v =
     (case v of
        JUndefined \<Rightarrow> Some None
      | JNull \<Rightarrow> Some None
      | JObj kvs \<Rightarrow>
          if 8 < length kvs then None
          else if list_all (\<lambda>(k, v). filter_key k \<and> filter_value v) kvs
          then Some (Some (filter (\<lambda>(k, v). k \<noteq> ''__proto__'') kvs)) else None
      | _ \<Rightarrow> None)"

section \<open>Authorization (authz.ts)\<close>

record auth_context =
  ax_userId :: "string option"
  ax_role :: string
  ax_projectId :: string
  ax_organizationId :: string
  ax_expiresAt :: "instant option"

definition canConnect :: "auth_context option \<Rightarrow> bool" where
  "canConnect ctx \<longleftrightarrow> (case ctx of None \<Rightarrow> False | Some c \<Rightarrow> ax_projectId c \<noteq> [])"

definition canSubscribe :: "auth_context \<Rightarrow> string \<Rightarrow> bool" where
  "canSubscribe ctx channel \<longleftrightarrow>
     (case parseChannel channel of None \<Rightarrow> False | Some p \<Rightarrow> pc_project p = ax_projectId ctx)"

definition canBroadcast :: "auth_context \<Rightarrow> string \<Rightarrow> bool" where
  "canBroadcast ctx channel \<longleftrightarrow>
     (if \<not> canSubscribe ctx channel then False
      else if ax_role ctx = ''viewer'' \<or> ax_role ctx = ''anonymous'' then False
      else if ax_role ctx = ''public'' \<or> ax_role ctx = ''agent:readonly'' then False
      else True)"

definition canTrackPresence :: "auth_context \<Rightarrow> string \<Rightarrow> bool" where
  "canTrackPresence ctx channel \<longleftrightarrow> canSubscribe ctx channel \<and> ax_role ctx \<noteq> ''anonymous''"

text \<open>A row is \<open>None\<close> or the entries of the record; \<open>String(v ?? '')\<close>.\<close>

definition text_or_empty :: "json \<Rightarrow> string" where
  "text_or_empty v = (if v = JNull \<or> v = JUndefined then [] else js_String v)"

definition canReceive :: "auth_context \<Rightarrow> string list \<Rightarrow> (string \<times> json) list option \<Rightarrow> string \<Rightarrow> bool" where
  "canReceive ctx tableColumns row ownerColumn \<longleftrightarrow>
     (if ax_role ctx \<noteq> ''authenticated'' then True
      else if ownerColumn \<notin> set tableColumns then True
      else case (row, ax_userId ctx) of
          (Some r, Some u) \<Rightarrow> text_or_empty (json_field r ownerColumn) = u
        | _ \<Rightarrow> False)"

definition matchesFilter :: "(string \<times> json) list option \<Rightarrow> sub_filter option \<Rightarrow> bool" where
  "matchesFilter row flt \<longleftrightarrow>
     (case flt of None \<Rightarrow> True
      | Some [] \<Rightarrow> True
      | Some f \<Rightarrow> (case row of None \<Rightarrow> False
          | Some r \<Rightarrow> list_all (\<lambda>(k, v). let actual = json_field r k in
              if v = JNull then actual = JNull \<or> actual = JUndefined else text_or_empty actual = js_String v) f))"

section \<open>Presence (presence.ts, memory)\<close>

record presence_entry =
  pe_user_id :: string
  pe_status :: string
  pe_metadata :: json
  pe_updated_at :: instant

type_synonym presence_rooms = "(string, (string, presence_entry) jsmap) jsmap"

definition presence_track :: "string \<Rightarrow> string \<Rightarrow> string \<Rightarrow> json \<Rightarrow> instant \<Rightarrow> presence_rooms \<Rightarrow> presence_rooms" where
  "presence_track channel user status meta now rooms =
     (let room = (case js_get rooms channel of None \<Rightarrow> [] | Some r \<Rightarrow> r) in
      js_set channel (js_set user \<lparr>pe_user_id = user, pe_status = status, pe_metadata = meta, pe_updated_at = now\<rparr> room) rooms)"

definition presence_remove :: "string \<Rightarrow> string \<Rightarrow> presence_rooms \<Rightarrow> presence_rooms" where
  "presence_remove channel user rooms =
     (case js_get rooms channel of None \<Rightarrow> rooms
      | Some room \<Rightarrow> let room' = js_delete user room in
          if room' = [] then js_delete channel rooms else js_set channel room' rooms)"

definition presence_state :: "string \<Rightarrow> presence_rooms \<Rightarrow> presence_entry list" where
  "presence_state channel rooms = (case js_get rooms channel of None \<Rightarrow> [] | Some room \<Rightarrow> js_values room)"

definition presence_clear :: "string \<Rightarrow> presence_rooms \<Rightarrow> presence_rooms" where
  "presence_clear channel rooms = js_delete channel rooms"

section \<open>State of the gateway (gateway.ts)\<close>

datatype change_op = OpInsert | OpUpdate | OpDelete

record db_change =
  dc_type :: change_op
  dc_project_id :: string
  dc_table :: string
  dc_schema :: string
  dc_record :: "(string \<times> json) list option"
  dc_old_record :: "(string \<times> json) list option"
  dc_timestamp :: instant

datatype bus_msg =
    BusChange string db_change
  | BusBroadcast string string json instant "string option"
  | BusPresence string string string instant

text \<open>Messages to a socket: acknowledgements and errors answer its own message, the last three are deliveries.\<close>

datatype server_msg =
    SmPong "string option"
  | SmSubscribed "string option" string
  | SmUnsubscribed "string option" string
  | SmBroadcastAck "string option" string string
  | SmPresenceAck "string option" string string
  | SmError "string option" string
  | SmEvent string db_change
  | SmBroadcast string string json
  | SmPresence string string string instant

record gw_conn =
  gc_ctx :: auth_context
  gc_subscriptions :: "string list"
  gc_filters :: "(string, sub_filter option) jsmap"
  gc_channels :: "string list"
  gc_connectedAt :: instant
  gc_lastHeartbeat :: instant
  gc_awaitingPong :: bool

record gw_metrics =
  gm_connections :: int
  gm_subscriptions :: int
  gm_eventsPublished :: int
  gm_eventsDelivered :: int
  gm_eventsDropped :: int
  gm_broadcasts :: int
  gm_presenceEntries :: int
  gm_connectionErrors :: int
  gm_authFailures :: int
  gm_deliveredCount :: int

record gw_options =
  go_maxConnsPerProject :: int
  go_maxSubsPerConn :: int
  go_maxPayloadBytes :: int
  go_maxMsgPerSecond :: int
  go_maxBroadcastsPerMinute :: int
  go_heartbeatTimeoutMs :: int

definition DEFAULT_GATEWAY_OPTIONS :: gw_options where
  "DEFAULT_GATEWAY_OPTIONS = \<lparr>go_maxConnsPerProject = 500, go_maxSubsPerConn = 50, go_maxPayloadBytes = 65536,
     go_maxMsgPerSecond = 20, go_maxBroadcastsPerMinute = 60, go_heartbeatTimeoutMs = 60000\<rparr>"

record gw_env =
  ge_opts :: gw_options
  ge_now :: instant
  ge_count :: "string \<Rightarrow> int option"
  ge_feed :: "string \<Rightarrow> string \<Rightarrow> bool"
  ge_columns :: "string \<Rightarrow> string \<Rightarrow> string list option"
  ge_parse :: "string \<Rightarrow> json option"

text \<open>\<open>gs_closed\<close> holds the sockets that are closed, \<open>gs_sent\<close> what was written to which socket, \<open>gs_attached\<close> whether the
  gateway listens to the bus.\<close>

record gw_state =
  gs_conns :: "(string, gw_conn) jsmap"
  gs_metrics :: gw_metrics
  gs_rooms :: presence_rooms
  gs_closed :: "string list"
  gs_sent :: "(string \<times> server_msg) list"
  gs_attached :: bool

definition gw_start :: gw_state where
  "gw_start = \<lparr>gs_conns = [], gs_metrics = \<lparr>gm_connections = 0, gm_subscriptions = 0, gm_eventsPublished = 0, gm_eventsDelivered = 0,
     gm_eventsDropped = 0, gm_broadcasts = 0, gm_presenceEntries = 0, gm_connectionErrors = 0, gm_authFailures = 0,
     gm_deliveredCount = 0\<rparr>, gs_rooms = [], gs_closed = [], gs_sent = [], gs_attached = True\<rparr>"

definition gw_metric :: "(gw_metrics \<Rightarrow> gw_metrics) \<Rightarrow> gw_state \<Rightarrow> gw_state" where
  "gw_metric f s = s\<lparr>gs_metrics := f (gs_metrics s)\<rparr>"

definition gw_update :: "string \<Rightarrow> (gw_conn \<Rightarrow> gw_conn) \<Rightarrow> gw_state \<Rightarrow> gw_state" where
  "gw_update sid f s = (case js_get (gs_conns s) sid of None \<Rightarrow> s | Some c \<Rightarrow> s\<lparr>gs_conns := js_set sid (f c) (gs_conns s)\<rparr>)"

text \<open>\<open>send\<close> on an open socket.\<close>

definition gw_send :: "string \<Rightarrow> server_msg \<Rightarrow> gw_state \<Rightarrow> gw_state" where
  "gw_send sid m s = s\<lparr>gs_sent := gs_sent s @ [(sid, m)]\<rparr>"

definition allow :: "int option \<Rightarrow> int \<Rightarrow> bool" where
  "allow hits limit \<longleftrightarrow> (case hits of None \<Rightarrow> True | Some n \<Rightarrow> n \<le> limit)"

definition connectionCount :: "gw_state \<Rightarrow> nat" where
  "connectionCount s = length (gs_conns s)"

definition gw_channels :: "gw_state \<Rightarrow> string list" where
  "gw_channels s = sort (js_unique (concat (map gc_subscriptions (js_values (gs_conns s)))))"

definition register :: "gw_env \<Rightarrow> auth_context \<Rightarrow> string \<Rightarrow> gw_state \<Rightarrow> gw_state" where
  "register e ctx sid s =
     (if int (length (filter (\<lambda>c. ax_projectId (gc_ctx c) = ax_projectId ctx) (js_values (gs_conns s)))) \<ge> go_maxConnsPerProject (ge_opts e)
      then gw_metric (\<lambda>m. m\<lparr>gm_connectionErrors := gm_connectionErrors m + 1\<rparr>) s
      else gw_metric (\<lambda>m. m\<lparr>gm_connections := gm_connections m + 1\<rparr>)
        (s\<lparr>gs_conns := js_set sid \<lparr>gc_ctx = ctx, gc_subscriptions = [], gc_filters = [], gc_channels = [],
             gc_connectedAt = ge_now e, gc_lastHeartbeat = ge_now e, gc_awaitingPong = False\<rparr> (gs_conns s)\<rparr>))"

definition gw_drop :: "string \<Rightarrow> gw_state \<Rightarrow> gw_state" where
  "gw_drop sid s =
     (case js_get (gs_conns s) sid of None \<Rightarrow> s
      | Some c \<Rightarrow>
          let s1 = gw_metric (\<lambda>m. m\<lparr>gm_subscriptions := gm_subscriptions m - int (length (gc_subscriptions c))\<rparr>)
                     (s\<lparr>gs_conns := js_delete sid (gs_conns s)\<rparr>);
              s2 = (case ax_userId (gc_ctx c) of None \<Rightarrow> s1
                    | Some u \<Rightarrow> s1\<lparr>gs_rooms := fold (\<lambda>ch. presence_remove ch u) (gc_subscriptions c) (gs_rooms s1)\<rparr>)
          in s2\<lparr>gs_closed := sid # gs_closed s2\<rparr>)"

section \<open>Fan-out\<close>

definition gw_deliver :: "string \<Rightarrow> server_msg \<Rightarrow> gw_state \<Rightarrow> gw_state" where
  "gw_deliver sid m s =
     (if sid \<in> set (gs_closed s) then gw_drop sid (gw_metric (\<lambda>k. k\<lparr>gm_eventsDropped := gm_eventsDropped k + 1\<rparr>) s)
      else gw_metric (\<lambda>k. k\<lparr>gm_eventsDelivered := gm_eventsDelivered k + 1, gm_deliveredCount := gm_deliveredCount k + 1\<rparr>)
        (gw_send sid m s))"

definition bus_channel :: "bus_msg \<Rightarrow> string" where
  "bus_channel b = (case b of BusChange ch _ \<Rightarrow> ch | BusBroadcast ch _ _ _ _ \<Rightarrow> ch | BusPresence ch _ _ _ \<Rightarrow> ch)"

definition change_row :: "db_change \<Rightarrow> (string \<times> json) list option" where
  "change_row evt = (if dc_type evt = OpDelete then dc_old_record evt else dc_record evt)"

definition known_columns :: "gw_env \<Rightarrow> auth_context \<Rightarrow> db_change \<Rightarrow> string list" where
  "known_columns e ctx evt =
     (case ge_columns e (ax_projectId ctx) (dc_table evt) of Some cs \<Rightarrow> cs
      | None \<Rightarrow> (case change_row evt of None \<Rightarrow> [] | Some r \<Rightarrow> map fst r))"

text \<open>What one connection gets of a bus message; \<open>None\<close> for a message that is counted as dropped.\<close>

definition gw_receive :: "gw_env \<Rightarrow> bus_msg \<Rightarrow> string \<Rightarrow> gw_conn \<Rightarrow> gw_state \<Rightarrow> gw_state" where
  "gw_receive e b sid c s =
     (if bus_channel b \<notin> set (gc_subscriptions c) then s
      else if \<not> canSubscribe (gc_ctx c) (bus_channel b) then s
      else case b of
        BusPresence ch ev u now \<Rightarrow> gw_deliver sid (SmPresence ch ev u now) s
      | BusChange ch evt \<Rightarrow>
          let flt = (case js_get (gc_filters c) ch of None \<Rightarrow> None | Some f \<Rightarrow> f) in
          if \<not> matchesFilter (change_row evt) flt \<or> \<not> canReceive (gc_ctx c) (known_columns e (gc_ctx c) evt) (change_row evt) ''user_id''
          then gw_metric (\<lambda>m. m\<lparr>gm_eventsDropped := gm_eventsDropped m + 1\<rparr>) s
          else gw_deliver sid (SmEvent ch evt) s
      | BusBroadcast ch ev data now from \<Rightarrow>
          if from = Some sid then s else gw_deliver sid (SmBroadcast ch ev data) s)"

definition bus_visit :: "gw_env \<Rightarrow> bus_msg \<Rightarrow> string \<Rightarrow> gw_state \<Rightarrow> gw_state" where
  "bus_visit e b sid s = (case js_get (gs_conns s) sid of None \<Rightarrow> s | Some c \<Rightarrow> gw_receive e b sid c s)"

definition onBusMessage :: "gw_env \<Rightarrow> bus_msg \<Rightarrow> gw_state \<Rightarrow> gw_state" where
  "onBusMessage e b s = fold (bus_visit e b) (map fst (gs_conns s)) s"

text \<open>\<open>MemoryEventBus.publish\<close> with the gateway as its handler.\<close>

definition bus_publish :: "gw_env \<Rightarrow> bus_msg \<Rightarrow> gw_state \<Rightarrow> gw_state" where
  "bus_publish e b s = (if gs_attached s then onBusMessage e b s else s)"

definition table_channel :: "string \<Rightarrow> string \<Rightarrow> string" where
  "table_channel projectId table = ''project:'' @ projectId @ '':table:'' @ table"

definition publishDatabaseChange :: "gw_env \<Rightarrow> string \<Rightarrow> db_change \<Rightarrow> gw_state \<Rightarrow> gw_state" where
  "publishDatabaseChange e projectId evt s =
     bus_publish e (BusChange (table_channel projectId (dc_table evt)) evt)
       (gw_metric (\<lambda>m. m\<lparr>gm_eventsPublished := gm_eventsPublished m + 1\<rparr>) s)"

definition or_null :: "json \<Rightarrow> json" where
  "or_null v = (if v = JUndefined then JNull else v)"

definition count_broadcast :: "gw_metrics \<Rightarrow> gw_metrics" where
  "count_broadcast m = m\<lparr>gm_broadcasts := gm_broadcasts m + 1, gm_eventsPublished := gm_eventsPublished m + 1\<rparr>"

definition publishBroadcast :: "gw_env \<Rightarrow> string \<Rightarrow> string \<Rightarrow> json \<Rightarrow> gw_state \<Rightarrow> gw_state" where
  "publishBroadcast e channel event data s =
     bus_publish e (BusBroadcast channel event (or_null data) (ge_now e) None) (gw_metric count_broadcast s)"

section \<open>Messages of a client\<close>

definition gw_forbid :: "string \<Rightarrow> string option \<Rightarrow> gw_state \<Rightarrow> gw_state" where
  "gw_forbid sid mid s = gw_send sid (SmError mid ''FORBIDDEN'') (gw_metric (\<lambda>m. m\<lparr>gm_authFailures := gm_authFailures m + 1\<rparr>) s)"

text \<open>Adding to the set of subscriptions.\<close>

definition join_channel :: "string \<Rightarrow> sub_filter option \<Rightarrow> gw_conn \<Rightarrow> gw_conn" where
  "join_channel ch flt c = (let subs = (if ch \<in> set (gc_subscriptions c) then gc_subscriptions c else gc_subscriptions c @ [ch]) in
     c\<lparr>gc_subscriptions := subs, gc_filters := js_set ch flt (gc_filters c), gc_channels := subs\<rparr>)"

definition count_subscription :: "int \<Rightarrow> gw_state \<Rightarrow> gw_state" where
  "count_subscription k s = gw_metric (\<lambda>m. m\<lparr>gm_subscriptions := gm_subscriptions m + k\<rparr>) s"

definition gw_subscribe :: "gw_env \<Rightarrow> string \<Rightarrow> gw_conn \<Rightarrow> string option \<Rightarrow> json \<Rightarrow> json \<Rightarrow> gw_state \<Rightarrow> gw_state" where
  "gw_subscribe e sid c mid rawChannel rawFilter s =
     (case rawChannel of JStr ch \<Rightarrow>
        (case parseChannel ch of None \<Rightarrow> gw_send sid (SmError mid ''INVALID_CHANNEL'') s
         | Some parsed \<Rightarrow>
             if \<not> canSubscribe (gc_ctx c) ch \<or> pc_project parsed \<noteq> ax_projectId (gc_ctx c) then gw_forbid sid mid s
             else if int (length (gc_subscriptions c)) \<ge> go_maxSubsPerConn (ge_opts e) then gw_send sid (SmError mid ''SUBSCRIPTION_LIMIT'') s
             else
               let table = tableOfTopic (pc_topic parsed);
                   flt = (if rawFilter = JUndefined \<or> rawFilter = JNull then Some None
                          else if table = None then None else parseSubscriptionFilter rawFilter) in
               (case flt of None \<Rightarrow> gw_send sid (SmError mid ''INVALID_FILTER'') s
                | Some f \<Rightarrow>
                    if (\<exists>t \<in> set_option table. \<not> ge_feed e (ax_projectId (gc_ctx c)) t) then gw_send sid (SmError mid ''TABLE_UNAVAILABLE'') s
                    else gw_send sid (SmSubscribed mid ch) (count_subscription 1 (gw_update sid (join_channel ch f) s))))
      | _ \<Rightarrow> gw_send sid (SmError mid ''INVALID_CHANNEL'') s)"

definition leave_channel :: "string \<Rightarrow> gw_conn \<Rightarrow> gw_conn" where
  "leave_channel ch c = c\<lparr>gc_subscriptions := removeAll ch (gc_subscriptions c), gc_filters := js_delete ch (gc_filters c),
     gc_channels := removeAll ch (gc_subscriptions c)\<rparr>"

definition presence_gone :: "string \<Rightarrow> string option \<Rightarrow> gw_state \<Rightarrow> gw_state" where
  "presence_gone ch user s = (case user of None \<Rightarrow> s | Some u \<Rightarrow> s\<lparr>gs_rooms := presence_remove ch u (gs_rooms s)\<rparr>)"

definition gw_unsubscribe :: "string \<Rightarrow> gw_conn \<Rightarrow> string option \<Rightarrow> json \<Rightarrow> gw_state \<Rightarrow> gw_state" where
  "gw_unsubscribe sid c mid rawChannel s =
     (case rawChannel of JStr ch \<Rightarrow>
        gw_send sid (SmUnsubscribed mid ch) (presence_gone ch (ax_userId (gc_ctx c)) (gw_update sid (leave_channel ch)
          (if ch \<in> set (gc_subscriptions c) then count_subscription (- 1) s else s)))
      | _ \<Rightarrow> gw_send sid (SmError mid ''INVALID_CHANNEL'') s)"

definition gw_broadcast :: "gw_env \<Rightarrow> string \<Rightarrow> gw_conn \<Rightarrow> string option \<Rightarrow> json \<Rightarrow> json \<Rightarrow> json \<Rightarrow> gw_state \<Rightarrow> gw_state" where
  "gw_broadcast e sid c mid rawChannel rawEvent data s =
     (case (rawChannel, rawEvent) of (JStr ch, JStr event) \<Rightarrow>
        if event = [] \<or> 80 < length event then gw_send sid (SmError mid ''INVALID_BROADCAST'') s
        else if \<not> canBroadcast (gc_ctx c) ch then gw_forbid sid mid s
        else if int (length (json_stringify (or_null data))) > go_maxPayloadBytes (ge_opts e) then gw_send sid (SmError mid ''PAYLOAD_TOO_LARGE'') s
        else if \<not> allow (ge_count e (''rt:bcast:'' @ (case ax_userId (gc_ctx c) of None \<Rightarrow> sid | Some u \<Rightarrow> u))) (go_maxBroadcastsPerMinute (ge_opts e))
        then gw_send sid (SmError mid ''RATE_LIMITED'') s
        else gw_send sid (SmBroadcastAck mid ch event)
          (bus_publish e (BusBroadcast ch event (or_null data) (ge_now e) (Some sid)) (gw_metric count_broadcast s))
      | _ \<Rightarrow> gw_send sid (SmError mid ''INVALID_BROADCAST'') s)"

definition presence_meta :: "json \<Rightarrow> (string \<times> json) list" where
  "presence_meta v = (case v of JObj kvs \<Rightarrow> kvs | _ \<Rightarrow> [])"

definition gw_trackPresence :: "gw_env \<Rightarrow> string \<Rightarrow> gw_conn \<Rightarrow> string option \<Rightarrow> json \<Rightarrow> json \<Rightarrow> gw_state \<Rightarrow> gw_state" where
  "gw_trackPresence e sid c mid rawChannel data s =
     (case (rawChannel, ax_userId (gc_ctx c)) of (JStr ch, Some u) \<Rightarrow>
        if \<not> canTrackPresence (gc_ctx c) ch then gw_send sid (SmError mid ''FORBIDDEN'') s
        else let meta = presence_meta data in
          if 4096 < int (length (json_stringify (JObj meta))) then gw_send sid (SmError mid ''PAYLOAD_TOO_LARGE'') s
          else
            let status = (case json_field meta ''status'' of JStr t \<Rightarrow> take 40 t | _ \<Rightarrow> ''online'');
                s1 = gw_metric (\<lambda>m. m\<lparr>gm_presenceEntries := gm_presenceEntries m + 1\<rparr>)
                       (s\<lparr>gs_rooms := presence_track ch u status (JObj meta) (ge_now e) (gs_rooms s)\<rparr>);
                s2 = (if ch \<in> set (gc_subscriptions c) then s1 else count_subscription 1 (gw_update sid (join_channel ch None) s1)) in
            gw_send sid (SmPresenceAck mid ch ''tracked'') (bus_publish e (BusPresence ch ''join'' u (ge_now e)) s2)
      | _ \<Rightarrow> gw_send sid (SmError mid ''FORBIDDEN'') s)"

definition gw_removePresence :: "gw_env \<Rightarrow> string \<Rightarrow> gw_conn \<Rightarrow> string option \<Rightarrow> json \<Rightarrow> gw_state \<Rightarrow> gw_state" where
  "gw_removePresence e sid c mid rawChannel s =
     (case (rawChannel, ax_userId (gc_ctx c)) of (JStr ch, Some u) \<Rightarrow>
        gw_send sid (SmPresenceAck mid ch ''removed'')
          (bus_publish e (BusPresence ch ''leave'' u (ge_now e)) (s\<lparr>gs_rooms := presence_remove ch u (gs_rooms s)\<rparr>))
      | _ \<Rightarrow> gw_send sid (SmError mid ''INVALID_CHANNEL'') s)"

definition gw_dispatch :: "gw_env \<Rightarrow> string \<Rightarrow> gw_conn \<Rightarrow> (string \<times> json) list \<Rightarrow> string \<Rightarrow> gw_state \<Rightarrow> gw_state" where
  "gw_dispatch e sid c msg type s =
     (let mid = (case json_field msg ''id'' of JStr i \<Rightarrow> Some i | _ \<Rightarrow> None); channel = json_field msg ''channel'' in
      if type = ''ping'' then gw_send sid (SmPong mid)
        (gw_update sid (\<lambda>c. c\<lparr>gc_lastHeartbeat := ge_now e, gc_awaitingPong := False\<rparr>) s)
      else if type = ''subscribe'' then gw_subscribe e sid c mid channel (json_field msg ''filter'') s
      else if type = ''unsubscribe'' then gw_unsubscribe sid c mid channel s
      else if type = ''broadcast'' then gw_broadcast e sid c mid channel (json_field msg ''event'') (json_field msg ''data'') s
      else if type = ''presence.set'' then gw_trackPresence e sid c mid channel (json_field msg ''data'') s
      else if type = ''presence.remove'' then gw_removePresence e sid c mid channel s
      else gw_send sid (SmError mid ''UNKNOWN_TYPE'') s)"

definition handleText :: "gw_env \<Rightarrow> string \<Rightarrow> string \<Rightarrow> gw_state \<Rightarrow> gw_state" where
  "handleText e sid text s =
     (case js_get (gs_conns s) sid of None \<Rightarrow> s
      | Some c \<Rightarrow>
          if sid \<in> set (gs_closed s) then s
          else if int (length text) > go_maxPayloadBytes (ge_opts e) then gw_send sid (SmError None ''PAYLOAD_TOO_LARGE'') s
          else if \<not> allow (ge_count e (''rt:msg:'' @ sid)) (go_maxMsgPerSecond (ge_opts e)) then gw_send sid (SmError None ''RATE_LIMITED'') s
          else case ge_parse e text of
              None \<Rightarrow> gw_send sid (SmError None ''MALFORMED_JSON'') s
            | Some (JObj msg) \<Rightarrow> (case json_field msg ''type'' of JStr type \<Rightarrow> gw_dispatch e sid c msg type s
                | _ \<Rightarrow> gw_send sid (SmError None ''BAD_MESSAGE'') s)
            | _ \<Rightarrow> gw_send sid (SmError None ''BAD_MESSAGE'') s)"

section \<open>Sweep and shutdown\<close>

definition overdue :: "gw_env \<Rightarrow> gw_conn \<Rightarrow> bool" where
  "overdue e c \<longleftrightarrow> (\<exists>x \<in> set_option (ax_expiresAt (gc_ctx c)). x \<le> ge_now e) \<or> ge_now e - gc_lastHeartbeat c > go_heartbeatTimeoutMs (ge_opts e)"

definition gw_sweep :: "gw_env \<Rightarrow> gw_state \<Rightarrow> nat \<times> gw_state" where
  "gw_sweep e s = fold (\<lambda>(sid, c) (n, s). if overdue e c then (n + 1, gw_drop sid s) else (n, s)) (gs_conns s) (0, s)"

definition channelsFor :: "string \<Rightarrow> gw_state \<Rightarrow> (string \<times> nat) list" where
  "channelsFor projectId s =
     (let subs = concat (map gc_subscriptions (filter (\<lambda>c. ax_projectId (gc_ctx c) = projectId) (js_values (gs_conns s)))) in
      map (\<lambda>ch. (ch, length (filter ((=) ch) subs))) (sort (js_unique subs)))"

definition gw_shutdown :: "gw_state \<Rightarrow> gw_state" where
  "gw_shutdown s = (fold gw_drop (map fst (gs_conns s)) s)\<lparr>gs_attached := False\<rparr>"

text \<open>The socket closes from outside: \<open>TcpSocket\<close> becomes dead; the \<open>close\<close> event of the server drops the connection
  later.\<close>

definition socket_closes :: "string \<Rightarrow> gw_state \<Rightarrow> gw_state" where
  "socket_closes sid s = s\<lparr>gs_closed := sid # gs_closed s\<rparr>"

end
