(* ===== verification/RealtimeSafety.thy ===== *)
theory RealtimeSafety
  imports RealtimeGateway
begin

text \<open>
  What the gateway delivers and keeps: nothing crosses a project, those who may only listen cannot speak, the sweep closes
  exactly the overdue connections, and the invariant of every state the gateway can reach.
\<close>

section \<open>Events\<close>

datatype gw_event =
    GwRegister auth_context string
  | GwText string string
  | GwChange string db_change
  | GwServerBroadcast string string json
  | GwDrop string
  | GwSweep
  | GwSocketCloses string
  | GwShutdown

definition gw_step :: "gw_env \<Rightarrow> gw_event \<Rightarrow> gw_state \<Rightarrow> gw_state" where
  "gw_step e ev s =
     (case ev of
        GwRegister ctx sid \<Rightarrow> register e ctx sid s
      | GwText sid text \<Rightarrow> handleText e sid text s
      | GwChange projectId evt \<Rightarrow> publishDatabaseChange e projectId evt s
      | GwServerBroadcast ch event data \<Rightarrow> publishBroadcast e ch event data s
      | GwDrop sid \<Rightarrow> gw_drop sid s
      | GwSweep \<Rightarrow> snd (gw_sweep e s)
      | GwSocketCloses sid \<Rightarrow> socket_closes sid s
      | GwShutdown \<Rightarrow> gw_shutdown s)"

text \<open>What was written between two states.\<close>

definition gw_new :: "gw_state \<Rightarrow> gw_state \<Rightarrow> (string \<times> server_msg) list" where
  "gw_new s t = drop (length (gs_sent s)) (gs_sent t)"

fun delivered_channel :: "server_msg \<Rightarrow> string option" where
  "delivered_channel (SmEvent ch _) = Some ch"
| "delivered_channel (SmBroadcast ch _ _) = Some ch"
| "delivered_channel (SmPresence ch _ _ _) = Some ch"
| "delivered_channel _ = None"

section \<open>Fan-out\<close>

text \<open>What a bus message may bring a connection.\<close>

definition gw_may :: "gw_env \<Rightarrow> bus_msg \<Rightarrow> string \<Rightarrow> gw_conn \<Rightarrow> server_msg \<Rightarrow> bool" where
  "gw_may e b sid c m \<longleftrightarrow> bus_channel b \<in> set (gc_subscriptions c) \<and> canSubscribe (gc_ctx c) (bus_channel b) \<and>
     (case b of
        BusPresence ch ev u now \<Rightarrow> m = SmPresence ch ev u now
      | BusChange ch evt \<Rightarrow> m = SmEvent ch evt \<and> canReceive (gc_ctx c) (known_columns e (gc_ctx c) evt) (change_row evt) ''user_id''
      | BusBroadcast ch ev data now from \<Rightarrow> m = SmBroadcast ch ev data \<and> from \<noteq> Some sid)"

text \<open>A state after which no connection is new or changed.\<close>

definition gw_fewer :: "gw_state \<Rightarrow> gw_state \<Rightarrow> bool" where
  "gw_fewer s t \<longleftrightarrow> (\<exists>p. gs_conns t = filter p (gs_conns s))"

lemma gw_metric_simps [simp]:
  "gs_conns (gw_metric f s) = gs_conns s" "gs_sent (gw_metric f s) = gs_sent s" "gs_closed (gw_metric f s) = gs_closed s"
  "gs_rooms (gw_metric f s) = gs_rooms s" "gs_attached (gw_metric f s) = gs_attached s" "gs_metrics (gw_metric f s) = f (gs_metrics s)"
  by (simp_all add: gw_metric_def)

lemma gw_send_simps [simp]:
  "gs_conns (gw_send sid m s) = gs_conns s" "gs_sent (gw_send sid m s) = gs_sent s @ [(sid, m)]" "gs_closed (gw_send sid m s) = gs_closed s"
  "gs_rooms (gw_send sid m s) = gs_rooms s" "gs_attached (gw_send sid m s) = gs_attached s" "gs_metrics (gw_send sid m s) = gs_metrics s"
  by (simp_all add: gw_send_def)

lemma count_subscription_simps [simp]:
  "gs_conns (count_subscription k s) = gs_conns s" "gs_sent (count_subscription k s) = gs_sent s" "gs_closed (count_subscription k s) = gs_closed s"
  "gm_subscriptions (gs_metrics (count_subscription k s)) = gm_subscriptions (gs_metrics s) + k"
  by (simp_all add: count_subscription_def)

lemma gw_update_simps [simp]:
  "gs_sent (gw_update sid f s) = gs_sent s" "gs_closed (gw_update sid f s) = gs_closed s"
  "gs_metrics (gw_update sid f s) = gs_metrics s"
  by (simp_all add: gw_update_def split: option.splits)

lemma gw_drop_simps [simp]:
  "gs_conns (gw_drop sid s) = js_delete sid (gs_conns s)" "gs_sent (gw_drop sid s) = gs_sent s"
  by (auto simp: gw_drop_def Let_def split: option.splits) (simp_all add: delete_id map_of_eq_None_iff)

lemma presence_gone_simps [simp]:
  "gs_conns (presence_gone ch u s) = gs_conns s" "gs_sent (presence_gone ch u s) = gs_sent s"
  "gs_metrics (presence_gone ch u s) = gs_metrics s"
  by (simp_all add: presence_gone_def split: option.splits)

lemma fewer_refl [simp]: "gw_fewer s s"
  by (auto simp: gw_fewer_def intro: exI [of _ "\<lambda>_. True"])

lemma fewer_trans: "gw_fewer s t \<Longrightarrow> gw_fewer t u \<Longrightarrow> gw_fewer s u"
  by (auto simp: gw_fewer_def)

lemma fewer_drop: "gw_fewer s (gw_drop sid s)"
  by (auto simp: gw_fewer_def AList.delete_eq)

lemma fewer_deliver: "gw_fewer s (gw_deliver sid m s)"
  using fewer_drop [of "gw_metric f s" sid for f] by (auto simp: gw_deliver_def gw_fewer_def intro: exI [of _ "\<lambda>_. True"])

lemma fewer_receive: "gw_fewer s (gw_receive e b sid c s)"
  by (auto simp: gw_receive_def Let_def fewer_deliver split: bus_msg.splits) (auto simp: gw_fewer_def intro: exI [of _ "\<lambda>_. True"])

lemma fewer_get:
  assumes "gw_fewer s t" "js_ok (gs_conns s)" "js_get (gs_conns t) sid = Some c"
  shows "js_get (gs_conns s) sid = Some c"
proof -
  have "(sid, c) \<in> set (gs_conns s)" using assms(1,3) by (auto simp: gw_fewer_def dest: map_of_SomeD)
  then show ?thesis using assms(2) by (simp add: js_pair_get)
qed

lemma deliver_sent: "gs_sent (gw_deliver sid m s) = gs_sent s @ (if sid \<in> set (gs_closed s) then [] else [(sid, m)])"
  by (simp add: gw_deliver_def)

text \<open>Everything that is written between two states satisfies a condition.\<close>

definition writes :: "gw_state \<Rightarrow> gw_state \<Rightarrow> (string \<Rightarrow> server_msg \<Rightarrow> bool) \<Rightarrow> bool" where
  "writes s t P \<longleftrightarrow> (\<exists>new. gs_sent t = gs_sent s @ new \<and> (\<forall>(sid, m) \<in> set new. P sid m))"

lemma writes_nothing: "gs_sent t = gs_sent s \<Longrightarrow> writes s t P"
  by (simp add: writes_def)

lemma writes_silent [simp]:
  "writes s s P" "writes s (gw_metric f t) P = writes s t P" "writes s (gw_update sid g t) P = writes s t P"
  "writes s (count_subscription k t) P = writes s t P" "writes s (presence_gone ch u t) P = writes s t P"
  "writes s (t\<lparr>gs_rooms := r\<rparr>) P = writes s t P"
  by (simp_all add: writes_def)

lemma writes_trans:
  assumes "writes s t P" and "writes t u P"
  shows "writes s u P"
proof -
  obtain new where new: "gs_sent t = gs_sent s @ new" "\<forall>(sid, m) \<in> set new. P sid m" using assms(1) by (auto simp: writes_def)
  obtain more where more: "gs_sent u = gs_sent t @ more" "\<forall>(sid, m) \<in> set more. P sid m" using assms(2) by (auto simp: writes_def)
  show ?thesis unfolding writes_def using new more by (intro exI [of _ "new @ more"]) auto
qed

lemma writes_mono: "writes s t P \<Longrightarrow> (\<And>sid m. P sid m \<Longrightarrow> Q sid m) \<Longrightarrow> writes s t Q"
  unfolding writes_def by blast

lemma writes_send: "writes s t P \<Longrightarrow> P sid m \<Longrightarrow> writes s (gw_send sid m t) P"
  by (rule writes_trans) (auto simp: writes_def)

lemma writes_from: "writes s t P \<Longrightarrow> gs_sent s = gs_sent s' \<Longrightarrow> writes s' t P"
  by (simp add: writes_def)

lemma writes_if: "writes s x P \<Longrightarrow> writes s y P \<Longrightarrow> writes s (if b then x else y) P"
  by simp

lemma writes_new: "writes s t P \<Longrightarrow> (sid, m) \<in> set (gw_new s t) \<Longrightarrow> P sid m"
  by (auto simp: writes_def gw_new_def)

lemma receive_writes: "writes s (gw_receive e b sid c s) (\<lambda>k m. k = sid \<and> gw_may e b sid c m)"
  by (auto simp: writes_def gw_receive_def gw_may_def bus_channel_def deliver_sent Let_def split: bus_msg.splits)

lemma bus_fold:
  assumes "gw_fewer s0 s" and ok: "js_ok (gs_conns s0)"
  shows "gw_fewer s0 (fold (bus_visit e b) ks s) \<and>
    writes s (fold (bus_visit e b) ks s) (\<lambda>sid m. \<exists>c. js_get (gs_conns s0) sid = Some c \<and> gw_may e b sid c m)"
  using assms(1)
proof (induction ks arbitrary: s)
  case Nil
  then show ?case by (simp add: writes_nothing)
next
  case (Cons k ks)
  show ?case
  proof (cases "js_get (gs_conns s) k")
    case None
    then show ?thesis using Cons by (simp add: bus_visit_def)
  next
    case (Some c)
    let ?t = "gw_receive e b k c s"
    have "js_get (gs_conns s0) k = Some c" using fewer_get [OF Cons.prems ok Some] .
    then have "writes s ?t (\<lambda>sid m. \<exists>c. js_get (gs_conns s0) sid = Some c \<and> gw_may e b sid c m)"
      by (intro writes_mono [OF receive_writes]) auto
    moreover have "gw_fewer s0 ?t" using fewer_trans [OF Cons.prems fewer_receive] .
    ultimately show ?thesis using Cons.IH [of ?t] writes_trans Some by (simp add: bus_visit_def)
  qed
qed

lemma publish_fewer: "js_ok (gs_conns s) \<Longrightarrow> gw_fewer s (bus_publish e b s)"
  using bus_fold [OF fewer_refl] by (simp add: bus_publish_def onBusMessage_def)

text \<open>The parties of a fan-out, seen from the state before the step.\<close>

definition party :: "gw_env \<Rightarrow> bus_msg \<Rightarrow> gw_state \<Rightarrow> string \<Rightarrow> server_msg \<Rightarrow> bool" where
  "party e b s sid m \<longleftrightarrow> (\<exists>c. map_option gc_ctx (js_get (gs_conns s) sid) = Some (gc_ctx c) \<and> gw_may e b sid c m)"

lemma publish_writes:
  assumes "js_ok (gs_conns s')"
    and "\<And>sid. map_option gc_ctx (js_get (gs_conns s') sid) = map_option gc_ctx (js_get (gs_conns s) sid)"
    and "gs_sent s' = gs_sent s"
  shows "writes s (bus_publish e b s') (party e b s)"
proof -
  have "writes s' (bus_publish e b s') (\<lambda>sid m. \<exists>c. js_get (gs_conns s') sid = Some c \<and> gw_may e b sid c m)"
    using bus_fold [OF fewer_refl assms(1)] by (simp add: bus_publish_def onBusMessage_def writes_nothing)
  then have "writes s' (bus_publish e b s') (party e b s)"
  proof (rule writes_mono)
    fix sid m assume "\<exists>c. js_get (gs_conns s') sid = Some c \<and> gw_may e b sid c m"
    then obtain c where c: "js_get (gs_conns s') sid = Some c" "gw_may e b sid c m" by blast
    then have "map_option gc_ctx (js_get (gs_conns s) sid) = Some (gc_ctx c)" using assms(2) [of sid] by simp
    then show "party e b s sid m" unfolding party_def using c(2) by blast
  qed
  then show ?thesis using assms(3) by (rule writes_from)
qed

lemma may_delivers: "gw_may e b sid c m \<Longrightarrow> delivered_channel m = Some (bus_channel b)"
  by (auto simp: gw_may_def bus_channel_def split: bus_msg.splits)

section \<open>What a client can cause\<close>

lemma update_ctx:
  assumes "\<And>c. gc_ctx (f c) = gc_ctx c"
  shows "map_option gc_ctx (js_get (gs_conns (gw_update sid f s)) k) = map_option gc_ctx (js_get (gs_conns s) k)"
  using assms by (auto simp: gw_update_def split: option.splits)

lemma update_ok: "js_ok (gs_conns s) \<Longrightarrow> js_ok (gs_conns (gw_update sid f s))"
  by (auto simp: gw_update_def js_ok_set split: option.splits)

lemma join_ctx [simp]: "gc_ctx (join_channel ch f c) = gc_ctx c"
  by (simp add: join_channel_def Let_def)

text \<open>The bus message a text of a client publishes, as far as its kind and its sender go.\<close>

fun speaks :: "bus_msg \<Rightarrow> bool" where
  "speaks (BusPresence _ _ _ _) = False"
| "speaks _ = True"

definition caused :: "gw_env \<Rightarrow> string \<Rightarrow> gw_conn \<Rightarrow> gw_state \<Rightarrow> string \<Rightarrow> server_msg \<Rightarrow> bool" where
  "caused e sid c s k m \<longleftrightarrow> (k = sid \<and> delivered_channel m = None) \<or>
     (\<exists>b. party e b s k m \<and> (\<forall>ch evt. b \<noteq> BusChange ch evt) \<and> (speaks b \<longrightarrow> canBroadcast (gc_ctx c) (bus_channel b)))"

lemma caused_answer [simp]: "delivered_channel m = None \<Longrightarrow> caused e sid c s sid m"
  by (simp add: caused_def)

lemma subscribe_writes: "writes s (gw_subscribe e sid c mid ch f s) (caused e sid c s)"
  unfolding gw_subscribe_def gw_forbid_def Let_def
  by (auto intro!: writes_send split: json.splits option.splits)

lemma unsubscribe_writes: "writes s (gw_unsubscribe sid c mid ch s) (caused e sid c s)"
  unfolding gw_unsubscribe_def by (auto intro!: writes_send split: json.splits)

lemma publish_caused:
  assumes "js_ok (gs_conns s')"
    and "\<And>sid. map_option gc_ctx (js_get (gs_conns s') sid) = map_option gc_ctx (js_get (gs_conns s) sid)"
    and "gs_sent s' = gs_sent s" and "\<And>ch evt. b \<noteq> BusChange ch evt" and "speaks b \<Longrightarrow> canBroadcast (gc_ctx c) (bus_channel b)"
  shows "writes s (bus_publish e b s') (caused e sid c s)"
  using publish_writes [OF assms(1-3)] by (rule writes_mono) (auto simp: caused_def assms(4,5))

lemma broadcast_writes: "js_ok (gs_conns s) \<Longrightarrow> writes s (gw_broadcast e sid c mid ch ev d s) (caused e sid c s)"
  unfolding gw_broadcast_def gw_forbid_def
  by (auto intro!: writes_send publish_caused simp: bus_channel_def split: json.splits)

lemma track_writes: "js_ok (gs_conns s) \<Longrightarrow> writes s (gw_trackPresence e sid c mid ch d s) (caused e sid c s)"
  unfolding gw_trackPresence_def Let_def
  by (auto intro!: writes_send publish_caused update_ok simp: bus_channel_def update_ctx split: json.splits option.splits)

lemma remove_writes: "js_ok (gs_conns s) \<Longrightarrow> writes s (gw_removePresence e sid c mid ch s) (caused e sid c s)"
  unfolding gw_removePresence_def
  by (auto intro!: writes_send publish_caused simp: bus_channel_def split: json.splits option.splits)

lemma dispatch_writes: "js_ok (gs_conns s) \<Longrightarrow> writes s (gw_dispatch e sid c msg type s) (caused e sid c s)"
  unfolding gw_dispatch_def Let_def
  by (intro writes_if subscribe_writes unsubscribe_writes broadcast_writes track_writes remove_writes writes_send) simp_all

lemma text_writes:
  assumes "js_ok (gs_conns s)" and "js_get (gs_conns s) sid = Some c"
  shows "writes s (handleText e sid text s) (caused e sid c s)"
  using assms unfolding handleText_def
  by (auto intro!: writes_send dispatch_writes split: option.splits json.splits)

text \<open>C30. A connection whose role may only listen (a viewer, an anonymous or public caller, a read-only agent) makes nobody
  receive a broadcast or a row change, whatever text it sends: all its messages cause is an answer to itself or a presence
  notice.\<close>

theorem listeners_cannot_speak:
  assumes "js_ok (gs_conns s)" and "js_get (gs_conns s) sid = Some c"
    and "ax_role (gc_ctx c) \<in> {''viewer'', ''anonymous'', ''public'', ''agent:readonly''}"
    and "(k, m) \<in> set (gw_new s (handleText e sid text s))"
  shows "k = sid \<and> delivered_channel m = None \<or> (\<exists>ch ev u t. m = SmPresence ch ev u t)"
proof -
  have "caused e sid c s k m" using text_writes [OF assms(1,2)] assms(4) by (rule writes_new)
  moreover have "\<not> canBroadcast (gc_ctx c) ch" for ch using assms(3) by (auto simp: canBroadcast_def)
  ultimately consider "k = sid \<and> delivered_channel m = None"
    | b where "party e b s k m" "\<not> speaks b" unfolding caused_def by blast
  then show ?thesis
  proof cases
    case 2
    then show ?thesis by (cases b) (auto simp: party_def gw_may_def)
  qed simp
qed

section \<open>What leaves the gateway\<close>

lemma drop_writes: "writes s (gw_drop sid t) P = writes s t P"
  by (simp add: writes_def)

lemma fold_drop_sent: "gs_sent (fold gw_drop ks s) = gs_sent s"
  by (induction ks arbitrary: s) simp_all

lemma sweep_fold_sent: "gs_sent (snd (fold (\<lambda>(sid, c) (n, s). if overdue e c then (n + 1, gw_drop sid s) else (n, s)) cs (n, s))) = gs_sent s"
  by (induction cs arbitrary: n s) auto

text \<open>What may be written in a step: an answer, or what a bus message brings its parties; a change of a row comes from the
  change capture of a project.\<close>

definition lawful :: "gw_env \<Rightarrow> gw_event \<Rightarrow> gw_state \<Rightarrow> string \<Rightarrow> server_msg \<Rightarrow> bool" where
  "lawful e ev s k m \<longleftrightarrow> delivered_channel m = None \<or>
     (\<exists>b. party e b s k m \<and> (\<forall>ch evt. b = BusChange ch evt \<longrightarrow> (\<exists>pid. ev = GwChange pid evt \<and> ch = table_channel pid (dc_table evt))))"

lemma step_writes:
  assumes ok: "js_ok (gs_conns s)"
  shows "writes s (gw_step e ev s) (lawful e ev s)"
proof (cases ev)
  case (GwRegister ctx sid)
  then show ?thesis by (simp add: gw_step_def register_def writes_def)
next
  case (GwText sid body)
  show ?thesis
  proof (cases "js_get (gs_conns s) sid")
    case (Some c)
    show ?thesis using text_writes [OF ok Some, of e body] unfolding gw_step_def GwText gw_event.case
      by (rule writes_mono) (auto simp: caused_def lawful_def)
  qed (simp add: gw_step_def GwText handleText_def)
next
  case (GwChange pid evt)
  have "writes s (gw_step e ev s) (party e (BusChange (table_channel pid (dc_table evt)) evt) s)"
    unfolding gw_step_def GwChange gw_event.case publishDatabaseChange_def by (rule publish_writes) (simp_all add: ok)
  then show ?thesis by (rule writes_mono) (auto simp: lawful_def GwChange)
next
  case (GwServerBroadcast ch event data)
  have "writes s (gw_step e ev s) (party e (BusBroadcast ch event (or_null data) (ge_now e) None) s)"
    unfolding gw_step_def GwServerBroadcast gw_event.case publishBroadcast_def by (rule publish_writes) (simp_all add: ok)
  then show ?thesis by (rule writes_mono) (auto simp: lawful_def)
next
  case GwSweep
  then show ?thesis by (simp add: gw_step_def gw_sweep_def writes_nothing sweep_fold_sent)
qed (simp_all add: gw_step_def drop_writes socket_closes_def gw_shutdown_def writes_nothing fold_drop_sent)

lemma table_channel_project:
  assumes "parseChannel (table_channel pid t) = Some p" and "length pid = 36"
  shows "pc_project p = pid"
  using assms by (auto simp: parseChannel_def table_channel_def Let_def split: if_splits)

lemma receives_own:
  assumes "canReceive ctx cols row column" and "ax_role ctx = ''authenticated''" and "column \<in> set cols"
  shows "\<exists>r u. row = Some r \<and> ax_userId ctx = Some u \<and> text_or_empty (json_field r column) = u"
  using assms by (auto simp: canReceive_def split: option.splits)

text \<open>C29. Nothing leaves its project: whatever happens at the gateway, a delivery goes to a connection whose credential is
  for the project of the channel; and a row change is one that the capture of that very project published, whose row the
  role may see: of a table with owners an end user gets a change only when the row after it (for a deletion, the row
  deleted) is the user's own. The row before an update travels with the event and is not looked at: a user to whom a row
  is handed over gets the former owner's version of it too.\<close>

theorem deliveries_stay_in_the_project:
  assumes "js_ok (gs_conns s)" and "(sid, m) \<in> set (gw_new s (gw_step e ev s))" and "delivered_channel m = Some ch"
  shows "\<exists>c. js_get (gs_conns s) sid = Some c \<and> canSubscribe (gc_ctx c) ch \<and>
    (\<forall>evt. m = SmEvent ch evt \<longrightarrow>
      canReceive (gc_ctx c) (known_columns e (gc_ctx c) evt) (change_row evt) ''user_id'' \<and>
      (ax_role (gc_ctx c) = ''authenticated'' \<and> ''user_id'' \<in> set (known_columns e (gc_ctx c) evt) \<longrightarrow>
         (\<exists>row u. (if dc_type evt = OpDelete then dc_old_record evt else dc_record evt) = Some row \<and>
            ax_userId (gc_ctx c) = Some u \<and> text_or_empty (json_field row ''user_id'') = u)) \<and>
      (\<exists>pid. ev = GwChange pid evt \<and> (length pid = 36 \<longrightarrow> pid = ax_projectId (gc_ctx c))))"
proof -
  have "lawful e ev s sid m" using step_writes [OF assms(1)] assms(2) by (rule writes_new)
  then obtain b where b: "party e b s sid m"
    "\<And>ch evt. b = BusChange ch evt \<Longrightarrow> \<exists>pid. ev = GwChange pid evt \<and> ch = table_channel pid (dc_table evt)"
    using assms(3) unfolding lawful_def by auto
  then obtain c' where c': "map_option gc_ctx (js_get (gs_conns s) sid) = Some (gc_ctx c')" "gw_may e b sid c' m"
    unfolding party_def by blast
  then obtain c where c: "js_get (gs_conns s) sid = Some c" "gc_ctx c' = gc_ctx c" by (cases "js_get (gs_conns s) sid") auto
  have ch: "bus_channel b = ch" using may_delivers [OF c'(2)] assms(3) by simp
  have sub: "canSubscribe (gc_ctx c) ch" using c'(2) c(2) ch by (simp add: gw_may_def)
  have row: "canReceive (gc_ctx c) (known_columns e (gc_ctx c) evt) (change_row evt) ''user_id'' \<and>
      (\<exists>pid. ev = GwChange pid evt \<and> (length pid = 36 \<longrightarrow> pid = ax_projectId (gc_ctx c)))" if m: "m = SmEvent ch evt" for evt
  proof -
    have be: "b = BusChange ch evt" using c'(2) m by (auto simp: gw_may_def split: bus_msg.splits)
    then obtain pid where pid: "ev = GwChange pid evt" "ch = table_channel pid (dc_table evt)" using b(2) by blast
    have "length pid = 36 \<longrightarrow> pid = ax_projectId (gc_ctx c)"
      using sub table_channel_project unfolding canSubscribe_def pid(2) by (auto split: option.splits)
    then show ?thesis using c'(2) c(2) be pid(1) by (auto simp: gw_may_def)
  qed
  have "\<exists>row u. (if dc_type evt = OpDelete then dc_old_record evt else dc_record evt) = Some row \<and>
      ax_userId (gc_ctx c) = Some u \<and> text_or_empty (json_field row ''user_id'') = u"
    if "m = SmEvent ch evt" "ax_role (gc_ctx c) = ''authenticated'' \<and> ''user_id'' \<in> set (known_columns e (gc_ctx c) evt)" for evt
    using receives_own [OF row [OF that(1), THEN conjunct1]] that(2) by (simp add: change_row_def)
  with row show ?thesis using c(1) sub by blast
qed

end
