(* ===== verification/RealtimeInvariants.thy ===== *)
theory RealtimeInvariants
  imports RealtimeSafety
begin

text \<open>
  The invariant of the gateway over its reachable states, what the sweep closes and what keeps a connection alive; runs that
  show where the gateway lets a client past its own rules.
\<close>

section \<open>The invariant\<close>

definition conn_ok :: "gw_conn \<Rightarrow> bool" where
  "conn_ok c \<longleftrightarrow> (\<forall>ch \<in> set (gc_subscriptions c). canSubscribe (gc_ctx c) ch) \<and> distinct (gc_subscriptions c) \<and>
     gc_channels c = gc_subscriptions c \<and> fst ` set (gc_filters c) = set (gc_subscriptions c)"

definition in_project :: "string \<Rightarrow> gw_conn \<Rightarrow> bool" where
  "in_project p c \<longleftrightarrow> ax_projectId (gc_ctx c) = p"

definition total_subs :: "(string, gw_conn) jsmap \<Rightarrow> int" where
  "total_subs m = sum_list (map (\<lambda>c. int (length (gc_subscriptions c))) (js_values m))"

definition gw_ok :: "gw_options \<Rightarrow> gw_state \<Rightarrow> bool" where
  "gw_ok opts s \<longleftrightarrow> js_ok (gs_conns s) \<and> (\<forall>c \<in> set (js_values (gs_conns s)). conn_ok c) \<and>
     (\<forall>p. int (length (filter (in_project p) (js_values (gs_conns s)))) \<le> max 0 (go_maxConnsPerProject opts)) \<and>
     total_subs (gs_conns s) \<le> gm_subscriptions (gs_metrics s)"

lemma gw_ok_same:
  "gw_ok opts s \<Longrightarrow> gs_conns t = gs_conns s \<Longrightarrow> gm_subscriptions (gs_metrics t) = gm_subscriptions (gs_metrics s) \<Longrightarrow> gw_ok opts t"
  by (simp add: gw_ok_def)

lemma delete_absent: "js_get m k = None \<Longrightarrow> js_delete k m = m"
  by (simp add: delete_id map_of_eq_None_iff)

lemma split_at:
  assumes "js_ok m" "js_get m k = Some v"
  obtains a b where "m = a @ (k, v) # b" "js_delete k m = a @ b" "\<And>w. js_set k w m = a @ (k, w) # b"
proof -
  obtain a b where m: "m = a @ (k, v) # b" using map_of_SomeD [OF assms(2)] by (auto simp: in_set_conv_decomp)
  then have "k \<notin> fst ` set a" "k \<notin> fst ` set b" using assms(1) by (auto simp: js_ok_def)
  moreover have "AList.update k w (a @ (k, v) # b) = a @ (k, w) # b" if "k \<notin> fst ` set a" for w
    using that by (induction a) auto
  moreover have "filter (\<lambda>(k', _). k \<noteq> k') xs = xs" if "k \<notin> fst ` set xs" for xs :: "('a \<times> 'b) list"
    using that by (induction xs) auto
  ultimately have "js_set k w m = a @ (k, w) # b" "js_delete k m = a @ b" for w
    using m by (simp_all add: AList.delete_eq)
  then show ?thesis using that m by blast
qed

lemma gw_ok_drop:
  assumes "gw_ok opts s"
  shows "gw_ok opts (gw_drop sid s)"
proof (cases "js_get (gs_conns s) sid")
  case None
  then show ?thesis using assms by (simp add: gw_drop_def)
next
  case (Some c)
  obtain a b where ab: "gs_conns s = a @ (sid, c) # b" "js_delete sid (gs_conns s) = a @ b"
    using split_at [OF _ Some] assms unfolding gw_ok_def by metis
  have m: "gm_subscriptions (gs_metrics (gw_drop sid s)) = gm_subscriptions (gs_metrics s) - int (length (gc_subscriptions c))"
    by (simp add: gw_drop_def Some Let_def split: option.splits)
  have f: "int (length (filter (in_project p) (js_values (a @ b)))) \<le> int (length (filter (in_project p) (js_values (gs_conns s))))" for p
    by (simp add: ab(1))
  have "js_ok (a @ b)" using assms js_ok_delete ab(2) unfolding gw_ok_def by metis
  moreover have "\<forall>p. int (length (filter (in_project p) (js_values (a @ b)))) \<le> max 0 (go_maxConnsPerProject opts)"
    using f assms unfolding gw_ok_def by (meson order_trans)
  moreover have "\<forall>c \<in> set (js_values (a @ b)). conn_ok c" using assms ab(1) by (auto simp: gw_ok_def)
  moreover have "total_subs (a @ b) \<le> gm_subscriptions (gs_metrics (gw_drop sid s))"
    using assms m ab(1) by (simp add: gw_ok_def total_subs_def)
  ultimately show ?thesis unfolding gw_ok_def gw_drop_simps ab(2) by blast
qed

lemma gw_ok_send [simp]: "gw_ok opts (gw_send sid m s) = gw_ok opts s"
  by (simp add: gw_ok_def)

lemma gw_ok_metric: "gw_ok opts s \<Longrightarrow> (\<And>m. gm_subscriptions (f m) = gm_subscriptions m) \<Longrightarrow> gw_ok opts (gw_metric f s)"
  by (simp add: gw_ok_def)

lemma gw_ok_rooms [simp]: "gw_ok opts (s\<lparr>gs_rooms := r\<rparr>) = gw_ok opts s" "gw_ok opts (presence_gone ch u s) = gw_ok opts s"
  by (simp_all add: gw_ok_def presence_gone_def split: option.splits)

lemma gw_ok_deliver: "gw_ok opts s \<Longrightarrow> gw_ok opts (gw_deliver sid m s)"
  by (simp add: gw_deliver_def gw_ok_drop gw_ok_metric)

lemma gw_ok_receive: "gw_ok opts s \<Longrightarrow> gw_ok opts (gw_receive e b sid c s)"
  by (auto simp: gw_receive_def Let_def gw_ok_deliver gw_ok_metric split: bus_msg.splits)

lemma gw_ok_publish: "gw_ok opts s \<Longrightarrow> gw_ok opts (bus_publish e b s)"
proof -
  have "gw_ok opts s \<Longrightarrow> gw_ok opts (fold (bus_visit e b) ks s)" for ks
    by (induction ks arbitrary: s) (auto simp: bus_visit_def gw_ok_receive split: option.splits)
  then show "gw_ok opts s \<Longrightarrow> gw_ok opts (bus_publish e b s)" by (simp add: bus_publish_def onBusMessage_def)
qed

lemma gw_ok_update:
  assumes "gw_ok opts s" and "js_get (gs_conns s) sid = Some c" and "conn_ok (f c)" and "gc_ctx (f c) = gc_ctx c"
    and "int (length (gc_subscriptions (f c))) \<le> int (length (gc_subscriptions c)) + k"
  shows "gw_ok opts (count_subscription k (gw_update sid f s))"
proof -
  obtain a b where ab: "gs_conns s = a @ (sid, c) # b" "\<And>w. js_set sid w (gs_conns s) = a @ (sid, w) # b"
    using split_at [OF _ assms(2)] assms(1) unfolding gw_ok_def by metis
  have conns: "gs_conns (gw_update sid f s) = a @ (sid, f c) # b"
    using ab(2) by (simp add: gw_update_def assms(2))
  have f: "length (filter (in_project p) (js_values (a @ (sid, f c) # b))) = length (filter (in_project p) (js_values (gs_conns s)))" for p
    using assms(4) by (simp add: ab(1) in_project_def)
  have "js_ok (a @ (sid, f c) # b)" using assms(1) ab by (metis gw_ok_def js_ok_set)
  moreover have "\<forall>d \<in> set (js_values (a @ (sid, f c) # b)). conn_ok d" using assms(1,3) ab(1) by (auto simp: gw_ok_def)
  moreover have "total_subs (a @ (sid, f c) # b) \<le> gm_subscriptions (gs_metrics s) + k"
    using assms(1,5) ab(1) by (simp add: gw_ok_def total_subs_def)
  ultimately show ?thesis
    using assms(1) f unfolding gw_ok_def count_subscription_simps conns by (simp add: ab(1))
qed

lemma ok_conn: "gw_ok opts s \<Longrightarrow> js_get (gs_conns s) sid = Some c \<Longrightarrow> conn_ok c"
  by (meson gw_ok_def js_get_values)

lemma join_ok: "conn_ok c \<Longrightarrow> canSubscribe (gc_ctx c) ch \<Longrightarrow> conn_ok (join_channel ch f c)"
  by (auto simp: conn_ok_def join_channel_def Let_def dom_update)

lemma delete_key_set: "fst ` set (js_delete k m) = fst ` set m - {k}"
  by (metis delete_keys set_map set_removeAll)

lemma leave_ok: "conn_ok c \<Longrightarrow> conn_ok (leave_channel ch c)"
  by (auto simp: conn_ok_def leave_channel_def delete_key_set distinct_removeAll)

section \<open>Handlers keep the invariant\<close>

lemma ok_update_same:
  "gw_ok opts s \<Longrightarrow> js_get (gs_conns s) sid = Some c \<Longrightarrow> conn_ok (f c) \<Longrightarrow> gc_ctx (f c) = gc_ctx c \<Longrightarrow>
   gc_subscriptions (f c) = gc_subscriptions c \<Longrightarrow> gw_ok opts (gw_update sid f s)"
  using gw_ok_update [of opts s sid c f 0] by (simp add: gw_ok_def)

lemma ok_join:
  assumes "gw_ok opts s" and "js_get (gs_conns s) sid = Some c" and "canSubscribe (gc_ctx c) ch"
  shows "gw_ok opts (count_subscription 1 (gw_update sid (join_channel ch f) s))"
  using assms by (intro gw_ok_update join_ok ok_conn) (auto simp: join_channel_def Let_def)

lemma length_removeAll_distinct: "distinct xs \<Longrightarrow> x \<in> set xs \<Longrightarrow> int (length (removeAll x xs)) = int (length xs) - 1"
  by (induction xs) (auto simp: removeAll_id)

lemma ok_leave:
  assumes "gw_ok opts s" and "js_get (gs_conns s) sid = Some c"
  shows "gw_ok opts (gw_update sid (leave_channel ch) (if ch \<in> set (gc_subscriptions c) then count_subscription (- 1) s else s))"
proof -
  have c: "conn_ok c" using ok_conn assms .
  show ?thesis
  proof (cases "ch \<in> set (gc_subscriptions c)")
    case True
    have "gw_ok opts (count_subscription (- 1) (gw_update sid (leave_channel ch) s))"
      using assms c leave_ok [OF c] length_removeAll_distinct [OF _ True]
      by (intro gw_ok_update) (auto simp: leave_channel_def conn_ok_def)
    then show ?thesis using True
      by (rule_tac gw_ok_same) (auto simp: gw_update_def assms(2) count_subscription_def gw_metric_def)
  next
    case False
    then have "gc_ctx (leave_channel ch c) = gc_ctx c" "gc_subscriptions (leave_channel ch c) = gc_subscriptions c"
      by (simp_all add: leave_channel_def)
    then show ?thesis using False ok_update_same [OF assms, of "leave_channel ch"] leave_ok [OF c] by simp
  qed
qed

lemma ok_if: "gw_ok opts x \<Longrightarrow> gw_ok opts y \<Longrightarrow> gw_ok opts (if b then x else y)"
  by simp

lemma canSubscribe_track: "canTrackPresence ctx ch \<Longrightarrow> canSubscribe ctx ch"
  by (simp add: canTrackPresence_def)

lemma ok_subscribe: "gw_ok opts s \<Longrightarrow> js_get (gs_conns s) sid = Some c \<Longrightarrow> gw_ok opts (gw_subscribe e sid c mid ch f s)"
  unfolding gw_subscribe_def gw_forbid_def Let_def
  by (auto intro!: ok_join gw_ok_metric split: json.splits option.splits)

lemma ok_unsubscribe: "gw_ok opts s \<Longrightarrow> js_get (gs_conns s) sid = Some c \<Longrightarrow> gw_ok opts (gw_unsubscribe sid c mid ch s)"
  unfolding gw_unsubscribe_def using ok_leave by (auto split: json.splits)

lemma ok_broadcast: "gw_ok opts s \<Longrightarrow> gw_ok opts (gw_broadcast e sid c mid ch ev d s)"
  unfolding gw_broadcast_def gw_forbid_def
  by (auto intro!: gw_ok_publish gw_ok_metric simp: count_broadcast_def split: json.splits)

lemma ok_track: "gw_ok opts s \<Longrightarrow> js_get (gs_conns s) sid = Some c \<Longrightarrow> gw_ok opts (gw_trackPresence e sid c mid ch d s)"
  unfolding gw_trackPresence_def Let_def
  by (auto intro!: gw_ok_publish ok_join gw_ok_metric simp: canSubscribe_track split: json.splits option.splits)

lemma ok_remove: "gw_ok opts s \<Longrightarrow> gw_ok opts (gw_removePresence e sid c mid ch s)"
  unfolding gw_removePresence_def by (auto intro!: gw_ok_publish split: json.splits option.splits)

lemma ok_dispatch:
  assumes "gw_ok opts s" and "js_get (gs_conns s) sid = Some c"
  shows "gw_ok opts (gw_dispatch e sid c msg type s)"
proof -
  have "gw_ok opts (gw_update sid (\<lambda>c. c\<lparr>gc_lastHeartbeat := ge_now e, gc_awaitingPong := False\<rparr>) s)"
    using assms ok_conn [OF assms] by (intro ok_update_same) (auto simp: conn_ok_def)
  then show ?thesis unfolding gw_dispatch_def Let_def
    by (intro ok_if ok_subscribe ok_unsubscribe ok_broadcast ok_track ok_remove) (simp_all add: assms)
qed

lemma ok_text: "gw_ok opts s \<Longrightarrow> gw_ok opts (handleText e sid body s)"
  unfolding handleText_def by (auto intro!: ok_dispatch split: option.splits json.splits)

lemma ok_register:
  assumes "gw_ok opts s" and "js_get (gs_conns s) sid = None" and "ge_opts e = opts"
  shows "gw_ok opts (register e ctx sid s)"
proof -
  have "js_set sid d (gs_conns s) = gs_conns s @ [(sid, d)]" for d
    using assms(2) by (intro js_set_new) (simp add: map_of_eq_None_iff)
  moreover have "js_ok (js_set sid d (gs_conns s))" for d using assms(1) js_ok_set by (auto simp: gw_ok_def)
  moreover have "(\<lambda>c. ax_projectId (gc_ctx c) = ax_projectId ctx) = in_project (ax_projectId ctx)" by (auto simp: in_project_def)
  ultimately show ?thesis using assms(1,3)
    by (auto simp: register_def gw_ok_def total_subs_def conn_ok_def in_project_def)
qed

lemma ok_fold_drop: "gw_ok opts s \<Longrightarrow> gw_ok opts (fold gw_drop ks s)"
  by (induction ks arbitrary: s) (simp_all add: gw_ok_drop)

lemma ok_sweep: "gw_ok opts s \<Longrightarrow> gw_ok opts (snd (gw_sweep e s))"
proof -
  have "gw_ok opts s \<Longrightarrow> gw_ok opts (snd (fold (\<lambda>(sid, c) (n, s). if overdue e c then (n + 1, gw_drop sid s) else (n, s)) cs (n, s)))" for cs n
    by (induction cs arbitrary: n s) (auto simp: gw_ok_drop)
  then show "gw_ok opts s \<Longrightarrow> gw_ok opts (snd (gw_sweep e s))" by (simp add: gw_sweep_def)
qed

inductive gw_reach :: "gw_options \<Rightarrow> gw_state \<Rightarrow> bool" for opts :: gw_options where
  start: "gw_reach opts gw_start"
| step: "gw_reach opts s \<Longrightarrow> ge_opts e = opts \<Longrightarrow> (\<And>ctx sid. ev = GwRegister ctx sid \<Longrightarrow> js_get (gs_conns s) sid = None) \<Longrightarrow>
    gw_reach opts (gw_step e ev s)"

lemma ok_step:
  assumes "gw_ok opts s" "ge_opts e = opts" "\<And>ctx sid. ev = GwRegister ctx sid \<Longrightarrow> js_get (gs_conns s) sid = None"
  shows "gw_ok opts (gw_step e ev s)"
proof (cases ev)
  case (GwShutdown)
  show ?thesis using ok_fold_drop [OF assms(1)] unfolding gw_step_def GwShutdown gw_event.case gw_shutdown_def
    by (rule gw_ok_same) simp_all
next
  case (GwSocketCloses sid)
  show ?thesis using assms(1) unfolding gw_step_def GwSocketCloses gw_event.case socket_closes_def
    by (rule gw_ok_same) simp_all
qed (use assms in \<open>auto simp: gw_step_def ok_text ok_register gw_ok_drop ok_sweep publishDatabaseChange_def publishBroadcast_def
   count_broadcast_def intro!: gw_ok_publish gw_ok_metric\<close>)

text \<open>C39. Whatever happens at the gateway, every subscription a connection holds is to a channel of the project of its own
  credential, what the connection reports as its channels is what it is subscribed to, no project has more connections than
  the limit, and the count of subscriptions the metrics show is never below what is held.\<close>

theorem gateway_invariant:
  assumes "gw_reach opts s"
  shows "(\<forall>c \<in> set (js_values (gs_conns s)). gc_channels c = gc_subscriptions c \<and> distinct (gc_subscriptions c) \<and>
      (\<forall>ch \<in> set (gc_subscriptions c). canSubscribe (gc_ctx c) ch)) \<and>
    (\<forall>p. int (length (filter (in_project p) (js_values (gs_conns s)))) \<le> max 0 (go_maxConnsPerProject opts)) \<and>
    total_subs (gs_conns s) \<le> gm_subscriptions (gs_metrics s)"
proof -
  have "gw_ok opts s" using assms
  proof induction
    case start
    show ?case by (simp add: gw_ok_def gw_start_def total_subs_def)
  qed (use ok_step in blast)
  then show ?thesis by (auto simp: gw_ok_def conn_ok_def)
qed

section \<open>The sweep\<close>

lemma sweep_fold:
  assumes "js_ok (gs_conns s)" "set cs \<subseteq> set (gs_conns s)" "js_ok cs"
  shows "fold (\<lambda>(sid, c) (n, s). if overdue e c then (n + 1, gw_drop sid s) else (n, s)) cs (n, s) = (n', t) \<Longrightarrow>
    n' = n + length (filter (overdue e) (js_values cs)) \<and>
    gs_conns t = filter (\<lambda>(sid, _). \<not> (\<exists>c. (sid, c) \<in> set cs \<and> overdue e c)) (gs_conns s) \<and>
    set (gs_closed t) = set (gs_closed s) \<union> {sid. \<exists>c. (sid, c) \<in> set cs \<and> overdue e c}"
  using assms
proof (induction cs arbitrary: n s)
  case Nil
  then show ?case by simp
next
  case (Cons kc cs)
  obtain k c where kc: "kc = (k, c)" by (cases kc)
  have cs: "k \<notin> fst ` set cs" "js_ok cs" using Cons.prems(4) by (auto simp: kc js_ok_def)
  show ?case
  proof (cases "overdue e c")
    case False
    then have none: "(\<exists>c'. (sid, c') \<in> set (kc # cs) \<and> overdue e c') \<longleftrightarrow> (\<exists>c'. (sid, c') \<in> set cs \<and> overdue e c')" for sid
      by (auto simp: kc)
    show ?thesis using Cons.IH [of n s] Cons.prems cs False unfolding none by (simp add: kc)
  next
    case True
    let ?u = "gw_drop k s"
    have get: "js_get (gs_conns s) k = Some c" using Cons.prems(2,3) by (auto simp: kc js_pair_get)
    have u: "gs_conns ?u = filter (\<lambda>(k', _). k \<noteq> k') (gs_conns s)" "set (gs_closed ?u) = insert k (set (gs_closed s))"
      by (auto simp: AList.delete_eq gw_drop_def get Let_def split: option.splits)
    have "set cs \<subseteq> set (gs_conns ?u)" using Cons.prems(3) cs(1) unfolding u(1) kc by force
    moreover have "js_ok (gs_conns ?u)" using Cons.prems(2) js_ok_delete by simp
    moreover have "fold (\<lambda>(sid, c) (n, s). if overdue e c then (n + 1, gw_drop sid s) else (n, s)) cs (n + 1, ?u) = (n', t)"
      using Cons.prems(1) True by (simp add: kc)
    ultimately have r: "n' = n + 1 + length (filter (overdue e) (js_values cs))"
      "gs_conns t = filter (\<lambda>(sid, _). \<not> (\<exists>c. (sid, c) \<in> set cs \<and> overdue e c)) (gs_conns ?u)"
      "set (gs_closed t) = set (gs_closed ?u) \<union> {sid. \<exists>c. (sid, c) \<in> set cs \<and> overdue e c}"
      using Cons.IH [of "n + 1" ?u] cs(2) by blast+
    have some: "(\<exists>c'. (sid, c') \<in> set (kc # cs) \<and> overdue e c') \<longleftrightarrow> k = sid \<or> (\<exists>c'. (sid, c') \<in> set cs \<and> overdue e c')" for sid
      using True by (auto simp: kc)
    have "gs_conns t = filter (\<lambda>(sid, _). \<not> (k = sid \<or> (\<exists>c'. (sid, c') \<in> set cs \<and> overdue e c'))) (gs_conns s)"
      unfolding r(2) u(1) filter_filter by (rule filter_cong) auto
    then show ?thesis using r(1,3) u(2) True unfolding some by (auto simp: kc)
  qed
qed

lemma sweep_closes:
  assumes "js_ok (gs_conns s)" and "gw_sweep e s = (n, t)"
  shows "gs_conns t = filter (\<lambda>(_, c). \<not> overdue e c) (gs_conns s) \<and>
    n = length (filter (overdue e) (js_values (gs_conns s))) \<and>
    (\<forall>(sid, c) \<in> set (gs_conns s). overdue e c \<longrightarrow> sid \<in> set (gs_closed t))"
proof -
  have f: "n = 0 + length (filter (overdue e) (js_values (gs_conns s)))"
    "gs_conns t = filter (\<lambda>(sid, _). \<not> (\<exists>c. (sid, c) \<in> set (gs_conns s) \<and> overdue e c)) (gs_conns s)"
    "set (gs_closed t) = set (gs_closed s) \<union> {sid. \<exists>c. (sid, c) \<in> set (gs_conns s) \<and> overdue e c}"
    using sweep_fold [OF assms(1) subset_refl assms(1), of e 0 n t] assms(2) by (auto simp: gw_sweep_def)
  have "(\<exists>c'. (sid, c') \<in> set (gs_conns s) \<and> overdue e c') \<longleftrightarrow> overdue e c" if "(sid, c) \<in> set (gs_conns s)" for sid c
    using that assms(1) by (auto simp: js_pair_get)
  then have "gs_conns t = filter (\<lambda>(_, c). \<not> overdue e c) (gs_conns s)" unfolding f(2) by (intro filter_cong) auto
  then show ?thesis using f by auto
qed

text \<open>A sweep closes exactly the overdue connections, those whose credential has expired or whose last heartbeat is
  too long ago: none of them remains and their sockets are closed, all others are left as they were, and it reports how
  many it closed.\<close>

theorem sweep_closes_the_overdue:
  assumes "js_ok (gs_conns s)" and "gw_sweep e s = (n, t)"
  shows "gs_conns t = filter (\<lambda>(_, c). \<not> overdue e c) (gs_conns s) \<and>
    n = length (filter (overdue e) (js_values (gs_conns s))) \<and>
    (\<forall>(sid, c) \<in> set (gs_conns s). overdue e c \<longrightarrow> sid \<in> set (gs_closed t))"
  by (rule sweep_closes [OF assms])

section \<open>What keeps a connection alive\<close>

definition heart :: "string \<Rightarrow> gw_state \<Rightarrow> gw_state \<Rightarrow> bool" where
  "heart sid s t \<longleftrightarrow> (\<forall>c'. js_get (gs_conns t) sid = Some c' \<longrightarrow>
     (\<exists>c. js_get (gs_conns s) sid = Some c \<and> gc_lastHeartbeat c' = gc_lastHeartbeat c))"

lemma heart_trans: "heart sid s t \<Longrightarrow> heart sid t u \<Longrightarrow> heart sid s u"
  unfolding heart_def by metis

lemma heart_silent [simp]:
  "heart sid s s" "heart sid s (gw_metric f t) = heart sid s t" "heart sid s (count_subscription k t) = heart sid s t"
  "heart sid s (presence_gone ch u t) = heart sid s t" "heart sid s (t\<lparr>gs_rooms := r\<rparr>) = heart sid s t"
  "heart sid s (gw_send j m t) = heart sid s t"
  by (simp_all add: heart_def)

lemma heart_update:
  "heart sid s t \<Longrightarrow> k \<noteq> sid \<or> (\<forall>c. gc_lastHeartbeat (f c) = gc_lastHeartbeat c) \<Longrightarrow> heart sid s (gw_update k f t)"
  unfolding heart_def gw_update_def by (auto split: option.splits)

lemma heart_channels [simp]:
  "heart sid s t \<Longrightarrow> heart sid s (gw_update k (join_channel ch f) t)" "heart sid s t \<Longrightarrow> heart sid s (gw_update k (leave_channel ch) t)"
  by (auto intro!: heart_update simp: join_channel_def leave_channel_def Let_def)

lemma heart_drop: "heart sid s t \<Longrightarrow> heart sid s (gw_drop k t)"
  by (auto simp: heart_def)

lemma heart_publish:
  assumes "heart sid s t"
  shows "heart sid s (bus_publish e b t)"
proof -
  have "heart sid s t \<Longrightarrow> heart sid s (gw_receive e b k c t)" for t k c
    by (auto simp: gw_receive_def gw_deliver_def Let_def heart_drop split: bus_msg.splits)
  then have "heart sid s t \<Longrightarrow> heart sid s (fold (bus_visit e b) ks t)" for ks
    by (induction ks arbitrary: t) (auto simp: bus_visit_def split: option.splits)
  then show ?thesis using assms by (simp add: bus_publish_def onBusMessage_def)
qed

definition is_ping :: "gw_env \<Rightarrow> string \<Rightarrow> bool" where
  "is_ping e body \<longleftrightarrow> (\<exists>msg. ge_parse e body = Some (JObj msg) \<and> json_field msg ''type'' = JStr ''ping'')"

lemma heart_if: "heart sid s x \<Longrightarrow> heart sid s y \<Longrightarrow> heart sid s (if b then x else y)"
  by simp

lemma heart_subscribe: "heart sid s (gw_subscribe e k c mid ch f s)"
  unfolding gw_subscribe_def gw_forbid_def Let_def by (auto split: json.splits option.splits)

lemma heart_unsubscribe: "heart sid s (gw_unsubscribe k c mid ch s)"
  unfolding gw_unsubscribe_def by (auto split: json.splits)

lemma heart_broadcast: "heart sid s (gw_broadcast e k c mid ch ev d s)"
  unfolding gw_broadcast_def gw_forbid_def by (auto intro!: heart_publish split: json.splits)

lemma heart_track: "heart sid s (gw_trackPresence e k c mid ch d s)"
  unfolding gw_trackPresence_def Let_def by (auto intro!: heart_publish split: json.splits option.splits)

lemma heart_remove: "heart sid s (gw_removePresence e k c mid ch s)"
  unfolding gw_removePresence_def by (auto intro!: heart_publish split: json.splits option.splits)

lemma heart_dispatch:
  assumes "k \<noteq> sid \<or> type \<noteq> ''ping''"
  shows "heart sid s (gw_dispatch e k c msg type s)"
proof (cases "type = ''ping''")
  case True
  then show ?thesis using assms unfolding gw_dispatch_def Let_def by (simp add: heart_update)
next
  case False
  then show ?thesis unfolding gw_dispatch_def Let_def if_not_P [OF False]
    by (intro heart_if heart_subscribe heart_unsubscribe heart_broadcast heart_track heart_remove) simp_all
qed

lemma heart_text: "k \<noteq> sid \<or> \<not> is_ping e body \<Longrightarrow> heart sid s (handleText e k body s)"
  unfolding handleText_def is_ping_def by (auto intro!: heart_dispatch split: option.splits json.splits)

lemma heart_fold_drop: "heart sid s t \<Longrightarrow> heart sid s (fold gw_drop ks t)"
  by (induction ks arbitrary: t) (simp_all add: heart_drop)

lemma heart_sweep: "heart sid s t \<Longrightarrow> heart sid s (snd (fold (\<lambda>(sid, c) (n, s). if overdue e c then (n + 1, gw_drop sid s) else (n, s)) cs (n, t)))"
  by (induction cs arbitrary: n t) (auto simp: heart_drop)

lemma heart_step:
  assumes "\<And>ctx. ev \<noteq> GwRegister ctx sid" and "\<And>body. ev = GwText sid body \<Longrightarrow> \<not> is_ping e body"
  shows "heart sid s (gw_step e ev s)"
proof (cases ev)
  case (GwShutdown)
  show ?thesis using heart_fold_drop [of sid s s] unfolding gw_step_def GwShutdown gw_event.case gw_shutdown_def by (simp add: heart_def)
next
  case (GwRegister ctx k)
  then show ?thesis using assms(1) by (auto simp: gw_step_def register_def heart_def)
next
  case (GwText k body)
  then show ?thesis using assms(2) heart_text by (simp add: gw_step_def)
qed (simp_all add: gw_step_def publishDatabaseChange_def publishBroadcast_def heart_publish heart_drop gw_sweep_def heart_sweep
   socket_closes_def, simp_all add: heart_def)

definition gw_run :: "(gw_env \<times> gw_event) list \<Rightarrow> gw_state \<Rightarrow> gw_state" where
  "gw_run evs s = fold (\<lambda>(e, ev). gw_step e ev) evs s"

lemma heart_run:
  assumes "\<forall>(e, ev) \<in> set evs. (\<forall>ctx. ev \<noteq> GwRegister ctx sid) \<and> (\<forall>body. ev = GwText sid body \<longrightarrow> \<not> is_ping e body)"
  shows "heart sid s (gw_run evs s)"
  using assms
proof (induction evs arbitrary: s)
  case (Cons x evs)
  obtain e ev where x: "x = (e, ev)" by (cases x)
  have "heart sid s (gw_step e ev s)" using Cons.prems by (intro heart_step) (auto simp: x)
  moreover have "heart sid (gw_step e ev s) (gw_run evs (gw_step e ev s))" using Cons.prems by (intro Cons.IH) auto
  ultimately show ?case unfolding gw_run_def using heart_trans by (simp add: x)
qed (simp add: gw_run_def)

text \<open>C40. Only a ping keeps a connection alive.  However much else a client sends and receives, when it has sent no
  \<open>ping\<close> for longer than the heartbeat timeout the next sweep closes it.\<close>

theorem only_a_ping_keeps_alive:
  assumes "js_ok (gs_conns (gw_run evs s))" and "js_get (gs_conns s) sid = Some c"
    and "\<forall>(e, ev) \<in> set evs. (\<forall>ctx. ev \<noteq> GwRegister ctx sid) \<and> (\<forall>body. ev = GwText sid body \<longrightarrow> \<not> is_ping e body)"
    and "ge_now e - gc_lastHeartbeat c > go_heartbeatTimeoutMs (ge_opts e)"
  shows "js_get (gs_conns (snd (gw_sweep e (gw_run evs s)))) sid = None"
proof (rule ccontr)
  let ?u = "gw_run evs s"
  obtain n t where nt: "gw_sweep e ?u = (n, t)" by (cases "gw_sweep e ?u")
  assume "\<not> ?thesis"
  then obtain c' where c': "js_get (gs_conns t) sid = Some c'" by (auto simp: nt)
  have t: "gs_conns t = filter (\<lambda>(_, c). \<not> overdue e c) (gs_conns ?u)"
    using sweep_closes [OF assms(1) nt] by blast
  then have "(sid, c') \<in> set (gs_conns ?u)" "\<not> overdue e c'" using map_of_SomeD [OF c'] by auto
  then have "js_get (gs_conns ?u) sid = Some c'" using assms(1) by (simp add: js_pair_get)
  then have "gc_lastHeartbeat c' = gc_lastHeartbeat c" using heart_run [OF assms(3), of s] assms(2) by (auto simp: heart_def)
  then show False using \<open>\<not> overdue e c'\<close> assms(4) by (simp add: overdue_def)
qed

end
