(* ===== verification/RealtimeRuns.thy ===== *)
theory RealtimeRuns
  imports RealtimeInvariants
begin

text \<open>
  Concrete runs of the gateway: instances of the general theorems, and runs in which a client gets past a rule that the
  gateway means to keep.
\<close>

definition run_project :: "char \<Rightarrow> string" where
  "run_project d = ''00000000-0000-0000-0000-00000000000'' @ [d]"

definition run_channel :: "char \<Rightarrow> string \<Rightarrow> string" where
  "run_channel d topic = ''project:'' @ run_project d @ '':'' @ topic"

definition run_ctx :: "char \<Rightarrow> string \<Rightarrow> string \<Rightarrow> auth_context" where
  "run_ctx d user role = \<lparr>ax_userId = Some user, ax_role = role, ax_projectId = run_project d, ax_organizationId = ''o'',
     ax_expiresAt = None\<rparr>"

text \<open>A body is its type and its channel, separated by a bar; its event is always \<open>e\<close>.\<close>

definition run_env :: "int \<Rightarrow> instant \<Rightarrow> gw_env" where
  "run_env subs now = \<lparr>ge_opts = DEFAULT_GATEWAY_OPTIONS\<lparr>go_maxSubsPerConn := subs\<rparr>, ge_now = now, ge_count = (\<lambda>_. None),
     ge_feed = (\<lambda>_ _. True), ge_columns = (\<lambda>_ _. None),
     ge_parse = (\<lambda>body. case split_on (CHR ''|'') body of [t, ch] \<Rightarrow> Some (JObj [(''type'', JStr t), (''channel'', JStr ch), (''event'', JStr ''e'')]) | _ \<Rightarrow> None)\<rparr>"

definition run_gateway :: "int \<Rightarrow> gw_event list \<Rightarrow> gw_state" where
  "run_gateway subs evs = gw_run (map (\<lambda>ev. (run_env subs 0, ev)) evs) gw_start"

definition run_change :: db_change where
  "run_change = \<lparr>dc_type = OpInsert, dc_project_id = run_project (CHR ''1''), dc_table = ''t'', dc_schema = ''public'',
     dc_record = Some [(''user_id'', JStr ''u'')], dc_old_record = None, dc_timestamp = 0\<rparr>"

text \<open>Two users of a project, both subscribed to the table \<open>t\<close>.\<close>

definition run_two :: gw_state where
  "run_two = run_gateway 50 [GwRegister (run_ctx (CHR ''1'') ''u'' ''authenticated'') ''A'', GwRegister (run_ctx (CHR ''1'') ''v'' ''authenticated'') ''B'',
     GwText ''A'' (''subscribe|'' @ run_channel (CHR ''1'') ''table:t''), GwText ''B'' (''subscribe|'' @ run_channel (CHR ''1'') ''table:t'')]"

lemma run_two_ok: "js_ok (gs_conns run_two)"
  by code_simp

lemma change_reaches_the_owner:
  "gw_new run_two (gw_step (run_env 50 0) (GwChange (run_project (CHR ''1'')) run_change) run_two) =
     [(''A'', SmEvent (run_channel (CHR ''1'') ''table:t'') run_change)]"
  by code_simp

theorem deliveries_stay_in_the_project_witness:
  "\<exists>c. js_get (gs_conns run_two) ''A'' = Some c \<and> canSubscribe (gc_ctx c) (run_channel (CHR ''1'') ''table:t'') \<and>
    canReceive (gc_ctx c) (known_columns (run_env 50 0) (gc_ctx c) run_change) (change_row run_change) ''user_id''"
  using deliveries_stay_in_the_project [OF run_two_ok, of "''A''" "SmEvent (run_channel (CHR ''1'') ''table:t'') run_change" "run_env 50 0"
      "GwChange (run_project (CHR ''1'')) run_change" "run_channel (CHR ''1'') ''table:t''"]
  by (auto simp: change_reaches_the_owner)

text \<open>A row is handed over from \<open>u\<close> to \<open>v\<close>: the event, which carries the row of \<open>u\<close>, reaches \<open>v\<close> and not \<open>u\<close>.\<close>

definition run_handover :: db_change where
  "run_handover = run_change\<lparr>dc_type := OpUpdate, dc_record := Some [(''user_id'', JStr ''v'')],
     dc_old_record := Some [(''user_id'', JStr ''u''), (''note'', JStr ''private'')]\<rparr>"

lemma old_row_reaches_the_new_owner:
  "gw_new run_two (gw_step (run_env 50 0) (GwChange (run_project (CHR ''1'')) run_handover) run_two) =
     [(''B'', SmEvent (run_channel (CHR ''1'') ''table:t'') run_handover)]"
  by code_simp

section \<open>Listeners, invariant, sweep\<close>

definition run_viewer :: gw_state where
  "run_viewer = run_gateway 50 [GwRegister (run_ctx (CHR ''1'') ''u'' ''viewer'') ''A'']"

definition run_broadcast :: string where
  "run_broadcast = ''broadcast|'' @ run_channel (CHR ''1'') ''x''"

lemma viewer_is_refused:
  "gw_new run_viewer (handleText (run_env 50 0) ''A'' run_broadcast run_viewer) = [(''A'', SmError None ''FORBIDDEN'')]"
  by code_simp

lemma run_viewer_conn:
  "js_ok (gs_conns run_viewer)" "map_option (ax_role \<circ> gc_ctx) (js_get (gs_conns run_viewer) ''A'') = Some ''viewer''"
  by code_simp+

theorem listeners_cannot_speak_witness:
  "gw_new run_viewer (handleText (run_env 50 0) ''A'' run_broadcast run_viewer) = [(''A'', SmError None ''FORBIDDEN'')] \<and>
   list_all (\<lambda>(k, m). k = ''A'' \<and> delivered_channel m = None \<or> (\<exists>ch ev u t. m = SmPresence ch ev u t))
     (gw_new run_viewer (handleText (run_env 50 0) ''A'' run_broadcast run_viewer))"
proof -
  obtain c where c: "js_get (gs_conns run_viewer) ''A'' = Some c" "ax_role (gc_ctx c) = ''viewer''"
    using run_viewer_conn(2) by auto
  have "ax_role (gc_ctx c) \<in> {''viewer'', ''anonymous'', ''public'', ''agent:readonly''}" using c(2) by simp
  from listeners_cannot_speak [OF run_viewer_conn(1) c(1) this, of _ _ "run_env 50 0" run_broadcast] viewer_is_refused
  show ?thesis unfolding list_all_iff by blast
qed

lemma run_reaches:
  "gw_reach (ge_opts (run_env 50 0)) (gw_step (run_env 50 0) (GwText ''A'' (''subscribe|'' @ run_channel (CHR ''1'') ''x''))
     (gw_step (run_env 50 0) (GwRegister (run_ctx (CHR ''1'') ''u'' ''viewer'') ''A'') gw_start))"
  by (intro gw_reach.step gw_reach.start) (simp_all add: gw_start_def)

theorem gateway_invariant_witness:
  "let s = gw_step (run_env 50 0) (GwText ''A'' (''subscribe|'' @ run_channel (CHR ''1'') ''x''))
     (gw_step (run_env 50 0) (GwRegister (run_ctx (CHR ''1'') ''u'' ''viewer'') ''A'') gw_start) in
   total_subs (gs_conns s) \<le> gm_subscriptions (gs_metrics s)"
  using gateway_invariant [OF run_reaches] by (simp only: Let_def)

theorem sweep_closes_the_overdue_witness:
  "gs_conns (snd (gw_sweep (run_env 50 60001) run_two)) = filter (\<lambda>(_, c). \<not> overdue (run_env 50 60001) c) (gs_conns run_two)"
  using sweep_closes_the_overdue [OF run_two_ok, of "run_env 50 60001"] by (metis prod.collapse)

text \<open>A client that only subscribes, and never sends the text \<open>ping\<close>, is closed a minute after it connected.\<close>

definition run_body :: string where
  "run_body = ''subscribe|'' @ run_channel (CHR ''1'') ''x''"

definition run_later :: "(gw_env \<times> gw_event) list" where
  "run_later = [(run_env 50 60000, GwText ''A'' run_body)]"

lemma run_later_facts:
  "js_ok (gs_conns (gw_run run_later run_two))"
  "map_option gc_lastHeartbeat (js_get (gs_conns run_two) ''A'') = Some 0"
  "ge_parse (run_env 50 60000) run_body = Some (JObj [(''type'', JStr ''subscribe''), (''channel'', JStr (run_channel (CHR ''1'') ''x'')), (''event'', JStr ''e'')])"
  "go_heartbeatTimeoutMs (ge_opts (run_env 50 60001)) < ge_now (run_env 50 60001)"
  by code_simp+

theorem only_a_ping_keeps_alive_witness:
  "js_get (gs_conns (snd (gw_sweep (run_env 50 60001) (gw_run run_later run_two)))) ''A'' = None"
proof -
  obtain c where c: "js_get (gs_conns run_two) ''A'' = Some c" "gc_lastHeartbeat c = 0" using run_later_facts(2) by auto
  have "\<not> is_ping (run_env 50 60000) run_body" unfolding is_ping_def run_later_facts(3) by (simp add: json_field_def)
  then have "\<forall>(e, ev) \<in> set run_later. (\<forall>ctx. ev \<noteq> GwRegister ctx ''A'') \<and> (\<forall>body. ev = GwText ''A'' body \<longrightarrow> \<not> is_ping e body)"
    by (simp add: run_later_def)
  then show ?thesis by (rule only_a_ping_keeps_alive [OF run_later_facts(1) c(1)]) (use run_later_facts(4) c(2) in simp)
qed

section \<open>Past the rules\<close>

text \<open>\<open>presence.remove\<close> checks neither the form nor the project of the channel: a notice that a user of project 2 left
  reaches a subscriber in project 1.\<close>

lemma leave_notice_crosses_projects:
  "gs_sent (run_gateway 50 [GwRegister (run_ctx (CHR ''1'') ''u'' ''owner'') ''A'', GwRegister (run_ctx (CHR ''2'') ''spy'' ''owner'') ''B'',
     GwText ''A'' (''subscribe|'' @ run_channel (CHR ''1'') ''x''), GwText ''B'' (''presence.remove|'' @ run_channel (CHR ''1'') ''x'')]) =
   [(''A'', SmSubscribed None (run_channel (CHR ''1'') ''x'')), (''A'', SmPresence (run_channel (CHR ''1'') ''x'') ''leave'' ''spy'' 0),
    (''B'', SmPresenceAck None (run_channel (CHR ''1'') ''x'') ''removed'')]"
  by code_simp

text \<open>\<open>presence.set\<close> joins the channel without the limit on subscriptions.\<close>

lemma presence_passes_the_limit:
  "map (\<lambda>c. length (gc_subscriptions c)) (js_values (gs_conns (run_gateway 1 [GwRegister (run_ctx (CHR ''1'') ''u'' ''owner'') ''A'',
     GwText ''A'' (''subscribe|'' @ run_channel (CHR ''1'') ''x''), GwText ''A'' (''presence.set|'' @ run_channel (CHR ''1'') ''y''),
     GwText ''A'' (''presence.set|'' @ run_channel (CHR ''1'') ''z'')]))) = [3]"
  by code_simp

text \<open>Subscribing twice to a channel counts twice; leaving it counts once.\<close>

lemma subscriptions_are_miscounted:
  "gm_subscriptions (gs_metrics (run_gateway 50 [GwRegister (run_ctx (CHR ''1'') ''u'' ''owner'') ''A'',
     GwText ''A'' (''subscribe|'' @ run_channel (CHR ''1'') ''x''), GwText ''A'' (''subscribe|'' @ run_channel (CHR ''1'') ''x''), GwDrop ''A''])) = 1"
  by code_simp

text \<open>Presence is kept per user: closing one of two connections of a user takes the user out of the channel.\<close>

lemma one_tab_ends_presence:
  "presence_state (run_channel (CHR ''1'') ''x'') (gs_rooms (run_gateway 50 [GwRegister (run_ctx (CHR ''1'') ''u'' ''owner'') ''A'',
     GwRegister (run_ctx (CHR ''1'') ''u'' ''owner'') ''B'', GwText ''A'' (''presence.set|'' @ run_channel (CHR ''1'') ''x''),
     GwText ''B'' (''presence.set|'' @ run_channel (CHR ''1'') ''x''), GwDrop ''B''])) = []"
  by code_simp

end
