(* ===== verification/ProvisionNames.thy ===== *)
theory ProvisionNames
  imports JsStrings
begin

text \<open>
  The validators and the names of provisioned databases (\<open>packages/provisioning/src/validation.ts\<close>), and the handles of
  the managed provider (\<open>managed-provider.ts\<close>).  An error carries no text.
\<close>

datatype provision_input_error = InvalidProvisionInput

type_synonym 'a named = "provision_input_error + 'a"

definition slug_char :: "char \<Rightarrow> bool" where
  "slug_char c \<longleftrightarrow> is_lower c \<or> is_digit c"

definition slug_ok :: "string \<Rightarrow> bool" where
  "slug_ok s \<longleftrightarrow> 2 \<le> length s \<and> length s \<le> 63 \<and> slug_char (hd s) \<and> slug_char (last s) \<and>
     list_all (\<lambda>c. slug_char c \<or> c = CHR ''-'') s"

definition assertSlug :: "string \<Rightarrow> string named" where
  "assertSlug slug = (if slug_ok slug then Inr slug else Inl InvalidProvisionInput)"

definition container_ok :: "string \<Rightarrow> bool" where
  "container_ok s \<longleftrightarrow> 2 \<le> length s \<and> length s \<le> 63 \<and> slug_char (hd s) \<and>
     list_all (\<lambda>c. slug_char c \<or> c = CHR ''_'' \<or> c = CHR ''-'') s"

definition assertContainerName :: "string \<Rightarrow> string named" where
  "assertContainerName name = (if container_ok name then Inr name else Inl InvalidProvisionInput)"

definition pg_ident_ok :: "string \<Rightarrow> bool" where
  "pg_ident_ok s \<longleftrightarrow> 1 \<le> length s \<and> length s \<le> 63 \<and> is_lower (hd s) \<and> list_all (\<lambda>c. slug_char c \<or> c = CHR ''_'') s"

definition assertPostgresIdent :: "string \<Rightarrow> string named" where
  "assertPostgresIdent name = (if pg_ident_ok name then Inr name else Inl InvalidProvisionInput)"

text \<open>Two digits, then maybe a point and digits, then maybe \<open>-alpine\<close>.\<close>

definition version_ok :: "string \<Rightarrow> bool" where
  "version_ok v \<longleftrightarrow> 2 \<le> length v \<and> list_all is_digit (take 2 v) \<and>
     (let r = drop 2 v;
          rest = (case r of c # cs \<Rightarrow> if c = CHR ''.'' \<and> takeWhile is_digit cs \<noteq> [] then dropWhile is_digit cs else r | [] \<Rightarrow> r)
      in rest = [] \<or> rest = ''-alpine'')"

definition assertImageVersion :: "string \<Rightarrow> string named" where
  "assertImageVersion version = (if version_ok version then Inr version else Inl InvalidProvisionInput)"

definition assertDbPassword :: "string \<Rightarrow> string named" where
  "assertDbPassword password = (if length password < 12 \<or> length password > 128 then Inl InvalidProvisionInput else Inr password)"

definition quoteLiteral :: "string \<Rightarrow> string" where
  "quoteLiteral v = [CHR 0x27] @ concat (map (\<lambda>c. if c = CHR 0x27 then [CHR 0x27, CHR 0x27] else [c]) v) @ [CHR 0x27]"

definition hex_ok :: "string \<Rightarrow> bool" where
  "hex_ok h \<longleftrightarrow> length h = 8 \<and> list_all (\<lambda>c. is_digit c \<or> c \<in> set ''abcdef'') h"

definition containerNameFor :: "string \<Rightarrow> string \<Rightarrow> string named" where
  "containerNameFor slug randHex =
     (if \<not> slug_ok slug then Inl InvalidProvisionInput
      else if \<not> hex_ok randHex then Inl InvalidProvisionInput
      else assertContainerName (''cn-'' @ take 40 slug @ ''-'' @ randHex))"

definition underscored :: "string \<Rightarrow> string" where
  "underscored s = map (\<lambda>c. if c = CHR ''-'' then CHR ''_'' else c) s"

definition dbNameFor :: "string \<Rightarrow> string named" where
  "dbNameFor slug = assertPostgresIdent (''cn_'' @ take 40 (underscored slug) @ ''_db'')"

definition dbUserFor :: "string \<Rightarrow> string named" where
  "dbUserFor slug = assertPostgresIdent (''cn_'' @ take 40 (underscored slug) @ ''_u'')"

text \<open>The handle \<open>createDatabase\<close> of the managed provider makes for a request: of the request only the slug counts.\<close>

definition managed_handle :: "string \<Rightarrow> string named" where
  "managed_handle slug = (case (dbNameFor slug, dbUserFor slug) of
     (Inr d, Inr u) \<Rightarrow> Inr (''managed:'' @ d @ '':'' @ u) | _ \<Rightarrow> Inl InvalidProvisionInput)"

text \<open>The database of a branch, from the name of its source.\<close>

definition branch_database :: "string \<Rightarrow> string \<Rightarrow> string named" where
  "branch_database source branch = assertPostgresIdent (source @ ''__'' @ underscored branch)"

section \<open>Names are always allowed\<close>

lemma slug_chars: "slug_ok s \<Longrightarrow> list_all (\<lambda>c. slug_char c \<or> c = CHR ''_'') (take n (underscored s))"
  unfolding slug_ok_def list_all_iff underscored_def by (auto dest!: in_set_takeD)

lemma lower_cn: "is_lower (CHR ''c'')" "slug_char (CHR ''c'')" "slug_char (CHR ''n'')" "slug_char (CHR ''d'')" "slug_char (CHR ''b'')" "slug_char (CHR ''u'')"
  by code_simp+

lemma hex_slug: "is_digit c \<or> c \<in> set ''abcdef'' \<Longrightarrow> slug_char c"
  by (auto simp: slug_char_def char_defs)

text \<open>Whatever slug passes validation, the names derived from it are accepted: the database, its user and its
  container always get a name of allowed characters and within the limits of PostgreSQL and Docker, so that nothing of a
  user's input reaches them unchecked.\<close>

theorem names_are_allowed:
  assumes "slug_ok slug" and "hex_ok h"
  shows "\<exists>d u c. dbNameFor slug = Inr d \<and> dbUserFor slug = Inr u \<and> containerNameFor slug h = Inr c \<and>
    pg_ident_ok d \<and> pg_ident_ok u \<and> container_ok c \<and> length d \<le> 46 \<and> length u \<le> 45 \<and> length c \<le> 52"
proof -
  have "pg_ident_ok (''cn_'' @ take 40 (underscored slug) @ ''_db'')" "pg_ident_ok (''cn_'' @ take 40 (underscored slug) @ ''_u'')"
    using slug_chars [OF assms(1), of 40] by (simp_all add: pg_ident_ok_def lower_cn)
  moreover have "container_ok (''cn-'' @ take 40 slug @ ''-'' @ h)"
  proof -
    have "list_all (\<lambda>c. slug_char c \<or> c = CHR ''_'' \<or> c = CHR ''-'') (take 40 slug)"
      using assms(1) unfolding slug_ok_def list_all_iff by (auto dest!: in_set_takeD)
    moreover have "list_all (\<lambda>c. slug_char c \<or> c = CHR ''_'' \<or> c = CHR ''-'') h"
      using assms(2) hex_slug unfolding hex_ok_def list_all_iff by blast
    ultimately show ?thesis using assms(2) by (simp add: container_ok_def hex_ok_def lower_cn)
  qed
  ultimately show ?thesis
    using assms by (simp add: dbNameFor_def dbUserFor_def containerNameFor_def assertPostgresIdent_def assertContainerName_def hex_ok_def)
qed

theorem names_are_allowed_witness:
  "\<exists>d. dbNameFor ''my-shop'' = Inr d \<and> length d \<le> 46"
proof -
  have "slug_ok ''my-shop''" "hex_ok ''abcdef12''" by code_simp+
  then show ?thesis using names_are_allowed [of "''my-shop''" "''abcdef12''"] by blast
qed

section \<open>Literals\<close>

text \<open>How PostgreSQL reads a standard string: it ends at the first quote that is not doubled.\<close>

fun read_literal :: "string \<Rightarrow> (string \<times> string) option" where
  "read_literal [] = None"
| "read_literal [c] = (if c = CHR 0x27 then Some ([], []) else None)"
| "read_literal (c # d # cs) =
     (if c = CHR 0x27 then (if d = CHR 0x27 then map_option (apfst ((#) c)) (read_literal cs) else Some ([], d # cs))
      else map_option (apfst ((#) c)) (read_literal (d # cs)))"

lemma read_quoted_literal:
  assumes "rest = [] \<or> hd rest \<noteq> CHR 0x27"
  shows "read_literal (concat (map (\<lambda>c. if c = CHR 0x27 then [CHR 0x27, CHR 0x27] else [c]) v) @ CHR 0x27 # rest) = Some (v, rest)"
proof (induction v)
  case Nil
  then show ?case using assms by (cases rest) auto
next
  case (Cons c cs)
  let ?q = "concat (map (\<lambda>c. if c = CHR 0x27 then [CHR 0x27, CHR 0x27] else [c]) cs) @ CHR 0x27 # rest"
  obtain d ds where q: "?q = d # ds" by (cases ?q) auto
  show ?case using Cons.IH unfolding q by (auto simp: q)
qed

text \<open>A password written with \<open>quoteLiteral\<close> is read back as exactly that password, whatever follows it: no text in a
  password ends the literal early.\<close>

theorem literal_roundtrip:
  "\<exists>body. quoteLiteral v = CHR 0x27 # body \<and>
    (\<forall>rest. rest = [] \<or> hd rest \<noteq> CHR 0x27 \<longrightarrow> read_literal (body @ rest) = Some (v, rest))"
  using read_quoted_literal by (simp add: quoteLiteral_def)

theorem literal_roundtrip_witness:
  "read_literal (tl (quoteLiteral [CHR 0x27, CHR '';''])) = Some ([CHR 0x27, CHR '';''], [])"
  using literal_roundtrip [of "[CHR 0x27, CHR '';'']"] by (metis append_Nil2 list.sel(3))

section \<open>Names that collide\<close>

text \<open>Only the first forty characters of a slug count, and slugs are unique only within an organization.\<close>

lemma long_slugs_collide:
  assumes "take 40 a = take 40 b"
  shows "managed_handle a = managed_handle b"
  using assms by (simp add: managed_handle_def dbNameFor_def dbUserFor_def underscored_def take_map)

end
