(* ===== verification/ProvisionJobs.thy ===== *)
theory ProvisionJobs
  imports Json Calendar Actions
begin

text \<open>
  Provisioning (\<open>packages/provisioning/src\<close>): the memory job store (\<open>jobs.ts\<close>), driving a job against a provider
  (\<open>orchestrator.ts\<close>) and branches (\<open>branches.ts\<close>).  A provider is an argument: its operations on a state of its own.  A
  call runs to its end before the next, so that the maps of calls in flight are always empty between calls; the clock only
  moves while the driver sleeps.  \<open>parse\<close> is \<open>JSON.parse\<close> on a logged database.
\<close>

section \<open>Jobs (jobs.ts)\<close>

datatype job_status = JobPending | JobRunning | JobCompleted | JobFailed | JobRetrying

datatype job_kind = JobProvision | JobDelete | JobRestart | JobStop | JobStart

record job_input =
  ji_projectId :: string
  ji_organizationId :: string
  ji_kind :: job_kind
  ji_status :: job_status
  ji_idempotencyKey :: "string option"
  ji_attempts :: int
  ji_maxAttempts :: int
  ji_lastError :: "string option"
  ji_logs :: "string list"

record prov_job =
  pj_id :: string
  pj_projectId :: string
  pj_organizationId :: string
  pj_kind :: job_kind
  pj_status :: job_status
  pj_idempotencyKey :: "string option"
  pj_attempts :: int
  pj_maxAttempts :: int
  pj_lastError :: "string option"
  pj_logs :: "string list"
  pj_createdAt :: instant
  pj_updatedAt :: instant

datatype prov_error = ProvisionerFails string bool | OtherFails string

fun error_message :: "prov_error \<Rightarrow> string" where
  "error_message (ProvisionerFails m _) = m"
| "error_message (OtherFails m) = m"

fun error_recoverable :: "prov_error \<Rightarrow> bool" where
  "error_recoverable (ProvisionerFails _ r) = r"
| "error_recoverable (OtherFails _) = False"

datatype prov_audit = ProvStarted string | ProvCompleted string | ProvFailed string | LifecycleDone job_kind string

text \<open>The state of the control plane and, in \<open>ps_world\<close>, that of the provider.\<close>

record 'w prov_state =
  ps_jobs :: "(string, prov_job) jsmap"
  ps_counter :: nat
  ps_audit :: "prov_audit list"
  ps_now :: instant
  ps_world :: 'w

definition with_jobs :: "(string, prov_job) jsmap \<Rightarrow> 'w prov_state \<Rightarrow> 'w prov_state" where
  "with_jobs js s = s\<lparr>ps_jobs := js\<rparr>"

definition jobs_findById :: "string \<Rightarrow> 'w prov_state \<Rightarrow> prov_job option" where
  "jobs_findById i s = js_get (ps_jobs s) i"

definition jobs_findByKey :: "string \<Rightarrow> string \<Rightarrow> 'w prov_state \<Rightarrow> prov_job option" where
  "jobs_findByKey org key s = find (\<lambda>j. pj_organizationId j = org \<and> pj_idempotencyKey j = Some key) (js_values (ps_jobs s))"

definition jobs_listByProject :: "string \<Rightarrow> 'w prov_state \<Rightarrow> prov_job list" where
  "jobs_listByProject p s = newest_first pj_createdAt (filter (\<lambda>j. pj_projectId j = p) (js_values (ps_jobs s)))"

definition jobs_listByStatus :: "job_status \<Rightarrow> int \<Rightarrow> 'w prov_state \<Rightarrow> prov_job list" where
  "jobs_listByStatus st limit s = take (nat (max 1 (min limit 1000)))
     (newest_first pj_createdAt (filter (\<lambda>j. pj_status j = st) (js_values (ps_jobs s))))"

definition job_of :: "string \<Rightarrow> instant \<Rightarrow> job_input \<Rightarrow> prov_job" where
  "job_of i now j = \<lparr>pj_id = i, pj_projectId = ji_projectId j, pj_organizationId = ji_organizationId j, pj_kind = ji_kind j,
     pj_status = ji_status j, pj_idempotencyKey = ji_idempotencyKey j, pj_attempts = ji_attempts j,
     pj_maxAttempts = ji_maxAttempts j, pj_lastError = ji_lastError j, pj_logs = ji_logs j, pj_createdAt = now, pj_updatedAt = now\<rparr>"

definition job_id :: "nat \<Rightarrow> string" where
  "job_id n = ''job_'' @ dec n"

definition jobs_insert :: "job_input \<Rightarrow> 'w prov_state \<Rightarrow> prov_job \<times> 'w prov_state" where
  "jobs_insert j s = (let n = ps_counter s + 1; full = job_of (job_id n) (ps_now s) j in
     (full, s\<lparr>ps_counter := n, ps_jobs := js_set (job_id n) full (ps_jobs s)\<rparr>))"

definition jobs_create :: "job_input \<Rightarrow> 'w prov_state \<Rightarrow> prov_job \<times> 'w prov_state" where
  "jobs_create j s =
     (case ji_idempotencyKey j of
        None \<Rightarrow> jobs_insert j s
      | Some key \<Rightarrow>
          if key = [] then jobs_insert j s
          else case jobs_findByKey (ji_organizationId j) key s of
              None \<Rightarrow> jobs_insert j s
            | Some existing \<Rightarrow> if pj_status existing \<noteq> JobFailed then (existing, s) else jobs_insert j s)"

definition job_change :: "string \<Rightarrow> (prov_job \<Rightarrow> prov_job) \<Rightarrow> ('w prov_state, prov_error, unit) act" where
  "job_change i f = (\<lambda>s. case js_get (ps_jobs s) i of
     None \<Rightarrow> (Inl (OtherFails ''Job not found''), s)
   | Some j \<Rightarrow> (Inr (), s\<lparr>ps_jobs := js_set i ((f j)\<lparr>pj_updatedAt := ps_now s\<rparr>) (ps_jobs s)\<rparr>))"

definition jobs_appendLog :: "string \<Rightarrow> string \<Rightarrow> ('w prov_state, prov_error, unit) act" where
  "jobs_appendLog i line = (\<lambda>s. job_change i
     (\<lambda>j. j\<lparr>pj_logs := pj_logs j @ [''['' @ iso_string (ps_now s) @ ''] '' @ take 500 line]\<rparr>) s)"

definition shouldRetry :: "int \<Rightarrow> int \<Rightarrow> bool \<Rightarrow> bool" where
  "shouldRetry attempts maxAttempts recoverable \<longleftrightarrow> recoverable \<and> attempts < maxAttempts"

definition backoffMs :: "int \<Rightarrow> int" where
  "backoffMs attempt = min 30000 (1000 * 2 ^ nat (max 0 (attempt - 1)))"

section \<open>Providers (provisioner.ts)\<close>

record provision_request =
  pr_projectId :: string
  pr_organizationId :: string
  pr_slug :: string
  pr_password :: string
  pr_version :: string
  pr_region :: string

record clone_request =
  cr_sourceDatabaseId :: string
  cr_sourcePassword :: string
  cr_target :: provision_request
  cr_branch :: string

record provisioned =
  pd_databaseId :: string
  pd_host :: string
  pd_port :: int
  pd_dbName :: string
  pd_dbUser :: string
  pd_version :: string

datatype db_health = Healthy | Unhealthy | Starting | Unavailable

fun health_text :: "db_health \<Rightarrow> string" where
  "health_text Healthy = ''healthy''"
| "health_text Unhealthy = ''unhealthy''"
| "health_text Starting = ''starting''"
| "health_text Unavailable = ''unavailable''"

type_synonym ('w, 'a) provider_call = "'w \<Rightarrow> (prov_error + 'a) \<times> 'w"

record 'w provider =
  pv_create :: "provision_request \<Rightarrow> ('w, provisioned) provider_call"
  pv_status :: "provisioned \<Rightarrow> string \<Rightarrow> ('w, db_health) provider_call"
  pv_delete :: "string \<Rightarrow> ('w, unit) provider_call"
  pv_start :: "string \<Rightarrow> ('w, unit) provider_call"
  pv_stop :: "string \<Rightarrow> ('w, unit) provider_call"
  pv_restart :: "string \<Rightarrow> ('w, unit) provider_call"
  pv_clone :: "(clone_request \<Rightarrow> ('w, provisioned) provider_call) option"

definition in_world :: "('w, 'a) provider_call \<Rightarrow> ('w prov_state, prov_error, 'a) act" where
  "in_world call = (\<lambda>s. case call (ps_world s) of (r, w) \<Rightarrow> (r, s\<lparr>ps_world := w\<rparr>))"

section \<open>Driving a job (orchestrator.ts)\<close>

definition prov_record :: "prov_audit \<Rightarrow> ('w prov_state, prov_error, unit) act" where
  "prov_record a = act_modify (\<lambda>s. s\<lparr>ps_audit := ps_audit s @ [a]\<rparr>)"

definition database_json :: "provisioned \<Rightarrow> string" where
  "database_json d = json_stringify (JObj [(''databaseId'', JStr (pd_databaseId d)), (''host'', JStr (pd_host d)),
     (''port'', JNum (pd_port d)), (''dbName'', JStr (pd_dbName d)), (''dbUser'', JStr (pd_dbUser d)), (''version'', JStr (pd_version d))])"

text \<open>The logs from the last to the first: the first one whose text from the first brace on is a database.\<close>

definition databaseFromLogs :: "(string \<Rightarrow> provisioned option) \<Rightarrow> string list \<Rightarrow> provisioned option" where
  "databaseFromLogs parse logs =
     (case filter (\<lambda>d. d \<noteq> None) (map (\<lambda>line. let json = dropWhile ((\<noteq>) (CHR 0x7B)) line in
        if json = [] then None else parse json) (rev logs)) of [] \<Rightarrow> None | d # _ \<Rightarrow> d)"

definition attempt_once :: "'w provider \<Rightarrow> provision_request \<Rightarrow> string \<Rightarrow> ('w prov_state, prov_error, provisioned) act" where
  "attempt_once pv req i =
     act_bind (in_world (pv_create pv req)) (\<lambda>db.
     act_bind (in_world (pv_status pv db (pr_password req))) (\<lambda>health.
     act_seq (act_require (health = Healthy)
       (ProvisionerFails (''Database unhealthy after create ('' @ health_text health @ '')'') True))
     (act_seq (job_change i (\<lambda>j. j\<lparr>pj_status := JobCompleted, pj_lastError := None\<rparr>))
     (act_seq (jobs_appendLog i (database_json db))
     (act_seq (prov_record (ProvCompleted i)) (act_return db))))))"

definition begin_attempt :: "string \<Rightarrow> int \<Rightarrow> ('w prov_state, prov_error, unit) act" where
  "begin_attempt i attempt =
     act_seq (job_change i (\<lambda>j. j\<lparr>pj_attempts := attempt\<rparr>))
       (jobs_appendLog i (''attempt '' @ dec_int attempt @ '': creating database''))"

definition attempt_failed :: "string \<Rightarrow> int \<Rightarrow> int \<Rightarrow> prov_error \<Rightarrow> ('w prov_state, prov_error, unit) act" where
  "attempt_failed i attempt maxAttempts err =
     act_seq (jobs_appendLog i (''attempt '' @ dec_int attempt @ '' failed: '' @ take 200 (error_message err)))
     (if shouldRetry attempt maxAttempts (error_recoverable err)
      then act_seq (job_change i (\<lambda>j. j\<lparr>pj_status := JobRetrying, pj_lastError := Some (take 300 (error_message err))\<rparr>))
             (act_modify (\<lambda>s. s\<lparr>ps_now := ps_now s + backoffMs attempt\<rparr>))
      else act_seq (job_change i (\<lambda>j. j\<lparr>pj_status := JobFailed, pj_lastError := Some (take 500 (error_message err))\<rparr>))
             (act_seq (prov_record (ProvFailed i)) (act_throw err)))"

text \<open>The loop: \<open>attempt\<close> counts the attempts made so far.\<close>

function drive_loop :: "'w provider \<Rightarrow> provision_request \<Rightarrow> string \<Rightarrow> int \<Rightarrow> int \<Rightarrow> 'w prov_state \<Rightarrow>
    (prov_error + provisioned) \<times> 'w prov_state" where
  "drive_loop pv req i maxAttempts attempt s =
     (case begin_attempt i (attempt + 1) s of
        (Inl e, s1) \<Rightarrow> (Inl e, s1)
      | (Inr _, s1) \<Rightarrow>
        (case attempt_once pv req i s1 of
           (Inr db, s2) \<Rightarrow> (Inr db, s2)
         | (Inl err, s2) \<Rightarrow>
           (case attempt_failed i (attempt + 1) maxAttempts err s2 of
              (Inl e, s3) \<Rightarrow> (Inl e, s3)
            | (Inr _, s3) \<Rightarrow> if shouldRetry (attempt + 1) maxAttempts (error_recoverable err)
                then drive_loop pv req i maxAttempts (attempt + 1) s3 else (Inl err, s3))))"
  by pat_completeness auto
termination
  by (relation "measure (\<lambda>(_, _, _, m, a, _). nat (m - a))") (auto simp: shouldRetry_def)

declare drive_loop.simps [simp del]

record provision_input =
  pi_projectId :: string
  pi_organizationId :: string
  pi_userId :: string
  pi_slug :: string
  pi_password :: string
  pi_version :: "string option"
  pi_region :: "string option"
  pi_idempotencyKey :: string

definition request_of :: "provision_input \<Rightarrow> provision_request" where
  "request_of input = \<lparr>pr_projectId = pi_projectId input, pr_organizationId = pi_organizationId input, pr_slug = pi_slug input,
     pr_password = pi_password input, pr_version = (case pi_version input of None \<Rightarrow> ''16'' | Some v \<Rightarrow> v),
     pr_region = (case pi_region input of None \<Rightarrow> ''local'' | Some r \<Rightarrow> r)\<rparr>"

record provision_outcome =
  po_jobId :: string
  po_database :: "provisioned option"
  po_deduplicated :: bool

definition provision_job :: "provision_input \<Rightarrow> int \<Rightarrow> job_input" where
  "provision_job input maxAttempts = \<lparr>ji_projectId = pi_projectId input, ji_organizationId = pi_organizationId input,
     ji_kind = JobProvision, ji_status = JobPending, ji_idempotencyKey = Some (pi_idempotencyKey input), ji_attempts = 0,
     ji_maxAttempts = maxAttempts, ji_lastError = None, ji_logs = []\<rparr>"

definition driven_job :: "provision_input \<Rightarrow> int \<Rightarrow> string option \<Rightarrow> ('w prov_state, prov_error, string) act" where
  "driven_job input maxAttempts resume =
     (case resume of
        Some i \<Rightarrow> act_bind (act_asks (jobs_findById i)) (\<lambda>j. act_bind (act_some j (OtherFails ''Provisioning job not found'')) (\<lambda>j. act_return (pj_id j)))
      | None \<Rightarrow> act_bind (act_run (jobs_create (provision_job input maxAttempts))) (\<lambda>j. act_return (pj_id j)))"

definition driveProvision :: "'w provider \<Rightarrow> provision_input \<Rightarrow> int \<Rightarrow> string option \<Rightarrow> ('w prov_state, prov_error, provision_outcome) act" where
  "driveProvision pv input maxAttempts resume =
     act_bind (driven_job input maxAttempts resume) (\<lambda>i.
     act_seq (prov_record (ProvStarted i))
     (act_seq (job_change i (\<lambda>j. j\<lparr>pj_status := JobRunning\<rparr>))
     (act_bind (drive_loop pv (request_of input) i maxAttempts 0) (\<lambda>db.
      act_return \<lparr>po_jobId = i, po_database = Some db, po_deduplicated = False\<rparr>))))"

text \<open>An empty \<open>resumeJobId\<close> is none.\<close>

definition provisionProjectDatabase :: "(string \<Rightarrow> provisioned option) \<Rightarrow> 'w provider \<Rightarrow> provision_input \<Rightarrow> int option \<Rightarrow> string option \<Rightarrow>
    ('w prov_state, prov_error, provision_outcome) act" where
  "provisionProjectDatabase parse pv input maxAttempts resumeJobId = (\<lambda>s.
     let resume = (if resumeJobId = Some [] then None else resumeJobId);
         existing = (if resume = None then jobs_findByKey (pi_organizationId input) (pi_idempotencyKey input) s else None) in
     case filter (\<lambda>j. pj_status j \<noteq> JobFailed) (case existing of None \<Rightarrow> [] | Some j \<Rightarrow> [j]) of
       j # _ \<Rightarrow> (Inr \<lparr>po_jobId = pj_id j,
           po_database = (if pj_status j = JobCompleted then databaseFromLogs parse (pj_logs j) else None), po_deduplicated = True\<rparr>, s)
     | [] \<Rightarrow> driveProvision pv input (case maxAttempts of None \<Rightarrow> 3 | Some m \<Rightarrow> m) resume s)"

section \<open>Lifecycle jobs\<close>

definition lifecycle_call :: "'w provider \<Rightarrow> job_kind \<Rightarrow> string \<Rightarrow> ('w, unit) provider_call" where
  "lifecycle_call pv kind db = (if kind = JobDelete then pv_delete pv db else if kind = JobRestart then pv_restart pv db
     else if kind = JobStop then pv_stop pv db else pv_start pv db)"

definition lifecycle_job :: "job_kind \<Rightarrow> string \<Rightarrow> string \<Rightarrow> job_input" where
  "lifecycle_job kind projectId organizationId = \<lparr>ji_projectId = projectId, ji_organizationId = organizationId, ji_kind = kind,
     ji_status = JobRunning, ji_idempotencyKey = None, ji_attempts = 1, ji_maxAttempts = 1, ji_lastError = None, ji_logs = []\<rparr>"

definition runLifecycleJob :: "'w provider \<Rightarrow> job_kind \<Rightarrow> string \<Rightarrow> string \<Rightarrow> string \<Rightarrow> ('w prov_state, prov_error, string) act" where
  "runLifecycleJob pv kind projectId organizationId databaseId =
     act_bind (act_run (jobs_create (lifecycle_job kind projectId organizationId))) (\<lambda>j.
     act_catch
       (act_seq (in_world (lifecycle_call pv kind databaseId))
       (act_seq (job_change (pj_id j) (\<lambda>j. j\<lparr>pj_status := JobCompleted\<rparr>))
       (act_seq (prov_record (LifecycleDone kind (pj_id j))) (act_return (pj_id j)))))
       (\<lambda>err. act_seq (job_change (pj_id j) (\<lambda>j. j\<lparr>pj_status := JobFailed, pj_lastError := Some (take 500 (error_message err))\<rparr>))
         (act_throw err)))"

end
