(* ===== verification/ProvisionSafety.thy ===== *)
theory ProvisionSafety
  imports ProvisionJobs
begin

text \<open>
  What driving a job guarantees against any provider: it always settles, completed exactly when the provider reported the
  database healthy, within the attempts allowed; a key whose job completed is not provisioned again; lifecycle jobs.
\<close>

section \<open>Changing one job\<close>

lemma job_change_present:
  "js_get (ps_jobs s) i = Some j \<Longrightarrow>
   job_change i f s = (Inr (), s\<lparr>ps_jobs := js_set i ((f j)\<lparr>pj_updatedAt := ps_now s\<rparr>) (ps_jobs s)\<rparr>)"
  by (simp add: job_change_def)

text \<open>The other jobs, and the order of all of them, stay as they are.\<close>

definition others_kept :: "string \<Rightarrow> 'w prov_state \<Rightarrow> 'w prov_state \<Rightarrow> bool" where
  "others_kept i s t \<longleftrightarrow> (\<forall>k. k \<noteq> i \<longrightarrow> js_get (ps_jobs t) k = js_get (ps_jobs s) k) \<and> map fst (ps_jobs t) = map fst (ps_jobs s)"

lemma present_keys: "js_get m i \<noteq> None \<Longrightarrow> map fst (js_set i v m) = map fst m"
  by (auto simp: update_keys map_of_eq_None_iff)

definition same_identity :: "prov_job \<Rightarrow> prov_job \<Rightarrow> bool" where
  "same_identity j j' \<longleftrightarrow> pj_id j' = pj_id j \<and> pj_organizationId j' = pj_organizationId j \<and> pj_projectId j' = pj_projectId j \<and>
     pj_idempotencyKey j' = pj_idempotencyKey j \<and> pj_kind j' = pj_kind j"

lemma begin_attempt_present:
  assumes "js_get (ps_jobs s) i = Some j"
  shows "\<exists>s' j'. begin_attempt i n s = (Inr (), s') \<and> js_get (ps_jobs s') i = Some j' \<and> pj_attempts j' = n \<and> same_identity j j' \<and>
    ps_world s' = ps_world s \<and> others_kept i s s'"
  using assms by (simp add: begin_attempt_def act_defs jobs_appendLog_def job_change_def same_identity_def others_kept_def present_keys)

lemma attempt_once_cases:
  assumes "js_get (ps_jobs s) i = Some j"
  shows "(\<exists>db w s' j'. attempt_once pv req i s = (Inr db, s') \<and> pv_create pv req (ps_world s) = (Inr db, w) \<and>
      pv_status pv db (pr_password req) w = (Inr Healthy, ps_world s') \<and> js_get (ps_jobs s') i = Some j' \<and>
      pj_status j' = JobCompleted \<and> pj_lastError j' = None \<and> pj_attempts j' = pj_attempts j \<and> same_identity j j' \<and>
      others_kept i s s') \<or>
    (\<exists>e s'. attempt_once pv req i s = (Inl e, s') \<and> ps_jobs s' = ps_jobs s)"
proof -
  obtain r w where c: "pv_create pv req (ps_world s) = (r, w)" by (cases "pv_create pv req (ps_world s)")
  show ?thesis
  proof (cases r)
    case (Inl e)
    then show ?thesis using c by (simp add: attempt_once_def act_defs in_world_def)
  next
    case (Inr db)
    obtain q w' where q: "pv_status pv db (pr_password req) w = (q, w')" by (cases "pv_status pv db (pr_password req) w")
    show ?thesis
    proof (cases "q = Inr Healthy")
      case True
      then show ?thesis using c Inr q assms
        by (simp add: attempt_once_def act_defs in_world_def job_change_def jobs_appendLog_def prov_record_def same_identity_def
            others_kept_def present_keys)
    next
      case False
      then show ?thesis using c Inr q assms by (cases q) (auto simp: attempt_once_def act_defs in_world_def)
    qed
  qed
qed

lemma attempt_failed_retry:
  assumes "js_get (ps_jobs s) i = Some j" and "shouldRetry n m (error_recoverable e)"
  shows "\<exists>s' j'. attempt_failed i n m e s = (Inr (), s') \<and> js_get (ps_jobs s') i = Some j' \<and> same_identity j j' \<and>
    pj_attempts j' = pj_attempts j \<and> ps_world s' = ps_world s \<and> others_kept i s s'"
  using assms by (simp add: attempt_failed_def act_defs jobs_appendLog_def job_change_def same_identity_def others_kept_def present_keys)

lemma attempt_failed_final:
  assumes "js_get (ps_jobs s) i = Some j" and "\<not> shouldRetry n m (error_recoverable e)"
  shows "\<exists>s' j'. attempt_failed i n m e s = (Inl e, s') \<and> js_get (ps_jobs s') i = Some j' \<and> same_identity j j' \<and>
    pj_attempts j' = pj_attempts j \<and> pj_status j' = JobFailed \<and> pj_lastError j' = Some (take 500 (error_message e)) \<and>
    others_kept i s s'"
  using assms by (simp add: attempt_failed_def act_defs jobs_appendLog_def job_change_def same_identity_def prov_record_def
      others_kept_def present_keys)

text \<open>How a job that was driven ends.\<close>

definition settled :: "'w provider \<Rightarrow> provision_request \<Rightarrow> prov_error + provisioned \<Rightarrow> 'w prov_state \<Rightarrow> prov_job \<Rightarrow> bool" where
  "settled pv req r t j \<longleftrightarrow> (case r of
     Inr db \<Rightarrow> pj_status j = JobCompleted \<and> pj_lastError j = None \<and>
       (\<exists>w w'. pv_create pv req w = (Inr db, w') \<and> pv_status pv db (pr_password req) w' = (Inr Healthy, ps_world t))
   | Inl e \<Rightarrow> pj_status j = JobFailed \<and> pj_lastError j = Some (take 500 (error_message e)))"

lemma drive_loop_settles:
  assumes "js_get (ps_jobs s) i = Some j" and "drive_loop pv req i m a s = (r, t)"
  shows "\<exists>j'. js_get (ps_jobs t) i = Some j' \<and> same_identity j j' \<and> settled pv req r t j' \<and>
    a < pj_attempts j' \<and> pj_attempts j' \<le> max (a + 1) m \<and> others_kept i s t"
  using assms
proof (induction pv req i m a s arbitrary: j r t rule: drive_loop.induct)
  case (1 pv req i m a s)
  obtain s1 j1 where b: "begin_attempt i (a + 1) s = (Inr (), s1)" "js_get (ps_jobs s1) i = Some j1" "pj_attempts j1 = a + 1"
    "same_identity j j1" "others_kept i s s1"
    using begin_attempt_present [OF "1.prems"(1), of "a + 1"] by blast
  from attempt_once_cases [OF b(2), of pv req] show ?case
  proof (elim disjE exE conjE)
    fix db w s2 j2
    assume o: "attempt_once pv req i s1 = (Inr db, s2)" "pv_create pv req (ps_world s1) = (Inr db, w)"
      "pv_status pv db (pr_password req) w = (Inr Healthy, ps_world s2)" "js_get (ps_jobs s2) i = Some j2"
      "pj_status j2 = JobCompleted" "pj_lastError j2 = None" "pj_attempts j2 = pj_attempts j1" "same_identity j1 j2"
      "others_kept i s1 s2"
    have "r = Inr db" "t = s2" using "1.prems"(2) b(1) o(1) by (simp_all add: drive_loop.simps [of pv req i m a s])
    then show ?thesis using o b by (auto simp: settled_def same_identity_def others_kept_def)
  next
    fix e s2 assume o: "attempt_once pv req i s1 = (Inl e, s2)" "ps_jobs s2 = ps_jobs s1"
    have j2: "js_get (ps_jobs s2) i = Some j1" using o(2) b(2) by simp
    show ?thesis
    proof (cases "shouldRetry (a + 1) m (error_recoverable e)")
      case False
      obtain s3 j3 where f: "attempt_failed i (a + 1) m e s2 = (Inl e, s3)" "js_get (ps_jobs s3) i = Some j3" "same_identity j1 j3"
        "pj_attempts j3 = pj_attempts j1" "pj_status j3 = JobFailed" "pj_lastError j3 = Some (take 500 (error_message e))"
        "others_kept i s2 s3"
        using attempt_failed_final [OF j2 False] by blast
      have "r = Inl e" "t = s3" using "1.prems"(2) b(1) o(1) f(1) by (simp_all add: drive_loop.simps [of pv req i m a s])
      then show ?thesis using f b o(2) by (auto simp: settled_def same_identity_def others_kept_def)
    next
      case True
      obtain s3 j3 where f: "attempt_failed i (a + 1) m e s2 = (Inr (), s3)" "js_get (ps_jobs s3) i = Some j3" "same_identity j1 j3"
        "others_kept i s2 s3"
        using attempt_failed_retry [OF j2 True] by blast
      have d: "drive_loop pv req i m (a + 1) s3 = (r, t)"
        using "1.prems"(2) b(1) o(1) f(1) True by (simp add: drive_loop.simps [of pv req i m a s])
      then obtain j' where "js_get (ps_jobs t) i = Some j'" "same_identity j3 j'" "settled pv req r t j'" "a + 1 < pj_attempts j'"
        "pj_attempts j' \<le> max (a + 2) m" "others_kept i s3 t"
        using "1.IH" [OF b(1) [symmetric] HOL.refl o(1) [symmetric] HOL.refl f(1) [symmetric] HOL.refl True f(2) d] by (auto simp: add.assoc)
      moreover have "a + 1 < m" using True by (simp add: shouldRetry_def)
      ultimately show ?thesis using f b o(2) by (auto simp: same_identity_def others_kept_def)
    qed
  qed
qed

section \<open>Driving\<close>

text \<open>A key under which no job is alive: none is found, or the one that is found failed.\<close>

definition key_free :: "string \<Rightarrow> string \<Rightarrow> 'w prov_state \<Rightarrow> bool" where
  "key_free org key s \<longleftrightarrow> (case jobs_findByKey org key s of None \<Rightarrow> True | Some j \<Rightarrow> pj_status j = JobFailed)"

lemma jobs_create_new:
  assumes "jobs_create ji s = (j, t)" and "\<And>k. ji_idempotencyKey ji = Some k \<Longrightarrow> key_free (ji_organizationId ji) k s"
  shows "j = job_of (job_id (ps_counter s + 1)) (ps_now s) ji" "ps_jobs t = js_set (pj_id j) j (ps_jobs s)" "ps_world t = ps_world s"
  using assms by (auto simp: jobs_create_def jobs_insert_def job_of_def key_free_def Let_def split: option.splits if_splits)

lemma driveProvision_new:
  assumes "driveProvision pv input m None s = (r, t)" and "key_free (pi_organizationId input) (pi_idempotencyKey input) s"
  defines "i \<equiv> job_id (ps_counter s + 1)"
  shows "\<exists>j. js_get (ps_jobs t) i = Some j \<and> pj_id j = i \<and> pj_organizationId j = pi_organizationId input \<and>
    pj_idempotencyKey j = Some (pi_idempotencyKey input) \<and> 1 \<le> pj_attempts j \<and> pj_attempts j \<le> max 1 m \<and>
    (\<forall>k. k \<noteq> i \<longrightarrow> js_get (ps_jobs t) k = js_get (ps_jobs s) k) \<and> (\<exists>v. map fst (ps_jobs t) = map fst (js_set i v (ps_jobs s))) \<and>
    (case r of
       Inr out \<Rightarrow> po_jobId out = i \<and> \<not> po_deduplicated out \<and> (\<exists>db. po_database out = Some db \<and> settled pv (request_of input) (Inr db) t j)
     | Inl e \<Rightarrow> settled pv (request_of input) (Inl e) t j)"
proof -
  obtain j0 s0 where c: "jobs_create (provision_job input m) s = (j0, s0)" by (cases "jobs_create (provision_job input m) s")
  have key: "ji_idempotencyKey (provision_job input m) = Some k \<Longrightarrow> key_free (ji_organizationId (provision_job input m)) k s" for k
    using assms(2) by (simp add: provision_job_def)
  note new = jobs_create_new [OF c key]
  have i: "pj_id j0 = i" using new(1) by (simp add: job_of_def i_def)
  obtain s1 j1 where s1: "s1 = s0\<lparr>ps_audit := ps_audit s0 @ [ProvStarted i], ps_jobs := js_set i j1 (ps_jobs s0)\<rparr>"
    "j1 = j0\<lparr>pj_status := JobRunning, pj_updatedAt := ps_now s0\<rparr>" by blast
  obtain q u where q: "drive_loop pv (request_of input) i m 0 s1 = (q, u)" by (cases "drive_loop pv (request_of input) i m 0 s1")
  have d: "driveProvision pv input m None s = (case q of Inl e \<Rightarrow> (Inl e, u)
      | Inr db \<Rightarrow> (Inr \<lparr>po_jobId = i, po_database = Some db, po_deduplicated = False\<rparr>, u))"
    using c new(2) q i unfolding s1
    by (simp add: driveProvision_def driven_job_def act_defs prov_record_def job_change_def split: sum.split)
  have "js_get (ps_jobs s1) i = Some j1" by (simp add: s1(1))
  from drive_loop_settles [OF this q] obtain j where j: "js_get (ps_jobs u) i = Some j" "same_identity j1 j"
    "settled pv (request_of input) q u j" "0 < pj_attempts j" "pj_attempts j \<le> max 1 m" "others_kept i s1 u" by auto
  have id: "pj_id j = i" "pj_organizationId j = pi_organizationId input" "pj_idempotencyKey j = Some (pi_idempotencyKey input)"
    using j(2) new(1) i by (simp_all add: same_identity_def s1(2) job_of_def provision_job_def)
  have others: "\<forall>k. k \<noteq> i \<longrightarrow> js_get (ps_jobs u) k = js_get (ps_jobs s) k"
    using j(6) new(2) i by (simp add: s1(1) others_kept_def)
  have "map fst (js_set i j1 (js_set i j0 (ps_jobs s))) = map fst (js_set i j0 (ps_jobs s))" by (rule present_keys) simp
  then have keys: "map fst (ps_jobs u) = map fst (js_set i j0 (ps_jobs s))" using j(6) new(2) i by (simp add: s1(1) others_kept_def)
  have "t = u" using assms(1) d by (cases q) auto
  moreover have "r = (case q of Inl e \<Rightarrow> Inl e | Inr db \<Rightarrow> Inr \<lparr>po_jobId = i, po_database = Some db, po_deduplicated = False\<rparr>)"
    using assms(1) d by (cases q) auto
  ultimately show ?thesis using j(1,3-5) id others keys by (intro exI [of _ j]) (cases q, auto)
qed

lemma free_key_is_driven:
  assumes "key_free (pi_organizationId input) (pi_idempotencyKey input) s"
  shows "provisionProjectDatabase parse pv input n None s = driveProvision pv input (case n of None \<Rightarrow> 3 | Some m \<Rightarrow> m) None s"
  using assms by (auto simp: provisionProjectDatabase_def key_free_def Let_def split: option.splits)

text \<open>C34. Provisioning a database always settles.  Whatever the provider does, the job ends completed or failed after at
  least one and at most the allowed number of attempts; it is completed, and the caller gets the database, exactly when
  the provider has created that database and reported it healthy just before; otherwise the caller gets the last error,
  which the job keeps.\<close>

theorem provisioning_settles:
  assumes "provisionProjectDatabase parse pv input maxAttempts None s = (r, t)"
    and "key_free (pi_organizationId input) (pi_idempotencyKey input) s"
  shows "\<exists>i j. js_get (ps_jobs t) i = Some j \<and> 1 \<le> pj_attempts j \<and> pj_attempts j \<le> max 1 (case maxAttempts of None \<Rightarrow> 3 | Some m \<Rightarrow> m) \<and>
    (case r of
       Inr out \<Rightarrow> po_jobId out = i \<and> pj_status j = JobCompleted \<and> (\<exists>db w w'. po_database out = Some db \<and>
         pv_create pv (request_of input) w = (Inr db, w') \<and> pv_status pv db (pi_password input) w' = (Inr Healthy, ps_world t))
     | Inl e \<Rightarrow> pj_status j = JobFailed \<and> pj_lastError j = Some (take 500 (error_message e)))"
proof -
  let ?m = "case maxAttempts of None \<Rightarrow> 3 | Some m \<Rightarrow> m" and ?i = "job_id (ps_counter s + 1)"
  have "driveProvision pv input ?m None s = (r, t)" using assms free_key_is_driven by metis
  from driveProvision_new [OF this assms(2)] obtain j where j: "js_get (ps_jobs t) ?i = Some j" "1 \<le> pj_attempts j" "pj_attempts j \<le> max 1 ?m"
    "case r of
       Inr out \<Rightarrow> po_jobId out = ?i \<and> \<not> po_deduplicated out \<and> (\<exists>db. po_database out = Some db \<and> settled pv (request_of input) (Inr db) t j)
     | Inl e \<Rightarrow> settled pv (request_of input) (Inl e) t j" by blast
  have "pr_password (request_of input) = pi_password input" by (simp add: request_of_def)
  then show ?thesis using j by (intro exI [of _ ?i] exI [of _ j]) (cases r, auto simp: settled_def)
qed

section \<open>Repeating a request\<close>

lemma new_key_is_deduplicated:
  assumes "provisionProjectDatabase parse pv input maxAttempts None s = (Inr out, t)"
    and "jobs_findByKey (pi_organizationId input) (pi_idempotencyKey input) s = None"
    and "js_ok (ps_jobs s)"
    and "pi_organizationId again = pi_organizationId input" and "pi_idempotencyKey again = pi_idempotencyKey input"
  shows "\<exists>d. provisionProjectDatabase parse pv again n None t = (Inr \<lparr>po_jobId = po_jobId out, po_database = d, po_deduplicated = True\<rparr>, t)"
proof -
  let ?m = "case maxAttempts of None \<Rightarrow> 3 | Some m \<Rightarrow> m" and ?i = "job_id (ps_counter s + 1)"
  let ?p = "\<lambda>j. pj_organizationId j = pi_organizationId input \<and> pj_idempotencyKey j = Some (pi_idempotencyKey input)"
  have free: "key_free (pi_organizationId input) (pi_idempotencyKey input) s" using assms(2) by (simp add: key_free_def)
  then have "driveProvision pv input ?m None s = (Inr out, t)" using assms(1) free_key_is_driven by metis
  from driveProvision_new [OF this free] obtain j where j: "js_get (ps_jobs t) ?i = Some j" "pj_id j = ?i" "?p j" "po_jobId out = ?i"
    "pj_status j = JobCompleted" "\<forall>k. k \<noteq> ?i \<longrightarrow> js_get (ps_jobs t) k = js_get (ps_jobs s) k"
    "\<exists>v. map fst (ps_jobs t) = map fst (js_set ?i v (ps_jobs s))" by (auto simp: settled_def)
  have ok: "js_ok (ps_jobs t)" using j(7) js_ok_set [OF assms(3)] by (metis js_ok_def)
  have none: "\<not> ?p x" if "js_get (ps_jobs s) k = Some x" for k x
    using assms(2) js_get_values [OF that] by (auto simp: jobs_findByKey_def find_None_iff)
  obtain y where y: "find ?p (js_values (ps_jobs t)) = Some y"
    using find_hits [of j "js_values (ps_jobs t)" ?p] js_get_values [OF j(1)] j(3) by blast
  then have "y \<in> set (js_values (ps_jobs t))" "?p y" using find_Some_in by fast+
  then obtain k where k: "js_get (ps_jobs t) k = Some y" using js_values_get [OF ok] by blast
  have "k = ?i" using none j(6) k \<open>?p y\<close> by metis
  then have "y = j" using k j(1) by simp
  then have "jobs_findByKey (pi_organizationId again) (pi_idempotencyKey again) t = Some j"
    using y by (simp add: jobs_findByKey_def assms(4,5))
  then show ?thesis using j by (simp add: provisionProjectDatabase_def Let_def)
qed

section \<open>A key whose first job failed\<close>

lemma same_keys_values:
  assumes "map fst xs = map fst ys" "distinct (map fst xs)" "\<And>k. k \<in> set (map fst xs) \<Longrightarrow> map_of xs k = map_of ys k"
  shows "xs = ys"
  using assms
proof (induction xs arbitrary: ys)
  case (Cons x xs)
  obtain y zs where ys: "ys = y # zs" "fst y = fst x" using Cons.prems(1) by (cases ys) auto
  have "snd x = snd y" using Cons.prems(3) [of "fst x"] ys by (cases x; cases y) auto
  moreover have "xs = zs"
  proof (rule Cons.IH)
    fix k assume k: "k \<in> set (map fst xs)"
    moreover have "fst x \<notin> set (map fst xs)" using Cons.prems(2) by simp
    ultimately have "k \<noteq> fst x" by blast
    then show "map_of xs k = map_of zs k" using Cons.prems(3) [of k] k ys by (cases x; cases y) auto
  qed (use Cons.prems ys in auto)
  ultimately show ?case using ys by (simp add: prod_eq_iff)
qed simp

lemma find_in_front: "find p xs = Some x \<Longrightarrow> find p (xs @ ys) = Some x"
  by (induction xs) auto

text \<open>The store looks a key up among all jobs and takes the oldest.  Once that one has failed the key is never
  deduplicated: every request with it drives the provider again, though a later job with the same key has completed.\<close>

lemma failed_key_is_never_deduplicated:
  assumes "jobs_findByKey (pi_organizationId input) (pi_idempotencyKey input) s = Some old" and "pj_status old = JobFailed"
    and ok: "js_ok (ps_jobs s)" and new: "js_get (ps_jobs s) (job_id (ps_counter s + 1)) = None"
    and "provisionProjectDatabase parse pv input n None s = (r, t)"
  shows "jobs_findByKey (pi_organizationId input) (pi_idempotencyKey input) t = Some old \<and> (\<forall>out. r = Inr out \<longrightarrow> \<not> po_deduplicated out)"
proof -
  let ?m = "case n of None \<Rightarrow> 3 | Some m \<Rightarrow> m" and ?i = "job_id (ps_counter s + 1)"
  have free: "key_free (pi_organizationId input) (pi_idempotencyKey input) s" using assms(1,2) by (simp add: key_free_def)
  then have "driveProvision pv input ?m None s = (r, t)" using assms(5) free_key_is_driven by metis
  from driveProvision_new [OF this free] obtain j v where j: "js_get (ps_jobs t) ?i = Some j"
    "\<forall>k. k \<noteq> ?i \<longrightarrow> js_get (ps_jobs t) k = js_get (ps_jobs s) k" "map fst (ps_jobs t) = map fst (js_set ?i v (ps_jobs s))"
    "\<forall>out. r = Inr out \<longrightarrow> \<not> po_deduplicated out" by (cases r) auto
  have keys: "map fst (ps_jobs t) = map fst (ps_jobs s @ [(?i, j)])"
    using j(3) new by (simp add: js_set_new map_of_eq_None_iff)
  have "?i \<notin> fst ` set (ps_jobs s)" using new by (simp add: map_of_eq_None_iff)
  then have "distinct (map fst (ps_jobs t))" using ok unfolding keys by (simp add: js_ok_def)
  moreover have "js_get (ps_jobs t) k = js_get (ps_jobs s @ [(?i, j)]) k" for k
    by (cases "k = ?i") (use j(1,2) new in \<open>simp_all add: map_add_def split: option.split\<close>)
  ultimately have "ps_jobs t = ps_jobs s @ [(?i, j)]" using keys by (intro same_keys_values)
  then have "jobs_findByKey (pi_organizationId input) (pi_idempotencyKey input) t = Some old"
    using assms(1) by (simp add: jobs_findByKey_def find_in_front)
  then show ?thesis using j(4) by blast
qed

text \<open>C35. Repeating a request with the key of one that succeeded, after it.  If the key was new, or its oldest job had not
  failed, the repetition touches no infrastructure: it changes nothing and returns the job of the first answer, marked as
  deduplicated, whatever else it asks for and however often it comes.  If the oldest job of the key had failed before,
  that job is still the one found, and the repetition drives the provider again, as a request with a new key does.\<close>

theorem repeated_request_is_deduplicated:
  assumes "provisionProjectDatabase parse pv input maxAttempts None s = (Inr out, t)"
    and "js_ok (ps_jobs s)" and "js_get (ps_jobs s) (job_id (ps_counter s + 1)) = None"
    and "pi_organizationId again = pi_organizationId input" and "pi_idempotencyKey again = pi_idempotencyKey input"
  shows "let first = jobs_findByKey (pi_organizationId input) (pi_idempotencyKey input) s;
             repeated = provisionProjectDatabase parse pv again n None t in
    if first = None \<or> map_option pj_status first \<noteq> Some JobFailed
    then \<exists>d. repeated = (Inr \<lparr>po_jobId = po_jobId out, po_database = d, po_deduplicated = True\<rparr>, t)
    else jobs_findByKey (pi_organizationId input) (pi_idempotencyKey input) t = first \<and>
      repeated = driveProvision pv again (case n of None \<Rightarrow> 3 | Some m \<Rightarrow> m) None t"
proof -
  let ?found = "jobs_findByKey (pi_organizationId input) (pi_idempotencyKey input)"
  consider "?found s = None" | old where "?found s = Some old" "pj_status old \<noteq> JobFailed"
    | old where "?found s = Some old" "pj_status old = JobFailed" by (cases "?found s") auto
  then show ?thesis
  proof cases
    case 1
    then show ?thesis using new_key_is_deduplicated [OF assms(1) _ assms(2,4,5), of n] by (simp add: Let_def)
  next
    case 2
    then have "t = s" "po_jobId out = pj_id old" using assms(1) by (auto simp: provisionProjectDatabase_def Let_def)
    then show ?thesis using 2 by (simp add: provisionProjectDatabase_def Let_def assms(4,5))
  next
    case 3
    from failed_key_is_never_deduplicated [OF 3 assms(2,3,1)] have "?found t = Some old" by simp
    then have "key_free (pi_organizationId again) (pi_idempotencyKey again) t" using 3(2) by (simp add: key_free_def assms(4,5))
    from free_key_is_driven [OF this] show ?thesis using 3 \<open>?found t = Some old\<close> by (simp add: Let_def)
  qed
qed

text \<open>A lifecycle job tells the truth: it ends completed, with its entry in the audit log, exactly when the provider
  carried out the operation that its kind names, and otherwise failed with the provider's error, which the caller gets.\<close>

theorem lifecycle_job_tells_the_truth:
  "\<exists>j. js_get (ps_jobs (snd (runLifecycleJob pv kind p org db s))) (job_id (ps_counter s + 1)) = Some j \<and>
    (case fst (lifecycle_call pv kind db (ps_world s)) of
       Inr _ \<Rightarrow> fst (runLifecycleJob pv kind p org db s) = Inr (job_id (ps_counter s + 1)) \<and> pj_status j = JobCompleted \<and>
         ps_audit (snd (runLifecycleJob pv kind p org db s)) = ps_audit s @ [LifecycleDone kind (job_id (ps_counter s + 1))]
     | Inl e \<Rightarrow> fst (runLifecycleJob pv kind p org db s) = Inl e \<and> pj_status j = JobFailed \<and>
         pj_lastError j = Some (take 500 (error_message e)) \<and> ps_audit (snd (runLifecycleJob pv kind p org db s)) = ps_audit s)"
proof -
  obtain r w where "lifecycle_call pv kind db (ps_world s) = (r, w)" by (cases "lifecycle_call pv kind db (ps_world s)")
  then show ?thesis
    by (cases r) (simp_all add: runLifecycleJob_def act_defs jobs_create_def jobs_insert_def lifecycle_job_def job_of_def Let_def
        in_world_def job_change_def prov_record_def)
qed

end
