(* ===== verification/ProvisionBranches.thy ===== *)
theory ProvisionBranches
  imports ProvisionNames ProvisionSafety
begin

text \<open>
  Branches of a project database (\<open>packages/provisioning/src/branches.ts\<close>) and runs of the driver against a provider that
  follows a script.  The identifier of a new branch is an argument.
\<close>

section \<open>The branch store\<close>

datatype branch_status = BranchReady | BranchCreating | BranchFailed | BranchDeleting

record branch =
  br_id :: string
  br_projectId :: string
  br_organizationId :: string
  br_name :: string
  br_databaseId :: string
  br_dbName :: string
  br_dbUser :: string
  br_dbPassword :: "string option"
  br_host :: string
  br_port :: int
  br_source :: string
  br_status :: branch_status
  br_lastError :: "string option"
  br_createdAt :: instant
  br_updatedAt :: instant

record 'w branch_state =
  bs_branches :: "(string, branch) jsmap"
  bs_now :: instant
  bs_world :: 'w

text \<open>An error of the service or of the provider, or a name that \<open>assertSlug\<close> refuses.\<close>

datatype branch_error = BranchProvider prov_error | BranchName provision_input_error

definition branch_put :: "branch \<Rightarrow> ('w branch_state, branch_error, branch) act" where
  "branch_put b = act_seq (act_modify (\<lambda>s. s\<lparr>bs_branches := js_set (br_id b) b (bs_branches s)\<rparr>)) (act_return b)"

definition branches_get :: "string \<Rightarrow> 'w branch_state \<Rightarrow> branch option" where
  "branches_get i s = js_get (bs_branches s) i"

definition branches_listByProject :: "string \<Rightarrow> 'w branch_state \<Rightarrow> branch list" where
  "branches_listByProject p s = oldest_first br_createdAt (filter (\<lambda>b. br_projectId b = p) (js_values (bs_branches s)))"

definition branches_update :: "string \<Rightarrow> (branch \<Rightarrow> branch) \<Rightarrow> 'w branch_state \<Rightarrow> branch option \<times> 'w branch_state" where
  "branches_update i f s = (case js_get (bs_branches s) i of None \<Rightarrow> (None, s)
     | Some b \<Rightarrow> let b' = (f b)\<lparr>br_id := br_id b, br_projectId := br_projectId b, br_updatedAt := bs_now s\<rparr> in
         (Some b', s\<lparr>bs_branches := js_set i b' (bs_branches s)\<rparr>))"

definition branches_remove :: "string \<Rightarrow> 'w branch_state \<Rightarrow> 'w branch_state" where
  "branches_remove i s = s\<lparr>bs_branches := js_delete i (bs_branches s)\<rparr>"

section \<open>The branch service\<close>

record branch_main =
  bm_databaseId :: string
  bm_password :: string
  bm_version :: string
  bm_region :: string
  bm_slug :: string

record branch_input =
  bi_projectId :: string
  bi_organizationId :: string
  bi_name :: string
  bi_sourceDatabaseId :: "string option"
  bi_main :: branch_main

definition assertBranchName :: "string \<Rightarrow> branch_error + string" where
  "assertBranchName name = (let clean = to_lower (js_trim name) in
     if clean = ''main'' then Inl (BranchProvider (ProvisionerFails ''Branch name reserved'' False))
     else if \<not> slug_ok clean then Inl (BranchName InvalidProvisionInput)
     else if length clean > 40 then Inl (BranchProvider (ProvisionerFails ''Branch name must be at most 40 chars'' False))
     else Inr clean)"

definition refuse :: "string \<Rightarrow> branch_error" where
  "refuse m = BranchProvider (ProvisionerFails m False)"

definition clone_target :: "string \<Rightarrow> string \<Rightarrow> branch_main \<Rightarrow> string \<Rightarrow> string \<Rightarrow> provision_request" where
  "clone_target projectId organizationId m name password = \<lparr>pr_projectId = projectId, pr_organizationId = organizationId,
     pr_slug = take 60 (bm_slug m @ ''-'' @ name), pr_password = password, pr_version = bm_version m, pr_region = bm_region m\<rparr>"

definition new_branch :: "string \<Rightarrow> instant \<Rightarrow> branch_input \<Rightarrow> string \<Rightarrow> branch" where
  "new_branch i now input name = \<lparr>br_id = i, br_projectId = bi_projectId input, br_organizationId = bi_organizationId input,
     br_name = name, br_databaseId = [], br_dbName = [], br_dbUser = [], br_dbPassword = None, br_host = [], br_port = 0,
     br_source = (case bi_sourceDatabaseId input of None \<Rightarrow> ''main'' | Some d \<Rightarrow> d), br_status = BranchCreating,
     br_lastError = None, br_createdAt = now, br_updatedAt = now\<rparr>"

definition cloned :: "provisioned \<Rightarrow> string \<Rightarrow> branch \<Rightarrow> branch" where
  "cloned d password b = b\<lparr>br_status := BranchReady, br_databaseId := pd_databaseId d, br_dbName := pd_dbName d,
     br_dbUser := pd_dbUser d, br_dbPassword := Some password, br_host := pd_host d, br_port := pd_port d, br_lastError := None\<rparr>"

definition branch_world :: "('w, 'a) provider_call \<Rightarrow> ('w branch_state, branch_error, 'a) act" where
  "branch_world call = (\<lambda>s. case call (bs_world s) of
     (Inl e, w) \<Rightarrow> (Inl (BranchProvider e), s\<lparr>bs_world := w\<rparr>) | (Inr a, w) \<Rightarrow> (Inr a, s\<lparr>bs_world := w\<rparr>))"

fun branch_message :: "branch_error \<Rightarrow> string" where
  "branch_message (BranchProvider e) = error_message e"
| "branch_message (BranchName _) = ''Invalid slug''"

text \<open>The copy and what it leaves in the record, in \<open>createBranch\<close> and \<open>resetBranch\<close>.\<close>

definition copy_into :: "(clone_request \<Rightarrow> ('w, provisioned) provider_call) \<Rightarrow> clone_request \<Rightarrow> branch \<Rightarrow>
    ('w branch_state, branch_error, branch \<times> provisioned) act" where
  "copy_into clone req b =
     act_catch
       (act_bind (branch_world (clone req)) (\<lambda>d.
        act_bind (act_run (branches_update (br_id b) (cloned d (pr_password (cr_target req))))) (\<lambda>u.
        act_return (case u of Some b' \<Rightarrow> b' | None \<Rightarrow> b, d))))
       (\<lambda>e. act_bind (act_run (branches_update (br_id b) (\<lambda>b. b\<lparr>br_status := BranchFailed, br_lastError := Some (take 300 (branch_message e))\<rparr>)))
         (\<lambda>_. act_throw e))"

definition createBranch :: "'w provider \<Rightarrow> string \<Rightarrow> branch_input \<Rightarrow> ('w branch_state, branch_error, branch \<times> provisioned) act" where
  "createBranch pv i input =
     act_bind (act_some (pv_clone pv) (refuse ''Branches are not supported by the provider'')) (\<lambda>clone.
     act_bind (act_lift (assertBranchName (bi_name input))) (\<lambda>name.
     act_bind (act_asks (branches_listByProject (bi_projectId input))) (\<lambda>existing.
     act_seq (act_require (\<not> (\<exists>b \<in> set existing. br_name b = name)) (refuse ''Branch already exists''))
     (act_bind (act_asks bs_now) (\<lambda>now.
      act_bind (branch_put (new_branch i now input name)) (\<lambda>b.
      copy_into clone \<lparr>cr_sourceDatabaseId = (case bi_sourceDatabaseId input of None \<Rightarrow> bm_databaseId (bi_main input) | Some d \<Rightarrow> d),
        cr_sourcePassword = bm_password (bi_main input),
        cr_target = clone_target (bi_projectId input) (bi_organizationId input) (bi_main input) name (bm_password (bi_main input)),
        cr_branch = name\<rparr> b))))))"

definition branch_of :: "string \<Rightarrow> string \<Rightarrow> ('w branch_state, branch_error, branch) act" where
  "branch_of projectId branchId =
     act_bind (act_asks (branches_get branchId)) (\<lambda>b.
     act_bind (act_some b (refuse ''Branch not found'')) (\<lambda>b.
     act_seq (act_require (br_projectId b = projectId) (refuse ''Branch not found'')) (act_return b)))"

text \<open>Deleting the database of a branch, its error swallowed.\<close>

definition drop_database :: "'w provider \<Rightarrow> branch \<Rightarrow> ('w branch_state, branch_error, unit) act" where
  "drop_database pv b = act_when (br_databaseId b \<noteq> [])
     (act_catch (branch_world (pv_delete pv (br_databaseId b))) (\<lambda>_. act_return ()))"

definition deleteBranch :: "'w provider \<Rightarrow> string \<Rightarrow> string \<Rightarrow> ('w branch_state, branch_error, unit) act" where
  "deleteBranch pv projectId branchId =
     act_bind (branch_of projectId branchId) (\<lambda>b.
     act_bind (act_run (branches_update branchId (\<lambda>b. b\<lparr>br_status := BranchDeleting\<rparr>))) (\<lambda>_.
     act_seq (drop_database pv b) (act_modify (branches_remove branchId))))"

definition resetBranch :: "'w provider \<Rightarrow> string \<Rightarrow> string \<Rightarrow> string \<Rightarrow> branch_main \<Rightarrow>
    ('w branch_state, branch_error, branch \<times> provisioned) act" where
  "resetBranch pv projectId branchId password m =
     act_bind (branch_of projectId branchId) (\<lambda>b.
     act_bind (act_some (pv_clone pv) (refuse ''Branches are not supported by the provider'')) (\<lambda>clone.
     act_seq (drop_database pv b)
     (act_bind (act_run (branches_update branchId (\<lambda>b. b\<lparr>br_status := BranchCreating, br_lastError := None\<rparr>))) (\<lambda>_.
      copy_into clone \<lparr>cr_sourceDatabaseId = bm_databaseId m, cr_sourcePassword = bm_password m,
        cr_target = clone_target projectId (br_organizationId b) m (br_name b) password, cr_branch = br_name b\<rparr> b))))"

section \<open>Invariant\<close>

text \<open>Records under their own id, one branch of a name per project, every name a valid one.\<close>

definition branch_name_ok :: "string \<Rightarrow> bool" where
  "branch_name_ok n \<longleftrightarrow> n \<noteq> ''main'' \<and> slug_ok n \<and> length n \<le> 40"

definition branches_ok :: "(string, branch) jsmap \<Rightarrow> bool" where
  "branches_ok m \<longleftrightarrow> js_ok m \<and> (\<forall>i b. js_get m i = Some b \<longrightarrow> br_id b = i \<and> branch_name_ok (br_name b)) \<and>
     (\<forall>i j b c. js_get m i = Some b \<longrightarrow> js_get m j = Some c \<longrightarrow> br_projectId b = br_projectId c \<longrightarrow> br_name b = br_name c \<longrightarrow> i = j)"

lemma branches_ok_same:
  assumes "branches_ok m" "js_get m i = Some b" "br_id b' = br_id b" "br_projectId b' = br_projectId b" "br_name b' = br_name b"
  shows "branches_ok (js_set i b' m)"
proof -
  have js: "js_ok (js_set i b' m)" using assms(1) js_ok_set by (auto simp: branches_ok_def)
  have old: "\<exists>c. js_get m k = Some c \<and> br_id c = br_id d \<and> br_projectId c = br_projectId d \<and> br_name c = br_name d"
    if "js_get (js_set i b' m) k = Some d" for k d
    using that assms(2-5) by (cases "k = i") auto
  show ?thesis unfolding branches_ok_def
  proof (intro conjI allI impI)
    show "js_ok (js_set i b' m)" by (rule js)
  next
    fix k d assume "js_get (js_set i b' m) k = Some d"
    from old [OF this] show "br_id d = k" "branch_name_ok (br_name d)" using assms(1) unfolding branches_ok_def by metis+
  next
    fix k l d f assume kl: "js_get (js_set i b' m) k = Some d" "js_get (js_set i b' m) l = Some f"
      and same: "br_projectId d = br_projectId f" "br_name d = br_name f"
    obtain d' f' where "js_get m k = Some d'" "br_projectId d' = br_projectId d" "br_name d' = br_name d"
      "js_get m l = Some f'" "br_projectId f' = br_projectId f" "br_name f' = br_name f"
      using old [OF kl(1)] old [OF kl(2)] by blast
    then show "k = l" using same assms(1) unfolding branches_ok_def by metis
  qed
qed

lemma branches_ok_delete: "branches_ok m \<Longrightarrow> branches_ok (js_delete i m)"
  by (auto simp: branches_ok_def js_ok_delete split: if_splits)

lemma branches_ok_new:
  assumes "branches_ok m" "js_get m (br_id b) = None" "branch_name_ok (br_name b)"
    and "\<And>c. c \<in> set (js_values m) \<Longrightarrow> br_projectId c = br_projectId b \<Longrightarrow> br_name c \<noteq> br_name b"
  shows "branches_ok (js_set (br_id b) b m)"
proof -
  have "js_ok (js_set (br_id b) b m)" using assms(1) js_ok_set by (auto simp: branches_ok_def)
  moreover have new: "br_name c \<noteq> br_name b" if "js_get m k = Some c" "br_projectId c = br_projectId b" for k c
    using assms(4) js_get_values [OF that(1)] that(2) by blast
  moreover have "br_id c = k \<and> branch_name_ok (br_name c)" if "js_get (js_set (br_id b) b m) k = Some c" for k c
    using that assms(1,3) by (cases "k = br_id b") (auto simp: branches_ok_def)
  moreover have "k = l" if kl: "js_get (js_set (br_id b) b m) k = Some c" "js_get (js_set (br_id b) b m) l = Some d"
    "br_projectId c = br_projectId d" "br_name c = br_name d" for k l c d
  proof (cases "k = br_id b")
    case True
    then have "c = b" using kl(1) by simp
    then show ?thesis using True kl new by (cases "l = br_id b") auto
  next
    case False
    then have k: "js_get m k = Some c" using kl(1) by simp
    show ?thesis
    proof (cases "l = br_id b")
      case True
      then have "d = b" using kl(2) by simp
      then show ?thesis using new [OF k] kl(3,4) by simp
    next
      case l: False
      then have "js_get m l = Some d" using kl(2) by simp
      then show ?thesis using k kl(3,4) assms(1) unfolding branches_ok_def by blast
    qed
  qed
  ultimately show ?thesis unfolding branches_ok_def by blast
qed

definition keeps_branches :: "'w branch_state \<Rightarrow> 'w branch_state \<Rightarrow> bool" where
  "keeps_branches s t \<longleftrightarrow> (branches_ok (bs_branches s) \<longrightarrow> branches_ok (bs_branches t))"

lemma update_keeps:
  assumes "\<And>b. br_name (f b) = br_name b"
  shows "keeps_branches s (snd (branches_update i f s))"
  using assms by (auto simp: keeps_branches_def branches_update_def Let_def intro!: branches_ok_same split: option.splits)

lemma world_keeps: "keeps_branches s (snd (branch_world call s))"
  by (auto simp: keeps_branches_def branch_world_def split: prod.splits sum.splits)

interpretation branch_kept: kept_relation keeps_branches
  by unfold_locales (auto simp: keeps_branches_def)

lemma copy_keeps: "keeps keeps_branches (copy_into clone req b)"
  unfolding copy_into_def
  by (intro branch_kept.keeps_catch branch_kept.keeps_bind branch_kept.keeps_run branch_kept.keeps_return branch_kept.keeps_throw update_keeps)
    (simp_all add: keeps_def world_keeps cloned_def)

lemma drop_keeps: "keeps keeps_branches (drop_database pv b)"
  unfolding drop_database_def
  by (intro branch_kept.keeps_when branch_kept.keeps_catch branch_kept.keeps_return) (simp add: keeps_def world_keeps)

lemma branch_of_keeps: "keeps keeps_branches (branch_of p i)"
  unfolding branch_of_def by (intro branch_kept.keeps_rules)

lemma delete_keeps: "keeps keeps_branches (deleteBranch pv p i)"
  unfolding deleteBranch_def
  by (intro branch_kept.keeps_bind branch_kept.keeps_run branch_kept.keeps_seq branch_kept.keeps_modify branch_of_keeps drop_keeps update_keeps)
    (simp_all add: keeps_branches_def branches_remove_def branches_ok_delete)

lemma reset_keeps: "keeps keeps_branches (resetBranch pv p i pw m)"
  unfolding resetBranch_def
  by (intro branch_kept.keeps_bind branch_kept.keeps_some branch_kept.keeps_run branch_kept.keeps_seq branch_of_keeps drop_keeps copy_keeps update_keeps)
    simp_all

lemma create_keeps:
  assumes "branches_ok (bs_branches s)" and "js_get (bs_branches s) i = None"
  shows "branches_ok (bs_branches (snd (createBranch pv i input s)))"
proof (cases "pv_clone pv")
  case None
  then show ?thesis using assms(1) by (simp add: createBranch_def act_defs)
next
  case (Some clone)
  show ?thesis
  proof (cases "assertBranchName (bi_name input)")
    case (Inl e)
    then show ?thesis using assms(1) Some by (simp add: createBranch_def act_defs)
  next
    case (Inr name)
    show ?thesis
    proof (cases "\<exists>b \<in> set (branches_listByProject (bi_projectId input) s). br_name b = name")
      case True
      then show ?thesis using assms(1) Some Inr by (auto simp: createBranch_def act_defs)
    next
      case False
      let ?b = "new_branch i (bs_now s) input name"
      have "branch_name_ok name" using Inr by (auto simp: assertBranchName_def branch_name_ok_def Let_def split: if_splits)
      then have "branches_ok (js_set (br_id ?b) ?b (bs_branches s))"
        using assms False by (intro branches_ok_new) (auto simp: new_branch_def branches_listByProject_def)
      then have "branches_ok (bs_branches (snd (copy_into clone req ?b (s\<lparr>bs_branches := js_set (br_id ?b) ?b (bs_branches s)\<rparr>))))" for req
        using copy_keeps [THEN keepsD, of "s\<lparr>bs_branches := js_set (br_id ?b) ?b (bs_branches s)\<rparr>" clone req ?b]
        by (simp add: keeps_branches_def)
      then show ?thesis using Some Inr False by (simp add: createBranch_def act_defs branch_put_def)
    qed
  qed
qed

datatype branch_request = BranchCreate string branch_input | BranchDelete string string | BranchReset string string string branch_main

definition branch_step :: "'w provider \<Rightarrow> branch_request \<Rightarrow> 'w branch_state \<Rightarrow> 'w branch_state" where
  "branch_step pv r s = (case r of
     BranchCreate i input \<Rightarrow> snd (createBranch pv i input s)
   | BranchDelete p i \<Rightarrow> snd (deleteBranch pv p i s)
   | BranchReset p i pw m \<Rightarrow> snd (resetBranch pv p i pw m s))"

inductive branch_reach :: "'w provider \<Rightarrow> 'w branch_state \<Rightarrow> bool" for pv where
  start: "bs_branches s = [] \<Longrightarrow> branch_reach pv s"
| step: "branch_reach pv s \<Longrightarrow> (\<And>i input. r = BranchCreate i input \<Longrightarrow> js_get (bs_branches s) i = None) \<Longrightarrow>
    branch_reach pv (branch_step pv r s)"

text \<open>C36. Whatever requests come and whatever the provider does with them, no two branches of a project ever have the same
  name, none is called \<open>main\<close>, and every name is a valid slug of at most forty characters.\<close>

theorem branch_names_are_unique:
  assumes "branch_reach pv s"
  shows "(\<forall>i j b c. js_get (bs_branches s) i = Some b \<longrightarrow> js_get (bs_branches s) j = Some c \<longrightarrow>
      br_projectId b = br_projectId c \<longrightarrow> br_name b = br_name c \<longrightarrow> i = j) \<and>
    (\<forall>b \<in> set (js_values (bs_branches s)). br_name b \<noteq> ''main'' \<and> slug_ok (br_name b) \<and> length (br_name b) \<le> 40)"
proof -
  have "branches_ok (bs_branches s)" using assms
  proof induction
    case (start s)
    then show ?case by (simp add: branches_ok_def)
  next
    case (step s r)
    then show ?case using create_keeps delete_keeps [THEN keepsD, of s pv] reset_keeps [THEN keepsD, of s pv]
      by (cases r) (auto simp: branch_step_def keeps_branches_def)
  qed
  then show ?thesis using js_values_get unfolding branches_ok_def branch_name_ok_def by metis
qed

section \<open>Runs against a scripted provider\<close>

text \<open>The state is the list of answers to come; a database is healthy once created, and clones succeed.\<close>

definition scripted :: "(prov_error + provisioned) list provider" where
  "scripted = \<lparr>pv_create = (\<lambda>_ w. case w of [] \<Rightarrow> (Inl (OtherFails ''end''), []) | r # rs \<Rightarrow> (r, rs)),
     pv_status = (\<lambda>_ _ w. (Inr Healthy, w)), pv_delete = (\<lambda>_ w. (Inr (), w)), pv_start = (\<lambda>_ w. (Inr (), w)),
     pv_stop = (\<lambda>_ w. (Inr (), w)), pv_restart = (\<lambda>_ w. (Inr (), w)),
     pv_clone = Some (\<lambda>_ w. case w of [] \<Rightarrow> (Inl (OtherFails ''end''), []) | r # rs \<Rightarrow> (r, rs))\<rparr>"

definition run_db :: "string \<Rightarrow> provisioned" where
  "run_db d = \<lparr>pd_databaseId = d, pd_host = ''h'', pd_port = 5432, pd_dbName = ''n'', pd_dbUser = ''u'', pd_version = ''16''\<rparr>"

definition run_input :: provision_input where
  "run_input = \<lparr>pi_projectId = ''p'', pi_organizationId = ''o'', pi_userId = ''u'', pi_slug = ''shop'', pi_password = ''secret'',
     pi_version = None, pi_region = None, pi_idempotencyKey = ''k''\<rparr>"

definition run_start :: "(prov_error + provisioned) list \<Rightarrow> (prov_error + provisioned) list prov_state" where
  "run_start w = \<lparr>ps_jobs = [], ps_counter = 0, ps_audit = [], ps_now = 0, ps_world = w\<rparr>"

definition run_provision :: "(prov_error + provisioned) list prov_state \<Rightarrow> (prov_error + provision_outcome) \<times> (prov_error + provisioned) list prov_state" where
  "run_provision s = provisionProjectDatabase (\<lambda>_. None) scripted run_input None None s"

lemma run_key: "jobs_findByKey (pi_organizationId run_input) (pi_idempotencyKey run_input) (run_start w) = None"
  by (simp add: jobs_findByKey_def run_start_def)

lemma run_free: "key_free (pi_organizationId run_input) (pi_idempotencyKey run_input) (run_start w)"
  by (simp add: key_free_def run_key)

theorem provisioning_settles_witness:
  "\<exists>i j. js_get (ps_jobs (snd (run_provision (run_start [Inl (ProvisionerFails ''busy'' True), Inr (run_db ''d'')])))) i = Some j \<and>
     pj_attempts j \<le> 3"
  using provisioning_settles [OF prod.collapse [symmetric] run_free, of "\<lambda>_. None" scripted None "[Inl (ProvisionerFails ''busy'' True), Inr (run_db ''d'')]"]
  by (auto simp: run_provision_def)

lemma run_succeeds:
  "\<exists>t. run_provision (run_start [Inr (run_db ''d''), Inr (run_db ''e'')]) =
     (Inr \<lparr>po_jobId = job_id 1, po_database = Some (run_db ''d''), po_deduplicated = False\<rparr>, t)"
  unfolding run_provision_def free_key_is_driven [OF run_free]
  by (simp add: driveProvision_def driven_job_def jobs_create_def run_key [simplified] provision_job_def run_input_def jobs_findByKey_def
      jobs_insert_def run_start_def job_of_def Let_def act_defs prov_record_def job_change_def drive_loop.simps begin_attempt_def
      jobs_appendLog_def attempt_once_def in_world_def scripted_def)

theorem repeated_request_is_deduplicated_witness:
  "\<exists>d. fst (run_provision (snd (run_provision (run_start [Inr (run_db ''d''), Inr (run_db ''e'')])))) =
     Inr \<lparr>po_jobId = job_id 1, po_database = d, po_deduplicated = True\<rparr>"
proof -
  obtain t where t: "run_provision (run_start [Inr (run_db ''d''), Inr (run_db ''e'')]) =
      (Inr \<lparr>po_jobId = job_id 1, po_database = Some (run_db ''d''), po_deduplicated = False\<rparr>, t)"
    using run_succeeds by blast
  have "js_ok (ps_jobs (run_start [Inr (run_db ''d''), Inr (run_db ''e'')]))" by (simp add: run_start_def)
  moreover have "js_get (ps_jobs (run_start [Inr (run_db ''d''), Inr (run_db ''e'')]))
      (job_id (ps_counter (run_start [Inr (run_db ''d''), Inr (run_db ''e'')]) + 1)) = None" by (simp add: run_start_def)
  ultimately show ?thesis
    using repeated_request_is_deduplicated [OF t [unfolded run_provision_def] _ _ HOL.refl HOL.refl, of None] run_key t
    by (auto simp: run_provision_def Let_def)
qed

text \<open>\<open>listByStatus\<close> hands a worker the newest jobs first.\<close>

lemma worker_gets_the_newest_first:
  "map pj_createdAt (jobs_listByStatus JobPending 100 \<lparr>ps_jobs = map (\<lambda>(i, t). (i, job_of i t (provision_job run_input 3))) [(''a'', 1), (''b'', 2)],
     ps_counter = 2, ps_audit = [], ps_now = 2, ps_world = ()\<rparr>) = [2, 1]"
  by code_simp

definition run_branch :: branch_input where
  "run_branch = \<lparr>bi_projectId = ''p'', bi_organizationId = ''o'', bi_name = ''dev'', bi_sourceDatabaseId = None,
     bi_main = \<lparr>bm_databaseId = ''d'', bm_password = ''s'', bm_version = ''16'', bm_region = ''r'', bm_slug = ''shop''\<rparr>\<rparr>"

definition run_no_branches :: "(prov_error + provisioned) list branch_state" where
  "run_no_branches = \<lparr>bs_branches = [], bs_now = 0, bs_world = [Inr (run_db ''d'')]\<rparr>"

lemma run_branch_made:
  "map br_name (js_values (bs_branches (branch_step scripted (BranchCreate ''b1'' run_branch) run_no_branches))) = [''dev'']"
  by code_simp

theorem branch_names_are_unique_witness:
  "map br_name (js_values (bs_branches (branch_step scripted (BranchCreate ''b1'' run_branch) run_no_branches))) = [''dev''] \<and>
   list_all (\<lambda>b. br_name b \<noteq> ''main'' \<and> slug_ok (br_name b))
     (js_values (bs_branches (branch_step scripted (BranchCreate ''b1'' run_branch) run_no_branches)))"
proof -
  have "branch_reach scripted run_no_branches" by (rule branch_reach.start) (simp add: run_no_branches_def)
  then have "branch_reach scripted (branch_step scripted (BranchCreate ''b1'' run_branch) run_no_branches)"
    by (rule branch_reach.step) (simp add: run_no_branches_def)
  from branch_names_are_unique [OF this] run_branch_made show ?thesis by (simp add: list_all_iff)
qed

end
