(* ===== verification/Spec2Isabelle.thy ===== *)
theory Spec2Isabelle
  imports Rbac AgentSafety AgentApprovalSafety AutomationQueues AutomationSchedules AutomationWebhooks
    WebhookGuard BillingSubscriptions AuthLive StorageTokens StorageLimits DataCsv DataSql DataKeys
    RealtimeFrames RealtimeRuns ProvisionBranches
begin

text \<open>
  A model of the core of CloudNivo, a backend-as-a-service control plane written in TypeScript, and the
  properties that make it correct.

  The program.  The API server (\<open>apps/api/src\<close>) puts services in front of stores.  A human's request is
  guarded by roles and tenant membership (\<open>packages/database/src/rbac.ts\<close>, \<open>tenant.ts\<close>), an AI agent's request
  by a scoped token, an address allow list and, for a destructive call, a human approval
  (\<open>packages/agents/src\<close> behind \<open>apps/api/src/agents.ts\<close>).  Projects use message queues, cron schedules and outbound
  webhooks (\<open>packages/automation/src\<close>).  Every organization has a subscription, metered usage, quotas, invoices
  and budgets (\<open>packages/billing/src\<close>).  The users of a project's own application sign up and in with passwords, codes,
  links, authenticators and passkeys (\<open>packages/auth/src\<close>).  A project's files live in buckets with quotas, access
  policies and signed links (\<open>packages/storage/src\<close>).  Its own database is provisioned, copied into branches and deleted by
  jobs (\<open>packages/provisioning/src\<close>), read and written over a data API with keys (\<open>packages/api-engine/src\<close>), and its changes
  are pushed over web sockets (\<open>packages/realtime/src\<close>).

  The theories.  Shared: \<open>Prelude\<close> (errors, JavaScript's \<open>Map\<close> with its interface \<open>keyed_map\<close>, sorts), \<open>JsStrings\<close>
  (trim, split, numerals, \<open>Number\<close>), \<open>Json\<close> (\<open>unknown\<close> values, \<open>JSON.stringify\<close>, the canonical text of an operation),
  \<open>Calendar\<close> (UTC fields of a time), \<open>Doubles\<close> (IEEE rounding, \<open>String\<close> of a number).

  \<open>Rbac\<close>: \<open>rbac.ts\<close>, \<open>tenant.ts\<close> and the database state machine of \<open>lifecycle.ts\<close>.  Its lemmas show that
  privilege grows with the role, that list scoping and the per-resource guard agree, and that a database serves only
  after it was declared ready.

  \<open>AgentTokens\<close>, \<open>AgentApprovals\<close>, \<open>AgentService\<close>, \<open>AgentGate\<close>: the files \<open>scopes.ts\<close>, \<open>ip.ts\<close>, \<open>tokens.ts\<close>,
  \<open>approvals.ts\<close>, \<open>activity.ts\<close>, \<open>service.ts\<close> and the gates of \<open>apps/api/src/agents.ts\<close>; the state is the record
  \<open>agent_state\<close> (token table, counter, approvals, activity log).  \<open>agent_step\<close> is one call of the service.
  \<open>AgentSafety\<close> proves the state invariant, that revocation is final and what rotation changes;
  \<open>AgentApprovalSafety\<close> that an approval executes at most one operation, the one that was asked for.  The locale
  \<open>approval_contract\<close> states what a client relies on, interpreted by the approval store.

  \<open>Cron\<close>, \<open>AutomationStore\<close>, \<open>AutomationService\<close>: \<open>cron.ts\<close>, \<open>types.ts\<close>, \<open>memory.ts\<close>, \<open>signing.ts\<close> and
  \<open>service.ts\<close> of the automation package over the record \<open>automation_state\<close>.  \<open>AutomationQueues\<close> proves
  delivery, leases and idempotent publishing, \<open>AutomationSchedules\<close> what a firing pass does, \<open>AutomationWebhooks\<close>
  tenant isolation and bounded retries, \<open>WebhookGuard\<close> which hosts a webhook may name.

  \<open>BillingPlans\<close>, \<open>BillingStore\<close>, \<open>BillingService\<close>, \<open>BillingInvoices\<close>: \<open>types.ts\<close>, \<open>plans.ts\<close>, \<open>providers.ts\<close>,
  \<open>store.ts\<close> and \<open>service.ts\<close> of the billing package over the record \<open>billing_state\<close>.  \<open>BillingSteps\<close> states the
  ledger's abstract steps and that every service call refines a sequence of them; \<open>BillingUsage\<close> proves usage
  aggregation, warnings and the quota gate, \<open>BillingLedger\<close> events, payments and invoices, \<open>BillingSubscriptions\<close>
  time-driven transitions, plan changes and what an invoice charges.

  Authentication.  \<open>AuthPrimitives\<close>: \<open>password-policy.ts\<close>, the password and key functions of \<open>index.ts\<close>,
  \<open>customer/metadata.ts\<close> and \<open>customer/tokens.ts\<close>.  \<open>AuthCodes\<close>: the memory cache, passcodes (\<open>otp.ts\<close>) and the
  denylist of revoked sessions (\<open>index.ts\<close>), with the locale \<open>expiring_store\<close> that both stores provide.  \<open>AuthTotp\<close>:
  \<open>totp.ts\<close> on 32-bit registers.  \<open>WebAuthn\<close>: \<open>webauthn.ts\<close>, from base64 and CBOR to the two ceremonies.  \<open>AuthStore\<close>:
  \<open>customer/types.ts\<close> and \<open>store.ts\<close> over the record \<open>auth_state\<close>.  \<open>AuthService\<close>, \<open>AuthFactors\<close>: every operation of
  \<open>customer/service.ts\<close> as an action of the theory \<open>Actions\<close> (state and errors); \<open>auth_run\<close> is a sequence of requests.
  \<open>AuthRelations\<close> proves once, for a relation that the store's primitive steps keep, that every operation keeps it
  (the locales \<open>quiet_relation\<close>, \<open>session_relation\<close>, \<open>admin_relation\<close>, and \<open>steady_relation\<close>, \<open>steady_session\<close>,
  \<open>steady_admin\<close> for the operations that do not rotate a refresh token); \<open>AuthSafety\<close> and \<open>AuthSessions\<close> interpret them
  for isolation of projects, roles, revocation and live sessions, \<open>AuthRefresh\<close> for the hashes a session keeps, and \<open>AuthTokens\<close>, \<open>AuthRefresh\<close>, \<open>AuthLive\<close> prove what
  follows for one-time tokens, refresh rotation, new passwords, the second factor and disabled accounts.

  Storage.  \<open>StorageRules\<close>: \<open>types.ts\<close>, \<open>validation.ts\<close>, \<open>policies.ts\<close> and \<open>mime.ts\<close>.  \<open>StorageStore\<close>: the memory store of
  \<open>metadata.ts\<close> and the local file provider of \<open>providers.ts\<close> (a disk of files and directories).  \<open>StorageSigned\<close>: the tokens of
  \<open>signed-urls.ts\<close> and the parameters of \<open>transform.ts\<close>.  \<open>StorageService\<close>: every operation of \<open>service.ts\<close> as an action
  on metadata, disk and audit log.  \<open>StorageInvariants\<close>, \<open>StorageSteps\<close> and \<open>StoragePurge\<close> show that each operation keeps the
  invariant of the metadata and what lies outside its project, and that deleting a project ends; \<open>StorageSafety\<close> serves
  sequences of requests, each run to its end before the next, and draws exact usage and isolation from that; \<open>StorageObjects\<close> states that the objects are a finite
  map from paths to bytes, that paths stay in their folder and customers in theirs; \<open>StorageTokens\<close> what signed links are
  worth and that cache keys tell transforms apart; \<open>StorageLimits\<close> the runs in which the service falls short.

  Data API.  \<open>DataCsv\<close>: \<open>csv.ts\<close>, the parser, its limits and the printer, and that a printed table is read back.
  \<open>DataQueries\<close>: \<open>query-builder.ts\<close>, \<open>engine.ts\<close>, \<open>introspection.ts\<close> and the schema types of \<open>project-db.ts\<close>.  \<open>DataSql\<close>
  reads statements as a database does (\<open>sql_lex\<close>) and shows that those of the builders are fixed words, quoted names of the
  resolved table and numbered placeholders.  \<open>DataKeys\<close>: \<open>keys.ts\<close> over the record \<open>key_state\<close>; \<open>key_run\<close> is a sequence of
  requests, and revocation is final in it.

  Realtime.  \<open>RealtimeFrames\<close>: \<open>protocol.ts\<close> on bytes and the socket of \<open>server.ts\<close> that joins fragments; round trip and
  independence of where the stream is cut, up to the limit of one decoding, which every call counts anew.  \<open>RealtimeGateway\<close>: \<open>types.ts\<close>, \<open>authz.ts\<close>, the memory drivers of \<open>presence.ts\<close> and
  \<open>bus.ts\<close>, and every operation of \<open>gateway.ts\<close> over the record \<open>gw_state\<close> (connections, rooms, metrics, the messages sent
  so far).  \<open>RealtimeSafety\<close>: \<open>gw_step\<close> is one event, and what an event may send to whom is shown once per operation and drawn
  on by isolation of projects and by the roles that only listen.  \<open>RealtimeInvariants\<close>: the reachable states, the sweep
  and the heartbeat.  \<open>RealtimeRuns\<close>: concrete runs, among them those in which a client gets past a rule.

  Provisioning.  \<open>ProvisionNames\<close>: \<open>validation.ts\<close> and the handles of \<open>managed-provider.ts\<close>.  \<open>ProvisionJobs\<close>: \<open>jobs.ts\<close>,
  \<open>orchestrator.ts\<close> and the interface of \<open>provisioner.ts\<close>, a record \<open>provider\<close> of operations on an infrastructure of any type, over
  the record \<open>prov_state\<close>.  \<open>ProvisionSafety\<close>: a request settles within its attempts, whatever the provider does, and a
  repeated one is answered from its job unless the first job of its key failed.  \<open>ProvisionBranches\<close>: \<open>branches.ts\<close>, its invariant, and concrete runs.

  Conventions.  A time is a number of milliseconds; an operation reads the clock once.  Strings are ASCII.  An
  exception is \<open>Inl\<close> of its code and status; its human-readable message is dropped unless the code logs or stores
  it.  JSON numbers are integers.  A \<open>Map\<close> is an association list in insertion order; where a comparator leaves the
  order of equal times to the engine the model keeps insertion order and no theorem depends on it.  Database numbers
  are exact; quota percentages and overage units go through \<open>to_double\<close>.

  Order.  An operation runs to its end before the next: where the code awaits between a read and a write (an upload
  between its look at the usage and its entry, \<open>createBranch\<close> between the list and the insert, a request between
  the look for its key and the job), requests that overlap there are outside the theorems.  \<open>StorageSafety\<close> bounds what an
  overlapped upload may exceed, and \<open>StorageLimits\<close> has a run in which two do.

  Parameters.  SHA-256 (\<open>sha\<close>), HMAC (\<open>hmac\<close>), the random identifiers, the platform's URL parser, the client address
  and the callbacks (function invoker, deliverer, gauge reader) are arguments of the definitions that use them.  So are the
  executor of a statement and the reader of a schema, a database provider, the parser of a logged \<open>JSON\<close> text, and, in
  \<open>gw_env\<close>, what the gateway is given: clock, options, rate counters, \<open>JSON.parse\<close> and the two hooks for tables.

  For authentication further: scrypt, the token library, HMAC-SHA1, signature verification and the SMS driver, in
  \<open>auth_env\<close>; what a call draws at random and its time are in its \<open>call\<close>.

  Bounds.  Provisioning recurs on the attempts that are left.  The cron search has its own bound of 525600 minutes.  The CBOR reader has a depth bound of one more than the
  length of its buffer, and is proved never to reach it.  Every other loop is structural or has a termination proof.

  Not modelled: the PostgreSQL stores (\<open>store-drizzle.ts\<close>, \<open>keys-drizzle.ts\<close>, \<open>jobs-drizzle.ts\<close>), which implement the same
  interfaces as the memory stores modelled here over a database that is not in the repository; the HTTP plumbing, the
  OpenAPI documents, the dashboard and the SDK, which render or transport; the runtimes of functions, the AI plans and the
  SQL tools, which run on external servers.  Of authentication: the providers reached over HTTP (\<open>oidc.ts\<close>,
  \<open>captcha.ts\<close>, \<open>sso-presets.ts\<close>), the mail templates, \<open>pg-store.ts\<close> and \<open>rls.ts\<close>.  Of storage: the S3 driver,
  \<open>metadata-drizzle.ts\<close> and the image library.  Of realtime: the Redis drivers, the upgrade handshake, the change capture and
  the clients.  Of provisioning: the commands the container and managed providers send.
\<close>

end
